(* ===== verification/Prelude.thy ===== *)
theory Prelude
  imports Complex_Main "HOL-Library.Char_ord" "HOL-Library.List_Lexorder" "HOL-Library.Product_Lexorder"
    "HOL-Library.Multiset"
begin

text \<open>
  What every component of the development shares.

  \<^item> The values the Python code passes around: instants and durations (integers counting
    microseconds, as \<^verbatim>\<open>datetime\<close> does), UUIDs (ordered like the integers they wrap), strings
    with the \<^verbatim>\<open>upper\<close> and slicing operations the code uses, and the decimal rendering of
    integers inside f-strings.
  \<^item> Python exceptions as values of a sum type.
  \<^item> The generic facts on lists, \<^const>\<open>find\<close>, stable sorting and association lists used by the
    component theories.
\<close>

named_theorems frame_simps \<open>fields an operation leaves alone\<close>
named_theorems op_defs \<open>definitions of the operations of a component\<close>
named_theorems inv_intros \<open>preservation of component invariants\<close>

section \<open>Values\<close>

text \<open>Timezone-aware instants: microseconds since 1970-01-01T00:00:00Z. Durations are in
  microseconds too, like \<^verbatim>\<open>timedelta\<close>.\<close>

type_synonym datetime = int
type_synonym timedelta = int
type_synonym uuid = nat

definition seconds_td :: "int \<Rightarrow> timedelta" where
  "seconds_td s = s * 1000000"

definition days_td :: "int \<Rightarrow> timedelta" where
  "days_td d = d * 86400000000"

lemma seconds_td_simps [simp]:
  "seconds_td a < seconds_td b \<longleftrightarrow> a < b" "seconds_td a \<le> seconds_td b \<longleftrightarrow> a \<le> b"
  "0 < seconds_td a \<longleftrightarrow> 0 < a" "0 \<le> seconds_td a \<longleftrightarrow> 0 \<le> a"
  by (auto simp: seconds_td_def)

text \<open>Exceptions the modelled code raises.\<close>

datatype py_error = ValueError | KeyError | IndexError | ZeroDivisionError | IntegrityError

text \<open>\<^verbatim>\<open>str.upper()\<close> on the ASCII symbols the system trades, \<^verbatim>\<open>s[:n]\<close> and \<^verbatim>\<open>s[n:]\<close>.\<close>

definition char_upper :: "char \<Rightarrow> char" where
  "char_upper c = (let k = of_char c :: nat in if 97 \<le> k \<and> k \<le> 122 then char_of (k - 32) else c)"

definition upper :: "string \<Rightarrow> string" where
  "upper s = map char_upper s"

lemma char_upper_idem: "char_upper (char_upper c) = char_upper c"
proof (cases "97 \<le> (of_char c :: nat) \<and> (of_char c :: nat) \<le> 122")
  case True
  then have "(of_char (char_upper c) :: nat) = of_char c - 32"
    by (auto simp: char_upper_def Let_def mod_less)
  with True show ?thesis by (subst char_upper_def) (auto simp: Let_def)
next
  case False
  then have "char_upper c = c" by (auto simp: char_upper_def Let_def)
  then show ?thesis by simp
qed

lemma upper_idem [simp]: "upper (upper s) = upper s"
  by (simp add: upper_def char_upper_idem)

definition char_lower :: "char \<Rightarrow> char" where
  "char_lower c = (let k = of_char c :: nat in if 65 \<le> k \<and> k \<le> 90 then char_of (k + 32) else c)"

text \<open>\<^verbatim>\<open>str.lower()\<close> and \<^verbatim>\<open>str.strip()\<close> on ASCII text.\<close>

definition lower :: "string \<Rightarrow> string" where
  "lower s = map char_lower s"

definition py_space :: "char \<Rightarrow> bool" where
  "py_space c = (let k = of_char c :: nat in (9 \<le> k \<and> k \<le> 13) \<or> (28 \<le> k \<and> k \<le> 32))"

definition strip_by :: "(char \<Rightarrow> bool) \<Rightarrow> string \<Rightarrow> string" where
  "strip_by P s = rev (dropWhile P (rev (dropWhile P s)))"

definition strip :: "string \<Rightarrow> string" where
  "strip s = strip_by py_space s"

text \<open>\<^verbatim>\<open>w in s\<close>, and \<^verbatim>\<open>str.split()\<close> on runs of white space.\<close>

definition contains :: "string \<Rightarrow> string \<Rightarrow> bool" where
  "contains w s = list_ex (\<lambda>i. take (length w) (drop i s) = w) [0..<length s + 1]"

fun split_ws :: "string \<Rightarrow> string \<Rightarrow> string list" where
  "split_ws w [] = (if w = [] then [] else [w])"
| "split_ws w (c # cs) = (if py_space c then (if w = [] then split_ws [] cs else w # split_ws [] cs) else split_ws (w @ [c]) cs)"

definition words :: "string \<Rightarrow> string list" where
  "words s = split_ws [] s"

text \<open>\<^verbatim>\<open>str.split(c)\<close> with a one-character separator.\<close>

fun split_on :: "char \<Rightarrow> string \<Rightarrow> string list" where
  "split_on c [] = [[]]"
| "split_on c (x # xs) = (if x = c then [] # split_on c xs
     else case split_on c xs of [] \<Rightarrow> [[x]] | p # ps \<Rightarrow> (x # p) # ps)"

text \<open>Decimal rendering of an integer (\<^verbatim>\<open>str(int)\<close>).\<close>

fun show_nat :: "nat \<Rightarrow> string" where
  "show_nat n = (if n < 10 then [char_of (48 + n)] else show_nat (n div 10) @ [char_of (48 + n mod 10)])"

declare show_nat.simps [simp del]

definition show_int :: "int \<Rightarrow> string" where
  "show_int i = (if i < 0 then ''-'' @ show_nat (nat (- i)) else show_nat (nat i))"

section \<open>Lists\<close>

lemma find_append:
  "find P (xs @ ys) = (case find P xs of Some x \<Rightarrow> Some x | None \<Rightarrow> find P ys)"
  by (induction xs) auto

lemma find_SomeD: "find P xs = Some x \<Longrightarrow> P x \<and> x \<in> set xs"
  by (auto simp: find_Some_iff nth_mem)

lemma find_None_filter: "find P xs = None \<longleftrightarrow> filter P xs = []"
  by (auto simp: find_None_iff filter_empty_conv)

lemma find_unique:
  assumes "distinct (map f xs)" "x \<in> set xs"
  shows "find (\<lambda>y. f y = f x) xs = Some x"
  using assms by (induction xs) auto

lemma sorted_take: "sorted xs \<Longrightarrow> sorted (take n xs)"
  by (metis append_take_drop_id sorted_append)

text \<open>Removing the first element that satisfies a predicate: the
  \<^verbatim>\<open>for idx, p in enumerate(..): del ..[idx]; return\<close> idiom.\<close>

fun remove_first :: "('a \<Rightarrow> bool) \<Rightarrow> 'a list \<Rightarrow> 'a list" where
  "remove_first P [] = []"
| "remove_first P (x # xs) = (if P x then xs else x # remove_first P xs)"

lemma set_remove_first_subset: "set (remove_first P xs) \<subseteq> set xs"
  by (induction xs) auto

lemma remove_first_absent: "\<forall>x\<in>set xs. \<not> P x \<Longrightarrow> remove_first P xs = xs"
  by (induction xs) auto

lemma remove_first_append_absent:
  "\<forall>x\<in>set xs. \<not> P x \<Longrightarrow> remove_first P (xs @ ys) = xs @ remove_first P ys"
  by (induction xs) auto

lemma remove_first_key:
  assumes "distinct (map f xs)"
  shows "remove_first (\<lambda>x. f x = k) xs = filter (\<lambda>x. f x \<noteq> k) xs"
  using assms
proof (induction xs)
  case (Cons x xs)
  have "filter (\<lambda>y. f y \<noteq> k) xs = xs" if "f x = k"
    using Cons.prems that by (intro filter_True) (auto simp: rev_image_eqI)
  with Cons show ?case by auto
qed simp

lemma distinct_map_remove_first:
  "distinct (map f xs) \<Longrightarrow> distinct (map f (remove_first P xs))"
  by (induction xs) (auto dest: set_remove_first_subset [THEN subsetD])

text \<open>\<^verbatim>\<open>sorted(.., key=..)\<close> is a stable sort, \<^const>\<open>sort_key\<close>; Python's \<^verbatim>\<open>sorted(set(..))\<close> on
  totally ordered values is \<^const>\<open>sort\<close> after \<^const>\<open>remdups\<close>.\<close>

lemma set_sort_remdups [simp]: "set (sort (remdups xs)) = set xs"
  by simp

lemma distinct_sort_remdups [simp]: "distinct (sort (remdups xs))"
  by simp

lemma sorted_distinct_eqI:
  assumes "sorted xs" "distinct xs" "sorted ys" "distinct ys" "set xs = set ys"
  shows "xs = ys"
  using assms by (metis sorted_distinct_set_unique)

text \<open>The first \<open>n\<close> elements of a sorted list do not depend on elements that come after them.\<close>

lemma sort_append_larger:
  assumes "\<And>x y. x \<in> set xs \<Longrightarrow> y \<in> set ys \<Longrightarrow> x \<le> (y :: 'a :: linorder)"
  shows "sort (xs @ ys) = sort xs @ sort ys"
proof (rule properties_for_sort)
  show "mset (sort xs @ sort ys) = mset (xs @ ys)" by simp
  show "sorted (sort xs @ sort ys)" using assms by (auto simp: sorted_append)
qed

section \<open>Association lists as insertion-ordered dictionaries\<close>

text \<open>A Python \<^verbatim>\<open>dict\<close> whose iteration order matters: the value of an existing key is replaced
  in place, a new key goes to the end.\<close>

fun dict_set :: "'k \<Rightarrow> 'v \<Rightarrow> ('k \<times> 'v) list \<Rightarrow> ('k \<times> 'v) list" where
  "dict_set k v [] = [(k, v)]"
| "dict_set k v ((k', v') # d) = (if k' = k then (k, v) # d else (k', v') # dict_set k v d)"

lemma map_of_dict_set [simp]: "map_of (dict_set k v d) = (map_of d)(k \<mapsto> v)"
  by (induction d) (auto simp: fun_eq_iff)

lemma keys_dict_set: "fst ` set (dict_set k v d) = insert k (fst ` set d)"
proof (induction d)
  case (Cons a d)
  then show ?case by (cases a) (simp add: insert_commute)
qed simp

lemma distinct_dict_set: "distinct (map fst d) \<Longrightarrow> distinct (map fst (dict_set k v d))"
proof (induction d)
  case (Cons a d)
  then show ?case using keys_dict_set [of k v d] by (cases a) auto
qed simp

end
