(* ===== verification/F64.thy ===== *)
theory F64
  imports Prelude "HOL-Library.Log_Nat"
begin

text \<open>
  Python's \<^verbatim>\<open>float\<close>: IEEE 754 binary64 with round-half-even.

  A value of type \<open>f64\<close> is a rational that binary64 can represent; \<open>val\<close> reads it. Every
  arithmetic operation rounds the exact result (\<^verbatim>\<open>+ - * /\<close> of the code are \<open>+ - * /\<close> here), with a
  53-bit significand and gradual underflow at \<open>2\<^bsup>-1074\<^esup>\<close>. Addition is therefore neither associative
  nor cancellative, and theorems about money hold of the rounded computation. A source literal
  such as \<^verbatim>\<open>0.0001\<close> is \<open>fl (1 / 10000)\<close>: the nearest double.

  Bounds of the model: the exponent is not limited upwards, so a result above \<open>1.8e308\<close> is a large
  finite number instead of infinity; NaN and infinities are not values of the type (code that
  produces them uses an option), and the two zeros are one. Division by zero raises in Python, so
  each use below is guarded as in the source.

  The theory also holds the parts of the standard library that work on floats: \<^verbatim>\<open>round(x, n)\<close>
  (correctly rounded), \<^verbatim>\<open>sum()\<close> (Python 3.12 sums floats with Neumaier's compensation) and
  \<^verbatim>\<open>Decimal(str(x))\<close> (the shortest decimal that reads back as \<open>x\<close>). Decimals are rationals and
  \<^verbatim>\<open>float(d)\<close> is \<open>fl d\<close>.
\<close>

section \<open>Rounding\<close>

text \<open>Round half to even, to an integer.\<close>

definition rne :: "rat \<Rightarrow> int" where
  "rne x = (let f = \<lfloor>x\<rfloor>; d = x - of_int f in
     if d < 1 / 2 then f else if 1 / 2 < d then f + 1 else if even f then f else f + 1)"

text \<open>The binary exponent: \<open>2\<^bsup>e\<^esup> \<le> x < 2\<^bsup>e+1\<^esup>\<close>.\<close>

definition ilog2 :: "rat \<Rightarrow> int" where
  "ilog2 x = (case quotient_of x of (n, d) \<Rightarrow>
     let k = bitlen n - bitlen d in if x < 2 powi k then k - 1 else k)"

definition ulp_exp :: "rat \<Rightarrow> int" where
  "ulp_exp x = max (ilog2 \<bar>x\<bar> - 52) (- 1074)"

definition rnd :: "rat \<Rightarrow> rat" where
  "rnd x = (if x = 0 then 0 else of_int (rne (x / 2 powi ulp_exp x)) * 2 powi ulp_exp x)"

subsection \<open>Rounding is monotone, odd and idempotent\<close>

lemma rne_of_int [simp]: "rne (of_int n) = n"
  by (simp add: rne_def)

lemma rne_mono: "x \<le> y \<Longrightarrow> rne x \<le> rne y"
proof -
  assume le: "x \<le> y"
  then have f: "\<lfloor>x\<rfloor> \<le> \<lfloor>y\<rfloor>" by (rule floor_mono)
  have r: "\<lfloor>z\<rfloor> \<le> rne z \<and> rne z \<le> \<lfloor>z\<rfloor> + 1" for z by (simp add: rne_def Let_def)
  show ?thesis
  proof (cases "\<lfloor>x\<rfloor> = \<lfloor>y\<rfloor>")
    case True
    with le show ?thesis by (auto simp: rne_def Let_def)
  next
    case False
    with f r[of x] r[of y] show ?thesis by linarith
  qed
qed

lemma rne_minus: "rne (- x) = - rne x"
proof -
  define f where "f = \<lfloor>x\<rfloor>"
  define d where "d = x - of_int f"
  have d: "0 \<le> d" "d < 1" unfolding d_def f_def by linarith+
  show ?thesis
  proof (cases "d = 0")
    case True
    then have "x = of_int f" by (simp add: d_def)
    then show ?thesis by (metis of_int_minus rne_of_int)
  next
    case False
    with d have c: "\<lfloor>- x\<rfloor> = - f - 1" by (simp add: d_def floor_eq_iff)
    have "- x - of_int (- f - 1) = 1 - d" by (simp add: d_def)
    moreover have "even (- f - 1) \<longleftrightarrow> odd f" by presburger
    ultimately show ?thesis unfolding rne_def Let_def c f_def[symmetric] d_def[symmetric]
      by (cases d "1 / 2 :: rat" rule: linorder_cases) auto
  qed
qed

lemma rne_le_int: "x \<le> of_int n \<Longrightarrow> rne x \<le> n"
  by (metis rne_mono rne_of_int)

lemma rne_ge_int: "of_int n \<le> x \<Longrightarrow> n \<le> rne x"
  by (metis rne_mono rne_of_int)

lemma bitlen_powi:
  assumes "0 < n"
  shows "(2::rat) powi (bitlen n - 1) \<le> of_int n" "of_int n < (2::rat) powi bitlen n"
proof -
  have b: "0 < bitlen n" using assms bitlen_eq_zero_iff[of n] bitlen_nonneg[of n] by linarith
  have "2 ^ nat (bitlen n - 1) \<le> n" "n < 2 ^ nat (bitlen n)" using bitlen_bounds[OF assms] by auto
  then have "of_int (2 ^ nat (bitlen n - 1)) \<le> (of_int n :: rat)" "of_int n < (of_int (2 ^ nat (bitlen n)) :: rat)"
    unfolding of_int_le_iff of_int_less_iff by auto
  with b show "(2::rat) powi (bitlen n - 1) \<le> of_int n" "of_int n < (2::rat) powi bitlen n"
    by (auto simp: power_int_def)
qed

lemma ilog2_bounds:
  assumes "0 < x"
  shows "2 powi ilog2 x \<le> x" "x < 2 powi (ilog2 x + 1)"
proof -
  obtain n d where q: "quotient_of x = (n, d)" by force
  from q have d: "0 < d" and x: "x = of_int n / of_int d"
    by (auto simp: quotient_of_denom_pos quotient_of_div)
  with assms have n: "0 < n" by (simp add: zero_less_divide_iff)
  define k where "k = bitlen n - bitlen d"
  have "of_int n < (2::rat) powi bitlen n" by (rule bitlen_powi[OF n])
  also have "\<dots> = 2 powi (k + 1) * 2 powi (bitlen d - 1)"
    by (simp add: k_def flip: power_int_add)
  also have "\<dots> \<le> 2 powi (k + 1) * of_int d"
    using bitlen_powi(1)[OF d] by (intro mult_left_mono) auto
  finally have u: "x < 2 powi (k + 1)" using d by (simp add: x divide_less_eq)
  have "2 powi (k - 1) * of_int d \<le> (2::rat) powi (k - 1) * 2 powi bitlen d"
    using bitlen_powi(2)[OF d] by (intro mult_left_mono) auto
  also have "\<dots> = 2 powi (bitlen n - 1)" by (simp add: k_def flip: power_int_add)
  also have "\<dots> \<le> of_int n" by (rule bitlen_powi[OF n])
  finally have l: "2 powi (k - 1) \<le> x" using d by (simp add: x le_divide_eq)
  have i: "ilog2 x = (if x < 2 powi k then k - 1 else k)" by (simp add: ilog2_def q k_def Let_def)
  from u l show "2 powi ilog2 x \<le> x" "x < 2 powi (ilog2 x + 1)" by (auto simp: i)
qed

lemma powi_less_iff: "(2::rat) powi a < 2 powi b \<longleftrightarrow> a < b"
  by (meson linorder_not_less one_less_numeral_iff power_int_increasing power_int_strict_increasing semiring_norm(76) order_less_imp_le)

lemma ilog2_mono: "0 < x \<Longrightarrow> x \<le> y \<Longrightarrow> ilog2 x \<le> ilog2 y"
  using ilog2_bounds[of x] ilog2_bounds[of y] powi_less_iff[of "ilog2 x" "ilog2 y + 1"] by linarith

lemma ilog2_le: "0 < x \<Longrightarrow> x < 2 powi k \<Longrightarrow> ilog2 x < k"
  using ilog2_bounds[of x] powi_less_iff[of "ilog2 x" k] by linarith

lemma powi_of_int: "0 \<le> k \<Longrightarrow> (2::rat) powi k = of_int (2 ^ nat k)"
  by (simp add: power_int_def)

lemma rnd_0 [simp]: "rnd 0 = 0" by (simp add: rnd_def)

lemma ulp_exp_minus [simp]: "ulp_exp (- x) = ulp_exp x" by (simp add: ulp_exp_def)

lemma rnd_minus: "rnd (- x) = - rnd x"
  by (simp add: rnd_def rne_minus)

lemma rnd_le_powi:
  assumes "0 < x" "x \<le> 2 powi k" "ulp_exp x \<le> k"
  shows "rnd x \<le> 2 powi k"
proof -
  let ?u = "ulp_exp x"
  have "x / 2 powi ?u \<le> 2 powi (k - ?u)"
    using assms by (simp add: power_int_diff divide_right_mono)
  also have "\<dots> = of_int (2 ^ nat (k - ?u))" using assms by (intro powi_of_int) simp
  finally have "rne (x / 2 powi ?u) \<le> 2 ^ nat (k - ?u)" by (rule rne_le_int)
  then have "of_int (rne (x / 2 powi ?u)) \<le> (2::rat) powi (k - ?u)"
    using assms by (subst powi_of_int) (auto simp: of_int_le_iff simp del: of_int_power)
  then have "of_int (rne (x / 2 powi ?u)) * (2::rat) powi ?u \<le> 2 powi (k - ?u) * 2 powi ?u"
    by (intro mult_right_mono) auto
  then show ?thesis using assms by (simp add: rnd_def flip: power_int_add)
qed

lemma rnd_ge_powi:
  assumes "0 < x" "2 powi k \<le> x" "ulp_exp x \<le> k"
  shows "2 powi k \<le> rnd x"
proof -
  let ?u = "ulp_exp x"
  have "of_int (2 ^ nat (k - ?u)) = (2::rat) powi (k - ?u)"
    using assms by (subst powi_of_int) auto
  also have "\<dots> \<le> x / 2 powi ?u" using assms by (simp add: power_int_diff divide_right_mono)
  finally have "2 ^ nat (k - ?u) \<le> rne (x / 2 powi ?u)" by (rule rne_ge_int)
  then have "(2::rat) powi (k - ?u) \<le> of_int (rne (x / 2 powi ?u))"
    using assms by (subst powi_of_int) (auto simp: of_int_le_iff simp del: of_int_power)
  then have "2 powi (k - ?u) * 2 powi ?u \<le> of_int (rne (x / 2 powi ?u)) * (2::rat) powi ?u"
    by (intro mult_right_mono) auto
  then show ?thesis using assms by (simp add: rnd_def flip: power_int_add)
qed

lemma rnd_mono_pos:
  assumes "0 < x" "x \<le> y"
  shows "rnd x \<le> rnd y"
proof -
  from assms have y: "0 < y" by simp
  have le: "ilog2 x \<le> ilog2 y" using assms by (rule ilog2_mono)
  show ?thesis
  proof (cases "ulp_exp x = ulp_exp y")
    case True
    have "rne (x / 2 powi ulp_exp x) \<le> rne (y / 2 powi ulp_exp y)"
      unfolding True using assms by (intro rne_mono divide_right_mono) auto
    then show ?thesis using assms y True by (simp add: rnd_def mult_right_mono)
  next
    case False
    with le assms y have e: "ilog2 x < ilog2 y" "ulp_exp x \<le> ilog2 y" "ulp_exp y \<le> ilog2 y"
      by (auto simp: ulp_exp_def max_def split: if_splits)
    have "x \<le> 2 powi ilog2 y"
      using ilog2_bounds(2)[OF assms(1)] e(1) power_int_increasing[of "ilog2 x + 1" "ilog2 y" "2::rat"]
      by simp
    then have "rnd x \<le> 2 powi ilog2 y" using assms(1) e by (intro rnd_le_powi) auto
    also have "\<dots> \<le> rnd y" using y e ilog2_bounds(1)[OF y] by (intro rnd_ge_powi) auto
    finally show ?thesis .
  qed
qed

lemma rnd_nonneg: "0 \<le> x \<Longrightarrow> 0 \<le> rnd x"
  by (auto simp: rnd_def intro!: mult_nonneg_nonneg rne_ge_int[of 0, simplified])

lemma rnd_mono: "x \<le> y \<Longrightarrow> rnd x \<le> rnd y"
proof -
  assume le: "x \<le> y"
  consider "0 < x" | "x \<le> 0" "0 \<le> y" | "y < 0" by linarith
  then show ?thesis
  proof cases
    case 1 from this le show ?thesis by (rule rnd_mono_pos)
  next
    case 2
    then have "0 \<le> rnd y" "0 \<le> rnd (- x)" by (auto intro: rnd_nonneg)
    then show ?thesis by (simp add: rnd_minus)
  next
    case 3
    with le have "rnd (- y) \<le> rnd (- x)" by (intro rnd_mono_pos) auto
    then show ?thesis by (simp add: rnd_minus)
  qed
qed

lemma rnd_exact_pos:
  assumes "0 < m" "m < 2 ^ 53" "- 1074 \<le> u"
  shows "rnd (of_int m * 2 powi u) = of_int m * 2 powi u"
proof -
  let ?x = "of_int m * 2 powi u :: rat"
  have p: "0 < ?x" using assms by simp
  have "of_int m < (2::rat) ^ 53" using assms by (metis of_int_less_iff of_int_numeral of_int_power)
  then have "of_int m < (2::rat) powi 53" by (simp add: power_int_def)
  then have "?x < 2 powi 53 * 2 powi u" by (intro mult_strict_right_mono) auto
  then have "?x < 2 powi (53 + u)" by (simp add: power_int_add)
  then have "ilog2 ?x < 53 + u" by (rule ilog2_le[OF p])
  with assms p have u: "ulp_exp ?x \<le> u" by (simp add: ulp_exp_def)
  let ?d = "u - ulp_exp ?x"
  have "?x / 2 powi ulp_exp ?x = of_int m * 2 powi ?d"
    by (simp add: power_int_diff)
  also have "\<dots> = of_int (m * 2 ^ nat ?d)" using u by (subst powi_of_int) auto
  finally have "rne (?x / 2 powi ulp_exp ?x) = m * 2 ^ nat ?d" by (metis rne_of_int)
  then have "rnd ?x = of_int (m * 2 ^ nat ?d) * 2 powi ulp_exp ?x" using p by (simp add: rnd_def)
  also have "\<dots> = of_int m * (2 powi ?d * 2 powi ulp_exp ?x)" using u by (subst powi_of_int) auto
  finally show ?thesis by (simp flip: power_int_add)
qed

lemma rnd_exact:
  assumes "\<bar>m\<bar> \<le> 2 ^ 53" "- 1074 \<le> u"
  shows "rnd (of_int m * 2 powi u) = of_int m * 2 powi u"
proof -
  have pos: "rnd (of_int m * 2 powi u) = of_int m * 2 powi u" if "0 < m" "m \<le> 2 ^ 53" for m
  proof (cases "m = 2 ^ 53")
    case True
    have "of_int m * (2::rat) powi u = of_int (2 ^ 52) * 2 powi (u + 1)"
      by (simp add: True power_int_add)
    then show ?thesis using assms(2) rnd_exact_pos[of "2 ^ 52" "u + 1"] by simp
  next
    case False
    with that assms(2) show ?thesis by (intro rnd_exact_pos) auto
  qed
  consider "m = 0" | "0 < m" | "0 < - m" by linarith
  then show ?thesis
  proof cases
    case 3
    then have "rnd (of_int (- m) * 2 powi u) = of_int (- m) * 2 powi u"
      using assms(1) by (intro pos) auto
    then show ?thesis by (simp add: rnd_minus)
  qed (use pos assms(1) in auto)
qed

lemma rnd_int: "\<bar>n\<bar> \<le> 2 ^ 53 \<Longrightarrow> rnd (of_int n) = of_int n"
  using rnd_exact[of n 0] by simp

lemma rnd_idem_pos:
  assumes "0 < x"
  shows "rnd (rnd x) = rnd x"
proof -
  let ?u = "ulp_exp x"
  have "x / 2 powi ?u < 2 powi (ilog2 x + 1 - ?u)"
    using ilog2_bounds(2)[OF assms] by (simp add: power_int_diff divide_strict_right_mono)
  also have "\<dots> \<le> 2 powi 53"
    using assms by (intro power_int_increasing) (auto simp: ulp_exp_def)
  finally have "x / 2 powi ?u \<le> of_int (2 ^ 53)" by (simp add: power_int_def)
  then have "rne (x / 2 powi ?u) \<le> 2 ^ 53" by (rule rne_le_int)
  moreover have "0 \<le> rne (x / 2 powi ?u)" using assms by (intro rne_ge_int) auto
  ultimately show ?thesis using assms
    by (simp add: rnd_def[of x]) (intro rnd_exact, auto simp: ulp_exp_def)
qed

lemma rnd_idem [simp]: "rnd (rnd x) = rnd x"
proof -
  consider "0 < x" | "x = 0" | "0 < - x" by linarith
  then show ?thesis
  proof cases
    case 3
    then show ?thesis using rnd_idem_pos[of "- x"] by (simp add: rnd_minus)
  qed (auto simp: rnd_idem_pos)
qed

lemma rnd_1 [simp]: "rnd 1 = 1" using rnd_int[of 1] by simp


subsection \<open>Executable rounding on numerator and denominator\<close>

definition rne_div :: "int \<Rightarrow> int \<Rightarrow> int" where
  "rne_div n d = (let q = n div d; r = 2 * (n mod d) in
     if r < d then q else if d < r then q + 1 else if even q then q else q + 1)"

lemma rne_rne_div:
  assumes "0 < d"
  shows "rne (of_int n / of_int d) = rne_div n d"
proof -
  have f: "\<lfloor>of_int n / of_int d :: rat\<rfloor> = n div d" by (rule floor_divide_of_int_eq)
  have e: "of_int n / of_int d - of_int (n div d) = (of_int (n mod d) / of_int d :: rat)"
    using assms by (simp add: field_simps minus_div_mult_eq_mod flip: of_int_mult of_int_diff)
  have "of_int (n mod d) / of_int d < (1 / 2 :: rat) \<longleftrightarrow> (of_int (2 * (n mod d)) :: rat) < of_int d"
    using assms by (simp add: field_simps)
  moreover have "(1 / 2 :: rat) < of_int (n mod d) / of_int d \<longleftrightarrow> (of_int d :: rat) < of_int (2 * (n mod d))"
    using assms by (simp add: field_simps)
  ultimately show ?thesis unfolding rne_def rne_div_def f e Let_def of_int_less_iff by simp
qed

definition p2 :: "int \<Rightarrow> int" where "p2 k = 2 ^ nat k"

lemma p2_code [code]:
  "p2 k = (if k \<le> 0 then 1 else if even k then (let h = p2 (k div 2) in h * h)
     else (let h = p2 (k div 2) in 2 * (h * h)))"
proof -
  have e: "2 ^ nat k = 2 ^ nat (k div 2) * (2 ^ nat (k div 2) :: int)" if "0 < k" "even k" for k :: int
    using that by (simp flip: power_add add: nat_add_distrib[symmetric])
  have o: "2 ^ nat k = 2 * (2 ^ nat (k div 2) * (2 ^ nat (k div 2) :: int))" if "0 < k" "odd k" for k :: int
  proof -
    from that have "nat k = Suc (nat (k div 2) + nat (k div 2))" by (elim oddE) auto
    then show ?thesis by (simp only: power_Suc power_add)
  qed
  show ?thesis unfolding p2_def Let_def using e o by auto
qed

lemma powi_p2: "0 \<le> k \<Longrightarrow> (2::rat) powi k = of_int (p2 k)"
  by (simp add: p2_def power_int_def)

lemma powi_neg_p2: "k < 0 \<Longrightarrow> (2::rat) powi k = inverse (of_int (p2 (- k)))"
  by (simp add: p2_def power_int_def flip: power_inverse)

lemma p2_pos [simp]: "0 < p2 k" by (simp add: p2_def)

definition ulp_of :: "int \<Rightarrow> int \<Rightarrow> int" where
  "ulp_of n d = (let m = \<bar>n\<bar>; k = bitlen m - bitlen d;
      e = (if (if 0 \<le> k then m < d * p2 k else m * p2 (- k) < d) then k - 1 else k)
    in max (e - 52) (- 1074))"

lemma less_powi_iff:
  assumes "0 < d"
  shows "of_int m / of_int d < (2::rat) powi k \<longleftrightarrow>
    (if 0 \<le> k then m < d * p2 k else m * p2 (- k) < d)"
proof (cases "0 \<le> k")
  case True
  have "of_int m / of_int d < (2::rat) powi k \<longleftrightarrow> (of_int m :: rat) < of_int (d * p2 k)"
    unfolding powi_p2[OF True] using assms by (simp add: divide_less_eq mult.commute)
  then show ?thesis using True unfolding of_int_less_iff by simp
next
  case False
  then have "of_int m / of_int d < (2::rat) powi k \<longleftrightarrow> (of_int (m * p2 (- k)) :: rat) < of_int d"
    using assms by (simp add: powi_neg_p2 field_simps)
  then show ?thesis using False unfolding of_int_less_iff by simp
qed

lemma ulp_exp_code:
  assumes "quotient_of x = (n, d)"
  shows "ulp_exp x = ulp_of n d"
proof -
  from assms have d: "0 < d" and x: "x = of_int n / of_int d" and c: "coprime n d"
    by (auto simp: quotient_of_denom_pos quotient_of_div quotient_of_coprime)
  have ax: "\<bar>x\<bar> = of_int \<bar>n\<bar> / of_int d" using d by (simp add: x)
  then have "\<bar>x\<bar> = Fract \<bar>n\<bar> d" by (simp add: Fract_of_int_quotient)
  moreover have "gcd \<bar>n\<bar> d = 1" using c by simp
  ultimately have "quotient_of \<bar>x\<bar> = (\<bar>n\<bar>, d)"
    using d by (simp add: quotient_of_Fract Rat.normalize_def)
  then show ?thesis
    unfolding ulp_exp_def ulp_of_def ilog2_def Let_def prod.case less_powi_iff[OF d, symmetric] ax
    by simp
qed

lemma rnd_code [code]:
  "rnd x = (case quotient_of x of (n, d) \<Rightarrow>
     if n = 0 then 0
     else let u = ulp_of n d
          in if 0 \<le> u then of_int (rne_div n (d * p2 u) * p2 u)
             else Fract (rne_div (n * p2 (- u)) d) (p2 (- u)))"
proof -
  obtain n d where q: "quotient_of x = (n, d)" by force
  then have d: "0 < d" and x: "x = of_int n / of_int d"
    by (auto simp: quotient_of_denom_pos quotient_of_div)
  define u where "u = ulp_of n d"
  with q have iu: "ulp_exp x = u" by (simp add: ulp_exp_code)
  show ?thesis
  proof (cases "n = 0")
    case True
    then show ?thesis by (simp add: q x)
  next
    case n: False
    then have x0: "x \<noteq> 0" using d by (simp add: x)
    show ?thesis
    proof (cases "0 \<le> u")
      case True
      have "x / 2 powi u = of_int n / of_int (d * p2 u)" by (simp add: x powi_p2[OF True])
      then have "rnd x = of_int (rne_div n (d * p2 u) * p2 u)"
        using rne_rne_div[of "d * p2 u" n] d x0 by (simp add: rnd_def iu powi_p2[OF True])
      then show ?thesis using n True by (simp add: q u_def Let_def)
    next
      case False
      then have "x / 2 powi u = of_int (n * p2 (- u)) / of_int d" by (simp add: x powi_neg_p2 divide_inverse)
      then have "rnd x = of_int (rne_div (n * p2 (- u)) d) * inverse (of_int (p2 (- u)))"
        using rne_rne_div[OF d, of "n * p2 (- u)"] x0 False by (simp add: rnd_def iu powi_neg_p2)
      then show ?thesis using n False
        by (simp add: q u_def Let_def Fract_of_int_quotient divide_inverse)
    qed
  qed
qed

section \<open>The type of doubles\<close>

typedef f64 = "{x :: rat. rnd x = x}" morphisms val Abs_f64
  by (rule exI[of _ 0]) simp

setup_lifting type_definition_f64

lift_definition fl :: "rat \<Rightarrow> f64" is rnd by simp

instantiation f64 :: equal
begin
lift_definition equal_f64 :: "f64 \<Rightarrow> f64 \<Rightarrow> bool" is "(=)" .
instance by standard (transfer, simp)
end

instantiation f64 :: linorder
begin
lift_definition less_eq_f64 :: "f64 \<Rightarrow> f64 \<Rightarrow> bool" is "(\<le>)" .
lift_definition less_f64 :: "f64 \<Rightarrow> f64 \<Rightarrow> bool" is "(<)" .
instance by standard (transfer, auto)+
end

instantiation f64 :: "{zero, one, plus, minus, uminus, times, inverse, abs}"
begin
lift_definition zero_f64 :: f64 is 0 by simp
lift_definition one_f64 :: f64 is 1 by simp
lift_definition plus_f64 :: "f64 \<Rightarrow> f64 \<Rightarrow> f64" is "\<lambda>x y. rnd (x + y)" by simp
lift_definition minus_f64 :: "f64 \<Rightarrow> f64 \<Rightarrow> f64" is "\<lambda>x y. rnd (x - y)" by simp
lift_definition uminus_f64 :: "f64 \<Rightarrow> f64" is "\<lambda>x. - x" by (simp add: rnd_minus)
lift_definition times_f64 :: "f64 \<Rightarrow> f64 \<Rightarrow> f64" is "\<lambda>x y. rnd (x * y)" by simp
lift_definition divide_f64 :: "f64 \<Rightarrow> f64 \<Rightarrow> f64" is "\<lambda>x y. rnd (x / y)" by simp
lift_definition inverse_f64 :: "f64 \<Rightarrow> f64" is "\<lambda>x. rnd (inverse x)" by simp
lift_definition abs_f64 :: "f64 \<Rightarrow> f64" is "\<lambda>x. \<bar>x\<bar>" by (auto simp: abs_if rnd_minus)
instance ..
end



section \<open>Laws of rounded arithmetic\<close>

lemmas f64_rep = less_eq_f64.rep_eq less_f64.rep_eq zero_f64.rep_eq one_f64.rep_eq plus_f64.rep_eq
  minus_f64.rep_eq uminus_f64.rep_eq times_f64.rep_eq divide_f64.rep_eq abs_f64.rep_eq fl.rep_eq

lemma rnd_val [simp]: "rnd (val x) = val x"
  using val[of x] by simp

lemma fl_val [simp]: "fl (val x) = x"
  by (simp flip: val_inject add: fl.rep_eq)

lemma f64_eq_iff: "x = y \<longleftrightarrow> val x = val y"
  by (simp add: val_inject)

lemma f64_ring [simp]:
  fixes x :: f64
  shows "x + 0 = x" "0 + x = x" "x * 1 = x" "1 * x = x" "x * 0 = 0" "0 * x = 0"
    "x - 0 = x" "0 - x = - x" "x - x = 0" "0 / x = 0" "x / 1 = x" "- (- x) = x" "- (0::f64) = 0"
    "\<bar>0 :: f64\<bar> = 0" "\<bar>1 :: f64\<bar> = 1" "\<bar>- x\<bar> = \<bar>x\<bar>"
  by (auto simp: f64_eq_iff f64_rep rnd_minus)

lemma f64_add_commute: "x + y = y + (x :: f64)"
  by (simp add: f64_eq_iff f64_rep add.commute)

lemma f64_mult_commute: "x * y = y * (x :: f64)"
  by (simp add: f64_eq_iff f64_rep mult.commute)

lemma f64_minus_diff: "- (x - y) = y - (x :: f64)"
  by (simp add: f64_eq_iff f64_rep flip: rnd_minus)

lemma f64_mult_minus [simp]: "- x * y = - (x * y)" "x * - y = - (x * (y :: f64))"
  by (simp_all add: f64_eq_iff f64_rep rnd_minus)

lemma f64_zero_less_one [simp]: "(0::f64) < 1" "(0::f64) \<le> 1"
  by (simp_all add: f64_rep)

lemma fl_mono: "a \<le> b \<Longrightarrow> fl a \<le> fl b"
  by (simp add: f64_rep rnd_mono)

lemma fl_0 [simp]: "fl 0 = 0" and fl_1 [simp]: "fl 1 = 1"
  by (simp_all add: f64_eq_iff f64_rep)

lemma f64_add_mono: "a \<le> b \<Longrightarrow> c \<le> d \<Longrightarrow> a + c \<le> b + (d :: f64)"
  by (simp add: f64_rep rnd_mono)

lemma f64_diff_mono: "a \<le> b \<Longrightarrow> d \<le> c \<Longrightarrow> a - c \<le> b - (d :: f64)"
  by (simp add: f64_rep rnd_mono)

lemma f64_add_nonneg: "0 \<le> a \<Longrightarrow> 0 \<le> b \<Longrightarrow> 0 \<le> a + (b :: f64)"
  by (simp add: f64_rep rnd_nonneg)

lemma f64_mult_nonneg: "0 \<le> a \<Longrightarrow> 0 \<le> b \<Longrightarrow> 0 \<le> a * (b :: f64)"
  by (simp add: f64_rep rnd_nonneg)

lemma f64_div_nonneg: "0 \<le> a \<Longrightarrow> 0 \<le> b \<Longrightarrow> 0 \<le> a / (b :: f64)"
  by (simp add: f64_rep rnd_nonneg)

lemma f64_diff_nonneg: "b \<le> a \<Longrightarrow> 0 \<le> a - (b :: f64)"
  by (simp add: f64_rep rnd_nonneg)

lemma f64_neg_iff: "0 \<le> - x \<longleftrightarrow> x \<le> (0 :: f64)" "- x \<le> 0 \<longleftrightarrow> 0 \<le> x" "0 < - x \<longleftrightarrow> x < 0" "- x < 0 \<longleftrightarrow> 0 < x"
  by (simp_all add: f64_rep)

lemma f64_mult_left_mono: "0 \<le> c \<Longrightarrow> a \<le> b \<Longrightarrow> c * a \<le> c * (b :: f64)"
  by (simp add: f64_rep rnd_mono mult_left_mono)

lemma f64_div_right_mono: "0 \<le> c \<Longrightarrow> a \<le> b \<Longrightarrow> a / c \<le> b / (c :: f64)"
  by (simp add: f64_rep rnd_mono divide_right_mono)

lemma f64_add_increasing: "0 \<le> b \<Longrightarrow> a \<le> a + (b :: f64)"
  using rnd_mono[of "val a" "val a + val b"] by (simp add: f64_rep)

lemma f64_diff_le: "0 \<le> b \<Longrightarrow> a - b \<le> (a :: f64)"
  using rnd_mono[of "val a - val b" "val a"] by (simp add: f64_rep)

lemma f64_div_le_1: "0 \<le> a \<Longrightarrow> a \<le> b \<Longrightarrow> a / b \<le> (1 :: f64)"
  using rnd_mono[of "val a / val b" 1] by (cases "val b = 0") (simp_all add: f64_rep)

lemma f64_div_le: "1 \<le> b \<Longrightarrow> 0 \<le> a \<Longrightarrow> a / b \<le> (a :: f64)"
  using rnd_mono [of "val a / val b" "val a"] divide_left_mono [of 1 "val b" "val a"]
  by (simp add: f64_rep)

lemma f64_mult_le: "0 \<le> a \<Longrightarrow> b \<le> 1 \<Longrightarrow> a * b \<le> (a :: f64)"
  using rnd_mono[of "val a * val b" "val a"] by (simp add: f64_rep mult_left_le)

lemma f64_abs_nonneg [simp]: "0 \<le> \<bar>x :: f64\<bar>"
  by (simp add: f64_rep)

lemma f64_abs_if: "\<bar>x :: f64\<bar> = (if x < 0 then - x else x)"
  by (simp add: f64_eq_iff f64_rep)

text \<open>The smallest positive double; all doubles are its multiples.\<close>

definition tiny :: rat where
  "tiny = 2 powi (- 1074)"

lemma tiny_pos: "0 < tiny" by (simp only: tiny_def zero_less_power_int zero_less_numeral)

lemma val_multiple: "\<exists>m. val x = of_int m * tiny"
proof (cases "val x = 0")
  case False
  let ?u = "ulp_exp (val x)"
  have "- 1074 \<le> ?u" by (simp only: ulp_exp_def max.cobounded2)
  then have "?u = - 1074 + int (nat (?u + 1074))" by simp
  then have "(2::rat) powi ?u = tiny * 2 ^ nat (?u + 1074)"
    unfolding tiny_def by (metis power_int_add power_int_of_nat zero_neq_numeral)
  moreover have "val x = of_int (rne (val x / 2 powi ?u)) * 2 powi ?u"
    using rnd_val[of x] False by (simp add: rnd_def)
  ultimately have "val x = of_int (rne (val x / 2 powi ?u) * 2 ^ nat (?u + 1074)) * tiny"
    by (metis (no_types, lifting) mult.assoc mult.commute of_int_mult of_int_numeral of_int_power)
  then show ?thesis by blast
qed simp

lemma rnd_multiple_pos:
  assumes "x = of_int m * tiny" "0 < x"
  shows "0 < rnd x"
proof -
  have "0 < m" using assms tiny_pos by (simp add: zero_less_mult_iff)
  then have "of_int 1 * tiny \<le> of_int m * tiny"
    using tiny_pos by (intro mult_right_mono) auto
  then have "rnd (of_int 1 * tiny) \<le> rnd x" using assms(1) rnd_mono by simp
  moreover have "rnd (of_int 1 * tiny) = of_int 1 * tiny"
    unfolding tiny_def by (rule rnd_exact) simp_all
  ultimately show ?thesis using tiny_pos by simp
qed

lemma f64_diff_pos_iff: "0 < a - b \<longleftrightarrow> b < (a :: f64)"
proof
  assume "b < a"
  obtain m n where "val a = of_int m * tiny" "val b = of_int n * tiny"
    using val_multiple by meson
  then have "val a - val b = of_int (m - n) * tiny" by (simp add: algebra_simps)
  moreover have "0 < val a - val b" using \<open>b < a\<close> by (simp add: f64_rep)
  ultimately have "0 < rnd (val a - val b)" by (rule rnd_multiple_pos)
  then show "0 < a - b" by (simp add: f64_rep)
next
  assume "0 < a - b"
  then show "b < a"
    using rnd_mono[of "val a - val b" 0] by (auto simp: f64_rep intro: ccontr)
qed

lemma f64_abs_le_0 [simp]: "\<bar>x\<bar> \<le> 0 \<longleftrightarrow> x = (0 :: f64)"
  by (simp add: f64_eq_iff f64_rep)

lemma f64_add_pos: "0 < a \<Longrightarrow> 0 \<le> b \<Longrightarrow> 0 < a + (b :: f64)"
  using f64_add_increasing[of b a] by simp

lemma fl_int: "\<bar>n\<bar> \<le> 2 ^ 53 \<Longrightarrow> val (fl (of_int n)) = of_int n"
  by (simp add: fl.rep_eq rnd_int)

section \<open>Standard library\<close>

subsection \<open>\<^verbatim>\<open>round(x, n)\<close>\<close>

definition round_nd :: "f64 \<Rightarrow> nat \<Rightarrow> f64" where
  "round_nd x n = fl (of_int (rne (val x * 10 ^ n)) / 10 ^ n)"

lemma round_nd_mono: "x \<le> y \<Longrightarrow> round_nd x n \<le> round_nd y n"
  unfolding round_nd_def
  by (intro fl_mono divide_right_mono) (simp_all add: f64_rep rne_mono mult_right_mono)

lemma round_nd_int:
  assumes "val x = of_int m"
  shows "round_nd x n = x"
proof -
  have "rne (val x * 10 ^ n) = m * 10 ^ n"
    by (metis assms of_int_mult of_int_numeral of_int_power rne_of_int)
  then have "round_nd x n = fl (val x)" by (simp add: round_nd_def assms)
  then show ?thesis by simp
qed

lemma round_nd_0 [simp]: "round_nd 0 n = 0" and round_nd_1 [simp]: "round_nd 1 n = 1"
  by (auto intro: round_nd_int[of _ 0] round_nd_int[of _ 1] simp: f64_rep)

lemma round_nd_nonneg: "0 \<le> x \<Longrightarrow> 0 \<le> round_nd x n"
  using round_nd_mono[of 0 x n] by simp

lemma round_nd_le_1: "x \<le> 1 \<Longrightarrow> round_nd x n \<le> 1"
  using round_nd_mono[of x 1 n] by simp

subsection \<open>\<^verbatim>\<open>sum(xs)\<close>\<close>

fun neumaier :: "f64 \<Rightarrow> f64 \<Rightarrow> f64 list \<Rightarrow> f64" where
  "neumaier s c [] = (if c = 0 then s else s + c)"
| "neumaier s c (x # xs) =
     (let t = s + x;
          c' = (if \<bar>x\<bar> \<le> \<bar>s\<bar> then c + ((s - t) + x) else c + ((x - t) + s))
      in neumaier t c' xs)"

definition py_sum :: "f64 list \<Rightarrow> f64" where
  "py_sum xs = neumaier 0 0 xs"

lemma py_sum_Nil [simp]: "py_sum [] = 0"
  and py_sum_single [simp]: "py_sum [x] = x"
  by (simp_all add: py_sum_def Let_def)

subsection \<open>\<^verbatim>\<open>Decimal(str(x))\<close>\<close>

text \<open>
  \<^verbatim>\<open>repr\<close> prints the shortest digit string that reads back as the same double, the one closest to
  it when there are several. The search goes down from the leading power of ten; 17 significant
  digits identify every double, so 20 steps are enough and the exact value in the last branch is
  only there to make the function total. The read-back law does not depend on it.
\<close>

fun dec_search :: "nat \<Rightarrow> f64 \<Rightarrow> int \<Rightarrow> rat option" where
  "dec_search 0 x q = None"
| "dec_search (Suc k) x q =
     (let s = 10 powi q; m = \<lfloor>val x / s\<rfloor>; lo = of_int m * s; hi = of_int (m + 1) * s;
          lok = (fl lo = x); hok = (fl hi = x)
      in if lok \<and> hok
         then (if val x - lo < hi - val x \<or> (val x - lo = hi - val x \<and> even m) then Some lo else Some hi)
         else if lok then Some lo
         else if hok then Some hi
         else dec_search k x (q - 1))"

definition to_dec :: "f64 \<Rightarrow> rat" where
  "to_dec x = (if x = 0 then 0
     else case dec_search 20 x ((ilog2 \<bar>val x\<bar> * 30103) div 100000 + 1) of
       Some d \<Rightarrow> d | None \<Rightarrow> val x)"

lemma dec_search_fl: "dec_search k x q = Some d \<Longrightarrow> fl d = x"
  by (induction k arbitrary: q) (auto simp: Let_def split: if_splits)

lemma fl_to_dec [simp]: "fl (to_dec x) = x"
  by (auto simp: to_dec_def dec_search_fl split: option.splits)

lemma to_dec_tenth: "to_dec (fl (1 / 10)) = 1 / 10"
  by code_simp

end
