(* ===== verification/Costs.thy ===== *)
theory Costs
  imports F64 "HOL-Library.Word"
begin

text \<open>
  The deterministic transaction cost model (\<^verbatim>\<open>app/broker/costs.py\<close>) and the trade direction of
  \<^verbatim>\<open>app/agents/base.py\<close>.

  \<^verbatim>\<open>_digest\<close> reads eight bytes of a BLAKE2b hash as a big-endian 64-bit word. The hash function is a
  parameter \<open>H\<close> of the model (any function from keys to 64-bit words): every theorem below holds
  whatever the digests are.
\<close>

datatype direction = LONG | SHORT | FLAT

fun direction_value :: "direction \<Rightarrow> string" where
  "direction_value LONG = ''LONG''" | "direction_value SHORT = ''SHORT''" | "direction_value FLAT = ''FLAT''"

type_synonym hash = "string \<Rightarrow> 64 word"

record cost_params =
  spread :: f64
  commission_per_side :: f64
  slippage_pct :: f64
  slippage_notional_scale :: f64

definition default_costs :: cost_params where
  "default_costs = \<lparr>spread = fl (1 / 10000), commission_per_side = 0,
     slippage_pct = fl (2 / 100000), slippage_notional_scale = fl (1 / 10000000)\<rparr>"

definition digest :: "hash \<Rightarrow> string \<Rightarrow> f64" where
  "digest H key = (let raw = uint (H key) in fl (of_int raw) / fl (of_int (2 ^ 64)))"

definition slip_key :: "int \<Rightarrow> string \<Rightarrow> string \<Rightarrow> string" where
  "slip_key seed symbol side = ''bt|slip|'' @ show_int seed @ ''|'' @ symbol @ ''|'' @ side"

definition slippage_bps :: "hash \<Rightarrow> int \<Rightarrow> string \<Rightarrow> string \<Rightarrow> f64 \<Rightarrow> cost_params \<Rightarrow> f64" where
  "slippage_bps H seed symbol side notional p =
     (let draw = digest H (slip_key seed symbol side);
          volume_factor = 1 + \<bar>notional\<bar> * fl 2 * fl (1 / 1000000000);
          base = draw * fl (1 / 2) / volume_factor
      in max 0 (base * (slippage_pct p / fl (2 / 100000))))"

definition cost_per_unit :: "hash \<Rightarrow> f64 \<Rightarrow> int \<Rightarrow> string \<Rightarrow> string \<Rightarrow> f64 \<Rightarrow> cost_params \<Rightarrow> f64" where
  "cost_per_unit H price seed symbol side notional p =
     (let spread_cost = spread p / fl 2;
          slip = slippage_bps H seed symbol side notional p;
          slip_cost = price * (slip / fl 10000)
      in spread_cost + slip_cost)"

lemmas cost_defs = digest_def slippage_bps_def cost_per_unit_def Let_def

text \<open>Costs are sane for a non-negative price and spread.\<close>

definition costs_ok :: "cost_params \<Rightarrow> bool" where
  "costs_ok p = (0 \<le> spread p \<and> 0 \<le> slippage_pct p)"

lemma fl_nonneg: "0 \<le> r \<Longrightarrow> 0 \<le> fl r"
  using fl_mono [of 0 r] by simp

lemma digest_nonneg: "0 \<le> digest H key"
  unfolding digest_def Let_def
  by (intro f64_div_nonneg fl_nonneg) (simp_all only: of_int_0_le_iff uint_ge_0 zero_le_numeral zero_le_power)

lemma digest_le_1: "digest H key \<le> 1"
proof -
  have "uint (H key) \<le> 2 ^ 64" using uint_lt2p [of "H key"] by simp
  then show ?thesis unfolding digest_def Let_def
    by (intro f64_div_le_1 fl_nonneg fl_mono) (simp_all only: of_int_le_iff of_int_0_le_iff uint_ge_0)
qed

lemma volume_factor_ge_1: "1 \<le> 1 + \<bar>n\<bar> * fl 2 * fl (1 / 1000000000)"
  by (intro f64_add_increasing f64_mult_nonneg fl_nonneg) simp_all

lemma slippage_nonneg: "0 \<le> slippage_bps H seed symbol side n p"
  by (simp add: slippage_bps_def Let_def)

lemma cost_per_unit_nonneg:
  assumes "0 \<le> price" "0 \<le> spread p"
  shows "0 \<le> cost_per_unit H price seed symbol side n p"
  unfolding cost_per_unit_def Let_def using assms slippage_nonneg
  by (intro f64_add_nonneg f64_div_nonneg f64_mult_nonneg fl_nonneg) simp_all

lemma cost_no_slippage:
  "slippage_pct p = 0 \<Longrightarrow> cost_per_unit H price seed symbol side n p = spread p / fl 2"
  by (simp add: cost_per_unit_def slippage_bps_def Let_def)

text \<open>
  Slippage is bounded: whatever the digest, for a non-negative slippage setting one fill's
  slippage lies between 0 and half a basis point scaled by \<^verbatim>\<open>slippage_pct / 0.00002\<close>, and a larger
  notional never makes it larger than that. Setting \<^verbatim>\<open>slippage_pct == 0\<close> disables it.
\<close>

theorem slippage_bounded:
  assumes "0 \<le> slippage_pct p"
  shows "0 \<le> slippage_bps H seed symbol side n p
    \<and> slippage_bps H seed symbol side n p \<le> fl (1 / 2) * (slippage_pct p / fl (2 / 100000))
    \<and> (slippage_pct p = 0 \<longrightarrow> slippage_bps H seed symbol side n p = 0)"
proof -
  let ?d = "digest H (slip_key seed symbol side)" and ?v = "1 + \<bar>n\<bar> * fl 2 * fl (1 / 1000000000)"
    and ?s = "slippage_pct p / fl (2 / 100000)"
  have s: "0 \<le> ?s" using assms by (intro f64_div_nonneg fl_nonneg) simp_all
  have h: "0 \<le> fl (1 / 2)" by (rule fl_nonneg) simp
  have "?d * fl (1 / 2) \<le> fl (1 / 2)"
    using f64_mult_le [OF h digest_le_1] by (simp only: f64_mult_commute)
  moreover have "?d * fl (1 / 2) / ?v \<le> ?d * fl (1 / 2)"
    by (intro f64_div_le volume_factor_ge_1 f64_mult_nonneg digest_nonneg h)
  ultimately have "?d * fl (1 / 2) / ?v \<le> fl (1 / 2)" by (rule order_trans [rotated])
  then have "?s * (?d * fl (1 / 2) / ?v) \<le> ?s * fl (1 / 2)" by (rule f64_mult_left_mono [OF s])
  then have "?d * fl (1 / 2) / ?v * ?s \<le> fl (1 / 2) * ?s" by (simp only: f64_mult_commute)
  moreover have "0 \<le> fl (1 / 2) * ?s" using h s by (rule f64_mult_nonneg)
  ultimately show ?thesis by (simp add: slippage_bps_def Let_def)
qed

theorem slippage_bounded_witness:
  "slippage_bps (\<lambda>_. 7) 0 ''EURUSD'' ''LONG'' (fl 1000) default_costs
     \<le> fl (1 / 2) * (slippage_pct default_costs / fl (2 / 100000))"
proof -
  have "0 \<le> slippage_pct default_costs" by (simp add: default_costs_def fl_nonneg)
  from slippage_bounded [OF this] show ?thesis by blast
qed

text \<open>
  \<^verbatim>\<open>_digest\<close> is documented as a draw in [0, 1). It is a draw in [0, 1]: a digest within
  1024 of the top rounds up to \<open>2\<^bsup>64\<^esup>\<close> when converted to a float, and the draw is exactly 1.
\<close>

theorem digest_reaches_one:
  "0 \<le> digest H key \<and> digest H key \<le> 1 \<and> digest (\<lambda>_. - 1) key = 1"
proof -
  have "uint (- 1 :: 64 word) = 18446744073709551615"
    by (simp add: unsigned_minus_1_eq_mask mask_eq_exp_minus_1)
  moreover have "fl 18446744073709551615 / fl 18446744073709551616 = 1" by code_simp
  ultimately have "digest (\<lambda>_. - 1) key = 1" unfolding digest_def Let_def by simp
  then show ?thesis by (simp add: digest_nonneg digest_le_1)
qed

end
