(* ===== verification/Timeframes.thy ===== *)
theory Timeframes
  imports Prelude
begin

text \<open>
  Timeframe arithmetic (\<^verbatim>\<open>app/data/timeframes.py\<close>) and the FX week (\<^verbatim>\<open>app/data/market_hours.py\<close>).

  The five supported codes are a datatype, ordered by duration like \<^verbatim>\<open>Timeframe.rank\<close>;
  \<open>parse_timeframe\<close> is the check the string-valued class makes (\<^verbatim>\<open>ValueError\<close> for anything else).
  Instants are UTC, so \<open>epoch\<close> is 0.
\<close>

section \<open>Timeframe\<close>

datatype timeframe = M5 | M15 | H1 | H4 | D1

definition tf_values :: "timeframe list" where
  "tf_values = [M5, M15, H1, H4, D1]"

fun tf_name :: "timeframe \<Rightarrow> string" where
  "tf_name M5 = ''M5''" | "tf_name M15 = ''M15''" | "tf_name H1 = ''H1''"
| "tf_name H4 = ''H4''" | "tf_name D1 = ''D1''"

fun tf_seconds :: "timeframe \<Rightarrow> int" where
  "tf_seconds M5 = 5 * 60" | "tf_seconds M15 = 15 * 60" | "tf_seconds H1 = 60 * 60"
| "tf_seconds H4 = 4 * 60 * 60" | "tf_seconds D1 = 24 * 60 * 60"

fun tf_rank :: "timeframe \<Rightarrow> nat" where
  "tf_rank M5 = 0" | "tf_rank M15 = 1" | "tf_rank H1 = 2" | "tf_rank H4 = 3" | "tf_rank D1 = 4"

definition parse_timeframe :: "string \<Rightarrow> timeframe option" where
  "parse_timeframe s = find (\<lambda>t. tf_name t = s) tf_values"

definition tf_is_valid :: "string \<Rightarrow> bool" where
  "tf_is_valid s = (parse_timeframe s \<noteq> None)"

definition tf_seconds_of :: "string \<Rightarrow> py_error + int" where
  "tf_seconds_of s = (case parse_timeframe s of None \<Rightarrow> Inl ValueError | Some t \<Rightarrow> Inr (tf_seconds t))"

instantiation timeframe :: linorder
begin

definition less_eq_timeframe :: "timeframe \<Rightarrow> timeframe \<Rightarrow> bool" where
  "less_eq_timeframe a b = (tf_rank a \<le> tf_rank b)"

definition less_timeframe :: "timeframe \<Rightarrow> timeframe \<Rightarrow> bool" where
  "less_timeframe a b = (tf_rank a < tf_rank b)"

instance
proof
  fix a b :: timeframe
  show "a \<le> b \<Longrightarrow> b \<le> a \<Longrightarrow> a = b"
    by (cases a; cases b) (auto simp: less_eq_timeframe_def)
qed (auto simp: less_eq_timeframe_def less_timeframe_def)

end

section \<open>Buckets\<close>

definition tf_step :: "timeframe \<Rightarrow> timedelta" where
  "tf_step tf = seconds_td (tf_seconds tf)"

definition align_to_bucket :: "datetime \<Rightarrow> timeframe \<Rightarrow> datetime" where
  "align_to_bucket ts tf = (let remainder = ts mod tf_step tf in ts - remainder)"

definition bucket_start_after :: "datetime \<Rightarrow> timeframe \<Rightarrow> datetime" where
  "bucket_start_after ts tf = align_to_bucket ts tf + tf_step tf"

definition previous_closed_bucket :: "datetime \<Rightarrow> timeframe \<Rightarrow> datetime" where
  "previous_closed_bucket now tf = align_to_bucket now tf - tf_step tf"

definition is_bar_closed :: "datetime \<Rightarrow> datetime \<Rightarrow> timeframe \<Rightarrow> bool" where
  "is_bar_closed bucket_start now tf = (bucket_start + tf_step tf \<le> now)"

text \<open>The \<^verbatim>\<open>while cursor < end_exclusive\<close> loop of \<^verbatim>\<open>iterate_buckets\<close>.\<close>

lemma tf_step_pos [simp]: "0 < tf_step tf"
  by (cases tf) (simp_all add: tf_step_def)

lemma tf_step_nonneg [simp]: "0 \<le> tf_step tf"
  by (rule less_imp_le) simp

function bucket_loop :: "timeframe \<Rightarrow> datetime \<Rightarrow> datetime \<Rightarrow> datetime list" where
  "bucket_loop tf cursor end_ts =
     (if cursor < end_ts then cursor # bucket_loop tf (cursor + tf_step tf) end_ts else [])"
  by pat_completeness auto
termination
proof (relation "measure (\<lambda>(tf, c, e). nat (e - c))")
  fix tf :: timeframe and c e :: datetime
  assume "c < e"
  then show "((tf, c + tf_step tf, e), tf, c, e) \<in> measure (\<lambda>(tf, c, e). nat (e - c))"
    using tf_step_pos [of tf] by auto
qed simp

declare bucket_loop.simps [simp del]

definition iterate_buckets :: "datetime \<Rightarrow> datetime \<Rightarrow> timeframe \<Rightarrow> datetime list" where
  "iterate_buckets start_inclusive end_exclusive tf =
     (if end_exclusive < start_inclusive then []
      else bucket_loop tf (align_to_bucket start_inclusive tf) end_exclusive)"

lemma tf_name_inject: "tf_name a = tf_name b \<longleftrightarrow> a = b"
  by (cases a; cases b) simp_all

lemma parse_tf_name: "parse_timeframe (tf_name t) = Some t"
  by (cases t) (simp_all add: parse_timeframe_def tf_values_def)

lemma parse_timeframe_Some: "parse_timeframe s = Some t \<longleftrightarrow> s = tf_name t"
  using parse_tf_name by (auto simp: parse_timeframe_def dest!: find_SomeD)

lemma align_le: "align_to_bucket ts tf \<le> ts"
  by (simp add: align_to_bucket_def)

lemma align_gt: "ts < align_to_bucket ts tf + tf_step tf"
  using pos_mod_bound [of "tf_step tf" ts] by (simp add: align_to_bucket_def)

lemma align_mod [simp]: "align_to_bucket ts tf mod tf_step tf = 0"
  by (simp add: align_to_bucket_def)

lemma align_fixed: "ts mod tf_step tf = 0 \<Longrightarrow> align_to_bucket ts tf = ts"
  by (simp add: align_to_bucket_def)

lemma bucket_loop_set:
  "set (bucket_loop tf c e) = {c + int k * tf_step tf |k. c + int k * tf_step tf < e}"
proof (induction tf c e rule: bucket_loop.induct)
  case (1 tf c e)
  let ?s = "tf_step tf"
  show ?case
  proof (cases "c < e")
    case True
    then have "set (bucket_loop tf c e) = insert c {c + ?s + int k * ?s |k. c + ?s + int k * ?s < e}"
      using 1 by (simp add: bucket_loop.simps [of tf c e])
    also have "\<dots> = {c + int k * ?s |k. c + int k * ?s < e}" (is "?L = ?R")
    proof
      show "?L \<subseteq> ?R"
        using True by (auto simp: algebra_simps intro: exI [of _ 0] exI [of _ "Suc _"])
      show "?R \<subseteq> ?L"
      proof
        fix x
        assume "x \<in> ?R"
        then obtain k where k: "x = c + int k * ?s" "x < e" by auto
        show "x \<in> ?L"
        proof (cases k)
          case (Suc j)
          then have "x = c + ?s + int j * ?s" using k by (simp add: algebra_simps)
          with k show ?thesis by auto
        qed (use k in simp)
      qed
    qed
    finally show ?thesis .
  next
    case False
    then have "\<not> c + int k * ?s < e" for k
      using tf_step_pos [of tf] mult_nonneg_nonneg [of "int k" ?s] by linarith
    with False show ?thesis by (auto simp: bucket_loop.simps [of tf c e])
  qed
qed

lemma bucket_loop_sorted: "sorted (bucket_loop tf c e) \<and> distinct (bucket_loop tf c e)
    \<and> (\<forall>x\<in>set (bucket_loop tf c e). c \<le> x)"
proof (induction tf c e rule: bucket_loop.induct)
  case (1 tf c e)
  show ?case
  proof (cases "c < e")
    case True
    let ?L = "bucket_loop tf (c + tf_step tf) e"
    from 1 True have IH: "sorted ?L" "distinct ?L" "\<forall>x\<in>set ?L. c + tf_step tf \<le> x" by auto
    from IH(3) have "\<forall>x\<in>set ?L. c < x" using tf_step_pos [of tf] by (meson less_add_same_cancel1 less_le_trans)
    with IH(1,2) True show ?thesis by (auto simp: bucket_loop.simps [of tf c e])
  next
    case False
    then show ?thesis by (simp add: bucket_loop.simps [of tf c e])
  qed
qed

section \<open>The FX week\<close>

abbreviation (input) hour_td :: timedelta where "hour_td \<equiv> 3600000000"
abbreviation (input) day_td :: timedelta where "day_td \<equiv> 86400000000"
abbreviation (input) week_td :: timedelta where "week_td \<equiv> 604800000000"

text \<open>\<^verbatim>\<open>datetime.weekday()\<close> (Monday 0, Sunday 6; 1970-01-01 was a Thursday) and
  \<^verbatim>\<open>datetime.hour\<close>, both in UTC.\<close>

definition weekday :: "datetime \<Rightarrow> int" where
  "weekday ts = (ts div day_td + 3) mod 7"

definition hour_of :: "datetime \<Rightarrow> int" where
  "hour_of ts = (ts mod day_td) div hour_td"

definition is_market_open :: "datetime \<Rightarrow> bool" where
  "is_market_open ts =
     (if weekday ts = 6 then 22 \<le> hour_of ts
      else if weekday ts = 4 then hour_of ts < 22
      else weekday ts \<noteq> 5)"

text \<open>The defensive \<^verbatim>\<open>while candidate <= after\<close> loop of \<^verbatim>\<open>_next_boundary\<close>.\<close>

function week_loop :: "datetime \<Rightarrow> datetime \<Rightarrow> datetime" where
  "week_loop candidate after =
     (if candidate \<le> after then week_loop (candidate + days_td 7) after else candidate)"
  by pat_completeness auto
termination
  by (relation "measure (\<lambda>(c, a). nat (a + 1 - c))") (auto simp: days_td_def)

declare week_loop.simps [simp del]

definition next_boundary :: "int \<Rightarrow> int \<Rightarrow> int \<Rightarrow> datetime \<Rightarrow> datetime" where
  "next_boundary wd hour minute after =
     (let candidate = (after - after mod day_td) + seconds_td (hour * 3600 + minute * 60);
          ahead = (wd - weekday candidate) mod 7;
          days_ahead = (if ahead = 0 \<and> candidate \<le> after then 7 else ahead);
          candidate' = (if 0 < days_ahead then candidate + days_td days_ahead else candidate)
      in week_loop candidate' after)"

definition next_open :: "datetime \<Rightarrow> datetime" where
  "next_open ts =
     (let sunday_open = next_boundary 6 22 0 (ts - seconds_td 1);
          monday_start = next_boundary 0 0 0 (ts - seconds_td 1)
      in if is_market_open ts then ts else min sunday_open monday_start)"

definition next_close :: "datetime \<Rightarrow> datetime" where
  "next_close ts =
     (let friday_close = next_boundary 4 22 0 ts
      in if is_market_open ts then friday_close
         else next_boundary 4 22 0 (next_open ts))"

text \<open>Position in the trading week, counted from Sunday 22:00 UTC.\<close>

definition week_pos :: "datetime \<Rightarrow> timedelta" where
  "week_pos ts = (ts - (3 * day_td + 22 * hour_td)) mod week_td"

lemma weekday_decomp:
  obtains q w r where "ts = (7 * q + w - 3) * day_td + r" "0 \<le> w" "w < 7" "0 \<le> r" "r < day_td"
    "weekday ts = w" "ts mod day_td = r"
proof
  let ?d = "ts div day_td"
  show "ts = (7 * ((?d + 3) div 7) + (?d + 3) mod 7 - 3) * day_td + ts mod day_td"
    by (simp only: mult_div_mod_eq add_diff_cancel_right' div_mult_mod_eq)
qed (auto simp: weekday_def)

lemma div_less_iff_int:
  fixes r h n :: int
  assumes "0 < h"
  shows "r div h < n \<longleftrightarrow> r < n * h"
proof
  assume "r div h < n"
  then have "(r div h + 1) * h \<le> n * h" using assms by (intro mult_right_mono) auto
  moreover have "r < (r div h + 1) * h"
    using assms pos_mod_bound [of h r] div_mult_mod_eq [of r h] unfolding distrib_right by linarith
  ultimately show "r < n * h" by linarith
next
  assume "r < n * h"
  moreover have "n * h \<le> r div h * h" if "n \<le> r div h" using that assms by (intro mult_right_mono) auto
  moreover have "r div h * h \<le> r" using assms pos_mod_sign [of h r] div_mult_mod_eq [of r h] by linarith
  ultimately show "r div h < n" by linarith
qed

lemma mod_week_neg: "- week_td \<le> x \<Longrightarrow> x < 0 \<Longrightarrow> x mod week_td = x + week_td"
  using mod_add_self2 [of x week_td] mod_pos_pos_trivial [of "x + week_td" week_td] by simp

text \<open>The market is open during the first five days of the week that starts Sunday 22:00.\<close>

lemma is_market_open_week_pos: "is_market_open ts \<longleftrightarrow> week_pos ts < 5 * day_td"
proof -
  obtain q w r where d: "ts = (7 * q + w - 3) * day_td + r" "0 \<le> w" "w < 7" "0 \<le> r" "r < day_td"
    "weekday ts = w" "ts mod day_td = r" by (rule weekday_decomp)
  define x where "x = w * day_td + r - (6 * day_td + 22 * hour_td)"
  have e: "ts - (3 * day_td + 22 * hour_td) = x + q * week_td"
    using d(1) by (simp add: x_def algebra_simps)
  have p: "week_pos ts = x mod week_td"
    unfolding week_pos_def e by (rule mod_mult_self1)
  have h: "hour_of ts < 22 \<longleftrightarrow> r < 22 * hour_td"
    unfolding hour_of_def d(7) by (rule div_less_iff_int) simp
  show ?thesis
  proof (cases "0 \<le> x")
    case True
    then have "w = 6" "\<not> hour_of ts < 22" using d unfolding h x_def by linarith+
    moreover have "week_pos ts = x" using True d unfolding p x_def by (intro mod_pos_pos_trivial) auto
    ultimately show ?thesis using d by (simp add: is_market_open_def x_def)
  next
    case False
    then have "week_pos ts = x + week_td" using d unfolding p x_def by (intro mod_week_neg) auto
    moreover have "is_market_open ts \<longleftrightarrow> x + week_td < 5 * day_td"
      using False d(2-5) h unfolding is_market_open_def d(6) x_def by auto
    ultimately show ?thesis by simp
  qed
qed


text \<open>\<^verbatim>\<open>_next_boundary\<close> finds the unique instant of the asked weekday and hour in the week after
  \<open>after\<close>, and its defensive loop never iterates.\<close>

lemma next_boundary_spec:
  assumes "0 \<le> wd" "wd < 7" "0 \<le> h" "h < 24"
  shows "after < next_boundary wd h 0 after" "next_boundary wd h 0 after \<le> after + week_td"
    "next_boundary wd h 0 after mod week_td = ((wd - 3) * day_td + h * hour_td) mod week_td"
proof -
  define D where "D = after div day_td"
  have a: "D * day_td \<le> after" "after < (D + 1) * day_td"
    using div_mult_mod_eq [of after day_td] pos_mod_bound [of day_td after] pos_mod_sign [of day_td after]
    unfolding D_def distrib_right by linarith+
  define c where "c = D * day_td + h * hour_td"
  have ds: "after - after mod day_td + seconds_td (h * 3600 + 0 * 60) = c"
    by (simp add: c_def D_def seconds_td_def minus_mod_eq_div_mult)
  have "(D * day_td + h * hour_td) div day_td = D + (h * hour_td) div day_td"
    by (rule div_mult_self3) simp
  also have "(h * hour_td) div day_td = 0" using assms by (intro div_pos_pos_trivial) auto
  finally have w: "weekday c = (D + 3) mod 7" by (simp add: weekday_def c_def)
  define ahead where "ahead = (wd - weekday c) mod 7"
  define k where "k = (if ahead = 0 \<and> c \<le> after then 7 else ahead)"
  have ah: "0 \<le> ahead" "ahead < 7" by (auto simp: ahead_def)
  have fin: "c + k * day_td > after"
    using ah a assms by (auto simp: k_def c_def)
  then have nb: "next_boundary wd h 0 after = c + k * day_td"
    using ah unfolding next_boundary_def Let_def ds ahead_def [symmetric] k_def [symmetric]
    by (subst week_loop.simps) (auto simp: days_td_def k_def)
  show "after < next_boundary wd h 0 after" using fin nb by simp
  show "next_boundary wd h 0 after \<le> after + week_td"
    unfolding nb using ah a assms by (auto simp: k_def c_def)
  have "k mod 7 = (wd - (D + 3)) mod 7"
    by (simp add: k_def ahead_def w mod_diff_right_eq)
  then obtain z where "k = wd - (D + 3) + 7 * z" by (metis mod_eqE diff_add_cancel add.commute)
  then have "c + k * day_td = (wd - 3) * day_td + h * hour_td + z * week_td"
    by (simp add: c_def algebra_simps)
  then show "next_boundary wd h 0 after mod week_td = ((wd - 3) * day_td + h * hour_td) mod week_td"
    unfolding nb by simp
qed

lemma week_cong_unique:
  fixes x y a :: int
  assumes "x mod week_td = y mod week_td" "a < x" "x \<le> a + week_td" "a < y" "y \<le> a + week_td"
  shows "x = y"
proof -
  obtain z where z: "x = y + week_td * z" using assms(1) by (metis mod_eqE)
  with assms have "z = 0" by linarith
  with z show ?thesis by simp
qed

lemma week_pos_shift: "0 \<le> week_pos ts + s \<Longrightarrow> week_pos ts + s < week_td \<Longrightarrow> week_pos (ts + s) = week_pos ts + s"
proof -
  assume s: "0 \<le> week_pos ts + s" "week_pos ts + s < week_td"
  have "ts + s - (3 * day_td + 22 * hour_td) = (ts - (3 * day_td + 22 * hour_td)) + s" by simp
  then have "week_pos (ts + s) = (week_pos ts + s) mod week_td"
    unfolding week_pos_def by (simp only: mod_add_left_eq)
  with s show ?thesis by (simp add: mod_pos_pos_trivial)
qed

lemma week_pos_bounds: "0 \<le> week_pos ts" "week_pos ts < week_td"
  by (simp_all add: week_pos_def)

lemma anchored_boundary:
  assumes "0 \<le> wd" "wd < 7" "0 \<le> h" "h < 24"
    and "t mod week_td = ((wd - 3) * day_td + h * hour_td) mod week_td" "a < t" "t \<le> a + week_td"
  shows "next_boundary wd h 0 a = t"
  using next_boundary_spec [OF assms(1-4), of a] assms(5-7)
  by (intro week_cong_unique [of _ t a]) simp_all

lemma mod_anchor: "(x - x mod m + k) mod m = k mod (m :: int)"
  by (simp add: minus_mod_eq_mult_div)

lemma week_shift_cong: "(ts - week_pos ts + s) mod week_td = (338400000000 + s) mod week_td"
proof -
  have "ts - week_pos ts + s
      = (ts - 338400000000) - (ts - 338400000000) mod week_td + (338400000000 + s)"
    by (simp add: week_pos_def)
  then show ?thesis by (simp only: mod_anchor)
qed

lemma next_open_closed:
  assumes "\<not> is_market_open ts"
  shows "next_open ts = ts + (week_td - week_pos ts)"
proof -
  let ?a = "ts - seconds_td 1" and ?t = "ts - week_pos ts + week_td"
  have p: "5 * day_td \<le> week_pos ts" "week_pos ts < week_td"
    using assms week_pos_bounds [of ts] by (auto simp: is_market_open_week_pos)
  have "next_boundary 6 22 0 ?a = ?t"
  proof (rule anchored_boundary)
    show "?t mod week_td = ((6 - 3) * day_td + 22 * hour_td) mod week_td"
      unfolding week_shift_cong by simp
  qed (use p in \<open>simp_all add: seconds_td_def\<close>)
  moreover have "next_boundary 0 0 0 ?a = ts - week_pos ts + (week_td + 2 * hour_td)"
  proof (rule anchored_boundary)
    show "(ts - week_pos ts + (week_td + 2 * hour_td)) mod week_td = ((0 - 3) * day_td + 0 * hour_td) mod week_td"
      unfolding week_shift_cong by simp
  qed (use p in \<open>simp_all add: seconds_td_def\<close>)
  ultimately show ?thesis using assms by (simp add: next_open_def Let_def)
qed

lemma friday_close:
  assumes "is_market_open ts"
  shows "next_boundary 4 22 0 ts = ts - week_pos ts + 5 * day_td"
proof (rule anchored_boundary)
  show "(ts - week_pos ts + 5 * day_td) mod week_td = ((4 - 3) * day_td + 22 * hour_td) mod week_td"
    unfolding week_shift_cong by simp
qed (use assms week_pos_bounds [of ts] in \<open>simp_all add: is_market_open_week_pos\<close>)

lemma open_span:
  assumes "ts \<le> t" "t < ts - week_pos ts + 5 * day_td"
  shows "is_market_open t"
  using assms week_pos_bounds [of ts] week_pos_shift [of ts "t - ts"]
  by (simp add: is_market_open_week_pos)

lemma closed_span:
  assumes "5 * day_td \<le> week_pos ts" "ts \<le> t" "t < ts + (week_td - week_pos ts)"
  shows "\<not> is_market_open t"
  using assms week_pos_shift [of ts "t - ts"] by (simp add: is_market_open_week_pos)

lemma week_pos_next_week: "week_pos (ts + (week_td - week_pos ts)) = 0"
proof -
  have "ts + (week_td - week_pos ts) - (3 * day_td + 22 * hour_td)
      = ts - week_pos ts + (week_td - (3 * day_td + 22 * hour_td))" by simp
  then show ?thesis unfolding week_pos_def [of "ts + _"] by (simp only: week_shift_cong) simp
qed


section \<open>Properties\<close>

lemma iterate_buckets_facts:
  assumes "start_ts \<le> end_ts"
  shows "sorted (iterate_buckets start_ts end_ts tf) \<and> distinct (iterate_buckets start_ts end_ts tf)
    \<and> (\<forall>t. t \<in> set (iterate_buckets start_ts end_ts tf) \<longleftrightarrow>
          t mod tf_step tf = 0 \<and> align_to_bucket start_ts tf \<le> t \<and> t < end_ts)"
proof -
  let ?c = "align_to_bucket start_ts tf" and ?s = "tf_step tf"
  have it: "iterate_buckets start_ts end_ts tf = bucket_loop tf ?c end_ts"
    using assms by (simp add: iterate_buckets_def)
  have "t \<in> set (bucket_loop tf ?c end_ts) \<longleftrightarrow> t mod ?s = 0 \<and> ?c \<le> t \<and> t < end_ts" for t
  proof
    assume "t \<in> set (bucket_loop tf ?c end_ts)"
    then obtain k where "t = ?c + int k * ?s" "t < end_ts" by (auto simp: bucket_loop_set)
    then show "t mod ?s = 0 \<and> ?c \<le> t \<and> t < end_ts"
      by (simp add: mult_nonneg_nonneg)
  next
    assume t: "t mod ?s = 0 \<and> ?c \<le> t \<and> t < end_ts"
    then have "?s dvd t" "?s dvd ?c" using align_mod [of start_ts tf] by (simp_all only: dvd_eq_mod_eq_0)
    then have "?s dvd t - ?c" by (rule dvd_diff)
    then obtain q where q: "t - ?c = ?s * q" by (rule dvdE)
    have "0 \<le> ?s * q" using t q by linarith
    then have "0 \<le> q" using tf_step_pos [of tf] by (simp add: zero_le_mult_iff)
    then have "t = ?c + int (nat q) * ?s" using q by (simp add: mult.commute)
    with t show "t \<in> set (bucket_loop tf ?c end_ts)" unfolding bucket_loop_set by blast
  qed
  then show ?thesis using bucket_loop_sorted [of tf ?c end_ts] by (auto simp: it)
qed

text \<open>
  C16. Bucket iteration: \<^verbatim>\<open>iterate_buckets\<close> terminates and returns, in ascending order without repetition,
  precisely the bucket starts of the timeframe from the bucket that contains the start up to the (exclusive) end.
  Where the start is not aligned, the first of them lies before the start (when that bucket starts before
  the end): the code does not keep the "within \<^verbatim>\<open>[start, end)\<close>" of its docstring and of the provider contract,
  and the repository's test expects the earlier bucket.
\<close>

theorem iterate_buckets_exact:
  assumes "start_ts \<le> end_ts"
  shows "sorted (iterate_buckets start_ts end_ts tf) \<and> distinct (iterate_buckets start_ts end_ts tf)
    \<and> (\<forall>t. t \<in> set (iterate_buckets start_ts end_ts tf) \<longleftrightarrow>
          t mod tf_step tf = 0 \<and> align_to_bucket start_ts tf \<le> t \<and> t < end_ts)"
  by (rule iterate_buckets_facts [OF assms])

text \<open>From 01:30 to 03:00 the hours are 01:00, before the start, and 02:00.\<close>

theorem iterate_buckets_exact_witness:
  "3600000000 \<in> set (iterate_buckets 5400000000 10800000000 H1)
   \<and> 7200000000 \<in> set (iterate_buckets 5400000000 10800000000 H1)
   \<and> 10800000000 \<notin> set (iterate_buckets 5400000000 10800000000 H1)"
  using iterate_buckets_exact [of 5400000000 10800000000 H1]
  by (simp add: tf_step_def seconds_td_def align_to_bucket_def)

text \<open>
  Market calendar: \<^verbatim>\<open>next_open\<close> returns the first instant at or after its argument at which the
  FX week is open; \<^verbatim>\<open>next_close\<close> returns an instant after that at which the market is closed, and
  the market is open at every instant from the opening up to it.
\<close>

theorem market_calendar:
  "ts \<le> next_open ts \<and> is_market_open (next_open ts)
   \<and> (\<forall>t. ts \<le> t \<and> t < next_open ts \<longrightarrow> \<not> is_market_open t)
   \<and> next_open ts < next_close ts \<and> \<not> is_market_open (next_close ts)
   \<and> (\<forall>t. next_open ts \<le> t \<and> t < next_close ts \<longrightarrow> is_market_open t)"
proof -
  define o1 where "o1 = next_open ts"
  have o: "ts \<le> o1 \<and> is_market_open o1 \<and> (\<forall>t. ts \<le> t \<and> t < o1 \<longrightarrow> \<not> is_market_open t)"
  proof (cases "is_market_open ts")
    case True
    then show ?thesis by (auto simp: o1_def next_open_def)
  next
    case False
    then have p: "5 * day_td \<le> week_pos ts" by (simp add: is_market_open_week_pos)
    have n: "o1 = ts + (week_td - week_pos ts)" unfolding o1_def by (rule next_open_closed [OF False])
    have "is_market_open o1" by (simp only: n is_market_open_week_pos week_pos_next_week)
    moreover have "ts \<le> o1" using week_pos_bounds [of ts] unfolding n by linarith
    moreover have "\<forall>t. ts \<le> t \<and> t < o1 \<longrightarrow> \<not> is_market_open t"
      using closed_span [OF p] unfolding n by blast
    ultimately show ?thesis by blast
  qed
  have c: "next_close ts = o1 - week_pos o1 + 5 * day_td"
  proof -
    have "next_close ts = next_boundary 4 22 0 o1"
      by (simp add: next_close_def Let_def o1_def next_open_def)
    with o friday_close [of o1] show ?thesis by simp
  qed
  have p: "0 \<le> week_pos o1" "week_pos o1 < 5 * day_td"
    using o week_pos_bounds [of o1] by (simp_all add: is_market_open_week_pos)
  have "\<not> is_market_open (next_close ts)"
  proof -
    have "week_pos (o1 + (5 * day_td - week_pos o1)) = week_pos o1 + (5 * day_td - week_pos o1)"
      using p by (intro week_pos_shift) linarith+
    moreover have "next_close ts = o1 + (5 * day_td - week_pos o1)" unfolding c by linarith
    ultimately show ?thesis by (simp only: is_market_open_week_pos)
  qed
  moreover have "\<forall>t. o1 \<le> t \<and> t < next_close ts \<longrightarrow> is_market_open t"
    unfolding c using open_span [of o1] by blast
  moreover have "o1 < next_close ts" unfolding c using p by linarith
  ultimately show ?thesis using o unfolding o1_def by blast
qed

theorem market_calendar_witness:
  "\<not> is_market_open 172800000000 \<and> next_open 172800000000 = 338400000000"
proof -
  have n: "next_open 172800000000 = 338400000000" by code_simp
  from market_calendar [of 172800000000] have "\<not> is_market_open 172800000000"
    unfolding n by (elim conjE) (erule allE [of _ 172800000000], simp)
  with n show ?thesis by simp
qed

end
