(* ===== verification/Positions.thy ===== *)
theory Positions
  imports Costs Timeframes
begin

text \<open>
  Open paper positions and their profit arithmetic (\<^verbatim>\<open>app/broker/positions.py\<close>). A
  \<^verbatim>\<open>PositionSet\<close> is the list of its positions, in insertion order.
\<close>

record position =
  p_symbol :: string
  p_timeframe :: timeframe
  p_units :: f64
  p_entry_price :: f64
  p_entry_ts :: datetime
  p_side :: direction
  p_stop_loss :: "f64 option"
  p_take_profit :: "f64 option"
  p_costs :: f64

definition notional :: "position \<Rightarrow> f64" where
  "notional p = p_units p * p_entry_price p"

definition unrealized :: "position \<Rightarrow> f64 \<Rightarrow> f64" where
  "unrealized p price =
     (let delta = (if p_side p = LONG then price - p_entry_price p else p_entry_price p - price)
      in p_units p * delta)"

definition exit_price_for :: "position \<Rightarrow> f64 \<Rightarrow> f64 option \<Rightarrow> f64 option \<Rightarrow> f64 \<times> string \<times> bool" where
  "exit_price_for p price sl tp =
     (if p_side p = LONG then
        (case sl of Some s \<Rightarrow> if price \<le> s then (s, ''stop_loss'', True)
                    else (case tp of Some t \<Rightarrow> if t \<le> price then (t, ''take_profit'', True) else (price, ''signal'', False)
                          | None \<Rightarrow> (price, ''signal'', False))
         | None \<Rightarrow> (case tp of Some t \<Rightarrow> if t \<le> price then (t, ''take_profit'', True) else (price, ''signal'', False)
                    | None \<Rightarrow> (price, ''signal'', False)))
      else
        (case sl of Some s \<Rightarrow> if s \<le> price then (s, ''stop_loss'', True)
                    else (case tp of Some t \<Rightarrow> if price \<le> t then (t, ''take_profit'', True) else (price, ''signal'', False)
                          | None \<Rightarrow> (price, ''signal'', False))
         | None \<Rightarrow> (case tp of Some t \<Rightarrow> if price \<le> t then (t, ''take_profit'', True) else (price, ''signal'', False)
                    | None \<Rightarrow> (price, ''signal'', False))))"

section \<open>PositionSet\<close>

type_synonym position_set = "position list"

definition open_for :: "position_set \<Rightarrow> string \<Rightarrow> position option" where
  "open_for ps symbol = find (\<lambda>p. p_symbol p = symbol) ps"

definition total_notional :: "position_set \<Rightarrow> f64" where
  "total_notional ps = py_sum (map notional ps)"

definition basket :: "string \<Rightarrow> string set" where
  "basket symbol = {take 3 symbol, drop 3 symbol}"

definition touches :: "position \<Rightarrow> string set \<Rightarrow> bool" where
  "touches p target = (basket (p_symbol p) \<inter> target \<noteq> {})"

definition basket_notional :: "position_set \<Rightarrow> string \<Rightarrow> f64" where
  "basket_notional ps symbol =
     py_sum (map notional (filter (\<lambda>p. p_side p = LONG \<and> touches p (basket symbol)) ps))"

definition correlation_triggered :: "position_set \<Rightarrow> string \<Rightarrow> bool" where
  "correlation_triggered ps symbol = (\<exists>p\<in>set ps. p_side p = LONG \<and> touches p (basket symbol))"

definition close_position :: "position_set \<Rightarrow> string \<Rightarrow> bool \<times> position_set" where
  "close_position ps symbol =
     (open_for ps symbol \<noteq> None, remove_first (\<lambda>p. p_symbol p = symbol) ps)"

lemma open_for_SomeD: "open_for ps s = Some p \<Longrightarrow> p_symbol p = s \<and> p \<in> set ps"
  by (auto simp: open_for_def dest: find_SomeD)

lemma open_for_None_iff: "open_for ps s = None \<longleftrightarrow> s \<notin> p_symbol ` set ps"
  by (auto simp: open_for_def find_None_iff)

lemma open_for_append:
  "open_for (ps @ qs) s = (case open_for ps s of Some p \<Rightarrow> Some p | None \<Rightarrow> open_for qs s)"
  by (simp add: open_for_def find_append split: option.splits)

lemma open_for_single [simp]: "open_for [p] s = (if p_symbol p = s then Some p else None)"
  by (simp add: open_for_def)

lemma open_for_closed:
  assumes "distinct (map p_symbol ps)"
  shows "open_for (snd (close_position ps s)) t = (if t = s then None else open_for ps t)"
proof -
  have "snd (close_position ps s) = filter (\<lambda>p. p_symbol p \<noteq> s) ps"
    using assms by (simp add: close_position_def remove_first_key)
  moreover have "find (\<lambda>p. p_symbol p = t) (filter (\<lambda>p. p_symbol p \<noteq> s) ps)
      = (if t = s then None else find (\<lambda>p. p_symbol p = t) ps)"
    by (induction ps) auto
  ultimately show ?thesis by (simp add: open_for_def)
qed

text \<open>
  The two sides are exact mirrors: the unrealized profit of a short is the negation of the
  same long's, in floating point, at every price; and a long gains precisely when price is above
  entry (no rounding turns a gain into a loss).
\<close>

theorem unrealized_mirror:
  "unrealized (p\<lparr>p_side := SHORT\<rparr>) price = - unrealized (p\<lparr>p_side := LONG\<rparr>) price
   \<and> (0 < p_units p \<longrightarrow>
       (p_entry_price p \<le> price \<longrightarrow> 0 \<le> unrealized (p\<lparr>p_side := LONG\<rparr>) price)
     \<and> (price \<le> p_entry_price p \<longrightarrow> unrealized (p\<lparr>p_side := LONG\<rparr>) price \<le> 0))"
proof -
  have m: "p_units p * (p_entry_price p - price) = - (p_units p * (price - p_entry_price p))"
    by (metis f64_minus_diff f64_mult_minus(2))
  have "0 \<le> p_units p * (p_entry_price p - price)"
    if "0 < p_units p" "price \<le> p_entry_price p"
    using that by (intro f64_mult_nonneg f64_diff_nonneg) simp_all
  with m show ?thesis
    by (auto simp: unrealized_def Let_def f64_neg_iff intro: f64_mult_nonneg f64_diff_nonneg)
qed

theorem unrealized_mirror_witness:
  "0 \<le> unrealized (\<lparr>p_symbol = ''EURUSD'', p_timeframe = H1, p_units = fl 10, p_entry_price = fl 1,
      p_entry_ts = 0, p_side = LONG, p_stop_loss = None, p_take_profit = None, p_costs = 0\<rparr>) (fl 2)"
  (is "0 \<le> unrealized ?p _")
proof -
  have "0 < p_units ?p" "p_entry_price ?p \<le> fl 2" by (simp_all) code_simp+
  with unrealized_mirror [of ?p "fl 2"] show ?thesis by simp
qed

text \<open>
  A stop or target exits at the threshold, never better: when \<^verbatim>\<open>exit_price_for\<close> reports a hit,
  the exit price is the configured threshold and the bar's close is on or beyond it on the side
  that makes the exit no better than the close for a target and no worse for a stop; when it
  reports no hit, the close is strictly inside both thresholds.
\<close>

theorem exit_price_conservative:
  assumes "p_side p \<noteq> FLAT" "exit_price_for p price sl tp = (x, reason, hit)"
  shows "(hit \<and> reason = ''stop_loss'' \<longrightarrow> sl = Some x \<and> (if p_side p = LONG then price \<le> x else x \<le> price))
    \<and> (hit \<and> reason = ''take_profit'' \<longrightarrow> tp = Some x \<and> (if p_side p = LONG then x \<le> price else price \<le> x))
    \<and> (hit \<longrightarrow> reason \<in> {''stop_loss'', ''take_profit''})
    \<and> (\<not> hit \<longrightarrow> x = price \<and> reason = ''signal''
        \<and> (\<forall>s. sl = Some s \<longrightarrow> (if p_side p = LONG then s < price else price < s))
        \<and> (\<forall>t. tp = Some t \<longrightarrow> (if p_side p = LONG then price < t else t < price)))"
  using assms(2) by (auto simp: exit_price_for_def not_le split: option.splits if_splits)

theorem exit_price_conservative_witness:
  "\<exists>p x. p_side p = LONG \<and> exit_price_for p 0 (Some 1) None = (x, ''stop_loss'', True) \<and> x = 1"
proof -
  let ?p = "\<lparr>p_symbol = ''EURUSD'', p_timeframe = H1, p_units = 1, p_entry_price = 1,
      p_entry_ts = 0, p_side = LONG, p_stop_loss = Some 1, p_take_profit = None, p_costs = 0\<rparr>"
  have e: "exit_price_for ?p 0 (Some 1) None = (1, ''stop_loss'', True)"
    by (simp add: exit_price_for_def)
  from exit_price_conservative [OF _ e] have "(Some (1 :: f64)) = Some 1" by simp
  with e show ?thesis by (intro exI [of _ ?p]) simp
qed

end
