(* ===== verification/PaperBroker.thy ===== *)
theory PaperBroker
  imports Positions
begin

text \<open>
  The deterministic paper broker (\<^verbatim>\<open>app/broker/paper.py\<close>): one record for the object's attributes,
  one function per method, each returning the method's result and the new object. The hash of the
  cost model is the first argument of the methods that charge costs.
\<close>

record trade =
  t_symbol :: string
  t_timeframe :: timeframe
  t_side :: direction
  t_units :: f64
  t_entry_ts :: datetime
  t_entry_price :: f64
  t_exit_ts :: datetime
  t_exit_price :: f64
  t_gross_pnl :: f64
  t_costs :: f64
  t_net_pnl :: f64
  t_exit_reason :: string

record paper_broker =
  start_equity :: f64
  cash :: f64
  seed :: int
  cost_params :: cost_params
  equity :: f64
  peak_equity :: f64
  max_drawdown_pct :: f64
  positions :: position_set
  trades :: "trade list"
  last_mark :: "string \<rightharpoonup> f64"

record broker_state =
  bs_ts :: datetime
  bs_equity :: f64
  bs_cash :: f64
  bs_open_positions :: position_set
  bs_trades :: "trade list"

definition EXIT_SIGNAL :: string where
  "EXIT_SIGNAL = ''signal''"

definition init_broker :: "f64 \<Rightarrow> int \<Rightarrow> cost_params option \<Rightarrow> paper_broker" where
  "init_broker equity0 seed0 costs =
     \<lparr>start_equity = equity0, cash = equity0, seed = seed0,
      cost_params = (case costs of Some c \<Rightarrow> c | None \<Rightarrow> default_costs),
      equity = equity0, peak_equity = equity0, max_drawdown_pct = 0,
      positions = [], trades = [], last_mark = Map.empty\<rparr>"

definition mark_position :: "string \<Rightarrow> f64 \<Rightarrow> paper_broker \<Rightarrow> paper_broker" where
  "mark_position symbol price b = b\<lparr>last_mark := (last_mark b)(symbol \<mapsto> price)\<rparr>"

definition mark_of :: "paper_broker \<Rightarrow> position \<Rightarrow> f64" where
  "mark_of b p = (case last_mark b (p_symbol p) of Some m \<Rightarrow> m | None \<Rightarrow> p_entry_price p)"

definition total_equity :: "paper_broker \<Rightarrow> f64" where
  "total_equity b = cash b + foldl (\<lambda>u p. u + unrealized p (mark_of b p)) 0 (positions b)"

definition enter_at_next_open ::
  "hash \<Rightarrow> string \<Rightarrow> timeframe \<Rightarrow> direction \<Rightarrow> f64 \<Rightarrow> datetime \<Rightarrow> f64 option \<Rightarrow> f64 option \<Rightarrow> f64 option
   \<Rightarrow> paper_broker \<Rightarrow> paper_broker" where
  "enter_at_next_open H symbol tf dir ref_price ts stop_loss take_profit units b =
     (case units of None \<Rightarrow> b | Some u \<Rightarrow>
        if dir = FLAT \<or> u \<le> 0 then b
        else if open_for (positions b) symbol \<noteq> None then b
        else
          let price = ref_price;
              cost = cost_per_unit H price (seed b) symbol (direction_value dir) (u * price) (cost_params b);
              cost_total = cost * u;
              pos = \<lparr>p_symbol = symbol, p_timeframe = tf, p_units = u, p_entry_price = price,
                     p_entry_ts = ts, p_side = dir, p_stop_loss = stop_loss,
                     p_take_profit = take_profit, p_costs = cost_total\<rparr>
          in b\<lparr>cash := cash b - cost_total, last_mark := (last_mark b)(symbol \<mapsto> price),
               positions := positions b @ [pos]\<rparr>)"

text \<open>\<^verbatim>\<open>_close\<close>; its callers pass the position they found (\<^verbatim>\<open>assert pos is not None\<close>).\<close>

definition close_cost :: "hash \<Rightarrow> position \<Rightarrow> f64 \<Rightarrow> paper_broker \<Rightarrow> f64" where
  "close_cost H pos price b =
     cost_per_unit H price (seed b) (p_symbol pos) (direction_value (p_side pos)) (p_units pos * price)
       (cost_params b) * p_units pos + p_costs pos"

definition gross_of :: "position \<Rightarrow> f64 \<Rightarrow> f64" where
  "gross_of pos price =
     (if p_side pos = LONG then p_units pos * (price - p_entry_price pos)
      else p_units pos * (p_entry_price pos - price))"

definition close_at :: "hash \<Rightarrow> position \<Rightarrow> f64 \<Rightarrow> string \<Rightarrow> datetime \<Rightarrow> paper_broker \<Rightarrow> trade \<times> paper_broker" where
  "close_at H pos price reason ts b =
     (let cost_total = close_cost H pos price b;
          gross = gross_of pos price;
          net = gross - cost_total;
          trade = \<lparr>t_symbol = p_symbol pos, t_timeframe = p_timeframe pos, t_side = p_side pos,
                   t_units = p_units pos, t_entry_ts = p_entry_ts pos,
                   t_entry_price = p_entry_price pos, t_exit_ts = ts, t_exit_price = price,
                   t_gross_pnl = round_nd gross 6, t_costs = round_nd cost_total 6,
                   t_net_pnl = round_nd net 6, t_exit_reason = reason\<rparr>
      in (trade, b\<lparr>cash := cash b + gross - cost_total, trades := trades b @ [trade],
                   positions := snd (close_position (positions b) (p_symbol pos))\<rparr>))"

definition evaluate_exit :: "hash \<Rightarrow> string \<Rightarrow> f64 \<Rightarrow> datetime \<Rightarrow> paper_broker \<Rightarrow> trade option \<times> paper_broker" where
  "evaluate_exit H symbol close_px ts b =
     (case open_for (positions b) symbol of
        None \<Rightarrow> (None, b)
      | Some pos \<Rightarrow>
          (case exit_price_for pos close_px (p_stop_loss pos) (p_take_profit pos) of (exit_price, reason, hit) \<Rightarrow>
             if \<not> hit then (None, b)
             else (case close_at H pos exit_price reason ts b of (t, b') \<Rightarrow> (Some t, b'))))"

definition close_on_signal :: "hash \<Rightarrow> string \<Rightarrow> f64 \<Rightarrow> datetime \<Rightarrow> paper_broker \<Rightarrow> trade option \<times> paper_broker" where
  "close_on_signal H symbol price ts b =
     (case open_for (positions b) symbol of
        None \<Rightarrow> (None, b)
      | Some pos \<Rightarrow> (case close_at H pos price EXIT_SIGNAL ts b of (t, b') \<Rightarrow> (Some t, b')))"

definition broker_snapshot :: "datetime \<Rightarrow> paper_broker \<Rightarrow> broker_state \<times> paper_broker" where
  "broker_snapshot ts b =
     (let eq = total_equity b;
          peak = (if peak_equity b < eq then eq else peak_equity b);
          dd = (if 0 < peak then
                  (let d = (peak - eq) / peak in if max_drawdown_pct b < d then d else max_drawdown_pct b)
                else max_drawdown_pct b);
          b' = b\<lparr>equity := eq, peak_equity := peak, max_drawdown_pct := dd\<rparr>
      in (\<lparr>bs_ts = ts, bs_equity = eq, bs_cash = cash b, bs_open_positions = positions b,
           bs_trades = trades b\<rparr>, b'))"

declare mark_position_def [op_defs] enter_at_next_open_def [op_defs] close_at_def [op_defs]
  evaluate_exit_def [op_defs] close_on_signal_def [op_defs] broker_snapshot_def [op_defs] Let_def [op_defs]

section \<open>Frame facts\<close>

lemma mark_position_frame [simp, frame_simps]:
  "positions (mark_position s x b) = positions b" "cash (mark_position s x b) = cash b"
  "trades (mark_position s x b) = trades b" "peak_equity (mark_position s x b) = peak_equity b"
  "max_drawdown_pct (mark_position s x b) = max_drawdown_pct b" "seed (mark_position s x b) = seed b"
  "equity (mark_position s x b) = equity b" "start_equity (mark_position s x b) = start_equity b"
  by (simp_all add: mark_position_def)

lemma enter_frame [simp, frame_simps]:
  "trades (enter_at_next_open H s tf d x ts sl tp u b) = trades b"
  "peak_equity (enter_at_next_open H s tf d x ts sl tp u b) = peak_equity b"
  "max_drawdown_pct (enter_at_next_open H s tf d x ts sl tp u b) = max_drawdown_pct b"
  "start_equity (enter_at_next_open H s tf d x ts sl tp u b) = start_equity b"
  "seed (enter_at_next_open H s tf d x ts sl tp u b) = seed b"
  by (simp_all add: op_defs split: option.splits)

lemma enter_positions:
  "positions (enter_at_next_open H s tf d x ts sl tp u b) = positions b \<or>
   (\<exists>pos v. u = Some v \<and> 0 < v \<and> d \<noteq> FLAT \<and> open_for (positions b) s = None
      \<and> positions (enter_at_next_open H s tf d x ts sl tp u b) = positions b @ [pos]
      \<and> p_symbol pos = s \<and> p_units pos = v \<and> p_side pos = d \<and> p_entry_price pos = x
      \<and> p_entry_ts pos = ts \<and> p_timeframe pos = tf \<and> p_stop_loss pos = sl \<and> p_take_profit pos = tp)"
  by (auto simp: op_defs not_le split: option.splits)

lemma close_at_frame [simp, frame_simps]:
  "peak_equity (snd (close_at H p x r ts b)) = peak_equity b"
  "max_drawdown_pct (snd (close_at H p x r ts b)) = max_drawdown_pct b"
  "start_equity (snd (close_at H p x r ts b)) = start_equity b"
  "seed (snd (close_at H p x r ts b)) = seed b"
  "positions (snd (close_at H p x r ts b)) = snd (close_position (positions b) (p_symbol p))"
  "trades (snd (close_at H p x r ts b)) = trades b @ [fst (close_at H p x r ts b)]"
  "t_symbol (fst (close_at H p x r ts b)) = p_symbol p"
  "t_exit_reason (fst (close_at H p x r ts b)) = r"
  "t_exit_price (fst (close_at H p x r ts b)) = x"
  "t_exit_ts (fst (close_at H p x r ts b)) = ts"
  by (simp_all add: close_at_def Let_def)

lemma close_at_open_for:
  assumes "distinct (map p_symbol (positions b))"
  shows "open_for (positions (snd (close_at H p x r ts b))) s
    = (if s = p_symbol p then None else open_for (positions b) s)"
  using assms by (simp add: open_for_closed)

text \<open>Both closing methods either do nothing or are one \<open>close_at\<close> of the symbol's position.\<close>

lemma evaluate_exit_cases:
  obtains (none) "evaluate_exit H s x ts b = (None, b)"
  | (closed) pos y r where "open_for (positions b) s = Some pos"
      "exit_price_for pos x (p_stop_loss pos) (p_take_profit pos) = (y, r, True)"
      "evaluate_exit H s x ts b = (Some (fst (close_at H pos y r ts b)), snd (close_at H pos y r ts b))"
proof (cases "open_for (positions b) s")
  case None
  then show ?thesis by (intro none) (simp add: evaluate_exit_def)
next
  case (Some pos)
  obtain y r h where e: "exit_price_for pos x (p_stop_loss pos) (p_take_profit pos) = (y, r, h)"
    by (metis prod_cases3)
  show ?thesis
  proof (cases h)
    case True
    with Some e show ?thesis
      by (intro closed [of pos y r]) (simp_all add: evaluate_exit_def case_prod_unfold)
  next
    case False
    with Some e show ?thesis by (intro none) (simp add: evaluate_exit_def)
  qed
qed

lemma close_on_signal_cases:
  obtains (none) "open_for (positions b) s = None" "close_on_signal H s x ts b = (None, b)"
  | (closed) pos where "open_for (positions b) s = Some pos"
      "close_on_signal H s x ts b
        = (Some (fst (close_at H pos x EXIT_SIGNAL ts b)), snd (close_at H pos x EXIT_SIGNAL ts b))"
  unfolding close_on_signal_def
  by (cases "open_for (positions b) s") (auto split: prod.splits)

lemma snapshot_frame [simp, frame_simps]:
  "positions (snd (broker_snapshot ts b)) = positions b" "trades (snd (broker_snapshot ts b)) = trades b"
  "cash (snd (broker_snapshot ts b)) = cash b" "start_equity (snd (broker_snapshot ts b)) = start_equity b"
  "bs_equity (fst (broker_snapshot ts b)) = total_equity b" "bs_cash (fst (broker_snapshot ts b)) = cash b"
  "equity (snd (broker_snapshot ts b)) = total_equity b"
  by (simp_all add: broker_snapshot_def Let_def)

section \<open>Invariant\<close>

definition broker_ok :: "paper_broker \<Rightarrow> bool" where
  "broker_ok b =
     (distinct (map p_symbol (positions b))
      \<and> (\<forall>p\<in>set (positions b). p_side p \<noteq> FLAT \<and> 0 < p_units p)
      \<and> start_equity b \<le> peak_equity b \<and> 0 \<le> max_drawdown_pct b)"

lemma broker_ok_distinct: "broker_ok b \<Longrightarrow> distinct (map p_symbol (positions b))"
  by (simp add: broker_ok_def)

lemma broker_ok_init [inv_intros]: "broker_ok (init_broker e s c)"
  by (simp add: broker_ok_def init_broker_def)

lemma broker_ok_mark [inv_intros]: "broker_ok b \<Longrightarrow> broker_ok (mark_position s x b)"
  by (simp add: broker_ok_def)

lemma broker_ok_enter [inv_intros]:
  assumes "broker_ok b"
  shows "broker_ok (enter_at_next_open H s tf d x ts sl tp u b)"
  using enter_positions [of H s tf d x ts sl tp u b] assms
  by (auto simp: broker_ok_def open_for_None_iff)

lemma broker_ok_close_at [inv_intros]:
  assumes "broker_ok b"
  shows "broker_ok (snd (close_at H p x r ts b))"
  using assms set_remove_first_subset [of "\<lambda>q. p_symbol q = p_symbol p" "positions b"]
  by (auto simp: broker_ok_def close_position_def distinct_map_remove_first)

lemma broker_ok_evaluate_exit [inv_intros]: "broker_ok b \<Longrightarrow> broker_ok (snd (evaluate_exit H s x ts b))"
  by (cases rule: evaluate_exit_cases [of H s x ts b]) (auto intro: inv_intros)

lemma broker_ok_close_on_signal [inv_intros]: "broker_ok b \<Longrightarrow> broker_ok (snd (close_on_signal H s x ts b))"
  by (cases rule: close_on_signal_cases [of b s H x ts]) (auto intro: inv_intros)

lemma broker_ok_snapshot [inv_intros]: "broker_ok b \<Longrightarrow> broker_ok (snd (broker_snapshot ts b))"
  by (auto simp: broker_ok_def broker_snapshot_def Let_def)


section \<open>Runs of the broker\<close>

text \<open>Any sequence of method calls, with any arguments, from a fresh broker.\<close>

inductive broker_step :: "hash \<Rightarrow> paper_broker \<Rightarrow> paper_broker \<Rightarrow> bool" for H where
  mark: "broker_step H b (mark_position s x b)"
| enter: "broker_step H b (enter_at_next_open H s tf d x ts sl tp u b)"
| eval_exit: "broker_step H b (snd (evaluate_exit H s x ts b))"
| signal: "broker_step H b (snd (close_on_signal H s x ts b))"
| snapshot: "broker_step H b (snd (broker_snapshot ts b))"

inductive broker_reachable :: "hash \<Rightarrow> paper_broker \<Rightarrow> bool" for H where
  start: "broker_reachable H (init_broker e s c)"
| step: "broker_reachable H b \<Longrightarrow> broker_step H b b' \<Longrightarrow> broker_reachable H b'"

lemma broker_step_ok: "broker_step H b b' \<Longrightarrow> broker_ok b \<Longrightarrow> broker_ok b'"
  by (induction rule: broker_step.induct) (auto intro: inv_intros)

lemma broker_reachable_ok: "broker_reachable H b \<Longrightarrow> broker_ok b"
  by (induction rule: broker_reachable.induct) (auto intro: inv_intros broker_step_ok)

text \<open>
  One position per symbol, always: in every state a broker can reach by any sequence of fills,
  exits, marks and snapshots, no symbol has two open positions, no open position is FLAT, every
  open position has positive units, the peak is at least the starting equity and the recorded
  drawdown is not negative.
\<close>

theorem broker_invariant: "broker_reachable H b \<Longrightarrow> broker_ok b"
  by (rule broker_reachable_ok)

theorem broker_invariant_witness:
  "broker_ok (enter_at_next_open (\<lambda>_. 0) ''EURUSD'' H1 LONG 1 0 None None (Some 1) (init_broker 1 0 None))"
  by (rule broker_invariant) (rule broker_reachable.step [OF broker_reachable.start broker_step.enter])

section \<open>Accounting\<close>

lemma drawdown_le_1:
  assumes "0 \<le> eq" "eq \<le> peak" "0 < peak"
  shows "(peak - eq) / peak \<le> (1 :: f64)"
  using assms by (intro f64_div_le_1 f64_diff_nonneg f64_diff_le) simp_all

text \<open>
  \<^verbatim>\<open>state()\<close> only ever raises the watermarks: the peak never falls and is at least the equity
  it reports, the maximum drawdown never falls, covers the current drawdown from the peak when the
  peak is positive, and stays at most 1 (a total loss) while equity is not negative.
\<close>

theorem snapshot_watermarks:
  assumes "broker_snapshot ts b = (s, b')"
  shows "peak_equity b \<le> peak_equity b' \<and> bs_equity s \<le> peak_equity b'
    \<and> max_drawdown_pct b \<le> max_drawdown_pct b'
    \<and> (0 < peak_equity b' \<longrightarrow> (peak_equity b' - bs_equity s) / peak_equity b' \<le> max_drawdown_pct b')
    \<and> (0 \<le> bs_equity s \<and> max_drawdown_pct b \<le> 1 \<longrightarrow> max_drawdown_pct b' \<le> 1)"
proof -
  define eq where "eq = total_equity b"
  define peak where "peak = (if peak_equity b < eq then eq else peak_equity b)"
  have s: "bs_equity s = eq" "peak_equity b' = peak"
    and dd: "max_drawdown_pct b' = (if 0 < peak then max (max_drawdown_pct b) ((peak - eq) / peak)
      else max_drawdown_pct b)"
    using assms by (auto simp: broker_snapshot_def Let_def eq_def peak_def max_def)
  have p: "peak_equity b \<le> peak" "eq \<le> peak" by (auto simp: peak_def)
  show ?thesis unfolding s dd using p drawdown_le_1 [of eq peak] by auto
qed

theorem snapshot_watermarks_witness:
  "0 \<le> max_drawdown_pct (snd (broker_snapshot 0 (init_broker 1 0 None)))"
  using snapshot_watermarks [of 0 "init_broker 1 0 None", OF surjective_pairing]
  by (simp add: init_broker_def)

lemma round_trip:
  assumes "dir \<noteq> FLAT" "0 < u" "open_for (positions b) symb = None"
    and "b1 = enter_at_next_open H symb tf dir px ts sl tp (Some u) b"
    and "close_on_signal H symb px' ts' b1 = (t, b2)"
    and "c = cost_per_unit H px (seed b) symb (direction_value dir) (u * px) (cost_params b) * u"
    and "x = cost_per_unit H px' (seed b) symb (direction_value dir) (u * px') (cost_params b) * u"
    and "g = (if dir = LONG then u * (px' - px) else u * (px - px'))"
  shows "cash b2 = cash b - c + g - (x + c)
    \<and> map_option t_net_pnl t = Some (round_nd (g - (x + c)) 6)
    \<and> open_for (positions b2) symb = None \<and> length (trades b2) = Suc (length (trades b))"
proof -
  let ?pos = "\<lparr>p_symbol = symb, p_timeframe = tf, p_units = u, p_entry_price = px, p_entry_ts = ts,
    p_side = dir, p_stop_loss = sl, p_take_profit = tp, p_costs = c\<rparr>"
  have b1: "b1 = b\<lparr>cash := cash b - c, last_mark := (last_mark b)(symb \<mapsto> px), positions := positions b @ [?pos]\<rparr>"
    using assms(1-3) unfolding assms(4,6) by (simp add: enter_at_next_open_def Let_def not_le)
  have o: "open_for (positions b1) symb = Some ?pos"
    using assms(3) by (simp add: b1 open_for_append)
  have "\<forall>p\<in>set (positions b). p_symbol p \<noteq> symb"
    using assms(3) by (auto simp: open_for_None_iff)
  then have "snd (close_position (positions b1) symb) = positions b"
    by (simp add: b1 close_position_def remove_first_append_absent)
  then have "b2 = snd (close_at H ?pos px' EXIT_SIGNAL ts' b1)" "positions b2 = positions b"
    "t = Some (fst (close_at H ?pos px' EXIT_SIGNAL ts' b1))"
    using assms(5) o by (auto simp: close_on_signal_def case_prod_unfold)
  then show ?thesis
    using assms(3,7,8) by (simp add: close_at_def Let_def close_cost_def gross_of_def b1)
qed

text \<open>
  What a round trip does to cash: entering and later closing a position (with no other event
  on the symbol) first deducts the entry cost \<open>c\<close> from cash, then adds the gross result and deducts
  the exit cost plus \<open>c\<close> again, while the trade's net profit counts \<open>c\<close> once.
\<close>

theorem round_trip_cash:
  assumes "dir \<noteq> FLAT" "0 < u" "open_for (positions b) symb = None"
    and "b1 = enter_at_next_open H symb tf dir px ts sl tp (Some u) b"
    and "close_on_signal H symb px' ts' b1 = (t, b2)"
    and "c = cost_per_unit H px (seed b) symb (direction_value dir) (u * px) (cost_params b) * u"
    and "x = cost_per_unit H px' (seed b) symb (direction_value dir) (u * px') (cost_params b) * u"
    and "g = (if dir = LONG then u * (px' - px) else u * (px - px'))"
  shows "cash b2 = cash b - c + g - (x + c)
    \<and> map_option t_net_pnl t = Some (round_nd (g - (x + c)) 6)
    \<and> open_for (positions b2) symb = None \<and> length (trades b2) = Suc (length (trades b))"
  using assms by (rule round_trip)

theorem round_trip_cash_witness:
  "cash (snd (close_on_signal (\<lambda>_. 0) ''EURUSD'' (fl 100) 1
     (enter_at_next_open (\<lambda>_. 0) ''EURUSD'' H1 LONG (fl 100) 0 None None (Some (fl 10)) (init_broker (fl 1000) 0 None))))
   = fl 1000 - cost_per_unit (\<lambda>_. 0) (fl 100) 0 ''EURUSD'' ''LONG'' (fl 10 * fl 100) default_costs * fl 10
     + fl 10 * (fl 100 - fl 100)
     - (cost_per_unit (\<lambda>_. 0) (fl 100) 0 ''EURUSD'' ''LONG'' (fl 10 * fl 100) default_costs * fl 10
        + cost_per_unit (\<lambda>_. 0) (fl 100) 0 ''EURUSD'' ''LONG'' (fl 10 * fl 100) default_costs * fl 10)"
proof -
  have "0 < fl 10" by code_simp
  from round_trip_cash [OF _ this _ refl surjective_pairing refl refl refl,
      of LONG "init_broker (fl 1000) 0 None" "''EURUSD''"]
  show ?thesis by (simp add: init_broker_def open_for_def)
qed

text \<open>
  C8. Entry costs are charged to cash twice. A flat round trip on a 1000 account with a cost of 1
  per unit and side, 10 units: the trade reports a net result of -20 (entry 10, exit 10), yet cash
  ends at 970, not 980, and so does every equity computed from it.
\<close>

definition unit_costs :: cost_params where
  "unit_costs = \<lparr>spread = fl 2, commission_per_side = 0, slippage_pct = 0, slippage_notional_scale = 0\<rparr>"

theorem entry_cost_charged_twice:
  "case close_on_signal (\<lambda>_. 0) ''EURUSD'' (fl 100) 1
      (enter_at_next_open (\<lambda>_. 0) ''EURUSD'' H1 LONG (fl 100) 0 None None (Some (fl 10))
        (init_broker (fl 1000) 0 (Some unit_costs))) of
     (Some t, b) \<Rightarrow> t_net_pnl t = fl (- 20) \<and> fl 1000 + t_net_pnl t = fl 980 \<and> cash b = fl 970
       \<and> open_for (positions b) ''EURUSD'' = None
   | (None, b) \<Rightarrow> False"
proof -
  let ?b = "init_broker (fl 1000) 0 (Some unit_costs)"
  let ?b1 = "enter_at_next_open (\<lambda>_. 0) ''EURUSD'' H1 LONG (fl 100) 0 None None (Some (fl 10)) ?b"
  have u: "0 < fl 10" by code_simp
  have c: "cost_per_unit (\<lambda>_. 0) (fl 100) 0 ''EURUSD'' ''LONG'' n unit_costs = fl 2 / fl 2" for n
    by (subst cost_no_slippage) (simp_all add: unit_costs_def)
  obtain t b2 where e: "close_on_signal (\<lambda>_. 0) ''EURUSD'' (fl 100) 1 ?b1 = (t, b2)" by force
  have "fl 1000 - fl 2 / fl 2 * fl 10 + fl 10 * 0 - (fl 2 / fl 2 * fl 10 + fl 2 / fl 2 * fl 10) = fl 970"
    "round_nd (fl 10 * 0 - (fl 2 / fl 2 * fl 10 + fl 2 / fl 2 * fl 10)) 6 = fl (- 20)"
    "fl 1000 + fl (- 20) = fl 980" by code_simp+
  with round_trip [OF _ u _ refl e refl refl refl]
  have "cash b2 = fl 970" "map_option t_net_pnl t = Some (fl (- 20))" "open_for (positions b2) ''EURUSD'' = None"
    "fl 1000 + fl (- 20) = fl 980"
    by (simp_all add: init_broker_def open_for_def c)
  then show ?thesis by (auto simp: e split: option.splits)
qed

end
