(* ===== verification/LedgerStore.thy ===== *)
theory LedgerStore
  imports PaperBroker
begin

text \<open>
  The paper ledger tables (\<^verbatim>\<open>app/models/paper_ledger.py\<close>) and the store the broker writes through
  (\<^verbatim>\<open>app/broker/store.py\<close>, \<^verbatim>\<open>LedgerStore\<close> of \<^verbatim>\<open>app/broker/ledger.py\<close>).

  A table is the list of its rows in insertion order. Rows are ORM objects shared between the
  session and the code that loaded them, so the store is the heap: an order or position is
  referred to by its primary key, and an in-place change followed by \<^verbatim>\<open>update_order\<close> /
  \<^verbatim>\<open>update_position\<close> is the replacement of the row with that key. Column values are decimals
  (rationals). \<^verbatim>\<open>uuid4()\<close> and the server clock are arguments of the operations that use them.
\<close>

section \<open>Rows\<close>

datatype order_status = PENDING | FILLED | CANCELLED | REJECTED
datatype position_status = OPEN | CLOSED
datatype order_type = NEXT_OPEN

record order_row =
  o_id :: uuid
  o_created_at :: "datetime option"
  o_decision_id :: "uuid option"
  o_symbol :: string
  o_timeframe :: timeframe
  o_side :: direction
  o_order_type :: order_type
  o_status :: order_status
  o_units :: rat
  o_requested_price :: "rat option"
  o_filled_price :: "rat option"
  o_costs :: rat
  o_stop_loss :: "rat option"
  o_take_profit :: "rat option"
  o_seed :: int
  o_filled_at :: "datetime option"

record position_row =
  r_id :: uuid
  r_order_id :: uuid
  r_updated_at :: datetime
  r_symbol :: string
  r_timeframe :: timeframe
  r_side :: direction
  r_units :: rat
  r_entry_price :: rat
  r_entry_ts :: datetime
  r_stop_loss :: "rat option"
  r_take_profit :: "rat option"
  r_costs :: rat
  r_status :: position_status
  r_exit_price :: "rat option"
  r_exit_ts :: "datetime option"
  r_exit_reason :: "string option"
  r_gross_pnl :: "rat option"
  r_net_pnl :: "rat option"

record snapshot_row =
  s_id :: uuid
  s_ts :: datetime
  s_cash :: rat
  s_equity :: rat
  s_open_pnl :: rat
  s_realized_pnl :: rat
  s_peak_equity :: rat
  s_drawdown_pct :: rat
  s_margin_used :: rat

text \<open>The columns of \<^verbatim>\<open>decisions\<close> the store reads.\<close>

record decision_ref =
  d_id :: uuid
  d_bucket_ts :: datetime
  d_valid_until :: "datetime option"

record store =
  orders :: "order_row list"
  position_rows :: "position_row list"
  snapshots :: "snapshot_row list"
  decisions :: "decision_ref list"

definition empty_store :: store where
  "empty_store = \<lparr>orders = [], position_rows = [], snapshots = [], decisions = []\<rparr>"

section \<open>Operations\<close>

definition save_order :: "order_row \<Rightarrow> store \<Rightarrow> store" where
  "save_order ord st = st\<lparr>orders := orders st @ [ord]\<rparr>"

definition update_order :: "order_row \<Rightarrow> store \<Rightarrow> store" where
  "update_order ord st = st\<lparr>orders := map (\<lambda>r. if o_id r = o_id ord then ord else r) (orders st)\<rparr>"

text \<open>The current attributes of an order object the caller holds.\<close>

definition live_order :: "store \<Rightarrow> order_row \<Rightarrow> order_row" where
  "live_order st ord = (case find (\<lambda>r. o_id r = o_id ord) (orders st) of Some r \<Rightarrow> r | None \<Rightarrow> ord)"

definition created_key :: "order_row \<Rightarrow> datetime \<times> uuid" where
  "created_key ord = (case o_created_at ord of Some t \<Rightarrow> t | None \<Rightarrow> 0, o_id ord)"

definition list_pending_orders :: "store \<Rightarrow> order_row list" where
  "list_pending_orders st = sort_key created_key (filter (\<lambda>r. o_status r = PENDING) (orders st))"

definition get_decision_bucket :: "uuid option \<Rightarrow> store \<Rightarrow> datetime option" where
  "get_decision_bucket did st =
     (case did of None \<Rightarrow> None
      | Some i \<Rightarrow> map_option d_bucket_ts (find (\<lambda>d. d_id d = i) (decisions st)))"

definition save_position :: "position_row \<Rightarrow> store \<Rightarrow> store" where
  "save_position row st = st\<lparr>position_rows := position_rows st @ [row]\<rparr>"

definition update_position :: "position_row \<Rightarrow> store \<Rightarrow> store" where
  "update_position row st =
     st\<lparr>position_rows := map (\<lambda>r. if r_id r = r_id row then row else r) (position_rows st)\<rparr>"

definition get_open_position :: "string \<Rightarrow> store \<Rightarrow> position_row option" where
  "get_open_position symbol st =
     find (\<lambda>r. r_symbol r = upper symbol \<and> r_status r = OPEN) (position_rows st)"

definition list_open_positions :: "store \<Rightarrow> position_row list" where
  "list_open_positions st = filter (\<lambda>r. r_status r = OPEN) (position_rows st)"

definition load_open_position_rows :: "store \<Rightarrow> position_row list" where
  "load_open_position_rows st = list_open_positions st"

text \<open>\<^verbatim>\<open>SELECT coalesce(sum(net_pnl), 0)\<close> over CLOSED rows exited in [start, end): SQL sums decimals
  exactly and skips NULLs.\<close>

definition load_realized_pnl_since :: "datetime \<Rightarrow> datetime \<Rightarrow> store \<Rightarrow> rat" where
  "load_realized_pnl_since start_ts end_ts st =
     sum_list (List.map_filter r_net_pnl
       (filter (\<lambda>r. r_status r = CLOSED \<and>
          (case r_exit_ts r of None \<Rightarrow> False | Some t \<Rightarrow> start_ts \<le> t \<and> t < end_ts)) (position_rows st)))"

definition list_pending_expired :: "datetime \<Rightarrow> store \<Rightarrow> order_row list" where
  "list_pending_expired now st =
     (let expired_ids = map d_id (filter (\<lambda>d. case d_valid_until d of None \<Rightarrow> False | Some v \<Rightarrow> v < now) (decisions st))
      in sort_key created_key (filter (\<lambda>r. o_status r = PENDING \<and>
           (case o_decision_id r of None \<Rightarrow> False | Some i \<Rightarrow> i \<in> set expired_ids)) (orders st)))"

definition exit_key :: "position_row \<Rightarrow> datetime" where
  "exit_key r = (case r_exit_ts r of Some t \<Rightarrow> t | None \<Rightarrow> 0)"

definition list_closed_positions :: "store \<Rightarrow> position_row list" where
  "list_closed_positions st = sort_key exit_key (filter (\<lambda>r. r_status r = CLOSED) (position_rows st))"

definition save_snapshot :: "snapshot_row \<Rightarrow> store \<Rightarrow> store" where
  "save_snapshot s st = st\<lparr>snapshots := snapshots st @ [s]\<rparr>"

text \<open>\<^verbatim>\<open>ORDER BY ts DESC LIMIT 1\<close>.\<close>

definition latest_snapshot :: "store \<Rightarrow> snapshot_row option" where
  "latest_snapshot st =
     (case snapshots st of [] \<Rightarrow> None
      | s # ss \<Rightarrow> Some (foldl (\<lambda>best x. if s_ts best < s_ts x then x else best) s ss))"

section \<open>Column scales\<close>

text \<open>A row written in one session and read in another comes back with each numeric column
  rounded to its declared scale, halves away from zero. Rows still held by the writing session keep
  their unrounded attributes. \<open>reload\<close> is the store as a new session reads it.\<close>

definition quantize :: "nat \<Rightarrow> rat \<Rightarrow> rat" where
  "quantize n x = (let s = 10 ^ n; y = \<bar>x\<bar> * s in (if x < 0 then - 1 else 1) * of_int \<lfloor>y + 1 / 2\<rfloor> / s)"

definition reload_order :: "order_row \<Rightarrow> order_row" where
  "reload_order r = r\<lparr>o_units := quantize 6 (o_units r),
     o_requested_price := map_option (quantize 8) (o_requested_price r),
     o_filled_price := map_option (quantize 8) (o_filled_price r), o_costs := quantize 6 (o_costs r),
     o_stop_loss := map_option (quantize 8) (o_stop_loss r),
     o_take_profit := map_option (quantize 8) (o_take_profit r)\<rparr>"

definition reload_position :: "position_row \<Rightarrow> position_row" where
  "reload_position r = r\<lparr>r_units := quantize 6 (r_units r), r_entry_price := quantize 8 (r_entry_price r),
     r_stop_loss := map_option (quantize 8) (r_stop_loss r),
     r_take_profit := map_option (quantize 8) (r_take_profit r), r_costs := quantize 6 (r_costs r),
     r_exit_price := map_option (quantize 8) (r_exit_price r),
     r_gross_pnl := map_option (quantize 6) (r_gross_pnl r),
     r_net_pnl := map_option (quantize 6) (r_net_pnl r)\<rparr>"

definition reload_snapshot :: "snapshot_row \<Rightarrow> snapshot_row" where
  "reload_snapshot s = s\<lparr>s_cash := quantize 6 (s_cash s), s_equity := quantize 6 (s_equity s),
     s_open_pnl := quantize 6 (s_open_pnl s), s_realized_pnl := quantize 6 (s_realized_pnl s),
     s_peak_equity := quantize 6 (s_peak_equity s), s_drawdown_pct := quantize 8 (s_drawdown_pct s),
     s_margin_used := quantize 6 (s_margin_used s)\<rparr>"

definition reload :: "store \<Rightarrow> store" where
  "reload st = st\<lparr>orders := map reload_order (orders st), position_rows := map reload_position (position_rows st),
     snapshots := map reload_snapshot (snapshots st)\<rparr>"

lemma quantize_of_int: "quantize n (of_int k / 10 ^ n) = of_int k / 10 ^ n"
proof -
  have y: "\<bar>of_int k / 10 ^ n\<bar> * 10 ^ n = (of_int \<bar>k\<bar> :: rat)" by (simp add: abs_div)
  have "\<lfloor>of_int \<bar>k\<bar> + 1 / 2 :: rat\<rfloor> = \<bar>k\<bar>" by linarith
  then show ?thesis unfolding quantize_def Let_def y by (simp add: divide_less_0_iff)
qed

lemma quantize_grid: "\<exists>k. quantize n x = of_int k / 10 ^ n"
  by (cases "x < 0") (auto simp: quantize_def Let_def intro: exI [of _ "- \<lfloor>\<bar>x\<bar> * 10 ^ n + 1 / 2\<rfloor>"])

lemma quantize_idem [simp]: "quantize n (quantize n x) = quantize n x"
  using quantize_grid [of n x] by (auto simp: quantize_of_int)

lemma quantize_error: "\<bar>quantize n x - x\<bar> \<le> 1 / (2 * 10 ^ n)"
proof -
  have *: "\<bar>of_int \<lfloor>y + 1 / 2\<rfloor> / 10 ^ n - y / 10 ^ n\<bar> \<le> 1 / (2 * 10 ^ n)" for y :: rat
  proof -
    have "\<bar>of_int \<lfloor>y + 1 / 2\<rfloor> - y\<bar> \<le> 1 / 2" by linarith
    then have "\<bar>of_int \<lfloor>y + 1 / 2\<rfloor> - y\<bar> / 10 ^ n \<le> (1 / 2) / 10 ^ n" by (rule divide_right_mono) simp
    then show ?thesis by (simp add: abs_div flip: diff_divide_distrib)
  qed
  define z where "z = of_int \<lfloor>\<bar>x\<bar> * 10 ^ n + 1 / 2\<rfloor> / (10 ^ n :: rat)"
  have "\<bar>z - \<bar>x\<bar>\<bar> \<le> 1 / (2 * 10 ^ n)" using * [of "\<bar>x\<bar> * 10 ^ n"] by (simp add: z_def)
  moreover have "quantize n x = (if x < 0 then - z else z)" by (simp add: quantize_def Let_def z_def)
  ultimately show ?thesis by (cases "x < 0") (simp_all add: abs_if split: if_splits)
qed

lemma reload_keys [simp]:
  "o_id (reload_order r) = o_id r" "o_decision_id (reload_order r) = o_decision_id r"
  "o_symbol (reload_order r) = o_symbol r" "o_side (reload_order r) = o_side r"
  "o_status (reload_order r) = o_status r" "o_timeframe (reload_order r) = o_timeframe r"
  "r_id (reload_position p) = r_id p" "r_symbol (reload_position p) = r_symbol p"
  "r_side (reload_position p) = r_side p" "r_status (reload_position p) = r_status p"
  "r_entry_ts (reload_position p) = r_entry_ts p" "r_timeframe (reload_position p) = r_timeframe p"
  "s_ts (reload_snapshot s) = s_ts s"
  by (simp_all add: reload_order_def reload_position_def reload_snapshot_def)

lemmas store_defs = save_order_def update_order_def save_position_def update_position_def save_snapshot_def

lemma store_frame [simp]:
  "position_rows (save_order ord st) = position_rows st" "snapshots (save_order ord st) = snapshots st"
  "decisions (save_order ord st) = decisions st"
  "position_rows (update_order ord st) = position_rows st" "snapshots (update_order ord st) = snapshots st"
  "decisions (update_order ord st) = decisions st"
  "orders (save_position row st) = orders st" "snapshots (save_position row st) = snapshots st"
  "decisions (save_position row st) = decisions st"
  "orders (update_position row st) = orders st" "snapshots (update_position row st) = snapshots st"
  "decisions (update_position row st) = decisions st"
  "orders (save_snapshot s st) = orders st" "position_rows (save_snapshot s st) = position_rows st"
  "decisions (save_snapshot s st) = decisions st"
  by (simp_all add: store_defs)

lemma orders_save [simp]: "orders (save_order ord st) = orders st @ [ord]"
  by (simp add: save_order_def)

lemma orders_update [simp]: "orders (update_order ord st) = map (\<lambda>r. if o_id r = o_id ord then ord else r) (orders st)"
  by (simp add: update_order_def)

lemma rows_save [simp]: "position_rows (save_position row st) = position_rows st @ [row]"
  by (simp add: save_position_def)

lemma rows_update [simp]:
  "position_rows (update_position row st) = map (\<lambda>r. if r_id r = r_id row then row else r) (position_rows st)"
  by (simp add: update_position_def)

lemma snapshots_save [simp]: "snapshots (save_snapshot s st) = snapshots st @ [s]"
  by (simp add: save_snapshot_def)

lemma foldl_latest_ge:
  "s_ts b \<le> s_ts (foldl (\<lambda>best x. if s_ts best < s_ts x then x else best) b ss)
   \<and> (\<forall>x\<in>set ss. s_ts x \<le> s_ts (foldl (\<lambda>best x. if s_ts best < s_ts x then x else best) b ss))"
proof (induction ss arbitrary: b)
  case (Cons a ss)
  then show ?case using Cons.IH [of a] Cons.IH [of b] by (cases "s_ts b < s_ts a") force+
qed simp

lemma latest_snapshot_max: "latest_snapshot st = Some s \<Longrightarrow> x \<in> set (snapshots st) \<Longrightarrow> s_ts x \<le> s_ts s"
  using foldl_latest_ge by (fastforce simp: latest_snapshot_def split: list.splits)

lemma latest_snapshot_save:
  assumes "\<forall>x\<in>set (snapshots st). s_ts x < s_ts s"
  shows "latest_snapshot (save_snapshot s st) = Some s"
proof (cases "snapshots st")
  case Nil
  then show ?thesis by (simp add: latest_snapshot_def)
next
  case (Cons a ss)
  let ?f = "\<lambda>best x. if s_ts best < s_ts x then x else best"
  have "foldl ?f a ss \<in> set (a # ss)"
  proof (induction ss arbitrary: a)
    case (Cons x ss)
    then show ?case using Cons.IH [of x] Cons.IH [of a] by auto
  qed simp
  then have "s_ts (foldl ?f a ss) < s_ts s" using assms Cons by auto
  then show ?thesis using Cons by (simp add: latest_snapshot_def)
qed

section \<open>The ledger as an interface\<close>

text \<open>
  What the broker relies on from its store, as \<^verbatim>\<open>LedgerStore\<close> states it: an open position saved is
  found again under its symbol, rewriting a row to CLOSED removes it, and the pending queue is the
  PENDING orders, oldest first.
\<close>

locale ledger_store =
  fixes save_pos :: "position_row \<Rightarrow> 's \<Rightarrow> 's"
    and update_pos :: "position_row \<Rightarrow> 's \<Rightarrow> 's"
    and open_rows :: "'s \<Rightarrow> position_row list"
    and get_open :: "string \<Rightarrow> 's \<Rightarrow> position_row option"
    and wf :: "'s \<Rightarrow> bool"
  assumes open_save: "open_rows (save_pos row st) = open_rows st @ (if r_status row = OPEN then [row] else [])"
    and get_open_iff: "wf st \<Longrightarrow> get_open symbol st = Some row \<longleftrightarrow> row \<in> set (open_rows st) \<and> r_symbol row = upper symbol"
    and open_update: "wf st \<Longrightarrow> row \<in> set (open_rows st) \<Longrightarrow> r_id row' = r_id row \<Longrightarrow> r_status row' = CLOSED \<Longrightarrow>
      open_rows (update_pos row' st) = filter (\<lambda>r. r_id r \<noteq> r_id row) (open_rows st)"
    and wf_ids: "wf st \<Longrightarrow> distinct (map r_id (open_rows st))"
    and wf_symbols: "wf st \<Longrightarrow> distinct (map r_symbol (open_rows st))"
begin

lemma get_open_None_iff: "wf st \<Longrightarrow> get_open symbol st = None \<longleftrightarrow> upper symbol \<notin> r_symbol ` set (open_rows st)"
  using get_open_iff by (metis image_iff not_None_eq)

text \<open>Closing the open row of a symbol removes that symbol, and no other, from the open rows.\<close>

lemma close_symbols:
  assumes "wf st" "get_open symbol st = Some row" "r_id row' = r_id row" "r_status row' = CLOSED"
  shows "map r_symbol (open_rows (update_pos row' st)) = filter (\<lambda>s. s \<noteq> upper symbol) (map r_symbol (open_rows st))"
proof -
  from assms have row: "row \<in> set (open_rows st)" "r_symbol row = upper symbol"
    using get_open_iff by blast+
  have "r_id r \<noteq> r_id row \<longleftrightarrow> r_symbol r \<noteq> upper symbol" if "r \<in> set (open_rows st)" for r
    using that row wf_ids [OF assms(1)] wf_symbols [OF assms(1)] by (auto simp: distinct_map inj_on_def)
  then have "filter (\<lambda>r. r_id r \<noteq> r_id row) (open_rows st) = filter (\<lambda>r. r_symbol r \<noteq> upper symbol) (open_rows st)"
    by (auto intro: filter_cong)
  then show ?thesis using open_update [OF assms(1) row(1) assms(3,4)] by (simp add: filter_map comp_def)
qed

end

text \<open>The constraints of the tables: primary keys, \<^verbatim>\<open>uq_positions_open_symbol\<close>,
  \<^verbatim>\<open>uq_orders_paper_decision_id\<close>, upper-case symbols and the side checks.\<close>

definition store_ok :: "store \<Rightarrow> bool" where
  "store_ok st =
     (distinct (map o_id (orders st)) \<and> distinct (map r_id (position_rows st))
      \<and> distinct (map r_symbol (list_open_positions st))
      \<and> distinct (List.map_filter id (map o_decision_id (orders st)))
      \<and> (\<forall>r\<in>set (position_rows st). upper (r_symbol r) = r_symbol r \<and> r_side r \<noteq> FLAT)
      \<and> (\<forall>r\<in>set (orders st). upper (o_symbol r) = o_symbol r \<and> o_side r \<noteq> FLAT))"

interpretation pg: ledger_store save_position update_position list_open_positions get_open_position store_ok
proof
  fix st :: store and row row' :: position_row and symbol :: string
  show "list_open_positions (save_position row st)
      = list_open_positions st @ (if r_status row = OPEN then [row] else [])"
    by (simp add: list_open_positions_def)
  assume ok: "store_ok st"
  show "distinct (map r_id (list_open_positions st))"
    using ok by (simp add: store_ok_def list_open_positions_def distinct_map_filter)
  show s: "distinct (map r_symbol (list_open_positions st))" using ok by (simp add: store_ok_def)
  show "get_open_position symbol st = Some row \<longleftrightarrow> row \<in> set (list_open_positions st) \<and> r_symbol row = upper symbol"
  proof
    assume "get_open_position symbol st = Some row"
    then show "row \<in> set (list_open_positions st) \<and> r_symbol row = upper symbol"
      by (auto simp: get_open_position_def list_open_positions_def dest!: find_SomeD)
  next
    assume r: "row \<in> set (list_open_positions st) \<and> r_symbol row = upper symbol"
    have "find (\<lambda>r. r_symbol r = upper symbol \<and> r_status r = OPEN) xs
        = find (\<lambda>r. r_symbol r = upper symbol) (filter (\<lambda>r. r_status r = OPEN) xs)" for xs
      by (induction xs) auto
    then have "get_open_position symbol st = find (\<lambda>r. r_symbol r = r_symbol row) (list_open_positions st)"
      using r by (simp add: get_open_position_def list_open_positions_def)
    then show "get_open_position symbol st = Some row" using r find_unique [OF s, of row] by simp
  qed
  assume "row \<in> set (list_open_positions st)" "r_id row' = r_id row" "r_status row' = CLOSED"
  then show "list_open_positions (update_position row' st) = filter (\<lambda>r. r_id r \<noteq> r_id row) (list_open_positions st)"
  proof -
    have "filter (\<lambda>r. r_status r = OPEN) (map (\<lambda>r. if r_id r = r_id row' then row' else r) xs)
       = filter (\<lambda>r. r_id r \<noteq> r_id row) (filter (\<lambda>r. r_status r = OPEN) xs)" for xs
      using \<open>r_id row' = r_id row\<close> \<open>r_status row' = CLOSED\<close> by (induction xs) auto
    then show ?thesis by (simp add: list_open_positions_def)
  qed
qed


lemma live_order_mem:
  "o_id ord \<in> o_id ` set (orders st) \<Longrightarrow> live_order st ord \<in> set (orders st) \<and> o_id (live_order st ord) = o_id ord"
  by (cases "find (\<lambda>r. o_id r = o_id ord) (orders st)")
    (auto simp: live_order_def find_None_iff dest: find_SomeD)

text \<open>Rewriting a row in place keeps every column on which the old and the new row agree.\<close>

lemma update_order_column:
  assumes "distinct (map o_id (orders st))" "r \<in> set (orders st)" "o_id ord = o_id r" "f ord = f r"
  shows "map f (orders (update_order ord st)) = map f (orders st)"
proof -
  have "(if o_id x = o_id ord then f ord else f x) = f x" if "x \<in> set (orders st)" for x
    using assms that by (auto simp: distinct_map dest: inj_onD)
  then show ?thesis by (simp add: comp_def if_distrib cong: if_cong)
qed

lemma update_order_ok:
  assumes "store_ok st" "r \<in> set (orders st)" "o_id ord = o_id r" "o_decision_id ord = o_decision_id r"
    "o_symbol ord = o_symbol r" "o_side ord = o_side r"
  shows "store_ok (update_order ord st)"
proof -
  have d: "distinct (map o_id (orders st))" using assms(1) by (simp add: store_ok_def)
  have "upper (o_symbol x) = o_symbol x \<and> o_side x \<noteq> FLAT" if "x \<in> set (orders (update_order ord st))" for x
    using that assms by (auto simp: store_ok_def)
  then show ?thesis
    using assms(1) update_order_column [OF d assms(2,3), of o_id] update_order_column [OF d assms(2,3,4)] assms(3)
    by (simp add: store_ok_def list_open_positions_def del: orders_update)
qed

lemma save_order_ok:
  assumes "store_ok st" "o_id ord \<notin> o_id ` set (orders st)"
    "\<forall>r\<in>set (orders st). o_decision_id ord = None \<or> o_decision_id r \<noteq> o_decision_id ord"
    "upper (o_symbol ord) = o_symbol ord" "o_side ord \<noteq> FLAT"
  shows "store_ok (save_order ord st)"
  using assms
  by (cases "o_decision_id ord") (auto simp: store_ok_def list_open_positions_def map_filter_def)

lemma save_position_ok:
  assumes "store_ok st" "r_id row \<notin> r_id ` set (position_rows st)" "upper (r_symbol row) = r_symbol row"
    "r_side row \<noteq> FLAT" "r_symbol row \<notin> r_symbol ` set (list_open_positions st)"
  shows "store_ok (save_position row st)"
  using assms by (auto simp: store_ok_def list_open_positions_def)

lemma store_ok_reload: "store_ok st \<Longrightarrow> store_ok (reload st)"
  by (simp add: store_ok_def reload_def list_open_positions_def comp_def filter_map)

text \<open>Closing a row adds it, and nothing else, to the CLOSED rows.\<close>

lemma closed_rows_update:
  assumes "store_ok st" "row \<in> set (list_open_positions st)" "r_id row' = r_id row" "r_status row' = CLOSED"
  shows "mset (list_closed_positions (update_position row' st)) = add_mset row' (mset (list_closed_positions st))"
proof -
  have row: "row \<in> set (position_rows st)" "r_status row = OPEN" using assms(2) by (simp_all add: list_open_positions_def)
  then obtain ys zs where xs: "position_rows st = ys @ row # zs" by (meson split_list)
  have "r_id row \<notin> r_id ` set ys" "r_id row \<notin> r_id ` set zs" using assms(1) by (auto simp: store_ok_def xs)
  then have "map (\<lambda>r. if r_id r = r_id row' then row' else r) ys = ys"
    "map (\<lambda>r. if r_id r = r_id row' then row' else r) zs = zs"
    using assms(3) by (auto intro!: map_idI simp: image_iff dest: sym)
  then show ?thesis using row(2) assms(3,4) by (simp add: list_closed_positions_def xs)
qed

lemma close_row_ok:
  assumes "store_ok st" "row \<in> set (list_open_positions st)" "r_id row' = r_id row" "r_status row' = CLOSED"
    "r_symbol row' = r_symbol row" "r_side row' = r_side row"
  shows "store_ok (update_position row' st)"
proof -
  have r: "row \<in> set (position_rows st)" using assms(2) by (simp add: list_open_positions_def)
  have "map r_id (position_rows (update_position row' st)) = map r_id (position_rows st)"
    using assms(3) by (simp add: comp_def if_distrib cong: if_cong)
  moreover have "distinct (map r_symbol (list_open_positions (update_position row' st)))"
    using pg.open_update [OF assms(1-4)] assms(1) by (simp add: store_ok_def distinct_map_filter)
  moreover have "\<forall>x\<in>set (position_rows (update_position row' st)). upper (r_symbol x) = r_symbol x \<and> r_side x \<noteq> FLAT"
    using assms r by (auto simp: store_ok_def)
  ultimately show ?thesis using assms(1) by (simp add: store_ok_def del: rows_update)
qed

end
