(* ===== verification/Ledger.thy ===== *)
theory Ledger
  imports LedgerStore
begin

text \<open>
  \<^verbatim>\<open>LedgerBroker\<close> (\<^verbatim>\<open>app/broker/ledger.py\<close>): the paper broker whose fills are persisted. Every method
  is a function on the record of its attributes; results come first. \<^verbatim>\<open>_d\<close> is \<^const>\<open>to_dec\<close>,
  \<^verbatim>\<open>float(decimal)\<close> is \<^const>\<open>fl\<close>. Methods that create rows take the fresh UUID (and the server's row
  timestamp) as arguments.
\<close>

record ledger_broker =
  lb_store :: store
  lb_seed :: int
  lb_paper :: paper_broker
  lb_pending :: "order_row list"

definition init_ledger :: "store \<Rightarrow> f64 \<Rightarrow> int \<Rightarrow> cost_params option \<Rightarrow> ledger_broker" where
  "init_ledger st equity0 seed0 costs =
     \<lparr>lb_store = st, lb_seed = seed0, lb_paper = init_broker equity0 seed0 costs, lb_pending = []\<rparr>"

section \<open>Projections\<close>

definition lb_open_for :: "ledger_broker \<Rightarrow> string \<Rightarrow> position option" where
  "lb_open_for lb symbol = open_for (positions (lb_paper lb)) (upper symbol)"

definition lb_open_symbols :: "ledger_broker \<Rightarrow> string set" where
  "lb_open_symbols lb = p_symbol ` set (positions (lb_paper lb))"

definition total_open_notional :: "ledger_broker \<Rightarrow> f64" where
  "total_open_notional lb =
     py_sum (map (\<lambda>r. fl (r_units r) * fl (r_entry_price r)) (load_open_position_rows (lb_store lb)))"

definition realized_pnl_since :: "datetime \<Rightarrow> datetime \<Rightarrow> ledger_broker \<Rightarrow> f64" where
  "realized_pnl_since start_ts end_ts lb = fl (load_realized_pnl_since start_ts end_ts (lb_store lb))"

section \<open>Entry\<close>

text \<open>A submission appends the order to the queue in memory and then flushes the insert, which the
  unique constraint \<^verbatim>\<open>uq_orders_paper_decision_id\<close> refuses when the table already has an order of the
  decision: the call raises, the queue keeps the order, the table is unchanged.\<close>

definition submit_paper_order ::
  "uuid \<Rightarrow> datetime \<Rightarrow> string \<Rightarrow> timeframe \<Rightarrow> direction \<Rightarrow> f64 \<Rightarrow> f64 \<Rightarrow> uuid option \<Rightarrow> f64 option \<Rightarrow> f64 option
   \<Rightarrow> ledger_broker \<Rightarrow> (py_error + order_row option) \<times> ledger_broker" where
  "submit_paper_order new_id created symbol tf dir ref_price units did stop_loss take_profit lb =
     (let symb = upper symbol in
      if dir = FLAT \<or> units \<le> 0 then (Inr None, lb)
      else if (case open_for (positions (lb_paper lb)) symb of Some pos \<Rightarrow> p_side pos = dir | None \<Rightarrow> False)
        then (Inr None, lb)
      else if did \<noteq> None \<and> (\<exists>r\<in>set (lb_pending lb). o_decision_id r = did) then (Inr None, lb)
      else
        let ord = \<lparr>o_id = new_id, o_created_at = Some created, o_decision_id = did, o_symbol = symb,
              o_timeframe = tf, o_side = dir, o_order_type = NEXT_OPEN, o_status = PENDING,
              o_units = to_dec units, o_requested_price = Some (to_dec ref_price), o_filled_price = None,
              o_costs = 0, o_stop_loss = map_option to_dec stop_loss,
              o_take_profit = map_option to_dec take_profit, o_seed = lb_seed lb, o_filled_at = None\<rparr>;
            queued = lb\<lparr>lb_pending := lb_pending lb @ [ord]\<rparr>
        in if did \<noteq> None \<and> (\<exists>r\<in>set (orders (lb_store lb)). o_decision_id r = did) then (Inl IntegrityError, queued)
           else (Inr (Some ord), queued\<lparr>lb_store := save_order ord (lb_store lb)\<rparr>))"

definition filled_order :: "order_row \<Rightarrow> position \<Rightarrow> datetime \<Rightarrow> order_row" where
  "filled_order ord pos ts = ord\<lparr>o_status := FILLED, o_filled_price := Some (to_dec (p_entry_price pos)),
     o_costs := to_dec (p_costs pos), o_filled_at := Some ts\<rparr>"

definition new_position_row :: "uuid \<Rightarrow> datetime \<Rightarrow> order_row \<Rightarrow> position \<Rightarrow> position_row" where
  "new_position_row new_id now ord pos =
     \<lparr>r_id = new_id, r_order_id = o_id ord, r_updated_at = now, r_symbol = p_symbol pos,
      r_timeframe = p_timeframe pos, r_side = p_side pos, r_units = to_dec (p_units pos),
      r_entry_price = to_dec (p_entry_price pos), r_entry_ts = p_entry_ts pos,
      r_stop_loss = map_option to_dec (p_stop_loss pos), r_take_profit = map_option to_dec (p_take_profit pos),
      r_costs = to_dec (p_costs pos), r_status = OPEN, r_exit_price = None, r_exit_ts = None,
      r_exit_reason = None, r_gross_pnl = None, r_net_pnl = None\<rparr>"

definition enter_order :: "hash \<Rightarrow> order_row \<Rightarrow> f64 \<Rightarrow> datetime \<Rightarrow> paper_broker \<Rightarrow> paper_broker" where
  "enter_order H ord open_price ts b =
     enter_at_next_open H (upper (o_symbol ord)) (o_timeframe ord) (o_side ord) open_price ts
       (map_option fl (o_stop_loss ord)) (map_option fl (o_take_profit ord)) (Some (fl (o_units ord)))
       (b\<lparr>seed := o_seed ord\<rparr>)"

definition fill_pending ::
  "hash \<Rightarrow> uuid \<Rightarrow> datetime \<Rightarrow> order_row \<Rightarrow> f64 \<Rightarrow> datetime \<Rightarrow> ledger_broker \<Rightarrow> position_row option \<times> ledger_broker" where
  "fill_pending H new_id now ord0 open_price ts lb =
     (let ord = live_order (lb_store lb) ord0; symb = upper (o_symbol ord) in
      if o_status ord \<noteq> PENDING then (None, lb)
      else if open_for (positions (lb_paper lb)) symb \<noteq> None then (None, lb)
      else
        let paper = enter_order H ord open_price ts (lb_paper lb) in
        case open_for (positions paper) symb of
          None \<Rightarrow> (None, lb\<lparr>lb_paper := paper\<rparr>)
        | Some pos \<Rightarrow>
            let row = new_position_row new_id now ord pos
            in (Some row, lb\<lparr>lb_paper := paper,
                  lb_pending := filter (\<lambda>r. o_id r \<noteq> o_id ord) (lb_pending lb),
                  lb_store := save_position row (update_order (filled_order ord pos ts) (lb_store lb))\<rparr>))"

definition cancel_pending :: "order_row \<Rightarrow> ledger_broker \<Rightarrow> order_row option \<times> ledger_broker" where
  "cancel_pending ord0 lb =
     (let ord = live_order (lb_store lb) ord0 in
      if o_status ord \<noteq> PENDING then (None, lb)
      else let ord' = ord\<lparr>o_status := CANCELLED\<rparr>
           in (Some ord', lb\<lparr>lb_pending := filter (\<lambda>r. o_id r \<noteq> o_id ord) (lb_pending lb),
                lb_store := update_order ord' (lb_store lb)\<rparr>))"

section \<open>Exit\<close>

definition closed_row :: "trade \<Rightarrow> position_row \<Rightarrow> position_row" where
  "closed_row t row = row\<lparr>r_status := CLOSED, r_exit_price := Some (to_dec (t_exit_price t)),
     r_exit_ts := Some (t_exit_ts t), r_exit_reason := Some (t_exit_reason t),
     r_gross_pnl := Some (to_dec (t_gross_pnl t)), r_net_pnl := Some (to_dec (t_net_pnl t)),
     r_costs := to_dec (t_costs t)\<rparr>"

definition persist_close :: "string \<Rightarrow> trade \<Rightarrow> store \<Rightarrow> store" where
  "persist_close symbol t st =
     (case get_open_position (upper symbol) st of None \<Rightarrow> st | Some row \<Rightarrow> update_position (closed_row t row) st)"

definition lb_after_close :: "trade option \<times> paper_broker \<Rightarrow> ledger_broker \<Rightarrow> trade option \<times> ledger_broker" where
  "lb_after_close res lb =
     (case res of (None, paper) \<Rightarrow> (None, lb\<lparr>lb_paper := paper\<rparr>)
      | (Some t, paper) \<Rightarrow> (Some t, lb\<lparr>lb_paper := paper, lb_store := persist_close (t_symbol t) t (lb_store lb)\<rparr>))"

definition lb_evaluate_exit :: "hash \<Rightarrow> string \<Rightarrow> f64 \<Rightarrow> datetime \<Rightarrow> ledger_broker \<Rightarrow> trade option \<times> ledger_broker" where
  "lb_evaluate_exit H symbol close_px ts lb = lb_after_close (evaluate_exit H symbol close_px ts (lb_paper lb)) lb"

definition lb_close_on_signal :: "hash \<Rightarrow> string \<Rightarrow> f64 \<Rightarrow> datetime \<Rightarrow> ledger_broker \<Rightarrow> trade option \<times> ledger_broker" where
  "lb_close_on_signal H symbol price ts lb = lb_after_close (close_on_signal H symbol price ts (lb_paper lb)) lb"

definition lb_mark_position :: "string \<Rightarrow> f64 \<Rightarrow> ledger_broker \<Rightarrow> ledger_broker" where
  "lb_mark_position symbol price lb = lb\<lparr>lb_paper := mark_position symbol price (lb_paper lb)\<rparr>"

section \<open>Accounting\<close>

definition equity_snapshot :: "uuid \<Rightarrow> datetime \<Rightarrow> ledger_broker \<Rightarrow> snapshot_row \<times> ledger_broker" where
  "equity_snapshot new_id ts lb =
     (case broker_snapshot ts (lb_paper lb) of (state, paper) \<Rightarrow>
        let realized = sum_list (map (\<lambda>t. to_dec (t_net_pnl t)) (trades paper));
            row = \<lparr>s_id = new_id, s_ts = ts, s_cash = to_dec (bs_cash state), s_equity = to_dec (bs_equity state),
                   s_open_pnl = to_dec (bs_equity state - bs_cash state), s_realized_pnl = realized,
                   s_peak_equity = to_dec (peak_equity paper), s_drawdown_pct = to_dec (max_drawdown_pct paper),
                   s_margin_used = 0\<rparr>
        in (row, lb\<lparr>lb_paper := paper, lb_store := save_snapshot row (lb_store lb)\<rparr>))"

section \<open>Restore\<close>

definition position_of_row :: "position_row \<Rightarrow> position" where
  "position_of_row r =
     \<lparr>p_symbol = r_symbol r, p_timeframe = r_timeframe r, p_units = fl (r_units r),
      p_entry_price = fl (r_entry_price r), p_entry_ts = r_entry_ts r, p_side = r_side r,
      p_stop_loss = map_option fl (r_stop_loss r), p_take_profit = map_option fl (r_take_profit r),
      p_costs = fl (r_costs r)\<rparr>"

definition trade_of_row :: "position_row \<Rightarrow> trade" where
  "trade_of_row r =
     \<lparr>t_symbol = r_symbol r, t_timeframe = r_timeframe r, t_side = r_side r, t_units = fl (r_units r),
      t_entry_ts = r_entry_ts r, t_entry_price = fl (r_entry_price r),
      t_exit_ts = (case r_exit_ts r of Some t \<Rightarrow> t | None \<Rightarrow> r_updated_at r),
      t_exit_price = fl (case r_exit_price r of Some x \<Rightarrow> x | None \<Rightarrow> r_entry_price r),
      t_gross_pnl = fl (case r_gross_pnl r of Some x \<Rightarrow> x | None \<Rightarrow> 0), t_costs = fl (r_costs r),
      t_net_pnl = fl (case r_net_pnl r of Some x \<Rightarrow> x | None \<Rightarrow> 0),
      t_exit_reason = (case r_exit_reason r of Some x \<Rightarrow> x | None \<Rightarrow> EXIT_SIGNAL)\<rparr>"

text \<open>\<^verbatim>\<open>datetime.min\<close> in UTC.\<close>

definition datetime_min :: datetime where
  "datetime_min = - 62135596800000000"

definition restore_key :: "order_row \<Rightarrow> datetime \<times> uuid" where
  "restore_key ord = (case o_created_at ord of Some t \<Rightarrow> t | None \<Rightarrow> datetime_min, o_id ord)"

definition restore_account :: "store \<Rightarrow> paper_broker \<Rightarrow> paper_broker" where
  "restore_account st b =
     (case latest_snapshot st of None \<Rightarrow> b
      | Some s \<Rightarrow> b\<lparr>cash := fl (s_cash s), equity := fl (s_equity s), peak_equity := fl (s_peak_equity s),
                   max_drawdown_pct := fl (s_drawdown_pct s)\<rparr>)"

definition restore_state :: "ledger_broker \<Rightarrow> ledger_broker" where
  "restore_state lb =
     (let st = lb_store lb;
          open_rows = list_open_positions st;
          paper = (restore_account st (lb_paper lb))
            \<lparr>positions := map position_of_row open_rows,
             last_mark := foldl (\<lambda>m r. m(r_symbol r \<mapsto> fl (r_entry_price r))) Map.empty open_rows,
             trades := map trade_of_row (list_closed_positions st)\<rparr>
      in lb\<lparr>lb_paper := paper, lb_pending := sort_key restore_key (list_pending_orders st)\<rparr>)"

lemma store_restore [simp]: "lb_store (restore_state lb) = lb_store lb"
  by (simp add: restore_state_def Let_def)

declare submit_paper_order_def [op_defs] fill_pending_def [op_defs] cancel_pending_def [op_defs]
  lb_evaluate_exit_def [op_defs] lb_close_on_signal_def [op_defs] lb_after_close_def [op_defs]


section \<open>Ledger and broker agree\<close>

text \<open>The in-memory broker is the image of the ledger: its positions are the open rows, its trades
  the closed rows (in some order), its queue the PENDING orders.\<close>

definition ledger_ok :: "ledger_broker \<Rightarrow> bool" where
  "ledger_ok lb =
     (store_ok (lb_store lb)
      \<and> positions (lb_paper lb) = map position_of_row (list_open_positions (lb_store lb))
      \<and> mset (trades (lb_paper lb)) = mset (map trade_of_row (list_closed_positions (lb_store lb)))
      \<and> o_id ` set (lb_pending lb) = o_id ` {r \<in> set (orders (lb_store lb)). o_status r = PENDING})"

lemma symbol_position_of_row [simp]: "p_symbol (position_of_row r) = r_symbol r"
  by (simp add: position_of_row_def)

lemma ledger_ok_symbols:
  "ledger_ok lb \<Longrightarrow> map p_symbol (positions (lb_paper lb)) = map r_symbol (list_open_positions (lb_store lb))"
  by (simp add: ledger_ok_def)

lemma ledger_ok_distinct: "ledger_ok lb \<Longrightarrow> distinct (map p_symbol (positions (lb_paper lb)))"
  using ledger_ok_symbols by (metis ledger_ok_def store_ok_def)

lemma map_option_fl_to_dec [simp]: "map_option fl (map_option to_dec x) = x"
  by (cases x) (simp_all add: fl_to_dec)

text \<open>The rows the broker writes read back as the objects they were written from.\<close>

lemma position_of_new_row: "position_of_row (new_position_row i now ord pos) = pos"
  by (simp add: position_of_row_def new_position_row_def fl_to_dec)

lemma trade_of_closed_row:
  "trade_of_row (closed_row (fst (close_at H (position_of_row row) x r ts b)) row)
    = fst (close_at H (position_of_row row) x r ts b)"
  by (simp add: trade_of_row_def closed_row_def close_at_def position_of_row_def Let_def fl_to_dec)

lemma position_of_reloaded: "position_of_row (reload_position r)
   = (position_of_row r)\<lparr>p_units := fl (quantize 6 (r_units r)), p_entry_price := fl (quantize 8 (r_entry_price r)),
       p_stop_loss := map_option (fl \<circ> quantize 8) (r_stop_loss r),
       p_take_profit := map_option (fl \<circ> quantize 8) (r_take_profit r), p_costs := fl (quantize 6 (r_costs r))\<rparr>"
  by (simp add: position_of_row_def reload_position_def option.map_comp)

lemma closed_rows_frame [simp]:
  "list_closed_positions (save_order ord st) = list_closed_positions st"
  "list_closed_positions (update_order ord st) = list_closed_positions st"
  "list_closed_positions (save_snapshot sn st) = list_closed_positions st"
  "r_status row = OPEN \<Longrightarrow> list_closed_positions (save_position row st) = list_closed_positions st"
  by (simp_all add: list_closed_positions_def)

lemma set_list_pending: "set (list_pending_orders st) = {r \<in> set (orders st). o_status r = PENDING}"
  by (simp add: list_pending_orders_def)

lemma ledger_ok_restore:
  assumes "store_ok (lb_store lb)"
  shows "ledger_ok (restore_state lb)"
  using assms by (simp add: ledger_ok_def restore_state_def Let_def comp_def position_of_row_def set_list_pending)

lemma ledger_ok_submit:
  assumes "ledger_ok lb" "new_id \<notin> o_id ` set (orders (lb_store lb))"
    "submit_paper_order new_id c s tf d x u did sl tp lb = (Inr res, lb')"
  shows "ledger_ok lb'"
proof -
  have "store_ok (save_order ord (lb_store lb))"
    if "o_id ord = new_id" "o_decision_id ord = did" "o_symbol ord = upper s" "o_side ord = d" "d \<noteq> FLAT"
      "did = None \<or> (\<forall>r\<in>set (orders (lb_store lb)). o_decision_id r \<noteq> did)" for ord
    using assms(1,2) that by (intro save_order_ok) (auto simp: ledger_ok_def)
  note ok = this
  have "ledger_ok (lb\<lparr>lb_pending := lb_pending lb @ [ord], lb_store := save_order ord (lb_store lb)\<rparr>)"
    if "o_id ord = new_id" "o_decision_id ord = did" "o_symbol ord = upper s" "o_side ord = d" "d \<noteq> FLAT"
      "did = None \<or> (\<forall>r\<in>set (orders (lb_store lb)). o_decision_id r \<noteq> did)" "o_status ord = PENDING" for ord
  proof -
    have "{r. (r = ord \<or> r \<in> set (orders (lb_store lb))) \<and> o_status r = PENDING}
        = insert ord {r \<in> set (orders (lb_store lb)). o_status r = PENDING}" using that by auto
    then show ?thesis using assms(1) ok [OF that(1-6)] by (simp add: ledger_ok_def list_open_positions_def)
  qed
  with assms(1,3) show ?thesis by (auto simp: submit_paper_order_def Let_def split: if_splits)
qed

lemma pending_after_update:
  assumes "r \<in> set (orders st)" "o_id ord = o_id r" "o_status ord \<noteq> PENDING"
  shows "o_id ` {x \<in> set (orders (update_order ord st)). o_status x = PENDING}
    = o_id ` {x \<in> set (orders st). o_status x = PENDING} - {o_id r}"
  using assms by (auto simp: image_iff)

lemma ids_drop: "o_id ` set (filter (\<lambda>x. o_id x \<noteq> i) ps) = o_id ` set ps - {i}"
  by auto

lemma ledger_ok_drop_pending:
  assumes "ledger_ok lb" "r \<in> set (orders (lb_store lb))" "o_id ord = o_id r" "o_status ord \<noteq> PENDING"
    "o_decision_id ord = o_decision_id r" "o_symbol ord = o_symbol r" "o_side ord = o_side r"
  shows "ledger_ok (lb\<lparr>lb_pending := filter (\<lambda>x. o_id x \<noteq> o_id r) (lb_pending lb),
      lb_store := update_order ord (lb_store lb)\<rparr>)"
  using assms pending_after_update [OF assms(2-4)] update_order_ok [of "lb_store lb" r ord]
  by (simp add: ledger_ok_def list_open_positions_def ids_drop del: orders_update set_filter)

lemma ledger_ok_cancel:
  assumes "ledger_ok lb" "o_id ord0 \<in> o_id ` set (orders (lb_store lb))"
  shows "ledger_ok (snd (cancel_pending ord0 lb))"
proof -
  let ?r = "live_order (lb_store lb) ord0"
  have r: "?r \<in> set (orders (lb_store lb))" using live_order_mem [OF assms(2)] by simp
  show ?thesis
    using assms(1) ledger_ok_drop_pending [OF assms(1) r, of "?r\<lparr>o_status := CANCELLED\<rparr>"]
    by (simp add: cancel_pending_def Let_def)
qed

lemma enter_order_frame:
  assumes "open_for (positions b) (upper (o_symbol ord)) = None"
  shows "positions (enter_order H ord x ts b) = positions b
    \<or> (\<exists>pos. positions (enter_order H ord x ts b) = positions b @ [pos] \<and> p_symbol pos = upper (o_symbol ord)
        \<and> p_side pos = o_side ord \<and> o_side ord \<noteq> FLAT)"
  unfolding enter_order_def
  using enter_positions [of H "upper (o_symbol ord)" "o_timeframe ord" "o_side ord" x ts
      "map_option fl (o_stop_loss ord)" "map_option fl (o_take_profit ord)" "Some (fl (o_units ord))" "b\<lparr>seed := o_seed ord\<rparr>"]
  by auto

lemma enter_order_trades: "trades (enter_order H ord x ts b) = trades b"
  by (simp add: enter_order_def)

lemma ledger_ok_fill:
  assumes "ledger_ok lb" "o_id ord0 \<in> o_id ` set (orders (lb_store lb))"
    "new_id \<notin> r_id ` set (position_rows (lb_store lb))"
  shows "ledger_ok (snd (fill_pending H new_id now ord0 x ts lb))"
proof -
  let ?st = "lb_store lb" and ?r = "live_order (lb_store lb) ord0"
  have r: "?r \<in> set (orders ?st)" using live_order_mem [OF assms(2)] by simp
  have up: "upper (o_symbol ?r) = o_symbol ?r" using r assms(1) by (auto simp: ledger_ok_def store_ok_def)
  show ?thesis
  proof (cases "o_status ?r = PENDING \<and> open_for (positions (lb_paper lb)) (o_symbol ?r) = None")
    case False
    then show ?thesis using assms(1) by (auto simp: fill_pending_def Let_def up)
  next
    case True
    let ?b = "enter_order H ?r x ts (lb_paper lb)"
    show ?thesis
    proof (cases "open_for (positions ?b) (o_symbol ?r)")
      case None
      then have "positions ?b = positions (lb_paper lb)"
        using True enter_order_frame [of "lb_paper lb" ?r H x ts] by (auto simp: up open_for_append split: option.splits)
      then show ?thesis using None True assms(1) by (simp add: fill_pending_def Let_def up ledger_ok_def enter_order_trades)
    next
      case (Some pos)
      then have b: "positions ?b = positions (lb_paper lb) @ [pos]" "p_symbol pos = o_symbol ?r" "p_side pos \<noteq> FLAT"
        using True enter_order_frame [of "lb_paper lb" ?r H x ts] by (auto simp: up open_for_append)
      let ?lb1 = "lb\<lparr>lb_pending := filter (\<lambda>x. o_id x \<noteq> o_id ?r) (lb_pending lb),
        lb_store := update_order (filled_order ?r pos ts) ?st\<rparr>"
      let ?row = "new_position_row new_id now ?r pos"
      have ok1: "ledger_ok ?lb1" using r by (intro ledger_ok_drop_pending [OF assms(1)]) (simp_all add: filled_order_def)
      have "o_symbol ?r \<notin> r_symbol ` set (list_open_positions ?st)"
        using True ledger_ok_symbols [OF assms(1)] by (simp add: open_for_None_iff) (metis image_set)
      then have "store_ok (save_position ?row (lb_store ?lb1))"
        using ok1 assms(3) b up
        by (intro save_position_ok) (simp_all add: ledger_ok_def new_position_row_def list_open_positions_def)
      then have "ledger_ok (lb\<lparr>lb_paper := ?b, lb_pending := lb_pending ?lb1,
          lb_store := save_position ?row (lb_store ?lb1)\<rparr>)"
        using ok1 b enter_order_trades [of H ?r x ts "lb_paper lb"]
        by (simp add: ledger_ok_def pg.open_save position_of_new_row) (simp add: new_position_row_def)
      then show ?thesis using True Some by (simp add: fill_pending_def Let_def up)
    qed
  qed
qed

lemma store_ok_upper: "store_ok st \<Longrightarrow> row \<in> set (list_open_positions st) \<Longrightarrow> upper (r_symbol row) = r_symbol row"
  by (simp add: store_ok_def list_open_positions_def)

lemma open_for_row:
  assumes "ledger_ok lb" "open_for (positions (lb_paper lb)) s = Some pos"
  obtains row where "get_open_position s (lb_store lb) = Some row" "row \<in> set (list_open_positions (lb_store lb))"
    "pos = position_of_row row" "r_symbol row = s" "upper s = s"
proof -
  have st: "store_ok (lb_store lb)" using assms(1) by (simp add: ledger_ok_def)
  have "positions (lb_paper lb) = map position_of_row (list_open_positions (lb_store lb))"
    using assms(1) by (simp add: ledger_ok_def)
  then have "pos \<in> position_of_row ` set (list_open_positions (lb_store lb))" and s: "p_symbol pos = s"
    using open_for_SomeD [OF assms(2)] by simp_all
  then obtain row where row: "row \<in> set (list_open_positions (lb_store lb))" "pos = position_of_row row"
    by blast
  with s have "r_symbol row = s" by simp
  note row = row this
  then have "upper s = s" using store_ok_upper [OF st, of row] by simp
  with row show thesis using pg.get_open_iff [OF st, of s row] by (intro that [of row]) simp_all
qed

lemma persist_close_ok:
  assumes "ledger_ok lb" "open_for (positions (lb_paper lb)) s = Some pos"
  shows "ledger_ok (lb\<lparr>lb_paper := snd (close_at H pos x r ts (lb_paper lb)),
      lb_store := persist_close s (fst (close_at H pos x r ts (lb_paper lb))) (lb_store lb)\<rparr>)"
proof -
  let ?st = "lb_store lb" and ?t = "fst (close_at H pos x r ts (lb_paper lb))"
  have st: "store_ok ?st" using assms(1) by (simp add: ledger_ok_def)
  obtain row where row: "get_open_position s ?st = Some row" "row \<in> set (list_open_positions ?st)"
    "pos = position_of_row row" "r_symbol row = s" "upper s = s" by (rule open_for_row [OF assms])
  let ?row = "closed_row ?t row"
  have c: "r_id ?row = r_id row" "r_status ?row = CLOSED" by (simp_all add: closed_row_def)
  have "store_ok (update_position ?row ?st)"
    by (rule close_row_ok [OF st row(2)]) (simp_all add: closed_row_def)
  moreover have "r_id q \<noteq> r_id row \<longleftrightarrow> r_symbol q \<noteq> s" if "q \<in> set (list_open_positions ?st)" for q
    using that row(2,4) pg.wf_ids [OF st] pg.wf_symbols [OF st] by (auto simp: distinct_map inj_on_def)
  then have "list_open_positions (update_position ?row ?st) = filter (\<lambda>q. r_symbol q \<noteq> s) (list_open_positions ?st)"
    using pg.open_update [OF st row(2) c] by (auto intro: filter_cong)
  moreover have "positions (snd (close_at H pos x r ts (lb_paper lb)))
      = map position_of_row (filter (\<lambda>q. r_symbol q \<noteq> s) (list_open_positions ?st))"
    using ledger_ok_distinct [OF assms(1)] assms(1) row(3,4)
    by (simp add: close_position_def remove_first_key) (simp add: ledger_ok_def filter_map comp_def)
  moreover have "mset (map trade_of_row (list_closed_positions (update_position ?row ?st)))
      = add_mset ?t (mset (map trade_of_row (list_closed_positions ?st)))"
    using closed_rows_update [OF st row(2) c] row(3) by (simp add: trade_of_closed_row)
  ultimately show ?thesis using assms(1) row(1,5) by (simp add: ledger_ok_def persist_close_def)
qed

lemma ledger_ok_after_close:
  assumes "ledger_ok lb" "open_for (positions (lb_paper lb)) s = Some pos"
  shows "ledger_ok (snd (lb_after_close (Some (fst (close_at H pos x r ts (lb_paper lb))),
      snd (close_at H pos x r ts (lb_paper lb))) lb))"
  using persist_close_ok [OF assms] open_for_SomeD [OF assms(2)] by (simp add: lb_after_close_def)

lemma lb_after_close_None [simp]: "lb_after_close (None, lb_paper lb) lb = (None, lb)"
  by (simp add: lb_after_close_def)

lemma ledger_ok_evaluate_exit: "ledger_ok lb \<Longrightarrow> ledger_ok (snd (lb_evaluate_exit H s x ts lb))"
  by (cases rule: evaluate_exit_cases [of H s x ts "lb_paper lb"])
    (auto simp: lb_evaluate_exit_def ledger_ok_after_close)

lemma ledger_ok_close_on_signal: "ledger_ok lb \<Longrightarrow> ledger_ok (snd (lb_close_on_signal H s x ts lb))"
  by (cases rule: close_on_signal_cases [of "lb_paper lb" s H x ts])
    (auto simp: lb_close_on_signal_def ledger_ok_after_close)

lemma ledger_ok_mark: "ledger_ok lb \<Longrightarrow> ledger_ok (lb_mark_position s x lb)"
  by (simp add: ledger_ok_def lb_mark_position_def)

lemma ledger_ok_snapshot: "ledger_ok lb \<Longrightarrow> ledger_ok (snd (equity_snapshot i ts lb))"
  by (simp add: ledger_ok_def equity_snapshot_def case_prod_unfold Let_def store_ok_def list_open_positions_def)

lemma ledger_ok_reload: "ledger_ok lb \<Longrightarrow> ledger_ok (restore_state (lb\<lparr>lb_store := reload (lb_store lb), lb_paper := b\<rparr>))"
  by (rule ledger_ok_restore) (simp add: ledger_ok_def store_ok_reload)

section \<open>Runs of the ledger broker\<close>

text \<open>
  Any sequence of method calls. Fresh UUIDs are new. A submission that raises ends the session: the
  failed flush has rolled its transaction back, every further statement on it fails, and the next
  broker is built by \<open>restart\<close> from what was last committed, the store of an earlier state of the run.
  \<open>restart\<close> is a new process or session after any state: it reads the store back at column scale into
  a new broker, which restores.
\<close>

inductive ledger_step :: "hash \<Rightarrow> ledger_broker \<Rightarrow> ledger_broker \<Rightarrow> bool" for H where
  submit: "new_id \<notin> o_id ` set (orders (lb_store lb))
    \<Longrightarrow> submit_paper_order new_id c s tf d x u did sl tp lb = (Inr res, lb') \<Longrightarrow> ledger_step H lb lb'"
| fill: "o_id ord \<in> o_id ` set (orders (lb_store lb)) \<Longrightarrow> new_id \<notin> r_id ` set (position_rows (lb_store lb))
    \<Longrightarrow> ledger_step H lb (snd (fill_pending H new_id now ord x ts lb))"
| cancel: "o_id ord \<in> o_id ` set (orders (lb_store lb)) \<Longrightarrow> ledger_step H lb (snd (cancel_pending ord lb))"
| eval_exit: "ledger_step H lb (snd (lb_evaluate_exit H s x ts lb))"
| signal: "ledger_step H lb (snd (lb_close_on_signal H s x ts lb))"
| mark: "ledger_step H lb (lb_mark_position s x lb)"
| snapshot: "ledger_step H lb (snd (equity_snapshot i ts lb))"
| restore: "ledger_step H lb (restore_state lb)"

inductive ledger_reachable :: "hash \<Rightarrow> ledger_broker \<Rightarrow> bool" for H where
  start: "store_ok st \<Longrightarrow> ledger_reachable H (restore_state (init_ledger st e sd c))"
| step: "ledger_reachable H lb \<Longrightarrow> ledger_step H lb lb' \<Longrightarrow> ledger_reachable H lb'"
| restart: "ledger_reachable H lb \<Longrightarrow> ledger_reachable H (restore_state (init_ledger (reload (lb_store lb)) e sd c))"

lemma ledger_ok_start: "store_ok st \<Longrightarrow> ledger_ok (restore_state (init_ledger st e sd c))"
  by (rule ledger_ok_restore) (simp add: init_ledger_def)

lemma ledger_step_ok: "ledger_step H lb lb' \<Longrightarrow> ledger_ok lb \<Longrightarrow> ledger_ok lb'"
proof (induction rule: ledger_step.induct)
  case (restore lb)
  then show ?case by (intro ledger_ok_restore) (simp add: ledger_ok_def)
qed (auto intro: ledger_ok_submit ledger_ok_fill ledger_ok_cancel ledger_ok_evaluate_exit
    ledger_ok_close_on_signal ledger_ok_mark ledger_ok_snapshot)

lemma ledger_reachable_ok: "ledger_reachable H lb \<Longrightarrow> ledger_ok lb"
proof (induction rule: ledger_reachable.induct)
  case (restart lb e sd c)
  then show ?case by (intro ledger_ok_start store_ok_reload) (simp add: ledger_ok_def)
qed (auto intro: ledger_ok_start ledger_step_ok)

section \<open>The queue and its decisions\<close>

text \<open>Every queued order is a row of the table with the same decision, so the duplicate guard, which
  looks at the queue only, sees the decision of every PENDING order.\<close>

definition order_ref :: "order_row \<Rightarrow> uuid \<times> uuid option" where
  "order_ref r = (o_id r, o_decision_id r)"

definition queue_ok :: "ledger_broker \<Rightarrow> bool" where
  "queue_ok lb = (order_ref ` set (lb_pending lb) \<subseteq> order_ref ` set (orders (lb_store lb)))"

lemma order_refs_update:
  assumes "store_ok st" "r \<in> set (orders st)" "order_ref ord = order_ref r"
  shows "order_ref ` set (orders (update_order ord st)) = order_ref ` set (orders st)"
proof -
  have "distinct (map o_id (orders st))" using assms(1) by (simp add: store_ok_def)
  then have "order_ref (if o_id x = o_id ord then ord else x) = order_ref x" if "x \<in> set (orders st)" for x
    using that assms(2,3) inj_onD [of o_id "set (orders st)" x r] by (auto simp: order_ref_def distinct_map)
  then show ?thesis by (simp only: orders_update set_map image_image cong: image_cong)
qed

lemma queue_ok_frame:
  "queue_ok lb \<Longrightarrow> set (lb_pending lb') \<subseteq> set (lb_pending lb)
    \<Longrightarrow> order_ref ` set (orders (lb_store lb')) = order_ref ` set (orders (lb_store lb)) \<Longrightarrow> queue_ok lb'"
  unfolding queue_ok_def by (metis image_mono subset_trans)

lemma queue_ok_restore: "queue_ok (restore_state lb)"
  by (auto simp: queue_ok_def restore_state_def Let_def set_list_pending)

lemma queue_ok_after_close: "queue_ok lb \<Longrightarrow> queue_ok (snd (lb_after_close res lb))"
  by (erule queue_ok_frame) (auto simp: lb_after_close_def persist_close_def split: prod.splits option.splits)

lemma queue_ok_fill:
  assumes "queue_ok lb" "store_ok (lb_store lb)" "o_id ord \<in> o_id ` set (orders (lb_store lb))"
  shows "queue_ok (snd (fill_pending H i now ord x ts lb))"
  using assms(1) live_order_mem [OF assms(3)] order_refs_update [OF assms(2), of "live_order (lb_store lb) ord"]
  by (intro queue_ok_frame [OF assms(1)])
    (auto simp: fill_pending_def Let_def filled_order_def order_ref_def simp del: orders_update split: option.splits)

lemma queue_ok_cancel:
  assumes "queue_ok lb" "store_ok (lb_store lb)" "o_id ord \<in> o_id ` set (orders (lb_store lb))"
  shows "queue_ok (snd (cancel_pending ord lb))"
  using assms(1) live_order_mem [OF assms(3)] order_refs_update [OF assms(2), of "live_order (lb_store lb) ord"]
  by (intro queue_ok_frame [OF assms(1)])
    (auto simp: cancel_pending_def Let_def order_ref_def simp del: orders_update)

lemma queue_ok_submit:
  assumes "queue_ok lb" "submit_paper_order i c s tf d x u did sl tp lb = (Inr res, lb')"
  shows "queue_ok lb'"
  using assms by (auto simp: submit_paper_order_def Let_def queue_ok_def image_subset_iff split: if_splits)

lemma queue_ok_step: "ledger_step H lb lb' \<Longrightarrow> ledger_ok lb \<Longrightarrow> queue_ok lb \<Longrightarrow> queue_ok lb'"
proof (induction rule: ledger_step.induct)
  case (submit new_id lb c s tf d x u did sl tp res lb')
  show ?case by (rule queue_ok_submit [OF submit(4,2)])
next
  case (fill ord lb new_id now x ts)
  then show ?case by (intro queue_ok_fill) (simp_all add: ledger_ok_def)
next
  case (cancel ord lb)
  then show ?case by (intro queue_ok_cancel) (simp_all add: ledger_ok_def)
next
  case (eval_exit lb s x ts)
  then show ?case by (simp add: lb_evaluate_exit_def queue_ok_after_close)
next
  case (signal lb s x ts)
  then show ?case by (simp add: lb_close_on_signal_def queue_ok_after_close)
next
  case (mark lb s x)
  then show ?case by (simp add: queue_ok_def lb_mark_position_def)
next
  case (snapshot lb i ts)
  then show ?case by (simp add: queue_ok_def equity_snapshot_def case_prod_unfold Let_def)
next
  case (restore lb)
  show ?case by (rule queue_ok_restore)
qed

lemma queue_ok_reachable: "ledger_reachable H lb \<Longrightarrow> queue_ok lb"
  by (induction rule: ledger_reachable.induct) (auto intro: queue_ok_restore queue_ok_step ledger_reachable_ok)

lemma submit_raises:
  assumes "submit_paper_order i c s tf d x u did sl tp lb = (Inl e, lb')"
  shows "e = IntegrityError \<and> lb_store lb' = lb_store lb \<and> lb_paper lb' = lb_paper lb
    \<and> (\<exists>ord. lb_pending lb' = lb_pending lb @ [ord] \<and> o_id ord = i)
    \<and> (\<exists>q\<in>set (orders (lb_store lb)). o_decision_id q = did) \<and> did \<notin> o_decision_id ` set (lb_pending lb)"
  using assms by (auto simp: submit_paper_order_def Let_def split: if_splits)

lemma raise_not_pending:
  assumes "ledger_ok lb" "queue_ok lb" "q \<in> set (orders (lb_store lb))" "o_decision_id q \<notin> o_decision_id ` set (lb_pending lb)"
  shows "o_status q \<noteq> PENDING"
proof
  assume "o_status q = PENDING"
  then have "o_id q \<in> o_id ` set (lb_pending lb)" using assms(1,3) by (simp add: ledger_ok_def)
  then obtain r where r: "r \<in> set (lb_pending lb)" "o_id r = o_id q" by (metis imageE)
  then obtain q' where q': "q' \<in> set (orders (lb_store lb))" "order_ref q' = order_ref r"
    using assms(2) unfolding queue_ok_def by (metis imageE imageI subsetD)
  have "distinct (map o_id (orders (lb_store lb)))" using assms(1) by (simp add: ledger_ok_def store_ok_def)
  then have "q' = q" using q' r(2) assms(3) by (auto simp: distinct_map order_ref_def dest: inj_onD)
  then show False using q'(2) r(1) assms(4) by (auto simp: order_ref_def)
qed


text \<open>The witness submits decision 7, cancels its order and submits the decision again: the second
  insert raises.\<close>

definition queued_ledger :: ledger_broker where
  "queued_ledger = snd (submit_paper_order 1 0 ''EURUSD'' H1 LONG 1 1 (Some 7) None None
     (restore_state (init_ledger empty_store (fl 1000) 0 None)))"

definition cancelled_ledger :: ledger_broker where
  "cancelled_ledger = snd (cancel_pending (orders (lb_store queued_ledger) ! 0) queued_ledger)"


text \<open>
  C10. A restore loses no position, trade or order: reloading the broker from its own ledger, from
  any reachable state and as often as one likes, gives the same positions in the same order, the
  same trades up to order, and the same queue. What the snapshot does not carry (a cash change after
  it) is the account, not the book.
\<close>

theorem restore_keeps_book:
  assumes "ledger_reachable H lb"
  shows "positions (lb_paper (restore_state lb)) = positions (lb_paper lb)
    \<and> mset (trades (lb_paper (restore_state lb))) = mset (trades (lb_paper lb))
    \<and> o_id ` set (lb_pending (restore_state lb)) = o_id ` set (lb_pending lb)
    \<and> restore_state (restore_state lb) = restore_state lb"
proof -
  have ok: "ledger_ok lb" using assms by (rule ledger_reachable_ok)
  have "restore_account st (restore_account st b\<lparr>positions := ps, last_mark := m, trades := ts\<rparr>)
      = restore_account st b\<lparr>positions := ps, last_mark := m, trades := ts\<rparr>" for st b ps m ts
    by (simp add: restore_account_def split: option.splits)
  then have "restore_state (restore_state lb) = restore_state lb" by (simp add: restore_state_def Let_def)
  with ok show ?thesis by (simp add: ledger_ok_def restore_state_def Let_def set_list_pending)
qed

theorem restore_keeps_book_witness:
  "positions (lb_paper (restore_state (restore_state (init_ledger empty_store (fl 1000) 0 None)))) = []"
proof -
  have "store_ok empty_store" by (simp add: store_ok_def empty_store_def list_open_positions_def map_filter_def)
  then have "ledger_reachable (\<lambda>_. 0) (restore_state (init_ledger empty_store (fl 1000) 0 None))"
    by (rule ledger_reachable.start)
  from restore_keeps_book [OF this] show ?thesis
    by (simp add: restore_state_def init_ledger_def empty_store_def Let_def list_open_positions_def)
qed

end
