(* ===== verification/LedgerRuns.thy ===== *)
theory LedgerRuns
  imports Ledger
begin

text \<open>
  What runs of the ledger broker guarantee about single rows: how an order and a position may
  change, what a submission may and may not do, that fills are the backtest broker's fills, that
  the account survives a restore and that the daily profit sums do not overlap.
\<close>

section \<open>Life of a row\<close>

text \<open>One order row, before and after: unchanged, or PENDING and then FILLED or CANCELLED with
  every other term of the order kept.\<close>

definition order_evolves :: "order_row \<Rightarrow> order_row \<Rightarrow> bool" where
  "order_evolves r r' =
     (r' = r \<or> (o_status r = PENDING \<and>
        (r' = r\<lparr>o_status := CANCELLED\<rparr>
         \<or> (\<exists>p c t. r' = r\<lparr>o_status := FILLED, o_filled_price := p, o_costs := c, o_filled_at := t\<rparr>))))"

definition position_evolves :: "position_row \<Rightarrow> position_row \<Rightarrow> bool" where
  "position_evolves r r' = (r' = r \<or> (r_status r = OPEN \<and> (\<exists>t. r' = closed_row t r)))"

lemma order_evolves_terminal: "order_evolves r r' \<Longrightarrow> o_status r \<noteq> PENDING \<Longrightarrow> r' = r"
  by (simp add: order_evolves_def)

lemma position_evolves_terminal: "position_evolves r r' \<Longrightarrow> r_status r = CLOSED \<Longrightarrow> r' = r"
  by (simp add: position_evolves_def)

text \<open>Every old row is still there, in its place.\<close>

definition rows_evolve :: "store \<Rightarrow> store \<Rightarrow> bool" where
  "rows_evolve st st' =
     (length (orders st) \<le> length (orders st') \<and> list_all2 order_evolves (orders st) (take (length (orders st)) (orders st'))
      \<and> length (position_rows st) \<le> length (position_rows st')
      \<and> list_all2 position_evolves (position_rows st) (take (length (position_rows st)) (position_rows st')))"

lemma order_evolves_refl [simp]: "order_evolves r r"
  by (simp add: order_evolves_def)

lemma position_evolves_refl [simp]: "position_evolves r r"
  by (simp add: position_evolves_def)

lemma order_evolves_trans: "order_evolves a b \<Longrightarrow> order_evolves b c \<Longrightarrow> order_evolves a c"
  by (auto simp: order_evolves_def)

lemma position_evolves_trans: "position_evolves a b \<Longrightarrow> position_evolves b c \<Longrightarrow> position_evolves a c"
  by (auto simp: position_evolves_def closed_row_def)

lemma evolve_take:
  assumes "\<And>a b c. P a b \<Longrightarrow> P b c \<Longrightarrow> P a c" "list_all2 P xs (take (length xs) ys)" "length xs \<le> length ys"
    "list_all2 P ys (take (length ys) zs)"
  shows "list_all2 P xs (take (length xs) zs)"
proof -
  have l: "length ys \<le> length zs" using list_all2_lengthD [OF assms(4)] by simp
  have "P (xs ! i) (zs ! i)" if i: "i < length xs" for i
  proof (rule assms(1))
    show "P (xs ! i) (ys ! i)" using list_all2_nthD [OF assms(2) i] i by simp
    show "P (ys ! i) (zs ! i)" using list_all2_nthD [OF assms(4), of i] i assms(3) by simp
  qed
  then show ?thesis using l assms(3) by (simp add: list_all2_conv_all_nth)
qed

lemma rows_evolve_trans: "rows_evolve a b \<Longrightarrow> rows_evolve b c \<Longrightarrow> rows_evolve a c"
  unfolding rows_evolve_def
  by (auto intro: evolve_take [OF order_evolves_trans] evolve_take [OF position_evolves_trans])

lemma rows_evolve_same [simp]:
  "orders st' = orders st \<Longrightarrow> position_rows st' = position_rows st \<Longrightarrow> rows_evolve st st'"
  by (simp add: rows_evolve_def list_all2_refl)

lemma rows_evolve_save_order: "rows_evolve st (save_order ord st)"
  by (simp add: rows_evolve_def list_all2_refl)

lemma rows_evolve_save_position: "rows_evolve st (save_position row st)"
  by (simp add: rows_evolve_def list_all2_refl)

lemma list_all2_map_key:
  assumes "distinct (map f xs)" "r \<in> set xs" "f r' = f r" "P r r'" "\<And>x. P x x"
  shows "list_all2 P xs (map (\<lambda>x. if f x = f r' then r' else x) xs)"
proof -
  have "P x (if f x = f r' then r' else x)" if "x \<in> set xs" for x
    using assms that by (auto simp: distinct_map dest: inj_onD)
  then show ?thesis by (auto simp: list_all2_conv_all_nth)
qed

lemma rows_evolve_update_order:
  assumes "store_ok st" "r \<in> set (orders st)" "o_id ord = o_id r" "order_evolves r ord"
  shows "rows_evolve st (update_order ord st)"
  using list_all2_map_key [of o_id "orders st" r ord order_evolves] assms
  by (simp add: rows_evolve_def store_ok_def list_all2_refl)

lemma rows_evolve_close:
  assumes "store_ok st" "row \<in> set (list_open_positions st)"
  shows "rows_evolve st (update_position (closed_row t row) st)"
proof -
  have r: "row \<in> set (position_rows st)" "r_status row = OPEN" "r_id (closed_row t row) = r_id row"
    using assms(2) by (auto simp: list_open_positions_def closed_row_def)
  then have "position_evolves row (closed_row t row)" by (auto simp: position_evolves_def)
  then show ?thesis
    using list_all2_map_key [of r_id "position_rows st" row "closed_row t row" position_evolves] r assms(1)
    by (simp add: rows_evolve_def store_ok_def list_all2_refl)
qed

lemma rows_evolve_persist_close:
  assumes "store_ok st"
  shows "rows_evolve st (persist_close s t st)"
proof (cases "get_open_position (upper s) st")
  case (Some row)
  then have "row \<in> set (list_open_positions st)" using pg.get_open_iff [OF assms] by blast
  then show ?thesis using rows_evolve_close [OF assms] Some by (simp add: persist_close_def)
qed (simp add: persist_close_def)

lemma store_after_close [simp]:
  "lb_store (snd (lb_after_close res lb)) = (case fst res of None \<Rightarrow> lb_store lb | Some t \<Rightarrow> persist_close (t_symbol t) t (lb_store lb))"
  by (simp add: lb_after_close_def split: prod.splits option.splits)

lemma rows_evolve_fill:
  assumes "store_ok (lb_store lb)" "o_id ord \<in> o_id ` set (orders (lb_store lb))"
  shows "rows_evolve (lb_store lb) (lb_store (snd (fill_pending H i now ord x ts lb)))"
proof -
  let ?r = "live_order (lb_store lb) ord"
  have r: "?r \<in> set (orders (lb_store lb))" using live_order_mem [OF assms(2)] by simp
  have "rows_evolve (lb_store lb) (save_position row (update_order (filled_order ?r pos ts) (lb_store lb)))"
    if "o_status ?r = PENDING" for row pos
    using that
    by (intro rows_evolve_trans [OF rows_evolve_update_order [OF assms(1) r] rows_evolve_save_position])
      (auto simp: filled_order_def order_evolves_def)
  then show ?thesis by (simp add: fill_pending_def Let_def split: option.splits)
qed

lemma rows_evolve_cancel:
  assumes "store_ok (lb_store lb)" "o_id ord \<in> o_id ` set (orders (lb_store lb))"
  shows "rows_evolve (lb_store lb) (lb_store (snd (cancel_pending ord lb)))"
proof -
  let ?r = "live_order (lb_store lb) ord"
  have r: "?r \<in> set (orders (lb_store lb))" using live_order_mem [OF assms(2)] by simp
  have "rows_evolve (lb_store lb) (update_order (?r\<lparr>o_status := CANCELLED\<rparr>) (lb_store lb))"
    if "o_status ?r = PENDING"
    using that by (intro rows_evolve_update_order [OF assms(1) r]) (simp_all add: order_evolves_def)
  then show ?thesis by (simp add: cancel_pending_def Let_def)
qed

lemma ledger_step_evolves: "ledger_step H lb lb' \<Longrightarrow> ledger_ok lb \<Longrightarrow> rows_evolve (lb_store lb) (lb_store lb')"
proof (induction rule: ledger_step.induct)
  case (submit new_id lb c s tf d x u did sl tp res lb')
  then show ?case by (auto simp: submit_paper_order_def Let_def rows_evolve_save_order split: if_splits)
next
  case (fill ord lb)
  then show ?case by (intro rows_evolve_fill) (simp_all add: ledger_ok_def)
next
  case (cancel ord lb)
  then show ?case by (intro rows_evolve_cancel) (simp_all add: ledger_ok_def)
next
  case (eval_exit lb s x ts)
  then have "store_ok (lb_store lb)" by (simp add: ledger_ok_def)
  then show ?case
    by (cases "fst (evaluate_exit H s x ts (lb_paper lb))")
      (simp_all add: lb_evaluate_exit_def rows_evolve_persist_close)
next
  case (signal lb s x ts)
  then have "store_ok (lb_store lb)" by (simp add: ledger_ok_def)
  then show ?case
    by (cases "fst (close_on_signal H s x ts (lb_paper lb))")
      (simp_all add: lb_close_on_signal_def rows_evolve_persist_close)
qed (auto simp: lb_mark_position_def equity_snapshot_def case_prod_unfold Let_def restore_state_def)

lemma ledger_steps_evolve:
  assumes "(ledger_step H)\<^sup>*\<^sup>* lb lb'" "ledger_ok lb"
  shows "ledger_ok lb' \<and> rows_evolve (lb_store lb) (lb_store lb')"
  using assms by (induction rule: rtranclp_induct)
    (auto intro: ledger_step_ok rows_evolve_trans ledger_step_evolves)

text \<open>
  C8. The ledger is append-only and its state machines only move forward: over any number of
  broker steps from a consistent ledger, every order and position row is still there in its place;
  an order changed only from PENDING, to CANCELLED or FILLED, keeping its terms; a position changed
  only from OPEN, to the closing of one trade, keeping its entry. FILLED, CANCELLED and CLOSED rows
  never change again.
\<close>

theorem rows_only_move_forward:
  assumes "(ledger_step H)\<^sup>*\<^sup>* lb lb'" "ledger_ok lb" "i < length (orders (lb_store lb))"
  shows "i < length (orders (lb_store lb')) \<and> order_evolves (orders (lb_store lb) ! i) (orders (lb_store lb') ! i)
    \<and> (o_status (orders (lb_store lb) ! i) \<noteq> PENDING \<longrightarrow> orders (lb_store lb') ! i = orders (lb_store lb) ! i)
    \<and> (\<forall>j < length (position_rows (lb_store lb)). j < length (position_rows (lb_store lb'))
        \<and> position_evolves (position_rows (lb_store lb) ! j) (position_rows (lb_store lb') ! j)
        \<and> (r_status (position_rows (lb_store lb) ! j) = CLOSED
            \<longrightarrow> position_rows (lb_store lb') ! j = position_rows (lb_store lb) ! j))"
proof -
  have e: "rows_evolve (lb_store lb) (lb_store lb')" using ledger_steps_evolve [OF assms(1,2)] by blast
  then have "order_evolves (orders (lb_store lb) ! i) (orders (lb_store lb') ! i)"
    using assms(3) by (auto simp: rows_evolve_def list_all2_conv_all_nth)
  moreover have "j < length (position_rows (lb_store lb'))
      \<and> position_evolves (position_rows (lb_store lb) ! j) (position_rows (lb_store lb') ! j)"
    if "j < length (position_rows (lb_store lb))" for j
    using e that by (auto simp: rows_evolve_def list_all2_conv_all_nth)
  moreover have "i < length (orders (lb_store lb'))" using e assms(3) by (simp add: rows_evolve_def)
  ultimately show ?thesis using order_evolves_terminal position_evolves_terminal by blast
qed

definition one_order_ledger :: ledger_broker where
  "one_order_ledger = snd (submit_paper_order 1 0 ''EURUSD'' H1 LONG 1 1 (Some 7) None None
     (init_ledger empty_store (fl 1000) 0 None))"

lemma one_order_ledger_ok: "ledger_ok one_order_ledger" "length (orders (lb_store one_order_ledger)) = 1"
proof -
  have "ledger_ok (init_ledger empty_store (fl 1000) 0 None)"
    by (simp add: ledger_ok_def init_ledger_def init_broker_def store_ok_def empty_store_def list_open_positions_def
        list_closed_positions_def map_filter_def)
  moreover have n: "\<not> (1 :: f64) \<le> 0" by (simp add: not_le)
  then have "\<exists>res. submit_paper_order 1 0 ''EURUSD'' H1 LONG 1 1 (Some 7) None None (init_ledger empty_store (fl 1000) 0 None)
      = (Inr res, one_order_ledger)"
    by (simp add: one_order_ledger_def submit_paper_order_def Let_def init_ledger_def init_broker_def open_for_def
        empty_store_def)
  ultimately show "ledger_ok one_order_ledger"
    using ledger_ok_submit [of "init_ledger empty_store (fl 1000) 0 None" 1] by (fastforce simp: init_ledger_def empty_store_def)
  note n
  then show "length (orders (lb_store one_order_ledger)) = 1"
    by (simp add: one_order_ledger_def submit_paper_order_def Let_def init_ledger_def init_broker_def open_for_def
        empty_store_def)
qed

theorem rows_only_move_forward_witness:
  "0 < length (orders (lb_store (snd (cancel_pending (orders (lb_store one_order_ledger) ! 0) one_order_ledger))))"
proof -
  have "ledger_step (\<lambda>_. 0) one_order_ledger (snd (cancel_pending (orders (lb_store one_order_ledger) ! 0) one_order_ledger))"
    using one_order_ledger_ok(2) by (intro ledger_step.cancel imageI nth_mem) simp
  from rows_only_move_forward [OF r_into_rtranclp [of "ledger_step (\<lambda>_. 0)", OF this] one_order_ledger_ok(1), of 0] show ?thesis
    using one_order_ledger_ok(2) by simp
qed

section \<open>Submission\<close>

text \<open>
  A submission queues, it never trades: it is refused, leaving everything as it was, exactly
  for a FLAT or non-positive order, a symbol already held on that side, or a decision already
  queued; it raises for a decision the table has an order of; otherwise the only change is one new
  PENDING order at the end of the queue and of the table, whose size and levels read back as the
  floats given. No position, trade, cash or snapshot moves.
\<close>

theorem submission_only_queues:
  "case submit_paper_order i c s tf d px u did sl tp lb of
     (Inl e, lb') \<Rightarrow> lb_store lb' = lb_store lb \<and> lb_paper lb' = lb_paper lb
        \<and> did \<noteq> None \<and> (\<exists>q\<in>set (orders (lb_store lb)). o_decision_id q = did)
        \<and> (\<forall>q\<in>set (lb_pending lb). o_decision_id q \<noteq> did)
   | (Inr None, lb') \<Rightarrow> lb' = lb \<and> (d = FLAT \<or> u \<le> 0 \<or> map_option p_side (lb_open_for lb s) = Some d
        \<or> (did \<noteq> None \<and> (\<exists>q\<in>set (lb_pending lb). o_decision_id q = did)))
   | (Inr (Some ord), lb') \<Rightarrow> lb_paper lb' = lb_paper lb \<and> lb_pending lb' = lb_pending lb @ [ord]
        \<and> lb_store lb' = save_order ord (lb_store lb) \<and> o_status ord = PENDING \<and> o_filled_price ord = None
        \<and> o_id ord = i \<and> o_symbol ord = upper s \<and> o_side ord = d \<and> d \<noteq> FLAT \<and> 0 < u
        \<and> fl (o_units ord) = u \<and> map_option fl (o_requested_price ord) = Some px
        \<and> map_option fl (o_stop_loss ord) = sl \<and> map_option fl (o_take_profit ord) = tp
        \<and> o_decision_id ord = did \<and> map_option p_side (lb_open_for lb s) \<noteq> Some d
        \<and> (did = None \<or> (\<forall>q\<in>set (lb_pending lb). o_decision_id q \<noteq> did))"
  by (auto simp: submit_paper_order_def Let_def lb_open_for_def fl_to_dec not_le split: option.splits)

theorem submission_only_queues_witness:
  "submit_paper_order 2 5 ''GBPUSD'' H1 SHORT 1 1 (Some 7) None None one_order_ledger = (Inr None, one_order_ledger)"
proof -
  have p: "\<not> (1 :: f64) \<le> 0" by (simp add: not_le)
  have "\<exists>q\<in>set (lb_pending one_order_ledger). o_decision_id q = Some 7"
    using p by (simp add: one_order_ledger_def submit_paper_order_def Let_def init_ledger_def init_broker_def open_for_def
        empty_store_def)
  then show ?thesis
    using submission_only_queues [where i = 2 and c = 5 and s = "''GBPUSD''" and tf = H1 and d = SHORT and px = 1
      and u = 1 and did = "Some 7" and sl = None and tp = None and lb = one_order_ledger]
    by (auto split: prod.splits sum.splits option.splits)
qed

section \<open>Fills\<close>

text \<open>
  C5. A filled order is the backtest's trade: when the lifecycle fills a pending order, the broker
  behind the ledger is exactly what \<^verbatim>\<open>PaperBroker.enter_at_next_open\<close> makes of it with the order's own
  symbol, side, size, levels and seed at the bar's open, the persisted row reads back as the
  position it opened, that position is at the open price and the bar's time, and the order row
  becomes FILLED at that price while every other row stays.
\<close>

theorem fill_is_backtest_fill:
  assumes "ledger_ok lb" "o_id ord0 \<in> o_id ` set (orders (lb_store lb))"
    "fill_pending H i now ord0 x ts lb = (Some row, lb')"
  shows "\<exists>ord pos. ord = live_order (lb_store lb) ord0 \<and> o_status ord = PENDING
     \<and> lb_paper lb' = enter_at_next_open H (o_symbol ord) (o_timeframe ord) (o_side ord) x ts
          (map_option fl (o_stop_loss ord)) (map_option fl (o_take_profit ord)) (Some (fl (o_units ord)))
          ((lb_paper lb)\<lparr>seed := o_seed ord\<rparr>)
     \<and> positions (lb_paper lb') = positions (lb_paper lb) @ [pos] \<and> position_of_row row = pos
     \<and> p_entry_price pos = x \<and> p_entry_ts pos = ts \<and> p_units pos = fl (o_units ord) \<and> 0 < p_units pos
     \<and> position_rows (lb_store lb') = position_rows (lb_store lb) @ [row] \<and> r_status row = OPEN
     \<and> (\<exists>r\<in>set (orders (lb_store lb')). o_id r = o_id ord \<and> o_status r = FILLED
          \<and> map_option fl (o_filled_price r) = Some x)
     \<and> o_id ord \<notin> o_id ` set (lb_pending lb')"
proof -
  let ?r = "live_order (lb_store lb) ord0"
  let ?b = "enter_order H ?r x ts (lb_paper lb)"
  have r: "?r \<in> set (orders (lb_store lb))" using live_order_mem [OF assms(2)] by simp
  then have up: "upper (o_symbol ?r) = o_symbol ?r" using assms(1) by (auto simp: ledger_ok_def store_ok_def)
  have pend: "o_status ?r = PENDING" and none: "open_for (positions (lb_paper lb)) (o_symbol ?r) = None"
    using assms(3) by (auto simp: fill_pending_def Let_def up split: if_splits)
  with assms(3) obtain pos where pos: "open_for (positions ?b) (o_symbol ?r) = Some pos"
    and row: "row = new_position_row i now ?r pos"
    and lb': "lb' = lb\<lparr>lb_paper := ?b, lb_pending := filter (\<lambda>q. o_id q \<noteq> o_id ?r) (lb_pending lb),
        lb_store := save_position row (update_order (filled_order ?r pos ts) (lb_store lb))\<rparr>"
    by (auto simp: fill_pending_def Let_def up split: option.splits)
  have b: "positions ?b = positions (lb_paper lb) @ [pos] \<and> p_entry_price pos = x \<and> p_entry_ts pos = ts
      \<and> p_units pos = fl (o_units ?r) \<and> 0 < p_units pos"
    using enter_positions [of H "upper (o_symbol ?r)" "o_timeframe ?r" "o_side ?r" x ts
        "map_option fl (o_stop_loss ?r)" "map_option fl (o_take_profit ?r)" "Some (fl (o_units ?r))"
        "(lb_paper lb)\<lparr>seed := o_seed ?r\<rparr>"] pos none
    by (auto simp: enter_order_def up open_for_append)
  have "filled_order ?r pos ts \<in> set (orders (lb_store lb'))"
    using r by (force simp: lb' filled_order_def)
  then have "\<exists>q\<in>set (orders (lb_store lb')). o_id q = o_id ?r \<and> o_status q = FILLED
      \<and> map_option fl (o_filled_price q) = Some x"
    using b by (intro bexI [of _ "filled_order ?r pos ts"]) (simp_all add: filled_order_def fl_to_dec)
  moreover have "lb_paper lb' = ?b" "position_rows (lb_store lb') = position_rows (lb_store lb) @ [row]"
    "o_id ?r \<notin> o_id ` set (lb_pending lb')" "position_of_row row = pos" "r_status row = OPEN"
    by (auto simp: lb' row position_of_new_row) (simp_all add: new_position_row_def)
  moreover have "positions ?b = positions (lb_paper lb) @ [pos]" "p_entry_price pos = x" "p_entry_ts pos = ts"
    "p_units pos = fl (o_units ?r)" "0 < p_units pos" using b by blast+
  moreover from this have "0 < fl (o_units ?r)" by metis
  ultimately show ?thesis using pend by (intro exI [of _ ?r] exI [of _ pos]) (simp add: enter_order_def up)
qed

lemma fill_succeeds:
  assumes "live_order (lb_store lb) ord0 = r" "o_status r = PENDING" "upper (o_symbol r) = s" "o_side r \<noteq> FLAT"
    "0 < fl (o_units r)" "open_for (positions (lb_paper lb)) s = None"
  shows "\<exists>row lb'. fill_pending H i now ord0 x ts lb = (Some row, lb')"
  using assms
  by (auto simp: fill_pending_def Let_def enter_order_def enter_at_next_open_def open_for_append not_le [symmetric])

theorem fill_is_backtest_fill_witness:
  "\<exists>row lb'. fill_pending (\<lambda>_. 0) 1 0 (orders (lb_store one_order_ledger) ! 0) (fl 2) 3600 one_order_ledger = (Some row, lb')
     \<and> p_entry_price (position_of_row row) = fl 2"
proof -
  let ?o = "orders (lb_store one_order_ledger) ! 0"
  have p: "\<not> (1 :: f64) \<le> 0" by (simp add: not_le)
  note d = one_order_ledger_def submit_paper_order_def Let_def init_ledger_def init_broker_def open_for_def empty_store_def
    live_order_def
  have "live_order (lb_store one_order_ledger) ?o = ?o" "o_status ?o = PENDING" "upper (o_symbol ?o) = ''EURUSD''"
    "o_side ?o \<noteq> FLAT" "0 < fl (o_units ?o)" "open_for (positions (lb_paper one_order_ledger)) ''EURUSD'' = None"
    using p by (simp_all add: d fl_to_dec) (code_simp+)
  from fill_succeeds [OF this] obtain row lb' where
    f: "fill_pending (\<lambda>_. 0) 1 0 ?o (fl 2) 3600 one_order_ledger = (Some row, lb')" by blast
  have "o_id ?o \<in> o_id ` set (orders (lb_store one_order_ledger))"
    using one_order_ledger_ok(2) by (intro imageI nth_mem) simp
  from fill_is_backtest_fill [OF one_order_ledger_ok(1) this f] f show ?thesis by blast
qed

section \<open>Account\<close>

text \<open>
  The account survives a restore: after a snapshot later than every earlier one, restoring (in
  any later broker object over the same rows) gives back cash, equity, peak and maximum drawdown bit
  for bit, although the row holds decimals.
\<close>

theorem snapshot_restores_account:
  assumes "\<forall>s\<in>set (snapshots (lb_store lb)). s_ts s < ts" "equity_snapshot i ts lb = (row, lb')"
    "lb_store lb2 = lb_store lb'"
  shows "cash (lb_paper (restore_state lb2)) = cash (lb_paper lb')
    \<and> equity (lb_paper (restore_state lb2)) = equity (lb_paper lb')
    \<and> peak_equity (lb_paper (restore_state lb2)) = peak_equity (lb_paper lb')
    \<and> max_drawdown_pct (lb_paper (restore_state lb2)) = max_drawdown_pct (lb_paper lb')"
proof -
  have row: "s_ts row = ts" "s_cash row = to_dec (cash (lb_paper lb'))" "s_equity row = to_dec (equity (lb_paper lb'))"
    "s_peak_equity row = to_dec (peak_equity (lb_paper lb'))" "s_drawdown_pct row = to_dec (max_drawdown_pct (lb_paper lb'))"
    and st: "lb_store lb' = save_snapshot row (lb_store lb)"
    using assms(2) by (auto simp: equity_snapshot_def case_prod_unfold Let_def)
  have "latest_snapshot (lb_store lb2) = Some row"
    unfolding assms(3) st using assms(1) row(1) by (intro latest_snapshot_save) simp
  then show ?thesis by (simp add: restore_state_def restore_account_def Let_def row fl_to_dec)
qed

theorem snapshot_restores_account_witness:
  "cash (lb_paper (restore_state (snd (equity_snapshot 1 5 one_order_ledger)))) = cash (lb_paper one_order_ledger)"
proof -
  have "snapshots (lb_store one_order_ledger) = []"
    by (simp add: one_order_ledger_def submit_paper_order_def Let_def init_ledger_def empty_store_def)
  then have "\<forall>s\<in>set (snapshots (lb_store one_order_ledger)). s_ts s < 5" by simp
  from snapshot_restores_account [OF this surjective_pairing refl, of 1] show ?thesis
    by (simp add: equity_snapshot_def case_prod_unfold Let_def)
qed

text \<open>
  The daily profit windows tile: the realized profit over [a, b) and over [b, c) add up, exactly
  and in decimals, to the profit over [a, c), so a loss at midnight is counted on one day and on no
  other.
\<close>

theorem realized_pnl_windows:
  assumes "a \<le> b" "b \<le> c"
  shows "load_realized_pnl_since a b st + load_realized_pnl_since b c st = load_realized_pnl_since a c st"
proof -
  let ?in = "\<lambda>a c r. r_status r = CLOSED \<and> (case r_exit_ts r of None \<Rightarrow> False | Some t \<Rightarrow> a \<le> t \<and> t < c)"
  have "sum_list (List.map_filter r_net_pnl (filter (?in a b) rs)) + sum_list (List.map_filter r_net_pnl (filter (?in b c) rs))
      = sum_list (List.map_filter r_net_pnl (filter (?in a c) rs))" for rs
    using assms by (induction rs) (auto simp: map_filter_simps algebra_simps split: option.splits)
  then show ?thesis by (simp add: load_realized_pnl_since_def)
qed

theorem realized_pnl_windows_witness:
  "load_realized_pnl_since 0 5 empty_store + load_realized_pnl_since 5 9 empty_store = load_realized_pnl_since 0 9 empty_store"
  by (rule realized_pnl_windows) simp_all

end
