(* ===== verification/Lifecycle.thy ===== *)
theory Lifecycle
  imports LedgerRuns
begin

text \<open>
  The paper lifecycle (\<^verbatim>\<open>app/broker/lifecycle.py\<close>): which pending order fills on which bar, and
  the fixed sequence of one unit-bar (restore, fills and flips at the open, stop/target at the close,
  mark, snapshot). \<^verbatim>\<open>PaperLifecycle\<close> holds no state of its own but the snapshot interval; its
  broker and store are the \<^typ>\<open>ledger_broker\<close> that every method takes and returns. Metrics are not
  modelled. A unit-bar opens at most one position, so it takes one fresh row id.
\<close>

record pending_candidate =
  c_order :: order_row
  c_fill_stamp :: datetime

record bar =
  b_ts :: datetime
  b_open :: f64
  b_close :: f64

record unit_frontier =
  uf_symbol :: string
  uf_timeframe :: timeframe
  uf_pending :: "pending_candidate list"
  uf_open_position :: "position_row option"

definition fill_bars :: "unit_frontier \<Rightarrow> datetime set" where
  "fill_bars f = c_fill_stamp ` set (uf_pending f)"

definition resume_after :: "unit_frontier \<Rightarrow> datetime option" where
  "resume_after f = map_option r_entry_ts (uf_open_position f)"

definition frontier_active :: "unit_frontier \<Rightarrow> bool" where
  "frontier_active f = (uf_pending f \<noteq> [] \<or> uf_open_position f \<noteq> None)"

record unit_bar_result =
  ub_symbol :: string
  ub_timeframe :: timeframe
  ub_ts :: datetime
  ub_filled :: nat
  ub_exits :: nat
  ub_superseded :: nat
  ub_snapshot_written :: bool

record unit_summary =
  us_symbol :: string
  us_timeframe :: timeframe
  us_bars_processed :: nat
  us_fills :: nat
  us_exits :: nat
  us_superseded :: nat
  us_snapshots :: nat
  us_depth_remaining :: nat

definition candidate_key :: "pending_candidate \<Rightarrow> datetime \<times> datetime \<times> uuid" where
  "candidate_key c = (c_fill_stamp c, created_key (c_order c))"

definition fill_stamp :: "order_row \<Rightarrow> datetime \<Rightarrow> datetime" where
  "fill_stamp ord decision_bucket = decision_bucket + seconds_td (tf_seconds (o_timeframe ord))"

definition candidates_for_bar :: "pending_candidate list \<Rightarrow> datetime \<Rightarrow> pending_candidate list" where
  "candidates_for_bar cands ts = sort_key candidate_key (filter (\<lambda>c. c_fill_stamp c = ts) cands)"

section \<open>Arbitration\<close>

datatype fill_action = FILL | FLIP | SUPERSEDED

fun arbitrate_loop ::
  "direction option \<Rightarrow> bool \<Rightarrow> pending_candidate list \<Rightarrow> (pending_candidate \<times> fill_action) list" where
  "arbitrate_loop current filled [] = []"
| "arbitrate_loop current filled (cand # cands) =
     (let side = o_side (c_order cand) in
      if current = None \<and> \<not> filled then (cand, FILL) # arbitrate_loop (Some side) True cands
      else if current = Some side then (cand, SUPERSEDED) # arbitrate_loop current filled cands
      else if current \<noteq> None \<and> \<not> filled then (cand, FLIP) # arbitrate_loop (Some side) True cands
      else (cand, SUPERSEDED) # arbitrate_loop current filled cands)"

definition arbitrate_fills ::
  "direction option \<Rightarrow> pending_candidate list \<Rightarrow> (pending_candidate \<times> fill_action) list" where
  "arbitrate_fills open_side cands = arbitrate_loop open_side False cands"

section \<open>Windows\<close>

definition catchup_window :: "datetime list \<Rightarrow> int \<Rightarrow> datetime list \<times> nat" where
  "catchup_window stamps max_bars =
     (let ordered = sort (remdups stamps);
          to_process = take (nat (max 1 max_bars)) ordered
      in (to_process, length ordered - length to_process))"

definition missing_bar_candidates ::
  "pending_candidate list \<Rightarrow> datetime list \<Rightarrow> datetime \<Rightarrow> pending_candidate list" where
  "missing_bar_candidates cands candle_buckets latest_closed =
     sort_key candidate_key
       (filter (\<lambda>c. c_fill_stamp c \<le> latest_closed \<and> c_fill_stamp c \<notin> set candle_buckets) cands)"

section \<open>PaperLifecycle\<close>

definition pending_candidates :: "store \<Rightarrow> pending_candidate list" where
  "pending_candidates st =
     sort_key candidate_key (List.map_filter (\<lambda>ord.
        case get_decision_bucket (o_decision_id ord) st of
          None \<Rightarrow> None
        | Some bucket \<Rightarrow> Some \<lparr>c_order = ord, c_fill_stamp = fill_stamp ord bucket\<rparr>) (list_pending_orders st))"

definition frontier ::
  "store \<Rightarrow> string \<Rightarrow> timeframe \<Rightarrow> pending_candidate list option \<Rightarrow> position_row list option \<Rightarrow> unit_frontier" where
  "frontier st symbol tf cands open_positions =
     (let symb = upper symbol;
          cs = (case cands of None \<Rightarrow> pending_candidates st | Some cs \<Rightarrow> cs);
          unit_pending = filter (\<lambda>c. o_symbol (c_order c) = symb \<and> o_timeframe (c_order c) = tf) cs;
          open_p = (case open_positions of None \<Rightarrow> None
                    | Some ps \<Rightarrow> find (\<lambda>p. r_symbol p = symb \<and> r_timeframe p = tf) ps)
      in \<lparr>uf_symbol = symb, uf_timeframe = tf, uf_pending = unit_pending, uf_open_position = open_p\<rparr>)"

definition reconcile :: "ledger_broker \<Rightarrow> bool" where
  "reconcile lb =
     (let st = lb_store lb in
      if r_symbol ` set (list_open_positions st) \<noteq> lb_open_symbols lb then False
      else o_id ` set (list_pending_orders st) = o_id ` set (lb_pending lb))"

definition snapshot_due :: "int option \<Rightarrow> store \<Rightarrow> bar \<Rightarrow> bool" where
  "snapshot_due interval st b =
     (case latest_snapshot st of None \<Rightarrow> True
      | Some latest \<Rightarrow>
          let within_interval = (case interval of None \<Rightarrow> False | Some i \<Rightarrow> b_ts b < s_ts latest + seconds_td i)
          in \<not> (b_ts b \<le> s_ts latest \<or> within_interval))"

definition apply_disposition ::
  "hash \<Rightarrow> uuid \<Rightarrow> datetime \<Rightarrow> string \<Rightarrow> bar \<Rightarrow> unit_bar_result \<times> ledger_broker
    \<Rightarrow> pending_candidate \<times> fill_action \<Rightarrow> unit_bar_result \<times> ledger_broker" where
  "apply_disposition H row_id now symb b s d =
     (case s of (res, lb) \<Rightarrow> case d of (cand, action) \<Rightarrow>
        if action = SUPERSEDED then
          (case cancel_pending (c_order cand) lb of
             (None, lb1) \<Rightarrow> (res, lb1)
           | (Some _, lb1) \<Rightarrow> (res\<lparr>ub_superseded := ub_superseded res + 1\<rparr>, lb1))
        else
          let lb1 = (if action = FLIP then snd (lb_close_on_signal H symb (b_open b) (b_ts b) lb) else lb) in
          (case fill_pending H row_id now (c_order cand) (b_open b) (b_ts b) lb1 of
             (None, lb2) \<Rightarrow> (res, lb2)
           | (Some _, lb2) \<Rightarrow> (res\<lparr>ub_filled := ub_filled res + 1\<rparr>, lb2)))"

definition process_unit_bar ::
  "hash \<Rightarrow> int option \<Rightarrow> uuid \<Rightarrow> uuid \<Rightarrow> datetime \<Rightarrow> string \<Rightarrow> timeframe \<Rightarrow> bar \<Rightarrow> pending_candidate list
   \<Rightarrow> ledger_broker \<Rightarrow> unit_bar_result \<times> ledger_broker" where
  "process_unit_bar H interval row_id snap_id now symbol tf b cands lb =
     (let lb0 = restore_state lb;
          symb = upper symbol;
          res0 = \<lparr>ub_symbol = symb, ub_timeframe = tf, ub_ts = b_ts b, ub_filled = 0, ub_exits = 0,
                  ub_superseded = 0, ub_snapshot_written = False\<rparr>;
          open_side = map_option p_side (lb_open_for lb0 symb);
          (res1, lb1) = foldl (apply_disposition H row_id now symb b) (res0, lb0)
            (arbitrate_fills open_side (candidates_for_bar cands (b_ts b)));
          (trade, lb2) = lb_evaluate_exit H symb (b_close b) (b_ts b) lb1;
          res2 = (if trade \<noteq> None then res1\<lparr>ub_exits := ub_exits res1 + 1\<rparr> else res1);
          lb3 = lb_mark_position symb (b_close b) lb2;
          state_changed = (0 < ub_filled res2 \<or> 0 < ub_exits res2 \<or> lb_open_for lb3 symb \<noteq> None)
      in if state_changed \<and> snapshot_due interval (lb_store lb3) b
         then (res2\<lparr>ub_snapshot_written := True\<rparr>, snd (equity_snapshot snap_id (b_ts b) lb3))
         else (res2, lb3))"

text \<open>One bar of \<^verbatim>\<open>process_unit\<close>: the ids are those \<^verbatim>\<open>uuid4\<close> draws for the bar.\<close>

definition add_bar_result :: "unit_summary \<Rightarrow> unit_bar_result \<Rightarrow> unit_summary" where
  "add_bar_result s r =
     s\<lparr>us_bars_processed := us_bars_processed s + 1, us_fills := us_fills s + ub_filled r,
       us_exits := us_exits s + ub_exits r, us_superseded := us_superseded s + ub_superseded r,
       us_snapshots := us_snapshots s + (if ub_snapshot_written r then 1 else 0)\<rparr>"

fun run_bars ::
  "hash \<Rightarrow> int option \<Rightarrow> (datetime \<Rightarrow> uuid \<times> uuid) \<Rightarrow> datetime \<Rightarrow> string \<Rightarrow> timeframe \<Rightarrow> pending_candidate list
   \<Rightarrow> bar list \<Rightarrow> unit_summary \<times> ledger_broker \<Rightarrow> unit_summary \<times> ledger_broker" where
  "run_bars H interval ids now symbol tf cands [] s = s"
| "run_bars H interval ids now symbol tf cands (b # bs) s =
     (let (r, lb) = process_unit_bar H interval (fst (ids (b_ts b))) (snd (ids (b_ts b))) now symbol tf b cands (snd s)
      in run_bars H interval ids now symbol tf cands bs (add_bar_result (fst s) r, lb))"

definition process_unit ::
  "hash \<Rightarrow> int option \<Rightarrow> (datetime \<Rightarrow> uuid \<times> uuid) \<Rightarrow> datetime \<Rightarrow> string \<Rightarrow> timeframe \<Rightarrow> bar list
   \<Rightarrow> pending_candidate list option \<Rightarrow> int option \<Rightarrow> ledger_broker \<Rightarrow> unit_summary \<times> ledger_broker" where
  "process_unit H interval ids now symbol tf bars cands max_bars lb =
     (let summary = \<lparr>us_symbol = upper symbol, us_timeframe = tf, us_bars_processed = 0, us_fills = 0,
            us_exits = 0, us_superseded = 0, us_snapshots = 0, us_depth_remaining = 0\<rparr> in
      if bars = [] then (summary, lb)
      else
        let cs = (case cands of None \<Rightarrow> pending_candidates (lb_store lb) | Some cs \<Rightarrow> cs);
            unit_candidates = filter (\<lambda>c. o_symbol (c_order c) = upper symbol \<and> o_timeframe (c_order c) = tf) cs;
            mb = (case max_bars of None \<Rightarrow> int (length bars) | Some m \<Rightarrow> m);
            (window, depth) = catchup_window (map b_ts bars) mb;
            to_run = foldl (\<lambda>d b. dict_set (b_ts b) b d) [] (filter (\<lambda>b. b_ts b \<in> set window) bars)
        in run_bars H interval ids now symbol tf unit_candidates (sort_key b_ts (map snd to_run))
             (summary\<lparr>us_depth_remaining := depth\<rparr>, lb))"

section \<open>Arbitration is exact\<close>

lemma arbitrate_done: "arbitrate_loop current True cs = map (\<lambda>c. (c, SUPERSEDED)) cs"
  by (induction cs) (auto simp: Let_def)

lemma arbitrate_Some:
  "arbitrate_loop (Some s) False cs =
     map (\<lambda>c. (c, SUPERSEDED)) (takeWhile (\<lambda>c. o_side (c_order c) = s) cs)
     @ (case dropWhile (\<lambda>c. o_side (c_order c) = s) cs of [] \<Rightarrow> []
        | c # rest \<Rightarrow> (c, FLIP) # map (\<lambda>c. (c, SUPERSEDED)) rest)"
  by (induction cs) (auto simp: Let_def arbitrate_done)

definition acting :: "(pending_candidate \<times> fill_action) list \<Rightarrow> nat" where
  "acting ds = length (filter (\<lambda>d. snd d \<noteq> SUPERSEDED) ds)"

lemma acting_simps [simp]:
  "acting [] = 0" "acting (d # ds) = (if snd d = SUPERSEDED then acting ds else Suc (acting ds))"
  "acting (xs @ ys) = acting xs + acting ys" "acting (map (\<lambda>c. (c, SUPERSEDED)) cs) = 0"
  by (simp_all add: acting_def filter_empty_conv)

lemma acting_arbitrate: "acting (arbitrate_fills side cs) \<le> 1"
proof (cases side)
  case None
  then show ?thesis by (cases cs) (simp_all add: arbitrate_fills_def Let_def arbitrate_done)
next
  case (Some s)
  then show ?thesis by (simp add: arbitrate_fills_def arbitrate_Some split: list.splits)
qed

lemma fst_arbitrate: "map fst (arbitrate_fills side cs) = cs"
proof -
  have "map fst (arbitrate_loop current filled cs) = cs" for current filled
    by (induction cs arbitrary: current filled) (simp_all add: Let_def)
  then show ?thesis by (simp add: arbitrate_fills_def)
qed

text \<open>
  Who fills at a bar's open: every candidate gets exactly one disposition, in candidate order.
  With no open position the first candidate fills and the others are superseded; with a position the
  candidates on its side are superseded until the first opposing one, which flips it, and everything
  after is superseded; so at most one order acts per symbol and bar.
\<close>

theorem arbitration_exact:
  "map fst (arbitrate_fills side cs) = cs \<and> acting (arbitrate_fills side cs) \<le> 1
   \<and> (case side of
        None \<Rightarrow> arbitrate_fills side cs =
          (case cs of [] \<Rightarrow> [] | c # rest \<Rightarrow> (c, FILL) # map (\<lambda>c. (c, SUPERSEDED)) rest)
      | Some s \<Rightarrow> arbitrate_fills side cs =
          map (\<lambda>c. (c, SUPERSEDED)) (takeWhile (\<lambda>c. o_side (c_order c) = s) cs)
          @ (case dropWhile (\<lambda>c. o_side (c_order c) = s) cs of [] \<Rightarrow> []
             | c # rest \<Rightarrow> (c, FLIP) # map (\<lambda>c. (c, SUPERSEDED)) rest))"
  using fst_arbitrate acting_arbitrate
  by (auto simp: arbitrate_fills_def arbitrate_Some arbitrate_done Let_def split: option.splits list.splits)

section \<open>Windows never skip\<close>

lemma set_diff_take:
  assumes "distinct xs"
  shows "set xs - set (take n xs) = set (drop n xs)"
proof -
  have "set xs = set (take n xs) \<union> set (drop n xs)" by (metis append_take_drop_id set_append)
  moreover have "set (take n xs) \<inter> set (drop n xs) = {}"
    using assms by (simp add: set_take_disj_set_drop_if_distinct)
  ultimately show ?thesis by blast
qed

text \<open>
  A catch-up window is a throttle, never a skip: it holds at most \<^verbatim>\<open>max(1, max_bars)\<close> of the
  outstanding stamps, ascending and without repetition, each earlier than every stamp left for
  later, and the reported depth is the number left.
\<close>

theorem catchup_window_prefix:
  assumes "catchup_window stamps max_bars = (window, depth)"
  shows "sorted window \<and> distinct window \<and> set window \<subseteq> set stamps
    \<and> length window = min (nat (max 1 max_bars)) (card (set stamps))
    \<and> (\<forall>a\<in>set window. \<forall>b\<in>set stamps - set window. a < b)
    \<and> depth = card (set stamps - set window)"
proof -
  let ?o = "sort (remdups stamps)" and ?n = "nat (max 1 max_bars)"
  have w: "window = take ?n ?o" "depth = length ?o - length window"
    using assms by (auto simp: catchup_window_def Let_def)
  have o: "sorted ?o" "distinct ?o" "set ?o = set stamps" "length ?o = card (set stamps)"
    by (simp_all add: length_remdups_card_conv)
  have rest: "set stamps - set window = set (drop ?n ?o)"
    using set_diff_take [OF o(2), of ?n] o(3) unfolding w(1) by simp
  have "sorted (take ?n ?o @ drop ?n ?o)" using o(1) by simp
  then have le: "\<forall>a\<in>set window. \<forall>b\<in>set (drop ?n ?o). a \<le> b" unfolding w(1) sorted_append by blast
  have less: "\<forall>a\<in>set window. \<forall>b\<in>set stamps - set window. a < b"
  proof (intro ballI)
    fix a b assume a: "a \<in> set window" and b: "b \<in> set stamps - set window"
    then have "a \<le> b" "a \<noteq> b" using le unfolding rest by (blast, metis DiffD2 b)
    then show "a < b" by simp
  qed
  have "card (set (drop ?n ?o)) = depth" using o(2,4) by (simp add: w distinct_card)
  moreover have "sorted window" "distinct window" "length window = min ?n (card (set stamps))"
    using o by (simp_all add: w(1) sorted_take min.commute)
  moreover have "set window \<subseteq> set stamps" using set_take_subset [of ?n ?o] unfolding w(1) o(3) .
  ultimately show ?thesis using less unfolding rest by blast
qed

theorem catchup_window_prefix_witness: "sorted (fst (catchup_window [5, 3, 9, 3] 2)) \<and> snd (catchup_window [5, 3, 9, 3] 2) = 1"
  using catchup_window_prefix [of "[5, 3, 9, 3]" 2, OF surjective_pairing] by (simp add: catchup_window_def Let_def)

text \<open>
  No pending order is lost between the sweeps: once bars up to \<open>latest_closed\<close> are known, every
  candidate is exactly one of not yet due, cancelled as a missing bar, or a candidate of a bar that
  is present, and every bar's candidates come oldest first.
\<close>

theorem candidates_trichotomy:
  "set cands = {c \<in> set cands. latest_closed < c_fill_stamp c}
     \<union> set (missing_bar_candidates cands buckets latest_closed)
     \<union> (\<Union>ts\<in>{ts. ts \<le> latest_closed} \<inter> set buckets. set (candidates_for_bar cands ts))
   \<and> set (missing_bar_candidates cands buckets latest_closed)
       \<inter> (\<Union>ts\<in>set buckets. set (candidates_for_bar cands ts)) = {}
   \<and> sorted (map candidate_key (candidates_for_bar cands ts))
   \<and> sorted (map candidate_key (missing_bar_candidates cands buckets latest_closed))"
  by (auto simp: missing_bar_candidates_def candidates_for_bar_def)

end
