(* ===== verification/LifecycleRuns.thy ===== *)
theory LifecycleRuns
  imports Lifecycle
begin

text \<open>
  What one unit-bar of the lifecycle does to the ledger: it is a sequence of broker steps, so the
  ledger invariants carry over; how many positions it can open; what it reports; and what the
  snapshot rule does to the account when a bar writes no snapshot.
\<close>

section \<open>A unit-bar is a sequence of broker steps\<close>

abbreviation ledger_steps :: "hash \<Rightarrow> ledger_broker \<Rightarrow> ledger_broker \<Rightarrow> bool" where
  "ledger_steps H \<equiv> (ledger_step H)\<^sup>*\<^sup>*"

lemmas ledger_steps_trans = rtranclp_trans [of "ledger_step H" for H]

lemma order_ids_update [simp]: "o_id ` set (orders (update_order r st)) = o_id ` set (orders st)"
  if "o_id r \<in> o_id ` set (orders st)"
  using that by (auto simp: image_iff)

lemma row_ids_update [simp]: "map r_id (position_rows (update_position r st)) = map r_id (position_rows st)"
  by (simp add: comp_def if_distrib cong: if_cong)

lemma row_ids_persist_close [simp]: "map r_id (position_rows (persist_close s t st)) = map r_id (position_rows st)"
  by (simp add: persist_close_def del: rows_update split: option.splits)

lemma orders_persist_close [simp]: "orders (persist_close s t st) = orders st"
  by (simp add: persist_close_def split: option.splits)

lemma signal_frame:
  "orders (lb_store (snd (lb_close_on_signal H s x ts lb))) = orders (lb_store lb)"
  "map r_id (position_rows (lb_store (snd (lb_close_on_signal H s x ts lb)))) = map r_id (position_rows (lb_store lb))"
  by (simp_all add: lb_close_on_signal_def split: option.splits)

lemma exit_frame:
  "orders (lb_store (snd (lb_evaluate_exit H s x ts lb))) = orders (lb_store lb)"
  "map r_id (position_rows (lb_store (snd (lb_evaluate_exit H s x ts lb)))) = map r_id (position_rows (lb_store lb))"
  by (simp_all add: lb_evaluate_exit_def split: option.splits)

lemma cancel_frame:
  assumes "o_id ord \<in> o_id ` set (orders (lb_store lb))"
  shows "o_id ` set (orders (lb_store (snd (cancel_pending ord lb)))) = o_id ` set (orders (lb_store lb))"
    "position_rows (lb_store (snd (cancel_pending ord lb))) = position_rows (lb_store lb)"
  using live_order_mem [OF assms] assms by (simp_all add: cancel_pending_def Let_def del: orders_update)

lemma fill_frame:
  assumes "o_id ord \<in> o_id ` set (orders (lb_store lb))"
  shows "o_id ` set (orders (lb_store (snd (fill_pending H i now ord x ts lb)))) = o_id ` set (orders (lb_store lb))"
  using live_order_mem [OF assms] assms
  by (simp add: fill_pending_def Let_def filled_order_def del: orders_update split: option.splits)

lemma apply_disposition_eq:
  "apply_disposition H i now s b (res, lb) (c, a) =
     (if a = SUPERSEDED then
        (if fst (cancel_pending (c_order c) lb) = None then res else res\<lparr>ub_superseded := ub_superseded res + 1\<rparr>,
         snd (cancel_pending (c_order c) lb))
      else let f = fill_pending H i now (c_order c) (b_open b) (b_ts b)
             (if a = FLIP then snd (lb_close_on_signal H s (b_open b) (b_ts b) lb) else lb)
        in (if fst f = None then res else res\<lparr>ub_filled := ub_filled res + 1\<rparr>, snd f))"
  by (simp add: apply_disposition_def Let_def split: prod.splits option.splits)

lemma apply_disposition_steps:
  assumes "o_id (c_order c) \<in> o_id ` set (orders (lb_store lb))"
    "a \<noteq> SUPERSEDED \<longrightarrow> row_id \<notin> r_id ` set (position_rows (lb_store lb))"
  shows "ledger_steps H lb (snd (apply_disposition H row_id now s b (res, lb) (c, a)))
    \<and> o_id ` set (orders (lb_store (snd (apply_disposition H row_id now s b (res, lb) (c, a))))) = o_id ` set (orders (lb_store lb))
    \<and> (a = SUPERSEDED \<longrightarrow> position_rows (lb_store (snd (apply_disposition H row_id now s b (res, lb) (c, a)))) = position_rows (lb_store lb))"
proof (cases "a = SUPERSEDED")
  case True
  then have e: "snd (apply_disposition H row_id now s b (res, lb) (c, a)) = snd (cancel_pending (c_order c) lb)"
    by (simp add: apply_disposition_def split: prod.splits option.splits)
  show ?thesis unfolding e using cancel_frame [OF assms(1)]
    by (auto intro: ledger_step.cancel [OF assms(1)])
next
  case False
  let ?lb1 = "if a = FLIP then snd (lb_close_on_signal H s (b_open b) (b_ts b) lb) else lb"
  have e: "snd (apply_disposition H row_id now s b (res, lb) (c, a))
      = snd (fill_pending H row_id now (c_order c) (b_open b) (b_ts b) ?lb1)"
    using False by (simp add: apply_disposition_def Let_def split: prod.splits option.splits)
  have f: "orders (lb_store ?lb1) = orders (lb_store lb)"
    "map r_id (position_rows (lb_store ?lb1)) = map r_id (position_rows (lb_store lb))"
    by (simp_all add: signal_frame)
  then have ids: "o_id (c_order c) \<in> o_id ` set (orders (lb_store ?lb1))"
    "row_id \<notin> r_id ` set (position_rows (lb_store ?lb1))"
    using assms False by (simp_all only: flip: set_map) simp_all
  have "ledger_steps H lb ?lb1" by (auto intro: ledger_step.signal)
  also have "ledger_step H ?lb1 (snd (fill_pending H row_id now (c_order c) (b_open b) (b_ts b) ?lb1))"
    by (rule ledger_step.fill [OF ids])
  finally show ?thesis unfolding e using fill_frame [OF ids(1)] f(1) False by simp
qed

lemma apply_dispositions_steps:
  assumes "\<forall>d\<in>set ds. o_id (c_order (fst d)) \<in> o_id ` set (orders (lb_store lb))" "acting ds \<le> 1"
    "0 < acting ds \<longrightarrow> row_id \<notin> r_id ` set (position_rows (lb_store lb))"
  shows "ledger_steps H lb (snd (foldl (apply_disposition H row_id now s b) (res, lb) ds))"
  using assms
proof (induction ds arbitrary: res lb)
  case (Cons d ds)
  obtain c a where d: "d = (c, a)" by force
  obtain res1 lb1 where r: "apply_disposition H row_id now s b (res, lb) (c, a) = (res1, lb1)" by force
  have "o_id (c_order c) \<in> o_id ` set (orders (lb_store lb))"
    "a \<noteq> SUPERSEDED \<longrightarrow> row_id \<notin> r_id ` set (position_rows (lb_store lb))"
    using Cons.prems by (auto simp: d)
  note * = apply_disposition_steps [OF this, of H now s b res, unfolded r snd_conv]
  have "ledger_steps H lb1 (snd (foldl (apply_disposition H row_id now s b) (res1, lb1) ds))"
    using Cons.prems * by (intro Cons.IH) (auto simp: d split: if_splits)
  then show ?case using * by (auto simp: d r intro: ledger_steps_trans)
qed simp

lemma set_arbitrate: "d \<in> set (arbitrate_fills side cs) \<Longrightarrow> fst d \<in> set cs"
  using fst_arbitrate by (metis image_eqI image_set)

lemma process_unit_bar_steps:
  assumes "\<forall>c\<in>set cands. o_id (c_order c) \<in> o_id ` set (orders (lb_store lb))"
    "row_id \<notin> r_id ` set (position_rows (lb_store lb))"
  shows "ledger_steps H lb (snd (process_unit_bar H interval row_id snap_id now s tf b cands lb))"
proof -
  define lb0 where "lb0 = restore_state lb"
  define ds where "ds = arbitrate_fills (map_option p_side (lb_open_for lb0 (upper s))) (candidates_for_bar cands (b_ts b))"
  have st: "lb_store lb0 = lb_store lb" by (simp add: lb0_def restore_state_def Let_def)
  have "ledger_steps H lb lb0" unfolding lb0_def by (auto intro: ledger_step.restore)
  moreover
  obtain res1 lb1 where 1: "foldl (apply_disposition H row_id now (upper s) b)
     (\<lparr>ub_symbol = upper s, ub_timeframe = tf, ub_ts = b_ts b, ub_filled = 0, ub_exits = 0,
       ub_superseded = 0, ub_snapshot_written = False\<rparr>, lb0) ds = (res1, lb1)" by force
  have "\<forall>d\<in>set ds. o_id (c_order (fst d)) \<in> o_id ` set (orders (lb_store lb0))"
    using assms(1) set_arbitrate by (fastforce simp: st ds_def candidates_for_bar_def)
  from apply_dispositions_steps [OF this, of row_id H now "upper s" b] assms(2) 1
  have "ledger_steps H lb0 lb1" using acting_arbitrate by (metis ds_def snd_conv st)
  moreover
  obtain trade lb2 where 2: "lb_evaluate_exit H (upper s) (b_close b) (b_ts b) lb1 = (trade, lb2)" by force
  have "ledger_step H lb1 lb2" using ledger_step.eval_exit by (metis 2 snd_conv)
  moreover
  define lb3 where "lb3 = lb_mark_position (upper s) (b_close b) lb2"
  have "ledger_step H lb2 lb3" unfolding lb3_def by (rule ledger_step.mark)
  ultimately have "ledger_steps H lb lb3" by (meson rtranclp.rtrancl_into_rtrancl rtranclp_trans)
  moreover have "ledger_step H lb3 (snd (equity_snapshot snap_id (b_ts b) lb3))" by (rule ledger_step.snapshot)
  moreover have "snd (process_unit_bar H interval row_id snap_id now s tf b cands lb)
      \<in> {lb3, snd (equity_snapshot snap_id (b_ts b) lb3)}"
    unfolding process_unit_bar_def Let_def using 1 2
    by (simp add: lb0_def [symmetric] ds_def [symmetric] lb3_def [symmetric])
  ultimately show ?thesis by auto
qed

section \<open>Counts\<close>

lemma rows_apply_disposition:
  "length (position_rows (lb_store (snd (apply_disposition H i now s b (res, lb) d))))
     - length (position_rows (lb_store lb))
   = ub_filled (fst (apply_disposition H i now s b (res, lb) d)) - ub_filled res
   \<and> length (position_rows (lb_store lb)) \<le> length (position_rows (lb_store (snd (apply_disposition H i now s b (res, lb) d))))
   \<and> ub_filled res \<le> ub_filled (fst (apply_disposition H i now s b (res, lb) d))
   \<and> ub_filled (fst (apply_disposition H i now s b (res, lb) d)) \<le> ub_filled res + acting [d]
   \<and> ub_exits (fst (apply_disposition H i now s b (res, lb) d)) = ub_exits res"
proof -
  have l: "length (position_rows (lb_store (snd (lb_close_on_signal H s x ts lb)))) = length (position_rows (lb_store lb))"
    for x ts using signal_frame(2) by (metis length_map)
  obtain c a where d: "d = (c, a)" by force
  show ?thesis
  proof (cases "a = SUPERSEDED")
    case True
    then show ?thesis by (simp add: d apply_disposition_def cancel_pending_def Let_def split: prod.splits option.splits)
  next
    case False
    let ?lb1 = "if a = FLIP then snd (lb_close_on_signal H s (b_open b) (b_ts b) lb) else lb"
    have "length (position_rows (lb_store ?lb1)) = length (position_rows (lb_store lb))" by (simp add: l)
    with False show ?thesis
      by (simp add: d apply_disposition_def fill_pending_def Let_def split: prod.splits option.splits if_splits)
  qed
qed

lemma rows_apply_dispositions:
  assumes "foldl (apply_disposition H i now s b) (res, lb) ds = (res', lb')"
  shows "length (position_rows (lb_store lb')) + ub_filled res = length (position_rows (lb_store lb)) + ub_filled res'
    \<and> ub_filled res' \<le> ub_filled res + acting ds \<and> ub_exits res' = ub_exits res"
  using assms
proof (induction ds arbitrary: res lb)
  case (Cons d ds)
  obtain res1 lb1 where r: "apply_disposition H i now s b (res, lb) d = (res1, lb1)" by force
  have f: "foldl (apply_disposition H i now s b) (res1, lb1) ds = (res', lb')" using Cons.prems r by simp
  show ?case using Cons.IH [OF f] rows_apply_disposition [of H i now s b res lb d]
    by (auto simp: r split: if_splits)
qed simp

text \<open>The stages of a unit-bar, named once.\<close>

lemma process_unit_bar_stages:
  obtains res1 lb1 trade lb2 lb3 where
    "foldl (apply_disposition H row_id now (upper s) b)
       (\<lparr>ub_symbol = upper s, ub_timeframe = tf, ub_ts = b_ts b, ub_filled = 0, ub_exits = 0,
         ub_superseded = 0, ub_snapshot_written = False\<rparr>, restore_state lb)
       (arbitrate_fills (map_option p_side (lb_open_for (restore_state lb) (upper s))) (candidates_for_bar cands (b_ts b)))
     = (res1, lb1)"
    "lb_evaluate_exit H (upper s) (b_close b) (b_ts b) lb1 = (trade, lb2)"
    "lb3 = lb_mark_position (upper s) (b_close b) lb2"
    "process_unit_bar H interval row_id snap_id now s tf b cands lb =
       (let res2 = res1\<lparr>ub_exits := ub_exits res1 + (if trade = None then 0 else 1)\<rparr> in
        if (0 < ub_filled res2 \<or> 0 < ub_exits res2 \<or> lb_open_for lb3 (upper s) \<noteq> None)
           \<and> snapshot_due interval (lb_store lb3) b
        then (res2\<lparr>ub_snapshot_written := True\<rparr>, snd (equity_snapshot snap_id (b_ts b) lb3)) else (res2, lb3))"
proof -
  obtain res1 lb1 where 1: "foldl (apply_disposition H row_id now (upper s) b)
       (\<lparr>ub_symbol = upper s, ub_timeframe = tf, ub_ts = b_ts b, ub_filled = 0, ub_exits = 0,
         ub_superseded = 0, ub_snapshot_written = False\<rparr>, restore_state lb)
       (arbitrate_fills (map_option p_side (lb_open_for (restore_state lb) (upper s))) (candidates_for_bar cands (b_ts b)))
     = (res1, lb1)" by force
  obtain trade lb2 where 2: "lb_evaluate_exit H (upper s) (b_close b) (b_ts b) lb1 = (trade, lb2)" by force
  have "process_unit_bar H interval row_id snap_id now s tf b cands lb =
       (let res2 = res1\<lparr>ub_exits := ub_exits res1 + (if trade = None then 0 else 1)\<rparr>;
            lb3 = lb_mark_position (upper s) (b_close b) lb2 in
        if (0 < ub_filled res2 \<or> 0 < ub_exits res2 \<or> lb_open_for lb3 (upper s) \<noteq> None)
           \<and> snapshot_due interval (lb_store lb3) b
        then (res2\<lparr>ub_snapshot_written := True\<rparr>, snd (equity_snapshot snap_id (b_ts b) lb3)) else (res2, lb3))"
    unfolding process_unit_bar_def Let_def using 1 2 by (cases trade) simp_all
  then show thesis by (intro that [OF 1 2 refl]) (simp add: Let_def)
qed

lemma ledger_ok_reconcile: "ledger_ok lb \<Longrightarrow> reconcile lb"
  by (simp add: reconcile_def ledger_ok_def Let_def lb_open_symbols_def set_list_pending image_image)

text \<open>
  One unit-bar, whatever the candidates: from a reachable ledger, with the candidates' orders in
  it and a fresh row id, the bar leaves a ledger whose broker reconciles with it, opens at most one
  position and closes at most one at the bar's close, reports as filled exactly the positions it
  added to the table, and only moves rows forward.
\<close>

theorem unit_bar_safe:
  assumes "ledger_reachable H lb"
    "\<forall>c\<in>set cands. o_id (c_order c) \<in> o_id ` set (orders (lb_store lb))"
    "row_id \<notin> r_id ` set (position_rows (lb_store lb))"
    "process_unit_bar H interval row_id snap_id now s tf b cands lb = (res, lb')"
  shows "ledger_reachable H lb' \<and> reconcile lb' \<and> ub_filled res \<le> 1 \<and> ub_exits res \<le> 1
    \<and> length (position_rows (lb_store lb')) = length (position_rows (lb_store lb)) + ub_filled res
    \<and> rows_evolve (lb_store lb) (lb_store lb')"
proof -
  have steps: "ledger_steps H lb lb'"
    using process_unit_bar_steps [OF assms(2,3), of H interval snap_id now s tf b] assms(4) by simp
  have reach: "ledger_reachable H lb'"
    using steps assms(1) by (induction rule: rtranclp_induct) (auto intro: ledger_reachable.step)
  note ok = ledger_reachable_ok [OF assms(1)] ledger_reachable_ok [OF reach]
  have n: "length (position_rows (lb_store (snd (lb_evaluate_exit H t x ts lb1)))) = length (position_rows (lb_store lb1))"
    for t x ts lb1 using exit_frame(2) by (metis length_map)
  obtain res1 lb1 trade lb2 lb3 where
    1: "foldl (apply_disposition H row_id now (upper s) b)
       (\<lparr>ub_symbol = upper s, ub_timeframe = tf, ub_ts = b_ts b, ub_filled = 0, ub_exits = 0,
         ub_superseded = 0, ub_snapshot_written = False\<rparr>, restore_state lb)
       (arbitrate_fills (map_option p_side (lb_open_for (restore_state lb) (upper s))) (candidates_for_bar cands (b_ts b)))
     = (res1, lb1)"
    and 2: "lb_evaluate_exit H (upper s) (b_close b) (b_ts b) lb1 = (trade, lb2)"
    and 3: "lb3 = lb_mark_position (upper s) (b_close b) lb2"
    and 4: "process_unit_bar H interval row_id snap_id now s tf b cands lb =
       (let res2 = res1\<lparr>ub_exits := ub_exits res1 + (if trade = None then 0 else 1)\<rparr> in
        if (0 < ub_filled res2 \<or> 0 < ub_exits res2 \<or> lb_open_for lb3 (upper s) \<noteq> None)
           \<and> snapshot_due interval (lb_store lb3) b
        then (res2\<lparr>ub_snapshot_written := True\<rparr>, snd (equity_snapshot snap_id (b_ts b) lb3)) else (res2, lb3))"
    by (rule process_unit_bar_stages)
  have r: "length (position_rows (lb_store lb1)) = length (position_rows (lb_store lb)) + ub_filled res1"
    "ub_filled res1 \<le> 1" "ub_exits res1 = 0"
    using rows_apply_dispositions [OF 1] acting_arbitrate [of "map_option p_side (lb_open_for (restore_state lb) (upper s))"]
    by (auto simp: restore_state_def Let_def intro: order_trans)
  have "length (position_rows (lb_store lb3)) = length (position_rows (lb_store lb1))"
    using n [of "upper s" "b_close b" "b_ts b" lb1] by (simp add: 2 3 lb_mark_position_def)
  then have "ub_filled res \<le> 1 \<and> ub_exits res \<le> 1
      \<and> length (position_rows (lb_store lb')) = length (position_rows (lb_store lb)) + ub_filled res"
    using assms(4) r unfolding 4 by (auto simp: Let_def equity_snapshot_def case_prod_unfold split: if_splits)
  then show ?thesis using reach ledger_ok_reconcile [OF ok(2)] ledger_steps_evolve [OF steps ok(1)] by blast
qed

lemma fresh_ledger_reachable: "ledger_reachable H (restore_state (init_ledger empty_store e sd c))"
  by (rule ledger_reachable.start) (simp add: store_ok_def empty_store_def list_open_positions_def map_filter_def)

lemma empty_ledger_orders [simp]:
  "orders (lb_store (init_ledger empty_store e sd c)) = []"
  "position_rows (lb_store (init_ledger empty_store e sd c)) = []"
  "snapshots (lb_store (init_ledger empty_store e sd c)) = []"
  by (simp_all add: init_ledger_def empty_store_def)

theorem unit_bar_safe_witness:
  "reconcile (snd (process_unit_bar (\<lambda>_. 0) None 1 2 0 ''EURUSD'' H1 \<lparr>b_ts = 0, b_open = 1, b_close = 1\<rparr> []
     (restore_state (init_ledger empty_store 1 0 None))))"
proof -
  from unit_bar_safe [OF fresh_ledger_reachable _ _ surjective_pairing] show ?thesis by simp
qed

section \<open>Equity at a snapshot\<close>

text \<open>Every open position but those of the processed symbol is marked at its own entry price.\<close>

definition entry_marked :: "paper_broker \<Rightarrow> bool" where
  "entry_marked b = (\<forall>p\<in>set (positions b). last_mark b (p_symbol p) = Some (p_entry_price p))"

lemma foldl_upd:
  "foldl (\<lambda>m r. m(k r \<mapsto> v r)) m rs x = (case map_of (rev (map (\<lambda>r. (k r, v r)) rs)) x of Some y \<Rightarrow> Some y | None \<Rightarrow> m x)"
  by (induction rs arbitrary: m) (auto simp: map_add_def split: option.splits)

lemma entry_marked_restore:
  assumes "store_ok (lb_store lb)"
  shows "entry_marked (lb_paper (restore_state lb))"
proof -
  let ?rs = "list_open_positions (lb_store lb)"
  have "map_of (rev (map (\<lambda>r. (r_symbol r, fl (r_entry_price r))) ?rs)) (r_symbol q) = Some (fl (r_entry_price q))"
    if "q \<in> set ?rs" for q
    using that assms by (intro map_of_is_SomeI) (auto simp: store_ok_def comp_def simp flip: rev_map)
  then show ?thesis
    by (auto simp: entry_marked_def restore_state_def Let_def foldl_upd position_of_row_def)
qed

lemma entry_marked_enter: "entry_marked b \<Longrightarrow> entry_marked (enter_at_next_open H s tf d x ts sl tp u b)"
  by (auto simp: entry_marked_def op_defs open_for_None_iff split: option.splits)

lemma entry_marked_close_at: "entry_marked b \<Longrightarrow> entry_marked (snd (close_at H p x r ts b))"
  using set_remove_first_subset [of "\<lambda>q. p_symbol q = p_symbol p" "positions b"]
  by (auto simp: entry_marked_def close_position_def close_at_def Let_def)

lemma entry_marked_evaluate_exit: "entry_marked b \<Longrightarrow> entry_marked (snd (evaluate_exit H s x ts b))"
  by (cases rule: evaluate_exit_cases [of H s x ts b]) (auto intro: entry_marked_close_at)

lemma entry_marked_close_on_signal: "entry_marked b \<Longrightarrow> entry_marked (snd (close_on_signal H s x ts b))"
  by (cases rule: close_on_signal_cases [of b s H x ts]) (auto intro: entry_marked_close_at)

lemma paper_after_close [simp]: "lb_paper (snd (lb_after_close res lb)) = snd res"
  by (simp add: lb_after_close_def split: prod.splits option.splits)

lemma paper_cancel [simp]: "lb_paper (snd (cancel_pending ord lb)) = lb_paper lb"
  by (simp add: cancel_pending_def Let_def)

lemma entry_marked_fill: "entry_marked (lb_paper lb) \<Longrightarrow> entry_marked (lb_paper (snd (fill_pending H i now ord x ts lb)))"
proof -
  assume m: "entry_marked (lb_paper lb)"
  have "entry_marked (enter_order H r x ts (lb_paper lb))" for r
    unfolding enter_order_def using m by (intro entry_marked_enter) (simp add: entry_marked_def)
  with m show ?thesis by (simp add: fill_pending_def Let_def split: option.splits)
qed

lemma entry_marked_disposition:
  "entry_marked (lb_paper lb) \<Longrightarrow> entry_marked (lb_paper (snd (apply_disposition H i now s b (res, lb) d)))"
proof -
  assume m: "entry_marked (lb_paper lb)"
  obtain c a where d: "d = (c, a)" by force
  have sig: "entry_marked (lb_paper (snd (lb_close_on_signal H s x ts lb)))" for x ts
    using entry_marked_close_on_signal [OF m] by (simp add: lb_close_on_signal_def)
  show ?thesis using m sig entry_marked_fill by (simp add: d apply_disposition_eq Let_def)
qed

lemma entry_marked_dispositions:
  "foldl (apply_disposition H i now s b) (res, lb) ds = (res', lb') \<Longrightarrow> entry_marked (lb_paper lb) \<Longrightarrow> entry_marked (lb_paper lb')"
proof (induction ds arbitrary: res lb)
  case (Cons d ds)
  then show ?case using entry_marked_disposition [of lb H i now s b res d]
    by (cases "apply_disposition H i now s b (res, lb) d") simp
qed simp

lemma sum_marked:
  assumes "distinct (map p_symbol ps)"
    "\<forall>p\<in>set ps. p_symbol p \<noteq> s \<longrightarrow> f p = (0 :: f64)"
  shows "foldl (\<lambda>u p. u + f p) 0 ps = (case open_for ps s of None \<Rightarrow> 0 | Some p \<Rightarrow> f p)"
proof -
  have z: "foldl (\<lambda>u p. u + f p) a qs = a" if "\<forall>p\<in>set qs. f p = 0" for a qs
    using that by (induction qs arbitrary: a) simp_all
  show ?thesis using assms
  proof (induction ps)
    case (Cons p ps)
    show ?case
    proof (cases "p_symbol p = s")
      case True
      then have "\<forall>q\<in>set ps. f q = 0" using Cons.prems by (auto simp: image_iff)
      with True show ?thesis by (simp add: z open_for_def)
    next
      case False
      with Cons show ?thesis by (simp add: open_for_def)
    qed
  qed (simp add: open_for_def)
qed

text \<open>
  What the equity of a snapshot contains: after a unit-bar the account's equity is cash plus
  the open profit of the processed symbol alone. Every other open position counts at its entry
  price, because the restore that starts the bar resets all marks, so drawdown and peak do not see
  the profit or loss of the rest of the book.
\<close>

theorem unit_bar_equity:
  assumes "ledger_reachable H lb"
    "\<forall>c\<in>set cands. o_id (c_order c) \<in> o_id ` set (orders (lb_store lb))"
    "row_id \<notin> r_id ` set (position_rows (lb_store lb))"
    "process_unit_bar H interval row_id snap_id now s tf b cands lb = (res, lb')"
  shows "total_equity (lb_paper lb') = cash (lb_paper lb') +
    (case lb_open_for lb' s of None \<Rightarrow> 0 | Some p \<Rightarrow> unrealized p (b_close b))"
proof -
  have ok: "ledger_ok lb" using assms(1) by (rule ledger_reachable_ok)
  have steps: "ledger_steps H lb lb'"
    using process_unit_bar_steps [OF assms(2,3), of H interval snap_id now s tf b] assms(4) by simp
  then have dist: "distinct (map p_symbol (positions (lb_paper lb')))"
    using ledger_steps_evolve [OF steps ok] ledger_ok_distinct by blast
  have "entry_marked (lb_paper (restore_state lb))"
    using ok by (intro entry_marked_restore) (simp add: ledger_ok_def)
  then obtain lb2 where m: "entry_marked (lb_paper lb2)"
    and lb': "\<exists>i ts. lb' \<in> {lb_mark_position (upper s) (b_close b) lb2,
        snd (equity_snapshot i ts (lb_mark_position (upper s) (b_close b) lb2))}"
  proof -
    assume that: "\<And>lb2. entry_marked (lb_paper lb2) \<Longrightarrow> \<exists>i ts. lb' \<in> {lb_mark_position (upper s) (b_close b) lb2,
        snd (equity_snapshot i ts (lb_mark_position (upper s) (b_close b) lb2))} \<Longrightarrow> thesis"
    assume m: "entry_marked (lb_paper (restore_state lb))"
    show thesis
    proof (rule process_unit_bar_stages [of H row_id now s b tf lb cands interval snap_id])
      fix res1 lb1 trade lb2 lb3
      assume 1: "foldl (apply_disposition H row_id now (upper s) b)
         (\<lparr>ub_symbol = upper s, ub_timeframe = tf, ub_ts = b_ts b, ub_filled = 0, ub_exits = 0,
           ub_superseded = 0, ub_snapshot_written = False\<rparr>, restore_state lb)
         (arbitrate_fills (map_option p_side (lb_open_for (restore_state lb) (upper s))) (candidates_for_bar cands (b_ts b)))
         = (res1, lb1)"
        and 2: "lb_evaluate_exit H (upper s) (b_close b) (b_ts b) lb1 = (trade, lb2)"
        and 3: "lb3 = lb_mark_position (upper s) (b_close b) lb2"
        and 4: "process_unit_bar H interval row_id snap_id now s tf b cands lb =
         (let res2 = res1\<lparr>ub_exits := ub_exits res1 + (if trade = None then 0 else 1)\<rparr> in
          if (0 < ub_filled res2 \<or> 0 < ub_exits res2 \<or> lb_open_for lb3 (upper s) \<noteq> None)
             \<and> snapshot_due interval (lb_store lb3) b
          then (res2\<lparr>ub_snapshot_written := True\<rparr>, snd (equity_snapshot snap_id (b_ts b) lb3)) else (res2, lb3))"
      have "lb_paper lb2 = snd (evaluate_exit H (upper s) (b_close b) (b_ts b) (lb_paper lb1))"
        using 2 paper_after_close by (metis lb_evaluate_exit_def snd_conv)
      then have "entry_marked (lb_paper lb2)"
        using entry_marked_dispositions [OF 1 m] entry_marked_evaluate_exit by simp
      moreover have "lb' \<in> {lb3, snd (equity_snapshot snap_id (b_ts b) lb3)}"
        using assms(4) unfolding 4 by (auto simp: Let_def split: if_splits)
      ultimately show thesis using 3 that by blast
    qed
  qed
  let ?b = "lb_paper (lb_mark_position (upper s) (b_close b) lb2)"
  have p: "positions (lb_paper lb') = positions ?b" "last_mark (lb_paper lb') = last_mark ?b" "cash (lb_paper lb') = cash ?b"
    using lb' by (auto simp: equity_snapshot_def case_prod_unfold Let_def broker_snapshot_def)
  have "unrealized q (p_entry_price q) = 0" for q by (simp add: unrealized_def)
  then have "\<forall>q\<in>set (positions ?b). p_symbol q \<noteq> upper s \<longrightarrow> unrealized q (mark_of (lb_paper lb') q) = 0"
    using m by (auto simp: entry_marked_def mark_of_def p(2) lb_mark_position_def mark_position_def)
  from sum_marked [OF _ this] dist p(1)
  have "foldl (\<lambda>u q. u + unrealized q (mark_of (lb_paper lb') q)) 0 (positions ?b)
      = (case open_for (positions ?b) (upper s) of None \<Rightarrow> 0 | Some q \<Rightarrow> unrealized q (mark_of (lb_paper lb') q))" by simp
  moreover have "mark_of (lb_paper lb') q = b_close b" if "open_for (positions ?b) (upper s) = Some q" for q
    using open_for_SomeD [OF that] by (simp add: mark_of_def p(2) lb_mark_position_def mark_position_def)
  ultimately show ?thesis
    by (simp add: total_equity_def lb_open_for_def p(1) split: option.splits)
qed

theorem unit_bar_equity_witness:
  "case process_unit_bar (\<lambda>_. 0) None 1 2 0 ''EURUSD'' H1 \<lparr>b_ts = 0, b_open = 1, b_close = 1\<rparr> []
      (restore_state (init_ledger empty_store 1 0 None)) of (res, lb') \<Rightarrow>
   total_equity (lb_paper lb') = cash (lb_paper lb')
     + (case lb_open_for lb' ''EURUSD'' of None \<Rightarrow> 0 | Some p \<Rightarrow> unrealized p 1)" (is "case ?p of (res, lb') \<Rightarrow> _")
proof -
  obtain res lb' where e: "?p = (res, lb')" by force
  from unit_bar_equity [OF fresh_ledger_reachable _ _ e] show ?thesis unfolding e by (simp split: option.splits)
qed

section \<open>Bars without a snapshot\<close>

lemma snapshots_disposition: "snapshots (lb_store (snd (apply_disposition H i now s b (res, lb) d))) = snapshots (lb_store lb)"
proof -
  have sig: "snapshots (lb_store (snd (lb_close_on_signal H s x ts lb))) = snapshots (lb_store lb)" for x ts
    by (simp add: lb_close_on_signal_def persist_close_def split: option.splits)
  have fill: "snapshots (lb_store (snd (fill_pending H i now ord x ts lb'))) = snapshots (lb_store lb')" for ord x ts lb'
    by (simp add: fill_pending_def Let_def split: option.splits)
  have cancel: "snapshots (lb_store (snd (cancel_pending ord lb'))) = snapshots (lb_store lb')" for ord lb'
    by (simp add: cancel_pending_def Let_def)
  obtain c a where d: "d = (c, a)" by force
  show ?thesis by (simp add: d apply_disposition_eq Let_def cancel fill sig)
qed

lemma snapshots_dispositions:
  "snapshots (lb_store (snd (foldl (apply_disposition H i now s b) (res, lb) ds))) = snapshots (lb_store lb)"
proof (induction ds arbitrary: res lb)
  case (Cons d ds)
  show ?case using Cons.IH [of "fst (apply_disposition H i now s b (res, lb) d)" "snd (apply_disposition H i now s b (res, lb) d)"]
    by (simp add: snapshots_disposition)
qed simp

lemma latest_snapshot_cong: "snapshots st = snapshots st' \<Longrightarrow> latest_snapshot st = latest_snapshot st'"
  by (simp add: latest_snapshot_def)

lemma snapshots_evaluate_exit: "snapshots (lb_store (snd (lb_evaluate_exit H s x ts lb))) = snapshots (lb_store lb)"
  by (simp add: lb_evaluate_exit_def persist_close_def split: option.splits)

text \<open>
  Cash moved on a bar that is not after the latest snapshot does not survive: when a snapshot
  at or after the bar's time exists (another unit wrote it for the same bar, or a catch-up runs
  behind it), the unit-bar writes none, and the next restore returns cash, equity, peak and drawdown
  to exactly what they were before the bar, whatever was filled or closed on it.
\<close>

theorem unit_bar_cash_dropped:
  assumes "latest_snapshot (lb_store lb) = Some sn" "b_ts b \<le> s_ts sn"
    "process_unit_bar H interval row_id snap_id now s tf b cands lb = (res, lb')"
  shows "\<not> ub_snapshot_written res \<and> snapshots (lb_store lb') = snapshots (lb_store lb)
    \<and> cash (lb_paper (restore_state lb')) = fl (s_cash sn)
    \<and> cash (lb_paper (restore_state lb')) = cash (lb_paper (restore_state lb))
    \<and> equity (lb_paper (restore_state lb')) = equity (lb_paper (restore_state lb))
    \<and> peak_equity (lb_paper (restore_state lb')) = peak_equity (lb_paper (restore_state lb))
    \<and> max_drawdown_pct (lb_paper (restore_state lb')) = max_drawdown_pct (lb_paper (restore_state lb))"
proof (rule process_unit_bar_stages [of H row_id now s b tf lb cands interval snap_id])
  fix res1 lb1 trade lb2 lb3
  assume 1: "foldl (apply_disposition H row_id now (upper s) b)
     (\<lparr>ub_symbol = upper s, ub_timeframe = tf, ub_ts = b_ts b, ub_filled = 0, ub_exits = 0,
       ub_superseded = 0, ub_snapshot_written = False\<rparr>, restore_state lb)
     (arbitrate_fills (map_option p_side (lb_open_for (restore_state lb) (upper s))) (candidates_for_bar cands (b_ts b)))
     = (res1, lb1)"
    and 2: "lb_evaluate_exit H (upper s) (b_close b) (b_ts b) lb1 = (trade, lb2)"
    and 3: "lb3 = lb_mark_position (upper s) (b_close b) lb2"
    and 4: "process_unit_bar H interval row_id snap_id now s tf b cands lb =
     (let res2 = res1\<lparr>ub_exits := ub_exits res1 + (if trade = None then 0 else 1)\<rparr> in
      if (0 < ub_filled res2 \<or> 0 < ub_exits res2 \<or> lb_open_for lb3 (upper s) \<noteq> None)
         \<and> snapshot_due interval (lb_store lb3) b
      then (res2\<lparr>ub_snapshot_written := True\<rparr>, snd (equity_snapshot snap_id (b_ts b) lb3)) else (res2, lb3))"
  have ubs: "\<not> ub_snapshot_written r1" if "foldl (apply_disposition H i now t b) (r0, l0) ds = (r1, l1)" "\<not> ub_snapshot_written r0"
    for i t r0 l0 ds r1 l1
    using that
  proof (induction ds arbitrary: r0 l0)
    case (Cons d ds)
    obtain r l where rl: "apply_disposition H i now t b (r0, l0) d = (r, l)" by force
    then have "\<not> ub_snapshot_written r" using Cons.prems(2)
      by (cases d) (auto simp: apply_disposition_eq Let_def split: if_splits)
    with Cons rl show ?case by simp
  qed simp
  have "snapshots (lb_store lb1) = snapshots (lb_store (restore_state lb))"
    using snapshots_dispositions by (metis 1 snd_conv)
  then have s: "snapshots (lb_store lb3) = snapshots (lb_store lb)"
    using snapshots_evaluate_exit [of H "upper s" "b_close b" "b_ts b" lb1] 2 by (simp add: 3 lb_mark_position_def)
  then have "\<not> snapshot_due interval (lb_store lb3) b"
    using assms(1,2) latest_snapshot_cong [OF s] by (simp add: snapshot_due_def)
  then have r: "lb' = lb3" "res = res1\<lparr>ub_exits := ub_exits res1 + (if trade = None then 0 else 1)\<rparr>"
    using assms(3) unfolding 4 by (simp_all add: Let_def)
  have l: "latest_snapshot (lb_store lb') = Some sn" using latest_snapshot_cong [OF s] assms(1) r(1) by simp
  show ?thesis using ubs [OF 1] s r l assms(1) by (simp add: restore_state_def restore_account_def Let_def)
qed

definition snapshot_ledger :: ledger_broker where
  "snapshot_ledger = snd (equity_snapshot 1 5 one_order_ledger)"

theorem unit_bar_cash_dropped_witness:
  "case process_unit_bar (\<lambda>_. 0) None 1 2 0 ''EURUSD'' H1 \<lparr>b_ts = 5, b_open = 1, b_close = 1\<rparr>
      [\<lparr>c_order = orders (lb_store one_order_ledger) ! 0, c_fill_stamp = 5\<rparr>] snapshot_ledger of (res, lb') \<Rightarrow>
    \<not> ub_snapshot_written res \<and> cash (lb_paper (restore_state lb')) = fl 1000" (is "case ?p of (res, lb') \<Rightarrow> _")
proof -
  obtain res lb' where e: "?p = (res, lb')" by force
  have "snapshots (lb_store one_order_ledger) = []" "cash (lb_paper one_order_ledger) = fl 1000"
    by (simp_all add: one_order_ledger_def submit_paper_order_def Let_def init_ledger_def init_broker_def empty_store_def)
  then obtain sn where "latest_snapshot (lb_store snapshot_ledger) = Some sn" "s_ts sn = 5" "s_cash sn = to_dec (fl 1000)"
    by (auto simp: snapshot_ledger_def equity_snapshot_def case_prod_unfold Let_def latest_snapshot_def)
  from unit_bar_cash_dropped [OF this(1) _ e] this show ?thesis unfolding e by (simp add: fl_to_dec)
qed

end
