(* ===== verification/Signals.thy ===== *)
theory Signals
  imports F64 Timeframes Costs
begin

text \<open>
  The agent contract (\<^verbatim>\<open>app/agents/base.py\<close>): the signal an agent emits for a closed bar, its
  validation and its lifetime. \<^verbatim>\<open>features\<close> and other JSON columns are values of \<open>json\<close>.
\<close>

datatype json =
    JNull
  | JBool bool
  | JInt int
  | JFloat f64
  | JStr string
  | JList "json list"
  | JDict "(string \<times> json) list"

text \<open>\<^verbatim>\<open>d.get(k)\<close> (\<^verbatim>\<open>None\<close> is the absent key) and \<^verbatim>\<open>(d or {}).get(k)\<close>.\<close>

definition json_get :: "(string \<times> json) list \<Rightarrow> string \<Rightarrow> json option" where
  "json_get d k = map_of d k"

text \<open>\<^verbatim>\<open>isinstance(raw, (int, float))\<close> and \<^verbatim>\<open>float(raw)\<close>; \<^verbatim>\<open>bool\<close> is an \<^verbatim>\<open>int\<close>.\<close>

definition json_number :: "json \<Rightarrow> f64 option" where
  "json_number j = (case j of JFloat x \<Rightarrow> Some x | JInt i \<Rightarrow> Some (fl (of_int i))
     | JBool b \<Rightarrow> Some (if b then 1 else 0) | _ \<Rightarrow> None)"

text \<open>\<^verbatim>\<open>str(j)\<close>; \<open>R\<close> renders the JSON values other than strings, integers, booleans and null.\<close>

definition py_str :: "(json \<Rightarrow> string) \<Rightarrow> json \<Rightarrow> string" where
  "py_str R j = (case j of JStr s \<Rightarrow> s | JNull \<Rightarrow> ''None'' | JBool b \<Rightarrow> (if b then ''True'' else ''False'')
     | JInt i \<Rightarrow> show_int i | _ \<Rightarrow> R j)"

text \<open>The truth value of a JSON value.\<close>

fun truthy :: "json \<Rightarrow> bool" where
  "truthy JNull = False"
| "truthy (JBool b) = b"
| "truthy (JInt i) = (i \<noteq> 0)"
| "truthy (JFloat x) = (x \<noteq> 0)"
| "truthy (JStr s) = (s \<noteq> [])"
| "truthy (JList xs) = (xs \<noteq> [])"
| "truthy (JDict d) = (d \<noteq> [])"

record agent_signal =
  sg_agent_id :: string
  sg_version :: string
  sg_symbol :: string
  sg_timeframe :: timeframe
  sg_direction :: direction
  sg_confidence :: f64
  sg_bucket_ts :: datetime
  sg_rationale :: string
  sg_features :: "(string \<times> json) list"
  sg_created_at :: datetime
  sg_valid_until :: datetime
  sg_run_id :: string

text \<open>The field constraints checked on construction and assignment.\<close>

definition validate_signal :: "agent_signal \<Rightarrow> py_error + agent_signal" where
  "validate_signal s =
     (if 1 \<le> length (sg_agent_id s) \<and> length (sg_agent_id s) \<le> 32
         \<and> 1 \<le> length (sg_version s) \<and> length (sg_version s) \<le> 16
         \<and> 6 \<le> length (sg_symbol s) \<and> length (sg_symbol s) \<le> 12
         \<and> 0 \<le> sg_confidence s \<and> sg_confidence s \<le> 1
      then Inr s else Inl ValueError)"

definition is_fresh :: "agent_signal \<Rightarrow> datetime \<Rightarrow> bool" where
  "is_fresh s now = (now \<le> sg_valid_until s)"

definition freshness_multiplier :: "string \<Rightarrow> int" where
  "freshness_multiplier agent_id = (if agent_id = ''technical'' then 2 else if agent_id = ''regime'' then 4 else 2)"

definition valid_until_for :: "string \<Rightarrow> datetime \<Rightarrow> timeframe \<Rightarrow> datetime" where
  "valid_until_for agent_id bucket_ts tf = bucket_ts + seconds_td (tf_seconds tf * freshness_multiplier agent_id)"

text \<open>\<^verbatim>\<open>AnalysisContext\<close> without the frame of candles, which each agent takes as its own argument.\<close>

record analysis_context =
  ctx_symbol :: string
  ctx_timeframe :: timeframe
  ctx_bucket_ts :: datetime
  ctx_now :: datetime
  ctx_run_id :: string

definition build_signal ::
  "string \<Rightarrow> string \<Rightarrow> analysis_context \<Rightarrow> direction \<Rightarrow> f64 \<Rightarrow> string \<Rightarrow> (string \<times> json) list \<Rightarrow> py_error + agent_signal" where
  "build_signal agent_id version ctx dir confidence rationale features =
     validate_signal \<lparr>sg_agent_id = agent_id, sg_version = version, sg_symbol = ctx_symbol ctx,
       sg_timeframe = ctx_timeframe ctx, sg_direction = dir, sg_confidence = max 0 (min 1 confidence),
       sg_bucket_ts = ctx_bucket_ts ctx, sg_rationale = rationale, sg_features = features,
       sg_created_at = ctx_now ctx, sg_valid_until = valid_until_for agent_id (ctx_bucket_ts ctx) (ctx_timeframe ctx),
       sg_run_id = ctx_run_id ctx\<rparr>"

lemma tf_seconds_pos: "0 < tf_seconds tf"
  by (cases tf) simp_all

lemma validate_signal_InrD:
  "validate_signal s = Inr t \<Longrightarrow> t = s \<and> 0 \<le> sg_confidence s \<and> sg_confidence s \<le> 1"
  by (auto simp: validate_signal_def split: if_splits)

lemma build_signal_confidence:
  "build_signal i v ctx d c r f = Inr s \<Longrightarrow> 0 \<le> sg_confidence s \<and> sg_confidence s \<le> 1 \<and> sg_direction s = d"
  by (auto simp: build_signal_def dest!: validate_signal_InrD)

text \<open>
  A signal outlives its bar: whatever an agent computes, clamping puts the confidence in [0, 1],
  so building a signal for a well-formed agent and symbol never raises, and the signal is still fresh
  when its bar closes and through at least one bar more.
\<close>

theorem build_signal_total:
  assumes "1 \<le> length agent_id" "length agent_id \<le> 32" "1 \<le> length version" "length version \<le> 16"
    "6 \<le> length (ctx_symbol ctx)" "length (ctx_symbol ctx) \<le> 12"
  shows "\<exists>s. build_signal agent_id version ctx dir confidence rationale features = Inr s
    \<and> 0 \<le> sg_confidence s \<and> sg_confidence s \<le> 1
    \<and> (0 \<le> confidence \<and> confidence \<le> 1 \<longrightarrow> sg_confidence s = confidence)
    \<and> is_fresh s (ctx_bucket_ts ctx + 2 * seconds_td (tf_seconds (ctx_timeframe ctx)))"
  using assms
  by (auto simp: build_signal_def validate_signal_def is_fresh_def valid_until_for_def freshness_multiplier_def
      seconds_td_def tf_seconds_pos less_imp_le max_def min_def)

theorem build_signal_total_witness:
  "\<exists>s. build_signal ''technical'' ''2.0'' \<lparr>ctx_symbol = ''EURUSD'', ctx_timeframe = H1, ctx_bucket_ts = 0,
      ctx_now = 0, ctx_run_id = ''''\<rparr> LONG (fl 7) '''' [] = Inr s \<and> sg_confidence s \<le> 1"
  using build_signal_total [of "''technical''" "''2.0''" "\<lparr>ctx_symbol = ''EURUSD'', ctx_timeframe = H1, ctx_bucket_ts = 0,
      ctx_now = 0, ctx_run_id = ''''\<rparr>" LONG "fl 7" "''''" "[]"] by auto

end
