(* ===== verification/Fusion.thy ===== *)
theory Fusion
  imports Signals
begin

text \<open>
  Signal fusion (\<^verbatim>\<open>app/decisions/fusion.py\<close>): the three directional agents' votes, weighted by the
  regime's matrix, become one score, direction, confidence and agreement; a larger timeframe's
  decision may nudge the score. Weight dictionaries are association lists in insertion order.
\<close>

definition REGIME_AGENT_ID :: string where "REGIME_AGENT_ID = ''regime''"

definition DIRECTIONAL_AGENTS :: "string list" where
  "DIRECTIONAL_AGENTS = [''technical'', ''fundamental'', ''sentiment'']"

type_synonym weights = "(string \<times> f64) list"

definition weight_row :: "rat \<Rightarrow> rat \<Rightarrow> rat \<Rightarrow> weights" where
  "weight_row t f s = [(''technical'', fl (t / 100)), (''fundamental'', fl (f / 100)), (''sentiment'', fl (s / 100))]"

definition DEFAULT_WEIGHTS :: "(string \<times> weights) list" where
  "DEFAULT_WEIGHTS =
    [(''trending'', weight_row 55 20 25), (''weakening_trend'', weight_row 45 30 25),
     (''transitional'', weight_row 50 25 25), (''range'', weight_row 60 20 20), (''unknown'', weight_row 40 30 30)]"

record fusion_params =
  fp_threshold :: f64
  fp_hysteresis :: f64
  fp_weights :: "(string \<times> weights) list"

definition default_fusion_params :: fusion_params where
  "default_fusion_params =
     \<lparr>fp_threshold = fl (15 / 100), fp_hysteresis = fl (4 / 100), fp_weights = DEFAULT_WEIGHTS\<rparr>"

record context_input =
  ci_direction :: direction
  ci_confidence :: f64
  ci_weight :: f64

record fused_result =
  fr_score :: f64
  fr_direction :: direction
  fr_confidence :: f64
  fr_agreement :: f64
  fr_weights :: weights
  fr_voting_agents :: "string list"
  fr_threshold :: f64
  fr_pre_context_score :: f64

definition has_votes :: "fused_result \<Rightarrow> bool" where
  "has_votes r = (0 < length (fr_voting_agents r))"

definition sign_of :: "direction \<Rightarrow> int" where
  "sign_of d = (if d = FLAT then 0 else if d = LONG then 1 else - 1)"

definition direction_for_score :: "f64 \<Rightarrow> f64 \<Rightarrow> direction" where
  "direction_for_score score threshold =
     (if threshold \<le> score then LONG else if score \<le> - threshold then SHORT else FLAT)"

definition signs_of :: "f64 \<Rightarrow> direction" where
  "signs_of vote = (if 0 < vote then LONG else if vote < 0 then SHORT else FLAT)"

definition get_weight :: "weights \<Rightarrow> string \<Rightarrow> f64" where
  "get_weight w agent = (case map_of w agent of Some x \<Rightarrow> x | None \<Rightarrow> 0)"

definition renormalized :: "weights \<Rightarrow> string list \<Rightarrow> weights" where
  "renormalized w voting =
     (let chosen = map (\<lambda>a. (a, get_weight w a)) (filter (\<lambda>a. 0 < get_weight w a) voting);
          total = py_sum (map snd chosen)
      in if total \<le> 0 then [] else map (\<lambda>(a, x). (a, x / total)) chosen)"

text \<open>\<^verbatim>\<open>s * confidence\<close> for the sign \<open>s\<close> of a vote, and the agents that vote, in table order.\<close>

definition signed :: "int \<Rightarrow> f64 \<Rightarrow> f64" where
  "signed s x = fl (of_int s) * x"

definition votes_of :: "(string \<rightharpoonup> agent_signal) \<Rightarrow> (string \<times> f64) list" where
  "votes_of signals = List.map_filter (\<lambda>agent.
     case signals agent of None \<Rightarrow> None
     | Some s \<Rightarrow> if sign_of (sg_direction s) = 0 \<or> sg_confidence s \<le> 0 then None
                else Some (agent, signed (sign_of (sg_direction s)) (sg_confidence s))) DIRECTIONAL_AGENTS"

definition no_votes_result :: "fusion_params \<Rightarrow> fused_result" where
  "no_votes_result p = \<lparr>fr_score = 0, fr_direction = FLAT, fr_confidence = 0, fr_agreement = 0, fr_weights = [],
     fr_voting_agents = [], fr_threshold = fp_threshold p, fr_pre_context_score = 0\<rparr>"

text \<open>\<^verbatim>\<open>weights[a]\<close> raises \<^const>\<open>KeyError\<close> for a voter whose weight was not positive.\<close>

definition fuse :: "(string \<rightharpoonup> agent_signal) \<Rightarrow> string \<Rightarrow> fusion_params option \<Rightarrow> py_error + fused_result" where
  "fuse signals regime params =
     (let p = (case params of Some p \<Rightarrow> p | None \<Rightarrow> default_fusion_params);
          weights_for_regime = (case map_of (fp_weights p) regime of Some w \<Rightarrow> w | None \<Rightarrow> weight_row 40 30 30);
          votes = votes_of signals;
          voters = map fst votes
      in if voters = [] then Inr (no_votes_result p)
      else let w = renormalized weights_for_regime voters in
        if w = [] then Inr (no_votes_result p)
        else if \<exists>a\<in>set voters. map_of w a = None then Inl KeyError
        else
          let score = round_nd (py_sum (map (\<lambda>(a, v). get_weight w a * v) votes)) 6;
              dir = direction_for_score score (fp_threshold p);
              target_sign = sign_of dir;
              aligning = py_sum (map (\<lambda>(a, v). get_weight w a)
                (filter (\<lambda>(a, v). sign_of (signs_of v) = target_sign) votes))
          in Inr \<lparr>fr_score = score, fr_direction = dir, fr_confidence = min 1 \<bar>score\<bar>,
                  fr_agreement = round_nd aligning 4, fr_weights = w, fr_voting_agents = voters,
                  fr_threshold = fp_threshold p, fr_pre_context_score = 0\<rparr>)"

definition apply_context :: "fused_result \<Rightarrow> context_input option \<Rightarrow> fused_result" where
  "apply_context r ctx =
     (case ctx of None \<Rightarrow> r
      | Some c \<Rightarrow>
          if ci_confidence c \<le> 0 then r
          else
            let nudge = (ci_weight c * fl (of_int (sign_of (ci_direction c)))) * min 1 (ci_confidence c);
                new_score = fr_score r + nudge
            in \<lparr>fr_score = round_nd new_score 6,
                fr_direction = direction_for_score new_score (fr_threshold r),
                fr_confidence = min 1 \<bar>new_score\<bar>, fr_agreement = fr_agreement r,
                fr_weights = fr_weights r, fr_voting_agents = fr_voting_agents r,
                fr_threshold = fr_threshold r, fr_pre_context_score = fr_score r\<rparr>)"

section \<open>Mirror symmetry of the arithmetic\<close>

lemma f64_plus_minus: "- x + - y = - (x + (y :: f64))"
  by (simp add: f64_eq_iff f64_rep flip: rnd_minus)

lemma f64_minus_minus: "- x - - y = - (x - (y :: f64))"
  by (simp add: f64_eq_iff f64_rep flip: rnd_minus)

lemma f64_minus_eq_0 [simp]: "- x = 0 \<longleftrightarrow> x = (0 :: f64)"
  by (simp add: f64_eq_iff f64_rep)

lemma neumaier_minus: "neumaier (- s) (- c) (map uminus xs) = - neumaier s c xs"
  by (induction xs arbitrary: s c) (simp_all add: Let_def f64_plus_minus f64_minus_minus)

lemma py_sum_minus: "py_sum (map uminus xs) = - py_sum xs"
  using neumaier_minus [of 0 0 xs] by (simp add: py_sum_def)

lemma round_nd_minus: "round_nd (- x) n = - round_nd x n"
  by (simp add: round_nd_def f64_eq_iff f64_rep rne_minus rnd_minus flip: rnd_minus)

fun flip_direction :: "direction \<Rightarrow> direction" where
  "flip_direction LONG = SHORT" | "flip_direction SHORT = LONG" | "flip_direction FLAT = FLAT"

definition mirror_signals :: "(string \<rightharpoonup> agent_signal) \<Rightarrow> string \<rightharpoonup> agent_signal" where
  "mirror_signals signals a = map_option (\<lambda>s. s\<lparr>sg_direction := flip_direction (sg_direction s)\<rparr>) (signals a)"

lemma sign_flip [simp]: "sign_of (flip_direction d) = - sign_of d"
  by (cases d) (simp_all add: sign_of_def)

lemma fl_minus: "fl (- x) = - fl x"
  by (simp add: f64_eq_iff f64_rep rnd_minus)

lemma signed_minus [simp]: "signed (- s) x = - signed s x"
  by (simp add: signed_def fl_minus)

lemma votes_mirror: "votes_of (mirror_signals signals) = map (\<lambda>(a, v). (a, - v)) (votes_of signals)"
proof -
  have "List.map_filter (\<lambda>agent. case mirror_signals signals agent of None \<Rightarrow> None
      | Some s \<Rightarrow> if sign_of (sg_direction s) = 0 \<or> sg_confidence s \<le> 0 then None
                 else Some (agent, signed (sign_of (sg_direction s)) (sg_confidence s))) as
    = map (\<lambda>(a, v). (a, - v)) (List.map_filter (\<lambda>agent. case signals agent of None \<Rightarrow> None
      | Some s \<Rightarrow> if sign_of (sg_direction s) = 0 \<or> sg_confidence s \<le> 0 then None
                 else Some (agent, signed (sign_of (sg_direction s)) (sg_confidence s))) as)" for as
    by (induction as) (simp_all add: map_filter_simps mirror_signals_def split: option.splits)
  then show ?thesis by (simp add: votes_of_def)
qed

lemma direction_flip: "0 < th \<Longrightarrow> direction_for_score (- x) th = flip_direction (direction_for_score x th)"
  by (auto simp: direction_for_score_def f64_rep)

lemma signs_flip: "signs_of (- v) = flip_direction (signs_of v)"
  by (auto simp: signs_of_def f64_neg_iff)

lemma f64_uminus_abs: "\<bar>- x\<bar> = \<bar>x :: f64\<bar>" by simp

lemma minus_f64_eq_iff: "- x = - y \<longleftrightarrow> x = (y :: f64)"
  by (metis f64_ring(12))

definition mirror_result :: "fused_result \<Rightarrow> fused_result" where
  "mirror_result r = r\<lparr>fr_score := - fr_score r, fr_direction := flip_direction (fr_direction r)\<rparr>"

text \<open>
  Fusion has no side: swap LONG and SHORT in every signal and the fused result is the mirror
  image, to the last bit: the score is negated and the direction swapped, while confidence,
  agreement, weights and voters stay the same. Errors are mirrored too.
\<close>

theorem fuse_mirror:
  assumes "0 < fp_threshold p"
  shows "fuse (mirror_signals signals) regime (Some p) = map_sum id mirror_result (fuse signals regime (Some p))"
proof -
  let ?votes = "votes_of signals"
  define w where "w = renormalized (case map_of (fp_weights p) regime of Some w \<Rightarrow> w | None \<Rightarrow> weight_row 40 30 30) (map fst ?votes)"
  have fst: "map fst (map (\<lambda>(a, v). (a, - v)) ?votes) = map fst ?votes"
    by (simp add: comp_def case_prod_unfold)
  have "map (\<lambda>(a, v). get_weight w a * v) (map (\<lambda>(a, v). (a, - v)) ?votes)
      = map uminus (map (\<lambda>(a, v). get_weight w a * v) ?votes)"
    by (simp add: case_prod_unfold)
  then have score: "round_nd (py_sum (map (\<lambda>(a, v). get_weight w a * v) (map (\<lambda>(a, v). (a, - v)) ?votes))) 6
      = - round_nd (py_sum (map (\<lambda>(a, v). get_weight w a * v) ?votes)) 6"
    by (simp only: py_sum_minus round_nd_minus)
  have align: "map (\<lambda>(a, v). get_weight w a) (filter (\<lambda>(a, v). sign_of (signs_of v) = - t) (map (\<lambda>(a, v). (a, - v)) vs))
      = map (\<lambda>(a, v). get_weight w a) (filter (\<lambda>(a, v). sign_of (signs_of v) = t) vs)" for t vs
    by (induction vs) (auto simp: signs_flip)
  show ?thesis
  proof (cases "?votes = [] \<or> w = [] \<or> (\<exists>a\<in>set (map fst ?votes). map_of w a = None)")
    case True
    then show ?thesis
      by (auto simp: fuse_def Let_def votes_mirror fst w_def [symmetric] no_votes_result_def mirror_result_def
          simp del: map_map list.map_comp)
  next
    case False
    then show ?thesis
      using assms score
      by (simp add: fuse_def Let_def votes_mirror fst w_def [symmetric] mirror_result_def direction_flip align
          del: map_map list.map_comp)
  qed
qed

section \<open>Totality\<close>

lemma votes_nonzero:
  assumes "(a, v) \<in> set (votes_of signals)"
  shows "v \<noteq> 0 \<and> a \<in> set DIRECTIONAL_AGENTS \<and> (\<exists>s. signals a = Some s \<and> sg_direction s \<noteq> FLAT \<and> 0 < sg_confidence s
    \<and> signs_of v = sg_direction s)"
proof -
  from assms obtain s where s: "signals a = Some s" "sign_of (sg_direction s) \<noteq> 0" "0 < sg_confidence s"
    "v = signed (sign_of (sg_direction s)) (sg_confidence s)" "a \<in> set DIRECTIONAL_AGENTS"
    by (auto simp: votes_of_def map_filter_def not_le split: option.splits if_splits)
  then show ?thesis
    by (cases "sg_direction s") (auto simp: sign_of_def signed_def fl_minus signs_of_def f64_neg_iff)
qed

lemma voters_subset: "set (map fst (votes_of signals)) \<subseteq> set DIRECTIONAL_AGENTS"
  using votes_nonzero by fastforce

lemma voters_eq: "map fst (votes_of signals) = filter (\<lambda>a. case signals a of None \<Rightarrow> False
    | Some s \<Rightarrow> sg_direction s \<noteq> FLAT \<and> 0 < sg_confidence s) DIRECTIONAL_AGENTS"
proof -
  have "map fst (List.map_filter (\<lambda>agent. case signals agent of None \<Rightarrow> None
      | Some s \<Rightarrow> if sign_of (sg_direction s) = 0 \<or> sg_confidence s \<le> 0 then None
                 else Some (agent, signed (sign_of (sg_direction s)) (sg_confidence s))) as)
    = filter (\<lambda>a. case signals a of None \<Rightarrow> False | Some s \<Rightarrow> sg_direction s \<noteq> FLAT \<and> 0 < sg_confidence s) as" for as
    by (induction as) (auto simp: map_filter_simps sign_of_def not_le split: option.splits)
  then show ?thesis by (simp add: votes_of_def)
qed

lemma map_of_renormalized:
  assumes "renormalized w voting \<noteq> []"
  shows "map_of (renormalized w voting) a = None \<longleftrightarrow> a \<notin> set voting \<or> get_weight w a \<le> 0"
  using assms by (auto simp: renormalized_def Let_def map_of_eq_None_iff image_iff not_less split: if_splits)

lemma fuse_Inl_iff:
  defines "w \<equiv> \<lambda>p regime. case map_of (fp_weights p) regime of Some w \<Rightarrow> w | None \<Rightarrow> weight_row 40 30 30"
  shows "fuse signals regime (Some p) = Inl e \<longleftrightarrow>
    e = KeyError \<and> renormalized (w p regime) (map fst (votes_of signals)) \<noteq> []
     \<and> (\<exists>a\<in>set (map fst (votes_of signals)). get_weight (w p regime) a \<le> 0)"
proof -
  define u where "u = w p regime"
  define vs where "vs = map fst (votes_of signals)"
  have err: "(\<exists>a\<in>set vs. map_of (renormalized u vs) a = None) \<longleftrightarrow> (\<exists>a\<in>set vs. get_weight u a \<le> 0)"
    if "renormalized u vs \<noteq> []"
    using map_of_renormalized [OF that] by blast
  have "fuse signals regime (Some p) = Inl e \<longleftrightarrow>
      e = KeyError \<and> vs \<noteq> [] \<and> renormalized u vs \<noteq> [] \<and> (\<exists>a\<in>set vs. map_of (renormalized u vs) a = None)"
    unfolding fuse_def Let_def option.case u_def [unfolded w_def, symmetric] vs_def [symmetric] by auto
  also have "\<dots> \<longleftrightarrow> e = KeyError \<and> renormalized u vs \<noteq> [] \<and> (\<exists>a\<in>set vs. get_weight u a \<le> 0)"
    using err by auto
  finally show ?thesis by (simp only: u_def vs_def)
qed

text \<open>
  When fusion fails, exactly: with any weight table, fusing raises if and only if the positive
  weights of the voting agents have a positive sum and some voting agent has no positive weight in the
  regime's row; the error is a \<^verbatim>\<open>KeyError\<close>. The voters are the agents with a direction and a positive
  confidence, in table order.
\<close>

theorem fuse_error_exact:
  "fuse signals regime (Some p) = Inl e \<longleftrightarrow>
     (let w = (case map_of (fp_weights p) regime of Some w \<Rightarrow> w | None \<Rightarrow> weight_row 40 30 30);
          voters = filter (\<lambda>a. case signals a of None \<Rightarrow> False
            | Some s \<Rightarrow> sg_direction s \<noteq> FLAT \<and> 0 < sg_confidence s) DIRECTIONAL_AGENTS
      in e = KeyError \<and> renormalized w voters \<noteq> [] \<and> (\<exists>a\<in>set voters. get_weight w a \<le> 0))"
  unfolding fuse_Inl_iff voters_eq Let_def by (rule refl)

lemma map_filter_cong: "(\<And>x. x \<in> set xs \<Longrightarrow> f x = g x) \<Longrightarrow> List.map_filter f xs = List.map_filter g xs"
  by (induction xs) (auto simp: map_filter_simps split: option.splits)

lemma weight_row_pos:
  assumes "0 < fl (t / 100)" "0 < fl (f / 100)" "0 < fl (s / 100)" "a \<in> set DIRECTIONAL_AGENTS"
  shows "0 < get_weight (weight_row t f s) a"
  using assms by (auto simp: get_weight_def weight_row_def DIRECTIONAL_AGENTS_def)

lemma default_weights_pos:
  assumes "a \<in> set DIRECTIONAL_AGENTS"
  shows "0 < get_weight (case map_of DEFAULT_WEIGHTS regime of Some w \<Rightarrow> w | None \<Rightarrow> weight_row 40 30 30) a"
proof -
  have p: "0 < fl (55 / 100)" "0 < fl (20 / 100)" "0 < fl (25 / 100)" "0 < fl (45 / 100)" "0 < fl (30 / 100)"
    "0 < fl (50 / 100)" "0 < fl (60 / 100)" "0 < fl (40 / 100)" by code_simp+
  note rows = weight_row_pos [OF p(1,2,3) assms] weight_row_pos [OF p(4,5,3) assms] weight_row_pos [OF p(6,3,3) assms]
    weight_row_pos [OF p(7,2,2) assms] weight_row_pos [OF p(8,5,5) assms]
  show ?thesis using rows by (auto simp: DEFAULT_WEIGHTS_def split: option.splits)
qed

lemma fuse_default_Inr:
  assumes "fp_weights p = DEFAULT_WEIGHTS"
  shows "\<exists>r. fuse signals regime (Some p) = Inr r"
proof (cases "fuse signals regime (Some p)")
  case (Inl e)
  then obtain a where "a \<in> set (map fst (votes_of signals))"
    "get_weight (case map_of DEFAULT_WEIGHTS regime of Some w \<Rightarrow> w | None \<Rightarrow> weight_row 40 30 30) a \<le> 0"
    unfolding fuse_Inl_iff assms by blast
  then show ?thesis using default_weights_pos [of a regime] voters_subset by (metis linorder_not_le subsetD)
qed simp

lemma fuse_InrD:
  assumes "fuse signals regime (Some p) = Inr r"
  shows "(r = no_votes_result p \<or> fr_voting_agents r = map fst (votes_of signals))
    \<and> fr_threshold r = fp_threshold p \<and> 0 \<le> fr_confidence r \<and> fr_confidence r \<le> 1
    \<and> fr_direction r = (if fr_voting_agents r = [] then FLAT else direction_for_score (fr_score r) (fp_threshold p))
    \<and> fr_confidence r = min 1 \<bar>fr_score r\<bar>"
  using assms by (auto simp: fuse_def Let_def no_votes_result_def split: if_splits)

text \<open>
  With the shipped weights fusion always answers, for every regime label, known or not, and any
  signals: the voters are a subset of the directional agents in table order, namely those with a
  direction and positive confidence, or none; confidence is the magnitude of the score capped at 1;
  the direction is FLAT without votes and otherwise the threshold's verdict on the score. The regime
  agent's own signal changes nothing.
\<close>

theorem fuse_default_total:
  assumes "fp_weights p = DEFAULT_WEIGHTS"
  shows "\<exists>r. fuse signals regime (Some p) = Inr r
    \<and> (fr_voting_agents r = [] \<or> fr_voting_agents r = filter (\<lambda>a. case signals a of None \<Rightarrow> False
          | Some s \<Rightarrow> sg_direction s \<noteq> FLAT \<and> 0 < sg_confidence s) DIRECTIONAL_AGENTS)
    \<and> 0 \<le> fr_confidence r \<and> fr_confidence r \<le> 1 \<and> fr_confidence r = min 1 \<bar>fr_score r\<bar>
    \<and> fr_direction r = (if fr_voting_agents r = [] then FLAT else direction_for_score (fr_score r) (fp_threshold p))
    \<and> fuse (signals(REGIME_AGENT_ID := s)) regime (Some p) = Inr r"
proof -
  obtain r where r: "fuse signals regime (Some p) = Inr r" using fuse_default_Inr [OF assms] by blast
  have "votes_of (signals(REGIME_AGENT_ID := s)) = votes_of signals"
    unfolding votes_of_def by (intro map_filter_cong) (auto simp: DIRECTIONAL_AGENTS_def REGIME_AGENT_ID_def)
  then have "fuse (signals(REGIME_AGENT_ID := s)) regime (Some p) = Inr r" using r by (simp add: fuse_def)
  then show ?thesis using r fuse_InrD [OF r] by (intro exI [of _ r]) (auto simp: no_votes_result_def voters_eq)
qed

theorem fuse_default_total_witness:
  "\<exists>r. fuse Map.empty ''storm'' (Some default_fusion_params) = Inr r \<and> fr_confidence r \<le> 1"
  using fuse_default_total [of default_fusion_params Map.empty "''storm''"] by (auto simp: default_fusion_params_def)

section \<open>Context\<close>

lemma fuse_flat_agreement:
  assumes "fuse signals regime (Some p) = Inr r" "fr_direction r = FLAT"
  shows "fr_agreement r = 0"
proof -
  have "sign_of (signs_of v) \<noteq> 0" if "(a, v) \<in> set (votes_of signals)" for a v
    using votes_nonzero [OF that] by (auto simp: signs_of_def sign_of_def)
  then have none: "filter (\<lambda>(a, v). sign_of (signs_of v) = 0) (votes_of signals) = []"
    by (auto simp: filter_empty_conv)
  then show ?thesis using assms
    by (auto simp: fuse_def Let_def no_votes_result_def sign_of_def split: if_splits)
qed

lemma apply_context_frame:
  "fr_voting_agents (apply_context r ctx) = fr_voting_agents r" "fr_agreement (apply_context r ctx) = fr_agreement r"
  "fr_weights (apply_context r ctx) = fr_weights r" "fr_threshold (apply_context r ctx) = fr_threshold r"
  by (simp_all add: apply_context_def Let_def split: option.splits)

section \<open>One vote\<close>

definition long_vote :: agent_signal where
  "long_vote = \<lparr>sg_agent_id = ''technical'', sg_version = ''2'', sg_symbol = ''EURUSD'', sg_timeframe = H1,
     sg_direction = LONG, sg_confidence = 1, sg_bucket_ts = 0, sg_rationale = '''', sg_features = [],
     sg_created_at = 0, sg_valid_until = 7200000000, sg_run_id = ''''\<rparr>"

definition shipped_fusion :: "f64 \<Rightarrow> fusion_params" where
  "shipped_fusion h = \<lparr>fp_threshold = fl (15 / 100), fp_hysteresis = h, fp_weights = DEFAULT_WEIGHTS\<rparr>"

definition long_fused :: fused_result where
  "long_fused = \<lparr>fr_score = 1, fr_direction = LONG, fr_confidence = 1, fr_agreement = 1, fr_weights = [(''technical'', 1)],
     fr_voting_agents = [''technical''], fr_threshold = fl (15 / 100), fr_pre_context_score = 0\<rparr>"

lemma fuse_one_vote:
  assumes "votes_of signals = [(''technical'', 1)]"
  shows "fuse signals ''unknown'' (Some (shipped_fusion h)) = Inr long_fused"
proof -
  have w: "map_of DEFAULT_WEIGHTS ''unknown'' = Some (weight_row 40 30 30)" by (simp add: DEFAULT_WEIGHTS_def)
  have r: "renormalized (weight_row 40 30 30) [''technical''] = [(''technical'', 1)]" by code_simp
  have d: "direction_for_score 1 (fl (15 / 100)) = LONG" by code_simp
  have s: "round_nd (py_sum [1 * 1]) 6 = 1" "round_nd (py_sum [1]) 4 = 1" "min 1 \<bar>1 :: f64\<bar> = 1" "signs_of 1 = LONG"
    by code_simp+
  show ?thesis using d assms
    by (simp add: fuse_def shipped_fusion_def long_fused_def Let_def w r get_weight_def s sign_of_def)
qed

lemma fuse_long_vote: "fuse [''technical'' \<mapsto> long_vote] ''unknown'' (Some (shipped_fusion h)) = Inr long_fused"
  by (rule fuse_one_vote)
    (simp add: votes_of_def DIRECTIONAL_AGENTS_def map_filter_simps long_vote_def sign_of_def signed_def not_le)

theorem fuse_mirror_witness:
  "fuse (mirror_signals [''technical'' \<mapsto> long_vote]) ''unknown'' (Some (shipped_fusion 0)) = Inr (mirror_result long_fused)"
proof -
  have "0 < fp_threshold (shipped_fusion 0)" by code_simp
  from fuse_mirror [OF this] show ?thesis by (simp add: fuse_long_vote)
qed

end
