(* ===== verification/Risk.thy ===== *)
theory Risk
  imports Fusion
begin

text \<open>
  The risk agent (\<^verbatim>\<open>app/decisions/risk.py\<close>) and its runtime parameters
  (\<^verbatim>\<open>app/data/risk_config.py\<close>). A gate's \<^verbatim>\<open>detail\<close> string is kept as its template with the values
  formatted into it. \<^verbatim>\<open>float(str)\<close> of an override stored as a string is the argument \<open>float_str\<close>
  (None where it raises); NaN and infinities are not values of \<^typ>\<open>f64\<close>.
\<close>

section \<open>Parameters\<close>

record risk_params =
  max_risk_pct_account :: f64
  max_exposure_pct :: f64
  max_daily_loss_pct :: f64
  max_drawdown_cap_pct :: f64
  min_rr :: f64
  sl_atr_multiple :: f64
  tp_atr_multiple :: f64
  vol_target_pct :: f64
  correlation_cap_pct :: f64
  risk_enabled :: bool
  paper_equity :: f64

type_synonym float_str = "string \<Rightarrow> f64 option"

definition py_float :: "float_str \<Rightarrow> json \<Rightarrow> f64 option" where
  "py_float F v = (case v of JStr s \<Rightarrow> F s | _ \<Rightarrow> json_number v)"

definition clamped :: "float_str \<Rightarrow> json \<Rightarrow> f64 option \<times> f64 option \<Rightarrow> f64 \<Rightarrow> f64" where
  "clamped F value bounds default_value =
     (case py_float F value of None \<Rightarrow> default_value
      | Some parsed \<Rightarrow>
          if (case fst bounds of None \<Rightarrow> False | Some lo \<Rightarrow> parsed < lo) then default_value
          else if (case snd bounds of None \<Rightarrow> False | Some hi \<Rightarrow> hi < parsed) then default_value
          else parsed)"

definition unit_bounds :: "f64 option \<times> f64 option" where "unit_bounds = (Some 0, Some 1)"
definition nonneg_bounds :: "f64 option \<times> f64 option" where "nonneg_bounds = (Some 0, None)"

definition overlay :: "float_str \<Rightarrow> (string \<times> json) list \<Rightarrow> string \<Rightarrow> f64 option \<times> f64 option \<Rightarrow> f64 \<Rightarrow> f64" where
  "overlay F d key bounds default_value =
     (case map_of d key of None \<Rightarrow> default_value | Some v \<Rightarrow> clamped F v bounds default_value)"

text \<open>The loop over \<^verbatim>\<open>_EDITABLE\<close>, written out.\<close>

definition overlay_params :: "float_str \<Rightarrow> (string \<times> json) list \<Rightarrow> risk_params \<Rightarrow> risk_params" where
  "overlay_params F d b =
     b\<lparr>max_risk_pct_account := overlay F d ''max_risk_pct_account'' unit_bounds (max_risk_pct_account b),
       max_exposure_pct := overlay F d ''max_exposure_pct'' unit_bounds (max_exposure_pct b),
       max_daily_loss_pct := overlay F d ''max_daily_loss_pct'' unit_bounds (max_daily_loss_pct b),
       max_drawdown_cap_pct := overlay F d ''max_drawdown_pct'' unit_bounds (max_drawdown_cap_pct b),
       min_rr := overlay F d ''min_rr'' nonneg_bounds (min_rr b),
       sl_atr_multiple := overlay F d ''sl_atr_multiple'' nonneg_bounds (sl_atr_multiple b),
       tp_atr_multiple := overlay F d ''tp_atr_multiple'' nonneg_bounds (tp_atr_multiple b),
       vol_target_pct := overlay F d ''vol_target_pct'' unit_bounds (vol_target_pct b),
       correlation_cap_pct := overlay F d ''correlation_cap_pct'' unit_bounds (correlation_cap_pct b)\<rparr>"

text \<open>The row of \<^verbatim>\<open>system_settings\<close>: absent, not a dictionary, or a dictionary.\<close>

definition load_risk_params :: "float_str \<Rightarrow> risk_params \<Rightarrow> json option \<Rightarrow> risk_params" where
  "load_risk_params F base row = (case row of Some (JDict d) \<Rightarrow> overlay_params F d base | _ \<Rightarrow> base)"

definition stored_params :: "risk_params \<Rightarrow> json" where
  "stored_params r = JDict
     [(''max_risk_pct_account'', JFloat (max_risk_pct_account r)), (''max_exposure_pct'', JFloat (max_exposure_pct r)),
      (''max_daily_loss_pct'', JFloat (max_daily_loss_pct r)), (''max_drawdown_pct'', JFloat (max_drawdown_cap_pct r)),
      (''min_rr'', JFloat (min_rr r)), (''sl_atr_multiple'', JFloat (sl_atr_multiple r)),
      (''tp_atr_multiple'', JFloat (tp_atr_multiple r)), (''vol_target_pct'', JFloat (vol_target_pct r)),
      (''correlation_cap_pct'', JFloat (correlation_cap_pct r))]"

definition set_risk_params :: "float_str \<Rightarrow> risk_params \<Rightarrow> (string \<times> json) list \<Rightarrow> json option \<Rightarrow> risk_params \<times> json option" where
  "set_risk_params F base updates row =
     (let r = overlay_params F updates (load_risk_params F base row) in (r, Some (stored_params r)))"

section \<open>Gates\<close>

record sizing_result =
  position_size_units :: f64
  sz_stop_loss :: f64
  sz_take_profit :: f64
  rr_ratio :: f64
  risk_pct_account :: f64
  sz_atr :: f64
  sz_price :: f64

record gate_state =
  exposure_used_pct :: f64
  correlation_used_pct :: f64
  daily_loss_used_pct :: f64
  drawdown_used_pct :: f64
  gs_correlation_triggered :: bool

datatype gate_detail = FlatDetail | NoSizing | NoSizingShort | RrDetail f64 f64 | CapDetail string f64 f64

record gate_reason =
  gr_code :: string
  gr_ok :: bool
  gr_detail :: gate_detail

record risk_outcome =
  ro_passed :: bool
  ro_sizing :: "sizing_result option"
  ro_gates :: "(string \<times> gate_reason) list"
  ro_paper :: bool

definition GATE_KEYS :: "string list" where
  "GATE_KEYS = [''rr'', ''exposure'', ''correlation'', ''daily_loss'', ''drawdown'']"

definition outcome_reasons :: "risk_outcome \<Rightarrow> gate_reason list" where
  "outcome_reasons r = map snd (ro_gates r)"

definition compute_sizing :: "f64 \<Rightarrow> f64 \<Rightarrow> direction \<Rightarrow> risk_params \<Rightarrow> sizing_result" where
  "compute_sizing price atr dir params =
     (let s = sign_of dir;
          sl_distance = sl_atr_multiple params * atr;
          tp_distance = tp_atr_multiple params * atr;
          stop_loss = round_nd (price - signed s sl_distance) 8;
          take_profit = round_nd (price + signed s tp_distance) 8;
          rr = (if 0 < sl_distance then round_nd (tp_distance / sl_distance) 4 else 0);
          risk_amount = paper_equity params * max_risk_pct_account params;
          units_by_risk = (if 0 < sl_distance then risk_amount / sl_distance else 0);
          notional_cap = paper_equity params * max_exposure_pct params;
          units_by_exposure = (if 0 < price then notional_cap / price else 0);
          units = round_nd (min units_by_risk units_by_exposure) 6;
          candidate_notional = units * price;
          risk_pct = (if paper_equity params \<noteq> 0
            then round_nd (candidate_notional * sl_distance / paper_equity params) 4 else 0)
      in \<lparr>position_size_units = units, sz_stop_loss = stop_loss, sz_take_profit = take_profit, rr_ratio = rr,
          risk_pct_account = min risk_pct 1, sz_atr = atr, sz_price = price\<rparr>)"

definition mk_reason :: "string \<Rightarrow> bool \<Rightarrow> gate_detail \<Rightarrow> gate_reason" where
  "mk_reason code ok detail = \<lparr>gr_code = code, gr_ok = ok, gr_detail = detail\<rparr>"

definition assess :: "direction \<Rightarrow> f64 option \<Rightarrow> f64 option \<Rightarrow> gate_state \<Rightarrow> risk_params \<Rightarrow> risk_outcome" where
  "assess dir atr price gate params =
     (if dir = FLAT then
        \<lparr>ro_passed = True, ro_sizing = None,
         ro_gates = map (\<lambda>k. (k, mk_reason k True FlatDetail)) GATE_KEYS @ [(''flat'', mk_reason ''flat'' True FlatDetail)],
         ro_paper = False\<rparr>
      else case (atr, price) of
        (Some a, Some x) \<Rightarrow>
          if a \<le> 0 \<or> x \<le> 0 then
            \<lparr>ro_passed = False, ro_sizing = None,
             ro_gates = map (\<lambda>k. (k, mk_reason k False NoSizing)) GATE_KEYS
               @ [(''sizing'', mk_reason ''sizing_impossible'' False NoSizingShort)], ro_paper = False\<rparr>
          else
            let sizing = compute_sizing x a dir params;
                risk1 = max_risk_pct_account params;
                gates =
                  [(''rr'', mk_reason ''rr'' (min_rr params \<le> rr_ratio sizing) (RrDetail (rr_ratio sizing) (min_rr params))),
                   (''exposure'', mk_reason ''exposure''
                      (exposure_used_pct gate + risk1 \<le> max_exposure_pct params)
                      (CapDetail ''exposure'' (exposure_used_pct gate) (max_exposure_pct params))),
                   (''correlation'', mk_reason ''correlation''
                      (\<not> gs_correlation_triggered gate \<or> correlation_used_pct gate + risk1 \<le> correlation_cap_pct params)
                      (CapDetail ''corr_basket'' (correlation_used_pct gate) (correlation_cap_pct params))),
                   (''daily_loss'', mk_reason ''daily_loss''
                      (daily_loss_used_pct gate + risk1 \<le> max_daily_loss_pct params)
                      (CapDetail ''daily_loss'' (daily_loss_used_pct gate) (max_daily_loss_pct params))),
                   (''drawdown'', mk_reason ''drawdown''
                      (drawdown_used_pct gate + risk1 \<le> max_drawdown_cap_pct params)
                      (CapDetail ''drawdown'' (drawdown_used_pct gate) (max_drawdown_cap_pct params)))];
                all_ok = (\<forall>g\<in>set gates. gr_ok (snd g))
            in \<lparr>ro_passed = all_ok, ro_sizing = Some sizing, ro_gates = gates, ro_paper = all_ok \<and> risk_enabled params\<rparr>
      | _ \<Rightarrow>
          \<lparr>ro_passed = False, ro_sizing = None,
           ro_gates = map (\<lambda>k. (k, mk_reason k False NoSizing)) GATE_KEYS
             @ [(''sizing'', mk_reason ''sizing_impossible'' False NoSizingShort)], ro_paper = False\<rparr>)"

section \<open>Overrides\<close>

lemma clamped_bounds:
  "clamped F v b x = x \<or> ((\<forall>l. fst b = Some l \<longrightarrow> l \<le> clamped F v b x) \<and> (\<forall>h. snd b = Some h \<longrightarrow> clamped F v b x \<le> h))"
  by (auto simp: clamped_def not_less split: option.splits)

lemma clamped_stored:
  "clamped F (JFloat y) b x = (if (\<forall>l. fst b = Some l \<longrightarrow> l \<le> y) \<and> (\<forall>h. snd b = Some h \<longrightarrow> y \<le> h) then y else x)"
  by (auto simp: clamped_def py_float_def json_number_def not_less not_le split: option.splits)

text \<open>A value that came from an overlay of \<open>x\<close>, or an overlay of that, reads back from its stored form.\<close>

lemma clamped_overlay: "clamped F (JFloat (overlay F d k b x)) b x = overlay F d k b x"
proof (cases "map_of d k")
  case (Some v)
  then show ?thesis using clamped_bounds [of F v b x] by (auto simp: clamped_stored overlay_def)
qed (simp add: clamped_stored overlay_def)

lemma clamped_overlay2: "clamped F (JFloat (overlay F d k b (overlay F d' k' b x))) b x = overlay F d k b (overlay F d' k' b x)"
  using clamped_overlay [of F d k b "overlay F d' k' b x"] clamped_overlay [of F d' k' b x]
  by (auto simp: clamped_stored split: if_splits)

definition fractions_ok :: "risk_params \<Rightarrow> bool" where
  "fractions_ok r = (\<forall>f\<in>{max_risk_pct_account, max_exposure_pct, max_daily_loss_pct, max_drawdown_cap_pct,
      vol_target_pct, correlation_cap_pct}. 0 \<le> f r \<and> f r \<le> 1)"

lemma overlay_unit: "0 \<le> x \<Longrightarrow> x \<le> 1 \<Longrightarrow> 0 \<le> overlay F d k unit_bounds x \<and> overlay F d k unit_bounds x \<le> 1"
proof (cases "map_of d k")
  case (Some v)
  then show "0 \<le> x \<Longrightarrow> x \<le> 1 \<Longrightarrow> ?thesis"
    using clamped_bounds [of F v "(Some 0, Some 1)" x] by (auto simp: overlay_def unit_bounds_def)
qed (simp add: overlay_def)

lemma overlay_params_Nil [simp]: "overlay_params F [] b = b"
  by (simp add: overlay_params_def overlay_def)

lemma load_is_overlay: "\<exists>d. load_risk_params F base row = overlay_params F d base"
proof (cases row)
  case None
  then show ?thesis by (intro exI [of _ "[]"]) (simp add: load_risk_params_def)
next
  case (Some j)
  show ?thesis
  proof (cases j)
    case (JDict d)
    then show ?thesis by (intro exI [of _ d]) (simp add: load_risk_params_def Some)
  qed (intro exI [of _ "[]"], simp add: load_risk_params_def Some)+
qed

text \<open>
  Overrides are safe and durable: whatever an administrator posts (wrong types, unparsable
  strings, out-of-range numbers) over whatever the settings row holds, the resulting parameters have
  every fraction in [0, 1] when the environment's are, the switch and the equity are the
  environment's, and loading the row just written gives back exactly these parameters.
\<close>

theorem risk_params_roundtrip:
  "(case set_risk_params F base updates row of (r, row') \<Rightarrow>
      load_risk_params F base row' = r \<and> risk_enabled r = risk_enabled base \<and> paper_equity r = paper_equity base)
   \<and> (fractions_ok base \<longrightarrow> fractions_ok (fst (set_risk_params F base updates row))
        \<and> fractions_ok (load_risk_params F base row))"
proof -
  obtain d where d: "load_risk_params F base row = overlay_params F d base" using load_is_overlay by blast
  have frac: "fractions_ok (overlay_params F e b)" if "fractions_ok b" for e b
    using that overlay_unit by (simp add: fractions_ok_def overlay_params_def)
  let ?r = "overlay_params F updates (overlay_params F d base)"
  have "load_risk_params F base (Some (stored_params ?r)) = ?r"
    by (simp add: load_risk_params_def stored_params_def overlay_params_def clamped_overlay2 overlay_def [of F "_ # _"])
  moreover have "risk_enabled ?r = risk_enabled base" "paper_equity ?r = paper_equity base"
    by (simp_all add: overlay_params_def)
  ultimately show ?thesis using frac unfolding set_risk_params_def d Let_def by simp
qed

theorem risk_params_roundtrip_witness:
  "fractions_ok \<lparr>max_risk_pct_account = 0, max_exposure_pct = 1, max_daily_loss_pct = 0, max_drawdown_cap_pct = 1,
      min_rr = 1, sl_atr_multiple = 1, tp_atr_multiple = 1, vol_target_pct = 1, correlation_cap_pct = 1,
      risk_enabled = True, paper_equity = 1\<rparr>
   \<and> fractions_ok (load_risk_params (\<lambda>_. None) \<lparr>max_risk_pct_account = 0, max_exposure_pct = 1, max_daily_loss_pct = 0,
      max_drawdown_cap_pct = 1, min_rr = 1, sl_atr_multiple = 1, tp_atr_multiple = 1, vol_target_pct = 1,
      correlation_cap_pct = 1, risk_enabled = True, paper_equity = 1\<rparr> (Some (JDict [(''max_exposure_pct'', JInt 7)])))"
  (is "fractions_ok ?b \<and> fractions_ok (load_risk_params ?F _ ?row)")
proof -
  have "fractions_ok ?b" by (simp add: fractions_ok_def)
  with risk_params_roundtrip [of ?F ?b "[]" ?row] show ?thesis by blast
qed

section \<open>The gates\<close>

definition gates_open :: "gate_state \<Rightarrow> risk_params \<Rightarrow> bool" where
  "gates_open g p =
     (exposure_used_pct g + max_risk_pct_account p \<le> max_exposure_pct p
      \<and> (gs_correlation_triggered g \<longrightarrow> correlation_used_pct g + max_risk_pct_account p \<le> correlation_cap_pct p)
      \<and> daily_loss_used_pct g + max_risk_pct_account p \<le> max_daily_loss_pct p
      \<and> drawdown_used_pct g + max_risk_pct_account p \<le> max_drawdown_cap_pct p)"

lemma assess_passed_iff:
  "ro_passed (assess dir atr price g p) \<longleftrightarrow> dir = FLAT \<or>
     (\<exists>a x. atr = Some a \<and> price = Some x \<and> 0 < a \<and> 0 < x \<and> min_rr p \<le> rr_ratio (compute_sizing x a dir p) \<and> gates_open g p)"
  by (auto simp: assess_def Let_def mk_reason_def gates_open_def not_le split: option.splits)

lemma assess_paper_iff:
  "ro_paper (assess dir atr price g p) \<longleftrightarrow> dir \<noteq> FLAT \<and> risk_enabled p \<and> ro_passed (assess dir atr price g p)"
  by (auto simp: assess_def Let_def mk_reason_def split: option.splits)

lemma assess_sizing:
  "ro_sizing (assess dir atr price g p) =
     (if dir = FLAT then None else case (atr, price) of
        (Some a, Some x) \<Rightarrow> if 0 < a \<and> 0 < x then Some (compute_sizing x a dir p) else None | _ \<Rightarrow> None)"
  by (auto simp: assess_def Let_def not_le split: option.splits)

text \<open>
  C6. The risk gate fails closed: a paper intent comes out if and only if risk is enabled, the
  direction is LONG or SHORT, ATR and price are known and positive, the reward/risk ratio reaches its
  minimum and all four caps hold with the new risk added; it then carries the sizing for that ATR and
  price. A missing or non-positive ATR or price fails every gate, whatever the rest.
\<close>

theorem assess_fails_closed:
  "(ro_paper (assess dir atr price g p) \<longleftrightarrow>
      (\<exists>a x. atr = Some a \<and> price = Some x \<and> 0 < a \<and> 0 < x \<and> dir \<noteq> FLAT \<and> risk_enabled p
        \<and> min_rr p \<le> rr_ratio (compute_sizing x a dir p) \<and> gates_open g p
        \<and> ro_sizing (assess dir atr price g p) = Some (compute_sizing x a dir p)))
   \<and> (dir \<noteq> FLAT \<and> (\<forall>a x. atr = Some a \<and> price = Some x \<longrightarrow> a \<le> 0 \<or> x \<le> 0) \<longrightarrow>
        \<not> ro_passed (assess dir atr price g p) \<and> ro_sizing (assess dir atr price g p) = None
        \<and> (\<forall>r\<in>set (outcome_reasons (assess dir atr price g p)). \<not> gr_ok r))"
proof -
  have "\<not> gr_ok r" if "dir \<noteq> FLAT" "\<forall>a x. atr = Some a \<and> price = Some x \<longrightarrow> a \<le> 0 \<or> x \<le> 0"
    "r \<in> set (outcome_reasons (assess dir atr price g p))" for r
    using that by (auto simp: assess_def outcome_reasons_def mk_reason_def split: option.splits)
  then show ?thesis
    by (auto simp: assess_paper_iff assess_passed_iff assess_sizing not_le split: option.splits)
qed

theorem assess_fails_closed_witness:
  "\<forall>g p. \<not> ro_passed (assess LONG None (Some 1) g p) \<and> ro_sizing (assess LONG None (Some 1) g p) = None"
  using assess_fails_closed [of LONG None "Some 1"] by simp

text \<open>
  Less exposure never blocks: if a candidate passes in one account state it passes in every
  state that uses no more of any cap and is not newly correlated.
\<close>

theorem assess_monotone:
  assumes "ro_passed (assess dir atr price g p)"
    "exposure_used_pct g' \<le> exposure_used_pct g" "correlation_used_pct g' \<le> correlation_used_pct g"
    "daily_loss_used_pct g' \<le> daily_loss_used_pct g" "drawdown_used_pct g' \<le> drawdown_used_pct g"
    "gs_correlation_triggered g' \<longrightarrow> gs_correlation_triggered g"
  shows "ro_passed (assess dir atr price g' p) \<and> ro_paper (assess dir atr price g' p) = ro_paper (assess dir atr price g p)
    \<and> ro_sizing (assess dir atr price g' p) = ro_sizing (assess dir atr price g p)"
proof -
  have step: "x' + r \<le> c" if "x' \<le> x" "x + r \<le> c" for x x' r c :: f64
    using f64_add_mono [OF that(1) order_refl, of r] that(2) by simp
  have "gates_open g p \<Longrightarrow> gates_open g' p"
    using assms(2-) step by (auto simp: gates_open_def)
  with assms(1) show ?thesis by (auto simp: assess_paper_iff assess_passed_iff assess_sizing)
qed

section \<open>Sizing\<close>

lemma signed_simps [simp]: "signed 1 x = x" "signed (- 1) x = - x" "signed 0 x = 0"
  by (simp_all add: signed_def fl_minus)

lemma f64_diff_uminus: "a - - b = a + (b :: f64)" "a + - b = a - (b :: f64)"
  by (simp_all add: f64_eq_iff f64_rep)

text \<open>
  Sizing stays inside both budgets and on the right side: with non-negative multiples, equity
  and caps and a positive ATR and price, the position size is not negative and at most the risk
  budget over the stop distance and the exposure cap over the price (each rounded to 6 digits), the
  stop of a LONG is not above and its target not below the price rounded to 8 digits, and of a SHORT
  the other way round.
\<close>

theorem sizing_bounds:
  assumes "0 < price" "0 \<le> atr" "0 \<le> sl_atr_multiple p" "0 \<le> tp_atr_multiple p" "0 \<le> paper_equity p"
    "0 \<le> max_risk_pct_account p" "0 \<le> max_exposure_pct p"
  shows "(let z = compute_sizing price atr dir p; sl = sl_atr_multiple p * atr in
     0 \<le> position_size_units z
     \<and> position_size_units z \<le> round_nd (paper_equity p * max_exposure_pct p / price) 6
     \<and> (0 < sl \<longrightarrow> position_size_units z \<le> round_nd (paper_equity p * max_risk_pct_account p / sl) 6)
     \<and> (dir = LONG \<longrightarrow> sz_stop_loss z \<le> round_nd price 8 \<and> round_nd price 8 \<le> sz_take_profit z)
     \<and> (dir = SHORT \<longrightarrow> sz_take_profit z \<le> round_nd price 8 \<and> round_nd price 8 \<le> sz_stop_loss z))"
proof -
  let ?sl = "sl_atr_multiple p * atr" and ?tp = "tp_atr_multiple p * atr"
  have d: "0 \<le> ?sl" "0 \<le> ?tp" using assms by (simp_all add: f64_mult_nonneg)
  have "0 \<le> paper_equity p * max_exposure_pct p / price" "0 \<le> paper_equity p * max_risk_pct_account p / ?sl"
    using assms d by (auto intro!: f64_div_nonneg f64_mult_nonneg)
  moreover have "price - ?sl \<le> price" "price - ?tp \<le> price" "price \<le> price + ?sl" "price \<le> price + ?tp"
    using d by (auto intro: f64_diff_le f64_add_increasing)
  ultimately show ?thesis using assms(1)
    by (auto simp: compute_sizing_def Let_def sign_of_def f64_diff_uminus intro!: round_nd_nonneg round_nd_mono)
qed

definition default_risk_params :: risk_params where
  "default_risk_params =
     \<lparr>max_risk_pct_account = fl (1 / 100), max_exposure_pct = fl (30 / 100), max_daily_loss_pct = fl (3 / 100),
      max_drawdown_cap_pct = fl (10 / 100), min_rr = fl (15 / 10), sl_atr_multiple = fl (15 / 10),
      tp_atr_multiple = fl (25 / 10), vol_target_pct = fl (20 / 100), correlation_cap_pct = fl (15 / 100),
      risk_enabled = True, paper_equity = fl 100000\<rparr>"

theorem sizing_bounds_witness:
  "0 \<le> position_size_units (compute_sizing (fl 150) (fl (1 / 2)) LONG default_risk_params)"
proof -
  have "0 < fl 150" "0 \<le> fl (1 / 2)" "0 \<le> fl (15 / 10)" "0 \<le> fl (25 / 10)" "0 \<le> fl 100000" "0 \<le> fl (1 / 100)" "0 \<le> fl (30 / 100)"
    by code_simp+
  with sizing_bounds [of "fl 150" "fl (1 / 2)" default_risk_params LONG] show ?thesis
    by (simp add: default_risk_params_def Let_def)
qed

lemma sizing_fields:
  "position_size_units (compute_sizing x a d p) =
     round_nd (min (if 0 < sl_atr_multiple p * a then paper_equity p * max_risk_pct_account p / (sl_atr_multiple p * a) else 0)
       (if 0 < x then paper_equity p * max_exposure_pct p / x else 0)) 6"
  "rr_ratio (compute_sizing x a d p) = (if 0 < sl_atr_multiple p * a
     then round_nd (tp_atr_multiple p * a / (sl_atr_multiple p * a)) 4 else 0)"
  "risk_pct_account (compute_sizing x a d p) = min (if paper_equity p \<noteq> 0
     then round_nd (position_size_units (compute_sizing x a d p) * x * (sl_atr_multiple p * a) / paper_equity p) 4 else 0) 1"
  "sz_price (compute_sizing x a d p) = x" "sz_atr (compute_sizing x a d p) = a"
  by (simp_all add: compute_sizing_def Let_def)

lemma sizing_examples:
  "position_size_units (compute_sizing 1 (fl (1 / 1000)) LONG default_risk_params) = fl 30000"
  "position_size_units (compute_sizing (fl 150) (fl (1 / 2)) LONG default_risk_params) = fl 200"
  unfolding sizing_fields default_risk_params_def risk_params.simps by code_simp+

definition busy_gate :: gate_state where
  "busy_gate = \<lparr>exposure_used_pct = fl (20 / 100), correlation_used_pct = 0, daily_loss_used_pct = 0,
     drawdown_used_pct = 0, gs_correlation_triggered = False\<rparr>"

lemma busy_gate_passes:
  "ro_passed (assess LONG (Some (fl (1 / 1000))) (Some 1) busy_gate default_risk_params)"
  "ro_paper (assess LONG (Some (fl (1 / 1000))) (Some 1) busy_gate default_risk_params)"
proof -
  have "fl (15 / 10) \<le> rr_ratio (compute_sizing 1 (fl (1 / 1000)) LONG default_risk_params)" "0 < fl (1 / 1000)"
    unfolding sizing_fields default_risk_params_def risk_params.simps by code_simp+
  moreover have "fl (20 / 100) + fl (1 / 100) \<le> fl (30 / 100)" "fl (1 / 100) \<le> fl (3 / 100)" "fl (1 / 100) \<le> fl (10 / 100)"
    by code_simp+
  moreover have "min_rr default_risk_params = fl (15 / 10)" "risk_enabled default_risk_params"
    "max_risk_pct_account default_risk_params = fl (1 / 100)" "max_exposure_pct default_risk_params = fl (30 / 100)"
    "max_daily_loss_pct default_risk_params = fl (3 / 100)" "max_drawdown_cap_pct default_risk_params = fl (10 / 100)"
    by (simp_all add: default_risk_params_def)
  ultimately show "ro_passed (assess LONG (Some (fl (1 / 1000))) (Some 1) busy_gate default_risk_params)"
    "ro_paper (assess LONG (Some (fl (1 / 1000))) (Some 1) busy_gate default_risk_params)"
    by (simp_all add: busy_gate_def assess_paper_iff assess_passed_iff gates_open_def)
qed

definition idle_gate :: gate_state where
  "idle_gate = \<lparr>exposure_used_pct = 0, correlation_used_pct = 0, daily_loss_used_pct = 0,
     drawdown_used_pct = 0, gs_correlation_triggered = False\<rparr>"

lemma idle_gate_passes:
  "ro_passed (assess LONG (Some (fl (1 / 1000))) (Some 1) idle_gate default_risk_params)"
  "ro_paper (assess LONG (Some (fl (1 / 1000))) (Some 1) idle_gate default_risk_params)"
proof -
  have "fl (15 / 10) \<le> rr_ratio (compute_sizing 1 (fl (1 / 1000)) LONG default_risk_params)" "0 < fl (1 / 1000)"
    unfolding sizing_fields default_risk_params_def risk_params.simps by code_simp+
  moreover have "fl (1 / 100) \<le> fl (30 / 100)" "fl (1 / 100) \<le> fl (3 / 100)" "fl (1 / 100) \<le> fl (10 / 100)"
    by code_simp+
  moreover have "min_rr default_risk_params = fl (15 / 10)" "risk_enabled default_risk_params"
    "max_risk_pct_account default_risk_params = fl (1 / 100)" "max_exposure_pct default_risk_params = fl (30 / 100)"
    "max_daily_loss_pct default_risk_params = fl (3 / 100)" "max_drawdown_cap_pct default_risk_params = fl (10 / 100)"
    by (simp_all add: default_risk_params_def)
  ultimately show "ro_passed (assess LONG (Some (fl (1 / 1000))) (Some 1) idle_gate default_risk_params)"
    "ro_paper (assess LONG (Some (fl (1 / 1000))) (Some 1) idle_gate default_risk_params)"
    by (simp_all add: idle_gate_def assess_paper_iff assess_passed_iff gates_open_def)
qed

theorem assess_monotone_witness:
  "ro_passed (assess LONG (Some (fl (1 / 1000))) (Some 1) (busy_gate\<lparr>exposure_used_pct := 0\<rparr>) default_risk_params)"
proof -
  have "0 \<le> fl (20 / 100)" by code_simp
  with assess_monotone [OF busy_gate_passes(1), of "busy_gate\<lparr>exposure_used_pct := 0\<rparr>"] show ?thesis
    by (simp add: busy_gate_def)
qed

text \<open>
  What the gates do not bound, with the shipped parameters. The exposure gate adds the risk
  budget, not the new position's notional, to the exposure in use: at 20\<open>%\<close> used it approves a position
  of another 30\<open>%\<close>, past the 30\<open>%\<close> cap. And the recorded account risk multiplies the stop distance by
  the notional instead of the units: a position that loses 0.15\<open>%\<close> at its stop is recorded as 22.5\<open>%\<close>.
\<close>

theorem gates_do_not_bound_exposure:
  "let z = compute_sizing 1 (fl (1 / 1000)) LONG default_risk_params;
       j = compute_sizing (fl 150) (fl (1 / 2)) LONG default_risk_params in
   exposure_used_pct busy_gate = fl (20 / 100)
   \<and> ro_paper (assess LONG (Some (fl (1 / 1000))) (Some 1) busy_gate default_risk_params)
   \<and> exposure_used_pct busy_gate + position_size_units z * sz_price z / paper_equity default_risk_params = fl (50 / 100)
   \<and> position_size_units j * (sl_atr_multiple default_risk_params * fl (1 / 2)) / paper_equity default_risk_params = fl (15 / 10000)
   \<and> risk_pct_account j = fl (225 / 1000)"
proof -
  have caps: "fl (20 / 100) + fl 30000 * 1 / fl 100000 = fl (50 / 100)" "fl 200 * (fl (15 / 10) * fl (1 / 2)) / fl 100000 = fl (15 / 10000)"
    "fl 100000 \<noteq> 0" "min (round_nd (fl 200 * fl 150 * (fl (3 / 2) * fl (1 / 2)) / fl 100000) 4) 1 = fl (225 / 1000)"
    by code_simp+
  have "paper_equity default_risk_params = fl 100000" "sl_atr_multiple default_risk_params = fl (15 / 10)"
    "exposure_used_pct busy_gate = fl (20 / 100)"
    by (simp_all add: default_risk_params_def busy_gate_def)
  with caps busy_gate_passes(2) show ?thesis
    by (simp add: Let_def sizing_examples sizing_fields(3-5))
qed

end
