(* ===== verification/MarketData.thy ===== *)
theory MarketData
  imports Timeframes
begin

text \<open>
  Instruments and candles (\<^verbatim>\<open>app/data/repository.py\<close>, \<^verbatim>\<open>app/models/instrument.py\<close>,
  \<^verbatim>\<open>app/models/candle.py\<close>, \<open>Candle\<close> of \<^verbatim>\<open>app/data/providers/base.py\<close>). The two tables are lists of
  rows; a fresh primary key is an argument. Prices are decimals.
\<close>

record instrument =
  i_id :: uuid
  i_symbol :: string
  i_base :: string
  i_quote :: string
  i_pip_size :: rat
  i_price_decimals :: nat
  i_active :: bool

record candle =
  cd_symbol :: string
  cd_timeframe :: timeframe
  cd_bucket_start :: datetime
  cd_open :: rat
  cd_high :: rat
  cd_low :: rat
  cd_close :: rat
  cd_volume :: int
  cd_complete :: bool

record candle_row =
  k_instrument_id :: uuid
  k_timeframe :: timeframe
  k_ts :: datetime
  k_open :: rat
  k_high :: rat
  k_low :: rat
  k_close :: rat
  k_volume :: int
  k_source :: string
  k_complete :: bool
  k_tf_minutes :: int

record market =
  instruments :: "instrument list"
  candle_rows :: "candle_row list"

definition validate_candle :: "candle \<Rightarrow> py_error + unit" where
  "validate_candle c =
     (if \<not> (cd_low c \<le> cd_open c \<and> cd_open c \<le> cd_high c \<and> cd_low c \<le> cd_close c \<and> cd_close c \<le> cd_high c)
      then Inl ValueError else Inr ())"

section \<open>Instruments\<close>

definition ends_with :: "string \<Rightarrow> string \<Rightarrow> bool" where
  "ends_with s suffix = (length suffix \<le> length s \<and> drop (length s - length suffix) s = suffix)"

definition pip_size_for :: "string \<Rightarrow> rat" where
  "pip_size_for symbol = (if ends_with symbol ''JPY'' then 1 / 100 else 1 / 10000)"

definition price_decimals_for :: "string \<Rightarrow> nat" where
  "price_decimals_for symbol = (if ends_with symbol ''JPY'' then 3 else 5)"

definition normalize_symbol :: "string \<Rightarrow> string" where
  "normalize_symbol symbol = upper (strip symbol)"

definition find_instrument :: "string \<Rightarrow> market \<Rightarrow> instrument option" where
  "find_instrument symbol m = find (\<lambda>i. i_symbol i = symbol) (instruments m)"

definition get_or_create_instrument :: "uuid \<Rightarrow> string \<Rightarrow> market \<Rightarrow> instrument \<times> market" where
  "get_or_create_instrument new_id symbol m =
     (let normalized = normalize_symbol symbol in
      case find_instrument normalized m of
        Some i \<Rightarrow> (i, m)
      | None \<Rightarrow>
          let i = \<lparr>i_id = new_id, i_symbol = normalized, i_base = take 3 normalized,
                   i_quote = take 3 (drop 3 normalized), i_pip_size = pip_size_for normalized,
                   i_price_decimals = price_decimals_for normalized, i_active = True\<rparr>
          in (i, m\<lparr>instruments := instruments m @ [i]\<rparr>))"

text \<open>\<^verbatim>\<open>ensure_instruments\<close> and \<^verbatim>\<open>seed_instruments\<close>: one fresh id per symbol.\<close>

fun ensure_instruments :: "(uuid \<times> string) list \<Rightarrow> market \<Rightarrow> (string \<times> instrument) list \<times> market" where
  "ensure_instruments [] m = ([], m)"
| "ensure_instruments ((i, s) # ss) m =
     (let (ins, m1) = get_or_create_instrument i s m; (d, m2) = ensure_instruments ss m1
      in ((s, ins) # d, m2))"

definition list_active_instruments :: "market \<Rightarrow> instrument list" where
  "list_active_instruments m = filter i_active (instruments m)"

section \<open>Candles\<close>

definition series :: "uuid \<Rightarrow> timeframe \<Rightarrow> market \<Rightarrow> candle_row list" where
  "series iid tf m = filter (\<lambda>k. k_instrument_id k = iid \<and> k_timeframe k = tf) (candle_rows m)"

definition count_candles :: "uuid \<Rightarrow> timeframe \<Rightarrow> market \<Rightarrow> nat" where
  "count_candles iid tf m = length (series iid tf m)"

definition last_closed_ts :: "uuid \<Rightarrow> timeframe \<Rightarrow> market \<Rightarrow> datetime option" where
  "last_closed_ts iid tf m =
     (case rev (sort (map k_ts (series iid tf m))) of [] \<Rightarrow> None | t # _ \<Rightarrow> Some t)"

definition first_closed_ts :: "uuid \<Rightarrow> timeframe \<Rightarrow> market \<Rightarrow> datetime option" where
  "first_closed_ts iid tf m = (case sort (map k_ts (series iid tf m)) of [] \<Rightarrow> None | t # _ \<Rightarrow> Some t)"

definition load_candles ::
  "uuid \<Rightarrow> timeframe \<Rightarrow> datetime option \<Rightarrow> datetime option \<Rightarrow> nat \<Rightarrow> market \<Rightarrow> candle_row list" where
  "load_candles iid tf start end limit m =
     take limit (sort_key k_ts (filter (\<lambda>k. (case start of None \<Rightarrow> True | Some s \<Rightarrow> s \<le> k_ts k)
        \<and> (case end of None \<Rightarrow> True | Some e \<Rightarrow> k_ts k < e)) (series iid tf m)))"

text \<open>\<^verbatim>\<open>unique_candles.setdefault(bucket, candle)\<close>: the first bar of a bucket is kept.\<close>

definition set_default :: "datetime \<Rightarrow> candle \<Rightarrow> (datetime \<times> candle) list \<Rightarrow> (datetime \<times> candle) list" where
  "set_default k c d = (if map_of d k = None then d @ [(k, c)] else d)"

definition unique_candles :: "timeframe \<Rightarrow> candle list \<Rightarrow> (datetime \<times> candle) list" where
  "unique_candles tf cs = foldl (\<lambda>d c. set_default (align_to_bucket (cd_bucket_start c) tf) c d) [] cs"

definition same_key :: "uuid \<Rightarrow> timeframe \<Rightarrow> datetime \<Rightarrow> candle_row \<Rightarrow> bool" where
  "same_key iid tf ts k = (k_instrument_id k = iid \<and> k_timeframe k = tf \<and> k_ts k = ts)"

text \<open>One \<^verbatim>\<open>INSERT .. ON CONFLICT DO UPDATE\<close>.\<close>

definition upsert_one :: "uuid \<Rightarrow> timeframe \<Rightarrow> string \<Rightarrow> datetime \<Rightarrow> candle \<Rightarrow> market \<Rightarrow> market" where
  "upsert_one iid tf source ts c m =
     (if \<exists>k\<in>set (candle_rows m). same_key iid tf ts k then
        m\<lparr>candle_rows := map (\<lambda>k. if same_key iid tf ts k then
            k\<lparr>k_open := cd_open c, k_high := cd_high c, k_low := cd_low c, k_close := cd_close c,
              k_volume := cd_volume c, k_source := source, k_complete := k_complete k \<or> cd_complete c\<rparr> else k)
          (candle_rows m)\<rparr>
      else
        m\<lparr>candle_rows := candle_rows m @ [\<lparr>k_instrument_id = iid, k_timeframe = tf, k_ts = ts, k_open = cd_open c,
            k_high = cd_high c, k_low = cd_low c, k_close = cd_close c, k_volume = cd_volume c,
            k_source = source, k_complete = cd_complete c, k_tf_minutes = tf_seconds tf div 60\<rparr>]\<rparr>)"

definition upsert_candles :: "uuid \<Rightarrow> candle list \<Rightarrow> string \<Rightarrow> timeframe \<Rightarrow> market \<Rightarrow> (nat \<times> nat) \<times> market" where
  "upsert_candles iid cs source tf m =
     (if cs = [] then ((0, 0), m)
      else
        let unique = unique_candles tf cs;
            m' = foldl (\<lambda>m (bucket, c). upsert_one iid tf source bucket c m) m unique;
            inserted = count_candles iid tf m' - count_candles iid tf m
        in ((inserted, length unique - inserted), m'))"

section \<open>One row per bar\<close>

definition row_key :: "candle_row \<Rightarrow> uuid \<times> timeframe \<times> datetime" where
  "row_key k = (k_instrument_id k, k_timeframe k, k_ts k)"

definition market_ok :: "market \<Rightarrow> bool" where
  "market_ok m = (distinct (map row_key (candle_rows m)) \<and> distinct (map i_symbol (instruments m)))"

lemma upsert_one_ok: "market_ok m \<Longrightarrow> market_ok (upsert_one iid tf src ts c m)"
proof -
  have "map row_key (map (\<lambda>k. if same_key iid tf ts k then
            k\<lparr>k_open := cd_open c, k_high := cd_high c, k_low := cd_low c, k_close := cd_close c,
              k_volume := cd_volume c, k_source := src, k_complete := k_complete k \<or> cd_complete c\<rparr> else k) rs)
      = map row_key rs" for rs
    by (simp add: row_key_def)
  then show "market_ok m \<Longrightarrow> ?thesis"
    by (auto simp: market_ok_def upsert_one_def simp del: map_map) (auto simp: row_key_def same_key_def)
qed

lemma instruments_upsert_one [simp]: "instruments (upsert_one iid tf src ts c m) = instruments m"
  by (simp add: upsert_one_def)

lemma series_keys_upsert_one:
  "map k_ts (series iid tf (upsert_one iid tf src ts c m)) =
     (if ts \<in> set (map k_ts (series iid tf m)) then map k_ts (series iid tf m) else map k_ts (series iid tf m) @ [ts])"
proof (cases "\<exists>k\<in>set (candle_rows m). same_key iid tf ts k")
  case True
  have "map k_ts (filter (\<lambda>k. k_instrument_id k = iid \<and> k_timeframe k = tf) (map (\<lambda>k. if same_key iid tf ts k then
            k\<lparr>k_open := cd_open c, k_high := cd_high c, k_low := cd_low c, k_close := cd_close c,
              k_volume := cd_volume c, k_source := src, k_complete := k_complete k \<or> cd_complete c\<rparr> else k) rs))
     = map k_ts (filter (\<lambda>k. k_instrument_id k = iid \<and> k_timeframe k = tf) rs)" for rs
    by (induction rs) (auto simp: same_key_def)
  with True show ?thesis by (auto simp: upsert_one_def series_def same_key_def)
next
  case False
  then show ?thesis by (auto simp: upsert_one_def series_def same_key_def)
qed

lemma distinct_series: "market_ok m \<Longrightarrow> distinct (map k_ts (series iid tf m))"
  by (auto simp: market_ok_def series_def row_key_def distinct_map inj_on_def)

lemma fst_set_default: "map fst (set_default k c d) = (if k \<in> set (map fst d) then map fst d else map fst d @ [k])"
  by (auto simp: set_default_def map_of_eq_None_iff image_iff)

lemma unique_candles_fst:
  "distinct (map fst (unique_candles tf cs))
   \<and> set (map fst (unique_candles tf cs)) = (\<lambda>c. align_to_bucket (cd_bucket_start c) tf) ` set cs"
proof -
  have "distinct (map fst (foldl (\<lambda>d c. set_default (align_to_bucket (cd_bucket_start c) tf) c d) d cs))
      \<and> set (map fst (foldl (\<lambda>d c. set_default (align_to_bucket (cd_bucket_start c) tf) c d) d cs))
        = set (map fst d) \<union> (\<lambda>c. align_to_bucket (cd_bucket_start c) tf) ` set cs" if "distinct (map fst d)" for d
    using that
  proof (induction cs arbitrary: d)
    case (Cons c cs)
    let ?k = "align_to_bucket (cd_bucket_start c) tf"
    have "distinct (map fst (set_default ?k c d))" "set (map fst (set_default ?k c d)) = insert ?k (set (map fst d))"
      using Cons.prems unfolding fst_set_default by auto
    then show ?case using Cons.IH [of "set_default ?k c d"] by auto
  qed simp
  from this [of "[]"] show ?thesis by (simp add: unique_candles_def)
qed

lemma upsert_fold:
  assumes "distinct (map fst d)" "market_ok m"
  shows "market_ok (foldl (\<lambda>m (b, c). upsert_one iid tf src b c m) m d)
    \<and> instruments (foldl (\<lambda>m (b, c). upsert_one iid tf src b c m) m d) = instruments m
    \<and> set (map k_ts (series iid tf (foldl (\<lambda>m (b, c). upsert_one iid tf src b c m) m d)))
       = set (map k_ts (series iid tf m)) \<union> set (map fst d)
    \<and> count_candles iid tf (foldl (\<lambda>m (b, c). upsert_one iid tf src b c m) m d)
       = count_candles iid tf m + card (set (map fst d) - set (map k_ts (series iid tf m)))"
proof -
  let ?m' = "foldl (\<lambda>m (b, c). upsert_one iid tf src b c m) m d"
  have inv: "market_ok ?m' \<and> instruments ?m' = instruments m
      \<and> set (map k_ts (series iid tf ?m')) = set (map k_ts (series iid tf m)) \<union> set (map fst d)"
    using assms(2)
  proof (induction d arbitrary: m)
    case (Cons a d)
    obtain b c where a: "a = (b, c)" by force
    have "set (map k_ts (series iid tf (upsert_one iid tf src b c m))) = insert b (set (map k_ts (series iid tf m)))"
      unfolding series_keys_upsert_one by auto
    then show ?case using Cons.IH [OF upsert_one_ok [OF Cons.prems]] by (simp add: a)
  qed simp
  have count: "count_candles iid tf x = card (set (map k_ts (series iid tf x)))" if "market_ok x" for x
    using distinct_card [OF distinct_series [OF that]] by (simp add: count_candles_def)
  have "card (A \<union> B) = card A + card (B - A)" if "finite A" "finite B" for A B :: "datetime set"
    using that by (metis Diff_disjoint Un_Diff_cancel card_Un_disjoint finite_Diff)
  then show ?thesis using inv count [of m] count [of ?m'] assms(2) by simp
qed

text \<open>
  Ingesting bars is idempotent on the table: one row per instrument, timeframe and bucket before
  and after; the stored buckets are the old ones plus the aligned buckets of the bars given; the
  reported inserted count is the number of buckets that were new and the updated count the number
  that existed, duplicates in the batch counted once; ingesting the same batch again inserts nothing.
\<close>

theorem upsert_candles_exact:
  assumes "market_ok m" "upsert_candles iid cs src tf m = ((inserted, updated), m')"
  shows "market_ok m' \<and> instruments m' = instruments m
    \<and> set (map k_ts (series iid tf m')) = set (map k_ts (series iid tf m)) \<union> (\<lambda>c. align_to_bucket (cd_bucket_start c) tf) ` set cs
    \<and> inserted = card ((\<lambda>c. align_to_bucket (cd_bucket_start c) tf) ` set cs - set (map k_ts (series iid tf m)))
    \<and> inserted + updated = card ((\<lambda>c. align_to_bucket (cd_bucket_start c) tf) ` set cs)
    \<and> fst (fst (upsert_candles iid cs src tf m')) = 0"
proof (cases "cs = []")
  case True
  with assms show ?thesis by (auto simp: upsert_candles_def)
next
  case False
  let ?K = "(\<lambda>c. align_to_bucket (cd_bucket_start c) tf) ` set cs"
  note u = unique_candles_fst [of tf cs]
  define f where "f = (\<lambda>m. foldl (\<lambda>m (b, c). upsert_one iid tf src b c m) m (unique_candles tf cs))"
  have m': "m' = f m" "inserted = count_candles iid tf (f m) - count_candles iid tf m"
    "updated = length (unique_candles tf cs) - inserted"
    using assms(2) False by (auto simp: upsert_candles_def Let_def f_def)
  have fold: "market_ok (f x) \<and> instruments (f x) = instruments x
      \<and> set (map k_ts (series iid tf (f x))) = set (map k_ts (series iid tf x)) \<union> ?K
      \<and> count_candles iid tf (f x) = count_candles iid tf x + card (?K - set (map k_ts (series iid tf x)))"
    if "market_ok x" for x
    using upsert_fold [OF _ that, of "unique_candles tf cs" iid tf src] u by (simp add: f_def)
  have len: "length (unique_candles tf cs) = card ?K"
    using u distinct_card [of "map fst (unique_candles tf cs)"] by simp
  have ins: "inserted = card (?K - set (map k_ts (series iid tf m)))" using fold [OF assms(1)] m'(2) by simp
  have "inserted \<le> card ?K" unfolding ins by (intro card_mono) auto
  then have sum: "inserted + updated = card ?K" using m'(3) len by simp
  have "?K - set (map k_ts (series iid tf m')) = {}" using fold [OF assms(1)] m'(1) by auto
  then have "count_candles iid tf (f m') = count_candles iid tf m'"
    using fold [of m'] fold [OF assms(1)] m'(1) by (metis add_0_right card.empty)
  then have "fst (fst (upsert_candles iid cs src tf m')) = 0"
    using False by (simp add: upsert_candles_def Let_def f_def)
  then show ?thesis using fold [OF assms(1)] m'(1) ins sum by blast
qed

theorem upsert_candles_exact_witness:
  "let c = \<lparr>cd_symbol = ''EURUSD'', cd_timeframe = H1, cd_bucket_start = 5, cd_open = 1, cd_high = 1, cd_low = 1,
        cd_close = 1, cd_volume = 0, cd_complete = True\<rparr>
   in fst (fst (upsert_candles 1 [c, c] ''x'' H1 \<lparr>instruments = [], candle_rows = []\<rparr>)) = 1"
proof -
  let ?c = "\<lparr>cd_symbol = ''EURUSD'', cd_timeframe = H1, cd_bucket_start = 5, cd_open = 1, cd_high = 1, cd_low = 1,
        cd_close = 1, cd_volume = 0, cd_complete = True\<rparr>"
  obtain i u m' where e: "upsert_candles 1 [?c, ?c] ''x'' H1 \<lparr>instruments = [], candle_rows = []\<rparr> = ((i, u), m')"
    by (metis prod.collapse)
  have "market_ok \<lparr>instruments = [], candle_rows = []\<rparr>" by (simp add: market_ok_def)
  from upsert_candles_exact [OF this e] e show ?thesis unfolding Let_def e by (simp add: series_def)
qed

end
