(* ===== verification/Ingest.thy ===== *)
theory Ingest
  imports F64 MarketData
begin

text \<open>
  The provider circuit breaker (\<^verbatim>\<open>app/data/breaker.py\<close>), the ingest service
  (\<^verbatim>\<open>app/data/ingest.py\<close>) and the staleness watchdog (\<^verbatim>\<open>app/monitor/staleness.py\<close>). What the
  provider answers is an argument; caching and publishing quotes, which never fail ingestion, and
  error texts are not modelled.
\<close>

section \<open>Circuit breaker\<close>

datatype breaker_state = BCLOSED | BOPEN | HALF_OPEN

definition breaker_from_value :: "string option \<Rightarrow> breaker_state" where
  "breaker_from_value value =
     (case value of None \<Rightarrow> BCLOSED
      | Some v \<Rightarrow> if v = ''open'' then BOPEN else if v = ''half_open'' then HALF_OPEN else BCLOSED)"

definition breaker_value :: "breaker_state \<Rightarrow> string" where
  "breaker_value s = (case s of BCLOSED \<Rightarrow> ''closed'' | BOPEN \<Rightarrow> ''open'' | HALF_OPEN \<Rightarrow> ''half_open'')"

record circuit_breaker =
  failure_threshold :: int
  cooldown_seconds :: int
  br_state :: breaker_state
  consecutive_failures :: int
  opened_at :: "datetime option"

definition new_breaker :: "int \<Rightarrow> int \<Rightarrow> circuit_breaker" where
  "new_breaker threshold cooldown = \<lparr>failure_threshold = threshold, cooldown_seconds = cooldown, br_state = BCLOSED,
     consecutive_failures = 0, opened_at = None\<rparr>"

text \<open>\<^verbatim>\<open>timedelta.total_seconds()\<close> and \<^verbatim>\<open>int(x)\<close> on a float.\<close>

definition total_seconds :: "timedelta \<Rightarrow> f64" where
  "total_seconds td = fl (of_int td / 1000000)"

definition py_int :: "f64 \<Rightarrow> int" where
  "py_int x = (if 0 \<le> val x then \<lfloor>val x\<rfloor> else \<lceil>val x\<rceil>)"

definition seconds_until_probe :: "datetime \<Rightarrow> circuit_breaker \<Rightarrow> int" where
  "seconds_until_probe now b =
     (if br_state b \<noteq> BOPEN then 0
      else case opened_at b of None \<Rightarrow> 0
        | Some t \<Rightarrow> max 0 (py_int (fl (of_int (cooldown_seconds b)) - total_seconds (now - t))))"

text \<open>True: the call may proceed; False: \<^verbatim>\<open>BreakerOpenError\<close>.\<close>

definition before_call :: "datetime \<Rightarrow> circuit_breaker \<Rightarrow> bool \<times> circuit_breaker" where
  "before_call now b =
     (if br_state b = BOPEN \<and> opened_at b \<noteq> None then
        if seconds_until_probe now b \<le> 0 then (True, b\<lparr>br_state := HALF_OPEN\<rparr>) else (False, b)
      else if br_state b = HALF_OPEN then (False, b)
      else (True, b))"

definition record_success :: "circuit_breaker \<Rightarrow> circuit_breaker" where
  "record_success b = b\<lparr>consecutive_failures := 0, opened_at := None, br_state := BCLOSED\<rparr>"

definition open_breaker :: "datetime \<Rightarrow> circuit_breaker \<Rightarrow> circuit_breaker" where
  "open_breaker now b = b\<lparr>br_state := BOPEN, opened_at := Some now\<rparr>"

definition record_failure :: "datetime \<Rightarrow> circuit_breaker \<Rightarrow> bool \<times> circuit_breaker" where
  "record_failure now b =
     (let b1 = b\<lparr>consecutive_failures := consecutive_failures b + 1\<rparr> in
      if br_state b1 = HALF_OPEN \<or> failure_threshold b1 \<le> consecutive_failures b1 then (True, open_breaker now b1)
      else (False, b1))"

definition load_breaker :: "string \<Rightarrow> int \<Rightarrow> datetime option \<Rightarrow> circuit_breaker \<Rightarrow> circuit_breaker" where
  "load_breaker st failures opened b =
     b\<lparr>br_state := breaker_from_value (Some st), consecutive_failures := failures, opened_at := opened\<rparr>"

text \<open>The row of \<^verbatim>\<open>provider_health\<close> and its two uses.\<close>

record provider_health =
  ph_last_ok_at :: "datetime option"
  ph_consecutive_failures :: int
  ph_breaker_state :: string
  ph_breaker_opened_at :: "datetime option"
  ph_updated_at :: "datetime option"

definition persist_breaker_snapshot :: "datetime \<Rightarrow> circuit_breaker \<Rightarrow> provider_health option \<Rightarrow> provider_health" where
  "persist_breaker_snapshot now b row =
     (let r = (case row of Some r \<Rightarrow> r | None \<Rightarrow> \<lparr>ph_last_ok_at = None, ph_consecutive_failures = 0,
                ph_breaker_state = ''closed'', ph_breaker_opened_at = None, ph_updated_at = None\<rparr>);
          r1 = (if br_state b = BCLOSED then r\<lparr>ph_last_ok_at := Some now\<rparr> else r)
      in r1\<lparr>ph_consecutive_failures := consecutive_failures b, ph_breaker_state := breaker_value (br_state b),
            ph_breaker_opened_at := opened_at b, ph_updated_at := Some now\<rparr>)"

definition load_breaker_snapshot :: "provider_health option \<Rightarrow> circuit_breaker \<Rightarrow> circuit_breaker" where
  "load_breaker_snapshot row b =
     (case row of None \<Rightarrow> b
      | Some r \<Rightarrow> load_breaker (ph_breaker_state r) (ph_consecutive_failures r) (ph_breaker_opened_at r) b)"

section \<open>Ingest\<close>

record ingest_settings =
  initial_history_days :: int
  max_bars_per_cycle :: int

definition fetch_window ::
  "ingest_settings \<Rightarrow> datetime option \<Rightarrow> timeframe \<Rightarrow> datetime \<Rightarrow> datetime option \<Rightarrow> datetime option \<Rightarrow> datetime \<times> datetime" where
  "fetch_window s last_ts tf now forced_start forced_end =
     (let step = tf_step tf;
          end_ts = (case forced_end of Some e \<Rightarrow> e | None \<Rightarrow> previous_closed_bucket now tf + step)
      in case forced_start of Some fs \<Rightarrow> (fs, end_ts)
        | None \<Rightarrow>
            let start = (case last_ts of
                  None \<Rightarrow> min (end_ts - days_td (initial_history_days s)) (end_ts - step)
                | Some t \<Rightarrow> t + step);
                max_span = step * max_bars_per_cycle s
            in if max_span < end_ts - start then (end_ts - max_span, end_ts) else (start, end_ts))"

datatype fetch_outcome = Fetched "candle list" | TransientFailure | ProviderFailure | UnexpectedFailure

datatype skip_reason = UpToDate | BreakerRefused | TransientSkip bool | ProviderSkip bool | ErrorSkip

record series_result =
  sr_symbol :: string
  sr_timeframe :: timeframe
  sr_inserted :: nat
  sr_updated :: nat
  sr_gaps_detected :: nat
  sr_skipped_reason :: "skip_reason option"

record ingest_state =
  is_breaker :: circuit_breaker
  is_market :: market
  is_health :: "provider_health option"

text \<open>An unexpected failure may come from the provider or from anywhere in the transaction; the
  session is rolled back and the breaker left as \<^verbatim>\<open>before_call\<close> left it.\<close>

definition ingest_series ::
  "ingest_settings \<Rightarrow> datetime \<Rightarrow> string \<Rightarrow> (string \<Rightarrow> timeframe \<Rightarrow> datetime \<Rightarrow> datetime \<Rightarrow> fetch_outcome)
   \<Rightarrow> datetime option \<Rightarrow> datetime option \<Rightarrow> instrument \<Rightarrow> timeframe \<Rightarrow> ingest_state \<Rightarrow> series_result \<times> ingest_state" where
  "ingest_series s now source provider forced_start forced_end ins tf st =
     (let out = \<lparr>sr_symbol = i_symbol ins, sr_timeframe = tf, sr_inserted = 0, sr_updated = 0,
                 sr_gaps_detected = 0, sr_skipped_reason = None\<rparr>;
          (allowed, br) = before_call now (is_breaker st)
      in if \<not> allowed then (out\<lparr>sr_skipped_reason := Some BreakerRefused\<rparr>, st\<lparr>is_breaker := br\<rparr>)
      else
        let last_ts = last_closed_ts (i_id ins) tf (is_market st);
            (start, end_ts) = fetch_window s last_ts tf now forced_start forced_end
        in if end_ts \<le> start then
             (out\<lparr>sr_skipped_reason := Some UpToDate\<rparr>, st\<lparr>is_breaker := record_success br\<rparr>)
           else case provider (i_symbol ins) tf start end_ts of
             Fetched cs \<Rightarrow>
               let candles = filter cd_complete cs;
                   expected = iterate_buckets start end_ts tf;
                   gaps = card (set expected - cd_bucket_start ` set candles);
                   ((inserted, updated), m) = upsert_candles (i_id ins) candles source tf (is_market st)
               in (out\<lparr>sr_gaps_detected := gaps, sr_inserted := inserted, sr_updated := updated\<rparr>,
                   st\<lparr>is_breaker := record_success br, is_market := m\<rparr>)
           | TransientFailure \<Rightarrow>
               let (opened, br') = record_failure now br
               in (out\<lparr>sr_skipped_reason := Some (TransientSkip opened)\<rparr>,
                   st\<lparr>is_breaker := br', is_health := Some (persist_breaker_snapshot now br' (is_health st))\<rparr>)
           | ProviderFailure \<Rightarrow>
               let (opened, br') = record_failure now br
               in (out\<lparr>sr_skipped_reason := Some (ProviderSkip opened)\<rparr>,
                   st\<lparr>is_breaker := br', is_health := Some (persist_breaker_snapshot now br' (is_health st))\<rparr>)
           | UnexpectedFailure \<Rightarrow>
               (out\<lparr>sr_skipped_reason := Some ErrorSkip\<rparr>, st\<lparr>is_breaker := br\<rparr>))"

fun ingest_all ::
  "ingest_settings \<Rightarrow> datetime \<Rightarrow> string \<Rightarrow> (string \<Rightarrow> timeframe \<Rightarrow> datetime \<Rightarrow> datetime \<Rightarrow> fetch_outcome)
   \<Rightarrow> datetime option \<Rightarrow> datetime option \<Rightarrow> (instrument \<times> timeframe) list \<Rightarrow> ingest_state \<Rightarrow> series_result list \<times> ingest_state" where
  "ingest_all s now source provider fs fe [] st = ([], st)"
| "ingest_all s now source provider fs fe ((ins, tf) # xs) st =
     (let (r, st1) = ingest_series s now source provider fs fe ins tf st;
          (rs, st2) = ingest_all s now source provider fs fe xs st1
      in (r # rs, st2))"

definition run_cycle ::
  "ingest_settings \<Rightarrow> datetime \<Rightarrow> string \<Rightarrow> (string \<Rightarrow> timeframe \<Rightarrow> datetime \<Rightarrow> datetime \<Rightarrow> fetch_outcome)
   \<Rightarrow> instrument list \<Rightarrow> timeframe list \<Rightarrow> ingest_state \<Rightarrow> series_result list \<times> ingest_state" where
  "run_cycle s now source provider is tfs st =
     ingest_all s now source provider None None (List.product is tfs) st"

definition run_backfill ::
  "ingest_settings \<Rightarrow> datetime \<Rightarrow> string \<Rightarrow> (string \<Rightarrow> timeframe \<Rightarrow> datetime \<Rightarrow> datetime \<Rightarrow> fetch_outcome)
   \<Rightarrow> instrument list \<Rightarrow> timeframe list \<Rightarrow> datetime \<Rightarrow> datetime \<Rightarrow> ingest_state
   \<Rightarrow> py_error + (series_result list \<times> ingest_state)" where
  "run_backfill s now source provider is tfs start end_ts st =
     (if end_ts \<le> start then Inl ValueError
      else Inr (ingest_all s now source provider (Some start) (Some end_ts) (List.product is tfs) st))"

definition cycle_inserted :: "series_result list \<Rightarrow> nat" where
  "cycle_inserted rs = sum_list (map sr_inserted rs)"

definition cycle_failed :: "series_result list \<Rightarrow> series_result list" where
  "cycle_failed rs = filter (\<lambda>r. sr_skipped_reason r \<notin> {None, Some UpToDate, Some BreakerRefused}) rs"

section \<open>Staleness\<close>

definition staleness_threshold_seconds :: "timeframe \<Rightarrow> int" where
  "staleness_threshold_seconds tf = max (tf_seconds tf * 3) 900"

record staleness_finding =
  sf_symbol :: string
  sf_timeframe :: timeframe
  sf_age_seconds :: "int option"
  sf_threshold_seconds :: int
  sf_market_open :: bool

definition breached :: "staleness_finding \<Rightarrow> bool" where
  "breached f = (if \<not> sf_market_open f then False
     else case sf_age_seconds f of None \<Rightarrow> True | Some a \<Rightarrow> sf_threshold_seconds f < a)"

definition check_staleness :: "instrument list \<Rightarrow> timeframe list \<Rightarrow> datetime \<Rightarrow> market \<Rightarrow> staleness_finding list" where
  "check_staleness is tfs now m =
     map (\<lambda>(ins, tf). \<lparr>sf_symbol = i_symbol ins, sf_timeframe = tf,
            sf_age_seconds = map_option (\<lambda>t. py_int (total_seconds (now - t))) (last_closed_ts (i_id ins) tf m),
            sf_threshold_seconds = staleness_threshold_seconds tf, sf_market_open = is_market_open now\<rparr>)
       (List.product is tfs)"

section \<open>The breaker's gate\<close>

lemma py_int_mono: "x \<le> y \<Longrightarrow> py_int x \<le> py_int y"
proof -
  assume "x \<le> y"
  then have le: "val x \<le> val y" by (simp add: less_eq_f64.rep_eq)
  have "\<lfloor>val x\<rfloor> \<le> \<lfloor>val y\<rfloor>" "\<lceil>val x\<rceil> \<le> \<lceil>val y\<rceil>" using le by (rule floor_mono, rule ceiling_mono)
  moreover have "\<lceil>val x\<rceil> \<le> \<lfloor>val y\<rfloor>" if "\<not> 0 \<le> val x" "0 \<le> val y"
    using that order_trans [of "\<lceil>val x\<rceil>" 0 "\<lfloor>val y\<rfloor>"] by simp
  ultimately show ?thesis using le unfolding py_int_def by (smt (verit) dual_order.trans)
qed

lemma py_int_fl_int: "\<bar>n\<bar> \<le> 2 ^ 53 \<Longrightarrow> py_int (fl (of_int n)) = n"
  by (simp add: py_int_def fl_int)

lemma probe_seconds_bounds:
  assumes "0 < c" "c \<le> 2 ^ 53" "k \<le> c" "0 \<le> k"
  shows "seconds_td k \<le> e \<Longrightarrow> py_int (fl (of_int c) - total_seconds e) \<le> c - k"
    "e \<le> seconds_td k \<Longrightarrow> c - k \<le> py_int (fl (of_int c) - total_seconds e)"
proof -
  have ck: "val (fl (of_int c)) = of_int c" "val (fl (of_int k)) = of_int k" using assms by (auto intro: fl_int)
  then have sub: "fl (of_int c) - fl (of_int k) = fl (of_int (c - k))"
    by (simp add: f64_eq_iff f64_rep)
  have i: "py_int (fl (of_int (c - k))) = c - k" using assms by (intro py_int_fl_int) simp
  show "py_int (fl (of_int c) - total_seconds e) \<le> c - k" if "seconds_td k \<le> e"
  proof -
    have "of_int k \<le> (of_int e / 1000000 :: rat)" using that by (simp add: seconds_td_def le_divide_eq flip: of_int_le_iff [where 'a = rat])
    then have "fl (of_int k) \<le> total_seconds e" unfolding total_seconds_def by (rule fl_mono)
    then have "fl (of_int c) - total_seconds e \<le> fl (of_int c) - fl (of_int k)" by (intro f64_diff_mono) simp
    then show ?thesis using py_int_mono i sub by metis
  qed
  show "c - k \<le> py_int (fl (of_int c) - total_seconds e)" if "e \<le> seconds_td k"
  proof -
    have "of_int e / 1000000 \<le> (of_int k :: rat)" using that by (simp add: seconds_td_def divide_le_eq flip: of_int_le_iff [where 'a = rat])
    then have "total_seconds e \<le> fl (of_int k)" unfolding total_seconds_def by (rule fl_mono)
    then have "fl (of_int c) - fl (of_int k) \<le> fl (of_int c) - total_seconds e" by (intro f64_diff_mono) simp
    then show ?thesis using py_int_mono i sub by metis
  qed
qed

text \<open>
  The breaker's gate: an open breaker refuses every call up to one second before its cooldown
  has elapsed and lets the first call after the cooldown through as the single probe (a second call
  is refused); the probe's failure reopens it at once and its success closes it and forgets the
  failures; a refused call changes nothing; a closed breaker never refuses.
\<close>

theorem breaker_gate:
  assumes "br_state b = BOPEN" "opened_at b = Some t" "0 < cooldown_seconds b" "cooldown_seconds b \<le> 2 ^ 53"
  shows "(now - t \<le> seconds_td (cooldown_seconds b - 1) \<longrightarrow> before_call now b = (False, b))
    \<and> (seconds_td (cooldown_seconds b) \<le> now - t \<longrightarrow> before_call now b = (True, b\<lparr>br_state := HALF_OPEN\<rparr>))
    \<and> (\<forall>b'. before_call now b = (True, b') \<longrightarrow> (\<forall>now'. before_call now' b' = (False, b'))
         \<and> (\<forall>now'. record_failure now' b' = (True, b'\<lparr>consecutive_failures := consecutive_failures b + 1,
               br_state := BOPEN, opened_at := Some now'\<rparr>))
         \<and> br_state (record_success b') = BCLOSED \<and> consecutive_failures (record_success b') = 0)
    \<and> (\<forall>b' now'. br_state b' = BCLOSED \<longrightarrow> before_call now' b' = (True, b'))"
proof -
  let ?c = "cooldown_seconds b"
  have "1 \<le> seconds_until_probe now b" if "now - t \<le> seconds_td (?c - 1)"
    using probe_seconds_bounds(2) [OF assms(3,4), of "?c - 1" "now - t"] that assms by (simp add: seconds_until_probe_def)
  moreover have "seconds_until_probe now b \<le> 0" if "seconds_td ?c \<le> now - t"
    using probe_seconds_bounds(1) [OF assms(3,4), of ?c "now - t"] that assms by (simp add: seconds_until_probe_def)
  ultimately show ?thesis using assms
    by (auto simp: before_call_def record_failure_def open_breaker_def record_success_def Let_def split: if_splits)
qed

theorem breaker_gate_witness:
  "before_call (seconds_td 61) (open_breaker 0 (new_breaker 5 60)) = (True, (open_breaker 0 (new_breaker 5 60))\<lparr>br_state := HALF_OPEN\<rparr>)"
  using breaker_gate [of "open_breaker 0 (new_breaker 5 60)" 0 "seconds_td 61"]
  by (simp add: open_breaker_def new_breaker_def seconds_td_def)

definition fail_times :: "datetime list \<Rightarrow> circuit_breaker \<Rightarrow> circuit_breaker" where
  "fail_times ts b = foldl (\<lambda>b t. snd (record_failure t b)) b ts"

lemma fail_times_state:
  assumes "br_state b = BCLOSED" "consecutive_failures b + int (length ts) < failure_threshold b"
  shows "br_state (fail_times ts b) = BCLOSED \<and> consecutive_failures (fail_times ts b) = consecutive_failures b + int (length ts)
    \<and> failure_threshold (fail_times ts b) = failure_threshold b"
  using assms
proof (induction ts arbitrary: b)
  case (Cons t ts)
  have "br_state (snd (record_failure t b)) = BCLOSED" "consecutive_failures (snd (record_failure t b)) = consecutive_failures b + 1"
    "failure_threshold (snd (record_failure t b)) = failure_threshold b"
    using Cons.prems by (auto simp: record_failure_def Let_def open_breaker_def)
  then show ?case using Cons.IH [of "snd (record_failure t b)"] Cons.prems by (simp add: fail_times_def)
qed (simp add: fail_times_def)

text \<open>
  The breaker opens on exactly the threshold-th failure in a row: fewer failures from a closed,
  clean breaker keep it closed with their count, and the one that reaches the threshold opens it at
  its own time.
\<close>

theorem breaker_trips_at_threshold:
  assumes "int (length ts) < threshold"
  shows "br_state (fail_times ts (new_breaker threshold cooldown)) = BCLOSED
    \<and> consecutive_failures (fail_times ts (new_breaker threshold cooldown)) = int (length ts)
    \<and> (int (length ts) + 1 = threshold \<longrightarrow>
        record_failure t (fail_times ts (new_breaker threshold cooldown))
          = (True, (fail_times ts (new_breaker threshold cooldown))\<lparr>consecutive_failures := threshold, br_state := BOPEN, opened_at := Some t\<rparr>))"
proof -
  have s: "br_state (fail_times ts (new_breaker threshold cooldown)) = BCLOSED
     \<and> consecutive_failures (fail_times ts (new_breaker threshold cooldown)) = int (length ts)
     \<and> failure_threshold (fail_times ts (new_breaker threshold cooldown)) = threshold"
    using fail_times_state [of "new_breaker threshold cooldown" ts] assms by (simp add: new_breaker_def)
  then show ?thesis by (auto simp: record_failure_def Let_def open_breaker_def)
qed

theorem breaker_trips_at_threshold_witness:
  "br_state (fail_times [1, 2, 3, 4] (new_breaker 5 60)) = BCLOSED \<and> br_state (snd (record_failure 9 (fail_times [1, 2, 3, 4] (new_breaker 5 60)))) = BOPEN"
  using breaker_trips_at_threshold [of "[1, 2, 3, 4]" 5 60 9] by simp

section \<open>A wedged breaker\<close>

lemma ingest_series_half_open:
  "br_state (is_breaker st) = HALF_OPEN \<Longrightarrow> ingest_series s now src provider fs fe ins tf st =
     (\<lparr>sr_symbol = i_symbol ins, sr_timeframe = tf, sr_inserted = 0, sr_updated = 0, sr_gaps_detected = 0,
       sr_skipped_reason = Some BreakerRefused\<rparr>, st)"
  by (simp add: ingest_series_def before_call_def)

lemma ingest_all_half_open:
  "br_state (is_breaker st) = HALF_OPEN \<Longrightarrow>
     snd (ingest_all s now src provider fs fe xs st) = st
     \<and> (\<forall>r\<in>set (fst (ingest_all s now src provider fs fe xs st)). sr_skipped_reason r = Some BreakerRefused \<and> sr_inserted r = 0)"
  by (induction xs) (auto simp: ingest_series_half_open case_prod_unfold)

text \<open>
  C15. One unexpected error during a probe stops ingestion for good: when the breaker is open with
  its cooldown over and the probe ends in an error that is not a provider error (a database failure,
  a malformed bar), the breaker stays half-open, and from then on every series of every later cycle,
  whatever the time and however healthy the provider, is refused and stores nothing.
\<close>

theorem unexpected_error_wedges_breaker:
  assumes "br_state (is_breaker st) = BOPEN" "opened_at (is_breaker st) = Some t"
    "seconds_until_probe now (is_breaker st) \<le> 0"
    "\<And>a b. provider (i_symbol ins) tf a b = UnexpectedFailure"
    "fst (fetch_window s (last_closed_ts (i_id ins) tf (is_market st)) tf now None None)
       < snd (fetch_window s (last_closed_ts (i_id ins) tf (is_market st)) tf now None None)"
  shows "\<exists>r st'. ingest_series s now src provider None None ins tf st = (r, st') \<and> sr_skipped_reason r = Some ErrorSkip
    \<and> (\<forall>s' now' src' provider' is tfs. case run_cycle s' now' src' provider' is tfs st' of (rs, st'') \<Rightarrow>
          st'' = st' \<and> (\<forall>r\<in>set rs. sr_skipped_reason r = Some BreakerRefused) \<and> cycle_inserted rs = 0)"
proof -
  let ?st' = "st\<lparr>is_breaker := (is_breaker st)\<lparr>br_state := HALF_OPEN\<rparr>\<rparr>"
  have "\<exists>r. ingest_series s now src provider None None ins tf st = (r, ?st') \<and> sr_skipped_reason r = Some ErrorSkip"
    using assms by (simp add: ingest_series_def before_call_def case_prod_unfold Let_def not_le)
  moreover have "case run_cycle s' now' src' provider' is tfs ?st' of (rs, st'') \<Rightarrow>
      st'' = ?st' \<and> (\<forall>r\<in>set rs. sr_skipped_reason r = Some BreakerRefused) \<and> cycle_inserted rs = 0"
    for s' now' src' provider' "is" tfs
    using ingest_all_half_open [of ?st' s' now' src' provider' None None "List.product is tfs"]
    by (auto simp: run_cycle_def cycle_inserted_def case_prod_unfold)
  ultimately show ?thesis by blast
qed

theorem unexpected_error_wedges_breaker_witness:
  "case ingest_series \<lparr>initial_history_days = 2, max_bars_per_cycle = 500\<rparr> (seconds_td 61) ''x'' (\<lambda>_ _ _ _. UnexpectedFailure) None None
      \<lparr>i_id = 1, i_symbol = ''EURUSD'', i_base = ''EUR'', i_quote = ''USD'', i_pip_size = 1, i_price_decimals = 5, i_active = True\<rparr> H1
      \<lparr>is_breaker = open_breaker 0 (new_breaker 5 60), is_market = \<lparr>instruments = [], candle_rows = []\<rparr>, is_health = None\<rparr> of
    (r, st') \<Rightarrow> sr_skipped_reason r = Some ErrorSkip
      \<and> snd (run_cycle \<lparr>initial_history_days = 2, max_bars_per_cycle = 500\<rparr> 0 ''x'' (\<lambda>_ _ _ _. Fetched []) [] [H1] st') = st'"
  (is "case ingest_series ?s _ _ ?p _ _ ?ins _ ?st of (r, st') \<Rightarrow> _")
proof -
  have 1: "br_state (is_breaker ?st) = BOPEN" "opened_at (is_breaker ?st) = Some 0"
    "last_closed_ts (i_id ?ins) H1 (is_market ?st) = None"
    by (simp_all add: open_breaker_def last_closed_ts_def series_def)
  have 2: "seconds_until_probe (seconds_td 61) (open_breaker 0 (new_breaker 5 60)) \<le> 0"
    "fst (fetch_window ?s None H1 (seconds_td 61) None None) < snd (fetch_window ?s None H1 (seconds_td 61) None None)"
    by code_simp+
  have "\<exists>r st'. ingest_series ?s (seconds_td 61) ''x'' ?p None None ?ins H1 ?st = (r, st') \<and> sr_skipped_reason r = Some ErrorSkip
    \<and> (\<forall>s' now' src' provider' is tfs. case run_cycle s' now' src' provider' is tfs st' of (rs, st'') \<Rightarrow>
          st'' = st' \<and> (\<forall>r\<in>set rs. sr_skipped_reason r = Some BreakerRefused) \<and> cycle_inserted rs = 0)"
    by (rule unexpected_error_wedges_breaker [OF 1(1,2)]) (use 2 in \<open>simp_all add: last_closed_ts_def series_def\<close>)
  then show ?thesis by (auto simp: case_prod_unfold)
qed

section \<open>The fetch window\<close>

text \<open>
  A capped catch-up leaves a hole that is never filled: after an outage longer than the
  per-cycle cap the window is the newest bars only, and since the next window starts from the newest
  stored bar, no later scheduled cycle ever asks for a bucket in between. Without the cap the window
  is every bucket from the one after the last stored bar to the last closed one.
\<close>

theorem capped_window_skips:
  assumes "last_ts = Some l" "e = previous_closed_bucket now tf + tf_step tf" "1 \<le> max_bars_per_cycle s"
  shows "(e - (l + tf_step tf) \<le> tf_step tf * max_bars_per_cycle s \<longrightarrow>
       fetch_window s last_ts tf now None None = (l + tf_step tf, e))
    \<and> (tf_step tf * max_bars_per_cycle s < e - (l + tf_step tf) \<longrightarrow>
       fetch_window s last_ts tf now None None = (e - tf_step tf * max_bars_per_cycle s, e)
       \<and> l + tf_step tf < e - tf_step tf * max_bars_per_cycle s
       \<and> (\<forall>l' now'. e - tf_step tf * max_bars_per_cycle s \<le> l' \<and> now \<le> now' \<longrightarrow>
            e - tf_step tf * max_bars_per_cycle s < fst (fetch_window s (Some l') tf now' None None)))"
proof -
  let ?n = "tf_step tf * max_bars_per_cycle s"
  have m: "previous_closed_bucket now tf + tf_step tf \<le> previous_closed_bucket now' tf + tf_step tf" if "now \<le> now'" for now'
  proof -
    have "now div tf_step tf \<le> now' div tf_step tf" using that by (intro zdiv_mono1) simp_all
    then have "tf_step tf * (now div tf_step tf) \<le> tf_step tf * (now' div tf_step tf)" by (intro mult_left_mono) simp_all
    then show ?thesis
      by (simp add: previous_closed_bucket_def align_to_bucket_def minus_mod_eq_mult_div)
  qed
  have "e - ?n < fst (fetch_window s (Some l') tf now' None None)" if "e - ?n \<le> l'" "now \<le> now'" for l' now'
  proof -
    let ?e' = "previous_closed_bucket now' tf + tf_step tf"
    have "fst (fetch_window s (Some l') tf now' None None) = (if ?n < ?e' - (l' + tf_step tf) then ?e' - ?n else l' + tf_step tf)"
      by (simp add: fetch_window_def Let_def)
    moreover have "e - ?n < l' + tf_step tf" using that(1) tf_step_pos [of tf] by linarith
    moreover have "e - ?n < ?e' - ?n" if "?n < ?e' - (l' + tf_step tf)"
      using that \<open>e - ?n < l' + tf_step tf\<close> by linarith
    ultimately show ?thesis by (simp split: if_splits)
  qed
  then show ?thesis using assms by (auto simp: fetch_window_def Let_def)
qed

theorem capped_window_skips_witness:
  "fetch_window \<lparr>initial_history_days = 2, max_bars_per_cycle = 2\<rparr> (Some 0) H1 (10 * tf_step H1) None None
     = (10 * tf_step H1 - tf_step H1 * 2, 10 * tf_step H1)"
proof -
  have e: "10 * tf_step H1 = previous_closed_bucket (10 * tf_step H1) H1 + tf_step H1" by code_simp
  have "tf_step H1 * 2 < 10 * tf_step H1 - (0 + tf_step H1)" by code_simp
  with capped_window_skips [OF refl e, of "\<lparr>initial_history_days = 2, max_bars_per_cycle = 2\<rparr>" 0] show ?thesis by simp
qed

section \<open>Watchdog\<close>

definition friday_series :: market where
  "friday_series = \<lparr>instruments = [], candle_rows = [\<lparr>k_instrument_id = 1, k_timeframe = H1, k_ts = seconds_td 162000,
     k_open = 1, k_high = 1, k_low = 1, k_close = 1, k_volume = 0, k_source = ''x'', k_complete = True, k_tf_minutes = 60\<rparr>]\<rparr>"

lemma breached_single:
  "map breached (check_staleness [ins] [tf] now m) = [is_market_open now \<and>
     (case last_closed_ts (i_id ins) tf m of None \<Rightarrow> True
      | Some t \<Rightarrow> staleness_threshold_seconds tf < py_int (total_seconds (now - t)))]"
  by (simp add: check_staleness_def breached_def split: option.splits)

lemma closed_weekend:
  assumes "seconds_td 162000 < t" "t mod tf_step H1 = 0" "t < seconds_td 338400"
  shows "\<not> is_market_open t"
proof -
  obtain k where "t = tf_step H1 * k" using assms(2) by (meson dvdE mod_0_imp_dvd)
  then have t: "t = 3600000000 * k" by (simp add: tf_step_def seconds_td_def)
  then have "46 \<le> k" using assms(1) by (simp add: seconds_td_def)
  then have "- 172800000000 \<le> t - 338400000000" "t - 338400000000 < 0"
    using assms(3) by (simp_all add: t seconds_td_def)
  then have "(t - 338400000000) mod 604800000000 = t - 338400000000 + 604800000000" by (intro mod_week_neg) simp_all
  then have "week_pos t = t - 338400000000 + 604800000000" by (simp add: week_pos_def)
  then show ?thesis using \<open>- 172800000000 \<le> t - 338400000000\<close> by (simp add: is_market_open_week_pos)
qed

text \<open>
  The watchdog cries wolf at the weekly open: a series stored up to its very last bar before the
  Friday close is reported stale five minutes into the Sunday session, although no later bar of an
  open market has closed yet, because the age counts the hours the market was closed.
\<close>

theorem stale_at_weekly_open:
  "map breached (check_staleness [\<lparr>i_id = 1, i_symbol = ''EURUSD'', i_base = ''EUR'', i_quote = ''USD'',
       i_pip_size = 1, i_price_decimals = 5, i_active = True\<rparr>] [H1] (seconds_td 338700) friday_series) = [True]
   \<and> is_market_open (seconds_td 162000)
   \<and> \<not> (\<exists>t. seconds_td 162000 < t \<and> t mod tf_step H1 = 0 \<and> is_market_open t \<and> is_bar_closed t (seconds_td 338700) H1)"
proof -
  have closed: "\<not> is_market_open t" if "seconds_td 162000 < t" "t mod tf_step H1 = 0" "is_bar_closed t (seconds_td 338700) H1" for t
    using that by (intro closed_weekend) (simp_all add: is_bar_closed_def tf_step_def seconds_td_def)
  have last: "last_closed_ts 1 H1 friday_series = Some (seconds_td 162000)"
    by (simp add: last_closed_ts_def series_def friday_series_def)
  have "total_seconds (seconds_td 338700 - seconds_td 162000) = fl (of_int 176700)"
    by (simp add: total_seconds_def seconds_td_def)
  then have age: "py_int (total_seconds (seconds_td 338700 - seconds_td 162000)) = 176700"
    using py_int_fl_int [of 176700] by simp
  have th: "staleness_threshold_seconds H1 = 10800" by (simp add: staleness_threshold_seconds_def)
  have op: "is_market_open (seconds_td 162000)" "is_market_open (seconds_td 338700)"
    by (simp_all add: is_market_open_def weekday_def hour_of_def seconds_td_def)
  moreover have "map breached (check_staleness [\<lparr>i_id = 1, i_symbol = ''EURUSD'', i_base = ''EUR'', i_quote = ''USD'',
       i_pip_size = 1, i_price_decimals = 5, i_active = True\<rparr>] [H1] (seconds_td 338700) friday_series) = [True]"
    by (simp only: breached_single instrument.select_convs last option.case age op(2) th) simp
  moreover have "\<not> (\<exists>t. seconds_td 162000 < t \<and> t mod tf_step H1 = 0 \<and> is_market_open t \<and> is_bar_closed t (seconds_td 338700) H1)"
    using closed by meson
  ultimately show ?thesis by (intro conjI)
qed

end
