(* ===== verification/SignalStore.thy ===== *)
theory SignalStore
  imports Signals LedgerStore
begin

text \<open>
  Persisted signals (\<^verbatim>\<open>app/models/agent_signal.py\<close>, \<^verbatim>\<open>app/data/signal_repository.py\<close>): the
  table \<^verbatim>\<open>agent_signals\<close> as the list of its rows in insertion order, the first-writer-wins insert
  and the reads the decision engine makes. A confidence is written as a float and kept by the
  column as a decimal with 4 places.
\<close>

record signal_row =
  g_run_id :: string
  g_agent_id :: string
  g_agent_version :: string
  g_symbol :: string
  g_timeframe :: timeframe
  g_direction :: direction
  g_confidence :: rat
  g_bucket_ts :: datetime
  g_rationale :: "string option"
  g_features :: "(string \<times> json) list"
  g_created_at :: datetime
  g_valid_until :: "datetime option"

definition to_row_values :: "agent_signal \<Rightarrow> signal_row" where
  "to_row_values s =
     \<lparr>g_run_id = sg_run_id s, g_agent_id = sg_agent_id s, g_agent_version = sg_version s,
      g_symbol = upper (sg_symbol s), g_timeframe = sg_timeframe s, g_direction = sg_direction s,
      g_confidence = quantize 4 (to_dec (round_nd (sg_confidence s) 4)), g_bucket_ts = sg_bucket_ts s,
      g_rationale = Some (sg_rationale s), g_features = sg_features s, g_created_at = sg_created_at s,
      g_valid_until = Some (sg_valid_until s)\<rparr>"

text \<open>The unique key of the table.\<close>

definition signal_key :: "signal_row \<Rightarrow> string \<times> string \<times> timeframe \<times> datetime" where
  "signal_key r = (g_agent_id r, g_symbol r, g_timeframe r, g_bucket_ts r)"

text \<open>One \<^verbatim>\<open>INSERT .. ON CONFLICT DO NOTHING RETURNING id\<close>.\<close>

definition insert_signal :: "signal_row \<Rightarrow> signal_row list \<Rightarrow> bool \<times> signal_row list" where
  "insert_signal r rows = (if signal_key r \<in> signal_key ` set rows then (False, rows) else (True, rows @ [r]))"

fun save_signals :: "agent_signal list \<Rightarrow> signal_row list \<Rightarrow> nat \<times> signal_row list" where
  "save_signals [] rows = (0, rows)"
| "save_signals (s # ss) rows =
     (let (ins, rows1) = insert_signal (to_row_values s) rows; (n, rows2) = save_signals ss rows1
      in (if ins then n + 1 else n, rows2))"

text \<open>The \<^verbatim>\<open>conditions\<close> of both reads.\<close>

definition selected_signals :: "string \<Rightarrow> timeframe \<Rightarrow> string option \<Rightarrow> signal_row list \<Rightarrow> signal_row list" where
  "selected_signals symbol tf agent rows = filter (\<lambda>r. g_symbol r = upper symbol \<and> g_timeframe r = tf
     \<and> (case agent of None \<Rightarrow> True | Some a \<Rightarrow> a = '''' \<or> g_agent_id r = a)) rows"

text \<open>\<^verbatim>\<open>latest[row.agent_id] = row\<close> keeps a known agent's place in the dictionary.\<close>

definition keep_latest :: "(string \<times> signal_row) list \<Rightarrow> signal_row \<Rightarrow> (string \<times> signal_row) list" where
  "keep_latest latest r =
     (case map_of latest (g_agent_id r) of
        None \<Rightarrow> dict_set (g_agent_id r) r latest
      | Some c \<Rightarrow> if g_created_at c \<le> g_created_at r then dict_set (g_agent_id r) r latest else latest)"

definition load_latest_per_agent ::
  "string \<Rightarrow> timeframe \<Rightarrow> string option \<Rightarrow> datetime option \<Rightarrow> signal_row list \<Rightarrow> signal_row list" where
  "load_latest_per_agent symbol tf agent now rows =
     (let selected = selected_signals symbol tf agent rows;
          latest = foldl keep_latest [] selected;
          ordered = sort_key g_agent_id (map snd latest)
      in case now of None \<Rightarrow> ordered
         | Some n \<Rightarrow> filter (\<lambda>r. case g_valid_until r of None \<Rightarrow> True | Some v \<Rightarrow> n \<le> v) ordered)"

text \<open>\<^verbatim>\<open>ORDER BY created_at DESC, agent_id\<close>.\<close>

definition load_signal_history :: "string \<Rightarrow> timeframe \<Rightarrow> nat \<Rightarrow> string option \<Rightarrow> signal_row list \<Rightarrow> signal_row list" where
  "load_signal_history symbol tf limit agent rows =
     take limit (sort_key (\<lambda>r. (- g_created_at r, g_agent_id r))
       (selected_signals symbol tf agent rows))"

definition row_to_signal :: "signal_row \<Rightarrow> py_error + agent_signal" where
  "row_to_signal r =
     validate_signal \<lparr>sg_agent_id = g_agent_id r, sg_version = g_agent_version r, sg_symbol = g_symbol r,
       sg_timeframe = g_timeframe r, sg_direction = g_direction r, sg_confidence = fl (g_confidence r),
       sg_bucket_ts = g_bucket_ts r, sg_rationale = (case g_rationale r of None \<Rightarrow> '''' | Some s \<Rightarrow> s),
       sg_features = g_features r, sg_created_at = g_created_at r,
       sg_valid_until = (case g_valid_until r of None \<Rightarrow> g_bucket_ts r | Some v \<Rightarrow> v), sg_run_id = g_run_id r\<rparr>"

section \<open>First writer wins\<close>

definition signals_ok :: "signal_row list \<Rightarrow> bool" where
  "signals_ok rows = distinct (map signal_key rows)"

lemma save_signals_keys:
  assumes "save_signals ss rows = (n, rows')"
  shows "signal_key ` set rows' = signal_key ` set rows \<union> (signal_key \<circ> to_row_values) ` set ss
    \<and> n = card (signal_key ` set rows') - card (signal_key ` set rows) \<and> take (length rows) rows' = rows
    \<and> (signals_ok rows \<longrightarrow> signals_ok rows')"
  using assms
proof (induction ss arbitrary: rows n rows')
  case (Cons s ss)
  obtain ins rows1 where i: "insert_signal (to_row_values s) rows = (ins, rows1)" by fastforce
  obtain m where r: "save_signals ss rows1 = (m, rows')" "n = (if ins then m + 1 else m)"
    using Cons.prems i by (auto simp: Let_def split: prod.splits)
  note ih = Cons.IH [OF r(1)]
  have fin: "finite (signal_key ` set rows')" by simp
  show ?case
  proof (cases "signal_key (to_row_values s) \<in> signal_key ` set rows")
    case True
    then have "rows1 = rows" "\<not> ins" using i by (auto simp: insert_signal_def)
    with ih r(2) True show ?thesis by auto
  next
    case False
    then have e: "rows1 = rows @ [to_row_values s]" "ins" using i by (auto simp: insert_signal_def)
    have "card (signal_key ` set rows1) = Suc (card (signal_key ` set rows))" using False e by simp
    moreover have "card (signal_key ` set rows1) \<le> card (signal_key ` set rows')"
      using ih fin by (intro card_mono) auto
    moreover have "take (length rows) rows' = take (length rows) (take (length rows1) rows')"
      using e by simp
    moreover have "take (length rows) (take (length rows1) rows') = rows" using ih e by simp
    ultimately show ?thesis using ih e r(2) False by (auto simp: signals_ok_def)
  qed
qed auto

section \<open>Newest row per agent\<close>

definition latest_ok :: "signal_row list \<Rightarrow> (string \<times> signal_row) list \<Rightarrow> bool" where
  "latest_ok rows d = (distinct (map fst d) \<and> fst ` set d = g_agent_id ` set rows
     \<and> (\<forall>(a, r)\<in>set d. a = g_agent_id r \<and> r \<in> set rows
          \<and> (\<forall>r'\<in>set rows. g_agent_id r' = a \<longrightarrow> g_created_at r' \<le> g_created_at r)))"

lemma dict_set_mem: "distinct (map fst d) \<Longrightarrow> set (dict_set k v d) = insert (k, v) {x \<in> set d. fst x \<noteq> k}"
proof (induction d)
  case (Cons a d)
  then show ?case by (cases a) (auto simp: image_iff rev_image_eqI)
qed auto

lemma latest_ok_step: "latest_ok rows d \<Longrightarrow> latest_ok (rows @ [r]) (keep_latest d r)"
proof (cases "map_of d (g_agent_id r)")
  case None
  assume ok: "latest_ok rows d"
  have k: "keep_latest d r = dict_set (g_agent_id r) r d" using None by (simp add: keep_latest_def)
  have n: "g_agent_id r \<notin> fst ` set d" using None by (simp add: map_of_eq_None_iff)
  then have n': "\<forall>r'\<in>set rows. g_agent_id r' \<noteq> g_agent_id r"
    using ok unfolding latest_ok_def by (metis imageI)
  have "set (dict_set (g_agent_id r) r d) = insert (g_agent_id r, r) (set d)"
    using n ok by (auto simp: dict_set_mem latest_ok_def rev_image_eqI)
  moreover have "(g_agent_id r, b) \<notin> set d" for b using n by force
  ultimately show ?thesis using ok n' unfolding k by (auto simp: latest_ok_def distinct_dict_set)
next
  case (Some c)
  assume ok: "latest_ok rows d"
  have c: "(g_agent_id r, c) \<in> set d" using Some by (rule map_of_SomeD)
  have u: "x = c" if "(g_agent_id r, x) \<in> set d" for x
    using ok c that unfolding latest_ok_def by (metis eq_key_imp_eq_value)
  have k: "g_agent_id r \<in> g_agent_id ` set rows" using ok c by (force simp: latest_ok_def)
  show ?thesis
  proof (cases "g_created_at c \<le> g_created_at r")
    case True
    then have e: "keep_latest d r = dict_set (g_agent_id r) r d" using Some by (simp add: keep_latest_def)
    have st: "set (dict_set (g_agent_id r) r d) = insert (g_agent_id r, r) {x \<in> set d. fst x \<noteq> g_agent_id r}"
      using ok by (simp add: dict_set_mem latest_ok_def)
    have old: "\<forall>r'\<in>set rows. g_agent_id r' = g_agent_id r \<longrightarrow> g_created_at r' \<le> g_created_at r"
      using ok c True unfolding latest_ok_def by fastforce
    have "distinct (map fst (dict_set (g_agent_id r) r d)) \<and> fst ` set (dict_set (g_agent_id r) r d) = g_agent_id ` set (rows @ [r])"
      using ok by (simp add: latest_ok_def distinct_dict_set keys_dict_set)
    with ok old show ?thesis unfolding e latest_ok_def st by auto
  next
    case False
    then have "keep_latest d r = d" using Some by (simp add: keep_latest_def)
    with ok u k False show ?thesis by (auto simp: latest_ok_def)
  qed
qed

lemma latest_ok_fold: "latest_ok rows (foldl keep_latest [] rows)"
  by (induction rows rule: rev_induct) (simp_all add: latest_ok_step, simp add: latest_ok_def)

lemma load_latest_mem:
  assumes "r \<in> set (load_latest_per_agent symbol tf agent now rows)"
  shows "\<exists>a. (a, r) \<in> set (foldl keep_latest [] (selected_signals symbol tf agent rows))"
    "now = Some n \<Longrightarrow> g_valid_until r \<noteq> None \<Longrightarrow> n \<le> the (g_valid_until r)"
  using assms by (auto simp: load_latest_per_agent_def Let_def split: option.splits)

lemma load_latest_set:
  assumes "r \<in> set (load_latest_per_agent symbol tf agent now rows)"
  shows "r \<in> set (selected_signals symbol tf agent rows)
     \<and> (\<forall>r'\<in>set (selected_signals symbol tf agent rows). g_agent_id r' = g_agent_id r \<longrightarrow> g_created_at r' \<le> g_created_at r)"
proof -
  obtain a where "(a, r) \<in> set (foldl keep_latest [] (selected_signals symbol tf agent rows))"
    using load_latest_mem(1) [OF assms] by blast
  with latest_ok_fold [of "selected_signals symbol tf agent rows"] show ?thesis unfolding latest_ok_def by fast
qed

lemma load_latest_distinct: "distinct (map g_agent_id (load_latest_per_agent symbol tf agent now rows))"
proof -
  let ?d = "foldl keep_latest [] (selected_signals symbol tf agent rows)"
  have d: "distinct (map fst ?d)" "\<forall>(a, r)\<in>set ?d. a = g_agent_id r"
    using latest_ok_fold [of "selected_signals symbol tf agent rows"] by (auto simp: latest_ok_def)
  then have "map fst ?d = map g_agent_id (map snd ?d)" by (auto simp: case_prod_beta)
  with d have "distinct (map g_agent_id (map snd ?d))" by simp
  moreover have "mset (map g_agent_id (sort_key g_agent_id (map snd ?d))) = mset (map g_agent_id (map snd ?d))"
    by (simp only: mset_map mset_sort)
  ultimately have "distinct (map g_agent_id (sort_key g_agent_id (map snd ?d)))"
    using mset_eq_imp_distinct_iff [of "map g_agent_id (sort_key g_agent_id (map snd ?d))" "map g_agent_id (map snd ?d)"] by simp
  then show ?thesis
    by (auto simp: load_latest_per_agent_def Let_def distinct_map_filter split: option.splits)
qed

end
