(* ===== verification/DecisionStore.thy ===== *)
theory DecisionStore
  imports Risk LedgerStore
begin

text \<open>
  Decisions, risk evaluations and rolling risk counters (\<^verbatim>\<open>app/models/decision.py\<close>,
  \<^verbatim>\<open>risk_evaluation.py\<close>, \<^verbatim>\<open>risk_state.py\<close>) with the reads and writes of
  \<^verbatim>\<open>app/data/decision_repository.py\<close>. Each table is the list of its rows in insertion order;
  numeric columns hold decimals at their declared scale. \<^verbatim>\<open>uuid4()\<close> and the transaction's
  \<^verbatim>\<open>now()\<close> are arguments. Texts with formatted numbers keep the numbers they format.
\<close>

section \<open>Rows\<close>

datatype decision_status = ANALYSIS | PAPER | BLOCKED

text \<open>The texts a decision's \<^verbatim>\<open>veto_reason\<close> may be, and its \<^verbatim>\<open>rationale\<close>:
  \<^verbatim>\<open>status=S\<close>, with \<^verbatim>\<open>veto=code: reason\<close> when there is a veto.\<close>

datatype veto_text = LowAgreement f64 | RiskGateDisabled | GateText gate_detail | RiskGateFailed | WithinCooldown

datatype rationale_text = Rationale "decision_status option" "(string \<times> veto_text option) option"

record decision_row =
  dr_id :: uuid
  dr_run_id :: string
  dr_symbol :: string
  dr_timeframe :: timeframe
  dr_bucket_ts :: datetime
  dr_fused_direction :: direction
  dr_confidence :: rat
  dr_agreement :: rat
  dr_status :: decision_status
  dr_veto_code :: "string option"
  dr_veto_reason :: "veto_text option"
  dr_inputs_hash :: string
  dr_weights :: weights
  dr_code_versions :: "(string \<times> string) list"
  dr_rationale :: "rationale_text option"
  dr_decision_at :: datetime
  dr_valid_until :: "datetime option"

record risk_evaluation_row =
  re_id :: uuid
  re_decision_id :: "uuid option"
  re_symbol :: string
  re_timeframe :: timeframe
  re_bucket_ts :: datetime
  re_position_size_units :: "rat option"
  re_price :: "rat option"
  re_atr :: "rat option"
  re_stop_loss :: "rat option"
  re_take_profit :: "rat option"
  re_rr_ratio :: "rat option"
  re_risk_pct_account :: "rat option"
  re_exposure_ok :: bool
  re_correlation_ok :: bool
  re_daily_loss_ok :: bool
  re_drawdown_ok :: bool
  re_passed :: bool
  re_reasons :: "gate_reason list"
  re_evaluated_at :: datetime

record risk_state_row =
  rs_id :: uuid
  rs_scope :: string
  rs_period_key :: string
  rs_realized_loss :: rat
  rs_peak_equity :: rat
  rs_max_drawdown :: rat
  rs_exposure :: rat

type_synonym row_key3 = "string \<times> timeframe \<times> datetime"

definition decision_key :: "decision_row \<Rightarrow> row_key3" where
  "decision_key r = (dr_symbol r, dr_timeframe r, dr_bucket_ts r)"

definition evaluation_key :: "risk_evaluation_row \<Rightarrow> row_key3" where
  "evaluation_key r = (re_symbol r, re_timeframe r, re_bucket_ts r)"

section \<open>Writes\<close>

definition decision_values ::
  "uuid \<Rightarrow> datetime \<Rightarrow> string \<Rightarrow> string \<Rightarrow> timeframe \<Rightarrow> datetime \<Rightarrow> fused_result \<Rightarrow> decision_status \<Rightarrow> string option
   \<Rightarrow> veto_text option \<Rightarrow> string \<Rightarrow> (string \<times> string) list \<Rightarrow> rationale_text option \<Rightarrow> datetime option \<Rightarrow> decision_row" where
  "decision_values new_id server_now run_id symbol tf bucket_ts fused status veto_code veto_reason hash versions rationale valid_until =
     \<lparr>dr_id = new_id, dr_run_id = run_id, dr_symbol = upper symbol, dr_timeframe = tf, dr_bucket_ts = bucket_ts,
      dr_fused_direction = fr_direction fused, dr_confidence = quantize 4 (to_dec (round_nd (fr_confidence fused) 4)),
      dr_agreement = quantize 4 (to_dec (round_nd (fr_agreement fused) 4)), dr_status = status, dr_veto_code = veto_code,
      dr_veto_reason = veto_reason, dr_inputs_hash = hash, dr_weights = fr_weights fused, dr_code_versions = versions,
      dr_rationale = rationale, dr_decision_at = server_now, dr_valid_until = valid_until\<rparr>"

definition save_decision :: "decision_row \<Rightarrow> decision_row list \<Rightarrow> bool \<times> decision_row list" where
  "save_decision r rows = (if decision_key r \<in> decision_key ` set rows then (False, rows) else (True, rows @ [r]))"

text \<open>\<^verbatim>\<open>outcome.gates[k].ok\<close>; every outcome of the gate has the five keys.\<close>

definition gate_ok :: "risk_outcome \<Rightarrow> string \<Rightarrow> bool" where
  "gate_ok out k = (case map_of (ro_gates out) k of Some g \<Rightarrow> gr_ok g | None \<Rightarrow> False)"

definition evaluation_values ::
  "uuid \<Rightarrow> datetime \<Rightarrow> uuid option \<Rightarrow> string \<Rightarrow> timeframe \<Rightarrow> datetime \<Rightarrow> risk_outcome \<Rightarrow> risk_evaluation_row" where
  "evaluation_values new_id server_now did symbol tf bucket_ts out =
     (let col = (\<lambda>n f. map_option (\<lambda>z. quantize n (to_dec (f z))) (ro_sizing out))
      in \<lparr>re_id = new_id, re_decision_id = did, re_symbol = upper symbol, re_timeframe = tf, re_bucket_ts = bucket_ts,
          re_position_size_units = col 6 position_size_units, re_price = col 8 sz_price, re_atr = col 8 sz_atr,
          re_stop_loss = col 8 sz_stop_loss, re_take_profit = col 8 sz_take_profit, re_rr_ratio = col 4 rr_ratio,
          re_risk_pct_account = col 4 risk_pct_account, re_exposure_ok = gate_ok out ''exposure'',
          re_correlation_ok = gate_ok out ''correlation'', re_daily_loss_ok = gate_ok out ''daily_loss'',
          re_drawdown_ok = gate_ok out ''drawdown'', re_passed = ro_passed out, re_reasons = outcome_reasons out,
          re_evaluated_at = server_now\<rparr>)"

definition save_risk_evaluation ::
  "uuid \<Rightarrow> datetime \<Rightarrow> uuid option \<Rightarrow> string \<Rightarrow> timeframe \<Rightarrow> datetime \<Rightarrow> risk_outcome
   \<Rightarrow> risk_evaluation_row list \<Rightarrow> bool \<times> risk_evaluation_row list" where
  "save_risk_evaluation new_id server_now did symbol tf bucket_ts out rows =
     (let r = evaluation_values new_id server_now did symbol tf bucket_ts out
      in if evaluation_key r \<in> evaluation_key ` set rows then (False, rows) else (True, rows @ [r]))"

text \<open>\<^verbatim>\<open>INSERT .. ON CONFLICT (scope, period_key) DO UPDATE\<close> of the counters that were given.\<close>

definition upsert_risk_state ::
  "uuid \<Rightarrow> string \<Rightarrow> string \<Rightarrow> f64 option \<Rightarrow> f64 option \<Rightarrow> f64 option \<Rightarrow> f64 option
   \<Rightarrow> risk_state_row list \<Rightarrow> risk_state_row list" where
  "upsert_risk_state new_id scope period realized peak dd expo rows =
     (let col = (\<lambda>n v old. case v of None \<Rightarrow> old | Some x \<Rightarrow> quantize n (to_dec x)) in
      if \<exists>r\<in>set rows. rs_scope r = scope \<and> rs_period_key r = period then
        map (\<lambda>r. if rs_scope r = scope \<and> rs_period_key r = period then
            r\<lparr>rs_realized_loss := col 8 realized (rs_realized_loss r), rs_peak_equity := col 8 peak (rs_peak_equity r),
              rs_max_drawdown := col 8 dd (rs_max_drawdown r), rs_exposure := col 6 expo (rs_exposure r)\<rparr> else r) rows
      else rows @ [\<lparr>rs_id = new_id, rs_scope = scope, rs_period_key = period, rs_realized_loss = col 8 realized 0,
             rs_peak_equity = col 8 peak 0, rs_max_drawdown = col 8 dd 0, rs_exposure = col 6 expo 0\<rparr>])"

section \<open>Reads\<close>

text \<open>\<^verbatim>\<open>ORDER BY decision_at DESC LIMIT 1\<close>; of rows with equal times (one transaction writes at
  most one row of a series) the first.\<close>

definition newest_decision :: "decision_row list \<Rightarrow> decision_row option" where
  "newest_decision rows = (case rows of [] \<Rightarrow> None
     | r # rs \<Rightarrow> Some (foldl (\<lambda>best x. if dr_decision_at best < dr_decision_at x then x else best) r rs))"

definition load_latest_decision :: "string \<Rightarrow> timeframe \<Rightarrow> datetime option \<Rightarrow> decision_row list \<Rightarrow> decision_row option" where
  "load_latest_decision symbol tf now rows =
     newest_decision (filter (\<lambda>r. dr_symbol r = upper symbol \<and> dr_timeframe r = tf
        \<and> (case now of None \<Rightarrow> True | Some n \<Rightarrow> (case dr_valid_until r of None \<Rightarrow> True | Some v \<Rightarrow> n \<le> v))) rows)"

definition load_decisions :: "string \<Rightarrow> timeframe \<Rightarrow> nat \<Rightarrow> string \<Rightarrow> decision_row list \<Rightarrow> decision_row list" where
  "load_decisions symbol tf limit order rows =
     take limit (sort_key (\<lambda>r. if order = ''desc'' then - dr_decision_at r else dr_decision_at r)
       (filter (\<lambda>r. dr_symbol r = upper symbol \<and> dr_timeframe r = tf) rows))"

definition load_risk_evaluations :: "string \<Rightarrow> timeframe \<Rightarrow> nat \<Rightarrow> risk_evaluation_row list \<Rightarrow> risk_evaluation_row list" where
  "load_risk_evaluations symbol tf limit rows =
     take limit (sort_key (\<lambda>r. - re_evaluated_at r) (filter (\<lambda>r. re_symbol r = upper symbol \<and> re_timeframe r = tf) rows))"

definition load_risk_state :: "string \<Rightarrow> string \<Rightarrow> risk_state_row list \<Rightarrow> risk_state_row option" where
  "load_risk_state scope period rows = find (\<lambda>r. rs_scope r = scope \<and> rs_period_key r = period) rows"

record paper_snapshot =
  ps_symbol :: string
  ps_notional :: f64
  ps_basket :: "string set"

definition load_active_paper_snapshot ::
  "datetime \<Rightarrow> string option \<Rightarrow> decision_row list \<Rightarrow> risk_evaluation_row list \<Rightarrow> paper_snapshot list" where
  "load_active_paper_snapshot now symbol ds es =
     concat (map (\<lambda>d. List.map_filter (\<lambda>e.
         case (re_position_size_units e, re_price e) of
           (Some u, Some x) \<Rightarrow> if re_decision_id e = Some (dr_id d)
             then Some \<lparr>ps_symbol = dr_symbol d, ps_notional = fl u * fl x, ps_basket = basket (dr_symbol d)\<rparr> else None
         | _ \<Rightarrow> None) es)
       (sort_key dr_decision_at (filter (\<lambda>d. dr_status d = PAPER
          \<and> (case dr_valid_until d of None \<Rightarrow> False | Some v \<Rightarrow> now \<le> v)
          \<and> (case symbol of None \<Rightarrow> True | Some s \<Rightarrow> dr_symbol d = upper s)) ds)))"

section \<open>Facts\<close>

lemma save_decision_cases:
  "save_decision r rows = (created, rows') \<Longrightarrow>
     (created \<and> rows' = rows @ [r] \<and> decision_key r \<notin> decision_key ` set rows)
     \<or> (\<not> created \<and> rows' = rows \<and> decision_key r \<in> decision_key ` set rows)"
  by (auto simp: save_decision_def split: if_splits)

lemma foldl_newest:
  "foldl (\<lambda>best x. if dr_decision_at best < dr_decision_at x then x else best) r rs \<in> set (r # rs)
   \<and> (\<forall>x\<in>set (r # rs). dr_decision_at x \<le> dr_decision_at (foldl (\<lambda>best x. if dr_decision_at best < dr_decision_at x then x else best) r rs))"
proof (induction rs arbitrary: r)
  case (Cons a rs)
  show ?case using Cons.IH [of "if dr_decision_at r < dr_decision_at a then a else r"] by (auto split: if_splits)
qed simp

lemma newest_decision_Some:
  "newest_decision rows = Some r \<Longrightarrow> r \<in> set rows \<and> (\<forall>x\<in>set rows. dr_decision_at x \<le> dr_decision_at r)"
  using foldl_newest by (cases rows) (auto simp: newest_decision_def)

lemma newest_decision_None: "newest_decision rows = None \<longleftrightarrow> rows = []"
  by (cases rows) (auto simp: newest_decision_def)

lemma newest_decision_append:
  "\<forall>x\<in>set rows. dr_decision_at x < dr_decision_at r \<Longrightarrow> newest_decision (rows @ [r]) = Some r"
proof (cases rows)
  case (Cons a rs)
  assume "\<forall>x\<in>set rows. dr_decision_at x < dr_decision_at r"
  with foldl_newest [of a rs] Cons show ?thesis by (auto simp: newest_decision_def)
qed (simp add: newest_decision_def)

lemma save_risk_evaluation_cases:
  "save_risk_evaluation i t did s tf b out rows = (created, rows') \<Longrightarrow>
     (created \<and> rows' = rows @ [evaluation_values i t did s tf b out] \<and> (upper s, tf, b) \<notin> evaluation_key ` set rows)
     \<or> (\<not> created \<and> rows' = rows \<and> (upper s, tf, b) \<in> evaluation_key ` set rows)"
  by (auto simp: save_risk_evaluation_def evaluation_key_def evaluation_values_def Let_def split: if_splits)

end
