(* ===== verification/Engine.thy ===== *)
theory Engine
  imports SignalStore DecisionStore MarketData
begin

text \<open>
  The decision engine (\<^verbatim>\<open>app/decisions/engine.py\<close>, \<^verbatim>\<open>app/decisions/hashing.py\<close>): the pure
  \<open>compute_decision\<close> and \<open>decide\<close>, which reads its inputs from the tables, computes, and writes the
  decision, its risk evaluation and the risk counters. The database is one record of tables. The
  configured weights, thresholds and the settings the legacy path reads are arguments; SHA-256 is
  the argument \<open>sha\<close>, applied to the payload whose canonical JSON the code hashes; metrics are left out.
\<close>

section \<open>Values\<close>

record orch_params =
  op_coverage_min :: f64
  op_agreement_min :: f64
  op_threshold :: f64
  op_hysteresis :: f64
  op_context_weight :: f64
  op_cooldown_seconds :: int
  op_weights :: "(string \<times> weights) list"

record decision_inputs =
  di_symbol :: string
  di_timeframe :: timeframe
  di_bucket_ts :: datetime
  di_now :: datetime
  di_signals :: "string \<rightharpoonup> agent_signal"
  di_regime :: string
  di_atr :: "f64 option"
  di_price :: "f64 option"
  di_coverage :: f64
  di_gate :: gate_state
  di_parent_context :: "context_input option"

record risk_live =
  rl_equity :: f64
  rl_peak_equity :: f64
  rl_cumulative_realized :: f64

datatype decision_action = SKIP | PERSIST
datatype skip_reason = NO_VOTES | INSUFFICIENT_COVERAGE | WEAK_FLAT

record decision_outcome =
  oc_action :: decision_action
  oc_fused :: fused_result
  oc_status :: "decision_status option"
  oc_risk :: "risk_outcome option"
  oc_coverage :: f64
  oc_skip_reason :: "skip_reason option"
  oc_veto_code :: "string option"
  oc_veto_reason :: "veto_text option"

definition AGENT_FAMILIES :: "string list" where
  "AGENT_FAMILIES = [''technical'', ''regime'', ''fundamental'', ''sentiment'']"

definition coverage_of :: "(string \<rightharpoonup> agent_signal) \<Rightarrow> f64" where
  "coverage_of signals =
     fl (of_nat (length (filter (\<lambda>a. signals a \<noteq> None) AGENT_FAMILIES))) / fl (of_nat (length AGENT_FAMILIES))"

definition first_failing :: "string \<Rightarrow> risk_outcome \<Rightarrow> (string \<times> veto_text) option" where
  "first_failing name out = (case map_of (ro_gates out) name of
     Some g \<Rightarrow> if \<not> gr_ok g then Some (name, GateText (gr_detail g)) else None | None \<Rightarrow> None)"

definition skip_outcome :: "fused_result \<Rightarrow> f64 \<Rightarrow> skip_reason \<Rightarrow> decision_outcome" where
  "skip_outcome fused cov r = \<lparr>oc_action = SKIP, oc_fused = fused, oc_status = None, oc_risk = None, oc_coverage = cov,
     oc_skip_reason = Some r, oc_veto_code = None, oc_veto_reason = None\<rparr>"

text \<open>The chain of \<^verbatim>\<open>_first_failing(..) or ..\<close>.\<close>

definition decisive_veto :: "risk_outcome \<Rightarrow> string \<times> veto_text" where
  "decisive_veto out =
     (case List.map_filter (\<lambda>k. first_failing k out) [''rr'', ''exposure'', ''correlation'', ''daily_loss'', ''drawdown'']
      of v # _ \<Rightarrow> v | [] \<Rightarrow> (''risk'', RiskGateFailed))"

text \<open>\<^verbatim>\<open>FusionParams(..)\<close> with the configured weights, or the default ones when there are none.\<close>

definition fusion_params_of :: "orch_params \<Rightarrow> fusion_params" where
  "fusion_params_of orch = \<lparr>fp_threshold = op_threshold orch, fp_hysteresis = op_hysteresis orch,
     fp_weights = (if op_weights orch \<noteq> [] then op_weights orch else DEFAULT_WEIGHTS)\<rparr>"

definition compute_decision :: "decision_inputs \<Rightarrow> orch_params \<Rightarrow> risk_params \<Rightarrow> py_error + decision_outcome" where
  "compute_decision inp orch risk =
     (case fuse (di_signals inp) (di_regime inp) (Some (fusion_params_of orch)) of
        Inl e \<Rightarrow> Inl e
      | Inr fused0 \<Rightarrow>
          let fused = (if di_parent_context inp \<noteq> None then apply_context fused0 (di_parent_context inp) else fused0) in
          if \<not> has_votes fused then Inr (skip_outcome fused 0 NO_VOTES)
          else if di_coverage inp < op_coverage_min orch
            then Inr (skip_outcome fused (di_coverage inp) INSUFFICIENT_COVERAGE)
          else if fr_direction fused = FLAT then Inr (skip_outcome fused (di_coverage inp) WEAK_FLAT)
          else
            let out = assess (fr_direction fused) (di_atr inp) (di_price inp) (di_gate inp) risk;
                promotable = (op_agreement_min orch \<le> fr_agreement fused);
                (status, code, reason) =
                  (if \<not> promotable then (ANALYSIS, Some ''low_agreement'', Some (LowAgreement (fr_agreement fused)))
                   else if ro_passed out \<and> ro_paper out then (PAPER, None, None)
                   else if ro_passed out then (ANALYSIS, Some ''risk_disabled'', Some RiskGateDisabled)
                   else (BLOCKED, Some (fst (decisive_veto out)), Some (snd (decisive_veto out))))
            in Inr \<lparr>oc_action = PERSIST, oc_fused = fused, oc_status = Some status, oc_risk = Some out,
                 oc_coverage = di_coverage inp, oc_skip_reason = None, oc_veto_code = code, oc_veto_reason = reason\<rparr>)"

section \<open>Database reads\<close>

record engine_db =
  db_signals :: "signal_row list"
  db_decisions :: "decision_row list"
  db_evaluations :: "risk_evaluation_row list"
  db_risk_state :: "risk_state_row list"
  db_market :: market
  db_risk_setting :: "json option"

text \<open>\<^verbatim>\<open>now.astimezone(UTC).strftime("%Y-%m-%d")\<close>: the civil date of a day number since 1970-01-01.\<close>

definition civil_date :: "int \<Rightarrow> int \<times> int \<times> int" where
  "civil_date days =
     (let z = days + 719468; era = z div 146097; doe = z - era * 146097;
          yoe = (doe - doe div 1460 + doe div 36524 - doe div 146096) div 365;
          doy = doe - (365 * yoe + yoe div 4 - yoe div 100); mp = (5 * doy + 2) div 153;
          m = (if mp < 10 then mp + 3 else mp - 9)
      in (yoe + era * 400 + (if m \<le> 2 then 1 else 0), m, doy - (153 * mp + 2) div 5 + 1))"

definition pad :: "nat \<Rightarrow> int \<Rightarrow> string" where
  "pad n k = replicate (n - length (show_int k)) CHR ''0'' @ show_int k"

definition daily_key :: "datetime \<Rightarrow> string" where
  "daily_key now = (case civil_date (now div days_td 1) of (y, m, d) \<Rightarrow> pad 4 y @ ''-'' @ pad 2 m @ ''-'' @ pad 2 d)"

text \<open>\<^verbatim>\<open>datetime.isoformat()\<close> of an instant in UTC.\<close>

definition isoformat :: "datetime \<Rightarrow> string" where
  "isoformat t =
     (let us = t mod 1000000; s = t div 1000000 mod 86400 in
      daily_key t @ ''T'' @ pad 2 (s div 3600) @ '':'' @ pad 2 (s div 60 mod 60) @ '':'' @ pad 2 (s mod 60)
      @ (if us = 0 then '''' else ''.'' @ pad 6 us) @ ''+00:00'')"

definition resolve_atr_price ::
  "uuid \<Rightarrow> string \<Rightarrow> timeframe \<Rightarrow> datetime \<Rightarrow> engine_db \<Rightarrow> py_error + (f64 option \<times> f64 option) \<times> market" where
  "resolve_atr_price new_id symbol tf bucket_ts db =
     (let technical = load_latest_per_agent symbol tf (Some ''technical'') None (db_signals db);
          atr = (case technical of [] \<Rightarrow> Inr None
            | r # _ \<Rightarrow> (case row_to_signal r of Inl e \<Rightarrow> Inl e
                | Inr s \<Rightarrow> Inr (Option.bind (json_get (sg_features s) ''atr14'') json_number)))
      in case atr of Inl e \<Rightarrow> Inl e
         | Inr a \<Rightarrow>
           (let (ins, m) = get_or_create_instrument new_id symbol (db_market db);
                price = (case rev (sort_key k_ts (filter (\<lambda>k. k_ts k \<le> bucket_ts) (series (i_id ins) tf m))) of
                    [] \<Rightarrow> None | k # _ \<Rightarrow> Some (fl (k_close k)))
            in Inr ((a, price), m)))"

definition db_gate_state :: "string \<Rightarrow> datetime \<Rightarrow> f64 \<Rightarrow> engine_db \<Rightarrow> gate_state" where
  "db_gate_state symbol now eq db =
     (let daily = load_risk_state ''daily'' (daily_key now) (db_risk_state db);
          account = load_risk_state ''account'' ''global'' (db_risk_state db);
          snaps = load_active_paper_snapshot now None (db_decisions db) (db_evaluations db);
          total_notional = py_sum (map ps_notional snaps);
          target = basket symbol;
          touching = filter (\<lambda>s. ps_basket s \<inter> target \<noteq> {}) snaps;
          basket_total = py_sum (map ps_notional touching)
      in \<lparr>exposure_used_pct = (if eq \<noteq> 0 then total_notional / eq else 0),
          correlation_used_pct = (if eq \<noteq> 0 then basket_total / eq else 0),
          daily_loss_used_pct = (case daily of Some r \<Rightarrow> fl (rs_realized_loss r) | None \<Rightarrow> 0),
          drawdown_used_pct = (case account of Some r \<Rightarrow> fl (rs_max_drawdown r) | None \<Rightarrow> 0),
          gs_correlation_triggered = (touching \<noteq> [])\<rparr>)"

fun first_parent :: "string \<Rightarrow> timeframe list \<Rightarrow> datetime \<Rightarrow> decision_row list \<Rightarrow> context_input option" where
  "first_parent symbol [] now ds = None"
| "first_parent symbol (tf # tfs) now ds =
     (case load_latest_decision symbol tf (Some now) ds of
        None \<Rightarrow> first_parent symbol tfs now ds
      | Some parent \<Rightarrow>
          if dr_fused_direction parent = FLAT \<or> dr_confidence parent \<le> 0 then first_parent symbol tfs now ds
          else Some \<lparr>ci_direction = dr_fused_direction parent, ci_confidence = fl (dr_confidence parent),
                     ci_weight = fl (15 / 100)\<rparr>)"

definition parent_context :: "string \<Rightarrow> timeframe \<Rightarrow> timeframe list \<Rightarrow> datetime \<Rightarrow> decision_row list \<Rightarrow> context_input option" where
  "parent_context symbol tf configured now ds =
     first_parent symbol (drop 1 (dropWhile (\<lambda>t. t \<noteq> tf) (sort_key tf_rank configured))) now ds"

section \<open>Deciding\<close>

record decide_result =
  rz_symbol :: string
  rz_timeframe :: timeframe
  rz_bucket_ts :: datetime
  rz_action :: decision_action
  rz_created :: bool
  rz_status :: "decision_status option"
  rz_direction :: "direction option"
  rz_confidence :: f64
  rz_agreement :: f64
  rz_coverage :: f64
  rz_veto_code :: "string option"
  rz_skip_reason :: "skip_reason option"
  rz_inputs_hash :: string

definition no_votes :: "string \<Rightarrow> timeframe \<Rightarrow> datetime \<Rightarrow> decide_result" where
  "no_votes symbol tf ts = \<lparr>rz_symbol = symbol, rz_timeframe = tf, rz_bucket_ts = ts, rz_action = SKIP, rz_created = False,
     rz_status = None, rz_direction = None, rz_confidence = 0, rz_agreement = 0, rz_coverage = 0, rz_veto_code = None,
     rz_skip_reason = Some NO_VOTES, rz_inputs_hash = ''''\<rparr>"

fun rows_to_signals :: "signal_row list \<Rightarrow> py_error + agent_signal list" where
  "rows_to_signals [] = Inr []"
| "rows_to_signals (r # rs) =
     (case row_to_signal r of Inl e \<Rightarrow> Inl e
      | Inr s \<Rightarrow> (case rows_to_signals rs of Inl e \<Rightarrow> Inl e | Inr ss \<Rightarrow> Inr (s # ss)))"

definition by_agent :: "agent_signal list \<Rightarrow> (string \<times> agent_signal) list" where
  "by_agent sigs = foldl (\<lambda>d s. dict_set (sg_agent_id s) s d) [] sigs"

fun max_bucket :: "datetime \<Rightarrow> agent_signal list \<Rightarrow> datetime" where
  "max_bucket dflt [] = dflt"
| "max_bucket dflt (s # ss) = foldl (\<lambda>m x. if m < sg_bucket_ts x then sg_bucket_ts x else m) (sg_bucket_ts s) ss"

text \<open>\<^verbatim>\<open>str(features.get("regime", "unknown"))\<close>.\<close>

definition regime_label :: "(json \<Rightarrow> string) \<Rightarrow> agent_signal option \<Rightarrow> string" where
  "regime_label R s = (case s of None \<Rightarrow> ''unknown''
     | Some s \<Rightarrow> (case json_get (sg_features s) ''regime'' of None \<Rightarrow> ''unknown'' | Some j \<Rightarrow> py_str R j))"

text \<open>What the hash covers.\<close>

record hash_payload =
  hp_symbol :: string
  hp_timeframe :: timeframe
  hp_bucket_ts :: datetime
  hp_agent_versions :: "(string \<times> string) list"
  hp_weights :: "(string \<times> f64) list"

definition inputs_hash ::
  "(hash_payload \<Rightarrow> string) \<Rightarrow> string \<Rightarrow> timeframe \<Rightarrow> datetime \<Rightarrow> (string \<times> string) list \<Rightarrow> weights \<Rightarrow> string" where
  "inputs_hash sha symbol tf bucket_ts versions w =
     sha \<lparr>hp_symbol = upper symbol, hp_timeframe = tf, hp_bucket_ts = bucket_ts, hp_agent_versions = sort versions,
          hp_weights = sort (map (\<lambda>(k, v). (k, round_nd v 6)) w)\<rparr>"

definition rationale_of :: "decision_outcome \<Rightarrow> rationale_text" where
  "rationale_of out = Rationale (oc_status out)
     (case oc_veto_code out of None \<Rightarrow> None | Some c \<Rightarrow> if c = '''' then None else Some (c, oc_veto_reason out))"

text \<open>The environment of one call: fresh ids, the clock at the start, the engine's \<^verbatim>\<open>now\<close>, the
  transaction's \<^verbatim>\<open>now()\<close>, hashing and rendering, and the settings the legacy exposure refresh reads.\<close>

record engine_env =
  en_ids :: "nat \<Rightarrow> uuid"
  en_started :: datetime
  en_now :: datetime
  en_server_now :: datetime
  en_sha :: "hash_payload \<Rightarrow> string"
  en_render :: "json \<Rightarrow> string"
  en_float :: float_str
  en_risk_base :: risk_params

definition latest_decision_id :: "string \<Rightarrow> timeframe \<Rightarrow> datetime \<Rightarrow> decision_row list \<Rightarrow> uuid option" where
  "latest_decision_id symbol tf bucket_ts ds =
     map_option dr_id (find (\<lambda>d. dr_symbol d = upper symbol \<and> dr_timeframe d = tf \<and> dr_bucket_ts d = bucket_ts) ds)"

definition refresh_exposure :: "engine_env \<Rightarrow> gate_state option \<Rightarrow> risk_live option \<Rightarrow> engine_db \<Rightarrow> engine_db" where
  "refresh_exposure env gate live db =
     (let day = daily_key (en_now env);
          daily = load_risk_state ''daily'' day (db_risk_state db);
          account = load_risk_state ''account'' ''global'' (db_risk_state db);
          write = (\<lambda>realized peak dd daily_loss expo.
            db\<lparr>db_risk_state := upsert_risk_state (en_ids env 4) ''daily'' day (Some daily_loss) None None (Some expo)
                 (upsert_risk_state (en_ids env 3) ''account'' ''global'' (Some realized) (Some peak) (Some dd) (Some expo)
                    (db_risk_state db))\<rparr>)
      in case (gate, live) of
        (Some g, Some l) \<Rightarrow>
          write (if rl_equity l \<noteq> 0 then max 0 (- rl_cumulative_realized l) / rl_equity l else 0)
            (rl_peak_equity l) (drawdown_used_pct g) (daily_loss_used_pct g) (exposure_used_pct g)
      | _ \<Rightarrow>
          let total_notional = py_sum (map ps_notional
                (load_active_paper_snapshot (en_now env) None (db_decisions db) (db_evaluations db)));
              risk = load_risk_params (en_float env) (en_risk_base env) (db_risk_setting db);
              eq = (if paper_equity risk \<noteq> 0 then paper_equity risk else fl 100000);
              expo = (if eq \<noteq> 0 then total_notional / eq else 0)
          in write (case account of Some r \<Rightarrow> fl (rs_realized_loss r) | None \<Rightarrow> 0)
               (case account of Some r \<Rightarrow> fl (rs_peak_equity r) | None \<Rightarrow> eq)
               (case account of Some r \<Rightarrow> fl (rs_max_drawdown r) | None \<Rightarrow> 0)
               (case daily of Some r \<Rightarrow> fl (rs_realized_loss r) | None \<Rightarrow> 0) expo)"

text \<open>\<^verbatim>\<open>decide\<close> up to \<^verbatim>\<open>compute_decision\<close>: either an early \<^verbatim>\<open>return\<close> (the bucket it reports)
  or the inputs, with the versions of the agents at the bucket and the instrument table.\<close>

definition gather_inputs ::
  "engine_env \<Rightarrow> string \<Rightarrow> timeframe \<Rightarrow> timeframe list \<Rightarrow> risk_params \<Rightarrow> gate_state option \<Rightarrow> engine_db
   \<Rightarrow> py_error + (datetime + decision_inputs \<times> (string \<times> string) list \<times> market)" where
  "gather_inputs env symbol tf configured risk gate db =
     (let rows = load_latest_per_agent symbol tf None (Some (en_now env)) (db_signals db) in
      if rows = [] then Inr (Inl (en_started env))
      else case rows_to_signals rows of
        Inl e \<Rightarrow> Inl e
      | Inr sigs \<Rightarrow>
          let agents = by_agent sigs;
              latest_bucket = max_bucket (en_started env) (map snd agents);
              at_bucket = filter (\<lambda>(a, s). sg_bucket_ts s = latest_bucket) agents
          in if at_bucket = [] then Inr (Inl latest_bucket)
             else case resolve_atr_price (en_ids env 0) symbol tf latest_bucket db of
               Inl e \<Rightarrow> Inl e
             | Inr ((atr, price), m) \<Rightarrow>
                 Inr (Inr (\<lparr>di_symbol = symbol, di_timeframe = tf, di_bucket_ts = latest_bucket, di_now = en_now env,
                   di_signals = map_of at_bucket, di_regime = regime_label (en_render env) (map_of at_bucket ''regime''),
                   di_atr = atr, di_price = price, di_coverage = coverage_of (map_of at_bucket),
                   di_gate = (case gate of Some g \<Rightarrow> g | None \<Rightarrow> db_gate_state symbol (en_now env) (paper_equity risk) db),
                   di_parent_context = parent_context symbol tf configured (en_now env) (db_decisions db)\<rparr>,
                   map (\<lambda>(a, s). (a, sg_version s)) at_bucket, m)))"

text \<open>The cooldown: a PAPER outcome is demoted while a directional decision is still recent.\<close>

definition apply_cooldown :: "datetime \<Rightarrow> string \<Rightarrow> timeframe \<Rightarrow> orch_params \<Rightarrow> decision_row list \<Rightarrow> decision_outcome \<Rightarrow> decision_outcome" where
  "apply_cooldown now symbol tf orch ds out =
     (if oc_status out = Some PAPER \<and> 0 < op_cooldown_seconds orch
         \<and> (case load_latest_decision symbol tf (Some (now - seconds_td (op_cooldown_seconds orch))) ds of
              None \<Rightarrow> False | Some recent \<Rightarrow> dr_fused_direction recent \<noteq> FLAT)
      then out\<lparr>oc_status := Some ANALYSIS, oc_skip_reason := None, oc_veto_code := Some ''cooldown'',
               oc_veto_reason := Some WithinCooldown\<rparr>
      else out)"

text \<open>The rest of \<^verbatim>\<open>decide\<close> for a decision to persist.\<close>

definition persist_outcome ::
  "engine_env \<Rightarrow> decision_inputs \<Rightarrow> (string \<times> string) list \<Rightarrow> risk_live option \<Rightarrow> gate_state \<Rightarrow> decision_outcome
   \<Rightarrow> engine_db \<Rightarrow> decide_result \<times> engine_db" where
  "persist_outcome env inp versions live gate out db =
     (let symbol = di_symbol inp; tf = di_timeframe inp; bucket = di_bucket_ts inp;
          status = (case oc_status out of Some s \<Rightarrow> s | None \<Rightarrow> ANALYSIS);
          h = inputs_hash (en_sha env) symbol tf bucket versions (fr_weights (oc_fused out));
          values = decision_values (en_ids env 1) (en_server_now env) '''' symbol tf bucket (oc_fused out) status
            (oc_veto_code out) (oc_veto_reason out) h versions (Some (rationale_of out))
            (Some (bucket + seconds_td (tf_seconds tf * 4)));
          (created, ds) = save_decision values (db_decisions db);
          es = (case oc_risk out of None \<Rightarrow> db_evaluations db
            | Some ro \<Rightarrow> snd (save_risk_evaluation (en_ids env 2) (en_server_now env)
                (if created then latest_decision_id symbol tf bucket ds else None) symbol tf bucket ro (db_evaluations db)))
      in (\<lparr>rz_symbol = symbol, rz_timeframe = tf, rz_bucket_ts = bucket, rz_action = oc_action out, rz_created = created,
           rz_status = Some status, rz_direction = Some (fr_direction (oc_fused out)),
           rz_confidence = fr_confidence (oc_fused out), rz_agreement = fr_agreement (oc_fused out),
           rz_coverage = di_coverage inp, rz_veto_code = oc_veto_code out, rz_skip_reason = None, rz_inputs_hash = h\<rparr>,
          refresh_exposure env (Some gate) live (db\<lparr>db_decisions := ds, db_evaluations := es\<rparr>)))"

definition decide ::
  "engine_env \<Rightarrow> string \<Rightarrow> timeframe \<Rightarrow> timeframe list \<Rightarrow> orch_params \<Rightarrow> risk_params \<Rightarrow> gate_state option
   \<Rightarrow> risk_live option \<Rightarrow> engine_db \<Rightarrow> py_error + decide_result \<times> engine_db" where
  "decide env symbol tf configured orch risk gate live db =
     (case gather_inputs env symbol tf configured risk gate db of
        Inl e \<Rightarrow> Inl e
      | Inr (Inl ts) \<Rightarrow> Inr (no_votes symbol tf ts, db)
      | Inr (Inr (inp, versions, m)) \<Rightarrow>
          let db1 = db\<lparr>db_market := m\<rparr> in
          (case compute_decision inp orch risk of
             Inl e \<Rightarrow> Inl e
           | Inr out \<Rightarrow>
               if oc_action out = SKIP then
                 Inr (\<lparr>rz_symbol = symbol, rz_timeframe = tf, rz_bucket_ts = di_bucket_ts inp, rz_action = SKIP,
                   rz_created = False, rz_status = None,
                   rz_direction = (if has_votes (oc_fused out) then Some (fr_direction (oc_fused out)) else None),
                   rz_confidence = fr_confidence (oc_fused out), rz_agreement = fr_agreement (oc_fused out),
                   rz_coverage = di_coverage inp, rz_veto_code = None, rz_skip_reason = oc_skip_reason out,
                   rz_inputs_hash = ''''\<rparr>, db1)
               else Inr (persist_outcome env inp versions live (di_gate inp)
                      (apply_cooldown (en_now env) symbol tf orch (db_decisions db) out) db1)))"

end
