(* ===== verification/EngineRuns.thy ===== *)
theory EngineRuns
  imports Engine
begin

text \<open>
  What the decision engine guarantees: the exact classification of outcomes, the role of the larger
  timeframe, one decision per bar, the source of the ATR and the reach of the cooldown.
\<close>

section \<open>Classification\<close>

lemma map_filter_ConsD:
  "List.map_filter f xs = y # ys \<Longrightarrow> \<exists>pre x post. xs = pre @ x # post \<and> f x = Some y \<and> (\<forall>z\<in>set pre. f z = None)"
proof (induction xs)
  case (Cons a xs)
  show ?case
  proof (cases "f a")
    case None
    then obtain pre x post where "xs = pre @ x # post \<and> f x = Some y \<and> (\<forall>z\<in>set pre. f z = None)"
      using Cons by (auto simp: map_filter_simps)
    then show ?thesis using None by (intro exI [of _ "a # pre"] exI [of _ x] exI [of _ post]) auto
  next
    case (Some b)
    then show ?thesis using Cons.prems
      by (intro exI [of _ "[]"] exI [of _ a] exI [of _ xs]) (simp add: map_filter_simps)
  qed
qed (simp add: map_filter_simps)

lemma map_filter_NilD: "List.map_filter f xs = [] \<Longrightarrow> \<forall>x\<in>set xs. f x = None"
  by (induction xs) (auto simp: map_filter_simps split: option.splits)

lemma assess_gates:
  "k \<in> set GATE_KEYS \<Longrightarrow> map_of (ro_gates (assess d atr price g p)) k \<noteq> None"
  "ro_passed (assess d atr price g p) \<longleftrightarrow> (\<forall>k\<in>set GATE_KEYS. gate_ok (assess d atr price g p) k)"
proof -
  have "set GATE_KEYS \<subseteq> fst ` set (ro_gates (assess d atr price g p))
    \<and> (ro_passed (assess d atr price g p) \<longleftrightarrow> (\<forall>k\<in>set GATE_KEYS. gate_ok (assess d atr price g p) k))"
  proof (cases "\<exists>a x. d \<noteq> FLAT \<and> atr = Some a \<and> price = Some x \<and> \<not> a \<le> 0 \<and> \<not> x \<le> 0")
    case True
    then obtain a x where c: "d \<noteq> FLAT" "atr = Some a" "price = Some x" "\<not> a \<le> 0" "\<not> x \<le> 0" by blast
    then show ?thesis by (simp add: assess_def GATE_KEYS_def gate_ok_def mk_reason_def Let_def)
  next
    case False
    then show ?thesis
      by (cases "d = FLAT"; cases atr; cases price) (simp_all add: assess_def GATE_KEYS_def gate_ok_def mk_reason_def)
  qed
  then show "k \<in> set GATE_KEYS \<Longrightarrow> map_of (ro_gates (assess d atr price g p)) k \<noteq> None"
    "ro_passed (assess d atr price g p) \<longleftrightarrow> (\<forall>k\<in>set GATE_KEYS. gate_ok (assess d atr price g p) k)"
    by (auto simp: map_of_eq_None_iff)
qed

lemma first_failing_iff:
  "first_failing k out = Some v \<Longrightarrow> fst v = k \<and> \<not> gate_ok out k"
  "map_of (ro_gates out) k \<noteq> None \<Longrightarrow> first_failing k out = None \<Longrightarrow> gate_ok out k"
  by (auto simp: first_failing_def gate_ok_def split: option.splits if_splits)

lemma decisive_veto_first:
  assumes "\<not> ro_passed (assess d atr price g p)"
  shows "\<exists>pre k post. GATE_KEYS = pre @ k # post \<and> fst (decisive_veto (assess d atr price g p)) = k
    \<and> \<not> gate_ok (assess d atr price g p) k \<and> (\<forall>j\<in>set pre. gate_ok (assess d atr price g p) j)"
proof -
  let ?o = "assess d atr price g p"
  let ?l = "List.map_filter (\<lambda>k. first_failing k ?o) GATE_KEYS"
  have dv: "decisive_veto ?o = (case ?l of v # _ \<Rightarrow> v | [] \<Rightarrow> (''risk'', RiskGateFailed))"
    by (simp add: decisive_veto_def GATE_KEYS_def)
  show ?thesis
  proof (cases ?l)
    case Nil
    then have "\<forall>k\<in>set GATE_KEYS. gate_ok ?o k"
      using map_filter_NilD [OF Nil] assess_gates(1) first_failing_iff(2) by blast
    with assms show ?thesis by (simp add: assess_gates(2))
  next
    case (Cons v vs)
    from map_filter_ConsD [OF this] obtain pre k post where
      e: "GATE_KEYS = pre @ k # post" "first_failing k ?o = Some v" "\<forall>z\<in>set pre. first_failing z ?o = None" by blast
    have "gate_ok ?o j" if "j \<in> set pre" for j
      using that e by (intro first_failing_iff(2) assess_gates(1)) (auto simp: e(1))
    then show ?thesis using e first_failing_iff(1) [OF e(2)] dv Cons by auto
  qed
qed

text \<open>What \<open>compute_decision\<close> fuses.\<close>

definition fused_input :: "decision_inputs \<Rightarrow> orch_params \<Rightarrow> py_error + fused_result" where
  "fused_input inp orch = map_sum id (\<lambda>f. apply_context f (di_parent_context inp))
     (fuse (di_signals inp) (di_regime inp) (Some (fusion_params_of orch)))"

abbreviation risk_of :: "decision_inputs \<Rightarrow> fused_result \<Rightarrow> risk_params \<Rightarrow> risk_outcome" where
  "risk_of inp f risk \<equiv> assess (fr_direction f) (di_atr inp) (di_price inp) (di_gate inp) risk"

definition actionable :: "decision_inputs \<Rightarrow> orch_params \<Rightarrow> fused_result \<Rightarrow> bool" where
  "actionable inp orch f = (has_votes f \<and> op_coverage_min orch \<le> di_coverage inp \<and> fr_direction f \<noteq> FLAT)"

lemma compute_decision_eq:
  "compute_decision inp orch risk = (case fused_input inp orch of Inl e \<Rightarrow> Inl e | Inr f \<Rightarrow>
     Inr (if \<not> actionable inp orch f then
        skip_outcome f (if has_votes f then di_coverage inp else 0)
          (if \<not> has_votes f then NO_VOTES else if di_coverage inp < op_coverage_min orch then INSUFFICIENT_COVERAGE else WEAK_FLAT)
      else
        let out = risk_of inp f risk;
            (status, code, reason) =
              (if \<not> op_agreement_min orch \<le> fr_agreement f
                 then (ANALYSIS, Some ''low_agreement'', Some (LowAgreement (fr_agreement f)))
               else if ro_passed out \<and> ro_paper out then (PAPER, None, None)
               else if ro_passed out then (ANALYSIS, Some ''risk_disabled'', Some RiskGateDisabled)
               else (BLOCKED, Some (fst (decisive_veto out)), Some (snd (decisive_veto out))))
        in \<lparr>oc_action = PERSIST, oc_fused = f, oc_status = Some status, oc_risk = Some out,
            oc_coverage = di_coverage inp, oc_skip_reason = None, oc_veto_code = code, oc_veto_reason = reason\<rparr>))"
proof -
  have a: "(if di_parent_context inp \<noteq> None then apply_context f (di_parent_context inp) else f)
      = apply_context f (di_parent_context inp)" for f
    by (simp add: apply_context_def)
  show ?thesis unfolding compute_decision_def fused_input_def a
    by (cases "fuse (di_signals inp) (di_regime inp) (Some (fusion_params_of orch))")
      (simp_all add: actionable_def not_less Let_def)
qed

text \<open>
  C3. The status of a decision, exactly. A decision is skipped if and only if there are no votes, too few
  agents, or no direction. It is PAPER if and only if it is not skipped, the agreement reaches its
  minimum, ATR and price are known and positive, risk is enabled, the reward/risk ratio reaches its
  minimum and every cap holds. It is BLOCKED exactly when only the risk gate refused it, and then the
  veto code is the first gate, in the documented order, that failed: the generic code \<^verbatim>\<open>risk\<close> never
  occurs. Everything else is ANALYSIS.
\<close>

theorem decision_status_exact:
  assumes "compute_decision inp orch risk = Inr out"
  shows "\<exists>f. fused_input inp orch = Inr f \<and> oc_fused out = f
    \<and> (oc_action out = SKIP \<longleftrightarrow> \<not> has_votes f \<or> di_coverage inp < op_coverage_min orch \<or> fr_direction f = FLAT)
    \<and> (oc_status out = None \<longleftrightarrow> oc_action out = SKIP)
    \<and> (oc_status out = Some PAPER \<longleftrightarrow> oc_action out = PERSIST \<and> op_agreement_min orch \<le> fr_agreement f \<and> risk_enabled risk
         \<and> (\<exists>a x. di_atr inp = Some a \<and> di_price inp = Some x \<and> 0 < a \<and> 0 < x
              \<and> min_rr risk \<le> rr_ratio (compute_sizing x a (fr_direction f) risk) \<and> gates_open (di_gate inp) risk))
    \<and> (oc_status out = Some BLOCKED \<longleftrightarrow> oc_action out = PERSIST \<and> op_agreement_min orch \<le> fr_agreement f
         \<and> \<not> ro_passed (risk_of inp f risk))
    \<and> (oc_status out = Some BLOCKED \<longrightarrow> (\<exists>pre k post. GATE_KEYS = pre @ k # post \<and> oc_veto_code out = Some k
         \<and> \<not> gate_ok (risk_of inp f risk) k \<and> (\<forall>j\<in>set pre. gate_ok (risk_of inp f risk) j)))"
proof -
  obtain f where f: "fused_input inp orch = Inr f"
    using assms by (cases "fused_input inp orch") (simp_all add: compute_decision_eq)
  have veto: "\<not> ro_passed (risk_of inp f risk) \<Longrightarrow> \<exists>pre k post. GATE_KEYS = pre @ k # post
      \<and> fst (decisive_veto (risk_of inp f risk)) = k \<and> \<not> gate_ok (risk_of inp f risk) k
      \<and> (\<forall>j\<in>set pre. gate_ok (risk_of inp f risk) j)"
    by (rule decisive_veto_first)
  have "out = (if \<not> actionable inp orch f then
        skip_outcome f (if has_votes f then di_coverage inp else 0)
          (if \<not> has_votes f then NO_VOTES else if di_coverage inp < op_coverage_min orch then INSUFFICIENT_COVERAGE else WEAK_FLAT)
      else
        let out = risk_of inp f risk;
            (status, code, reason) =
              (if \<not> op_agreement_min orch \<le> fr_agreement f
                 then (ANALYSIS, Some ''low_agreement'', Some (LowAgreement (fr_agreement f)))
               else if ro_passed out \<and> ro_paper out then (PAPER, None, None)
               else if ro_passed out then (ANALYSIS, Some ''risk_disabled'', Some RiskGateDisabled)
               else (BLOCKED, Some (fst (decisive_veto out)), Some (snd (decisive_veto out))))
        in \<lparr>oc_action = PERSIST, oc_fused = f, oc_status = Some status, oc_risk = Some out,
            oc_coverage = di_coverage inp, oc_skip_reason = None, oc_veto_code = code, oc_veto_reason = reason\<rparr>)"
    using assms f by (simp only: compute_decision_eq sum.case sum.inject)
  with f veto show ?thesis
    by (cases "actionable inp orch f")
      (auto simp: actionable_def skip_outcome_def Let_def assess_passed_iff assess_paper_iff not_less)
qed

definition shipped_orch :: orch_params where
  "shipped_orch = \<lparr>op_coverage_min = fl (1 / 2), op_agreement_min = fl (1 / 2), op_threshold = fl (15 / 100),
     op_hysteresis = fl (4 / 100), op_context_weight = fl (15 / 100), op_cooldown_seconds = 1800, op_weights = []\<rparr>"

text \<open>Inputs with a single full LONG vote and open gates.\<close>

definition one_vote_inputs :: "decision_inputs \<Rightarrow> bool" where
  "one_vote_inputs inp = (votes_of (di_signals inp) = [(''technical'', 1)] \<and> di_regime inp = ''unknown''
     \<and> di_price inp = Some 1 \<and> fl (1 / 2) \<le> di_coverage inp \<and> di_gate inp \<in> {busy_gate, idle_gate}
     \<and> (case di_parent_context inp of None \<Rightarrow> True | Some c \<Rightarrow> ci_confidence c \<le> 0))"

lemma fused_one_vote: "one_vote_inputs inp \<Longrightarrow> fused_input inp shipped_orch = Inr long_fused"
  using fuse_one_vote [of "di_signals inp" "fl (4 / 100)"]
  by (auto simp: one_vote_inputs_def fused_input_def shipped_orch_def shipped_fusion_def fusion_params_of_def apply_context_def
      split: option.splits)

lemma one_vote_decision:
  assumes "one_vote_inputs inp"
  shows "\<exists>out. compute_decision inp shipped_orch default_risk_params = Inr out \<and> oc_action out = PERSIST
    \<and> (di_atr inp = Some (fl (1 / 1000)) \<longrightarrow> oc_status out = Some PAPER)"
proof -
  have half: "fl (1 / 2) \<le> 1" by code_simp
  have f: "has_votes long_fused" "fr_direction long_fused = LONG" "fr_agreement long_fused = 1"
    by (simp_all add: long_fused_def has_votes_def)
  have i: "di_gate inp = busy_gate \<or> di_gate inp = idle_gate" "di_price inp = Some 1" "fl (1 / 2) \<le> di_coverage inp"
    using assms by (simp_all add: one_vote_inputs_def)
  have c: "op_coverage_min shipped_orch = fl (1 / 2)" "op_agreement_min shipped_orch = fl (1 / 2)"
    by (simp_all add: shipped_orch_def)
  have "actionable inp shipped_orch long_fused"
    using f i c by (simp add: actionable_def)
  moreover have "ro_passed (risk_of inp long_fused default_risk_params) \<and> ro_paper (risk_of inp long_fused default_risk_params)"
    if "di_atr inp = Some (fl (1 / 1000))"
    using busy_gate_passes idle_gate_passes f i that by (elim disjE) simp_all
  moreover have "op_agreement_min shipped_orch \<le> fr_agreement long_fused"
    using half f c by simp
  ultimately show ?thesis by (auto simp: compute_decision_eq fused_one_vote [OF assms] Let_def)
qed

definition long_inputs :: decision_inputs where
  "long_inputs = \<lparr>di_symbol = ''EURUSD'', di_timeframe = H1, di_bucket_ts = 0, di_now = 0, di_signals = [''technical'' \<mapsto> long_vote],
     di_regime = ''unknown'', di_atr = Some (fl (1 / 1000)), di_price = Some 1, di_coverage = 1, di_gate = busy_gate,
     di_parent_context = Some \<lparr>ci_direction = LONG, ci_confidence = 0, ci_weight = fl (15 / 100)\<rparr>\<rparr>"

lemma long_inputs_paper:
  "\<exists>out. compute_decision long_inputs shipped_orch default_risk_params = Inr out \<and> oc_status out = Some PAPER \<and> oc_action out = PERSIST"
proof -
  have "fl (1 / 2) \<le> 1" by code_simp
  then have "one_vote_inputs long_inputs"
    by (simp add: one_vote_inputs_def long_inputs_def votes_of_def DIRECTIONAL_AGENTS_def map_filter_simps long_vote_def
        sign_of_def signed_def not_le)
  from one_vote_decision [OF this] show ?thesis by (auto simp: long_inputs_def)
qed

theorem decision_status_exact_witness:
  "\<exists>out. compute_decision long_inputs shipped_orch default_risk_params = Inr out \<and> oc_action out = PERSIST \<and> oc_status out = Some PAPER
     \<and> gates_open busy_gate default_risk_params"
proof -
  obtain out where o: "compute_decision long_inputs shipped_orch default_risk_params = Inr out" "oc_status out = Some PAPER"
    "oc_action out = PERSIST" using long_inputs_paper by blast
  from decision_status_exact [OF o(1)] o show ?thesis by (auto simp: long_inputs_def)
qed

section \<open>Context\<close>

lemma f64_uminus_le: "- a \<le> - b \<longleftrightarrow> b \<le> (a :: f64)"
  by (simp add: f64_rep)

lemma context_nudge:
  assumes "0 \<le> w" "w \<le> t" "0 < c"
  shows "- t \<le> (w * fl (of_int (sign_of d))) * min 1 c" "(w * fl (of_int (sign_of d))) * min 1 c \<le> t"
proof -
  have b: "w * min 1 c \<le> t" "0 \<le> w * min 1 c" "0 \<le> t"
    using assms f64_mult_le [of w "min 1 c"] by (auto intro!: f64_mult_nonneg)
  then have n: "- t \<le> 0" "- (w * min 1 c) \<le> 0" by (simp_all add: f64_neg_iff)
  have e: "(w * fl (of_int (sign_of d))) * min 1 c
      = (if d = FLAT then 0 else if d = LONG then w * min 1 c else - (w * min 1 c))"
    by (cases d) (simp_all add: sign_of_def fl_minus)
  show "- t \<le> (w * fl (of_int (sign_of d))) * min 1 c"
    using order_trans [OF n(1) b(2)] n(1) b(1) unfolding e by (simp add: f64_uminus_le)
  show "(w * fl (of_int (sign_of d))) * min 1 c \<le> t"
    using order_trans [OF n(2) b(3)] b unfolding e by simp
qed

lemma compute_paperD:
  assumes "compute_decision inp orch risk = Inr out" "oc_status out = Some PAPER"
  shows "\<exists>f0 a. fuse (di_signals inp) (di_regime inp) (Some (fusion_params_of orch)) = Inr f0
    \<and> oc_fused out = apply_context f0 (di_parent_context inp) \<and> actionable inp orch (oc_fused out)
    \<and> op_agreement_min orch \<le> fr_agreement f0 \<and> di_atr inp = Some a"
proof (cases "fuse (di_signals inp) (di_regime inp) (Some (fusion_params_of orch))")
  case (Inl e)
  then show ?thesis using assms by (simp add: compute_decision_eq fused_input_def)
next
  case (Inr f0)
  then show ?thesis using assms
    by (auto simp: compute_decision_eq fused_input_def apply_context_frame skip_outcome_def Let_def assess_passed_iff actionable_def
        split: if_splits)
qed

text \<open>
  The larger timeframe never turns a decision around: when the context weighs no more than the
  fusion threshold (the engine's 0.15 against the shipped 0.15), a PAPER decision goes in the
  direction the pair's own agents voted for; context can confirm or mute it, but neither reverse it
  nor create one from undecided votes.
\<close>

theorem context_never_reverses:
  assumes "compute_decision inp orch risk = Inr out" "oc_status out = Some PAPER"
    "di_parent_context inp = Some c" "0 \<le> ci_weight c" "ci_weight c \<le> op_threshold orch"
    "0 < op_agreement_min orch" "0 < op_threshold orch"
  shows "\<exists>f0. fuse (di_signals inp) (di_regime inp) (Some (fusion_params_of orch)) = Inr f0
    \<and> fr_direction f0 \<noteq> FLAT \<and> fr_direction (oc_fused out) = fr_direction f0"
proof -
  let ?t = "op_threshold orch"
  obtain f0 where f0: "fuse (di_signals inp) (di_regime inp) (Some (fusion_params_of orch)) = Inr f0"
    "oc_fused out = apply_context f0 (Some c)" "actionable inp orch (oc_fused out)" "op_agreement_min orch \<le> fr_agreement f0"
    using compute_paperD [OF assms(1,2)] assms(3) by auto
  have nf: "fr_direction f0 \<noteq> FLAT"
    using fuse_flat_agreement [OF f0(1)] f0(4) assms(6) by auto
  have d0: "fr_direction f0 = direction_for_score (fr_score f0) ?t" "fr_threshold f0 = ?t"
    using fuse_InrD [OF f0(1)] nf by (auto simp: fusion_params_of_def)
  show ?thesis
  proof (cases "ci_confidence c \<le> 0")
    case True
    then show ?thesis using f0 nf by (simp add: apply_context_def)
  next
    case False
    let ?n = "(ci_weight c * fl (of_int (sign_of (ci_direction c)))) * min 1 (ci_confidence c)"
    have n: "- ?t \<le> ?n" "?n \<le> ?t" using context_nudge [OF assms(4,5)] False by (simp_all add: not_le)
    have d1: "fr_direction (oc_fused out) = direction_for_score (fr_score f0 + ?n) ?t"
      using False d0 f0(2) by (simp add: apply_context_def Let_def)
    have act: "fr_direction (oc_fused out) \<noteq> FLAT" using f0(3) by (simp add: actionable_def)
    have sum0: "?t + - ?t = 0" "- ?t + ?t = 0" by (simp_all add: f64_eq_iff f64_rep)
    have neg: "- ?t < 0" using assms(7) by (simp add: f64_neg_iff)
    show ?thesis
    proof (cases "?t \<le> fr_score f0")
      case True
      have "0 \<le> fr_score f0 + ?n" using f64_add_mono [OF True n(1)] sum0 by simp
      then have "\<not> fr_score f0 + ?n \<le> - ?t" using neg by auto
      then show ?thesis using act d0 d1 f0(1) nf True by (auto simp: direction_for_score_def split: if_splits)
    next
      case F: False
      then have s: "fr_score f0 \<le> - ?t" using nf d0 by (auto simp: direction_for_score_def split: if_splits)
      have "fr_score f0 + ?n \<le> 0" using f64_add_mono [OF s n(2)] sum0 by simp
      then have "\<not> ?t \<le> fr_score f0 + ?n" using assms(7) by auto
      then show ?thesis using act d0 d1 f0(1) nf F by (auto simp: direction_for_score_def split: if_splits)
    qed
  qed
qed

theorem context_never_reverses_witness:
  "\<exists>out. compute_decision long_inputs shipped_orch default_risk_params = Inr out \<and> oc_status out = Some PAPER
     \<and> (\<exists>f0. fuse [''technical'' \<mapsto> long_vote] ''unknown'' (Some (fusion_params_of shipped_orch)) = Inr f0
          \<and> fr_direction (oc_fused out) = fr_direction f0)"
proof -
  obtain out where o: "compute_decision long_inputs shipped_orch default_risk_params = Inr out" "oc_status out = Some PAPER"
    using long_inputs_paper by blast
  have "0 \<le> fl (15 / 100)" "fl (15 / 100) \<le> fl (15 / 100)" "0 < fl (1 / 2)" "0 < fl (15 / 100)" by code_simp+
  with context_never_reverses [OF o, of "\<lparr>ci_direction = LONG, ci_confidence = 0, ci_weight = fl (15 / 100)\<rparr>"] o show ?thesis
    by (auto simp: long_inputs_def shipped_orch_def)
qed

section \<open>Effects of deciding\<close>

lemma refresh_exposure_frame [frame_simps]:
  "db_signals (refresh_exposure env gate live db) = db_signals db"
  "db_decisions (refresh_exposure env gate live db) = db_decisions db"
  "db_evaluations (refresh_exposure env gate live db) = db_evaluations db"
  "db_market (refresh_exposure env gate live db) = db_market db"
  "db_risk_setting (refresh_exposure env gate live db) = db_risk_setting db"
  by (simp_all add: refresh_exposure_def Let_def split: option.splits)

abbreviation key_of :: "decision_inputs \<Rightarrow> row_key3" where
  "key_of inp \<equiv> (upper (di_symbol inp), di_timeframe inp, di_bucket_ts inp)"

lemma persist_outcome_effect:
  assumes "persist_outcome env inp versions live g out db = (r, db')"
  shows "rz_symbol r = di_symbol inp \<and> rz_timeframe r = di_timeframe inp \<and> rz_bucket_ts r = di_bucket_ts inp
    \<and> rz_action r = oc_action out \<and> rz_status r = Some (case oc_status out of Some s \<Rightarrow> s | None \<Rightarrow> ANALYSIS)
    \<and> rz_direction r = Some (fr_direction (oc_fused out)) \<and> rz_veto_code r = oc_veto_code out
    \<and> db_signals db' = db_signals db \<and> db_market db' = db_market db \<and> db_risk_setting db' = db_risk_setting db
    \<and> rz_created r = (key_of inp \<notin> decision_key ` set (db_decisions db))
    \<and> (\<not> rz_created r \<longrightarrow> db_decisions db' = db_decisions db)
    \<and> (rz_created r \<longrightarrow> (\<exists>row. db_decisions db' = db_decisions db @ [row] \<and> decision_key row = key_of inp
         \<and> dr_id row = en_ids env 1 \<and> Some (dr_status row) = rz_status r \<and> dr_fused_direction row = fr_direction (oc_fused out)
         \<and> dr_decision_at row = en_server_now env
         \<and> dr_valid_until row = Some (di_bucket_ts inp + seconds_td (tf_seconds (di_timeframe inp) * 4))))"
  using assms
  by (auto simp: persist_outcome_def Let_def frame_simps save_decision_def decision_key_def decision_values_def
      split: prod.splits if_splits)

lemma persist_outcome_evaluation:
  assumes "persist_outcome env inp versions live g out db = (r, db')" "oc_risk out = Some ro"
  shows "db_evaluations db' = (if key_of inp \<in> evaluation_key ` set (db_evaluations db) then db_evaluations db
      else db_evaluations db @ [evaluation_values (en_ids env 2) (en_server_now env)
        (if rz_created r then latest_decision_id (di_symbol inp) (di_timeframe inp) (di_bucket_ts inp) (db_decisions db') else None)
        (di_symbol inp) (di_timeframe inp) (di_bucket_ts inp) ro])"
  using assms
  by (auto simp: persist_outcome_def Let_def frame_simps save_risk_evaluation_def evaluation_key_def evaluation_values_def
      split: prod.splits if_splits)

lemma apply_cooldown_frame:
  "oc_fused (apply_cooldown now s tf orch ds out) = oc_fused out"
  "oc_risk (apply_cooldown now s tf orch ds out) = oc_risk out"
  "oc_action (apply_cooldown now s tf orch ds out) = oc_action out"
  "oc_status (apply_cooldown now s tf orch ds out) = Some PAPER \<Longrightarrow> apply_cooldown now s tf orch ds out = out"
  by (auto simp: apply_cooldown_def split: if_splits)

lemma compute_persist:
  "compute_decision inp orch risk = Inr out \<Longrightarrow> oc_action out \<noteq> SKIP \<Longrightarrow>
     fr_direction (oc_fused out) \<noteq> FLAT \<and> oc_status out \<noteq> None \<and> oc_risk out = Some (risk_of inp (oc_fused out) risk)"
  by (auto simp: compute_decision_eq skip_outcome_def actionable_def Let_def split: sum.splits if_splits)

lemma gather_inputs_fields:
  "gather_inputs env symbol tf configured risk gate db = Inr (Inr (inp, versions, m)) \<Longrightarrow>
     di_symbol inp = symbol \<and> di_timeframe inp = tf \<and> di_now inp = en_now env
     \<and> di_gate inp = (case gate of Some g \<Rightarrow> g | None \<Rightarrow> db_gate_state symbol (en_now env) (paper_equity risk) db)"
  by (auto simp: gather_inputs_def Let_def split: if_splits sum.splits prod.splits)

text \<open>The two ways \<open>decide\<close> returns.\<close>

lemma decide_cases:
  assumes "decide env symbol tf configured orch risk gate live db = Inr (r, db')"
  shows "(rz_action r = SKIP \<and> \<not> rz_created r \<and> rz_status r = None \<and> (\<exists>m. db' = db\<lparr>db_market := m\<rparr>))
    \<or> (\<exists>inp versions m out. gather_inputs env symbol tf configured risk gate db = Inr (Inr (inp, versions, m))
        \<and> compute_decision inp orch risk = Inr out \<and> oc_action out = PERSIST
        \<and> persist_outcome env inp versions live (di_gate inp)
            (apply_cooldown (en_now env) symbol tf orch (db_decisions db) out) (db\<lparr>db_market := m\<rparr>) = (r, db'))"
proof (cases "gather_inputs env symbol tf configured risk gate db")
  case (Inl e)
  then show ?thesis using assms by (simp add: decide_def)
next
  case (Inr g)
  show ?thesis
  proof (cases g)
    case (Inl ts)
    then have e: "db' = db" "r = no_votes symbol tf ts" using Inr assms by (simp_all add: decide_def)
    have "\<exists>m. db' = db\<lparr>db_market := m\<rparr>" by (rule exI [of _ "db_market db"]) (simp add: e)
    then show ?thesis by (simp add: e(2) no_votes_def)
  next
    case g: (Inr x)
    obtain inp versions m where x: "x = (inp, versions, m)" by (cases x) auto
    obtain out where o: "compute_decision inp orch risk = Inr out"
      using Inr g x assms by (cases "compute_decision inp orch risk") (simp_all add: decide_def Let_def)
    show ?thesis
    proof (cases "oc_action out")
      case SKIP
      then show ?thesis using Inr g x o assms by (auto simp: decide_def Let_def)
    next
      case PERSIST
      then show ?thesis using Inr g x o assms by (auto simp: decide_def Let_def)
    qed
  qed
qed

lemma decide_persisted:
  assumes "decide env symbol tf configured orch risk gate live db = Inr (r, db')" "rz_action r = PERSIST"
  shows "\<exists>inp versions m out. gather_inputs env symbol tf configured risk gate db = Inr (Inr (inp, versions, m))
    \<and> compute_decision inp orch risk = Inr out \<and> oc_action out = PERSIST
    \<and> persist_outcome env inp versions live (di_gate inp)
        (apply_cooldown (en_now env) symbol tf orch (db_decisions db) out) (db\<lparr>db_market := m\<rparr>) = (r, db')
    \<and> key_of inp = (upper symbol, tf, rz_bucket_ts r)"
proof -
  obtain inp versions m out where c: "gather_inputs env symbol tf configured risk gate db = Inr (Inr (inp, versions, m))"
    "compute_decision inp orch risk = Inr out" "oc_action out = PERSIST"
    "persist_outcome env inp versions live (di_gate inp)
        (apply_cooldown (en_now env) symbol tf orch (db_decisions db) out) (db\<lparr>db_market := m\<rparr>) = (r, db')"
    using decide_cases [OF assms(1)] assms(2) by auto
  then show ?thesis using gather_inputs_fields [OF c(1)] persist_outcome_effect [OF c(4)] by auto
qed

lemma decide_rows_all:
  assumes "decide env symbol tf configured orch risk gate live db = Inr (r, db')"
  shows "db_signals db' = db_signals db
    \<and> (rz_action r = SKIP \<longrightarrow> \<not> rz_created r \<and> rz_status r = None \<and> db_evaluations db' = db_evaluations db)
    \<and> (\<not> rz_created r \<longrightarrow> db_decisions db' = db_decisions db)
    \<and> (rz_action r = PERSIST \<longrightarrow> (rz_created r \<longleftrightarrow> (upper symbol, tf, rz_bucket_ts r) \<notin> decision_key ` set (db_decisions db))
         \<and> ((upper symbol, tf, rz_bucket_ts r) \<in> evaluation_key ` set (db_evaluations db) \<longrightarrow> db_evaluations db' = db_evaluations db)
         \<and> (upper symbol, tf, rz_bucket_ts r) \<in> evaluation_key ` set (db_evaluations db'))
    \<and> (rz_created r \<longrightarrow> (\<exists>row. db_decisions db' = db_decisions db @ [row] \<and> decision_key row = (upper symbol, tf, rz_bucket_ts r)
         \<and> Some (dr_status row) = rz_status r \<and> dr_fused_direction row \<noteq> FLAT \<and> dr_decision_at row = en_server_now env
         \<and> dr_id row = en_ids env 1
         \<and> dr_valid_until row = Some (rz_bucket_ts r + seconds_td (tf_seconds tf * 4))))"
proof (cases "rz_action r")
  case SKIP
  then show ?thesis using decide_cases [OF assms] persist_outcome_effect apply_cooldown_frame(3)
    by auto
next
  case PERSIST
  obtain inp versions m out where c: "compute_decision inp orch risk = Inr out" "oc_action out = PERSIST"
    "persist_outcome env inp versions live (di_gate inp)
        (apply_cooldown (en_now env) symbol tf orch (db_decisions db) out) (db\<lparr>db_market := m\<rparr>) = (r, db')"
    and k: "upper (di_symbol inp) = upper symbol" "di_timeframe inp = tf" "di_bucket_ts inp = rz_bucket_ts r"
    using decide_persisted [OF assms PERSIST] by auto
  have o: "fr_direction (oc_fused out) \<noteq> FLAT" "oc_risk (apply_cooldown (en_now env) symbol tf orch (db_decisions db) out)
      = Some (risk_of inp (oc_fused out) risk)"
    using compute_persist [OF c(1)] c(2) by (simp_all add: apply_cooldown_frame)
  show ?thesis
    using PERSIST k o persist_outcome_effect [OF c(3)] persist_outcome_evaluation [OF c(3) o(2)]
    by (auto simp: apply_cooldown_frame evaluation_key_def evaluation_values_def)
qed

lemma decide_rows:
  assumes "decide env symbol tf configured orch risk gate live db = Inr (r, db')"
  shows "db_signals db' = db_signals db"
    "rz_created r \<Longrightarrow> rz_action r = PERSIST"
    "\<not> rz_created r \<Longrightarrow> db_decisions db' = db_decisions db"
    "rz_action r = PERSIST \<Longrightarrow> rz_created r \<longleftrightarrow> (upper symbol, tf, rz_bucket_ts r) \<notin> decision_key ` set (db_decisions db)"
    "rz_created r \<Longrightarrow> \<exists>row. db_decisions db' = db_decisions db @ [row]
       \<and> decision_key row = (upper symbol, tf, rz_bucket_ts r) \<and> Some (dr_status row) = rz_status r
       \<and> dr_fused_direction row \<noteq> FLAT \<and> dr_decision_at row = en_server_now env \<and> dr_id row = en_ids env 1
       \<and> dr_valid_until row = Some (rz_bucket_ts r + seconds_td (tf_seconds tf * 4))"
    "(upper symbol, tf, rz_bucket_ts r) \<in> evaluation_key ` set (db_evaluations db) \<Longrightarrow> db_evaluations db' = db_evaluations db"
    "rz_action r = SKIP \<Longrightarrow> db_evaluations db' = db_evaluations db \<and> rz_status r = None"
    "rz_action r = PERSIST \<Longrightarrow> (upper symbol, tf, rz_bucket_ts r) \<in> decision_key ` set (db_decisions db')
       \<and> (upper symbol, tf, rz_bucket_ts r) \<in> evaluation_key ` set (db_evaluations db')"
proof -
  note all = decide_rows_all [OF assms]
  show 1: "db_signals db' = db_signals db" using all by (elim conjE)
  show 2: "rz_created r \<Longrightarrow> rz_action r = PERSIST" using all by (cases "rz_action r") simp_all
  show 3: "\<not> rz_created r \<Longrightarrow> db_decisions db' = db_decisions db" using all by simp
  show 4: "rz_action r = PERSIST \<Longrightarrow> rz_created r \<longleftrightarrow> (upper symbol, tf, rz_bucket_ts r) \<notin> decision_key ` set (db_decisions db)"
    using all by simp
  show 5: "rz_created r \<Longrightarrow> \<exists>row. db_decisions db' = db_decisions db @ [row]
       \<and> decision_key row = (upper symbol, tf, rz_bucket_ts r) \<and> Some (dr_status row) = rz_status r
       \<and> dr_fused_direction row \<noteq> FLAT \<and> dr_decision_at row = en_server_now env \<and> dr_id row = en_ids env 1
       \<and> dr_valid_until row = Some (rz_bucket_ts r + seconds_td (tf_seconds tf * 4))"
    using all by (elim conjE) (erule impE, assumption)+
  show "(upper symbol, tf, rz_bucket_ts r) \<in> evaluation_key ` set (db_evaluations db) \<Longrightarrow> db_evaluations db' = db_evaluations db"
    using all by (cases "rz_action r") simp_all
  show "rz_action r = SKIP \<Longrightarrow> db_evaluations db' = db_evaluations db \<and> rz_status r = None" using all by simp
  show "rz_action r = PERSIST \<Longrightarrow> (upper symbol, tf, rz_bucket_ts r) \<in> decision_key ` set (db_decisions db')
       \<and> (upper symbol, tf, rz_bucket_ts r) \<in> evaluation_key ` set (db_evaluations db')"
  proof (cases "rz_created r")
    case True
    assume "rz_action r = PERSIST"
    obtain row where "db_decisions db' = db_decisions db @ [row]" "decision_key row = (upper symbol, tf, rz_bucket_ts r)"
      using 5 [OF True] by (elim exE conjE)
    then have "(upper symbol, tf, rz_bucket_ts r) \<in> decision_key ` set (db_decisions db')" by (intro image_eqI [of _ _ row]) simp_all
    then show ?thesis using all \<open>rz_action r = PERSIST\<close> by simp
  next
    case False
    assume "rz_action r = PERSIST"
    then show ?thesis using all False 3 4 by simp
  qed
qed

section \<open>A database with one bar\<close>

definition example_row :: "string \<Rightarrow> (string \<times> json) list \<Rightarrow> signal_row" where
  "example_row agent features = \<lparr>g_run_id = '''', g_agent_id = agent, g_agent_version = ''2'', g_symbol = ''EURUSD'',
     g_timeframe = H1, g_direction = LONG, g_confidence = 1, g_bucket_ts = 0, g_rationale = None, g_features = features,
     g_created_at = 0, g_valid_until = Some 7200000000\<rparr>"

definition example_db :: "(string \<times> json) list \<Rightarrow> engine_db" where
  "example_db features = \<lparr>db_signals = [example_row ''technical'' features, example_row ''regime'' []],
     db_decisions = [], db_evaluations = [], db_risk_state = [],
     db_market = \<lparr>instruments = [\<lparr>i_id = 1, i_symbol = ''EURUSD'', i_base = ''EUR'', i_quote = ''USD'', i_pip_size = 1,
         i_price_decimals = 5, i_active = True\<rparr>],
       candle_rows = [\<lparr>k_instrument_id = 1, k_timeframe = H1, k_ts = 0, k_open = 1, k_high = 1, k_low = 1, k_close = 1,
         k_volume = 0, k_source = '''', k_complete = True, k_tf_minutes = 60\<rparr>]\<rparr>,
     db_risk_setting = None\<rparr>"

definition example_env :: "datetime \<Rightarrow> engine_env" where
  "example_env now = \<lparr>en_ids = (\<lambda>n. n), en_started = now, en_now = now, en_server_now = now, en_sha = (\<lambda>_. ''''),
     en_render = (\<lambda>_. ''''), en_float = (\<lambda>_. None), en_risk_base = default_risk_params\<rparr>"

lemma example_signal:
  "a \<in> {''technical'', ''regime''} \<Longrightarrow> row_to_signal (example_row a f) = Inr \<lparr>sg_agent_id = a, sg_version = ''2'',
     sg_symbol = ''EURUSD'', sg_timeframe = H1, sg_direction = LONG, sg_confidence = 1, sg_bucket_ts = 0, sg_rationale = '''',
     sg_features = f, sg_created_at = 0, sg_valid_until = 7200000000, sg_run_id = ''''\<rparr>"
  by (auto simp: row_to_signal_def example_row_def validate_signal_def)

lemma example_latest:
  "now \<le> 7200000000 \<Longrightarrow> load_latest_per_agent ''EURUSD'' H1 None (Some now) (db_signals (example_db f))
     = [example_row ''regime'' [], example_row ''technical'' f]"
  "load_latest_per_agent ''EURUSD'' H1 (Some ''technical'') None (db_signals (example_db f)) = [example_row ''technical'' f]"
proof -
  have u: "upper ''EURUSD'' = ''EURUSD''" by code_simp
  have "selected_signals ''EURUSD'' H1 None (db_signals (example_db f)) = [example_row ''technical'' f, example_row ''regime'' []]"
    "selected_signals ''EURUSD'' H1 (Some ''technical'') (db_signals (example_db f)) = [example_row ''technical'' f]"
    by (simp_all add: selected_signals_def example_db_def example_row_def u)
  then show "now \<le> 7200000000 \<Longrightarrow> load_latest_per_agent ''EURUSD'' H1 None (Some now) (db_signals (example_db f))
       = [example_row ''regime'' [], example_row ''technical'' f]"
    "load_latest_per_agent ''EURUSD'' H1 (Some ''technical'') None (db_signals (example_db f)) = [example_row ''technical'' f]"
    by (simp_all add: load_latest_per_agent_def keep_latest_def) (simp_all add: example_row_def)
qed

lemma example_atr_price:
  "resolve_atr_price i ''EURUSD'' H1 0 (example_db f) =
     Inr ((Option.bind (json_get f ''atr14'') json_number, Some 1), db_market (example_db f))"
proof -
  have "normalize_symbol ''EURUSD'' = ''EURUSD''" by code_simp
  then have m: "get_or_create_instrument i ''EURUSD'' (db_market (example_db f))
      = (instruments (db_market (example_db f)) ! 0, db_market (example_db f))"
    by (simp add: get_or_create_instrument_def find_instrument_def example_db_def Let_def)
  show ?thesis
    by (simp add: resolve_atr_price_def Let_def example_latest m example_signal) (simp add: example_db_def series_def)
qed

lemma resolve_atr_decisions: "resolve_atr_price i s tf b (db\<lparr>db_decisions := ds\<rparr>) = resolve_atr_price i s tf b db"
  by (simp add: resolve_atr_price_def cong: sum.case_cong)

lemma example_gather:
  assumes "now \<le> 7200000000" "g \<in> {busy_gate, idle_gate}"
  shows "\<exists>inp versions. gather_inputs (example_env now) ''EURUSD'' H1 [H1] default_risk_params (Some g)
      (example_db f\<lparr>db_decisions := ds\<rparr>) = Inr (Inr (inp, versions, db_market (example_db f)))
    \<and> one_vote_inputs inp \<and> di_atr inp = Option.bind (json_get f ''atr14'') json_number \<and> di_bucket_ts inp = 0"
proof -
  have u: "upper ''EURUSD'' = ''EURUSD''" by code_simp
  have e: "en_now (example_env now) = now" "en_ids (example_env now) = (\<lambda>n. n)" "en_started (example_env now) = now"
    by (simp_all add: example_env_def)
  have c: "parent_context ''EURUSD'' H1 [H1] now ds = None" by (simp add: parent_context_def)
  have h: "fl (1 / 2) \<le> fl 2 / fl 4" by code_simp
  note l = example_latest(1) [OF assms(1), of f]
  have r: "resolve_atr_price i ''EURUSD'' H1 0 (example_db f\<lparr>db_decisions := ds\<rparr>) =
     Inr ((Option.bind (json_get f ''atr14'') json_number, Some 1), db_market (example_db f))" for i
    using example_atr_price [of i f] by (simp add: resolve_atr_decisions)
  show ?thesis using h assms(2)
    by (simp add: gather_inputs_def e l example_signal by_agent_def r c u Let_def regime_label_def json_get_def coverage_of_def
        AGENT_FAMILIES_def one_vote_inputs_def)
      (simp add: votes_of_def DIRECTIONAL_AGENTS_def map_filter_simps sign_of_def signed_def not_le)
qed

lemma example_decides:
  assumes "now \<le> 7200000000" "gate \<in> {busy_gate, idle_gate}"
  shows "\<exists>r db'. decide (example_env now) ''EURUSD'' H1 [H1] shipped_orch default_risk_params (Some gate) live
      (example_db f\<lparr>db_decisions := ds\<rparr>) = Inr (r, db') \<and> rz_action r = PERSIST \<and> rz_bucket_ts r = 0
    \<and> (json_get f ''atr14'' = Some (JFloat (fl (1 / 1000))) \<and> ds = [] \<longrightarrow> rz_status r = Some PAPER \<and> rz_created r)"
proof -
  let ?db = "example_db f\<lparr>db_decisions := ds\<rparr>"
  obtain inp versions where g: "gather_inputs (example_env now) ''EURUSD'' H1 [H1] default_risk_params (Some gate) ?db
      = Inr (Inr (inp, versions, db_market (example_db f)))"
    "one_vote_inputs inp" "di_atr inp = Option.bind (json_get f ''atr14'') json_number" "di_bucket_ts inp = 0"
    using example_gather [OF assms] by blast
  obtain out where o: "compute_decision inp shipped_orch default_risk_params = Inr out" "oc_action out = PERSIST"
    "di_atr inp = Some (fl (1 / 1000)) \<longrightarrow> oc_status out = Some PAPER"
    using one_vote_decision [OF g(2)] by blast
  obtain r db' where p: "persist_outcome (example_env now) inp versions live (di_gate inp)
      (apply_cooldown (en_now (example_env now)) ''EURUSD'' H1 shipped_orch ds out)
      (?db\<lparr>db_market := db_market (example_db f)\<rparr>) = (r, db')" by fastforce
  have d: "decide (example_env now) ''EURUSD'' H1 [H1] shipped_orch default_risk_params (Some gate) live ?db = Inr (r, db')"
    using g(1) o p by (simp add: decide_def Let_def)
  have cd: "apply_cooldown t ''EURUSD'' H1 shipped_orch [] out = out" for t
    by (simp add: apply_cooldown_def load_latest_decision_def newest_decision_def)
  show ?thesis
    using d persist_outcome_effect [OF p] o g(3,4) cd by (auto simp: apply_cooldown_frame json_number_def)
qed

text \<open>
  C7. One decision per bar, the first writer's. Deciding adds at most one decision row, at the end, for
  its own pair, timeframe and bucket, with a direction and the reported status, and only when that
  key was free, so keys stay unique; signals are only read. A replay of the same bar, whatever its
  clock, parameters, gate, signals or market by then, writes neither a decision nor a risk
  evaluation.
\<close>

theorem decide_first_writer:
  assumes "decide env symbol tf configured orch risk gate live db = Inr (r, db')"
    "distinct (map decision_key (db_decisions db))"
  shows "distinct (map decision_key (db_decisions db')) \<and> db_signals db' = db_signals db
    \<and> (if rz_created r
       then (\<exists>row. db_decisions db' = db_decisions db @ [row] \<and> decision_key row = (upper symbol, tf, rz_bucket_ts r)
              \<and> Some (dr_status row) = rz_status r \<and> dr_fused_direction row \<noteq> FLAT)
       else db_decisions db' = db_decisions db)
    \<and> (rz_action r = PERSIST \<longrightarrow>
        (\<forall>env2 configured2 orch2 risk2 gate2 live2 sg m rs r2 db2.
           decide env2 symbol tf configured2 orch2 risk2 gate2 live2
             (db'\<lparr>db_signals := sg, db_market := m, db_risk_state := rs\<rparr>) = Inr (r2, db2)
           \<and> rz_bucket_ts r2 = rz_bucket_ts r
           \<longrightarrow> \<not> rz_created r2 \<and> db_decisions db2 = db_decisions db' \<and> db_evaluations db2 = db_evaluations db'))"
proof -
  note key = decide_rows(8) [OF assms(1)]
  have replay: "\<not> rz_created r2 \<and> db_decisions db2 = db_decisions db' \<and> db_evaluations db2 = db_evaluations db'"
    if "rz_action r = PERSIST" "rz_bucket_ts r2 = rz_bucket_ts r"
      "decide env2 symbol tf configured2 orch2 risk2 gate2 live2
         (db'\<lparr>db_signals := sg, db_market := m, db_risk_state := rs\<rparr>) = Inr (r2, db2)"
      for env2 configured2 orch2 risk2 gate2 live2 sg m rs r2 db2
    using decide_rows(2-4,6) [OF that(3)] key [OF that(1)] that(2) by (cases "rz_created r2") auto
  have "distinct (map decision_key (db_decisions db')) \<and> (if rz_created r
       then (\<exists>row. db_decisions db' = db_decisions db @ [row] \<and> decision_key row = (upper symbol, tf, rz_bucket_ts r)
              \<and> Some (dr_status row) = rz_status r \<and> dr_fused_direction row \<noteq> FLAT)
       else db_decisions db' = db_decisions db)"
  proof (cases "rz_created r")
    case True
    then obtain row where row: "db_decisions db' = db_decisions db @ [row]"
      "decision_key row = (upper symbol, tf, rz_bucket_ts r)" "Some (dr_status row) = rz_status r" "dr_fused_direction row \<noteq> FLAT"
      using decide_rows(5) [OF assms(1)] by blast
    have "(upper symbol, tf, rz_bucket_ts r) \<notin> decision_key ` set (db_decisions db)"
      using True decide_rows(2,4) [OF assms(1)] by simp
    then have "distinct (map decision_key (db_decisions db'))" using row(1,2) assms(2) by simp
    then show ?thesis using True row by auto
  next
    case False
    then have "db_decisions db' = db_decisions db" by (rule decide_rows(3) [OF assms(1)])
    with False assms(2) show ?thesis by simp
  qed
  moreover have "db_signals db' = db_signals db" by (rule decide_rows(1) [OF assms(1)])
  moreover have "rz_action r = PERSIST \<longrightarrow>
        (\<forall>env2 configured2 orch2 risk2 gate2 live2 sg m rs r2 db2.
           decide env2 symbol tf configured2 orch2 risk2 gate2 live2
             (db'\<lparr>db_signals := sg, db_market := m, db_risk_state := rs\<rparr>) = Inr (r2, db2)
           \<and> rz_bucket_ts r2 = rz_bucket_ts r
           \<longrightarrow> \<not> rz_created r2 \<and> db_decisions db2 = db_decisions db' \<and> db_evaluations db2 = db_evaluations db')"
    by (intro impI allI) (elim conjE, rule replay)
  ultimately show ?thesis by (elim conjE) (intro conjI)
qed

theorem decide_first_writer_witness:
  "\<exists>r db'. decide (example_env 0) ''EURUSD'' H1 [H1] shipped_orch default_risk_params (Some busy_gate) None (example_db [])
      = Inr (r, db') \<and> rz_action r = PERSIST \<and> distinct (map decision_key (db_decisions db'))"
proof -
  have e: "example_db []\<lparr>db_decisions := []\<rparr> = example_db []" by (simp add: example_db_def)
  obtain r db' where d: "decide (example_env 0) ''EURUSD'' H1 [H1] shipped_orch default_risk_params (Some busy_gate) None
      (example_db []) = Inr (r, db')" "rz_action r = PERSIST"
    using example_decides [where gate = busy_gate and live = None and now = 0 and f = "[]" and ds = "[]"] e by auto
  have "distinct (map decision_key (db_decisions (example_db [])))" by (simp add: example_db_def)
  from decide_first_writer [OF d(1) this] d show ?thesis by blast
qed

section \<open>The ATR the engine reads\<close>

lemma resolve_atr_source:
  assumes "resolve_atr_price i symbol tf b db = Inr ((Some a, price), m)"
  shows "\<exists>r\<in>set (db_signals db). g_agent_id r = ''technical'' \<and> json_get (g_features r) ''atr14'' \<noteq> None"
proof (cases "load_latest_per_agent symbol tf (Some ''technical'') None (db_signals db)")
  case Nil
  then show ?thesis using assms by (auto simp: resolve_atr_price_def Let_def split: prod.splits)
next
  case (Cons r rs)
  then have "r \<in> set (selected_signals symbol tf (Some ''technical'') (db_signals db))"
    using load_latest_set [of r symbol tf "Some ''technical''" None "db_signals db"] by simp
  then have r: "r \<in> set (db_signals db)" "g_agent_id r = ''technical''" by (auto simp: selected_signals_def)
  obtain s where s: "row_to_signal r = Inr s" using assms Cons
    by (cases "row_to_signal r") (auto simp: resolve_atr_price_def Let_def split: prod.splits)
  then have "sg_features s = g_features r" by (auto simp: row_to_signal_def dest!: validate_signal_InrD)
  moreover have "json_get (sg_features s) ''atr14'' \<noteq> None"
    using assms Cons s by (cases "json_get (sg_features s) ''atr14''") (auto simp: resolve_atr_price_def Let_def split: prod.splits)
  ultimately show ?thesis using r by auto
qed

lemma gather_inputs_atr:
  assumes "gather_inputs env symbol tf configured risk gate db = Inr (Inr (inp, versions, m))"
  shows "\<exists>price. resolve_atr_price (en_ids env 0) symbol tf (di_bucket_ts inp) db = Inr ((di_atr inp, price), m)"
  using assms by (auto simp: gather_inputs_def Let_def split: if_splits sum.splits prod.splits)

lemma decide_paperD:
  assumes "decide env symbol tf configured orch risk gate live db = Inr (r, db')" "rz_status r = Some PAPER"
  shows "\<exists>inp versions m out. gather_inputs env symbol tf configured risk gate db = Inr (Inr (inp, versions, m))
    \<and> compute_decision inp orch risk = Inr out \<and> oc_status out = Some PAPER
    \<and> apply_cooldown (en_now env) symbol tf orch (db_decisions db) out = out"
proof -
  obtain inp versions m out where c: "gather_inputs env symbol tf configured risk gate db = Inr (Inr (inp, versions, m))"
    "compute_decision inp orch risk = Inr out" "oc_action out = PERSIST"
    "persist_outcome env inp versions live (di_gate inp)
        (apply_cooldown (en_now env) symbol tf orch (db_decisions db) out) (db\<lparr>db_market := m\<rparr>) = (r, db')"
    using decide_cases [OF assms(1)] assms(2) by auto
  have "oc_status (apply_cooldown (en_now env) symbol tf orch (db_decisions db) out) = Some PAPER"
    using persist_outcome_effect [OF c(4)] assms(2) by (auto split: option.splits)
  with apply_cooldown_frame(4) [OF this] c show ?thesis by auto
qed

lemma decide_no_atr:
  assumes "\<forall>r\<in>set (db_signals db). g_agent_id r = ''technical'' \<longrightarrow> json_get (g_features r) ''atr14'' = None"
    "decide env symbol tf configured orch risk gate live db = Inr (r, db')"
  shows "rz_status r \<noteq> Some PAPER"
proof
  assume "rz_status r = Some PAPER"
  from decide_paperD [OF assms(2) this] obtain inp versions m out where
    c: "gather_inputs env symbol tf configured risk gate db = Inr (Inr (inp, versions, m))"
    "compute_decision inp orch risk = Inr out" "oc_status out = Some PAPER" by blast
  obtain a where "di_atr inp = Some a" using compute_paperD [OF c(2,3)] by blast
  with gather_inputs_atr [OF c(1)] resolve_atr_source assms(1) show False by (metis (full_types))
qed

text \<open>
  Without an ATR in the right place nothing is ever traded: when no stored technical signal has
  \<^verbatim>\<open>atr14\<close> at the top level of its features (the technical agent writes it one level deeper, under
  \<^verbatim>\<open>indicators\<close>), no decision, for any pair, clock, gate or parameters, is PAPER.
\<close>

theorem no_atr_never_paper:
  assumes "\<forall>r\<in>set (db_signals db). g_agent_id r = ''technical'' \<longrightarrow> json_get (g_features r) ''atr14'' = None"
    "decide env symbol tf configured orch risk gate live db = Inr (r, db')"
  shows "rz_status r \<noteq> Some PAPER
    \<and> (\<forall>d\<in>set (db_decisions db'). dr_status d = PAPER \<longrightarrow> d \<in> set (db_decisions db))"
  using decide_no_atr [OF assms] decide_rows(3,5) [OF assms(2)] by (cases "rz_created r") auto

theorem no_atr_never_paper_witness:
  "\<exists>r db'. decide (example_env 0) ''EURUSD'' H1 [H1] shipped_orch default_risk_params (Some busy_gate) None
      (example_db [(''indicators'', JDict [(''atr14'', JFloat (fl (1 / 1000)))])]) = Inr (r, db')
    \<and> rz_action r = PERSIST \<and> rz_status r \<noteq> Some PAPER"
proof -
  let ?f = "[(''indicators'', JDict [(''atr14'', JFloat (fl (1 / 1000)))])]"
  have e: "example_db ?f\<lparr>db_decisions := []\<rparr> = example_db ?f" by (simp add: example_db_def)
  obtain r db' where d: "decide (example_env 0) ''EURUSD'' H1 [H1] shipped_orch default_risk_params (Some busy_gate) None
      (example_db ?f) = Inr (r, db')" "rz_action r = PERSIST"
    using example_decides [where gate = busy_gate and live = None and now = 0 and f = ?f and ds = "[]"] e by auto
  have "\<forall>r\<in>set (db_signals (example_db ?f)). g_agent_id r = ''technical'' \<longrightarrow> json_get (g_features r) ''atr14'' = None"
    by (simp add: example_db_def example_row_def json_get_def)
  from no_atr_never_paper [OF this d(1)] d show ?thesis by blast
qed

section \<open>The reach of the cooldown\<close>

lemma cooldown_blocks:
  assumes "load_latest_decision symbol tf (Some (en_now env - seconds_td (op_cooldown_seconds orch))) (db_decisions db) = Some recent"
    "dr_fused_direction recent \<noteq> FLAT" "0 < op_cooldown_seconds orch"
    "decide env symbol tf configured orch risk gate live db = Inr (r, db')"
  shows "rz_status r \<noteq> Some PAPER"
proof
  assume "rz_status r = Some PAPER"
  from decide_paperD [OF assms(4) this] obtain out where
    "oc_status out = Some PAPER" "apply_cooldown (en_now env) symbol tf orch (db_decisions db) out = out" by blast
  moreover from this(1) have "oc_status (apply_cooldown (en_now env) symbol tf orch (db_decisions db) out) = Some ANALYSIS"
    using assms(1-3) by (simp add: apply_cooldown_def)
  ultimately show False by simp
qed

text \<open>
  C11. The cooldown reaches far beyond its seconds and renews itself: whatever the status of a decision
  that was stored, ANALYSIS and BLOCKED ones and those demoted by the cooldown included, the pair's
  next decisions on the timeframe are not PAPER until four bars and the cooldown have passed since its
  bar, because the look-up asks for decisions still valid at the start of the cooldown, not for PAPER
  decisions made within it. A pair with a decision in every bar is therefore demoted for ever.
\<close>

theorem cooldown_renews_itself:
  assumes "decide env symbol tf configured orch risk gate live db = Inr (r, db')" "rz_created r"
    "\<forall>d\<in>set (db_decisions db). dr_symbol d = upper symbol \<and> dr_timeframe d = tf \<longrightarrow> dr_decision_at d < en_server_now env"
    "\<forall>d\<in>set others. dr_symbol d \<noteq> upper symbol \<or> dr_timeframe d \<noteq> tf"
    "db_decisions db2 = db_decisions db' @ others"
    "decide env2 symbol tf configured2 orch2 risk2 gate2 live2 db2 = Inr (r2, db3)"
    "0 < op_cooldown_seconds orch2"
    "en_now env2 \<le> rz_bucket_ts r + seconds_td (tf_seconds tf * 4) + seconds_td (op_cooldown_seconds orch2)"
  shows "rz_status r2 \<noteq> Some PAPER"
proof -
  obtain row where row: "db_decisions db' = db_decisions db @ [row]" "decision_key row = (upper symbol, tf, rz_bucket_ts r)"
    "dr_fused_direction row \<noteq> FLAT" "dr_decision_at row = en_server_now env"
    "dr_valid_until row = Some (rz_bucket_ts r + seconds_td (tf_seconds tf * 4))"
    using decide_rows(5) [OF assms(1,2)] by blast
  let ?P = "\<lambda>d. dr_symbol d = upper symbol \<and> dr_timeframe d = tf
      \<and> (case dr_valid_until d of None \<Rightarrow> True | Some v \<Rightarrow> en_now env2 - seconds_td (op_cooldown_seconds orch2) \<le> v)"
  have "filter ?P others = []" using assms(4) by (auto simp: filter_empty_conv)
  moreover have "?P row" using row(2,5) assms(8) by (simp add: decision_key_def)
  ultimately have "filter ?P (db_decisions db2) = filter ?P (db_decisions db) @ [row]"
    using assms(5) row(1) by simp
  moreover have "\<forall>d\<in>set (filter ?P (db_decisions db)). dr_decision_at d < dr_decision_at row"
    using assms(3) row(4) by auto
  ultimately have "load_latest_decision symbol tf (Some (en_now env2 - seconds_td (op_cooldown_seconds orch2))) (db_decisions db2)
      = Some row"
    using newest_decision_append [of "filter ?P (db_decisions db)" row] by (simp add: load_latest_decision_def)
  from cooldown_blocks [OF this row(3) assms(7,6)] show ?thesis .
qed

theorem cooldown_renews_itself_witness:
  "\<exists>r db' r2 db3. decide (example_env 0) ''EURUSD'' H1 [H1] shipped_orch default_risk_params (Some busy_gate) None
      (example_db [(''atr14'', JFloat (fl (1 / 1000)))]) = Inr (r, db') \<and> rz_status r = Some PAPER
    \<and> decide (example_env 7200000000) ''EURUSD'' H1 [H1] shipped_orch default_risk_params (Some busy_gate) None
      (example_db [(''atr14'', JFloat (fl (1 / 1000)))]\<lparr>db_decisions := db_decisions db'\<rparr>) = Inr (r2, db3)
    \<and> rz_action r2 = PERSIST \<and> rz_status r2 \<noteq> Some PAPER"
proof -
  let ?f = "[(''atr14'', JFloat (fl (1 / 1000)))]"
  have e: "example_db ?f\<lparr>db_decisions := []\<rparr> = example_db ?f" by (simp add: example_db_def)
  obtain r db' where d: "decide (example_env 0) ''EURUSD'' H1 [H1] shipped_orch default_risk_params (Some busy_gate) None
      (example_db ?f) = Inr (r, db')" "rz_created r" "rz_bucket_ts r = 0" "rz_status r = Some PAPER"
    using example_decides [where gate = busy_gate and live = None and now = 0 and f = ?f and ds = "[]"] e by (auto simp: json_get_def)
  obtain r2 db3 where d2: "decide (example_env 7200000000) ''EURUSD'' H1 [H1] shipped_orch default_risk_params (Some busy_gate) None
      (example_db ?f\<lparr>db_decisions := db_decisions db'\<rparr>) = Inr (r2, db3)" "rz_action r2 = PERSIST"
    using example_decides [where gate = busy_gate and live = None and now = 7200000000 and f = ?f and ds = "db_decisions db'"] by auto
  have "rz_status r2 \<noteq> Some PAPER"
  proof (rule cooldown_renews_itself [OF d(1,2) _ _ _ d2(1), of "[]"])
    show "\<forall>x\<in>set (db_decisions (example_db ?f)). dr_symbol x = upper ''EURUSD'' \<and> dr_timeframe x = H1
        \<longrightarrow> dr_decision_at x < en_server_now (example_env 0)" by (simp add: example_db_def)
    show "en_now (example_env 7200000000) \<le> rz_bucket_ts r + seconds_td (tf_seconds H1 * 4)
        + seconds_td (op_cooldown_seconds shipped_orch)"
      using d(3) by (simp add: example_env_def shipped_orch_def seconds_td_def)
  qed (simp_all add: shipped_orch_def)
  with d d2 show ?thesis by blast
qed

end
