(* ===== verification/LedgerGate.thy ===== *)
theory LedgerGate
  imports Ledger Risk
begin

text \<open>
  The live risk gate computed from the paper ledger (\<^verbatim>\<open>app/decisions/ledger_gate.py\<close>). The
  observed histogram and the log line are left out.
\<close>

record ledger_gate_view =
  gv_gate :: gate_state
  gv_equity :: f64
  gv_peak_equity :: f64
  gv_realized_today :: f64
  gv_cumulative_realized :: f64
  gv_open_notional :: f64
  gv_open_position_count :: nat

text \<open>\<^verbatim>\<open>_to_position\<close>; \<^verbatim>\<open>PositionSet\<close> is the list.\<close>

definition to_position :: "position_row \<Rightarrow> position" where
  "to_position r =
     \<lparr>p_symbol = r_symbol r, p_timeframe = r_timeframe r, p_units = fl (r_units r),
      p_entry_price = fl (r_entry_price r), p_entry_ts = r_entry_ts r, p_side = r_side r,
      p_stop_loss = map_option fl (r_stop_loss r), p_take_profit = map_option fl (r_take_profit r),
      p_costs = fl (r_costs r)\<rparr>"

definition position_set :: "position_row list \<Rightarrow> position list" where
  "position_set rows = map to_position rows"

definition utc_day_start :: "datetime \<Rightarrow> datetime" where
  "utc_day_start now = now div days_td 1 * days_td 1"

definition build_ledger_gate :: "ledger_broker \<Rightarrow> string \<Rightarrow> datetime \<Rightarrow> ledger_gate_view" where
  "build_ledger_gate lb symbol now =
     (let symb = upper symbol;
          open_rows = load_open_position_rows (lb_store lb);
          ps = position_set open_rows;
          eq = (if equity (lb_paper lb) \<noteq> 0 then equity (lb_paper lb) else start_equity (lb_paper lb));
          total = total_notional ps;
          exposure_pct = (if eq \<noteq> 0 then total / eq else 0);
          correlation_pct = (if eq \<noteq> 0 then basket_notional ps symb / eq else 0);
          day_start = utc_day_start now;
          day_end = day_start + days_td 1;
          realized_today = realized_pnl_since day_start day_end lb;
          cumulative = realized_pnl_since 0 (now + days_td 1) lb;
          daily_loss_pct = (if eq \<noteq> 0 then max 0 (- realized_today) / eq else 0)
      in \<lparr>gv_gate = \<lparr>exposure_used_pct = exposure_pct, correlation_used_pct = correlation_pct,
             daily_loss_used_pct = daily_loss_pct, drawdown_used_pct = max_drawdown_pct (lb_paper lb),
             gs_correlation_triggered = correlation_triggered ps symb\<rparr>,
          gv_equity = eq, gv_peak_equity = peak_equity (lb_paper lb), gv_realized_today = realized_today,
          gv_cumulative_realized = cumulative, gv_open_notional = total, gv_open_position_count = length open_rows\<rparr>)"

lemma to_position_eq: "to_position = position_of_row"
  by (simp add: fun_eq_iff to_position_def position_of_row_def)

lemma utc_day_bounds: "utc_day_start now \<le> now \<and> now < utc_day_start now + days_td 1"
  using pos_mod_bound [of "days_td 1" now] minus_mod_eq_div_mult [of now "days_td 1"]
  by (auto simp: utc_day_start_def days_td_def)

lemma gate_positions:
  "ledger_ok lb \<Longrightarrow> position_set (load_open_position_rows (lb_store lb)) = positions (lb_paper lb)"
  by (simp add: position_set_def to_position_eq ledger_ok_def load_open_position_rows_def)

text \<open>
  The live gate measures the broker's own book: in every reachable ledger, exposure, basket and
  correlation are those of the in-memory positions (what the backtest's gate reads), over the
  broker's equity; the daily loss counts the profit of the UTC day of \<open>now\<close> only, never below zero;
  and the gate is as strict as it looks: no figure is negative when the equity is positive.
\<close>

theorem ledger_gate_is_broker_gate:
  assumes "ledger_reachable H lb" "equity (lb_paper lb) \<noteq> 0"
  shows "(let v = build_ledger_gate lb symbol now; g = gv_gate v; e = equity (lb_paper lb); ps = positions (lb_paper lb) in
     exposure_used_pct g = total_notional ps / e
     \<and> correlation_used_pct g = basket_notional ps (upper symbol) / e
     \<and> gs_correlation_triggered g = correlation_triggered ps (upper symbol)
     \<and> gv_open_position_count v = length ps
     \<and> (\<exists>d. utc_day_start now = d \<and> d \<le> now \<and> now < d + days_td 1
          \<and> daily_loss_used_pct g = max 0 (- fl (load_realized_pnl_since d (d + days_td 1) (lb_store lb))) / e)
     \<and> drawdown_used_pct g = max_drawdown_pct (lb_paper lb)
     \<and> (0 \<le> e \<longrightarrow> 0 \<le> daily_loss_used_pct g))"
proof -
  have ok: "ledger_ok lb" using assms(1) by (rule ledger_reachable_ok)
  have n: "length (load_open_position_rows (lb_store lb)) = length (positions (lb_paper lb))"
    using gate_positions [OF ok] by (metis length_map position_set_def)
  have d: "0 \<le> max 0 (- x) / e" if "0 \<le> e" for x e :: f64
    using that by (intro f64_div_nonneg) simp_all
  show ?thesis
    using utc_day_bounds [of now] gate_positions [OF ok] n assms(2) d
    by (simp add: build_ledger_gate_def Let_def realized_pnl_since_def)
qed

theorem ledger_gate_is_broker_gate_witness:
  "exposure_used_pct (gv_gate (build_ledger_gate (restore_state (init_ledger empty_store (fl 1000) 0 None)) ''EURUSD'' 0))
     = total_notional [] / fl 1000"
proof -
  let ?lb = "restore_state (init_ledger empty_store (fl 1000) 0 None)"
  have "store_ok empty_store" by (simp add: store_ok_def empty_store_def list_open_positions_def map_filter_def)
  then have r: "ledger_reachable (\<lambda>_. 0) ?lb" by (rule ledger_reachable.start)
  have e: "equity (lb_paper ?lb) = fl 1000" "positions (lb_paper ?lb) = []"
    by (simp_all add: restore_state_def init_ledger_def init_broker_def empty_store_def Let_def list_open_positions_def
        restore_account_def latest_snapshot_def)
  have "fl 1000 \<noteq> 0" by code_simp
  with ledger_gate_is_broker_gate [OF r, of "''EURUSD''" 0] e show ?thesis by (simp add: Let_def)
qed

end
