(* ===== verification/Orchestrator.thy ===== *)
theory Orchestrator
  imports EngineRuns LedgerGate LifecycleRuns
begin

text \<open>
  The orchestrator worker (\<^verbatim>\<open>app/workers/orchestrator_worker.py\<close>): one decision per triggered pair,
  the paper order it sponsors in the same transaction, and the lifecycle cycle over the paper ledger.
  The world is the engine's database and the ledger tables; the ledger reads the decisions of the
  engine. Sessions do not expire on commit, so a session works on the rows it loaded and a new
  session reads them at column scale (\<^const>\<open>reload\<close>). Every operation is a committed transaction or,
  for an exception, no change at all; database failures inside a cycle are not modelled. Fresh ids
  and clock readings come with the call; logs, metrics and published events are left out.
\<close>

section \<open>World\<close>

record world =
  w_db :: engine_db
  w_ledger :: store

definition decision_ref_of :: "decision_row \<Rightarrow> decision_ref" where
  "decision_ref_of d = \<lparr>d_id = dr_id d, d_bucket_ts = dr_bucket_ts d, d_valid_until = dr_valid_until d\<rparr>"

definition ledger_of :: "world \<Rightarrow> store" where
  "ledger_of w = (w_ledger w)\<lparr>decisions := map decision_ref_of (db_decisions (w_db w))\<rparr>"

text \<open>Settings; \<open>os_broker\<close> says whether a broker factory is wired.\<close>

record orch_settings =
  os_orch :: orch_params
  os_risk_base :: risk_params
  os_equity :: f64
  os_broker :: bool
  os_max_bars :: int
  os_snapshot_interval :: "int option"
  os_symbols :: "string list"
  os_timeframes :: "timeframe list"

record orch_env = engine_env +
  oe_gate_now :: datetime
  oe_order_id :: uuid
  oe_order_created :: datetime

text \<open>\<^verbatim>\<open>self._broker_factory(session)\<close> followed by \<^verbatim>\<open>restore_state()\<close>.\<close>

definition restored_broker :: "orch_settings \<Rightarrow> world \<Rightarrow> ledger_broker" where
  "restored_broker cfg w = restore_state (init_ledger (reload (ledger_of w)) (os_equity cfg) 0 None)"

section \<open>One pair\<close>

definition wire_paper_decision ::
  "uuid \<Rightarrow> datetime \<Rightarrow> ledger_broker \<Rightarrow> decide_result \<Rightarrow> decision_row option \<Rightarrow> risk_evaluation_row option
   \<Rightarrow> (py_error + order_row option) \<times> ledger_broker" where
  "wire_paper_decision new_id created lb result decision risk_eval =
     (if rz_status result \<noteq> Some PAPER \<or> \<not> rz_created result then (Inr None, lb)
      else case (decision, risk_eval) of
        (Some d, Some e) \<Rightarrow>
          (case (re_position_size_units e, re_price e, rz_direction result) of
             (Some u, Some x, Some dir) \<Rightarrow>
               submit_paper_order new_id created (rz_symbol result) (rz_timeframe result) dir (fl x) (fl u) (Some (dr_id d))
                 (map_option fl (re_stop_loss e)) (map_option fl (re_take_profit e)) lb
           | _ \<Rightarrow> (Inr None, lb))
      | _ \<Rightarrow> (Inr None, lb))"

definition load_decision_payload ::
  "decide_result \<Rightarrow> engine_db \<Rightarrow> decision_row option \<times> risk_evaluation_row option" where
  "load_decision_payload r db =
     (find (\<lambda>d. dr_symbol d = rz_symbol r \<and> dr_timeframe d = rz_timeframe r \<and> dr_bucket_ts d = rz_bucket_ts r) (db_decisions db),
      find (\<lambda>e. re_symbol e = rz_symbol r \<and> re_timeframe e = rz_timeframe r \<and> re_bucket_ts e = rz_bucket_ts r) (db_evaluations db))"

definition sponsor_paper_order ::
  "orch_settings \<Rightarrow> orch_env \<Rightarrow> decide_result \<Rightarrow> engine_db \<Rightarrow> ledger_broker
   \<Rightarrow> (py_error + order_row option) \<times> ledger_broker" where
  "sponsor_paper_order cfg env r db lb =
     (if \<not> os_broker cfg then (Inr None, lb)
      else if rz_status r \<noteq> Some PAPER \<or> \<not> rz_created r then (Inr None, lb)
      else case load_decision_payload r db of (d, e) \<Rightarrow> wire_paper_decision (oe_order_id env) (oe_order_created env) lb r d e)"

definition live_of :: "ledger_gate_view \<Rightarrow> risk_live" where
  "live_of v = \<lparr>rl_equity = gv_equity v, rl_peak_equity = gv_peak_equity v, rl_cumulative_realized = gv_cumulative_realized v\<rparr>"

text \<open>The pair's timeframe arrives as a string; the configured ones are valid codes. Decision and order
  share a transaction: when the submission raises, neither is stored.\<close>

definition process_pair ::
  "orch_settings \<Rightarrow> orch_env \<Rightarrow> string \<Rightarrow> string \<Rightarrow> world \<Rightarrow> py_error + decide_result option \<times> world" where
  "process_pair cfg env symbol timeframe w =
     (let db = w_db w; risk = load_risk_params (en_float env) (os_risk_base cfg) (db_risk_setting db) in
      case parse_timeframe (upper timeframe) of
        None \<Rightarrow> Inr (None, w)
      | Some tf \<Rightarrow>
          if upper symbol \<notin> set (os_symbols cfg) \<or> tf \<notin> set (os_timeframes cfg) then Inr (None, w)
          else
            let lb = restored_broker cfg w;
                view = build_ledger_gate lb (upper symbol) (oe_gate_now env);
                gate = (if os_broker cfg then Some (gv_gate view) else None);
                live = (if os_broker cfg then Some (live_of view) else None)
            in case decide (engine_env.truncate env) (upper symbol) tf (os_timeframes cfg) (os_orch cfg) risk gate live db of
                 Inl e \<Rightarrow> Inl e
               | Inr (r, db') \<Rightarrow>
                   if rz_action r = PERSIST \<and> os_broker cfg
                   then (case sponsor_paper_order cfg env r db' lb of
                       (Inl e, _) \<Rightarrow> Inl e
                     | (Inr _, lb') \<Rightarrow> Inr (Some r, \<lparr>w_db = db', w_ledger = lb_store lb'\<rparr>))
                   else Inr (Some r, w\<lparr>w_db := db'\<rparr>))"

section \<open>Triggers\<close>

record batch_result =
  br_processed :: nat
  br_replayed :: nat
  br_errors :: nat
  br_status_count :: "(decision_status \<times> nat) list"

definition count_status :: "decision_status option \<Rightarrow> batch_result \<Rightarrow> batch_result" where
  "count_status s b = (case s of None \<Rightarrow> b
     | Some st \<Rightarrow> b\<lparr>br_status_count := dict_set st
         ((case map_of (br_status_count b) st of Some n \<Rightarrow> n | None \<Rightarrow> 0) + 1) (br_status_count b)\<rparr>)"

text \<open>A stream entry after \<^verbatim>\<open>_unwrap\<close>: its id, and None for a malformed or foreign envelope, else
  the payload's symbol and timeframe with missing ones empty.\<close>

type_synonym trigger = "string \<times> (string \<times> string) option"

text \<open>The loop of \<open>poll_once\<close>: the pairs seen, the ids to acknowledge, the counters, the world.
  \<open>envs n\<close> is the environment of the \<open>n\<close>-th entry.\<close>

fun poll_entries ::
  "orch_settings \<Rightarrow> (nat \<Rightarrow> orch_env) \<Rightarrow> nat \<Rightarrow> trigger list
   \<Rightarrow> (string \<times> string) set \<times> string list \<times> batch_result \<times> world
   \<Rightarrow> (string \<times> string) set \<times> string list \<times> batch_result \<times> world" where
  "poll_entries cfg envs n [] s = s"
| "poll_entries cfg envs n ((entry, payload) # es) (seen, acks, b, w) =
     (let skip = (seen, acks @ [entry], b\<lparr>br_replayed := br_replayed b + 1\<rparr>, w) in
      poll_entries cfg envs (Suc n) es
       (case payload of None \<Rightarrow> skip
        | Some (symbol, tf) \<Rightarrow>
            if symbol = '''' \<or> tf = '''' \<or> (symbol, tf) \<in> seen then skip
            else
              let seen' = insert (symbol, tf) seen in
              (case process_pair cfg (envs n) symbol tf w of
                 Inl e \<Rightarrow> (seen', acks @ [entry], b\<lparr>br_errors := br_errors b + 1\<rparr>, w)
               | Inr (None, w') \<Rightarrow> (seen', acks @ [entry], b\<lparr>br_replayed := br_replayed b + 1\<rparr>, w')
               | Inr (Some r, w') \<Rightarrow>
                   (let b1 = (if rz_created r then b else b\<lparr>br_replayed := br_replayed b + 1\<rparr>);
                        b2 = count_status (rz_status r) b1
                    in (seen', acks @ [entry], b2\<lparr>br_processed := br_processed b2 + 1\<rparr>, w')))))"

definition empty_batch :: batch_result where
  "empty_batch = \<lparr>br_processed = 0, br_replayed = 0, br_errors = 0, br_status_count = []\<rparr>"

definition poll_once ::
  "orch_settings \<Rightarrow> (nat \<Rightarrow> orch_env) \<Rightarrow> trigger list \<Rightarrow> world \<Rightarrow> string list \<times> batch_result \<times> world" where
  "poll_once cfg envs entries w =
     (case poll_entries cfg envs 0 entries ({}, [], empty_batch, w) of (_, acks, b, w') \<Rightarrow> (acks, b, w'))"

text \<open>\<open>scan_all\<close> over the configured pairs; an exception ends the scan and keeps what was committed.\<close>

fun scan_pairs ::
  "orch_settings \<Rightarrow> (nat \<Rightarrow> orch_env) \<Rightarrow> nat \<Rightarrow> (string \<times> timeframe) list \<Rightarrow> batch_result \<times> world
   \<Rightarrow> py_error option \<times> batch_result \<times> world" where
  "scan_pairs cfg envs n [] (b, w) = (None, b, w)"
| "scan_pairs cfg envs n ((symbol, tf) # ps) (b, w) =
     (case process_pair cfg (envs n) symbol (tf_name tf) w of
        Inl e \<Rightarrow> (Some e, b, w)
      | Inr (None, w') \<Rightarrow> scan_pairs cfg envs (Suc n) ps (b, w')
      | Inr (Some r, w') \<Rightarrow>
          scan_pairs cfg envs (Suc n) ps
            (if rz_action r = PERSIST then count_status (rz_status r) (b\<lparr>br_processed := br_processed b + 1\<rparr>) else b, w'))"

definition scan_all :: "orch_settings \<Rightarrow> (nat \<Rightarrow> orch_env) \<Rightarrow> world \<Rightarrow> py_error option \<times> batch_result \<times> world" where
  "scan_all cfg envs w = scan_pairs cfg envs 0 (List.product (os_symbols cfg) (os_timeframes cfg)) (empty_batch, w)"

section \<open>Lifecycle cycle\<close>

record lifecycle_result =
  lr_units :: nat
  lr_bars :: nat
  lr_fills :: nat
  lr_exits :: nat
  lr_superseded :: nat
  lr_cancelled_missing :: nat
  lr_expired :: nat
  lr_snapshots :: nat
  lr_depth_remaining :: nat
  lr_errors :: nat
  lr_reconcile_ok :: bool

definition empty_lifecycle :: lifecycle_result where
  "empty_lifecycle = \<lparr>lr_units = 0, lr_bars = 0, lr_fills = 0, lr_exits = 0, lr_superseded = 0, lr_cancelled_missing = 0,
     lr_expired = 0, lr_snapshots = 0, lr_depth_remaining = 0, lr_errors = 0, lr_reconcile_ok = True\<rparr>"

text \<open>The closed bars from the earliest anchor on; \<open>candles\<close> is the dictionary of the loaded bars.\<close>

definition outstanding_stamps :: "pending_candidate list \<Rightarrow> (datetime \<times> bar) list \<Rightarrow> position option \<Rightarrow> datetime list" where
  "outstanding_stamps cands candles current =
     (let due = sort (filter (\<lambda>t. t \<in> fst ` set candles) (map c_fill_stamp cands));
          anchors = (case due of [] \<Rightarrow> [] | t # _ \<Rightarrow> [t]) @ (case current of None \<Rightarrow> [] | Some p \<Rightarrow> [p_entry_ts p])
      in case anchors of [] \<Rightarrow> []
         | a # as \<Rightarrow> filter (\<lambda>t. foldl min a as \<le> t) (map fst candles))"

fun cancel_all :: "pending_candidate list \<Rightarrow> nat \<times> ledger_broker \<Rightarrow> nat \<times> ledger_broker" where
  "cancel_all [] s = s"
| "cancel_all (c # cs) (n, lb) =
     (case cancel_pending (c_order c) lb of (None, lb1) \<Rightarrow> cancel_all cs (n, lb1) | (Some _, lb1) \<Rightarrow> cancel_all cs (n + 1, lb1))"

definition unit_candidates :: "string \<Rightarrow> timeframe \<Rightarrow> store \<Rightarrow> pending_candidate list" where
  "unit_candidates symbol tf st = filter (\<lambda>c. o_symbol (c_order c) = symbol \<and> o_timeframe (c_order c) = tf) (pending_candidates st)"

text \<open>The bars the unit loads: from the earliest due fill bar or the open position's entry on.\<close>

definition unit_candles :: "uuid \<Rightarrow> timeframe \<Rightarrow> datetime \<Rightarrow> pending_candidate list \<Rightarrow> position option \<Rightarrow> market \<Rightarrow> (datetime \<times> bar) list" where
  "unit_candles iid tf latest cands current m =
     (let bases = filter (\<lambda>t. t \<le> latest) (map c_fill_stamp cands)
            @ (case current of None \<Rightarrow> [] | Some p \<Rightarrow> [p_entry_ts p]);
          start = (case bases of [] \<Rightarrow> datetime_min | b # bs \<Rightarrow> foldl min b bs)
      in map (\<lambda>k. (k_ts k, \<lparr>b_ts = k_ts k, b_open = fl (k_open k), b_close = fl (k_close k)\<rparr>))
           (load_candles iid tf (Some start) (Some (latest + seconds_td 1)) 100000 m))"

text \<open>\<^verbatim>\<open>_process_unit\<close>. Every stamp of the window is a key of \<open>candles\<close>. The loop over the window is
  \<^const>\<open>run_bars\<close>, one committed unit-bar after another.\<close>

definition worker_process_unit ::
  "hash \<Rightarrow> orch_settings \<Rightarrow> uuid \<Rightarrow> (datetime \<Rightarrow> uuid \<times> uuid) \<Rightarrow> datetime \<Rightarrow> string \<Rightarrow> timeframe \<Rightarrow> world
   \<Rightarrow> unit_summary \<times> nat \<times> world" where
  "worker_process_unit H cfg inst_id ids now symbol tf w =
     (let summary = \<lparr>us_symbol = symbol, us_timeframe = tf, us_bars_processed = 0, us_fills = 0, us_exits = 0,
            us_superseded = 0, us_snapshots = 0, us_depth_remaining = 0\<rparr>;
          lb = restored_broker cfg w;
          cands = unit_candidates symbol tf (lb_store lb);
          (ins, m) = get_or_create_instrument inst_id symbol (db_market (w_db w));
          w1 = w\<lparr>w_db := (w_db w)\<lparr>db_market := m\<rparr>\<rparr>
      in case last_closed_ts (i_id ins) tf m of
           None \<Rightarrow> (summary, 0, w)
         | Some latest \<Rightarrow>
             let current = lb_open_for lb symbol;
                 candles = unit_candles (i_id ins) tf latest cands current m;
                 doomed = missing_bar_candidates cands (map fst candles) latest;
                 (cancelled, lb1) = cancel_all doomed (0, lb);
                 stamps = outstanding_stamps cands candles current
             in if stamps = [] then (summary, cancelled, if doomed = [] then w else w1\<lparr>w_ledger := lb_store lb1\<rparr>)
                else
                  let (window, depth) = catchup_window stamps (os_max_bars cfg);
                      (s, lb2) = run_bars H (os_snapshot_interval cfg) ids now symbol tf cands
                        (List.map_filter (map_of candles) window) (summary\<lparr>us_depth_remaining := depth\<rparr>, lb1)
                  in (s, cancelled, w1\<lparr>w_ledger := lb_store lb2\<rparr>))"

text \<open>The active units, by symbol and then by timeframe code.\<close>

definition active_units :: "store \<Rightarrow> (string \<times> timeframe) list" where
  "active_units st = sort_key (\<lambda>u. (fst u, tf_name (snd u))) (remdups
     (map (\<lambda>c. (o_symbol (c_order c), o_timeframe (c_order c))) (pending_candidates st)
      @ map (\<lambda>r. (r_symbol r, r_timeframe r)) (list_open_positions st)))"

fun cancel_orders :: "order_row list \<Rightarrow> ledger_broker \<Rightarrow> ledger_broker" where
  "cancel_orders [] lb = lb"
| "cancel_orders (ord # os) lb = cancel_orders os (snd (cancel_pending ord lb))"

definition cancel_expired_pending :: "orch_settings \<Rightarrow> datetime \<Rightarrow> world \<Rightarrow> nat \<times> world" where
  "cancel_expired_pending cfg now w =
     (if \<not> os_broker cfg then (0, w)
      else let lb = restored_broker cfg w; expired = list_pending_expired now (lb_store lb)
           in (length expired, w\<lparr>w_ledger := lb_store (cancel_orders expired lb)\<rparr>))"

text \<open>The environment of a cycle: ids per unit (instrument) and per unit and bar (position, snapshot),
  and the clock.\<close>

record cycle_env =
  ce_inst_id :: "string \<times> timeframe \<Rightarrow> uuid"
  ce_bar_ids :: "string \<times> timeframe \<Rightarrow> datetime \<Rightarrow> uuid \<times> uuid"
  ce_now :: datetime

definition add_unit :: "unit_summary \<Rightarrow> nat \<Rightarrow> lifecycle_result \<Rightarrow> lifecycle_result" where
  "add_unit s cancelled r = r\<lparr>lr_units := lr_units r + 1, lr_bars := lr_bars r + us_bars_processed s,
     lr_depth_remaining := lr_depth_remaining r + us_depth_remaining s, lr_fills := lr_fills r + us_fills s,
     lr_exits := lr_exits r + us_exits s, lr_superseded := lr_superseded r + us_superseded s,
     lr_cancelled_missing := lr_cancelled_missing r + cancelled, lr_snapshots := lr_snapshots r + us_snapshots s\<rparr>"

fun process_units ::
  "hash \<Rightarrow> orch_settings \<Rightarrow> cycle_env \<Rightarrow> (string \<times> timeframe) list \<Rightarrow> lifecycle_result \<times> world \<Rightarrow> lifecycle_result \<times> world" where
  "process_units H cfg env [] s = s"
| "process_units H cfg env (u # us) (r, w) =
     (let (sm, cancelled, w') = worker_process_unit H cfg (ce_inst_id env u) (ce_bar_ids env u) (ce_now env) (fst u) (snd u) w
      in process_units H cfg env us (add_unit sm cancelled r, w'))"

definition process_lifecycle :: "hash \<Rightarrow> orch_settings \<Rightarrow> cycle_env \<Rightarrow> world \<Rightarrow> lifecycle_result option \<times> world" where
  "process_lifecycle H cfg env w =
     (if \<not> os_broker cfg then (None, w)
      else let lb = restored_broker cfg w in
        if \<not> reconcile lb then (Some (empty_lifecycle\<lparr>lr_reconcile_ok := False\<rparr>), w)
        else
          let (r, w1) = process_units H cfg env (active_units (lb_store lb)) (empty_lifecycle, w);
              (n, w2) = cancel_expired_pending cfg (ce_now env) w1
          in (Some (r\<lparr>lr_expired := n\<rparr>), w2))"

end
