(* ===== verification/OrchestratorLock.thy ===== *)
theory OrchestratorLock
  imports Prelude
begin

text \<open>
  The advisory lock of the orchestrator (\<^verbatim>\<open>acquire_lock\<close>, \<^verbatim>\<open>renew_lock\<close>, \<^verbatim>\<open>release_lock\<close> of
  \<^verbatim>\<open>app/workers/orchestrator_worker.py\<close>). The Redis key is a value with the instant it expires; a
  WATCH/GET/MULTI/EXEC block is one atomic step, as EXEC is refused when the key changed since
  WATCH. A call that fails on the connection may or may not have reached the server.
\<close>

type_synonym redis_key = "(string \<times> datetime) option"

definition live_value :: "datetime \<Rightarrow> redis_key \<Rightarrow> string option" where
  "live_value now k = (case k of None \<Rightarrow> None | Some (v, e) \<Rightarrow> if now < e then Some v else None)"

datatype redis_outcome = Replied | LostBefore | LostAfter

text \<open>\<^verbatim>\<open>SET key token NX EX ttl\<close> with the token drawn for this call. On a lost connection the call raises,
  so the worker is not told that it owns the lock, but the key may hold its token.\<close>

definition acquire_lock :: "datetime \<Rightarrow> int \<Rightarrow> string \<Rightarrow> redis_outcome \<Rightarrow> redis_key \<Rightarrow> bool \<times> redis_key" where
  "acquire_lock now ttl token net k =
     (if net = LostBefore \<or> live_value now k \<noteq> None then (False, k)
      else (net = Replied, Some (token, now + seconds_td ttl)))"

definition renew_lock :: "datetime \<Rightarrow> int \<Rightarrow> string \<Rightarrow> redis_outcome \<Rightarrow> redis_key \<Rightarrow> bool \<times> redis_key" where
  "renew_lock now ttl token net k =
     (if token = '''' \<or> net = LostBefore \<or> live_value now k \<noteq> Some token then (False, k)
      else (net = Replied, Some (token, now + seconds_td ttl)))"

definition release_lock :: "datetime \<Rightarrow> string \<Rightarrow> redis_outcome \<Rightarrow> redis_key \<Rightarrow> redis_key" where
  "release_lock now token net k =
     (if token = '''' \<or> net = LostBefore \<or> live_value now k \<noteq> Some token then k else None)"

text \<open>Any number of orchestrators over one key. \<open>ls_lease i\<close> is the instant up to which worker
  \<open>i\<close> was last told that it owns the lock, counted from the server's clock at the answer.\<close>

record lock_system =
  ls_now :: datetime
  ls_key :: redis_key
  ls_token :: "nat \<Rightarrow> string"
  ls_lease :: "nat \<Rightarrow> datetime option"
  ls_drawn :: "string set"

definition no_workers :: "datetime \<Rightarrow> lock_system" where
  "no_workers now = \<lparr>ls_now = now, ls_key = None, ls_token = (\<lambda>_. ''''), ls_lease = (\<lambda>_. None), ls_drawn = {}\<rparr>"

definition told :: "nat \<Rightarrow> string \<Rightarrow> int \<Rightarrow> bool \<times> redis_key \<Rightarrow> lock_system \<Rightarrow> lock_system" where
  "told i token ttl res s = s\<lparr>ls_key := snd res, ls_token := (ls_token s)(i := token),
     ls_lease := (ls_lease s)(i := if fst res then Some (ls_now s + seconds_td ttl) else None)\<rparr>"

inductive lock_step :: "lock_system \<Rightarrow> lock_system \<Rightarrow> bool" where
  tick: "ls_now s \<le> t \<Longrightarrow> lock_step s (s\<lparr>ls_now := t\<rparr>)"
| acquire: "token \<notin> ls_drawn s \<Longrightarrow> token \<noteq> '''' \<Longrightarrow>
    lock_step s (told i token ttl (acquire_lock (ls_now s) ttl token net (ls_key s)) (s\<lparr>ls_drawn := insert token (ls_drawn s)\<rparr>))"
| renew: "lock_step s (told i (ls_token s i) ttl (renew_lock (ls_now s) ttl (ls_token s i) net (ls_key s)) s)"
| release: "lock_step s (told i (ls_token s i) ttl (False, release_lock (ls_now s) (ls_token s i) net (ls_key s)) s)"

definition lock_ok :: "lock_system \<Rightarrow> bool" where
  "lock_ok s = ((\<forall>i. ls_token s i \<noteq> '''' \<longrightarrow> ls_token s i \<in> ls_drawn s)
     \<and> (\<forall>i j. ls_token s i = ls_token s j \<and> ls_token s i \<noteq> '''' \<longrightarrow> i = j)
     \<and> (\<forall>v e. ls_key s = Some (v, e) \<longrightarrow> v \<in> ls_drawn s)
     \<and> (\<forall>i e. ls_lease s i = Some e \<and> ls_now s < e \<longrightarrow> ls_token s i \<noteq> '''' \<and> ls_key s = Some (ls_token s i, e)))"

lemma live_value_iff: "live_value now k = Some v \<longleftrightarrow> (\<exists>e. k = Some (v, e) \<and> now < e)"
  by (auto simp: live_value_def split: option.splits)

lemma lock_step_ok: "lock_step s s' \<Longrightarrow> lock_ok s \<Longrightarrow> lock_ok s'"
proof (induction rule: lock_step.induct)
  case (tick s t)
  then show ?case unfolding lock_ok_def by fastforce
next
  case (acquire token s i ttl net)
  show ?case
  proof (cases "live_value (ls_now s) (ls_key s)")
    case None
    have "\<not> ls_now s < e" if "ls_lease s j = Some e" for j e
      using acquire.prems None that by (fastforce simp: lock_ok_def live_value_def)
    moreover have "ls_token s j \<noteq> token" for j
      using acquire.prems acquire.hyps unfolding lock_ok_def by metis
    ultimately show ?thesis using None acquire.prems acquire.hyps
      by (auto simp: lock_ok_def told_def acquire_lock_def)
  next
    case (Some v)
    have "ls_token s j \<noteq> token" for j
      using acquire.prems acquire.hyps unfolding lock_ok_def by metis
    then show ?thesis using Some acquire.prems acquire.hyps
      by (auto simp: lock_ok_def told_def acquire_lock_def)
  qed
next
  case (renew s i ttl net)
  show ?case
  proof (cases "ls_token s i = '''' \<or> net = LostBefore \<or> live_value (ls_now s) (ls_key s) \<noteq> Some (ls_token s i)")
    case True
    then show ?thesis using renew.prems by (auto simp: lock_ok_def told_def renew_lock_def)
  next
    case False
    then obtain e where e: "ls_key s = Some (ls_token s i, e)" "ls_token s i \<noteq> ''''" by (auto simp: live_value_iff)
    have "j = i" if "ls_lease s j = Some e'" "ls_now s < e'" for j e'
      using renew.prems that e unfolding lock_ok_def by (metis Pair_inject option.inject)
    then show ?thesis using False renew.prems e by (auto simp: lock_ok_def told_def renew_lock_def)
  qed
next
  case (release s i ttl net)
  show ?case
  proof (cases "ls_token s i = '''' \<or> net = LostBefore \<or> live_value (ls_now s) (ls_key s) \<noteq> Some (ls_token s i)")
    case True
    then show ?thesis using release.prems by (auto simp: lock_ok_def told_def release_lock_def)
  next
    case False
    then obtain e where e: "ls_key s = Some (ls_token s i, e)" "ls_token s i \<noteq> ''''" by (auto simp: live_value_iff)
    have "j = i" if "ls_lease s j = Some e'" "ls_now s < e'" for j e'
      using release.prems that e unfolding lock_ok_def by (metis Pair_inject option.inject)
    then show ?thesis using False release.prems e by (auto simp: lock_ok_def told_def release_lock_def)
  qed
qed

text \<open>
  C12. Two orchestrators never both own the lock: over any interleaving of time, acquisitions with fresh
  tokens, renewals and releases by any number of workers, with lost connections at any point, at most
  one worker has an answer of ownership whose lease has not run out, and the key then holds its token
  until exactly that instant.
\<close>

theorem lock_exclusive:
  assumes "lock_step\<^sup>*\<^sup>* (no_workers t0) s"
    "ls_lease s i = Some a" "ls_now s < a" "ls_lease s j = Some b" "ls_now s < b"
  shows "i = j \<and> ls_key s = Some (ls_token s i, a)"
proof -
  have "lock_ok s" using assms(1)
  proof (induction rule: rtranclp_induct)
    case base
    show ?case by (simp add: lock_ok_def no_workers_def)
  next
    case (step y z)
    then show ?case by (intro lock_step_ok [of y z])
  qed
  with assms(2-) show ?thesis unfolding lock_ok_def by (metis Pair_inject option.inject)
qed

definition one_owner :: lock_system where
  "one_owner = told 0 ''a'' 120 (acquire_lock 0 120 ''a'' Replied None) (no_workers 0\<lparr>ls_drawn := {''a''}\<rparr>)"

theorem lock_exclusive_witness:
  "ls_lease one_owner 0 = Some (seconds_td 120) \<and> ls_key one_owner = Some (''a'', seconds_td 120)
   \<and> \<not> fst (acquire_lock (seconds_td 119) 120 ''b'' Replied (ls_key one_owner))"
proof -
  have st: "lock_step\<^sup>*\<^sup>* (no_workers 0) one_owner"
    using lock_step.acquire [of "''a''" "no_workers 0" 0 120 Replied] by (simp add: no_workers_def one_owner_def)
  have l: "ls_lease one_owner 0 = Some (seconds_td 120)" "ls_now one_owner < seconds_td 120" "ls_token one_owner 0 = ''a''"
    by (simp_all add: one_owner_def told_def acquire_lock_def no_workers_def live_value_def seconds_td_def)
  from lock_exclusive [OF st l(1,2) l(1,2)] l show ?thesis
    by (simp add: acquire_lock_def live_value_def)
qed

end
