(* ===== verification/OrchestratorRuns.thy ===== *)
theory OrchestratorRuns
  imports Orchestrator OrchestratorLock
begin

text \<open>
  What the orchestrator guarantees over any run: which orders exist and why, what one decision does
  to the ledger, that the reconciliation guard never fires, and which bars a unit ever processes.
\<close>

section \<open>Identities survive the lifecycle\<close>

lemma order_ids_update_order [simp]: "map o_id (orders (update_order r st)) = map o_id (orders st)"
  by (simp add: comp_def if_distrib cong: if_cong)

lemma order_ids_ops [simp]:
  "map o_id (orders (lb_store (snd (cancel_pending ord lb)))) = map o_id (orders (lb_store lb))"
  "map o_id (orders (lb_store (snd (fill_pending H i now ord x ts lb)))) = map o_id (orders (lb_store lb))"
  by (simp_all add: cancel_pending_def fill_pending_def Let_def del: orders_update split: option.splits)

lemma row_ids_ops [simp]:
  "position_rows (lb_store (snd (cancel_pending ord lb))) = position_rows (lb_store lb)"
  "r_id ` set (position_rows (lb_store (snd (fill_pending H i now ord x ts lb)))) \<subseteq> insert i (r_id ` set (position_rows (lb_store lb)))"
  by (auto simp: cancel_pending_def fill_pending_def new_position_row_def Let_def split: option.splits)

lemma insert_chain: "C \<subseteq> insert i A \<Longrightarrow> A \<subseteq> insert i B \<Longrightarrow> C \<subseteq> insert i B"
  by blast

lemma disposition_ids:
  "map o_id (orders (lb_store (snd (apply_disposition H i now s b z d)))) = map o_id (orders (lb_store (snd z)))"
  "r_id ` set (position_rows (lb_store (snd (apply_disposition H i now s b z d)))) \<subseteq> insert i (r_id ` set (position_rows (lb_store (snd z))))"
proof -
  obtain res lb c a where z: "z = (res, lb)" "d = (c, a)" by (cases z; cases d)
  let ?lb1 = "if a = FLIP then snd (lb_close_on_signal H s (b_open b) (b_ts b) lb) else lb"
  have m: "map r_id (position_rows (lb_store ?lb1)) = map r_id (position_rows (lb_store lb))" by (simp add: signal_frame)
  have f: "orders (lb_store ?lb1) = orders (lb_store lb)" "r_id ` set (position_rows (lb_store ?lb1)) = r_id ` set (position_rows (lb_store lb))"
    using arg_cong [OF m, of set] by (simp_all only: set_map) (simp add: signal_frame)
  have sup: "snd (apply_disposition H i now s b z d) = snd (cancel_pending (c_order c) lb)" if "a = SUPERSEDED"
    using that by (simp add: z apply_disposition_eq)
  have act: "snd (apply_disposition H i now s b z d) = snd (fill_pending H i now (c_order c) (b_open b) (b_ts b) ?lb1)"
    if "a \<noteq> SUPERSEDED"
    using that by (simp add: z apply_disposition_eq Let_def)
  show "map o_id (orders (lb_store (snd (apply_disposition H i now s b z d)))) = map o_id (orders (lb_store (snd z)))"
  proof (cases "a = SUPERSEDED")
    case True
    show ?thesis unfolding sup [OF True] by (simp only: order_ids_ops z snd_conv)
  next
    case False
    show ?thesis unfolding act [OF False] by (simp only: order_ids_ops f(1) z snd_conv)
  qed
  show "r_id ` set (position_rows (lb_store (snd (apply_disposition H i now s b z d)))) \<subseteq> insert i (r_id ` set (position_rows (lb_store (snd z))))"
  proof (cases "a = SUPERSEDED")
    case True
    show ?thesis unfolding sup [OF True] by (simp only: row_ids_ops(1) z snd_conv subset_insertI)
  next
    case False
    show ?thesis unfolding act [OF False]
      using row_ids_ops(2) [of H i now "c_order c" "b_open b" "b_ts b" ?lb1] by (simp only: f(2) z snd_conv)
  qed
qed

lemma dispositions_ids:
  "map o_id (orders (lb_store (snd (foldl (apply_disposition H i now s b) z ds)))) = map o_id (orders (lb_store (snd z)))
   \<and> r_id ` set (position_rows (lb_store (snd (foldl (apply_disposition H i now s b) z ds)))) \<subseteq> insert i (r_id ` set (position_rows (lb_store (snd z))))"
proof (induction ds arbitrary: z)
  case (Cons d ds)
  show ?case
    using Cons.IH [of "apply_disposition H i now s b z d"] disposition_ids [of H i now s b z d] insert_chain
    by (simp del: image_set) blast
qed auto

lemma unit_bar_ids:
  "map o_id (orders (lb_store (snd (process_unit_bar H interval i j now s tf b cands lb)))) = map o_id (orders (lb_store lb))"
  "r_id ` set (position_rows (lb_store (snd (process_unit_bar H interval i j now s tf b cands lb))))
     \<subseteq> insert i (r_id ` set (position_rows (lb_store lb)))"
proof -
  obtain res1 lb1 trade lb2 lb3 where st:
    "foldl (apply_disposition H i now (upper s) b)
       (\<lparr>ub_symbol = upper s, ub_timeframe = tf, ub_ts = b_ts b, ub_filled = 0, ub_exits = 0,
         ub_superseded = 0, ub_snapshot_written = False\<rparr>, restore_state lb)
       (arbitrate_fills (map_option p_side (lb_open_for (restore_state lb) (upper s))) (candidates_for_bar cands (b_ts b)))
     = (res1, lb1)"
    "lb_evaluate_exit H (upper s) (b_close b) (b_ts b) lb1 = (trade, lb2)"
    "lb3 = lb_mark_position (upper s) (b_close b) lb2"
    "process_unit_bar H interval i j now s tf b cands lb =
       (let res2 = res1\<lparr>ub_exits := ub_exits res1 + (if trade = None then 0 else 1)\<rparr> in
        if (0 < ub_filled res2 \<or> 0 < ub_exits res2 \<or> lb_open_for lb3 (upper s) \<noteq> None)
           \<and> snapshot_due interval (lb_store lb3) b
        then (res2\<lparr>ub_snapshot_written := True\<rparr>, snd (equity_snapshot j (b_ts b) lb3)) else (res2, lb3))"
    by (rule process_unit_bar_stages)
  have 1: "map o_id (orders (lb_store lb1)) = map o_id (orders (lb_store lb))"
    "r_id ` set (position_rows (lb_store lb1)) \<subseteq> insert i (r_id ` set (position_rows (lb_store lb)))"
    using dispositions_ids [of H i now "upper s" b "(\<lparr>ub_symbol = upper s, ub_timeframe = tf, ub_ts = b_ts b, ub_filled = 0, ub_exits = 0,
         ub_superseded = 0, ub_snapshot_written = False\<rparr>, restore_state lb)"] st(1) by (metis snd_conv store_restore)+
  have 2: "orders (lb_store lb2) = orders (lb_store lb1)" "map r_id (position_rows (lb_store lb2)) = map r_id (position_rows (lb_store lb1))"
    using exit_frame [of H "upper s" "b_close b" "b_ts b" lb1] st(2) by simp_all
  have 3: "lb_store lb3 = lb_store lb2" by (simp add: st(3) lb_mark_position_def)
  have snap: "orders (lb_store (snd (equity_snapshot j t x))) = orders (lb_store x)"
    "position_rows (lb_store (snd (equity_snapshot j t x))) = position_rows (lb_store x)" for t x
    by (simp_all add: equity_snapshot_def Let_def split: prod.splits)
  have e: "r_id ` set (position_rows (lb_store lb2)) = r_id ` set (position_rows (lb_store lb1))" using arg_cong [OF 2(2), of set] by (simp only: set_map)
  show "map o_id (orders (lb_store (snd (process_unit_bar H interval i j now s tf b cands lb)))) = map o_id (orders (lb_store lb))"
    unfolding st(4) Let_def using 1(1) 2(1) 3 by (simp add: snap)
  show "r_id ` set (position_rows (lb_store (snd (process_unit_bar H interval i j now s tf b cands lb))))
     \<subseteq> insert i (r_id ` set (position_rows (lb_store lb)))"
    unfolding st(4) Let_def using 1(2) e 3 by (simp add: snap)
qed

section \<open>A unit keeps the ledger\<close>

definition order_terms :: "order_row \<Rightarrow> uuid \<times> uuid option \<times> string \<times> timeframe \<times> direction" where
  "order_terms ord = (o_id ord, o_decision_id ord, o_symbol ord, o_timeframe ord, o_side ord)"

definition keeps_ledger :: "hash \<Rightarrow> uuid set \<Rightarrow> ledger_broker \<Rightarrow> ledger_broker \<Rightarrow> bool" where
  "keeps_ledger H new lb lb' = (ledger_reachable H lb'
     \<and> map order_terms (orders (lb_store lb')) = map order_terms (orders (lb_store lb))
     \<and> r_id ` set (position_rows (lb_store lb')) \<subseteq> new \<union> r_id ` set (position_rows (lb_store lb)))"

lemma keeps_ledger_refl: "ledger_reachable H lb \<Longrightarrow> keeps_ledger H {} lb lb"
  by (simp add: keeps_ledger_def)

lemma keeps_ledger_trans: "keeps_ledger H A x y \<Longrightarrow> keeps_ledger H B y z \<Longrightarrow> keeps_ledger H (A \<union> B) x z"
  unfolding keeps_ledger_def by (elim conjE, intro conjI) (assumption, simp, blast)

lemma ledger_steps_reachable: "ledger_steps H lb lb' \<Longrightarrow> ledger_reachable H lb \<Longrightarrow> ledger_reachable H lb'"
  by (induction rule: rtranclp_induct) (auto intro: ledger_reachable.step)

lemma order_evolves_terms: "order_evolves r r' \<Longrightarrow> order_terms r' = order_terms r"
  by (auto simp: order_evolves_def order_terms_def)

lemma steps_order_terms:
  assumes "ledger_steps H lb lb'" "ledger_reachable H lb"
    "map o_id (orders (lb_store lb')) = map o_id (orders (lb_store lb))"
  shows "map order_terms (orders (lb_store lb')) = map order_terms (orders (lb_store lb))"
proof -
  have l: "length (orders (lb_store lb')) = length (orders (lb_store lb))" using assms(3) by (metis length_map)
  have "rows_evolve (lb_store lb) (lb_store lb')"
    using ledger_steps_evolve [OF assms(1) ledger_reachable_ok [OF assms(2)]] by blast
  then have "list_all2 order_evolves (orders (lb_store lb)) (orders (lb_store lb'))"
    using l by (simp add: rows_evolve_def)
  then show ?thesis by (induction rule: list_all2_induct) (simp_all add: order_evolves_terms)
qed

lemma map_terms_ids: "map order_terms xs = map order_terms ys \<Longrightarrow> map o_id xs = map o_id ys"
  by (drule arg_cong [of _ _ "map fst"]) (simp add: comp_def order_terms_def)

lemma keeps_ledger_ids: "keeps_ledger H A lb lb' \<Longrightarrow> o_id ` set (orders (lb_store lb')) = o_id ` set (orders (lb_store lb))"
  unfolding keeps_ledger_def by (metis map_terms_ids set_map)

lemma keeps_unit_bar:
  assumes "ledger_reachable H lb" "\<forall>c\<in>set cands. o_id (c_order c) \<in> o_id ` set (orders (lb_store lb))"
    "i \<notin> r_id ` set (position_rows (lb_store lb))"
  shows "keeps_ledger H {i} lb (snd (process_unit_bar H interval i j now s tf b cands lb))"
proof -
  note st = process_unit_bar_steps [OF assms(2,3), of H interval j now s tf b]
  have "r_id ` set (position_rows (lb_store (snd (process_unit_bar H interval i j now s tf b cands lb))))
      \<subseteq> {i} \<union> r_id ` set (position_rows (lb_store lb))"
    using unit_bar_ids(2) [of H interval i j now s tf b cands lb] by blast
  with ledger_steps_reachable [OF st assms(1)] steps_order_terms [OF st assms(1) unit_bar_ids(1)] show ?thesis
    unfolding keeps_ledger_def by (intro conjI)
qed

lemma keeps_cancel:
  assumes "ledger_reachable H lb" "o_id ord \<in> o_id ` set (orders (lb_store lb))"
  shows "keeps_ledger H {} lb (snd (cancel_pending ord lb))"
proof -
  have st: "ledger_step H lb (snd (cancel_pending ord lb))" using assms(2) by (rule ledger_step.cancel)
  have "ledger_reachable H (snd (cancel_pending ord lb))" by (rule ledger_reachable.step [OF assms(1) st])
  moreover have "map order_terms (orders (lb_store (snd (cancel_pending ord lb)))) = map order_terms (orders (lb_store lb))"
    by (rule steps_order_terms [OF r_into_rtranclp [of "ledger_step H", OF st] assms(1)]) simp
  ultimately show ?thesis by (simp add: keeps_ledger_def)
qed

lemma keeps_run_bars:
  assumes "ledger_reachable H lb" "\<forall>c\<in>set cands. o_id (c_order c) \<in> o_id ` set (orders (lb_store lb))"
    "distinct (map b_ts bs)" "inj_on (\<lambda>t. fst (ids t)) (b_ts ` set bs)"
    "\<forall>b\<in>set bs. fst (ids (b_ts b)) \<notin> r_id ` set (position_rows (lb_store lb))"
  shows "keeps_ledger H ((\<lambda>t. fst (ids t)) ` b_ts ` set bs) lb (snd (run_bars H interval ids now s tf cands bs (sm, lb)))"
  using assms
proof (induction bs arbitrary: sm lb)
  case Nil
  then show ?case by (simp add: keeps_ledger_refl)
next
  case (Cons b bs)
  obtain r lb1 where p: "process_unit_bar H interval (fst (ids (b_ts b))) (snd (ids (b_ts b))) now s tf b cands lb = (r, lb1)" by fastforce
  have k: "keeps_ledger H {fst (ids (b_ts b))} lb lb1"
    using keeps_unit_bar [OF Cons.prems(1,2), of "fst (ids (b_ts b))" interval "snd (ids (b_ts b))" now s tf b] Cons.prems(5) p by simp
  have sub: "r_id ` set (position_rows (lb_store lb1)) \<subseteq> {fst (ids (b_ts b))} \<union> r_id ` set (position_rows (lb_store lb))"
    using k unfolding keeps_ledger_def by (elim conjE)
  have rest: "keeps_ledger H ((\<lambda>t. fst (ids t)) ` b_ts ` set bs) lb1 (snd (run_bars H interval ids now s tf cands bs (add_bar_result sm r, lb1)))"
  proof (rule Cons.IH)
    show "ledger_reachable H lb1" using k by (simp add: keeps_ledger_def)
    show "\<forall>c\<in>set cands. o_id (c_order c) \<in> o_id ` set (orders (lb_store lb1))"
      using Cons.prems(2) keeps_ledger_ids [OF k] by simp
    show "distinct (map b_ts bs)" using Cons.prems(3) by simp
    show "inj_on (\<lambda>t. fst (ids t)) (b_ts ` set bs)" using Cons.prems(4) by (rule inj_on_subset) auto
    show "\<forall>b\<in>set bs. fst (ids (b_ts b)) \<notin> r_id ` set (position_rows (lb_store lb1))"
    proof
      fix b' assume b': "b' \<in> set bs"
      then have "b_ts b' \<noteq> b_ts b" using Cons.prems(3) by (metis distinct.simps(2) image_eqI list.simps(9) set_map)
      then have n: "fst (ids (b_ts b')) \<notin> {fst (ids (b_ts b))}"
        using inj_onD [OF Cons.prems(4), of "b_ts b'" "b_ts b"] b' by auto
      have "fst (ids (b_ts b')) \<notin> r_id ` set (position_rows (lb_store lb))"
        using Cons.prems(5) b' by (meson list.set_intros(2))
      with n sub show "fst (ids (b_ts b')) \<notin> r_id ` set (position_rows (lb_store lb1))"
        by (meson Un_iff subsetD)
    qed
  qed
  have run: "snd (run_bars H interval ids now s tf cands (b # bs) (sm, lb))
      = snd (run_bars H interval ids now s tf cands bs (add_bar_result sm r, lb1))" by (simp add: p)
  have "{fst (ids (b_ts b))} \<union> (\<lambda>t. fst (ids t)) ` b_ts ` set bs = (\<lambda>t. fst (ids t)) ` b_ts ` set (b # bs)"
    by (simp only: list.set image_insert Un_insert_left Un_empty_left)
  from keeps_ledger_trans [OF k rest, unfolded this] show ?case unfolding run .
qed

lemma store_ok_decisions [simp]: "store_ok (st\<lparr>decisions := ds\<rparr>) = store_ok st"
  by (simp add: store_ok_def list_open_positions_def)

lemma store_ok_ledger_of: "store_ok (ledger_of w) = store_ok (w_ledger w)"
  by (simp add: ledger_of_def)

lemma restored_broker_facts:
  "store_ok (w_ledger w) \<Longrightarrow> ledger_reachable H (restored_broker cfg w)"
  "map order_terms (orders (lb_store (restored_broker cfg w))) = map order_terms (orders (w_ledger w))"
  "r_id ` set (position_rows (lb_store (restored_broker cfg w))) = r_id ` set (position_rows (w_ledger w))"
proof -
  show "store_ok (w_ledger w) \<Longrightarrow> ledger_reachable H (restored_broker cfg w)"
    unfolding restored_broker_def by (intro ledger_reachable.start store_ok_reload) (simp add: store_ok_ledger_of)
  have st: "lb_store (restored_broker cfg w) = reload (ledger_of w)"
    by (simp add: restored_broker_def init_ledger_def)
  show "map order_terms (orders (lb_store (restored_broker cfg w))) = map order_terms (orders (w_ledger w))"
    unfolding st by (simp add: reload_def ledger_of_def order_terms_def)
  show "r_id ` set (position_rows (lb_store (restored_broker cfg w))) = r_id ` set (position_rows (w_ledger w))"
    unfolding st by (simp add: reload_def ledger_of_def image_image)
qed

lemma pending_candidates_orders: "c \<in> set (pending_candidates st) \<Longrightarrow> c_order c \<in> set (orders st)"
  by (auto simp: pending_candidates_def list_pending_orders_def map_filter_def split: option.splits)

lemma unit_candidates_orders:
  "\<forall>c\<in>set (unit_candidates s tf st). o_id (c_order c) \<in> o_id ` set (orders st)"
  by (auto simp: unit_candidates_def dest: pending_candidates_orders)

lemma missing_subset: "set (missing_bar_candidates cs bs t) \<subseteq> set cs"
  by (auto simp: missing_bar_candidates_def)

lemma unit_candles_bar: "map_of (unit_candles i tf l cs cur m) t = Some b \<Longrightarrow> b_ts b = t"
  by (drule map_of_SomeD) (auto simp: unit_candles_def Let_def)

lemma distinct_window_bars:
  assumes "distinct ts" "\<And>t b. f t = Some b \<Longrightarrow> b_ts b = t"
  shows "distinct (map b_ts (List.map_filter f ts)) \<and> b_ts ` set (List.map_filter f ts) \<subseteq> set ts"
  using assms(1)
proof (induction ts)
  case (Cons t ts)
  then show ?case using assms(2) by (cases "f t") (auto simp: map_filter_simps)
qed (simp add: map_filter_simps)

lemma keeps_cancel_all:
  assumes "ledger_reachable H lb" "\<forall>c\<in>set cs. o_id (c_order c) \<in> o_id ` set (orders (lb_store lb))"
  shows "keeps_ledger H {} lb (snd (cancel_all cs (n, lb)))"
  using assms
proof (induction cs arbitrary: n lb)
  case (Cons c cs)
  obtain r lb1 where p: "cancel_pending (c_order c) lb = (r, lb1)" by fastforce
  have k: "keeps_ledger H {} lb lb1" using keeps_cancel [OF Cons.prems(1), of "c_order c"] Cons.prems(2) p by simp
  have "keeps_ledger H {} lb1 (snd (cancel_all cs (m, lb1)))" for m
    using Cons.IH [of lb1 m] k Cons.prems(2) keeps_ledger_ids [OF k] by (simp add: keeps_ledger_def)
  from keeps_ledger_trans [OF k this] show ?case by (simp add: p split: option.split)
qed (simp add: keeps_ledger_refl)

text \<open>What a lifecycle operation may do to the world: only rows of the ledger move, and the market may
  gain an instrument.\<close>

definition keeps_world :: "uuid set \<Rightarrow> world \<Rightarrow> world \<Rightarrow> bool" where
  "keeps_world new w w' = (store_ok (w_ledger w')
     \<and> map order_terms (orders (w_ledger w')) = map order_terms (orders (w_ledger w))
     \<and> r_id ` set (position_rows (w_ledger w')) \<subseteq> new \<union> r_id ` set (position_rows (w_ledger w))
     \<and> (\<exists>m. w_db w' = (w_db w)\<lparr>db_market := m\<rparr>))"

lemma keeps_world_refl: "store_ok (w_ledger w) \<Longrightarrow> keeps_world {} w w"
proof -
  have "w_db w = (w_db w)\<lparr>db_market := db_market (w_db w)\<rparr>" by simp
  then show "store_ok (w_ledger w) \<Longrightarrow> keeps_world {} w w" unfolding keeps_world_def by blast
qed

lemma keeps_world_trans: "keeps_world A x y \<Longrightarrow> keeps_world B y z \<Longrightarrow> keeps_world (A \<union> B) x z"
  unfolding keeps_world_def by (elim conjE exE, intro conjI) (assumption, simp, blast, auto)

lemma keeps_worldI:
  assumes "keeps_ledger H A (restored_broker cfg w) lb" "w_db w' = (w_db w)\<lparr>db_market := m\<rparr>" "w_ledger w' = lb_store lb"
  shows "keeps_world A w w'"
proof -
  have "store_ok (lb_store lb)" using assms(1) ledger_reachable_ok by (auto simp: keeps_ledger_def ledger_ok_def)
  then show ?thesis using assms unfolding keeps_world_def keeps_ledger_def restored_broker_facts(2,3) by auto
qed

lemma keeps_process_unit:
  assumes "store_ok (w_ledger w)" "inj (\<lambda>t. fst (ids t))"
    "\<forall>t. fst (ids t) \<notin> r_id ` set (position_rows (w_ledger w))"
    "worker_process_unit H cfg inst ids now s tf w = (sm, n, w')"
  shows "keeps_world (range (\<lambda>t. fst (ids t))) w w'"
proof -
  let ?lb = "restored_broker cfg w"
  let ?cs = "unit_candidates s tf (lb_store ?lb)"
  obtain ins m where i: "get_or_create_instrument inst s (db_market (w_db w)) = (ins, m)" by fastforce
  have wide: "keeps_world {} w w'' \<Longrightarrow> keeps_world (range (\<lambda>t. fst (ids t))) w w''" for w''
    unfolding keeps_world_def by blast
  show ?thesis
  proof (cases "last_closed_ts (i_id ins) tf m")
    case None
    then have "w' = w" using assms(4) i by (simp add: worker_process_unit_def Let_def)
    then show ?thesis using wide keeps_world_refl [OF assms(1)] by simp
  next
    case (Some latest)
    define cur where "cur = lb_open_for ?lb s"
    define candles where "candles = unit_candles (i_id ins) tf latest ?cs cur m"
    define doomed where "doomed = missing_bar_candidates ?cs (map fst candles) latest"
    obtain c lb1 where ca: "cancel_all doomed (0, ?lb) = (c, lb1)" by fastforce
    have r: "ledger_reachable H ?lb" by (rule restored_broker_facts(1) [OF assms(1)])
    have in_orders: "\<forall>c\<in>set ?cs. o_id (c_order c) \<in> o_id ` set (orders (lb_store ?lb))" by (rule unit_candidates_orders)
    then have "\<forall>c\<in>set doomed. o_id (c_order c) \<in> o_id ` set (orders (lb_store ?lb))"
      unfolding doomed_def using missing_subset [of ?cs] by blast
    from keeps_cancel_all [OF r this, of 0] have k1: "keeps_ledger H {} ?lb lb1" using ca by simp
    show ?thesis
    proof (cases "outstanding_stamps ?cs candles cur = []")
      case True
      then have "w' = (if doomed = [] then w else (w\<lparr>w_db := (w_db w)\<lparr>db_market := m\<rparr>\<rparr>)\<lparr>w_ledger := lb_store lb1\<rparr>)"
        using assms(4) Some ca i by (simp add: worker_process_unit_def Let_def cur_def candles_def doomed_def)
      moreover have "keeps_world {} w ((w\<lparr>w_db := (w_db w)\<lparr>db_market := m\<rparr>\<rparr>)\<lparr>w_ledger := lb_store lb1\<rparr>)"
        by (rule keeps_worldI [OF k1, of _ m]) simp_all
      ultimately show ?thesis using wide keeps_world_refl [OF assms(1)] by (cases "doomed = []") simp_all
    next
      case False
      obtain window depth where win: "catchup_window (outstanding_stamps ?cs candles cur) (os_max_bars cfg) = (window, depth)" by fastforce
      define bars where "bars = List.map_filter (map_of candles) window"
      define sm0 where "sm0 = \<lparr>us_symbol = s, us_timeframe = tf, us_bars_processed = 0, us_fills = 0, us_exits = 0,
            us_superseded = 0, us_snapshots = 0, us_depth_remaining = depth\<rparr>"
      obtain sm2 lb2 where rb: "run_bars H (os_snapshot_interval cfg) ids now s tf ?cs bars (sm0, lb1) = (sm2, lb2)" by fastforce
      have w': "w' = (w\<lparr>w_db := (w_db w)\<lparr>db_market := m\<rparr>\<rparr>)\<lparr>w_ledger := lb_store lb2\<rparr>"
        using assms(4) Some ca i False win rb
        by (simp add: worker_process_unit_def Let_def cur_def candles_def doomed_def bars_def sm0_def)
      have "distinct window" using win by (auto simp: catchup_window_def Let_def)
      then have d: "distinct (map b_ts bars)" unfolding bars_def candles_def
        by (rule conjunct1 [OF distinct_window_bars]) (rule unit_candles_bar)
      have fresh: "\<forall>b\<in>set bars. fst (ids (b_ts b)) \<notin> r_id ` set (position_rows (lb_store lb1))"
        using k1 assms(3) unfolding keeps_ledger_def restored_broker_facts(3) by (meson Un_iff empty_iff subsetD)
      have "keeps_ledger H ((\<lambda>t. fst (ids t)) ` b_ts ` set bars) lb1 (snd (run_bars H (os_snapshot_interval cfg) ids now s tf ?cs bars (sm0, lb1)))"
      proof (rule keeps_run_bars [OF _ _ d _ fresh])
        show "ledger_reachable H lb1" using k1 by (simp add: keeps_ledger_def)
        show "\<forall>c\<in>set ?cs. o_id (c_order c) \<in> o_id ` set (orders (lb_store lb1))"
          using in_orders keeps_ledger_ids [OF k1] by simp
        show "inj_on (\<lambda>t. fst (ids t)) (b_ts ` set bars)" using assms(2) by (rule inj_on_subset) simp
      qed
      then have "keeps_ledger H (range (\<lambda>t. fst (ids t))) lb1 lb2" unfolding rb snd_conv keeps_ledger_def by blast
      from keeps_ledger_trans [OF k1 this] have k2: "keeps_ledger H (range (\<lambda>t. fst (ids t))) ?lb lb2" by simp
      show ?thesis unfolding w' by (rule keeps_worldI [OF k2, of _ m]) simp_all
    qed
  qed
qed

lemma keeps_world_D:
  "keeps_world A w w' \<Longrightarrow> store_ok (w_ledger w')"
  "keeps_world A w w' \<Longrightarrow> r_id ` set (position_rows (w_ledger w')) \<subseteq> A \<union> r_id ` set (position_rows (w_ledger w))"
  by (simp_all add: keeps_world_def)

text \<open>Fresh ids of a cycle: no two bars share a row id and none is in use.\<close>

definition cycle_fresh :: "cycle_env \<Rightarrow> world \<Rightarrow> bool" where
  "cycle_fresh env w = ((\<forall>u t u' t'. fst (ce_bar_ids env u t) = fst (ce_bar_ids env u' t') \<longrightarrow> u = u' \<and> t = t')
     \<and> (\<forall>u t. fst (ce_bar_ids env u t) \<notin> r_id ` set (position_rows (w_ledger w))))"

lemma keeps_process_units:
  assumes "store_ok (w_ledger w)" "distinct us"
    "\<forall>u t u' t'. fst (ce_bar_ids env u t) = fst (ce_bar_ids env u' t') \<longrightarrow> u = u' \<and> t = t'"
    "\<forall>u\<in>set us. \<forall>t. fst (ce_bar_ids env u t) \<notin> r_id ` set (position_rows (w_ledger w))"
    "process_units H cfg env us (r, w) = (r', w')"
  shows "keeps_world (\<Union>u\<in>set us. range (\<lambda>t. fst (ce_bar_ids env u t))) w w'"
  using assms
proof (induction us arbitrary: r w)
  case Nil
  then show ?case using keeps_world_refl by simp
next
  case (Cons u us)
  obtain sm n w1 where p: "worker_process_unit H cfg (ce_inst_id env u) (ce_bar_ids env u) (ce_now env) (fst u) (snd u) w = (sm, n, w1)"
    by (metis prod_cases3)
  have inj: "inj (\<lambda>t. fst (ce_bar_ids env u t))" by (rule injI) (use Cons.prems(3) in blast)
  have old: "\<forall>t. fst (ce_bar_ids env u t) \<notin> r_id ` set (position_rows (w_ledger w))" using Cons.prems(4) by (meson list.set_intros(1))
  have k: "keeps_world (range (\<lambda>t. fst (ce_bar_ids env u t))) w w1"
    by (rule keeps_process_unit [OF Cons.prems(1) inj old p])
  have "keeps_world (\<Union>u\<in>set us. range (\<lambda>t. fst (ce_bar_ids env u t))) w1 w'"
  proof (rule Cons.IH [OF keeps_world_D(1) [OF k] _ Cons.prems(3)])
    show "distinct us" using Cons.prems(2) by simp
    show "\<forall>v\<in>set us. \<forall>t. fst (ce_bar_ids env v t) \<notin> r_id ` set (position_rows (w_ledger w1))"
    proof (intro ballI allI notI)
      fix v t assume v: "v \<in> set us" and "fst (ce_bar_ids env v t) \<in> r_id ` set (position_rows (w_ledger w1))"
      then consider "fst (ce_bar_ids env v t) \<in> range (\<lambda>t. fst (ce_bar_ids env u t))"
        | "fst (ce_bar_ids env v t) \<in> r_id ` set (position_rows (w_ledger w))"
        using keeps_world_D(2) [OF k] by (meson Un_iff subsetD)
      then show False
      proof cases
        case 1
        then obtain t' where "fst (ce_bar_ids env v t) = fst (ce_bar_ids env u t')" by (elim rangeE)
        then have "v = u" using Cons.prems(3) by blast
        then show False using v Cons.prems(2) by simp
      next
        case 2
        then show False using Cons.prems(4) v by (meson list.set_intros(2))
      qed
    qed
    show "process_units H cfg env us (add_unit sm n r, w1) = (r', w')" using Cons.prems(5) p by simp
  qed
  from keeps_world_trans [OF k this] show ?case by (simp only: list.set UN_insert)
qed

lemma keeps_cancel_orders:
  assumes "ledger_reachable H lb" "\<forall>x\<in>set os. o_id x \<in> o_id ` set (orders (lb_store lb))"
  shows "keeps_ledger H {} lb (cancel_orders os lb)"
  using assms
proof (induction os arbitrary: lb)
  case (Cons x os)
  have k: "keeps_ledger H {} lb (snd (cancel_pending x lb))" using keeps_cancel [OF Cons.prems(1), of x] Cons.prems(2) by simp
  have "keeps_ledger H {} (snd (cancel_pending x lb)) (cancel_orders os (snd (cancel_pending x lb)))"
    using Cons.IH [of "snd (cancel_pending x lb)"] k Cons.prems(2) keeps_ledger_ids [OF k] by (simp add: keeps_ledger_def)
  from keeps_ledger_trans [OF k this] show ?case by simp
qed (simp add: keeps_ledger_refl)

lemma keeps_cancel_expired:
  assumes "store_ok (w_ledger w)" "cancel_expired_pending cfg now w = (n, w')"
  shows "keeps_world {} w w'"
proof (cases "os_broker cfg")
  case True
  let ?lb = "restored_broker cfg w"
  let ?x = "list_pending_expired now (lb_store ?lb)"
  have "\<forall>x\<in>set ?x. o_id x \<in> o_id ` set (orders (lb_store ?lb))"
    by (auto simp: list_pending_expired_def Let_def)
  from keeps_cancel_orders [OF restored_broker_facts(1) [OF assms(1)] this]
  have k: "keeps_ledger undefined {} ?lb (cancel_orders ?x ?lb)" .
  have "w' = w\<lparr>w_ledger := lb_store (cancel_orders ?x ?lb)\<rparr>"
    using True assms(2) by (simp add: cancel_expired_pending_def Let_def)
  then show ?thesis by (intro keeps_worldI [OF k, of _ "db_market (w_db w)"]) simp_all
next
  case False
  then show ?thesis using assms keeps_world_refl by (simp add: cancel_expired_pending_def)
qed

lemma reconcile_restored: "store_ok (w_ledger w) \<Longrightarrow> reconcile (restored_broker cfg w)"
  using restored_broker_facts(1) [of w "\<lambda>_. 0"] by (intro ledger_ok_reconcile ledger_reachable_ok)

lemma keeps_process_lifecycle:
  assumes "store_ok (w_ledger w)" "cycle_fresh env w" "process_lifecycle H cfg env w = (r, w')"
  shows "\<exists>A. keeps_world A w w'" "\<forall>x. r = Some x \<longrightarrow> lr_reconcile_ok x"
proof -
  have "(\<exists>A. keeps_world A w w') \<and> (\<forall>x. r = Some x \<longrightarrow> lr_reconcile_ok x)"
  proof (cases "os_broker cfg")
    case True
    let ?lb = "restored_broker cfg w"
    obtain r1 w1 where u: "process_units H cfg env (active_units (lb_store ?lb)) (empty_lifecycle, w) = (r1, w1)" by fastforce
    obtain n w2 where e: "cancel_expired_pending cfg (ce_now env) w1 = (n, w2)" by fastforce
    have rw: "r = Some (r1\<lparr>lr_expired := n\<rparr>)" "w' = w2"
      using assms(3) True u e reconcile_restored [OF assms(1)] by (simp_all add: process_lifecycle_def Let_def)
    have k1: "keeps_world (\<Union>u\<in>set (active_units (lb_store ?lb)). range (\<lambda>t. fst (ce_bar_ids env u t))) w w1"
    proof (rule keeps_process_units [OF assms(1) _ _ _ u])
      show "distinct (active_units (lb_store ?lb))" by (simp add: active_units_def)
      show "\<forall>u t u' t'. fst (ce_bar_ids env u t) = fst (ce_bar_ids env u' t') \<longrightarrow> u = u' \<and> t = t'"
        using assms(2) unfolding cycle_fresh_def by (elim conjE)
      show "\<forall>u\<in>set (active_units (lb_store ?lb)). \<forall>t. fst (ce_bar_ids env u t) \<notin> r_id ` set (position_rows (w_ledger w))"
        using assms(2) unfolding cycle_fresh_def by meson
    qed
    have k2: "keeps_world {} w1 w2" by (rule keeps_cancel_expired [OF keeps_world_D(1) [OF k1] e])
    have ok: "lr_reconcile_ok (fst (process_units H cfg env us (x, v))) = lr_reconcile_ok x" for us x v
      by (induction us arbitrary: x v) (simp_all add: add_unit_def split: prod.splits)
    have "lr_reconcile_ok r1" using ok [of "active_units (lb_store ?lb)" empty_lifecycle w] u by (simp add: empty_lifecycle_def)
    then show ?thesis using rw keeps_world_trans [OF k1 k2] by auto
  next
    case False
    then show ?thesis using assms keeps_world_refl [OF assms(1)] by (auto simp: process_lifecycle_def)
  qed
  then show "\<exists>A. keeps_world A w w'" "\<forall>x. r = Some x \<longrightarrow> lr_reconcile_ok x" by blast+
qed

section \<open>A paper decision and its order\<close>

lemma compute_paper_sizing:
  assumes "compute_decision inp orch risk = Inr out" "oc_status out = Some PAPER"
  shows "\<exists>z. oc_risk out = Some (risk_of inp (oc_fused out) risk) \<and> ro_sizing (risk_of inp (oc_fused out) risk) = Some z
    \<and> ro_passed (risk_of inp (oc_fused out) risk) \<and> fr_direction (oc_fused out) \<noteq> FLAT"
proof (cases "fused_input inp orch")
  case (Inl e)
  then show ?thesis using assms by (simp add: compute_decision_eq)
next
  case (Inr f)
  then show ?thesis using assms
    by (auto simp: compute_decision_eq skip_outcome_def Let_def assess_passed_iff assess_sizing actionable_def split: if_splits)
qed

lemma find_append_new: "(\<forall>y\<in>set ys. \<not> P y) \<Longrightarrow> P x \<Longrightarrow> find P (ys @ [x]) = Some x"
  by (induction ys) simp_all

text \<open>The rows of a fresh PAPER decision, and that they are the ones read back.\<close>

lemma paper_rows:
  assumes "decide env symbol tf configured orch risk gate live db = Inr (r, db')"
    "rz_status r = Some PAPER" "rz_created r" "upper symbol = symbol"
    "evaluation_key ` set (db_evaluations db) \<subseteq> decision_key ` set (db_decisions db)"
  shows "\<exists>d e u x. db_decisions db' = db_decisions db @ [d] \<and> db_evaluations db' = db_evaluations db @ [e]
    \<and> dr_id d = en_ids env 1 \<and> dr_status d = PAPER \<and> dr_fused_direction d \<noteq> FLAT
    \<and> decision_key d = (symbol, tf, rz_bucket_ts r) \<and> decision_key d \<notin> decision_key ` set (db_decisions db)
    \<and> evaluation_key e = decision_key d \<and> re_decision_id e = Some (dr_id d) \<and> re_passed e
    \<and> re_position_size_units e = Some u \<and> re_price e = Some x
    \<and> rz_symbol r = symbol \<and> rz_timeframe r = tf \<and> rz_direction r = Some (dr_fused_direction d)
    \<and> load_decision_payload r db' = (Some d, Some e)"
proof -
  obtain inp versions m out where c: "gather_inputs env symbol tf configured risk gate db = Inr (Inr (inp, versions, m))"
    "compute_decision inp orch risk = Inr out"
    "persist_outcome env inp versions live (di_gate inp)
        (apply_cooldown (en_now env) symbol tf orch (db_decisions db) out) (db\<lparr>db_market := m\<rparr>) = (r, db')"
    using decide_cases [OF assms(1)] assms(2) by auto
  have "oc_status (apply_cooldown (en_now env) symbol tf orch (db_decisions db) out) = Some PAPER"
    using persist_outcome_effect [OF c(3)] assms(2) by (auto split: option.splits)
  from apply_cooldown_frame(4) [OF this] have cd: "apply_cooldown (en_now env) symbol tf orch (db_decisions db) out = out"
    and st: "oc_status out = Some PAPER" using \<open>oc_status (apply_cooldown _ _ _ _ _ _) = _\<close> by simp_all
  note p = c(3) [unfolded cd]
  obtain z where z: "oc_risk out = Some (risk_of inp (oc_fused out) risk)" "ro_sizing (risk_of inp (oc_fused out) risk) = Some z"
    "ro_passed (risk_of inp (oc_fused out) risk)" "fr_direction (oc_fused out) \<noteq> FLAT"
    using compute_paper_sizing [OF c(2) st] by blast
  have i: "di_symbol inp = symbol" "di_timeframe inp = tf" using gather_inputs_fields [OF c(1)] by simp_all
  note eff = persist_outcome_effect [OF p]
  obtain d where d: "db_decisions db' = db_decisions db @ [d]" "decision_key d = key_of inp" "dr_id d = en_ids env 1"
    "Some (dr_status d) = rz_status r" "dr_fused_direction d = fr_direction (oc_fused out)"
    using eff assms(3) by auto
  have new: "decision_key d \<notin> decision_key ` set (db_decisions db)" using eff assms(3) d(2) by simp
  then have newe: "decision_key d \<notin> evaluation_key ` set (db_evaluations db)" using assms(5) by (meson subsetD)
  have k: "decision_key d = (symbol, tf, rz_bucket_ts r)" "rz_symbol r = symbol" "rz_timeframe r = tf"
    "rz_direction r = Some (dr_fused_direction d)" "di_bucket_ts inp = rz_bucket_ts r"
    using d(2,5) eff i assms(4) by simp_all
  have fd: "find (\<lambda>y. dr_symbol y = symbol \<and> dr_timeframe y = tf \<and> dr_bucket_ts y = rz_bucket_ts r) (db_decisions db') = Some d"
    unfolding d(1) using new k(1) by (intro find_append_new) (auto simp: decision_key_def image_iff)
  define e where "e = evaluation_values (en_ids env 2) (en_server_now env)
        (latest_decision_id (di_symbol inp) (di_timeframe inp) (di_bucket_ts inp) (db_decisions db'))
        (di_symbol inp) (di_timeframe inp) (di_bucket_ts inp) (risk_of inp (oc_fused out) risk)"
  have e: "db_evaluations db' = db_evaluations db @ [e]"
    using persist_outcome_evaluation [OF p z(1)] newe d(2) assms(3) by (simp add: e_def)
  have ek: "evaluation_key e = decision_key d" "re_decision_id e = Some (dr_id d)" "re_passed e"
    "re_position_size_units e = Some (quantize 6 (to_dec (position_size_units z)))"
    "re_price e = Some (quantize 8 (to_dec (sz_price z)))"
    using k i assms(4) z fd
    by (simp_all add: e_def evaluation_values_def evaluation_key_def latest_decision_id_def Let_def)
  have fe: "find (\<lambda>y. re_symbol y = symbol \<and> re_timeframe y = tf \<and> re_bucket_ts y = rz_bucket_ts r) (db_evaluations db') = Some e"
    unfolding e using newe ek(1) k(1) by (intro find_append_new) (auto simp: evaluation_key_def image_iff)
  have "load_decision_payload r db' = (Some d, Some e)" using fd fe k by (simp add: load_decision_payload_def)
  then show ?thesis using d e ek k new z(4) assms(2) by auto
qed

text \<open>The size of the evaluation is the size computed from the inputs of the decision.\<close>

lemma paper_size:
  assumes "decide env symbol tf configured orch risk gate live db = Inr (r, db')"
    "rz_status r = Some PAPER" "rz_created r" "upper symbol = symbol"
    "evaluation_key ` set (db_evaluations db) \<subseteq> decision_key ` set (db_decisions db)"
    "db_evaluations db' = db_evaluations db @ [e]"
  shows "\<exists>inp versions m out z. gather_inputs env symbol tf configured risk gate db = Inr (Inr (inp, versions, m))
    \<and> compute_decision inp orch risk = Inr out \<and> ro_sizing (risk_of inp (oc_fused out) risk) = Some z
    \<and> re_position_size_units e = Some (quantize 6 (to_dec (position_size_units z)))"
proof -
  obtain inp versions m out where c: "gather_inputs env symbol tf configured risk gate db = Inr (Inr (inp, versions, m))"
    "compute_decision inp orch risk = Inr out"
    "persist_outcome env inp versions live (di_gate inp)
        (apply_cooldown (en_now env) symbol tf orch (db_decisions db) out) (db\<lparr>db_market := m\<rparr>) = (r, db')"
    using decide_cases [OF assms(1)] assms(2) by auto
  have "oc_status (apply_cooldown (en_now env) symbol tf orch (db_decisions db) out) = Some PAPER"
    using persist_outcome_effect [OF c(3)] assms(2) by (auto split: option.splits)
  from apply_cooldown_frame(4) [OF this] have cd: "apply_cooldown (en_now env) symbol tf orch (db_decisions db) out = out"
    and st: "oc_status out = Some PAPER" using \<open>oc_status (apply_cooldown _ _ _ _ _ _) = _\<close> by simp_all
  note p = c(3) [unfolded cd]
  obtain z where z: "oc_risk out = Some (risk_of inp (oc_fused out) risk)" "ro_sizing (risk_of inp (oc_fused out) risk) = Some z"
    using compute_paper_sizing [OF c(2) st] by blast
  have "db_evaluations db' \<noteq> db_evaluations db" unfolding assms(6) by simp
  then have "e = evaluation_values (en_ids env 2) (en_server_now env)
        (latest_decision_id (di_symbol inp) (di_timeframe inp) (di_bucket_ts inp) (db_decisions db'))
        (di_symbol inp) (di_timeframe inp) (di_bucket_ts inp) (risk_of inp (oc_fused out) risk)"
    using persist_outcome_evaluation [OF p z(1)] assms(3,6) by (auto split: if_splits)
  then have "re_position_size_units e = Some (quantize 6 (to_dec (position_size_units z)))"
    using z(2) by (simp add: evaluation_values_def Let_def)
  with c(1,2) z(2) show ?thesis by blast
qed

text \<open>The order a PAPER decision sponsors: its direction, and the sizes and levels of its risk
  evaluation, at the precision of their columns.\<close>

definition paper_order :: "orch_env \<Rightarrow> decision_row \<Rightarrow> risk_evaluation_row \<Rightarrow> rat \<Rightarrow> rat \<Rightarrow> order_row" where
  "paper_order env d e u x =
     \<lparr>o_id = oe_order_id env, o_created_at = Some (oe_order_created env), o_decision_id = Some (dr_id d),
      o_symbol = dr_symbol d, o_timeframe = dr_timeframe d, o_side = dr_fused_direction d, o_order_type = NEXT_OPEN,
      o_status = PENDING, o_units = to_dec (fl u), o_requested_price = Some (to_dec (fl x)), o_filled_price = None,
      o_costs = 0, o_stop_loss = map_option (\<lambda>v. to_dec (fl v)) (re_stop_loss e),
      o_take_profit = map_option (\<lambda>v. to_dec (fl v)) (re_take_profit e), o_seed = 0, o_filled_at = None\<rparr>"

definition sponsors :: "decision_row \<Rightarrow> order_row \<Rightarrow> bool" where
  "sponsors d ord = (o_decision_id ord = Some (dr_id d) \<and> dr_status d = PAPER \<and> dr_symbol d = o_symbol ord
     \<and> dr_timeframe d = o_timeframe ord \<and> dr_fused_direction d = o_side ord)"

definition world_ok :: "world \<Rightarrow> bool" where
  "world_ok w = (store_ok (w_ledger w)
     \<and> distinct (map decision_key (db_decisions (w_db w))) \<and> distinct (map dr_id (db_decisions (w_db w)))
     \<and> evaluation_key ` set (db_evaluations (w_db w)) \<subseteq> decision_key ` set (db_decisions (w_db w))
     \<and> (\<forall>ord\<in>set (orders (w_ledger w)). \<exists>d\<in>set (db_decisions (w_db w)). sponsors d ord))"

lemma world_okD:
  "world_ok w \<Longrightarrow> store_ok (w_ledger w)"
  "world_ok w \<Longrightarrow> distinct (map decision_key (db_decisions (w_db w)))"
  "world_ok w \<Longrightarrow> distinct (map dr_id (db_decisions (w_db w)))"
  "world_ok w \<Longrightarrow> evaluation_key ` set (db_evaluations (w_db w)) \<subseteq> decision_key ` set (db_decisions (w_db w))"
  "world_ok w \<Longrightarrow> ord \<in> set (orders (w_ledger w)) \<Longrightarrow> \<exists>d\<in>set (db_decisions (w_db w)). sponsors d ord"
  unfolding world_ok_def by blast+

lemma restored_fields:
  "lb_store (restored_broker cfg w) = reload (ledger_of w)" "lb_seed (restored_broker cfg w) = 0"
  "o_decision_id ` set (lb_pending (restored_broker cfg w)) \<subseteq> o_decision_id ` set (orders (w_ledger w))"
proof -
  show st: "lb_store (restored_broker cfg w) = reload (ledger_of w)" by (simp add: restored_broker_def init_ledger_def)
  show "lb_seed (restored_broker cfg w) = 0" by (simp add: restored_broker_def init_ledger_def restore_state_def Let_def)
  have "set (lb_pending (restored_broker cfg w)) \<subseteq> set (orders (reload (ledger_of w)))"
    by (auto simp: restored_broker_def init_ledger_def restore_state_def Let_def list_pending_orders_def map_filter_def)
  then have "o_decision_id ` set (lb_pending (restored_broker cfg w)) \<subseteq> o_decision_id ` set (orders (reload (ledger_of w)))"
    by (rule image_mono)
  also have "\<dots> = o_decision_id ` set (orders (w_ledger w))" by (simp add: reload_def ledger_of_def image_image)
  finally show "o_decision_id ` set (lb_pending (restored_broker cfg w)) \<subseteq> o_decision_id ` set (orders (w_ledger w))" .
qed

definition opens_order :: "orch_settings \<Rightarrow> world \<Rightarrow> decision_row \<Rightarrow> rat \<Rightarrow> bool" where
  "opens_order cfg w d u = (0 < fl u \<and> \<not> (\<exists>p. lb_open_for (restored_broker cfg w) (dr_symbol d) = Some p \<and> p_side p = dr_fused_direction d))"

text \<open>The guard on the symbol's position, read off the rows of the ledger.\<close>

lemma open_for_side:
  "distinct (map p_symbol ps) \<Longrightarrow>
    (\<exists>p. open_for ps s = Some p \<and> p_side p = d) \<longleftrightarrow> (\<exists>p\<in>set ps. p_symbol p = s \<and> p_side p = d)"
proof
  assume "distinct (map p_symbol ps)" "\<exists>p\<in>set ps. p_symbol p = s \<and> p_side p = d"
  then show "\<exists>p. open_for ps s = Some p \<and> p_side p = d" unfolding open_for_def using find_unique [of p_symbol ps] by blast
qed (use open_for_SomeD in blast)

lemma restored_side:
  assumes "store_ok (w_ledger w)" "upper s = s"
  shows "(\<exists>p. lb_open_for (restored_broker cfg w) s = Some p \<and> p_side p = d)
    \<longleftrightarrow> (\<exists>row\<in>set (list_open_positions (w_ledger w)). r_symbol row = s \<and> r_side row = d)"
proof -
  let ?lb = "restored_broker cfg w"
  have ok: "ledger_ok ?lb" by (rule ledger_reachable_ok [OF restored_broker_facts(1) [OF assms(1)]])
  have "set (list_open_positions (lb_store ?lb)) = reload_position ` set (list_open_positions (w_ledger w))"
    by (auto simp: restored_fields reload_def ledger_of_def list_open_positions_def reload_position_def)
  moreover have "positions (lb_paper ?lb) = map position_of_row (list_open_positions (lb_store ?lb))"
    using ok by (simp add: ledger_ok_def)
  ultimately have "set (positions (lb_paper ?lb)) = (\<lambda>row. position_of_row (reload_position row)) ` set (list_open_positions (w_ledger w))"
    by (simp add: image_image)
  moreover have "p_symbol (position_of_row (reload_position row)) = r_symbol row"
    "p_side (position_of_row (reload_position row)) = r_side row" for row
    by (simp_all add: position_of_row_def reload_position_def)
  ultimately show ?thesis
    using open_for_side [OF ledger_ok_distinct [OF ok], of s d] assms(2) by (simp add: lb_open_for_def)
qed

lemma sponsor_fresh:
  assumes "world_ok w" "en_ids env 1 \<notin> dr_id ` set (db_decisions (w_db w))" "upper symbol = symbol" "os_broker cfg"
    "decide (engine_env.truncate env) symbol tf configured orch risk gate live (w_db w) = Inr (r, db')"
    "rz_status r = Some PAPER" "rz_created r"
  shows "\<exists>d e u x. db_decisions db' = db_decisions (w_db w) @ [d] \<and> db_evaluations db' = db_evaluations (w_db w) @ [e]
    \<and> dr_id d = en_ids env 1 \<and> dr_status d = PAPER \<and> decision_key d = (symbol, tf, rz_bucket_ts r)
    \<and> evaluation_key e = decision_key d \<and> re_passed e \<and> re_position_size_units e = Some u \<and> re_price e = Some x
    \<and> lb_store (snd (sponsor_paper_order cfg env r db' (restored_broker cfg w))) =
        (if opens_order cfg w d u then save_order (paper_order env d e u x) (reload (ledger_of w)) else reload (ledger_of w))
    \<and> (\<exists>ord. fst (sponsor_paper_order cfg env r db' (restored_broker cfg w)) = Inr ord)"
proof -
  let ?lb = "restored_broker cfg w"
  obtain d e u x where rows: "db_decisions db' = db_decisions (w_db w) @ [d]" "db_evaluations db' = db_evaluations (w_db w) @ [e]"
    "dr_id d = en_ids env 1" "dr_status d = PAPER" "dr_fused_direction d \<noteq> FLAT" "decision_key d = (symbol, tf, rz_bucket_ts r)"
    "evaluation_key e = decision_key d" "re_passed e" "re_position_size_units e = Some u" "re_price e = Some x"
    "rz_symbol r = symbol" "rz_timeframe r = tf" "rz_direction r = Some (dr_fused_direction d)"
    "load_decision_payload r db' = (Some d, Some e)"
    using paper_rows [OF assms(5-7,3) world_okD(4) [OF assms(1)]] by (auto simp: engine_env.truncate_def)
  have k: "dr_symbol d = symbol" "dr_timeframe d = tf" using rows(6) by (simp_all add: decision_key_def)
  have ns: "Some (dr_id d) \<notin> o_decision_id ` set (orders (w_ledger w))"
  proof
    assume "Some (dr_id d) \<in> o_decision_id ` set (orders (w_ledger w))"
    then obtain q where "q \<in> set (orders (w_ledger w))" "o_decision_id q = Some (dr_id d)" by (metis imageE)
    moreover obtain d0 where "d0 \<in> set (db_decisions (w_db w))" "sponsors d0 q" using world_okD(5) [OF assms(1)] calculation(1) by blast
    ultimately have "dr_id d \<in> dr_id ` set (db_decisions (w_db w))" by (simp add: sponsors_def rev_image_eqI)
    then show False using assms(2) rows(3) by simp
  qed
  then have np: "\<not> (\<exists>q\<in>set (lb_pending ?lb). o_decision_id q = Some (dr_id d))"
    using restored_fields(3) by (metis image_eqI subsetD)
  have "o_decision_id ` set (orders (lb_store ?lb)) = o_decision_id ` set (orders (w_ledger w))"
    by (simp add: restored_fields reload_def ledger_of_def image_image)
  with ns have nu: "\<not> (\<exists>q\<in>set (orders (lb_store ?lb)). o_decision_id q = Some (dr_id d))" by (metis image_eqI)
  have "lb_store (snd (sponsor_paper_order cfg env r db' ?lb)) =
        (if opens_order cfg w d u then save_order (paper_order env d e u x) (reload (ledger_of w)) else reload (ledger_of w))"
    using assms(3,4,6,7) rows k np nu [unfolded restored_fields(1)] restored_fields(1,2)
    by (auto simp: sponsor_paper_order_def wire_paper_decision_def submit_paper_order_def opens_order_def lb_open_for_def
        paper_order_def Let_def not_le map_option.compositionality comp_def split: option.splits)
  moreover have "\<exists>ord. fst (sponsor_paper_order cfg env r db' ?lb) = Inr ord"
    using rows(14) nu by (simp add: sponsor_paper_order_def wire_paper_decision_def submit_paper_order_def Let_def split: option.splits)
  ultimately show ?thesis using rows by blast
qed

text \<open>What a decision may do to the ledger.\<close>

lemma process_pair_Some:
  assumes "process_pair cfg env symbol timeframe w = Inr (res, w')"
  shows "(w' = w \<and> res = None) \<or> (\<exists>tf r db' risk gate live.
      upper symbol \<in> set (os_symbols cfg) \<and> tf \<in> set (os_timeframes cfg) \<and> res = Some r
      \<and> decide (engine_env.truncate env) (upper symbol) tf (os_timeframes cfg) (os_orch cfg) risk gate live (w_db w) = Inr (r, db')
      \<and> w_db w' = db'
      \<and> w_ledger w' = (if rz_action r = PERSIST \<and> os_broker cfg
          then lb_store (snd (sponsor_paper_order cfg env r db' (restored_broker cfg w))) else w_ledger w))"
proof (cases "parse_timeframe (upper timeframe)")
  case (Some tf)
  let ?d = "decide (engine_env.truncate env) (upper symbol) tf (os_timeframes cfg) (os_orch cfg)
      (load_risk_params (en_float env) (os_risk_base cfg) (db_risk_setting (w_db w)))
      (if os_broker cfg then Some (gv_gate (build_ledger_gate (restored_broker cfg w) (upper symbol) (oe_gate_now env))) else None)
      (if os_broker cfg then Some (live_of (build_ledger_gate (restored_broker cfg w) (upper symbol) (oe_gate_now env))) else None)
      (w_db w)"
  show ?thesis
  proof (cases "upper symbol \<notin> set (os_symbols cfg) \<or> tf \<notin> set (os_timeframes cfg)")
    case False
    note on = this
    show ?thesis
    proof (cases ?d)
      case (Inl e)
      then show ?thesis using assms Some on by (simp add: process_pair_def Let_def)
    next
      case (Inr x)
      obtain r db' where x: "?d = Inr (r, db')" using Inr by (cases x) simp
      then have "res = Some r" "w_db w' = db'" "w_ledger w' = (if rz_action r = PERSIST \<and> os_broker cfg
          then lb_store (snd (sponsor_paper_order cfg env r db' (restored_broker cfg w))) else w_ledger w)"
        using assms Some on by (auto simp: process_pair_def Let_def split: if_split_asm prod.splits sum.splits)
      then show ?thesis using x on by blast
    qed
  qed (use assms Some in \<open>auto simp: process_pair_def Let_def\<close>)
qed (use assms in \<open>simp add: process_pair_def Let_def\<close>)

section \<open>Reachable worlds\<close>

lemma not_sponsor_cases:
  "\<not> (rz_status r = Some PAPER \<and> rz_created r) \<Longrightarrow> sponsor_paper_order cfg env r db lb = (Inr None, lb)"
  by (auto simp: sponsor_paper_order_def)

lemma decide_evaluation_keys:
  assumes "decide env symbol tf configured orch risk gate live db = Inr (r, db')"
    "evaluation_key ` set (db_evaluations db) \<subseteq> decision_key ` set (db_decisions db)"
  shows "evaluation_key ` set (db_evaluations db') \<subseteq> decision_key ` set (db_decisions db')"
proof (cases "rz_action r")
  case SKIP
  then have "\<not> rz_created r" using decide_rows(2) [OF assms(1)] by auto
  then show ?thesis using decide_rows(3,7) [OF assms(1)] SKIP assms(2) by simp
next
  case PERSIST
  obtain inp versions m out where c: "compute_decision inp orch risk = Inr out" "oc_action out = PERSIST"
    "persist_outcome env inp versions live (di_gate inp)
        (apply_cooldown (en_now env) symbol tf orch (db_decisions db) out) (db\<lparr>db_market := m\<rparr>) = (r, db')"
    and k: "key_of inp = (upper symbol, tf, rz_bucket_ts r)"
    using decide_persisted [OF assms(1) PERSIST] by blast
  have "oc_risk (apply_cooldown (en_now env) symbol tf orch (db_decisions db) out) = Some (risk_of inp (oc_fused out) risk)"
    using compute_persist [OF c(1)] c(2) by (simp add: apply_cooldown_frame)
  from persist_outcome_evaluation [OF c(3) this] k
  have "evaluation_key ` set (db_evaluations db') \<subseteq> insert (upper symbol, tf, rz_bucket_ts r) (evaluation_key ` set (db_evaluations db))"
    by (auto simp: evaluation_key_def evaluation_values_def Let_def)
  moreover have "decision_key ` set (db_decisions db) \<subseteq> decision_key ` set (db_decisions db')"
    using decide_rows(3,5) [OF assms(1)] by (cases "rz_created r") auto
  ultimately show ?thesis using decide_rows(8) [OF assms(1) PERSIST] assms(2)
    by (meson insert_subset subset_trans)
qed

lemma sponsors_terms: "order_terms p = order_terms q \<Longrightarrow> sponsors d p = sponsors d q"
  by (simp add: sponsors_def order_terms_def)

lemma sponsored_mono:
  assumes "\<forall>ord\<in>set os. \<exists>d\<in>set ds. sponsors d ord" "map order_terms os' = map order_terms os"
  shows "\<forall>ord\<in>set os'. \<exists>d\<in>set ds. sponsors d ord"
proof
  fix q assume "q \<in> set os'"
  then have "order_terms q \<in> order_terms ` set os" using assms(2) by (metis image_eqI set_map)
  then obtain p where p: "p \<in> set os" "order_terms q = order_terms p" by (rule imageE)
  show "\<exists>d\<in>set ds. sponsors d q" using bspec [OF assms(1) p(1)] sponsors_terms [OF p(2)] by simp
qed

lemma world_ok_keeps:
  assumes "world_ok w" "keeps_world A w w'"
  shows "world_ok w'"
proof -
  have m: "\<exists>m. w_db w' = (w_db w)\<lparr>db_market := m\<rparr>" using assms(2) unfolding keeps_world_def by (elim conjE)
  have t: "map order_terms (orders (w_ledger w')) = map order_terms (orders (w_ledger w))"
    using assms(2) unfolding keeps_world_def by (elim conjE)
  from m have db: "db_decisions (w_db w') = db_decisions (w_db w)" "db_evaluations (w_db w') = db_evaluations (w_db w)" by auto
  have "\<forall>ord\<in>set (orders (w_ledger w)). \<exists>d\<in>set (db_decisions (w_db w)). sponsors d ord"
    using assms(1) unfolding world_ok_def by (elim conjE)
  from sponsored_mono [OF this t] show ?thesis
    unfolding world_ok_def db using world_okD(2-4) [OF assms(1)] keeps_world_D(1) [OF assms(2)] by (intro conjI)
qed

lemma sponsor_store_ok:
  assumes "store_ok st" "o_id ord \<notin> o_id ` set (orders st)" "o_decision_id ord \<notin> o_decision_id ` set (orders st)"
    "upper (o_symbol ord) = o_symbol ord" "o_side ord \<noteq> FLAT"
  shows "store_ok (save_order ord st)"
  using assms by (intro save_order_ok) (auto simp del: not_None_eq intro: rev_image_eqI)

lemma world_ok_pair:
  assumes "world_ok w" "en_ids env 1 \<notin> dr_id ` set (db_decisions (w_db w))"
    "oe_order_id env \<notin> o_id ` set (orders (w_ledger w))"
    "process_pair cfg env symbol timeframe w = Inr (res, w')"
  shows "world_ok w'"
proof (cases "w' = w")
  case False
  then obtain tf r db' risk gate live where p: "res = Some r"
    "decide (engine_env.truncate env) (upper symbol) tf (os_timeframes cfg) (os_orch cfg) risk gate live (w_db w) = Inr (r, db')"
    "w_db w' = db'" "w_ledger w' = (if rz_action r = PERSIST \<and> os_broker cfg
          then lb_store (snd (sponsor_paper_order cfg env r db' (restored_broker cfg w))) else w_ledger w)"
    using process_pair_Some [OF assms(4)] by blast
  have ok: "store_ok (reload (ledger_of w))" "store_ok (w_ledger w)"
    using world_okD(1) [OF assms(1)] by (simp_all add: store_ok_reload store_ok_ledger_of)
  have old: "\<forall>ord\<in>set (orders (w_ledger w)). \<exists>d\<in>set (db_decisions (w_db w)). sponsors d ord"
    using assms(1) unfolding world_ok_def by (elim conjE)
  have terms: "map order_terms (orders (reload (ledger_of w))) = map order_terms (orders (w_ledger w))"
    using restored_broker_facts(2) [of cfg w] by (simp add: restored_fields)
  have keys: "evaluation_key ` set (db_evaluations db') \<subseteq> decision_key ` set (db_decisions db')"
    by (rule decide_evaluation_keys [OF p(2) world_okD(4) [OF assms(1)]])
  have ids: "distinct (map decision_key (db_decisions db'))" "distinct (map dr_id (db_decisions db'))"
    "set (db_decisions (w_db w)) \<subseteq> set (db_decisions db')"
  proof -
    have "distinct (map decision_key (db_decisions db')) \<and> distinct (map dr_id (db_decisions db'))
      \<and> set (db_decisions (w_db w)) \<subseteq> set (db_decisions db')"
    proof (cases "rz_created r")
      case True
      obtain row where row: "db_decisions db' = db_decisions (w_db w) @ [row]" "decision_key row = (upper (upper symbol), tf, rz_bucket_ts r)"
        "dr_id row = en_ids env 1" using decide_rows(5) [OF p(2) True] by (auto simp: engine_env.truncate_def)
      have "decision_key row \<notin> decision_key ` set (db_decisions (w_db w))"
        using True decide_rows(2,4) [OF p(2)] row(2) by simp
      then show ?thesis using row assms(2) world_okD(2,3) [OF assms(1)] by (simp add: subset_insertI)
    qed (use decide_rows(3) [OF p(2)] world_okD(2,3) [OF assms(1)] in simp)
    then show "distinct (map decision_key (db_decisions db'))" "distinct (map dr_id (db_decisions db'))"
      "set (db_decisions (w_db w)) \<subseteq> set (db_decisions db')" by blast+
  qed
  have old': "\<forall>ord\<in>set (orders st). \<exists>d\<in>set (db_decisions db'). sponsors d ord"
    if "map order_terms (orders st) = map order_terms (orders (w_ledger w))" for st
    using sponsored_mono [OF old that] ids(3) by (meson subsetD)
  have "store_ok (w_ledger w') \<and> (\<forall>ord\<in>set (orders (w_ledger w')). \<exists>d\<in>set (db_decisions db'). sponsors d ord)"
  proof (cases "rz_status r = Some PAPER \<and> rz_created r \<and> os_broker cfg")
    case False
    then have "w_ledger w' = reload (ledger_of w) \<or> w_ledger w' = w_ledger w"
      using p(4) not_sponsor_cases [of r cfg env db' "restored_broker cfg w"] by (auto simp: restored_fields split: if_splits)
    then show ?thesis using ok old' [OF terms] old' [OF refl] by (elim disjE) simp_all
  next
    case True
    then have t: "rz_status r = Some PAPER" "rz_created r" "os_broker cfg" by simp_all
    obtain d e u x where s: "db_decisions db' = db_decisions (w_db w) @ [d]" "dr_id d = en_ids env 1" "dr_status d = PAPER"
      "decision_key d = (upper symbol, tf, rz_bucket_ts r)"
      "lb_store (snd (sponsor_paper_order cfg env r db' (restored_broker cfg w))) =
        (if opens_order cfg w d u then save_order (paper_order env d e u x) (reload (ledger_of w)) else reload (ledger_of w))"
      using sponsor_fresh [OF assms(1,2) _ t(3) p(2) t(1,2)] by auto
    have w': "w_ledger w' = (if opens_order cfg w d u then save_order (paper_order env d e u x) (reload (ledger_of w)) else reload (ledger_of w))"
      using p(4) s(5) t decide_rows(2) [OF p(2)] by simp
    show ?thesis
    proof (cases "opens_order cfg w d u")
      case False
      then show ?thesis using w' ok(1) old' [OF terms] by simp
    next
      case opens: True
      let ?o = "paper_order env d e u x"
      have f: "dr_fused_direction d \<noteq> FLAT" using decide_rows(5) [OF p(2) t(2)] s(1) by auto
      have "o_decision_id ?o \<notin> o_decision_id ` set (orders (w_ledger w))"
      proof
        assume "o_decision_id ?o \<in> o_decision_id ` set (orders (w_ledger w))"
        then obtain q where q: "q \<in> set (orders (w_ledger w))" "o_decision_id q = Some (dr_id d)" by (auto simp: paper_order_def)
        then obtain d0 where "d0 \<in> set (db_decisions (w_db w))" "sponsors d0 q" using old by blast
        then show False using q(2) s(2) assms(2) by (auto simp: sponsors_def)
      qed
      moreover have "o_decision_id ` set (orders (reload (ledger_of w))) = o_decision_id ` set (orders (w_ledger w))"
        "o_id ` set (orders (reload (ledger_of w))) = o_id ` set (orders (w_ledger w))"
        by (simp_all add: reload_def ledger_of_def image_image)
      ultimately have "store_ok (save_order ?o (reload (ledger_of w)))"
        using assms(3) s(4) f by (intro sponsor_store_ok [OF ok(1)]) (simp_all add: paper_order_def decision_key_def)
      moreover have "sponsors d ?o" using s(3) by (simp add: sponsors_def paper_order_def)
      ultimately show ?thesis using w' opens old' [OF terms] s(1) by auto
    qed
  qed
  then show ?thesis using ids keys p(3) by (simp add: world_ok_def)
qed (use assms in simp)

text \<open>
  Runs of the orchestrator. \<open>pair\<close> decides one triggered pair, \<open>cycle\<close> is one lifecycle cycle, and
  \<open>feed\<close> is anything the other processes write meanwhile: signals, candles, settings and risk
  counters. Fresh UUIDs are new. The lock of \<^theory_text>\<open>OrchestratorLock\<close> makes the steps sequential.
\<close>

inductive orch_step :: "hash \<Rightarrow> orch_settings \<Rightarrow> world \<Rightarrow> world \<Rightarrow> bool" for H cfg where
  pair: "process_pair cfg env symbol timeframe w = Inr (res, w')
    \<Longrightarrow> en_ids env 1 \<notin> dr_id ` set (db_decisions (w_db w)) \<Longrightarrow> oe_order_id env \<notin> o_id ` set (orders (w_ledger w))
    \<Longrightarrow> orch_step H cfg w w'"
| cycle: "process_lifecycle H cfg env w = (r, w') \<Longrightarrow> cycle_fresh env w \<Longrightarrow> orch_step H cfg w w'"
| feed: "orch_step H cfg w (w\<lparr>w_db := (w_db w)\<lparr>db_signals := sg, db_market := m, db_risk_setting := s, db_risk_state := rs\<rparr>\<rparr>)"

inductive orch_reachable :: "hash \<Rightarrow> orch_settings \<Rightarrow> world \<Rightarrow> bool" for H cfg where
  start: "db_decisions db = [] \<Longrightarrow> db_evaluations db = [] \<Longrightarrow> orch_reachable H cfg \<lparr>w_db = db, w_ledger = empty_store\<rparr>"
| step: "orch_reachable H cfg w \<Longrightarrow> orch_step H cfg w w' \<Longrightarrow> orch_reachable H cfg w'"

lemma world_ok_step: "orch_step H cfg w w' \<Longrightarrow> world_ok w \<Longrightarrow> world_ok w'"
proof (induction rule: orch_step.induct)
  case (pair env symbol timeframe w res w')
  then show ?case by (intro world_ok_pair [OF _ pair(2,3,1)])
next
  case (cycle env w r w')
  obtain A where "keeps_world A w w'"
    using keeps_process_lifecycle(1) [OF world_okD(1) [OF cycle(3)] cycle(2,1)] by (elim exE)
  then show ?case by (rule world_ok_keeps [OF cycle(3)])
next
  case (feed w sg m s rs)
  then show ?case by (simp add: world_ok_def)
qed

lemma world_ok_reachable: "orch_reachable H cfg w \<Longrightarrow> world_ok w"
proof (induction rule: orch_reachable.induct)
  case (start db)
  then show ?case
    by (simp add: world_ok_def store_ok_def empty_store_def list_open_positions_def map_filter_def)
qed (rule world_ok_step)

text \<open>
  C2. No order without a decision. In every world the orchestrator can reach, by any interleaving of
  decisions, lifecycle cycles and writes of the other processes, each order of the paper ledger was
  sponsored by a stored PAPER decision of the same symbol, timeframe and direction; a decision
  sponsors at most one order, order and position ids are unique, and at most one position per symbol
  is open. The lifecycle's fail-closed reconciliation, tried at any such moment, succeeds.
\<close>

theorem orders_sponsored:
  assumes "orch_reachable H cfg w"
  shows "(\<forall>ord\<in>set (orders (w_ledger w)). \<exists>d\<in>set (db_decisions (w_db w)). o_decision_id ord = Some (dr_id d)
       \<and> dr_status d = PAPER \<and> dr_symbol d = o_symbol ord \<and> dr_timeframe d = o_timeframe ord \<and> dr_fused_direction d = o_side ord)
    \<and> distinct (map o_decision_id (orders (w_ledger w))) \<and> distinct (map o_id (orders (w_ledger w)))
    \<and> distinct (map r_id (position_rows (w_ledger w))) \<and> distinct (map r_symbol (list_open_positions (w_ledger w)))
    \<and> reconcile (restored_broker cfg w)"
proof -
  have ok: "world_ok w" by (rule world_ok_reachable [OF assms])
  have some: "o_decision_id ord \<noteq> None" if "ord \<in> set (orders (w_ledger w))" for ord
    using world_okD(5) [OF ok that] by (auto simp: sponsors_def)
  have e: "List.map_filter id xs = map the xs" if "\<forall>x\<in>set xs. x \<noteq> None" for xs :: "uuid option list"
    using that by (induction xs) (auto simp: map_filter_simps)
  have all: "\<forall>x\<in>set (map o_decision_id (orders (w_ledger w))). x \<noteq> None" using some by (simp del: not_None_eq)
  have "distinct (List.map_filter id (map o_decision_id (orders (w_ledger w))))"
    using world_okD(1) [OF ok] unfolding store_ok_def by (elim conjE)
  then have "distinct (map the (map o_decision_id (orders (w_ledger w))))" unfolding e [OF all] .
  then have "distinct (map o_decision_id (orders (w_ledger w)))" by (simp add: distinct_map inj_on_def)
  moreover have "\<exists>d\<in>set (db_decisions (w_db w)). o_decision_id ord = Some (dr_id d)
       \<and> dr_status d = PAPER \<and> dr_symbol d = o_symbol ord \<and> dr_timeframe d = o_timeframe ord \<and> dr_fused_direction d = o_side ord"
    if "ord \<in> set (orders (w_ledger w))" for ord
    using world_okD(5) [OF ok that] unfolding sponsors_def .
  ultimately show ?thesis using world_okD(1) [OF ok] reconcile_restored [OF world_okD(1) [OF ok]]
    by (simp add: store_ok_def)
qed

section \<open>An example run\<close>

definition example_cfg :: orch_settings where
  "example_cfg = \<lparr>os_orch = shipped_orch, os_risk_base = default_risk_params, os_equity = fl 100000, os_broker = True,
     os_max_bars = 24, os_snapshot_interval = None, os_symbols = [''EURUSD''], os_timeframes = [H1]\<rparr>"

definition example_orch_env :: orch_env where
  "example_orch_env = engine_env.extend (example_env 0) \<lparr>oe_gate_now = 0, oe_order_id = 7, oe_order_created = 0\<rparr>"

definition example_world :: world where
  "example_world = \<lparr>w_db = example_db [(''atr14'', JFloat (fl (1 / 1000)))], w_ledger = empty_store\<rparr>"

lemma example_restored:
  "restored_broker example_cfg example_world = restore_state (init_ledger empty_store (fl 100000) 0 None)"
  by (simp add: restored_broker_def example_cfg_def example_world_def ledger_of_def reload_def empty_store_def example_db_def)

lemma example_gate: "gv_gate (build_ledger_gate (restored_broker example_cfg example_world) ''EURUSD'' t) = idle_gate"
proof -
  have z: "0 / fl 100000 = 0" "- fl 0 = 0" "fl 100000 \<noteq> 0" by code_simp+
  have n: "total_notional [] = 0" "basket_notional [] s = 0" "\<not> correlation_triggered [] s" for s
    by (simp_all add: total_notional_def basket_notional_def correlation_triggered_def Let_def py_sum_def)
  show ?thesis
    unfolding example_restored
    by (simp add: build_ledger_gate_def restore_state_def init_ledger_def init_broker_def empty_store_def Let_def list_open_positions_def
        restore_account_def latest_snapshot_def idle_gate_def load_open_position_rows_def position_set_def
        realized_pnl_since_def load_realized_pnl_since_def z n)
qed

lemma example_world_ok: "world_ok example_world"
  by (simp add: world_ok_def example_world_def example_db_def store_ok_def empty_store_def list_open_positions_def map_filter_def)

lemma example_opens: "opens_order cfg example_world d u = (0 < fl u)"
  by (simp add: opens_order_def restored_broker_def example_world_def ledger_of_def reload_def empty_store_def lb_open_for_def
      restore_state_def init_ledger_def Let_def list_open_positions_def open_for_def)

text \<open>The decision of the example, with the 30000 units of its evaluation.\<close>

lemma example_paper:
  fixes live
  defines "db \<equiv> w_db example_world"
  shows "\<exists>r db' e. decide (example_env 0) ''EURUSD'' H1 [H1] shipped_orch default_risk_params (Some idle_gate) (Some live) db = Inr (r, db')
    \<and> rz_action r = PERSIST \<and> rz_status r = Some PAPER \<and> rz_created r \<and> db_evaluations db' = [e]
    \<and> re_position_size_units e = Some (to_dec (fl 30000))"
proof -
  have u: "upper ''EURUSD'' = ''EURUSD''" by code_simp
  have e: "db = example_db [(''atr14'', JFloat (fl (1 / 1000)))]\<lparr>db_decisions := []\<rparr>"
    by (simp add: db_def example_world_def example_db_def)
  have n: "db_evaluations db = []" by (simp add: db_def example_world_def example_db_def)
  obtain r db' where d: "decide (example_env 0) ''EURUSD'' H1 [H1] shipped_orch default_risk_params (Some idle_gate) (Some live) db = Inr (r, db')"
    "rz_action r = PERSIST" "rz_status r = Some PAPER" "rz_created r"
    using example_decides [of 0 idle_gate, where f = "[(''atr14'', JFloat (fl (1 / 1000)))]" and ds = "[]" and live = "Some live"] e
    by (auto simp: json_get_def)
  have k: "evaluation_key ` set (db_evaluations db) \<subseteq> decision_key ` set (db_decisions db)" by (simp add: n)
  obtain v where v: "db_evaluations db' = [v]"
    using paper_rows [OF d(1,3,4) u k] n by auto
  obtain inp versions m out z where c: "gather_inputs (example_env 0) ''EURUSD'' H1 [H1] default_risk_params (Some idle_gate) db = Inr (Inr (inp, versions, m))"
    "compute_decision inp shipped_orch default_risk_params = Inr out" "ro_sizing (risk_of inp (oc_fused out) default_risk_params) = Some z"
    "re_position_size_units v = Some (quantize 6 (to_dec (position_size_units z)))"
    using paper_size [OF d(1,3,4) u k, of v] v n by auto
  have i: "one_vote_inputs inp" "di_atr inp = Some (fl (1 / 1000))"
    using example_gather [of 0 idle_gate, where f = "[(''atr14'', JFloat (fl (1 / 1000)))]" and ds = "[]"] c(1) e by (auto simp: json_get_def json_number_def)
  have "oc_fused out = long_fused"
    using c(2) fused_one_vote [OF i(1)] by (auto simp: compute_decision_eq skip_outcome_def Let_def split: if_splits)
  then have "z = compute_sizing 1 (fl (1 / 1000)) LONG default_risk_params"
    using c(3) i by (auto simp: assess_sizing one_vote_inputs_def long_fused_def split: if_splits)
  then have "re_position_size_units v = Some (quantize 6 (to_dec (fl 30000)))" using c(4) by (simp add: sizing_examples)
  moreover have "quantize 6 (to_dec (fl 30000)) = to_dec (fl 30000)" by code_simp
  ultimately show ?thesis using d v by auto
qed

lemma example_process:
  "\<exists>r w' e. process_pair example_cfg example_orch_env ''eurusd'' ''H1'' example_world = Inr (Some r, w')
    \<and> rz_status r = Some PAPER \<and> rz_created r \<and> db_evaluations (w_db w') = [e] \<and> re_position_size_units e = Some (to_dec (fl 30000))"
proof -
  have u: "upper ''eurusd'' = ''EURUSD''" "parse_timeframe (upper ''H1'') = Some H1" "upper ''EURUSD'' = ''EURUSD''" by code_simp+
  have t: "engine_env.truncate example_orch_env = example_env 0" "oe_gate_now example_orch_env = 0"
    by (simp_all add: example_orch_env_def engine_env.defs example_env_def)
  have c: "os_timeframes example_cfg = [H1]" "os_symbols example_cfg = [''EURUSD'']" "os_broker example_cfg"
    "os_orch example_cfg = shipped_orch" "os_risk_base example_cfg = default_risk_params"
    by (simp_all add: example_cfg_def)
  have e: "load_risk_params F b (db_risk_setting (w_db example_world)) = b" for F b
    by (simp add: example_world_def example_db_def load_risk_params_def)
  let ?live = "live_of (build_ledger_gate (restored_broker example_cfg example_world) ''EURUSD'' 0)"
  obtain r db' v where d: "decide (example_env 0) ''EURUSD'' H1 [H1] shipped_orch default_risk_params (Some idle_gate)
      (Some ?live) (w_db example_world) = Inr (r, db')" "rz_action r = PERSIST" "rz_status r = Some PAPER" "rz_created r"
    "db_evaluations db' = [v]" "re_position_size_units v = Some (to_dec (fl 30000))"
    using example_paper by blast
  have f: "en_ids example_orch_env 1 \<notin> dr_id ` set (db_decisions (w_db example_world))"
    by (simp add: example_world_def example_db_def)
  obtain ord where "fst (sponsor_paper_order example_cfg example_orch_env r db' (restored_broker example_cfg example_world)) = Inr ord"
    using sponsor_fresh [OF example_world_ok f u(3) c(3) d(1) [folded t(1)] d(3,4)] by blast
  then obtain lb' where s: "sponsor_paper_order example_cfg example_orch_env r db' (restored_broker example_cfg example_world) = (Inr ord, lb')"
    by (metis prod.collapse)
  show ?thesis
    by (intro exI [of _ r] exI [of _ "\<lparr>w_db = db', w_ledger = lb_store lb'\<rparr>"] exI [of _ v])
      (simp add: process_pair_def u(1,2) t c e example_gate Let_def d s)
qed

lemma example_reachable:
  "orch_reachable H cfg example_world"
  "process_pair cfg example_orch_env s t example_world = Inr (res, w') \<Longrightarrow> orch_reachable H cfg w'"
proof -
  show r: "orch_reachable H cfg example_world"
    unfolding example_world_def by (rule orch_reachable.start) (simp_all add: example_db_def)
  assume "process_pair cfg example_orch_env s t example_world = Inr (res, w')"
  then have "orch_step H cfg example_world w'"
    by (rule orch_step.pair) (simp_all add: example_world_def example_db_def empty_store_def)
  with r show "orch_reachable H cfg w'" by (rule orch_reachable.step)
qed

theorem orders_sponsored_witness:
  "\<exists>r w'. process_pair example_cfg example_orch_env ''eurusd'' ''H1'' example_world = Inr (Some r, w')
    \<and> rz_status r = Some PAPER \<and> distinct (map o_decision_id (orders (w_ledger w'))) \<and> reconcile (restored_broker example_cfg w')"
proof -
  obtain r w' where p: "process_pair example_cfg example_orch_env ''eurusd'' ''H1'' example_world = Inr (Some r, w')"
    "rz_status r = Some PAPER" using example_process by blast
  have "orch_reachable (\<lambda>_. 0) example_cfg w'" by (rule example_reachable(2) [OF p(1)])
  from orders_sponsored [OF this] p show ?thesis by blast
qed

section \<open>One pair, one order\<close>

text \<open>
  C4. What one triggered pair does to the paper ledger, exactly. When a broker is configured and the
  PAPER decision made now is persisted for the first time, one PENDING next-open order is added at
  the end of the ledger, with the decision's direction and the size, price and levels of the risk
  evaluation stored with it, if and only if that size is positive and no OPEN position of the symbol
  is on the decision's side. In every other case (no broker, skipped, not PAPER, a replay of a
  decided bar) no order is added. Orders already there, positions and snapshots are never touched.
  The witness is a run that adds an order of 30000 units.
\<close>

theorem pair_orders_exact:
  assumes "orch_reachable H cfg w" "en_ids env 1 \<notin> dr_id ` set (db_decisions (w_db w))"
    "process_pair cfg env symbol timeframe w = Inr (Some r, w')"
  shows "reload (w_ledger w')\<lparr>orders := [], decisions := []\<rparr> = reload (w_ledger w)\<lparr>orders := [], decisions := []\<rparr>
    \<and> (if os_broker cfg \<and> rz_created r \<and> rz_status r = Some PAPER
       then \<exists>d e u x. db_decisions (w_db w') = db_decisions (w_db w) @ [d] \<and> db_evaluations (w_db w') = db_evaluations (w_db w) @ [e]
              \<and> dr_status d = PAPER \<and> dr_symbol d = upper symbol \<and> evaluation_key e = decision_key d \<and> re_passed e
              \<and> re_position_size_units e = Some u \<and> re_price e = Some x
              \<and> orders (w_ledger w') = orders (reload (w_ledger w)) @
                  (if 0 < fl u \<and> \<not> (\<exists>row\<in>set (list_open_positions (w_ledger w)). r_symbol row = upper symbol \<and> r_side row = dr_fused_direction d)
                   then [paper_order env d e u x] else [])
       else orders (reload (w_ledger w')) = orders (reload (w_ledger w)))"
proof -
  have ok: "world_ok w" by (rule world_ok_reachable [OF assms(1)])
  obtain tf db' risk gate live where p:
    "decide (engine_env.truncate env) (upper symbol) tf (os_timeframes cfg) (os_orch cfg) risk gate live (w_db w) = Inr (r, db')"
    "w_db w' = db'" "w_ledger w' = (if rz_action r = PERSIST \<and> os_broker cfg
          then lb_store (snd (sponsor_paper_order cfg env r db' (restored_broker cfg w))) else w_ledger w)"
    using process_pair_Some [OF assms(3)] by blast
  have rr: "reload (reload st) = reload st" for st
    by (simp add: reload_def comp_def reload_order_def reload_position_def reload_snapshot_def option.map_comp)
  have st: "orders (reload (ledger_of w)) = orders (reload (w_ledger w))"
    "(reload (ledger_of w))\<lparr>orders := [], decisions := []\<rparr> = (reload (w_ledger w))\<lparr>orders := [], decisions := []\<rparr>"
    by (simp_all add: ledger_of_def reload_def)
  show ?thesis
  proof (cases "os_broker cfg \<and> rz_created r \<and> rz_status r = Some PAPER")
    case True
    then have t: "os_broker cfg" "rz_created r" "rz_status r = Some PAPER" by simp_all
    have up: "upper (upper symbol) = upper symbol" by simp
    obtain d e u x where s: "db_decisions db' = db_decisions (w_db w) @ [d]" "db_evaluations db' = db_evaluations (w_db w) @ [e]"
      "dr_status d = PAPER" "decision_key d = (upper symbol, tf, rz_bucket_ts r)" "evaluation_key e = decision_key d" "re_passed e"
      "re_position_size_units e = Some u" "re_price e = Some x"
      "lb_store (snd (sponsor_paper_order cfg env r db' (restored_broker cfg w))) =
        (if opens_order cfg w d u then save_order (paper_order env d e u x) (reload (ledger_of w)) else reload (ledger_of w))"
      using sponsor_fresh [OF ok assms(2) up t(1) p(1) t(3,2)] by blast
    have ds: "dr_symbol d = upper symbol" using s(4) by (simp add: decision_key_def)
    have w': "w_ledger w' = (if opens_order cfg w d u then save_order (paper_order env d e u x) (reload (ledger_of w)) else reload (ledger_of w))"
      using p(3) s(9) t decide_rows(2) [OF p(1)] by simp
    have o': "opens_order cfg w d u = (0 < fl u \<and> \<not> (\<exists>row\<in>set (list_open_positions (w_ledger w)). r_symbol row = upper symbol \<and> r_side row = dr_fused_direction d))"
      using restored_side [OF world_okD(1) [OF ok] up] by (simp add: opens_order_def ds)
    have "(reload (save_order q z))\<lparr>orders := [], decisions := []\<rparr> = (reload z)\<lparr>orders := [], decisions := []\<rparr>" for q z
      by (simp add: reload_def)
    then have "reload (w_ledger w')\<lparr>orders := [], decisions := []\<rparr> = reload (w_ledger w)\<lparr>orders := [], decisions := []\<rparr>"
      using st(2) rr by (simp add: w')
    moreover have "orders (w_ledger w') = orders (reload (w_ledger w)) @ (if opens_order cfg w d u then [paper_order env d e u x] else [])"
      using st(1) by (simp add: w')
    ultimately show ?thesis using True s(1-3,5-8) ds p(2) unfolding o' by auto
  next
    case False
    then have "w_ledger w' = reload (ledger_of w) \<or> w_ledger w' = w_ledger w"
      using p(3) not_sponsor_cases [of r cfg env db' "restored_broker cfg w"] by (auto simp: restored_fields split: if_splits)
    then show ?thesis using False st rr by auto
  qed
qed

theorem pair_orders_exact_witness:
  "\<exists>r w' d e x. process_pair example_cfg example_orch_env ''eurusd'' ''H1'' example_world = Inr (Some r, w')
    \<and> db_decisions (w_db w') = [d] \<and> db_evaluations (w_db w') = [e] \<and> dr_status d = PAPER
    \<and> orders (w_ledger w') = [paper_order example_orch_env d e (to_dec (fl 30000)) x]"
proof -
  obtain r w' v where p: "process_pair example_cfg example_orch_env ''eurusd'' ''H1'' example_world = Inr (Some r, w')"
    "rz_status r = Some PAPER" "rz_created r" "db_evaluations (w_db w') = [v]" "re_position_size_units v = Some (to_dec (fl 30000))"
    using example_process by blast
  have f: "en_ids example_orch_env 1 \<notin> dr_id ` set (db_decisions (w_db example_world))"
    by (simp add: example_world_def example_db_def)
  have e: "db_decisions (w_db example_world) = []" "db_evaluations (w_db example_world) = []"
    "orders (reload (w_ledger example_world)) = []" "list_open_positions (w_ledger example_world) = []" "os_broker example_cfg"
    by (simp_all add: example_world_def example_db_def empty_store_def reload_def example_cfg_def list_open_positions_def)
  have pos: "0 < fl (to_dec (fl 30000))" by code_simp
  from pair_orders_exact [OF example_reachable(1) [of "\<lambda>_. 0" example_cfg] f p(1)] p(2-5) e pos
  obtain d x where "db_decisions (w_db w') = [d]" "dr_status d = PAPER"
    "orders (w_ledger w') = [paper_order example_orch_env d v (to_dec (fl 30000)) x]"
    by auto
  with p(1,4) show ?thesis by blast
qed

end
