(* ===== verification/OrchestratorCatchup.thy ===== *)
theory OrchestratorCatchup
  imports OrchestratorRuns
begin

text \<open>
  Which bars the lifecycle cycle of the orchestrator looks at when a unit holds an open position and
  no order due before its entry: always the first \<^verbatim>\<open>paper_catchup_max_bars\<close> bars from the entry on, in every
  cycle again.
\<close>

section \<open>Bars that do not exit\<close>

definition exits_on :: "position \<Rightarrow> f64 \<Rightarrow> bool" where
  "exits_on p px = snd (snd (exit_price_for p px (p_stop_loss p) (p_take_profit p)))"

lemma quiet_evaluate_exit:
  "open_for (positions (lb_paper lb)) s = Some p \<Longrightarrow> \<not> exits_on p px \<Longrightarrow> lb_evaluate_exit H s px ts lb = (None, lb)"
  by (auto simp: lb_evaluate_exit_def lb_after_close_def evaluate_exit_def exits_on_def split: prod.splits)

abbreviation book_position :: "store \<Rightarrow> string \<Rightarrow> position option" where
  "book_position st s \<equiv> open_for (map position_of_row (list_open_positions st)) s"

lemma open_restored: "open_for (positions (lb_paper (restore_state lb))) s = book_position (lb_store lb) s"
  by (simp add: restore_state_def Let_def)

lemma quiet_bar:
  assumes "book_position (lb_store lb) (upper s) = Some p" "\<not> exits_on p (b_close b)"
    "candidates_for_bar cands (b_ts b) = []" "process_unit_bar H interval i j now s tf b cands lb = (r, lb')"
  shows "ub_exits r = 0 \<and> ub_filled r = 0 \<and> position_rows (lb_store lb') = position_rows (lb_store lb)
    \<and> orders (lb_store lb') = orders (lb_store lb)"
proof -
  have "lb_evaluate_exit H (upper s) (b_close b) (b_ts b) (restore_state lb) = (None, restore_state lb)"
    by (rule quiet_evaluate_exit [OF _ assms(2)]) (simp add: open_restored assms(1))
  then show ?thesis using assms(4)
    by (auto simp: process_unit_bar_def Let_def assms(3) arbitrate_fills_def lb_mark_position_def equity_snapshot_def
        split: prod.splits if_splits)
qed

lemma quiet_run:
  assumes "book_position (lb_store lb) (upper s) = Some p" "\<forall>b\<in>set bs. \<not> exits_on p (b_close b) \<and> candidates_for_bar cands (b_ts b) = []"
    "run_bars H interval ids now s tf cands bs (sm, lb) = (sm', lb')"
  shows "us_exits sm' = us_exits sm \<and> us_fills sm' = us_fills sm \<and> us_bars_processed sm' = us_bars_processed sm + length bs
    \<and> position_rows (lb_store lb') = position_rows (lb_store lb) \<and> orders (lb_store lb') = orders (lb_store lb)"
  using assms
proof (induction bs arbitrary: sm lb)
  case (Cons b bs)
  obtain r lb1 where p: "process_unit_bar H interval (fst (ids (b_ts b))) (snd (ids (b_ts b))) now s tf b cands lb = (r, lb1)" by fastforce
  have q: "ub_exits r = 0" "ub_filled r = 0" "position_rows (lb_store lb1) = position_rows (lb_store lb)"
    "orders (lb_store lb1) = orders (lb_store lb)"
    using quiet_bar [OF Cons.prems(1) _ _ p] Cons.prems(2) by simp_all
  have "book_position (lb_store lb1) (upper s) = Some p" using Cons.prems(1) q(3) by (simp add: list_open_positions_def)
  from Cons.IH [OF this, of "add_bar_result sm r"] Cons.prems(2,3) p q show ?case by (simp add: add_bar_result_def)
qed simp

section \<open>The window of an open position\<close>

text \<open>The bars from the entry of the position on.\<close>

definition position_candles :: "uuid \<Rightarrow> timeframe \<Rightarrow> datetime \<Rightarrow> position \<Rightarrow> market \<Rightarrow> (datetime \<times> bar) list" where
  "position_candles iid tf latest p m =
     map (\<lambda>k. (k_ts k, \<lparr>b_ts = k_ts k, b_open = fl (k_open k), b_close = fl (k_close k)\<rparr>))
       (load_candles iid tf (Some (p_entry_ts p)) (Some (latest + seconds_td 1)) 100000 m)"

lemma foldl_min_last:
  assumes "\<forall>x\<in>set (a # as). e \<le> x"
  shows "foldl min a (as @ [e]) = (e :: int)"
proof -
  have "foldl min a as \<in> set (a # as)" for as :: "int list" and a
    by (induction as arbitrary: a) (auto simp: min_def)
  from bspec [OF assms this [of a as]] show ?thesis by simp
qed

lemma late_candidates:
  assumes "\<forall>c\<in>set cands. p_entry_ts p \<le> c_fill_stamp c"
  shows "unit_candles iid tf latest cands (Some p) m = position_candles iid tf latest p m"
    "outstanding_stamps cands (position_candles iid tf latest p m) (Some p) = map fst (position_candles iid tf latest p m)"
proof -
  have m: "foldl min a (as @ [p_entry_ts p]) = p_entry_ts p" if "set (a # as) \<subseteq> c_fill_stamp ` set cands" for a as
    using that assms by (intro foldl_min_last) auto
  let ?due = "filter (\<lambda>t. t \<le> latest) (map c_fill_stamp cands)"
  have "set ?due \<subseteq> c_fill_stamp ` set cands" by auto
  then show "unit_candles iid tf latest cands (Some p) m = position_candles iid tf latest p m"
    using m by (cases ?due) (simp_all add: unit_candles_def position_candles_def Let_def)
  have k: "p_entry_ts p \<le> k_ts k"
    if "k \<in> set (load_candles iid tf (Some (p_entry_ts p)) (Some (latest + seconds_td 1)) 100000 m)" for k
    using that by (auto simp: load_candles_def dest!: in_set_takeD)
  let ?fill = "sort (filter (\<lambda>t. t \<in> fst ` set (position_candles iid tf latest p m)) (map c_fill_stamp cands))"
  have "set ?fill \<subseteq> c_fill_stamp ` set cands" by auto
  then have "foldl min t [p_entry_ts p] = p_entry_ts p" if "?fill = t # ts" for t ts
    using that m [of t "[]"] by (auto simp del: set_sort)
  then show "outstanding_stamps cands (position_candles iid tf latest p m) (Some p) = map fst (position_candles iid tf latest p m)"
    using k by (cases ?fill) (simp_all add: outstanding_stamps_def Let_def position_candles_def filter_map comp_def)
qed

text \<open>The bars of the window of a unit with a position.\<close>

definition position_window :: "orch_settings \<Rightarrow> uuid \<Rightarrow> timeframe \<Rightarrow> datetime \<Rightarrow> position \<Rightarrow> market \<Rightarrow> bar list" where
  "position_window cfg iid tf latest p m =
     (let candles = position_candles iid tf latest p m
      in List.map_filter (map_of candles) (fst (catchup_window (map fst candles) (os_max_bars cfg))))"

text \<open>The series of the unit gained closed bars after \<open>latest\<close>; other series may have changed anyhow.\<close>

definition later_bars :: "uuid \<Rightarrow> timeframe \<Rightarrow> datetime \<Rightarrow> market \<Rightarrow> market \<Rightarrow> bool" where
  "later_bars iid tf latest m m' = (\<exists>new. series iid tf m' = series iid tf m @ new \<and> (\<forall>k\<in>set new. latest < k_ts k))"

lemma sort_key_append:
  "(\<forall>x\<in>set xs. \<forall>y\<in>set ys. f x < (f y :: int)) \<Longrightarrow> sort_key f (xs @ ys) = sort_key f xs @ sort_key f ys"
proof (induction xs)
  case (Cons x xs)
  have "insort_key f x (us @ vs) = insort_key f x us @ vs" if "\<forall>v\<in>set vs. f x < f v" for us vs
    using that by (induction us) (auto simp: insort_is_Cons less_imp_le)
  then show ?case using Cons by simp
qed simp

lemma remdups_append_disjoint: "set xs \<inter> set ys = {} \<Longrightarrow> remdups (xs @ ys) = remdups xs @ remdups ys"
  by (induction xs) auto

lemma last_closed_le: "last_closed_ts iid tf m = Some latest \<Longrightarrow> k \<in> set (series iid tf m) \<Longrightarrow> k_ts k \<le> latest"
proof -
  assume a: "last_closed_ts iid tf m = Some latest" "k \<in> set (series iid tf m)"
  then obtain ts where r: "rev (sort (map k_ts (series iid tf m))) = latest # ts"
    by (auto simp: last_closed_ts_def split: list.splits)
  then have "sort (map k_ts (series iid tf m)) = rev ts @ [latest]" by (metis rev.simps(2) rev_rev_ident)
  moreover have "sorted (sort (map k_ts (series iid tf m)))" by (rule sorted_sort)
  moreover have "k_ts k \<in> set (sort (map k_ts (series iid tf m)))" using a(2) by simp
  ultimately show "k_ts k \<le> latest" by (auto simp: sorted_append)
qed

lemma candles_extend:
  assumes "last_closed_ts iid tf m = Some latest" "last_closed_ts iid tf m' = Some latest'" "later_bars iid tf latest m m'"
  shows "\<exists>more. position_candles iid tf latest' p m' = position_candles iid tf latest p m @ more
    \<and> (\<forall>x\<in>set more. latest < fst x)"
proof -
  obtain new where s: "series iid tf m' = series iid tf m @ new" and n: "\<forall>k\<in>set new. latest < k_ts k"
    using assms(3) by (auto simp: later_bars_def)
  let ?from = "\<lambda>k. p_entry_ts p \<le> k_ts k"
  have le: "\<forall>k\<in>set (series iid tf m). k_ts k \<le> latest" "\<forall>k\<in>set (series iid tf m'). k_ts k \<le> latest'"
    using last_closed_le assms(1,2) by blast+
  have all: "load_candles iid tf (Some (p_entry_ts p)) (Some (l + seconds_td 1)) 100000 M
      = take 100000 (sort_key k_ts (filter ?from (series iid tf M)))" if "\<forall>k\<in>set (series iid tf M). k_ts k \<le> l" for l M
  proof -
    have "filter (\<lambda>k. ?from k \<and> k_ts k < l + seconds_td 1) (series iid tf M) = filter ?from (series iid tf M)"
      using that by (intro filter_cong) (auto simp: seconds_td_def)
    then show ?thesis by (simp add: load_candles_def)
  qed
  have "sort_key k_ts (filter ?from (series iid tf m')) = sort_key k_ts (filter ?from (series iid tf m)) @ sort_key k_ts (filter ?from new)"
    unfolding s filter_append using le(1) n by (intro sort_key_append) fastforce
  then show ?thesis unfolding position_candles_def all [OF le(1)] all [OF le(2)]
    using n by (auto dest!: in_set_takeD)
qed

lemma in_map_filter: "x \<in> set (List.map_filter f xs) \<longleftrightarrow> (\<exists>y\<in>set xs. f y = Some x)"
  by (induction xs) (auto simp: map_filter_simps split: option.split)

lemma map_filter_same: "(\<forall>t\<in>set ts. f t = g t) \<Longrightarrow> List.map_filter f ts = List.map_filter g ts"
  by (induction ts) (simp_all add: map_filter_simps split: option.split)

text \<open>A full window never moves.\<close>

lemma window_fixed:
  assumes "last_closed_ts iid tf m = Some latest" "last_closed_ts iid tf m' = Some latest'" "later_bars iid tf latest m m'"
    "length (fst (catchup_window (map fst (position_candles iid tf latest p m)) (os_max_bars cfg))) = nat (max 1 (os_max_bars cfg))"
  shows "position_window cfg iid tf latest' p m' = position_window cfg iid tf latest p m"
proof -
  let ?c = "position_candles iid tf latest p m"
  let ?n = "nat (max 1 (os_max_bars cfg))"
  obtain more where more: "position_candles iid tf latest' p m' = ?c @ more" "\<forall>x\<in>set more. latest < fst x"
    using candles_extend [OF assms(1-3)] by blast
  have le: "fst x \<le> latest" if "x \<in> set ?c" for x
    using that last_closed_le [OF assms(1)] by (auto simp: position_candles_def load_candles_def dest!: in_set_takeD)
  have "remdups (map fst (?c @ more)) = remdups (map fst ?c) @ remdups (map fst more)"
    unfolding map_append using le more(2) by (intro remdups_append_disjoint) fastforce
  then have "sort (remdups (map fst (?c @ more))) = sort (remdups (map fst ?c)) @ sort (remdups (map fst more))"
    using le more(2) by (simp only:) (intro sort_key_append, fastforce)
  moreover have "?n \<le> length (remdups (map fst ?c))" using assms(4) by (simp add: catchup_window_def Let_def)
  ultimately have w: "fst (catchup_window (map fst (?c @ more)) (os_max_bars cfg)) = fst (catchup_window (map fst ?c) (os_max_bars cfg))"
    by (simp add: catchup_window_def Let_def)
  have "map_of (?c @ more) t = map_of ?c t" if "t \<in> set (fst (catchup_window (map fst ?c) (os_max_bars cfg)))" for t
  proof -
    have "t \<in> fst ` set ?c" using that by (auto simp: catchup_window_def Let_def dest!: in_set_takeD)
    then have "map_of ?c t \<noteq> None" by (simp add: map_of_eq_None_iff)
    then show ?thesis by (cases "map_of ?c t") (simp_all add: map_add_def)
  qed
  then show ?thesis unfolding position_window_def Let_def more(1) w by (intro map_filter_same) blast
qed

lemma window_stays_full:
  assumes "last_closed_ts iid tf m = Some latest" "last_closed_ts iid tf m' = Some latest'" "later_bars iid tf latest m m'"
    "length (fst (catchup_window (map fst (position_candles iid tf latest p m)) n)) = nat (max 1 n)"
  shows "length (fst (catchup_window (map fst (position_candles iid tf latest' p m')) n)) = nat (max 1 n)"
proof -
  let ?c = "position_candles iid tf latest p m"
  obtain more where more: "position_candles iid tf latest' p m' = ?c @ more"
    using candles_extend [OF assms(1-3)] by blast
  have "card (set (map fst ?c)) \<le> card (set (map fst (?c @ more)))" by (intro card_mono) auto
  then show ?thesis using assms(4) unfolding more by (simp add: catchup_window_def Let_def length_remdups_card_conv)
qed

lemma window_nonempty:
  assumes "length (fst (catchup_window (map fst (position_candles iid tf latest p m)) (os_max_bars cfg))) = nat (max 1 (os_max_bars cfg))"
  shows "position_window cfg iid tf latest p m \<noteq> []"
proof -
  let ?c = "position_candles iid tf latest p m"
  obtain t where t: "t \<in> set (fst (catchup_window (map fst ?c) (os_max_bars cfg)))"
    using assms by (cases "fst (catchup_window (map fst ?c) (os_max_bars cfg))") auto
  then have "t \<in> fst ` set ?c" by (auto simp: catchup_window_def Let_def dest!: in_set_takeD)
  then obtain b where "map_of ?c t = Some b" by (metis map_of_eq_None_iff not_Some_eq)
  with t have "b \<in> set (position_window cfg iid tf latest p m)"
    by (auto simp: position_window_def Let_def in_map_filter)
  then show ?thesis by auto
qed

section \<open>Starvation\<close>

lemma book_reload:
  "list_open_positions (reload st) = map reload_position (list_open_positions st)"
  by (simp add: list_open_positions_def reload_def filter_map comp_def)

lemma open_restored_broker: "lb_open_for (restored_broker cfg w) s = book_position (reload (w_ledger w)) (upper s)"
  by (simp add: restored_broker_def lb_open_for_def open_restored init_ledger_def ledger_of_def reload_def list_open_positions_def)

lemma cancel_all_rows: "position_rows (lb_store (snd (cancel_all cs (n, lb)))) = position_rows (lb_store lb)"
proof (induction cs arbitrary: n lb)
  case (Cons c cs)
  obtain r lb1 where p: "cancel_pending (c_order c) lb = (r, lb1)" by fastforce
  then have "position_rows (lb_store lb1) = position_rows (lb_store lb)" using row_ids_ops(1) [of "c_order c" lb] by simp
  then show ?case using Cons.IH by (simp add: p split: option.split)
qed simp

lemma position_unit_run:
  assumes "get_or_create_instrument iid s (db_market (w_db w)) = (ins, m)" "last_closed_ts (i_id ins) tf m = Some latest"
    "lb_open_for (restored_broker cfg w) s = Some p"
    "\<forall>c\<in>set (unit_candidates s tf (lb_store (restored_broker cfg w))). p_entry_ts p \<le> c_fill_stamp c"
    "worker_process_unit H cfg iid ids now s tf w = (sm, n, w')"
  shows "\<exists>lb1 lb sm0 cs. us_exits sm0 = 0 \<and> us_fills sm0 = 0 \<and> us_bars_processed sm0 = 0
      \<and> lb1 = snd (cancel_all cs (0, restored_broker cfg w))
      \<and> run_bars H (os_snapshot_interval cfg) ids now s tf (unit_candidates s tf (lb_store (restored_broker cfg w)))
          (position_window cfg (i_id ins) tf latest p m) (sm0, lb1) = (sm, lb)
      \<and> (w' = w \<or> (w_ledger w' = lb_store lb \<and> w_db w' = (w_db w)\<lparr>db_market := m\<rparr>))"
proof -
  let ?cs = "unit_candidates s tf (lb_store (restored_broker cfg w))"
  let ?c = "position_candles (i_id ins) tf latest p m"
  obtain win depth where win: "catchup_window (map fst ?c) (os_max_bars cfg) = (win, depth)" by fastforce
  define d where "d = (if ?c = [] then 0 else depth)"
  define sm0 where "sm0 = \<lparr>us_symbol = s, us_timeframe = tf, us_bars_processed = 0, us_fills = 0, us_exits = 0,
      us_superseded = 0, us_snapshots = 0, us_depth_remaining = d\<rparr>"
  define doomed where "doomed = missing_bar_candidates ?cs (map fst ?c) latest"
  obtain k lb1 where ca: "cancel_all doomed (0, restored_broker cfg w) = (k, lb1)" by fastforce
  have rows: "lb1 = snd (cancel_all doomed (0, restored_broker cfg w))" using ca by simp
  obtain sm1 lb where r: "run_bars H (os_snapshot_interval cfg) ids now s tf ?cs (position_window cfg (i_id ins) tf latest p m)
          (sm0, lb1) = (sm1, lb)" by fastforce
  have pw: "position_window cfg (i_id ins) tf latest p m = List.map_filter (map_of ?c) win"
    by (simp add: position_window_def win)
  note unit = assms(5) [unfolded worker_process_unit_def Let_def assms(1-3) prod.case option.case
      late_candidates [OF assms(4)], folded doomed_def, unfolded ca prod.case]
  have "sm = sm1 \<and> (w' = w \<or> (w_ledger w' = lb_store lb \<and> w_db w' = (w_db w)\<lparr>db_market := m\<rparr>))"
  proof (cases "?c = []")
    case True
    then have "win = []" using win by (simp add: catchup_window_def Let_def)
    then show ?thesis using unit r True by (auto simp: pw sm0_def d_def map_filter_simps split: if_splits)
  next
    case False
    then show ?thesis using unit r by (simp add: win pw sm0_def d_def) (auto simp: sm0_def d_def)
  qed
  moreover have "us_exits sm0 = 0" "us_fills sm0 = 0" "us_bars_processed sm0 = 0" by (simp_all add: sm0_def)
  ultimately show ?thesis using rows r by blast
qed

text \<open>The fill stamps of the unit's pending orders.\<close>

definition unit_stamps :: "orch_settings \<Rightarrow> string \<Rightarrow> timeframe \<Rightarrow> world \<Rightarrow> datetime set" where
  "unit_stamps cfg s tf w = c_fill_stamp ` set (unit_candidates s tf (lb_store (restored_broker cfg w)))"

lemma unit_stamps_iff:
  "t \<in> unit_stamps cfg s tf w \<longleftrightarrow> (\<exists>ord b. ord \<in> set (orders (lb_store (restored_broker cfg w))) \<and> o_status ord = PENDING
     \<and> o_symbol ord = s \<and> o_timeframe ord = tf
     \<and> get_decision_bucket (o_decision_id ord) (lb_store (restored_broker cfg w)) = Some b \<and> t = fill_stamp ord b)"
  by (force simp: unit_stamps_def unit_candidates_def pending_candidates_def list_pending_orders_def in_map_filter split: option.splits)

lemma cancel_all_pending:
  "ord \<in> set (orders (lb_store (snd (cancel_all cs (n, lb))))) \<Longrightarrow> o_status ord = PENDING \<Longrightarrow> ord \<in> set (orders (lb_store lb))"
proof (induction cs arbitrary: n lb)
  case (Cons c cs)
  obtain r lb1 where p: "cancel_pending (c_order c) lb = (r, lb1)" by fastforce
  have "ord \<in> set (orders (lb_store lb1))" using Cons p by (auto split: option.splits)
  then show ?case using p Cons.prems(2) by (auto simp: cancel_pending_def Let_def split: if_splits)
qed simp

lemma unit_stamps_shrink:
  assumes "w_db w' = (w_db w)\<lparr>db_market := m\<rparr>"
    "\<forall>ord\<in>set (orders (w_ledger w')). o_status ord = PENDING \<longrightarrow> ord \<in> set (orders (lb_store (restored_broker cfg w)))"
  shows "unit_stamps cfg s tf w' \<subseteq> unit_stamps cfg s tf w"
proof
  fix t assume "t \<in> unit_stamps cfg s tf w'"
  then obtain ord b where o1: "ord \<in> set (orders (lb_store (restored_broker cfg w')))" "o_status ord = PENDING" "o_symbol ord = s"
    "o_timeframe ord = tf" "get_decision_bucket (o_decision_id ord) (lb_store (restored_broker cfg w')) = Some b" "t = fill_stamp ord b"
    unfolding unit_stamps_iff by blast
  then obtain q where q: "q \<in> set (orders (w_ledger w'))" "ord = reload_order q" by (auto simp: restored_fields reload_def ledger_of_def)
  have f: "o_status q = PENDING" "o_symbol q = s" "o_timeframe q = tf" "o_decision_id q = o_decision_id ord"
    "fill_stamp q b = fill_stamp ord b" using o1(2-4) q(2) by (simp_all add: reload_order_def fill_stamp_def)
  have "get_decision_bucket i (lb_store (restored_broker cfg w')) = get_decision_bucket i (lb_store (restored_broker cfg w))" for i
    by (cases i) (simp_all add: get_decision_bucket_def restored_fields reload_def ledger_of_def assms(1))
  then show "t \<in> unit_stamps cfg s tf w" unfolding unit_stamps_iff using assms(2) q(1) f o1(5,6) by auto
qed

text \<open>
  A starving unit: the symbol has an open position \<open>p\<close>, the window is full, none of its bars \<open>W\<close> reaches
  the stop or the target, and the pending orders of the unit are due after the entry and not on a bar
  of the window.
\<close>

definition starving :: "orch_settings \<Rightarrow> string \<Rightarrow> timeframe \<Rightarrow> uuid \<Rightarrow> position \<Rightarrow> bar list \<Rightarrow> world \<Rightarrow> bool" where
  "starving cfg s tf iid p W w = (upper s = s \<and> lb_open_for (restored_broker cfg w) s = Some p
     \<and> map_option i_id (find_instrument (normalize_symbol s) (db_market (w_db w))) = Some iid
     \<and> (\<exists>latest. last_closed_ts iid tf (db_market (w_db w)) = Some latest \<and> position_window cfg iid tf latest p (db_market (w_db w)) = W
          \<and> length (fst (catchup_window (map fst (position_candles iid tf latest p (db_market (w_db w)))) (os_max_bars cfg)))
              = nat (max 1 (os_max_bars cfg)))
     \<and> (\<forall>t\<in>unit_stamps cfg s tf w. p_entry_ts p \<le> t \<and> t \<notin> b_ts ` set W)
     \<and> (\<forall>b\<in>set W. \<not> exits_on p (b_close b)))"

text \<open>
  What may happen to the system between two cycles of the unit: bars close later than those the unit's
  series has, orders come whose fill bar is not yet closed (a decision on the latest bar fills on the
  next), orders go, everything of other symbols and timeframes changes; the position is left alone.
\<close>

definition meanwhile :: "orch_settings \<Rightarrow> string \<Rightarrow> timeframe \<Rightarrow> uuid \<Rightarrow> world \<Rightarrow> world \<Rightarrow> bool" where
  "meanwhile cfg s tf iid w w' = (lb_open_for (restored_broker cfg w') s = lb_open_for (restored_broker cfg w) s
     \<and> find_instrument (normalize_symbol s) (db_market (w_db w')) = find_instrument (normalize_symbol s) (db_market (w_db w))
     \<and> (\<forall>latest. last_closed_ts iid tf (db_market (w_db w)) = Some latest \<longrightarrow>
          later_bars iid tf latest (db_market (w_db w)) (db_market (w_db w'))
          \<and> (\<forall>t\<in>unit_stamps cfg s tf w'. t \<in> unit_stamps cfg s tf w \<or> latest < t)))"

text \<open>Any number of cycles of the unit, with anything meanwhile; the summaries of the cycles.\<close>

inductive unit_cycles :: "hash \<Rightarrow> orch_settings \<Rightarrow> string \<Rightarrow> timeframe \<Rightarrow> uuid \<Rightarrow> world \<Rightarrow> unit_summary list \<Rightarrow> world \<Rightarrow> bool"
  for H cfg s tf iid w where
  none: "unit_cycles H cfg s tf iid w [] w"
| cycle: "unit_cycles H cfg s tf iid w sms w1 \<Longrightarrow> worker_process_unit H cfg i ids now s tf w1 = (sm, n, w2)
    \<Longrightarrow> unit_cycles H cfg s tf iid w (sms @ [sm]) w2"
| meanwhile: "unit_cycles H cfg s tf iid w sms w1 \<Longrightarrow> meanwhile cfg s tf iid w1 w2 \<Longrightarrow> unit_cycles H cfg s tf iid w sms w2"

lemma window_latest:
  assumes "last_closed_ts iid tf m = Some latest" "b \<in> set (position_window cfg iid tf latest p m)"
  shows "b_ts b \<le> latest \<and> p_entry_ts p \<le> b_ts b"
proof -
  from assms(2) obtain t where "map_of (position_candles iid tf latest p m) t = Some b"
    by (auto simp: position_window_def Let_def in_map_filter)
  then have "(t, b) \<in> set (position_candles iid tf latest p m)" by (rule map_of_SomeD)
  then obtain k where k: "k \<in> set (load_candles iid tf (Some (p_entry_ts p)) (Some (latest + seconds_td 1)) 100000 m)" "b_ts b = k_ts k"
    by (auto simp: position_candles_def)
  then have "k \<in> set (series iid tf m)" "p_entry_ts p \<le> k_ts k" by (auto simp: load_candles_def dest!: in_set_takeD)
  then show ?thesis using last_closed_le [OF assms(1)] k(2) by simp
qed

lemma starvingD:
  assumes "starving cfg s tf iid p W w"
  shows "upper s = s" "lb_open_for (restored_broker cfg w) s = Some p"
    "map_option i_id (find_instrument (normalize_symbol s) (db_market (w_db w))) = Some iid"
    "t \<in> unit_stamps cfg s tf w \<Longrightarrow> p_entry_ts p \<le> t \<and> t \<notin> b_ts ` set W"
    "b \<in> set W \<Longrightarrow> \<not> exits_on p (b_close b)"
    "\<exists>latest. last_closed_ts iid tf (db_market (w_db w)) = Some latest \<and> position_window cfg iid tf latest p (db_market (w_db w)) = W
       \<and> length (fst (catchup_window (map fst (position_candles iid tf latest p (db_market (w_db w)))) (os_max_bars cfg)))
              = nat (max 1 (os_max_bars cfg))"
proof -
  note d = assms [unfolded starving_def]
  show "upper s = s" using d by (elim conjE)
  show "lb_open_for (restored_broker cfg w) s = Some p" using d by (elim conjE)
  show "map_option i_id (find_instrument (normalize_symbol s) (db_market (w_db w))) = Some iid" using d by (elim conjE)
  show "t \<in> unit_stamps cfg s tf w \<Longrightarrow> p_entry_ts p \<le> t \<and> t \<notin> b_ts ` set W" using d by (elim conjE) (rule bspec)
  show "b \<in> set W \<Longrightarrow> \<not> exits_on p (b_close b)" using d by (elim conjE) (rule bspec)
  show "\<exists>latest. last_closed_ts iid tf (db_market (w_db w)) = Some latest \<and> position_window cfg iid tf latest p (db_market (w_db w)) = W
       \<and> length (fst (catchup_window (map fst (position_candles iid tf latest p (db_market (w_db w)))) (os_max_bars cfg)))
              = nat (max 1 (os_max_bars cfg))" using d by (elim conjE)
qed

lemma meanwhileD:
  assumes "meanwhile cfg s tf iid w w'"
  shows "lb_open_for (restored_broker cfg w') s = lb_open_for (restored_broker cfg w) s"
    "find_instrument (normalize_symbol s) (db_market (w_db w')) = find_instrument (normalize_symbol s) (db_market (w_db w))"
    "last_closed_ts iid tf (db_market (w_db w)) = Some latest \<Longrightarrow> later_bars iid tf latest (db_market (w_db w)) (db_market (w_db w'))"
    "last_closed_ts iid tf (db_market (w_db w)) = Some latest \<Longrightarrow> t \<in> unit_stamps cfg s tf w' \<Longrightarrow> t \<in> unit_stamps cfg s tf w \<or> latest < t"
  using assms unfolding meanwhile_def by simp_all

lemma starving_meanwhile:
  assumes "starving cfg s tf iid p W w" "meanwhile cfg s tf iid w w'"
  shows "starving cfg s tf iid p W w'"
proof -
  let ?m = "db_market (w_db w)" and ?m' = "db_market (w_db w')"
  obtain latest where l: "last_closed_ts iid tf ?m = Some latest" "position_window cfg iid tf latest p ?m = W"
    "length (fst (catchup_window (map fst (position_candles iid tf latest p ?m)) (os_max_bars cfg))) = nat (max 1 (os_max_bars cfg))"
    using starvingD(6) [OF assms(1)] by (elim exE conjE)
  note later = meanwhileD(3) [OF assms(2) l(1)]
  have "series iid tf ?m \<noteq> []" using l(1) by (auto simp: last_closed_ts_def)
  then have "series iid tf ?m' \<noteq> []" using later by (auto simp: later_bars_def)
  then have "length (rev (sort (map k_ts (series iid tf ?m')))) \<noteq> 0" by simp
  then obtain t ts where "rev (sort (map k_ts (series iid tf ?m'))) = t # ts"
    by (cases "rev (sort (map k_ts (series iid tf ?m')))") simp_all
  then obtain latest' where l': "last_closed_ts iid tf ?m' = Some latest'" by (simp add: last_closed_ts_def)
  have w: "position_window cfg iid tf latest' p ?m' = W" using window_fixed [OF l(1) l' later l(3)] l(2) by simp
  have full: "length (fst (catchup_window (map fst (position_candles iid tf latest' p ?m')) (os_max_bars cfg))) = nat (max 1 (os_max_bars cfg))"
    by (rule window_stays_full [OF l(1) l' later l(3)])
  have W: "b_ts b \<le> latest \<and> p_entry_ts p \<le> b_ts b" if "b \<in> set W" for b using window_latest [OF l(1)] l(2) that by blast
  obtain b where "b \<in> set W" using window_nonempty [OF l(3)] l(2) by (cases W) auto
  then have "p_entry_ts p \<le> latest" using W by force
  then have late: "p_entry_ts p \<le> t \<and> t \<notin> b_ts ` set W" if "latest < t" for t
    using that W by force
  have st: "p_entry_ts p \<le> t \<and> t \<notin> b_ts ` set W" if "t \<in> unit_stamps cfg s tf w'" for t
    using meanwhileD(4) [OF assms(2) l(1) that] starvingD(4) [OF assms(1), of t] late [of t] by (elim disjE) simp_all
  have keep: "lb_open_for (restored_broker cfg w') s = Some p"
    "map_option i_id (find_instrument (normalize_symbol s) ?m') = Some iid"
    using starvingD(2,3) [OF assms(1)] by (simp_all add: meanwhileD(1,2) [OF assms(2)])
  show ?thesis unfolding starving_def
    by (intro conjI keep starvingD(1,5) [OF assms(1)] exI [of _ latest'] l' w full ballI st [THEN conjunct1] st [THEN conjunct2])
qed

lemma starving_cycle:
  assumes "starving cfg s tf iid p W w" "worker_process_unit H cfg i ids now s tf w = (sm, n, w')"
  shows "starving cfg s tf iid p W w' \<and> us_exits sm = 0 \<and> us_fills sm = 0 \<and> us_bars_processed sm = length W
    \<and> (\<exists>sm0 lb0 lb. run_bars H (os_snapshot_interval cfg) ids now s tf (unit_candidates s tf (lb_store (restored_broker cfg w))) W (sm0, lb0) = (sm, lb))"
proof -
  let ?m = "db_market (w_db w)" and ?cs = "unit_candidates s tf (lb_store (restored_broker cfg w))"
  obtain latest where l: "last_closed_ts iid tf ?m = Some latest" "position_window cfg iid tf latest p ?m = W"
    and st: "upper s = s" "lb_open_for (restored_broker cfg w) s = Some p"
      "\<forall>t\<in>unit_stamps cfg s tf w. p_entry_ts p \<le> t \<and> t \<notin> b_ts ` set W" "\<forall>b\<in>set W. \<not> exits_on p (b_close b)"
    using starvingD [OF assms(1)] by blast
  obtain ins where ins: "find_instrument (normalize_symbol s) ?m = Some ins" "i_id ins = iid"
    using starvingD(3) [OF assms(1)] by auto
  have g: "get_or_create_instrument i s ?m = (ins, ?m)" using ins by (simp add: get_or_create_instrument_def Let_def)
  have due: "\<forall>c\<in>set ?cs. p_entry_ts p \<le> c_fill_stamp c" using st(3) by (simp add: unit_stamps_def)
  have quiet: "\<forall>b\<in>set W. \<not> exits_on p (b_close b) \<and> candidates_for_bar ?cs (b_ts b) = []"
  proof (intro ballI conjI)
    fix b assume b: "b \<in> set W"
    then show "\<not> exits_on p (b_close b)" using st(4) by blast
    have "filter (\<lambda>c. c_fill_stamp c = b_ts b) ?cs = []" using st(3) b by (auto simp: unit_stamps_def filter_empty_conv)
    then show "candidates_for_bar ?cs (b_ts b) = []" by (simp add: candidates_for_bar_def)
  qed
  obtain lb1 lb sm0 cs where r: "us_exits sm0 = 0" "us_fills sm0 = 0" "us_bars_processed sm0 = 0"
      "lb1 = snd (cancel_all cs (0, restored_broker cfg w))"
      "run_bars H (os_snapshot_interval cfg) ids now s tf ?cs W (sm0, lb1) = (sm, lb)"
      "w' = w \<or> (w_ledger w' = lb_store lb \<and> w_db w' = (w_db w)\<lparr>db_market := ?m\<rparr>)"
    using position_unit_run [OF g, unfolded ins(2), OF l(1) st(2) due assms(2), unfolded l(2)] by (elim exE conjE)
  have rows: "position_rows (lb_store lb1) = position_rows (reload (w_ledger w))"
    by (simp add: r(4) cancel_all_rows restored_fields ledger_of_def reload_def)
  have "book_position (lb_store lb1) (upper s) = Some p"
    using st(1,2) rows unfolding open_restored_broker by (simp add: list_open_positions_def)
  note q = quiet_run [OF this quiet r(5)]
  have "starving cfg s tf iid p W w'"
  proof (cases "w' = w")
    case False
    then have w': "w_ledger w' = lb_store lb" "w_db w' = (w_db w)\<lparr>db_market := ?m\<rparr>" using r(6) by simp_all
    have "reload_position (reload_position y) = reload_position y" for y
      by (simp add: reload_position_def option.map_comp comp_def)
    then have "position_rows (reload (w_ledger w')) = position_rows (reload (w_ledger w))"
      using q rows by (simp add: w'(1) reload_def comp_def)
    then have "lb_open_for (restored_broker cfg w') s = Some p"
      using st(2) unfolding open_restored_broker by (simp add: list_open_positions_def)
    moreover have "unit_stamps cfg s tf w' \<subseteq> unit_stamps cfg s tf w"
      using q cancel_all_pending [of _ cs 0 "restored_broker cfg w"] by (intro unit_stamps_shrink [OF w'(2)]) (simp add: w'(1) r(4))
    moreover have "db_market (w_db w') = ?m" by (simp add: w'(2))
    ultimately show ?thesis using assms(1) unfolding starving_def by auto
  qed (use assms(1) in simp)
  with q r(1-3,5) show ?thesis by auto
qed


section \<open>A stop that is never executed\<close>

definition stuck_row :: position_row where
  "stuck_row = \<lparr>r_id = 1, r_order_id = 1, r_updated_at = 0, r_symbol = ''EURUSD'', r_timeframe = H1, r_side = LONG, r_units = 1,
     r_entry_price = 1, r_entry_ts = 0, r_stop_loss = Some (1 / 2), r_take_profit = None, r_costs = 0, r_status = OPEN,
     r_exit_price = None, r_exit_ts = None, r_exit_reason = None, r_gross_pnl = None, r_net_pnl = None\<rparr>"

definition stuck_candle :: "datetime \<Rightarrow> rat \<Rightarrow> candle_row" where
  "stuck_candle ts px = \<lparr>k_instrument_id = 1, k_timeframe = H1, k_ts = ts, k_open = px, k_high = px, k_low = px, k_close = px,
     k_volume = 0, k_source = '''', k_complete = True, k_tf_minutes = 60\<rparr>"

text \<open>The bar of the entry has closed; a cycle looks at one bar. An hour after the entry the price falls to
  0, through the stop at 0.5.\<close>

definition stuck_world :: world where
  "stuck_world = \<lparr>w_db = (example_db [])\<lparr>db_market := (db_market (example_db []))
       \<lparr>candle_rows := [stuck_candle 0 1]\<rparr>\<rparr>, w_ledger = empty_store\<lparr>position_rows := [stuck_row]\<rparr>\<rparr>"

definition fallen_world :: world where
  "fallen_world = stuck_world\<lparr>w_db := (w_db stuck_world)\<lparr>db_market := (db_market (w_db stuck_world))
       \<lparr>candle_rows := [stuck_candle 0 1, stuck_candle 3600000000 0]\<rparr>\<rparr>\<rparr>"

definition stuck_cfg :: orch_settings where
  "stuck_cfg = example_cfg\<lparr>os_max_bars := 1\<rparr>"

definition stuck_position :: position where
  "stuck_position = \<lparr>p_symbol = ''EURUSD'', p_timeframe = H1, p_units = 1, p_entry_price = 1, p_entry_ts = 0, p_side = LONG,
     p_stop_loss = Some (fl (1 / 2)), p_take_profit = None, p_costs = 0\<rparr>"

lemma stuck_open: "lb_open_for (restored_broker cfg stuck_world) ''EURUSD'' = Some stuck_position"
proof -
  have u: "upper ''EURUSD'' = ''EURUSD''" by code_simp
  have q: "quantize 6 1 = 1" "quantize 8 1 = 1" "quantize 8 (1 / 2) = 1 / 2" "quantize 6 0 = 0" by code_simp+
  show ?thesis
    unfolding open_restored_broker u stuck_position_def
    by (simp add: stuck_world_def stuck_row_def empty_store_def book_reload) (simp add: list_open_positions_def reload_position_def
        position_of_row_def open_for_def q)
qed

lemma stuck_exits: "\<not> exits_on stuck_position 1" "exits_on stuck_position 0"
proof -
  have "\<not> 1 \<le> fl (1 / 2)" "0 \<le> fl (1 / 2)" by code_simp+
  then show "\<not> exits_on stuck_position 1" "exits_on stuck_position 0"
    by (simp_all add: exits_on_def exit_price_for_def stuck_position_def)
qed

lemma stuck_starving: "starving stuck_cfg ''EURUSD'' H1 1 stuck_position [\<lparr>b_ts = 0, b_open = 1, b_close = 1\<rparr>] stuck_world"
proof -
  let ?m = "db_market (w_db stuck_world)"
  have n: "upper ''EURUSD'' = ''EURUSD''" "normalize_symbol ''EURUSD'' = ''EURUSD''" by code_simp+
  have i: "map_option i_id (find_instrument (normalize_symbol ''EURUSD'') ?m) = Some 1"
    by (simp add: n find_instrument_def stuck_world_def example_db_def)
  have l: "last_closed_ts 1 H1 ?m = Some 0" by (simp add: last_closed_ts_def series_def stuck_world_def stuck_candle_def example_db_def)
  have c: "position_candles 1 H1 0 stuck_position ?m = [(0, \<lparr>b_ts = 0, b_open = 1, b_close = 1\<rparr>)]"
    by (simp add: position_candles_def load_candles_def series_def stuck_world_def stuck_candle_def stuck_position_def example_db_def seconds_td_def)
  have k: "os_max_bars stuck_cfg = 1" by (simp add: stuck_cfg_def)
  have win: "fst (catchup_window [0] 1) = [0]" by code_simp
  have cands: "unit_stamps stuck_cfg ''EURUSD'' H1 stuck_world = {}"
    unfolding unit_stamps_def restored_fields(1)
    by (simp add: unit_candidates_def pending_candidates_def list_pending_orders_def reload_def ledger_of_def stuck_world_def
        empty_store_def map_filter_simps)
  show ?thesis
    unfolding starving_def using n(1) stuck_open i l c k win cands stuck_exits(1)
    by (simp add: position_window_def map_filter_simps)
qed

lemma stuck_meanwhile: "meanwhile stuck_cfg ''EURUSD'' H1 1 stuck_world fallen_world"
proof -
  have "lb_store (restored_broker stuck_cfg fallen_world) = lb_store (restored_broker stuck_cfg stuck_world)"
    by (simp add: restored_fields fallen_world_def ledger_of_def)
  then have "unit_stamps stuck_cfg ''EURUSD'' H1 fallen_world = unit_stamps stuck_cfg ''EURUSD'' H1 stuck_world"
    by (simp add: unit_stamps_def)
  moreover have "last_closed_ts 1 H1 (db_market (w_db stuck_world)) = Some 0"
    by (simp add: last_closed_ts_def series_def stuck_world_def stuck_candle_def example_db_def)
  moreover have "later_bars 1 H1 0 (db_market (w_db stuck_world)) (db_market (w_db fallen_world))"
    unfolding later_bars_def
    by (rule exI [of _ "[stuck_candle 3600000000 0]"]) (simp add: series_def fallen_world_def stuck_world_def stuck_candle_def example_db_def)
  ultimately show ?thesis
    unfolding meanwhile_def open_restored_broker by (simp add: fallen_world_def find_instrument_def)
qed


end
