(* ===== verification/OrchestratorTriggers.thy ===== *)
theory OrchestratorTriggers
  imports OrchestratorRuns
begin

text \<open>
  The trigger batch of the orchestrator against a reference: every stream entry is acknowledged
  once, and the world is what deciding the first trigger of each pair in order makes of it.
\<close>

text \<open>The first trigger of each pair with its position in the batch.\<close>

fun first_pairs :: "nat \<Rightarrow> (string \<times> string) set \<Rightarrow> trigger list \<Rightarrow> (nat \<times> string \<times> string) list" where
  "first_pairs n seen [] = []"
| "first_pairs n seen ((entry, payload) # es) =
     (case payload of
        None \<Rightarrow> first_pairs (Suc n) seen es
      | Some p \<Rightarrow> if fst p = '''' \<or> snd p = '''' \<or> p \<in> seen then first_pairs (Suc n) seen es
          else (n, p) # first_pairs (Suc n) (insert p seen) es)"

definition decide_pair :: "orch_settings \<Rightarrow> (nat \<Rightarrow> orch_env) \<Rightarrow> nat \<times> string \<times> string \<Rightarrow> world \<Rightarrow> world" where
  "decide_pair cfg envs x w =
     (case process_pair cfg (envs (fst x)) (fst (snd x)) (snd (snd x)) w of Inl e \<Rightarrow> w | Inr (_, w') \<Rightarrow> w')"

lemma first_pairs_distinct: "distinct (map snd (first_pairs n seen es)) \<and> set (map snd (first_pairs n seen es)) \<inter> seen = {}"
  by (induction n seen es rule: first_pairs.induct) (auto split: option.splits)

lemma first_pairs_set:
  "set (map snd (first_pairs n seen es)) = {p. (\<exists>i. (i, Some p) \<in> set es) \<and> fst p \<noteq> '''' \<and> snd p \<noteq> '''' \<and> p \<notin> seen}"
proof (induction n seen es rule: first_pairs.induct)
  case (2 n seen entry payload es)
  show ?case
  proof (cases payload)
    case None
    then show ?thesis using 2(1) [OF None] by auto
  next
    case (Some p)
    show ?thesis
    proof (cases "fst p = '''' \<or> snd p = '''' \<or> p \<in> seen")
      case True
      then show ?thesis using 2(2) [OF Some True] Some by auto
    next
      case False
      then show ?thesis using 2(3) [OF Some False] Some by auto
    qed
  qed
qed simp

definition handled :: "batch_result \<Rightarrow> nat" where
  "handled b = br_processed b + br_errors b"

lemma count_status_counters [simp]:
  "br_processed (count_status s b) = br_processed b" "br_errors (count_status s b) = br_errors b"
  "br_replayed (count_status s b) = br_replayed b"
  by (simp_all add: count_status_def Let_def split: option.split)

lemma handled_replayed [simp]: "handled (b\<lparr>br_replayed := k\<rparr>) = handled b"
  by (simp add: handled_def)

lemma poll_entries_run:
  "\<exists>seen' b'. poll_entries cfg envs n es (seen, acks, b, w) =
      (seen', acks @ map fst es, b', fold (decide_pair cfg envs) (first_pairs n seen es) w)
    \<and> handled b' \<le> handled b + length (first_pairs n seen es)
    \<and> handled b + br_replayed b + length es \<le> handled b' + br_replayed b'"
proof (induction es arbitrary: n seen acks b w)
  case (Cons e es)
  obtain entry payload where e: "e = (entry, payload)" by fastforce
  let ?skip = "b\<lparr>br_replayed := br_replayed b + 1\<rparr>"
  show ?case
  proof (cases "payload = None \<or> (\<exists>p. payload = Some p \<and> (fst p = '''' \<or> snd p = '''' \<or> p \<in> seen))")
    case True
    then have "poll_entries cfg envs n (e # es) (seen, acks, b, w) = poll_entries cfg envs (Suc n) es (seen, acks @ [entry], ?skip, w)"
      "first_pairs n seen (e # es) = first_pairs (Suc n) seen es"
      by (auto simp: e Let_def split: option.splits)
    moreover have "handled ?skip = handled b" by (simp add: handled_def)
    ultimately show ?thesis using Cons.IH [of "Suc n" seen "acks @ [entry]" ?skip w] e by (auto simp: handled_def)
  next
    case False
    then obtain s tf where p: "payload = Some (s, tf)" "s \<noteq> ''''" "tf \<noteq> ''''" "(s, tf) \<notin> seen" by (cases payload) auto
    define w1 where "w1 = decide_pair cfg envs (n, s, tf) w"
    obtain b1 where b1: "poll_entries cfg envs n (e # es) (seen, acks, b, w)
        = poll_entries cfg envs (Suc n) es (insert (s, tf) seen, acks @ [entry], b1, w1)"
      "handled b1 \<le> handled b + 1" "handled b + br_replayed b + 1 \<le> handled b1 + br_replayed b1"
    proof (cases "process_pair cfg (envs n) s tf w")
      case (Inl x)
      show thesis using p Inl
        by (intro that [of "b\<lparr>br_errors := br_errors b + 1\<rparr>"]) (simp_all add: e w1_def decide_pair_def handled_def)
    next
      case (Inr x)
      obtain res w' where x: "x = (res, w')" by fastforce
      show thesis
      proof (cases res)
        case None
        show thesis using p Inr x None
          by (intro that [of ?skip]) (simp_all add: e w1_def decide_pair_def handled_def)
      next
        case (Some r)
        let ?b = "count_status (rz_status r) (if rz_created r then b else ?skip)"
        have h: "handled ?b = handled b" "br_replayed b \<le> br_replayed ?b" by (simp_all add: handled_def)
        show thesis using p Inr x Some h
          by (intro that [of "?b\<lparr>br_processed := br_processed ?b + 1\<rparr>"])
            (simp_all add: e w1_def decide_pair_def Let_def handled_def)
      qed
    qed
    have f: "first_pairs n seen (e # es) = (n, s, tf) # first_pairs (Suc n) (insert (s, tf) seen) es" using p by (simp add: e)
    show ?thesis
      using Cons.IH [of "Suc n" "insert (s, tf) seen" "acks @ [entry]" b1 w1] b1 f
      by (auto simp: e w1_def)
  qed
qed simp

text \<open>
  C13. A trigger batch, exactly. Every entry is acknowledged once and in order, failed, malformed and
  foreign ones too, so none is ever redelivered to this group; the batch decides every pair with a
  proper payload once, at its first trigger, in order, a pair that fails leaving the world alone; and
  the counters account for every entry.
\<close>

theorem poll_once_exact:
  "case poll_once cfg envs es w of (acks, b, w') \<Rightarrow>
     acks = map fst es \<and> w' = fold (decide_pair cfg envs) (first_pairs 0 {} es) w
     \<and> distinct (map snd (first_pairs 0 {} es))
     \<and> set (map snd (first_pairs 0 {} es)) = {(s, tf) | s tf i. (i, Some (s, tf)) \<in> set es \<and> s \<noteq> '''' \<and> tf \<noteq> ''''}
     \<and> br_processed b + br_errors b \<le> length (first_pairs 0 {} es)
     \<and> length es \<le> br_processed b + br_errors b + br_replayed b"
proof -
  obtain seen' b where p: "poll_entries cfg envs 0 es ({}, [], empty_batch, w) =
      (seen', map fst es, b, fold (decide_pair cfg envs) (first_pairs 0 {} es) w)"
    "handled b \<le> length (first_pairs 0 {} es)" "length es \<le> handled b + br_replayed b"
    using poll_entries_run [of cfg envs 0 es "{}" "[]" empty_batch w] by (auto simp: handled_def empty_batch_def)
  have "set (map snd (first_pairs 0 {} es)) = {(s, tf) | s tf i. (i, Some (s, tf)) \<in> set es \<and> s \<noteq> '''' \<and> tf \<noteq> ''''}"
    unfolding first_pairs_set by auto
  then show ?thesis using p first_pairs_distinct [of 0 "{}" es] by (simp add: poll_once_def handled_def)
qed

end
