(* ===== verification/Backtest.thy ===== *)
theory Backtest
  imports EngineRuns PaperBroker
begin

text \<open>
  The backtest (\<^verbatim>\<open>app/backtest/driver.py\<close>, \<^verbatim>\<open>orchestrator_sim.py\<close>, \<^verbatim>\<open>agent_runner.py\<close>, the aggregate
  figures of \<^verbatim>\<open>report.py\<close>): candles of each pair are replayed bar by bar through the pure decision
  path and a simulated broker. The candle provider, the agents and the hash of the cost model are
  parameters; \<^verbatim>\<open>AgentRunResult.computed\<close> and \<^verbatim>\<open>replayed\<close>, which nothing reads, are left out, and so are
  the Sharpe and Sortino ratios.
\<close>

section \<open>Configuration and results\<close>

record backtest_config =
  bc_start :: datetime
  bc_end :: datetime
  bc_symbols :: "string list"
  bc_timeframes :: "timeframe list"
  bc_seed :: int
  bc_start_equity :: f64
  bc_warmup_bars :: int
  bc_spread :: f64
  bc_slippage_pct :: f64
  bc_require_full_coverage :: bool

record coverage_report =
  cr_symbol :: string
  cr_timeframe :: timeframe
  cr_expected_bars :: int
  cr_technical :: int
  cr_regime :: int
  cr_fundamental :: int
  cr_sentiment :: int
  cr_degraded :: bool

section \<open>Agent runner\<close>

record frame_row =
  fw_index :: datetime
  fw_open :: f64
  fw_high :: f64
  fw_low :: f64
  fw_close :: f64
  fw_volume :: int

definition frame_of :: "candle list \<Rightarrow> frame_row list" where
  "frame_of cs = map (\<lambda>c. \<lparr>fw_index = cd_bucket_start c, fw_open = fl (cd_open c), fw_high = fl (cd_high c),
     fw_low = fl (cd_low c), fw_close = fl (cd_close c), fw_volume = cd_volume c\<rparr>) cs"

record prev_daily =
  pd_high :: f64
  pd_low :: f64
  pd_close :: f64

text \<open>\<^verbatim>\<open>AnalysisContext\<close> with the frame and the \<^verbatim>\<open>meta\<close> entries.\<close>

record bt_context = analysis_context +
  ctx_candles :: "frame_row list"
  ctx_prev_daily :: "prev_daily option"
  ctx_pip_size :: f64

type_synonym agents = "string \<Rightarrow> bt_context \<Rightarrow> py_error + agent_signal"

definition REPLAY_AGENTS :: "string list" where
  "REPLAY_AGENTS = [''fundamental'', ''sentiment'']"

definition registry_ids :: "string list" where
  "registry_ids = [''technical'', ''regime'', ''fundamental'', ''sentiment'']"

type_synonym replay_key = "string \<times> string \<times> timeframe \<times> datetime"

definition add_replayed :: "agent_signal list \<Rightarrow> (replay_key \<rightharpoonup> agent_signal) \<Rightarrow> replay_key \<rightharpoonup> agent_signal" where
  "add_replayed sigs m = foldl (\<lambda>m s. if sg_agent_id s \<in> set REPLAY_AGENTS
     then m((sg_agent_id s, upper (sg_symbol s), sg_timeframe s, sg_bucket_ts s) \<mapsto> s) else m) m sigs"

fun run_agents ::
  "agents \<Rightarrow> (replay_key \<rightharpoonup> agent_signal) \<Rightarrow> bt_context \<Rightarrow> string list \<Rightarrow> py_error + (string \<times> agent_signal) list" where
  "run_agents A replay ctx [] = Inr []"
| "run_agents A replay ctx (a # as) =
     (case (if a \<in> set REPLAY_AGENTS
            then Inr (replay (a, upper (ctx_symbol ctx), ctx_timeframe ctx, ctx_bucket_ts ctx))
            else (case A a ctx of Inl e \<Rightarrow> Inl e | Inr s \<Rightarrow> Inr (Some s))) of
        Inl e \<Rightarrow> Inl e
      | Inr found \<Rightarrow>
          (case run_agents A replay ctx as of Inl e \<Rightarrow> Inl e
           | Inr rest \<Rightarrow> Inr ((case found of None \<Rightarrow> [] | Some s \<Rightarrow> [(a, s)]) @ rest)))"

definition analyze ::
  "agents \<Rightarrow> (replay_key \<rightharpoonup> agent_signal) \<Rightarrow> string \<Rightarrow> timeframe \<Rightarrow> datetime \<Rightarrow> candle list \<Rightarrow> datetime
   \<Rightarrow> prev_daily option \<Rightarrow> f64 \<Rightarrow> py_error + (string \<times> agent_signal) list" where
  "analyze A replay symbol tf bucket_ts candles now prev pip =
     run_agents A replay \<lparr>ctx_symbol = symbol, ctx_timeframe = tf, ctx_bucket_ts = bucket_ts, ctx_now = now,
       ctx_run_id = ''bt|'' @ symbol @ ''|'' @ tf_name tf @ ''|'' @ isoformat bucket_ts,
       ctx_candles = frame_of candles, ctx_prev_daily = prev, ctx_pip_size = pip\<rparr> registry_ids"

section \<open>Simulated decisions\<close>

record recent_decision =
  rd_direction :: direction
  rd_confidence :: f64
  rd_valid_until :: datetime
  rd_bucket_ts :: datetime

definition sim_orch :: orch_params where
  "sim_orch = \<lparr>op_coverage_min = fl (1 / 2), op_agreement_min = fl (1 / 2), op_threshold = fl (15 / 100),
     op_hysteresis = fl (4 / 100), op_context_weight = fl (15 / 100), op_cooldown_seconds = 0, op_weights = []\<rparr>"

fun first_recent ::
  "string \<Rightarrow> timeframe list \<Rightarrow> datetime \<Rightarrow> (string \<times> timeframe \<rightharpoonup> recent_decision) \<Rightarrow> context_input option" where
  "first_recent symbol [] now recent = None"
| "first_recent symbol (tf # tfs) now recent =
     (case recent (symbol, tf) of
        None \<Rightarrow> first_recent symbol tfs now recent
      | Some r \<Rightarrow>
          if rd_valid_until r < now then first_recent symbol tfs now recent
          else if rd_direction r = FLAT \<or> rd_confidence r \<le> 0 then first_recent symbol tfs now recent
          else Some \<lparr>ci_direction = rd_direction r, ci_confidence = rd_confidence r, ci_weight = fl (15 / 100)\<rparr>)"

definition sim_parent_context ::
  "string \<Rightarrow> timeframe \<Rightarrow> timeframe list \<Rightarrow> datetime \<Rightarrow> (string \<times> timeframe \<rightharpoonup> recent_decision) \<Rightarrow> context_input option" where
  "sim_parent_context symbol tf configured now recent =
     first_recent symbol (drop 1 (dropWhile (\<lambda>t. t \<noteq> tf) (sort_key tf_rank configured))) now recent"

definition atr_of :: "agent_signal option \<Rightarrow> f64 option" where
  "atr_of technical = (case technical of None \<Rightarrow> None
     | Some s \<Rightarrow> Option.bind (json_get (sg_features s) ''atr14'') json_number)"

definition sim_decide ::
  "(json \<Rightarrow> string) \<Rightarrow> string \<Rightarrow> timeframe \<Rightarrow> datetime \<Rightarrow> datetime \<Rightarrow> (string \<times> agent_signal) list \<Rightarrow> f64
   \<Rightarrow> timeframe list \<Rightarrow> gate_state \<Rightarrow> risk_params \<Rightarrow> (string \<times> timeframe \<rightharpoonup> recent_decision)
   \<Rightarrow> py_error + decision_outcome \<times> (string \<times> timeframe \<rightharpoonup> recent_decision)" where
  "sim_decide R symbol tf bucket_ts now signals price configured gate risk recent =
     (let sigs = map_of signals;
          inputs = \<lparr>di_symbol = symbol, di_timeframe = tf, di_bucket_ts = bucket_ts, di_now = now, di_signals = sigs,
            di_regime = regime_label R (sigs ''regime''), di_atr = atr_of (sigs ''technical''), di_price = Some price,
            di_coverage = coverage_of sigs, di_gate = gate,
            di_parent_context = sim_parent_context symbol tf configured now recent\<rparr>
      in case compute_decision inputs sim_orch risk of
           Inl e \<Rightarrow> Inl e
         | Inr out \<Rightarrow> Inr (out,
             if oc_action out = PERSIST
             then recent((symbol, tf) \<mapsto> \<lparr>rd_direction = fr_direction (oc_fused out), rd_confidence = fr_confidence (oc_fused out),
                    rd_valid_until = bucket_ts + seconds_td (tf_seconds tf * 4), rd_bucket_ts = bucket_ts\<rparr>)
             else recent))"

section \<open>Driver state\<close>

record pending_fill =
  pf_close_existing :: bool
  pf_open_direction :: direction
  pf_units :: f64
  pf_stop_loss :: "f64 option"
  pf_take_profit :: "f64 option"

record agent_counts =
  n_technical :: int
  n_regime :: int
  n_fundamental :: int
  n_sentiment :: int

record driver =
  dv_broker :: paper_broker
  dv_recent :: "string \<times> timeframe \<rightharpoonup> recent_decision"
  dv_daily_loss :: "(string \<times> f64) list"
  dv_pending :: "string \<rightharpoonup> pending_fill"
  dv_equity_points :: "(datetime \<times> f64) list"
  dv_coverage :: "coverage_report list"
  dv_decisions :: nat
  dv_paper_intents :: nat
  dv_degraded_runs :: nat

text \<open>What one run is given: the configuration, the risk parameters, the candle provider, the agents
  with the replayed signals, the rendering of JSON values and the hash of the cost model.\<close>

record bt_env =
  be_cfg :: backtest_config
  be_risk :: risk_params
  be_candles :: "string \<Rightarrow> timeframe \<Rightarrow> datetime \<Rightarrow> datetime \<Rightarrow> candle list"
  be_agents :: agents
  be_replay :: "replay_key \<rightharpoonup> agent_signal"
  be_render :: "json \<Rightarrow> string"
  be_hash :: hash

definition init_driver :: "paper_broker \<Rightarrow> driver" where
  "init_driver b = \<lparr>dv_broker = b, dv_recent = Map.empty, dv_daily_loss = [], dv_pending = Map.empty,
     dv_equity_points = [], dv_coverage = [], dv_decisions = 0, dv_paper_intents = 0, dv_degraded_runs = 0\<rparr>"

definition LOOKBACK :: nat where
  "LOOKBACK = 320"

definition window :: "candle list \<Rightarrow> nat \<Rightarrow> candle list" where
  "window bars i = drop (i + 1 - LOOKBACK) (take (i + 1) bars)"

definition load_bars :: "bt_env \<Rightarrow> string \<Rightarrow> timeframe \<Rightarrow> candle list" where
  "load_bars env symbol tf =
     be_candles env symbol tf (align_to_bucket (bc_start (be_cfg env)) tf) (bc_end (be_cfg env))"

definition prev_daily_of :: "bt_env \<Rightarrow> string \<Rightarrow> datetime \<Rightarrow> prev_daily option" where
  "prev_daily_of env symbol bucket =
     (if D1 \<notin> set (bc_timeframes (be_cfg env)) then None
      else case rev (takeWhile (\<lambda>c. cd_bucket_start c + days_td 1 \<le> bucket) (load_bars env symbol D1)) of
             [] \<Rightarrow> None
           | c # _ \<Rightarrow> Some \<lparr>pd_high = fl (cd_high c), pd_low = fl (cd_low c), pd_close = fl (cd_close c)\<rparr>)"

definition pip_size_of :: "string \<Rightarrow> f64" where
  "pip_size_of symbol = (if drop (length symbol - 3) symbol = ''JPY'' then fl (1 / 100) else fl (1 / 10000))"

definition tally :: "(string \<times> agent_signal) list \<Rightarrow> agent_counts \<Rightarrow> agent_counts" where
  "tally signals c =
     (let add = (\<lambda>a n. if a \<in> fst ` set signals then n + 1 else n) in
      \<lparr>n_technical = add ''technical'' (n_technical c), n_regime = add ''regime'' (n_regime c),
       n_fundamental = add ''fundamental'' (n_fundamental c), n_sentiment = add ''sentiment'' (n_sentiment c)\<rparr>)"

definition append_coverage :: "bt_env \<Rightarrow> string \<Rightarrow> timeframe \<Rightarrow> candle list \<Rightarrow> agent_counts \<Rightarrow> driver \<Rightarrow> driver" where
  "append_coverage env symbol tf bars c st =
     (let expected = int (length bars) - bc_warmup_bars (be_cfg env);
          deg = (n_fundamental c < expected \<or> n_sentiment c < expected)
      in st\<lparr>dv_degraded_runs := dv_degraded_runs st + (if deg then 1 else 0),
            dv_coverage := dv_coverage st @ [\<lparr>cr_symbol = symbol, cr_timeframe = tf, cr_expected_bars = max 0 expected,
              cr_technical = n_technical c, cr_regime = n_regime c, cr_fundamental = n_fundamental c,
              cr_sentiment = n_sentiment c, cr_degraded = deg\<rparr>]\<rparr>)"

text \<open>\<^verbatim>\<open>_record_equity\<close>: a point at the time of the last one replaces it.\<close>

definition record_equity :: "datetime \<Rightarrow> f64 \<Rightarrow> (datetime \<times> f64) list \<Rightarrow> (datetime \<times> f64) list" where
  "record_equity ts e ps = (if ps \<noteq> [] \<and> fst (List.last ps) = ts then butlast ps @ [(ts, e)] else ps @ [(ts, e)])"

section \<open>Risk state\<close>

definition sync_daily_loss :: "paper_broker \<Rightarrow> (string \<times> f64) list" where
  "sync_daily_loss b = foldl (\<lambda>d t. dict_set (daily_key (t_exit_ts t))
     ((case map_of d (daily_key (t_exit_ts t)) of Some x \<Rightarrow> x | None \<Rightarrow> 0) + t_net_pnl t) d) [] (trades b)"

definition gate_of :: "bt_env \<Rightarrow> string \<Rightarrow> datetime \<Rightarrow> driver \<Rightarrow> py_error + gate_state \<times> driver" where
  "gate_of env symbol ts st =
     (let b = dv_broker st; start = bc_start_equity (be_cfg env);
          eq = (if total_equity b \<noteq> 0 then total_equity b else start) in
      if eq = 0 then Inl ZeroDivisionError
      else
        let losses = sync_daily_loss b;
            daily_loss = (case map_of losses (daily_key ts) of Some x \<Rightarrow> x | None \<Rightarrow> 0)
        in Inr (\<lparr>exposure_used_pct = total_notional (positions b) / eq,
                 correlation_used_pct = basket_notional (positions b) symbol / eq,
                 daily_loss_used_pct = (if start \<noteq> 0 then max 0 (- daily_loss) / start else 0),
                 drawdown_used_pct = max_drawdown_pct b,
                 gs_correlation_triggered = correlation_triggered (positions b) symbol\<rparr>,
                st\<lparr>dv_daily_loss := losses\<rparr>))"

section \<open>Fills\<close>

definition schedule_fill :: "string \<Rightarrow> nat \<Rightarrow> nat \<Rightarrow> decision_outcome \<Rightarrow> driver \<Rightarrow> driver" where
  "schedule_fill symbol total_bars i out st =
     (if total_bars \<le> i + 1 then st
      else
        let sizing = Option.bind (oc_risk out) ro_sizing;
            dir = fr_direction (oc_fused out);
            current = open_for (positions (dv_broker st)) symbol
        in if dir = FLAT then st
           else if (case current of Some p \<Rightarrow> p_side p = dir | None \<Rightarrow> False) then st
           else st\<lparr>dv_pending := (dv_pending st)(symbol \<mapsto>
                  \<lparr>pf_close_existing = (case current of Some p \<Rightarrow> p_side p \<noteq> dir | None \<Rightarrow> False),
                   pf_open_direction = dir,
                   pf_units = (case sizing of Some z \<Rightarrow> position_size_units z | None \<Rightarrow> 0),
                   pf_stop_loss = map_option sz_stop_loss sizing, pf_take_profit = map_option sz_take_profit sizing\<rparr>)\<rparr>)"

definition apply_fill :: "hash \<Rightarrow> string \<Rightarrow> timeframe \<Rightarrow> pending_fill \<Rightarrow> f64 \<Rightarrow> datetime \<Rightarrow> paper_broker \<Rightarrow> paper_broker" where
  "apply_fill H symbol fine act price ts b =
     (let b1 = (if pf_close_existing act then snd (close_on_signal H symbol price ts b) else b)
      in enter_at_next_open H symbol fine (pf_open_direction act) price ts (pf_stop_loss act) (pf_take_profit act)
           (Some (pf_units act)) b1)"

section \<open>Replay\<close>

definition analyze_bar :: "bt_env \<Rightarrow> string \<Rightarrow> timeframe \<Rightarrow> candle list \<Rightarrow> nat \<Rightarrow> datetime \<Rightarrow> py_error + (string \<times> agent_signal) list" where
  "analyze_bar env symbol tf bars i bucket =
     analyze (be_agents env) (be_replay env) symbol tf bucket (window bars i) bucket (prev_daily_of env symbol bucket)
       (pip_size_of symbol)"

definition decide_bar ::
  "bt_env \<Rightarrow> string \<Rightarrow> timeframe \<Rightarrow> datetime \<Rightarrow> (string \<times> agent_signal) list \<Rightarrow> f64 \<Rightarrow> gate_state \<Rightarrow> driver
   \<Rightarrow> py_error + decision_outcome \<times> driver" where
  "decide_bar env symbol tf bucket signals price gate st =
     (case sim_decide (be_render env) symbol tf bucket bucket signals price (bc_timeframes (be_cfg env)) gate (be_risk env)
             (dv_recent st) of
        Inl e \<Rightarrow> Inl e
      | Inr (out, recent) \<Rightarrow> Inr (out, st\<lparr>dv_recent := recent,
          dv_decisions := dv_decisions st + (if oc_action out = PERSIST then 1 else 0)\<rparr>))"

text \<open>One bar of \<open>_run_context_tf\<close>, the \<open>i\<close>-th.\<close>

definition context_bar :: "bt_env \<Rightarrow> string \<Rightarrow> timeframe \<Rightarrow> candle list \<Rightarrow> nat \<Rightarrow> driver \<Rightarrow> py_error + driver" where
  "context_bar env symbol tf bars i st =
     (let bucket = cd_bucket_start (bars ! i) in
      if int i < bc_warmup_bars (be_cfg env) then Inr st
      else case analyze_bar env symbol tf bars i bucket of
        Inl e \<Rightarrow> Inl e
      | Inr signals \<Rightarrow>
          if ''technical'' \<notin> fst ` set signals then Inr st
          else case decide_bar env symbol tf bucket signals (fl (cd_close (List.last (window bars i))))
                 \<lparr>exposure_used_pct = 0, correlation_used_pct = 0, daily_loss_used_pct = 0, drawdown_used_pct = 0,
                  gs_correlation_triggered = False\<rparr> st of
                 Inl e \<Rightarrow> Inl e | Inr (out, st1) \<Rightarrow> Inr st1)"

text \<open>The steps of \<open>_run_fine\<close> for the \<open>i\<close>-th bar: the fill at the open and the exit at the close, the
  decision, the mark.\<close>

definition open_bar :: "bt_env \<Rightarrow> string \<Rightarrow> timeframe \<Rightarrow> candle \<Rightarrow> driver \<Rightarrow> driver" where
  "open_bar env symbol fine c st =
     (let bucket = cd_bucket_start c;
          b = (case dv_pending st symbol of None \<Rightarrow> dv_broker st
               | Some act \<Rightarrow> apply_fill (be_hash env) symbol fine act (fl (cd_open c)) bucket (dv_broker st))
      in st\<lparr>dv_pending := (dv_pending st)(symbol := None),
            dv_broker := snd (evaluate_exit (be_hash env) symbol (fl (cd_close c)) bucket b)\<rparr>)"

definition decision_bar ::
  "bt_env \<Rightarrow> string \<Rightarrow> timeframe \<Rightarrow> candle list \<Rightarrow> nat \<Rightarrow> agent_counts \<times> driver \<Rightarrow> py_error + agent_counts \<times> driver" where
  "decision_bar env symbol fine bars i s =
     (case s of (counts, st) \<Rightarrow>
      let bucket = cd_bucket_start (bars ! i) in
      if int i < bc_warmup_bars (be_cfg env) then Inr (counts, st)
      else case analyze_bar env symbol fine bars i bucket of
        Inl e \<Rightarrow> Inl e
      | Inr signals \<Rightarrow>
          let counts1 = tally signals counts in
          if ''technical'' \<notin> fst ` set signals then Inr (counts1, st)
          else case gate_of env symbol bucket st of
            Inl e \<Rightarrow> Inl e
          | Inr (gate, st1) \<Rightarrow>
              (case decide_bar env symbol fine bucket signals (fl (cd_close (bars ! i))) gate st1 of
                 Inl e \<Rightarrow> Inl e
               | Inr (out, st2) \<Rightarrow>
                   Inr (counts1, if oc_action out = PERSIST \<and> oc_status out = Some PAPER
                     then schedule_fill symbol (length bars) i out (st2\<lparr>dv_paper_intents := dv_paper_intents st2 + 1\<rparr>)
                     else st2)))"

definition mark_bar :: "string \<Rightarrow> candle \<Rightarrow> driver \<Rightarrow> driver" where
  "mark_bar symbol c st =
     (let bucket = cd_bucket_start c;
          (state, b) = broker_snapshot bucket (mark_position symbol (fl (cd_close c)) (dv_broker st))
      in st\<lparr>dv_broker := b, dv_equity_points := record_equity bucket (bs_equity state) (dv_equity_points st)\<rparr>)"

definition fine_bar ::
  "bt_env \<Rightarrow> string \<Rightarrow> timeframe \<Rightarrow> candle list \<Rightarrow> nat \<Rightarrow> agent_counts \<times> driver \<Rightarrow> py_error + agent_counts \<times> driver" where
  "fine_bar env symbol fine bars i s =
     (case decision_bar env symbol fine bars i (fst s, open_bar env symbol fine (bars ! i) (snd s)) of
        Inl e \<Rightarrow> Inl e
      | Inr (counts, st) \<Rightarrow> Inr (counts, mark_bar symbol (bars ! i) st))"

text \<open>A loop that an exception ends.\<close>

fun each :: "('i \<Rightarrow> 's \<Rightarrow> py_error + 's) \<Rightarrow> 'i list \<Rightarrow> 's \<Rightarrow> py_error + 's" where
  "each f [] s = Inr s"
| "each f (i # is) s = (case f i s of Inl e \<Rightarrow> Inl e | Inr s' \<Rightarrow> each f is s')"

definition run_context_tf :: "bt_env \<Rightarrow> string \<Rightarrow> timeframe \<Rightarrow> driver \<Rightarrow> py_error + driver" where
  "run_context_tf env symbol tf st =
     (let bars = load_bars env symbol tf in each (context_bar env symbol tf bars) [0..<length bars] st)"

definition run_fine :: "bt_env \<Rightarrow> timeframe \<Rightarrow> string \<Rightarrow> driver \<Rightarrow> py_error + driver" where
  "run_fine env fine symbol st =
     (let bars = load_bars env symbol fine in
      if bars = [] then Inr st
      else case each (fine_bar env symbol fine bars) [0..<length bars]
                  (\<lparr>n_technical = 0, n_regime = 0, n_fundamental = 0, n_sentiment = 0\<rparr>, st) of
             Inl e \<Rightarrow> Inl e
           | Inr (counts, st') \<Rightarrow> Inr (append_coverage env symbol fine bars counts st'))"

text \<open>The smallest configured timeframe drives the fills, the larger ones only give context.\<close>

definition context_pairs :: "backtest_config \<Rightarrow> timeframe \<Rightarrow> (timeframe \<times> string) list" where
  "context_pairs cfg fine =
     List.product (filter (\<lambda>tf. tf \<noteq> fine) (rev (sort_key tf_rank (rev (bc_timeframes cfg))))) (bc_symbols cfg)"

definition run_context :: "bt_env \<Rightarrow> timeframe \<Rightarrow> driver \<Rightarrow> py_error + driver" where
  "run_context env fine st = each (\<lambda>(tf, s) st. run_context_tf env s tf st) (context_pairs (be_cfg env) fine) st"

definition run_driver :: "bt_env \<Rightarrow> paper_broker \<Rightarrow> py_error + driver" where
  "run_driver env b =
     (case sort_key tf_rank (bc_timeframes (be_cfg env)) of
        [] \<Rightarrow> Inl ValueError
      | fine # _ \<Rightarrow>
          (case run_context env fine (init_driver b) of
             Inl e \<Rightarrow> Inl e
           | Inr st \<Rightarrow> each (run_fine env fine) (bc_symbols (be_cfg env)) st))"

section \<open>Report\<close>

record run_metrics =
  rm_net_pnl :: f64
  rm_gross_pnl :: f64
  rm_total_costs :: f64
  rm_num_trades :: nat
  rm_win_rate :: f64
  rm_profit_factor :: f64
  rm_max_drawdown_pct :: f64
  rm_exposure_avg_pct :: f64
  rm_bars :: nat
  rm_degraded_runs :: nat
  rm_coverage :: "coverage_report list"

definition avg_exposure :: "trade list \<Rightarrow> f64 \<Rightarrow> f64" where
  "avg_exposure ts equity0 =
     (if ts = [] then 0 else if equity0 \<le> 0 then 0
      else py_sum (map (\<lambda>t. \<bar>t_entry_price t * t_units t\<bar>) ts) / fl (of_nat (length ts)) / equity0)"

text \<open>Without losses \<^verbatim>\<open>float("inf")\<close> becomes 0.\<close>

definition profit_factor :: "trade list \<Rightarrow> f64" where
  "profit_factor ts =
     (let positive = py_sum (map t_net_pnl (filter (\<lambda>t. 0 < t_net_pnl t) ts));
          negative = - py_sum (map t_net_pnl (filter (\<lambda>t. t_net_pnl t < 0) ts))
      in if negative \<noteq> 0 then positive / negative else 0)"

definition build_metrics ::
  "backtest_config \<Rightarrow> (datetime \<times> f64) list \<Rightarrow> trade list \<Rightarrow> f64 \<Rightarrow> nat \<Rightarrow> coverage_report list \<Rightarrow> run_metrics" where
  "build_metrics cfg points ts max_dd degraded coverage =
     (let equity0 = (case points of [] \<Rightarrow> bc_start_equity cfg | p # _ \<Rightarrow> snd p);
          equity1 = (if points = [] then equity0 else snd (List.last points));
          wins = filter (\<lambda>t. 0 < t_net_pnl t) ts
      in \<lparr>rm_net_pnl = round_nd (equity1 - equity0) 6, rm_gross_pnl = round_nd (foldl (\<lambda>s t. s + t_gross_pnl t) 0 ts) 6,
          rm_total_costs = round_nd (foldl (\<lambda>s t. s + t_costs t) 0 ts) 6, rm_num_trades = length ts,
          rm_win_rate = round_nd (if ts = [] then 0 else fl (of_nat (length wins)) / fl (of_nat (length ts))) 6,
          rm_profit_factor = profit_factor ts, rm_max_drawdown_pct = round_nd max_dd 8,
          rm_exposure_avg_pct = avg_exposure ts equity0, rm_bars = length points, rm_degraded_runs = degraded,
          rm_coverage = coverage\<rparr>)"

definition driver_metrics :: "backtest_config \<Rightarrow> driver \<Rightarrow> run_metrics" where
  "driver_metrics cfg st =
     build_metrics cfg (dv_equity_points st) (trades (dv_broker st)) (max_drawdown_pct (dv_broker st)) (dv_degraded_runs st)
       (dv_coverage st)"

end
