(* ===== verification/BacktestRuns.thy ===== *)
theory BacktestRuns
  imports Backtest
begin

text \<open>
  What a backtest run is worth: which times its equity curve has, which information each decision
  used, and what it does when no ATR reaches the decision path.
\<close>

section \<open>Loops\<close>

lemma each_append: "each f (xs @ ys) s = (case each f xs s of Inl e \<Rightarrow> Inl e | Inr s' \<Rightarrow> each f ys s')"
  by (induction xs arbitrary: s) (auto split: sum.splits)

lemma each_ConsD: "each f (i # is) s = Inr s' \<Longrightarrow> \<exists>s1. f i s = Inr s1 \<and> each f is s1 = Inr s'"
  by (cases "f i s") simp_all

lemma each_fold:
  assumes "\<And>i s s'. i \<in> set is \<Longrightarrow> f i s = Inr s' \<Longrightarrow> h s' = g i (h s)" "each f is s = Inr s'"
  shows "h s' = fold g is (h s)"
  using assms
proof (induction "is" arbitrary: s)
  case (Cons i "is")
  obtain s1 where s1: "f i s = Inr s1" "each f is s1 = Inr s'" using each_ConsD [OF Cons.prems(2)] by blast
  have "h s' = fold g is (h s1)" by (rule Cons.IH [OF _ s1(2)]) (use Cons.prems(1) in simp)
  then show ?case using Cons.prems(1) [OF _ s1(1)] by simp
qed simp

lemma each_invariant:
  assumes "\<And>i s s'. i \<in> set is \<Longrightarrow> P s \<Longrightarrow> f i s = Inr s' \<Longrightarrow> P s'" "each f is s = Inr s'" "P s"
  shows "P s'"
  using assms
proof (induction "is" arbitrary: s)
  case (Cons i "is")
  obtain s1 where s1: "f i s = Inr s1" "each f is s1 = Inr s'" using each_ConsD [OF Cons.prems(2)] by blast
  show ?case
  proof (rule Cons.IH [OF _ s1(2)])
    show "P s1" by (rule Cons.prems(1) [OF _ Cons.prems(3) s1(1)]) simp
    show "P t'" if "j \<in> set is" "P t" "f j t = Inr t'" for j t t' by (rule Cons.prems(1) [OF _ that(2,3)]) (simp add: that(1))
  qed
qed simp

lemma each_cong:
  "(\<And>i s. i \<in> set is \<Longrightarrow> f i s = g i s) \<Longrightarrow> each f is s = each g is s"
  by (induction "is" arbitrary: s) (auto split: sum.splits)

section \<open>What the steps of a bar change\<close>

definition same_book :: "driver \<Rightarrow> driver \<Rightarrow> bool" where
  "same_book a b = (dv_broker a = dv_broker b \<and> dv_equity_points a = dv_equity_points b \<and> dv_coverage a = dv_coverage b
     \<and> dv_degraded_runs a = dv_degraded_runs b)"

lemma same_bookD:
  "same_book a b \<Longrightarrow> dv_broker a = dv_broker b" "same_book a b \<Longrightarrow> dv_equity_points a = dv_equity_points b"
  "same_book a b \<Longrightarrow> dv_coverage a = dv_coverage b" "same_book a b \<Longrightarrow> dv_degraded_runs a = dv_degraded_runs b"
  by (simp_all add: same_book_def)

lemma gate_of_frame:
  "gate_of env symbol ts st = Inr (g, st') \<Longrightarrow> same_book st' st \<and> dv_recent st' = dv_recent st \<and> dv_pending st' = dv_pending st
    \<and> dv_paper_intents st' = dv_paper_intents st \<and> dv_decisions st' = dv_decisions st"
  by (auto simp: gate_of_def same_book_def Let_def split: if_splits)

lemma decide_bar_frame:
  assumes "decide_bar env symbol tf bucket signals price gate st = Inr (out, st')"
  shows "same_book st' st \<and> dv_pending st' = dv_pending st \<and> dv_paper_intents st' = dv_paper_intents st
    \<and> dv_decisions st' = dv_decisions st + (if oc_action out = PERSIST then 1 else 0)
    \<and> (\<forall>k. k \<noteq> (symbol, tf) \<longrightarrow> dv_recent st' k = dv_recent st k)"
proof -
  obtain recent where r: "sim_decide (be_render env) symbol tf bucket bucket signals price (bc_timeframes (be_cfg env)) gate
      (be_risk env) (dv_recent st) = Inr (out, recent)"
    "st' = st\<lparr>dv_recent := recent, dv_decisions := dv_decisions st + (if oc_action out = PERSIST then 1 else 0)\<rparr>"
    using assms unfolding decide_bar_def by (auto split: sum.splits prod.splits)
  have "\<forall>k. k \<noteq> (symbol, tf) \<longrightarrow> recent k = dv_recent st k"
    using r(1) unfolding sim_decide_def Let_def by (auto split: sum.splits if_splits)
  then show ?thesis using r(2) by (simp add: same_book_def)
qed

lemma schedule_fill_frame:
  "same_book (schedule_fill symbol n i out st) st" "dv_recent (schedule_fill symbol n i out st) = dv_recent st"
  "dv_paper_intents (schedule_fill symbol n i out st) = dv_paper_intents st"
  "dv_decisions (schedule_fill symbol n i out st) = dv_decisions st"
  by (simp_all add: schedule_fill_def same_book_def Let_def)

text \<open>The two ways a bar's decision step returns.\<close>

lemma decision_bar_cases:
  assumes "decision_bar env symbol fine bars i (c, st) = Inr (c', st')"
  obtains "st' = st"
  | signals g st1 out st2 where "\<not> int i < bc_warmup_bars (be_cfg env)"
      "analyze_bar env symbol fine bars i (cd_bucket_start (bars ! i)) = Inr signals" "''technical'' \<in> fst ` set signals"
      "gate_of env symbol (cd_bucket_start (bars ! i)) st = Inr (g, st1)"
      "decide_bar env symbol fine (cd_bucket_start (bars ! i)) signals (fl (cd_close (bars ! i))) g st1 = Inr (out, st2)"
      "st' = (if oc_action out = PERSIST \<and> oc_status out = Some PAPER
         then schedule_fill symbol (length bars) i out (st2\<lparr>dv_paper_intents := dv_paper_intents st2 + 1\<rparr>) else st2)"
proof (cases "int i < bc_warmup_bars (be_cfg env)")
  case True
  then show thesis using assms that(1) by (simp add: decision_bar_def Let_def)
next
  case False
  note warm = False
  let ?t = "cd_bucket_start (bars ! i)"
  obtain signals where sg: "analyze_bar env symbol fine bars i ?t = Inr signals"
    using assms warm by (cases "analyze_bar env symbol fine bars i ?t") (simp_all add: decision_bar_def Let_def)
  show thesis
  proof (cases "''technical'' \<in> fst ` set signals")
    case False
    then show thesis using assms warm sg that(1) by (simp add: decision_bar_def Let_def)
  next
    case True
    note tech = True
    obtain x where "gate_of env symbol ?t st = Inr x"
      using assms warm sg tech by (cases "gate_of env symbol ?t st") (simp_all add: decision_bar_def Let_def)
    moreover obtain g st1 where "x = (g, st1)" by fastforce
    ultimately have g: "gate_of env symbol ?t st = Inr (g, st1)" by simp
    obtain y where "decide_bar env symbol fine ?t signals (fl (cd_close (bars ! i))) g st1 = Inr y"
      using assms warm sg tech g
      by (cases "decide_bar env symbol fine ?t signals (fl (cd_close (bars ! i))) g st1") (simp_all add: decision_bar_def Let_def)
    moreover obtain out st2 where "y = (out, st2)" by fastforce
    ultimately have d: "decide_bar env symbol fine ?t signals (fl (cd_close (bars ! i))) g st1 = Inr (out, st2)" by simp
    show thesis
      by (rule that(2) [OF warm sg tech g d]) (use assms warm sg tech g d in \<open>simp add: decision_bar_def Let_def\<close>)
  qed
qed

lemma decision_bar_frame:
  assumes "decision_bar env symbol fine bars i (c, st) = Inr (c', st')"
  shows "same_book st' st" "k \<noteq> (symbol, fine) \<Longrightarrow> dv_recent st' k = dv_recent st k"
proof -
  have "same_book st' st \<and> (\<forall>k. k \<noteq> (symbol, fine) \<longrightarrow> dv_recent st' k = dv_recent st k)"
    using assms
  proof (cases rule: decision_bar_cases)
    case 1
    then show ?thesis by (simp add: same_book_def)
  next
    case (2 signals g st1 out st2)
    have "same_book st' st2 \<and> dv_recent st' = dv_recent st2"
    proof (cases "oc_action out = PERSIST \<and> oc_status out = Some PAPER")
      case True
      have "same_book (st2\<lparr>dv_paper_intents := n\<rparr>) st2" for n by (simp add: same_book_def)
      then show ?thesis using 2(6) True schedule_fill_frame(1,2) [of symbol "length bars" i out "st2\<lparr>dv_paper_intents := dv_paper_intents st2 + 1\<rparr>"]
        by (simp add: same_book_def)
    next
      case False
      then have "st' = st2" using 2(6) by argo
      then show ?thesis by (simp add: same_book_def)
    qed
    then show ?thesis using decide_bar_frame [OF 2(5)] gate_of_frame [OF 2(4)] by (simp add: same_book_def)
  qed
  then show "same_book st' st" "k \<noteq> (symbol, fine) \<Longrightarrow> dv_recent st' k = dv_recent st k" by blast+
qed

section \<open>The equity curve\<close>

definition add_stamp :: "datetime \<Rightarrow> datetime list \<Rightarrow> datetime list" where
  "add_stamp t ts = (if ts \<noteq> [] \<and> List.last ts = t then ts else ts @ [t])"

lemma record_equity_stamps: "map fst (record_equity t e ps) = add_stamp t (map fst ps)"
proof (cases ps rule: rev_cases)
  case (snoc qs q)
  then show ?thesis by (simp add: record_equity_def add_stamp_def)
qed (simp add: record_equity_def add_stamp_def)

lemma remdups_adj_snoc: "remdups_adj (xs @ [x]) = (if xs \<noteq> [] \<and> List.last xs = x then remdups_adj xs else remdups_adj xs @ [x])"
  by (induction xs rule: remdups_adj.induct) auto

lemma fold_add_stamp: "fold add_stamp ts (remdups_adj us) = remdups_adj (us @ ts)"
proof (induction ts arbitrary: us)
  case (Cons t ts)
  have "add_stamp t (remdups_adj us) = remdups_adj (us @ [t])"
    by (cases "us = []") (simp_all add: add_stamp_def remdups_adj_snoc last_remdups_adj)
  then show ?case using Cons.IH [of "us @ [t]"] by simp
qed simp

abbreviation stamps :: "driver \<Rightarrow> datetime list" where
  "stamps st \<equiv> map fst (dv_equity_points st)"

lemma fine_bar_stamps:
  assumes "fine_bar env symbol fine bars i (c, st) = Inr (c', st')"
  shows "stamps st' = add_stamp (cd_bucket_start (bars ! i)) (stamps st)"
proof -
  obtain st1 where d: "decision_bar env symbol fine bars i (c, open_bar env symbol fine (bars ! i) st) = Inr (c', st1)"
    "st' = mark_bar symbol (bars ! i) st1"
    using assms by (auto simp: fine_bar_def split: sum.splits prod.splits)
  have "dv_equity_points st1 = dv_equity_points st"
    using same_bookD(2) [OF decision_bar_frame(1) [OF d(1)]] by (simp add: open_bar_def Let_def)
  then show ?thesis by (simp add: d(2) mark_bar_def Let_def record_equity_stamps split: prod.splits)
qed

lemma map_nth_upt: "map (\<lambda>i. f (xs ! i)) [0..<length xs] = map f xs"
  by (rule nth_equalityI) simp_all

lemma run_fine_stamps:
  assumes "run_fine env fine symbol st = Inr st'"
  shows "stamps st' = fold add_stamp (map cd_bucket_start (load_bars env symbol fine)) (stamps st)"
proof (cases "load_bars env symbol fine = []")
  case False
  let ?bars = "load_bars env symbol fine"
  let ?c0 = "\<lparr>n_technical = 0, n_regime = 0, n_fundamental = 0, n_sentiment = 0\<rparr>"
  obtain c st1 where e: "each (fine_bar env symbol fine ?bars) [0..<length ?bars] (?c0, st) = Inr (c, st1)"
    "st' = append_coverage env symbol fine ?bars c st1"
    using assms False by (auto simp: run_fine_def Let_def split: sum.splits prod.splits)
  have "stamps (snd (c, st1)) = fold (\<lambda>i. add_stamp (cd_bucket_start (?bars ! i))) [0..<length ?bars] (stamps (snd (?c0, st)))"
    by (rule each_fold [OF _ e(1), where h = "\<lambda>s. stamps (snd s)"]) (auto dest: fine_bar_stamps)
  also have "\<dots> = fold add_stamp (map cd_bucket_start ?bars) (stamps st)"
  proof -
    have m: "map cd_bucket_start ?bars = map (\<lambda>i. cd_bucket_start (?bars ! i)) [0..<length ?bars]" by (rule map_nth_upt [symmetric])
    show ?thesis unfolding m fold_map snd_conv comp_def ..
  qed
  finally show ?thesis by (simp add: e(2) append_coverage_def Let_def)
qed (use assms in \<open>simp add: run_fine_def\<close>)

lemma context_bar_frame:
  assumes "context_bar env symbol tf bars i st = Inr st'"
  shows "same_book st' st \<and> dv_pending st' = dv_pending st \<and> dv_paper_intents st' = dv_paper_intents st
    \<and> (\<forall>k. k \<noteq> (symbol, tf) \<longrightarrow> dv_recent st' k = dv_recent st k)"
  using assms
  by (auto simp: context_bar_def Let_def same_book_def dest!: decide_bar_frame split: if_splits sum.splits prod.splits)

lemma run_context_frame:
  assumes "run_context env fine st = Inr st'"
  shows "same_book st' st \<and> dv_pending st' = dv_pending st \<and> dv_paper_intents st' = dv_paper_intents st"
proof -
  let ?P = "\<lambda>x. same_book x st \<and> dv_pending x = dv_pending st \<and> dv_paper_intents x = dv_paper_intents st"
  have bar: "?P y'" if "?P y" "context_bar env s tf bars i y = Inr y'" for s tf bars i y y'
    using that(1) context_bar_frame [OF that(2)] by (simp add: same_book_def)
  have tf: "?P y'" if "?P y" "run_context_tf env s tf y = Inr y'" for s tf y y'
    by (rule each_invariant [where P = ?P, OF _ that(2) [unfolded run_context_tf_def Let_def]]) (rule bar, assumption+, rule that(1))
  show ?thesis
  proof (rule each_invariant [where P = ?P, OF _ assms [unfolded run_context_def]])
    show "?P st" by (simp add: same_book_def)
    show "?P y'" if "x \<in> set (context_pairs (be_cfg env) fine)" "?P y" "(case x of (tf, s) \<Rightarrow> run_context_tf env s tf) y = Inr y'" for x y y'
      using tf [OF that(2)] that(3) by (cases x) simp
  qed
qed

lemma run_driver_phases:
  assumes "run_driver env b = Inr st"
  obtains fine tfs st1 where "sort_key tf_rank (bc_timeframes (be_cfg env)) = fine # tfs"
    "run_context env fine (init_driver b) = Inr st1" "each (run_fine env fine) (bc_symbols (be_cfg env)) st1 = Inr st"
  using assms by (auto simp: run_driver_def split: list.splits sum.splits)

lemma fold_concat_map: "fold (\<lambda>x. fold g (f x)) xs s = fold g (concat (map f xs)) s"
  by (induction xs arbitrary: s) simp_all

lemma not_sorted_append: "t \<in> set xs \<Longrightarrow> u \<in> set ys \<Longrightarrow> u < (t :: int) \<Longrightarrow> \<not> sorted (xs @ ys)"
  by (auto simp: sorted_append not_le intro!: bexI)

lemma sorted_remdups_adjD: "sorted (remdups_adj xs) \<Longrightarrow> sorted (xs :: int list)"
proof (induction xs rule: induct_list012)
  case (3 x y xs)
  have "x \<le> y \<and> sorted (remdups_adj (y # xs))"
  proof (cases "x = y")
    case True
    then have "remdups_adj (x # y # xs) = remdups_adj (y # xs)" by (simp only: remdups_adj.simps simp_thms if_True)
    then show ?thesis using 3(3) True by (simp only: order_refl simp_thms)
  next
    case False
    then have r: "remdups_adj (x # y # xs) = x # remdups_adj (y # xs)" by (simp only: remdups_adj.simps if_False)
    from 3(3) have a: "(\<forall>z\<in>set (y # xs). x \<le> z) \<and> sorted (remdups_adj (y # xs))"
      unfolding r sorted_simps remdups_adj_set .
    from bspec [OF conjunct1 [OF a] list.set_intros(1)] conjunct2 [OF a] show ?thesis ..
  qed
  with 3(2) show ?case unfolding sorted2 by blast
qed (simp_all only: sorted1 sorted0 remdups_adj.simps)

text \<open>
  The times of the equity curve, exactly: the bars of the first symbol, then those of the second, and
  so on, only directly repeated times merged. So with two symbols whose bars overlap the curve is not
  chronological: it jumps back to the start of the range, and the drawdown, the returns behind the
  Sharpe ratio and the risk state of the second symbol follow the whole history of the first.
\<close>

theorem equity_curve_times:
  assumes "run_driver env b = Inr st" "sort_key tf_rank (bc_timeframes (be_cfg env)) = fine # tfs"
  shows "map fst (dv_equity_points st)
      = remdups_adj (concat (map (\<lambda>s. map cd_bucket_start (load_bars env s fine)) (bc_symbols (be_cfg env))))
    \<and> (\<forall>i j c d. i < j \<and> j < length (bc_symbols (be_cfg env)) \<and> c \<in> set (load_bars env (bc_symbols (be_cfg env) ! i) fine)
        \<and> d \<in> set (load_bars env (bc_symbols (be_cfg env) ! j) fine) \<and> cd_bucket_start d < cd_bucket_start c
        \<longrightarrow> \<not> sorted (map fst (dv_equity_points st)))"
proof -
  obtain st1 where r: "run_context env fine (init_driver b) = Inr st1" "each (run_fine env fine) (bc_symbols (be_cfg env)) st1 = Inr st"
    using assms by (auto elim: run_driver_phases)
  let ?times = "\<lambda>s. map cd_bucket_start (load_bars env s fine)"
  let ?all = "concat (map ?times (bc_symbols (be_cfg env)))"
  have "stamps st1 = []" using run_context_frame [OF r(1)] by (simp add: same_book_def init_driver_def)
  moreover have "stamps st = fold (\<lambda>s. fold add_stamp (?times s)) (bc_symbols (be_cfg env)) (stamps st1)"
    by (rule each_fold [OF _ r(2), where h = stamps]) (rule run_fine_stamps)
  ultimately have e: "stamps st = remdups_adj ?all" using fold_add_stamp [of ?all "[]"] by (simp add: fold_concat_map)
  have "\<not> sorted (stamps st)"
    if "i < j" "j < length (bc_symbols (be_cfg env))" "t \<in> set (?times (bc_symbols (be_cfg env) ! i))"
      "u \<in> set (?times (bc_symbols (be_cfg env) ! j))" "u < t" for i j t u
  proof -
    let ?ss = "bc_symbols (be_cfg env)"
    have "?ss = take j ?ss @ ?ss ! j # drop (Suc j) ?ss" using that(2) by (rule id_take_nth_drop)
    then have split: "?all = concat (map ?times (take j ?ss)) @ concat (map ?times (?ss ! j # drop (Suc j) ?ss))"
      by (metis concat_append map_append)
    have "?ss ! i \<in> set (take j ?ss)" using that(1,2) by (auto simp: in_set_conv_nth)
    then have "t \<in> set (concat (map ?times (take j ?ss)))" using that(3) by auto
    moreover have "u \<in> set (concat (map ?times (?ss ! j # drop (Suc j) ?ss)))" using that(4) by simp
    ultimately have "\<not> sorted ?all" unfolding split using that(5) by (rule not_sorted_append)
    then show ?thesis using sorted_remdups_adjD [of ?all] unfolding e by blast
  qed
  note jump = this
  have "\<not> sorted (stamps st)"
    if "i < j \<and> j < length (bc_symbols (be_cfg env)) \<and> c \<in> set (load_bars env (bc_symbols (be_cfg env) ! i) fine)
        \<and> d \<in> set (load_bars env (bc_symbols (be_cfg env) ! j) fine) \<and> cd_bucket_start d < cd_bucket_start c" for i j c d
    using that by (intro jump [of i j "cd_bucket_start c" "cd_bucket_start d"]) simp_all
  with e show ?thesis by blast
qed

section \<open>No ATR, no trade\<close>

lemma run_agents_technical:
  assumes "run_agents A replay ctx as = Inr sigs" "map_of sigs ''technical'' = Some s"
  shows "\<exists>ctx. A ''technical'' ctx = Inr s"
  using assms
proof (induction "as" arbitrary: sigs)
  case (Cons a "as")
  obtain found rest where r: "run_agents A replay ctx as = Inr rest"
    "sigs = (case found of None \<Rightarrow> [] | Some s \<Rightarrow> [(a, s)]) @ rest"
    "found = (if a \<in> set REPLAY_AGENTS then replay (a, upper (ctx_symbol ctx), ctx_timeframe ctx, ctx_bucket_ts ctx)
       else (case A a ctx of Inl e \<Rightarrow> None | Inr s \<Rightarrow> Some s))"
    using Cons.prems(1) by (auto split: if_splits sum.splits)
  show ?case
  proof (cases "a = ''technical'' \<and> found \<noteq> None")
    case True
    then show ?thesis using Cons.prems(2) r by (auto simp: REPLAY_AGENTS_def split: sum.splits)
  next
    case False
    then have "map_of rest ''technical'' = Some s" using Cons.prems(2) r(2) by (cases found) auto
    then show ?thesis by (rule Cons.IH [OF r(1)])
  qed
qed simp

definition no_atr :: "bt_env \<Rightarrow> bool" where
  "no_atr env = (\<forall>ctx s. be_agents env ''technical'' ctx = Inr s \<longrightarrow> json_get (sg_features s) ''atr14'' = None)"

lemma no_atr_status:
  assumes "no_atr env" "analyze_bar env symbol fine bars i t = Inr signals"
    "decide_bar env symbol tf bucket signals price gate st = Inr (out, st')"
  shows "oc_status out \<noteq> Some PAPER"
proof
  assume p: "oc_status out = Some PAPER"
  have "atr_of (map_of signals ''technical'') = None"
  proof (cases "map_of signals ''technical''")
    case (Some s)
    then have "json_get (sg_features s) ''atr14'' = None"
      using run_agents_technical [of "be_agents env"] assms(1,2) unfolding analyze_bar_def analyze_def no_atr_def by blast
    then show ?thesis using Some by (simp add: atr_of_def)
  qed (simp add: atr_of_def)
  moreover obtain inp where "compute_decision inp sim_orch (be_risk env) = Inr out" "di_atr inp = atr_of (map_of signals ''technical'')"
    using assms(3) unfolding decide_bar_def sim_decide_def Let_def
    by (auto split: sum.splits prod.splits)
  ultimately show False using compute_paperD [OF _ p] by fastforce
qed

definition idle :: "f64 \<Rightarrow> driver \<Rightarrow> bool" where
  "idle e st = (dv_pending st = Map.empty \<and> positions (dv_broker st) = [] \<and> trades (dv_broker st) = []
     \<and> cash (dv_broker st) = e \<and> dv_paper_intents st = 0 \<and> (\<forall>p\<in>set (dv_equity_points st). snd p = e))"

lemma idle_open: "idle e st \<Longrightarrow> idle e (open_bar env symbol fine c st)"
  by (auto simp: idle_def open_bar_def evaluate_exit_def open_for_def Let_def)

lemma idle_mark: "idle e st \<Longrightarrow> idle e (mark_bar symbol c st)"
  by (auto simp: idle_def mark_bar_def broker_snapshot_def mark_position_def total_equity_def record_equity_def Let_def
      dest: in_set_butlastD split: prod.splits if_splits)

lemma idle_decision:
  assumes "no_atr env" "idle e st" "decision_bar env symbol fine bars i (c, st) = Inr (c', st')"
  shows "idle e st'"
  using assms(3)
proof (cases rule: decision_bar_cases)
  case (2 signals g st1 out st2)
  then have "st' = st2" using no_atr_status [OF assms(1) 2(2,5)] by simp
  then show ?thesis using assms(2) decide_bar_frame [OF 2(5)] gate_of_frame [OF 2(4)] by (simp add: idle_def same_book_def)
qed (use assms(2) in simp)

lemma idle_run_fine:
  assumes "no_atr env" "idle e st" "run_fine env fine symbol st = Inr st'"
  shows "idle e st'"
proof (cases "load_bars env symbol fine = []")
  case False
  let ?bars = "load_bars env symbol fine"
  let ?c0 = "\<lparr>n_technical = 0, n_regime = 0, n_fundamental = 0, n_sentiment = 0\<rparr>"
  obtain c st1 where e: "each (fine_bar env symbol fine ?bars) [0..<length ?bars] (?c0, st) = Inr (c, st1)"
    "st' = append_coverage env symbol fine ?bars c st1"
    using assms(3) False by (auto simp: run_fine_def Let_def split: sum.splits prod.splits)
  have step: "idle e (snd s')" if pre: "idle e (snd s)" and bar: "fine_bar env symbol fine ?bars i s = Inr s'" for i s s'
  proof -
    obtain c1 st2 where d: "decision_bar env symbol fine ?bars i (fst s, open_bar env symbol fine (?bars ! i) (snd s)) = Inr (c1, st2)"
      "s' = (c1, mark_bar symbol (?bars ! i) st2)"
      using bar by (auto simp: fine_bar_def split: sum.splits prod.splits)
    show ?thesis using idle_mark [OF idle_decision [OF assms(1) idle_open [OF pre] d(1)]] by (simp add: d(2))
  qed
  have "idle e (snd (c, st1))"
    by (rule each_invariant [where P = "\<lambda>s. idle e (snd s)", OF _ e(1)]) (use step assms(2) in auto)
  then show ?thesis by (simp add: e(2) append_coverage_def Let_def idle_def)
qed (use assms in \<open>simp add: run_fine_def\<close>)

text \<open>
  A backtest whose technical signals have no top-level \<^verbatim>\<open>atr14\<close> (the shipped agent writes it under
  \<^verbatim>\<open>indicators\<close>) never trades: whatever the candles, configuration and risk parameters, there is no
  paper intent and no trade, and every point of the equity curve is the starting cash.
\<close>

theorem backtest_without_atr:
  assumes "no_atr env" "run_driver env (init_broker e seed0 costs) = Inr st"
  shows "dv_paper_intents st = 0 \<and> trades (dv_broker st) = [] \<and> positions (dv_broker st) = []
    \<and> (\<forall>p\<in>set (dv_equity_points st). snd p = e) \<and> rm_num_trades (driver_metrics (be_cfg env) st) = 0"
proof -
  obtain fine tfs st1 where r: "run_context env fine (init_driver (init_broker e seed0 costs)) = Inr st1"
    "each (run_fine env fine) (bc_symbols (be_cfg env)) st1 = Inr st"
    using assms(2) by (elim run_driver_phases)
  have "idle e st1" using run_context_frame [OF r(1)] by (simp add: idle_def same_book_def init_driver_def init_broker_def)
  then have "idle e st" by (rule each_invariant [OF _ r(2), where P = "idle e", rotated]) (rule idle_run_fine [OF assms(1)])
  then show ?thesis by (simp add: idle_def driver_metrics_def build_metrics_def Let_def)
qed

section \<open>What a decision knows\<close>

lemma window_prefix: "i < n \<Longrightarrow> take n bars = take n bars' \<Longrightarrow> window bars i = window bars' i"
proof -
  assume "i < n" "take n bars = take n bars'"
  then have "take (i + 1) bars = take (i + 1) bars'" by (metis Suc_eq_plus1 Suc_leI min.absorb1 take_take)
  then show ?thesis by (simp add: window_def)
qed

lemma schedule_fill_length: "i + 1 < n \<Longrightarrow> i + 1 < m \<Longrightarrow> schedule_fill symbol n i out st = schedule_fill symbol m i out st"
  by (simp add: schedule_fill_def)

text \<open>
  C14. Within the traded timeframe a backtest never looks ahead: the whole state after the first \<open>n\<close> bars
  (book, pending fill, equity curve, counters) is a function of those bars. Replacing every later bar
  of the series, and every candle of the other series as long as the daily bars already closed by
  then are the same, changes nothing.
\<close>

theorem backtest_causal:
  assumes "n < length bars" "n < length bars'" "take n bars' = take n bars"
    "\<forall>i<n. prev_daily_of (env\<lparr>be_candles := P\<rparr>) symbol (cd_bucket_start (bars ! i)) = prev_daily_of env symbol (cd_bucket_start (bars ! i))"
  shows "each (fine_bar (env\<lparr>be_candles := P\<rparr>) symbol fine bars') [0..<n] s = each (fine_bar env symbol fine bars) [0..<n] s"
proof (rule each_cong)
  fix i s assume "i \<in> set [0..<n]"
  then have i: "i < n" "i + 1 < length bars" "i + 1 < length bars'" using assms(1,2) by auto
  let ?e = "env\<lparr>be_candles := P\<rparr>"
  have b: "bars' ! i = bars ! i" using assms(3) i(1) by (metis nth_take)
  have a: "analyze_bar ?e symbol fine bars' i t = analyze_bar env symbol fine bars i t" if "t = cd_bucket_start (bars ! i)" for t
    using window_prefix [OF i(1) assms(3)] assms(4) i(1) that by (simp add: analyze_bar_def)
  have g: "gate_of ?e symbol t st = gate_of env symbol t st" "decide_bar ?e symbol fine t sg px g st = decide_bar env symbol fine t sg px g st"
    "open_bar ?e symbol fine c st = open_bar env symbol fine c st" for t st sg px g c
    by (simp_all add: gate_of_def decide_bar_def open_bar_def cong: option.case_cong)
  have f: "schedule_fill symbol (length bars') i out st = schedule_fill symbol (length bars) i out st" for out st
    using i by (intro schedule_fill_length) simp_all
  have "decision_bar ?e symbol fine bars' i x = decision_bar env symbol fine bars i x" for x
    by (cases x) (simp add: decision_bar_def Let_def b a g f cong: sum.case_cong prod.case_cong if_cong)
  then show "fine_bar ?e symbol fine bars' i s = fine_bar env symbol fine bars i s"
    by (simp add: fine_bar_def b g cong: sum.case_cong prod.case_cong)
qed

lemma fine_bar_recent:
  assumes "fine_bar env symbol fine bars i x = Inr y" "tf \<noteq> fine"
  shows "dv_recent (snd y) (s, tf) = dv_recent (snd x) (s, tf)"
proof -
  obtain c st where d: "decision_bar env symbol fine bars i (fst x, open_bar env symbol fine (bars ! i) (snd x)) = Inr (c, st)"
    "y = (c, mark_bar symbol (bars ! i) st)"
    using assms(1) by (auto simp: fine_bar_def split: sum.splits prod.splits)
  show ?thesis using decision_bar_frame(2) [OF d(1), of "(s, tf)"] assms(2)
    by (simp add: d(2) mark_bar_def open_bar_def Let_def split: prod.splits)
qed

lemma run_fine_recent:
  assumes "run_fine env fine symbol st = Inr st'" "tf \<noteq> fine"
  shows "dv_recent st' (s, tf) = dv_recent st (s, tf)"
proof (cases "load_bars env symbol fine = []")
  case False
  let ?bars = "load_bars env symbol fine"
  let ?c0 = "\<lparr>n_technical = 0, n_regime = 0, n_fundamental = 0, n_sentiment = 0\<rparr>"
  obtain c st1 where e: "each (fine_bar env symbol fine ?bars) [0..<length ?bars] (?c0, st) = Inr (c, st1)"
    "st' = append_coverage env symbol fine ?bars c st1"
    using assms(1) False by (auto simp: run_fine_def Let_def split: sum.splits prod.splits)
  have "dv_recent (snd (c, st1)) (s, tf) = dv_recent st (s, tf)"
    by (rule each_invariant [where P = "\<lambda>x. dv_recent (snd x) (s, tf) = dv_recent st (s, tf)", OF _ e(1)])
      (use fine_bar_recent [OF _ assms(2)] in auto)
  then show ?thesis by (simp add: e(2) append_coverage_def Let_def)
qed (use assms in \<open>simp add: run_fine_def\<close>)

lemma first_recent_cong:
  "(\<forall>tf\<in>set tfs. recent (s, tf) = recent' (s, tf)) \<Longrightarrow> first_recent s tfs now recent = first_recent s tfs now recent'"
  by (induction tfs) (auto split: option.split)

text \<open>
  The context of the larger timeframes does look ahead. Their whole range is decided before the first
  fine bar, and only the last decision of each is kept; so at every bar of the traded timeframe, of
  every symbol, the parent context is the one computed from those final decisions. A final decision
  of the next larger timeframe that has a direction is the context of every earlier bar, however long
  before its own bucket: the driver's \<^verbatim>\<open>no look-ahead\<close> does not hold for the context.
\<close>

theorem backtest_context_looks_ahead:
  assumes "sort_key tf_rank (bc_timeframes (be_cfg env)) = fine # tf # rest" "distinct (bc_timeframes (be_cfg env))"
    "run_context env fine (init_driver b) = Inr st1" "each (run_fine env fine) before st1 = Inr st2"
    "each (fine_bar env s fine bars) [0..<k] (c0, st2) = Inr (c, st3)"
  shows "sim_parent_context s fine (bc_timeframes (be_cfg env)) now (dv_recent st3)
      = sim_parent_context s fine (bc_timeframes (be_cfg env)) now (dv_recent st1)
    \<and> (\<forall>rd. dv_recent st1 (s, tf) = Some rd \<and> rd_direction rd \<noteq> FLAT \<and> 0 < rd_confidence rd \<and> now \<le> rd_valid_until rd \<longrightarrow>
        sim_parent_context s fine (bc_timeframes (be_cfg env)) now (dv_recent st3)
          = Some \<lparr>ci_direction = rd_direction rd, ci_confidence = rd_confidence rd, ci_weight = fl (15 / 100)\<rparr>)"
proof -
  have "distinct (sort_key tf_rank (bc_timeframes (be_cfg env)))" using assms(2) by simp
  then have f: "fine \<notin> set (tf # rest)" unfolding assms(1) by simp
  have p: "sim_parent_context s fine (bc_timeframes (be_cfg env)) now r = first_recent s (tf # rest) now r" for r
    by (simp add: sim_parent_context_def assms(1))
  have k2: "dv_recent st2 (s, t) = dv_recent st1 (s, t)" if "t \<noteq> fine" for t
    by (rule each_invariant [where P = "\<lambda>x. dv_recent x (s, t) = dv_recent st1 (s, t)", OF _ assms(4) refl])
      (use run_fine_recent that in auto)
  have "dv_recent (snd (c, st3)) (s, t) = dv_recent st2 (s, t)" if "t \<noteq> fine" for t
    by (rule each_invariant [where P = "\<lambda>x. dv_recent (snd x) (s, t) = dv_recent st2 (s, t)", OF _ assms(5)])
      (use fine_bar_recent that in auto)
  with k2 have k3: "dv_recent st3 (s, t) = dv_recent st1 (s, t)" if "t \<noteq> fine" for t using that by simp
  have "first_recent s (tf # rest) now (dv_recent st3) = first_recent s (tf # rest) now (dv_recent st1)"
    by (intro first_recent_cong ballI k3) (use f in auto)
  then show ?thesis unfolding p by (auto simp: not_le not_less)
qed

section \<open>A run\<close>

definition bt_candle :: "datetime \<Rightarrow> candle" where
  "bt_candle ts = \<lparr>cd_symbol = ''EURUSD'', cd_timeframe = H1, cd_bucket_start = ts, cd_open = 1, cd_high = 1, cd_low = 1,
     cd_close = 1, cd_volume = 0, cd_complete = True\<rparr>"

definition bt_signal :: "string \<Rightarrow> agent_signal" where
  "bt_signal a = \<lparr>sg_agent_id = a, sg_version = ''2'', sg_symbol = ''EURUSD'', sg_timeframe = H1, sg_direction = LONG,
     sg_confidence = 1, sg_bucket_ts = 0, sg_rationale = '''', sg_features = [], sg_created_at = 0, sg_valid_until = 0,
     sg_run_id = ''''\<rparr>"

text \<open>One H1 bar at midnight and one H4 bar four hours later, for each of the given symbols.\<close>

definition bt_example :: "string list \<Rightarrow> bt_env" where
  "bt_example symbols =
     \<lparr>be_cfg = \<lparr>bc_start = 0, bc_end = days_td 1, bc_symbols = symbols, bc_timeframes = [H1, H4], bc_seed = 0,
        bc_start_equity = fl 100000, bc_warmup_bars = 0, bc_spread = 0, bc_slippage_pct = 0, bc_require_full_coverage = True\<rparr>,
      be_risk = default_risk_params,
      be_candles = (\<lambda>s tf start end. if tf = H4 then [bt_candle 14400000000] else [bt_candle 0, bt_candle 3600000000]),
      be_agents = (\<lambda>a ctx. Inr (bt_signal a)), be_replay = Map.empty, be_render = (\<lambda>_. ''''), be_hash = (\<lambda>_. 0)\<rparr>"

lemma sim_orch_decides: "compute_decision inp sim_orch risk = compute_decision inp shipped_orch risk"
proof -
  have e: "sim_orch = shipped_orch\<lparr>op_cooldown_seconds := 0\<rparr>" by (simp add: sim_orch_def shipped_orch_def)
  show ?thesis unfolding e by (simp add: compute_decision_def fusion_params_of_def Let_def cong: sum.case_cong if_cong)
qed

lemma example_analyze:
  "analyze_bar (bt_example ss) symbol tf bars i t = Inr [(''technical'', bt_signal ''technical''), (''regime'', bt_signal ''regime'')]"
  by (simp add: analyze_bar_def analyze_def bt_example_def registry_ids_def REPLAY_AGENTS_def)

lemma example_sim_decide:
  "\<exists>out. sim_decide R ''EURUSD'' tf t t [(''technical'', bt_signal ''technical''), (''regime'', bt_signal ''regime'')] 1
      [H1, H4] idle_gate default_risk_params Map.empty = Inr (out, [(''EURUSD'', tf) \<mapsto>
        \<lparr>rd_direction = LONG, rd_confidence = 1, rd_valid_until = t + seconds_td (tf_seconds tf * 4), rd_bucket_ts = t\<rparr>])"
proof -
  let ?sigs = "map_of [(''technical'', bt_signal ''technical''), (''regime'', bt_signal ''regime'')]"
  define inp where "inp = \<lparr>di_symbol = ''EURUSD'', di_timeframe = tf, di_bucket_ts = t, di_now = t, di_signals = ?sigs,
     di_regime = regime_label R (?sigs ''regime''), di_atr = atr_of (?sigs ''technical''), di_price = Some 1,
     di_coverage = coverage_of ?sigs, di_gate = idle_gate,
     di_parent_context = sim_parent_context ''EURUSD'' tf [H1, H4] t Map.empty\<rparr>"
  have none: "first_recent s tfs t Map.empty = None" for s tfs by (induction tfs) simp_all
  have h: "fl (1 / 2) \<le> fl 2 / fl 4" by code_simp
  have one: "one_vote_inputs inp" using h
    by (simp add: inp_def one_vote_inputs_def votes_of_def DIRECTIONAL_AGENTS_def map_filter_simps bt_signal_def sign_of_def
        signed_def not_le regime_label_def json_get_def coverage_of_def AGENT_FAMILIES_def sim_parent_context_def none)
  obtain out where o: "compute_decision inp shipped_orch default_risk_params = Inr out" "oc_action out = PERSIST"
    using one_vote_decision [OF one] by blast
  have "oc_fused out = long_fused"
    using o by (auto simp: compute_decision_eq fused_one_vote [OF one] skip_outcome_def Let_def split: if_splits)
  then show ?thesis using o unfolding sim_decide_def Let_def sim_orch_decides inp_def [symmetric] by (simp add: long_fused_def)
qed

lemma example_context:
  "\<exists>st1. run_context (bt_example [''EURUSD'']) H1 (init_driver b) = Inr st1
    \<and> dv_recent st1 (''EURUSD'', H4) = Some \<lparr>rd_direction = LONG, rd_confidence = 1, rd_valid_until = 72000000000,
        rd_bucket_ts = 14400000000\<rparr>"
proof -
  let ?e = "bt_example [''EURUSD'']"
  have p: "context_pairs (be_cfg ?e) H1 = [(H4, ''EURUSD'')]" by (simp add: context_pairs_def bt_example_def)
  have l: "load_bars ?e ''EURUSD'' H4 = [bt_candle 14400000000]" by (simp add: load_bars_def bt_example_def)
  have w: "window [bt_candle 14400000000] 0 = [bt_candle 14400000000]" by (simp add: window_def LOOKBACK_def)
  have c: "bc_warmup_bars (be_cfg ?e) = 0" "bc_timeframes (be_cfg ?e) = [H1, H4]" "be_risk ?e = default_risk_params"
    by (simp_all add: bt_example_def)
  have k: "cd_bucket_start (bt_candle t) = t" "fl (cd_close (bt_candle t)) = 1" for t by (simp_all add: bt_candle_def)
  have i: "dv_recent (init_driver b) = Map.empty" by (simp add: init_driver_def)
  obtain out where o: "sim_decide (be_render ?e) ''EURUSD'' H4 14400000000 14400000000
      [(''technical'', bt_signal ''technical''), (''regime'', bt_signal ''regime'')] 1 [H1, H4] idle_gate default_risk_params Map.empty
      = Inr (out, [(''EURUSD'', H4) \<mapsto> \<lparr>rd_direction = LONG, rd_confidence = 1,
          rd_valid_until = 14400000000 + seconds_td (tf_seconds H4 * 4), rd_bucket_ts = 14400000000\<rparr>])"
    using example_sim_decide by blast
  show ?thesis
    using o by (simp add: run_context_def p run_context_tf_def l context_bar_def c k w i example_analyze decide_bar_def Let_def
        idle_gate_def [symmetric] seconds_td_def)
qed

theorem backtest_context_looks_ahead_witness:
  "\<exists>st1. run_context (bt_example [''EURUSD'']) H1 (init_driver (init_broker (fl 100000) 0 None)) = Inr st1
    \<and> (\<exists>rd. dv_recent st1 (''EURUSD'', H4) = Some rd \<and> 0 < rd_bucket_ts rd)
    \<and> sim_parent_context ''EURUSD'' H1 [H1, H4] 0 (dv_recent st1)
        = Some \<lparr>ci_direction = LONG, ci_confidence = 1, ci_weight = fl (15 / 100)\<rparr>"
proof -
  let ?e = "bt_example [''EURUSD'']"
  obtain st1 where r: "run_context ?e H1 (init_driver (init_broker (fl 100000) 0 None)) = Inr st1"
    "dv_recent st1 (''EURUSD'', H4) = Some \<lparr>rd_direction = LONG, rd_confidence = 1, rd_valid_until = 72000000000, rd_bucket_ts = 14400000000\<rparr>"
    using example_context by blast
  have t: "bc_timeframes (be_cfg ?e) = [H1, H4]" by (simp add: bt_example_def)
  have s: "sort_key tf_rank (bc_timeframes (be_cfg ?e)) = H1 # H4 # []" by (simp add: t)
  have d: "distinct (bc_timeframes (be_cfg ?e))" by (simp add: t)
  have b: "each (run_fine ?e H1) [] st1 = Inr st1" by simp
  have f: "each (fine_bar ?e ''EURUSD'' H1 []) [0..<0] (c0, st1) = Inr (c0, st1)" for c0 by simp
  from backtest_context_looks_ahead [OF s d r(1) b f, of 0] r show ?thesis by (auto simp: t)
qed

lemma each_total:
  assumes "\<And>i s. i \<in> set xs \<Longrightarrow> P s \<Longrightarrow> \<exists>s'. f i s = Inr s' \<and> P s'" "P s"
  shows "\<exists>s'. each f xs s = Inr s' \<and> P s'"
  using assms
proof (induction xs arbitrary: s)
  case (Cons i xs)
  obtain s1 where s1: "f i s = Inr s1" "P s1" using Cons.prems(1) [of i s] Cons.prems(2) by auto
  have "\<exists>s'. each f xs s1 = Inr s' \<and> P s'"
    by (rule Cons.IH [OF _ s1(2)]) (rule Cons.prems(1), simp_all)
  then show ?case using s1(1) by simp
qed simp

lemma compute_decision_total:
  "fuse (di_signals inp) (di_regime inp) (Some (fusion_params_of orch)) = Inr f \<Longrightarrow> \<exists>out. compute_decision inp orch risk = Inr out"
  by (simp add: compute_decision_eq fused_input_def)

lemma example_sim_total:
  "\<exists>out r. sim_decide R s tf t t [(''technical'', bt_signal ''technical''), (''regime'', bt_signal ''regime'')] px cs g risk recent
     = Inr (out, r)"
proof -
  let ?sigs = "map_of [(''technical'', bt_signal ''technical''), (''regime'', bt_signal ''regime'')]"
  have v: "votes_of ?sigs = [(''technical'', 1)]"
    by (simp add: votes_of_def DIRECTIONAL_AGENTS_def map_filter_simps bt_signal_def sign_of_def signed_def not_le)
  have f: "fuse ?sigs ''unknown'' (Some (fusion_params_of sim_orch)) = Inr long_fused"
    using fuse_one_vote [OF v, of "fl (4 / 100)"]
    by (simp add: fusion_params_of_def sim_orch_def shipped_fusion_def)
  define inp where "inp = \<lparr>di_symbol = s, di_timeframe = tf, di_bucket_ts = t, di_now = t, di_signals = ?sigs,
     di_regime = regime_label R (?sigs ''regime''), di_atr = atr_of (?sigs ''technical''), di_price = Some px,
     di_coverage = coverage_of ?sigs, di_gate = g, di_parent_context = sim_parent_context s tf cs t recent\<rparr>"
  have "regime_label R (?sigs ''regime'') = ''unknown''" by (simp add: regime_label_def bt_signal_def json_get_def)
  then have "fuse (di_signals inp) (di_regime inp) (Some (fusion_params_of sim_orch)) = Inr long_fused"
    using f unfolding inp_def by (simp only: decision_inputs.simps)
  then obtain out where "compute_decision inp sim_orch risk = Inr out" using compute_decision_total by blast
  then show ?thesis unfolding sim_decide_def Let_def inp_def [symmetric] by (simp only: sum.case) blast
qed

lemma example_no_atr: "no_atr (bt_example ss)"
  by (auto simp: no_atr_def bt_example_def bt_signal_def json_get_def)

lemma example_fine_bar:
  assumes "idle (fl 100000) (snd x)"
  shows "\<exists>y. fine_bar (bt_example ss) s H1 bars i x = Inr y \<and> idle (fl 100000) (snd y)"
proof -
  let ?e = "bt_example ss"
  let ?st = "open_bar ?e s H1 (bars ! i) (snd x)"
  let ?t = "cd_bucket_start (bars ! i)"
  have o: "idle (fl 100000) ?st" by (rule idle_open [OF assms])
  have "fl 100000 \<noteq> 0" by code_simp
  then have "total_equity (dv_broker ?st) \<noteq> 0" using o by (simp add: idle_def total_equity_def)
  then obtain g st1 where g: "gate_of ?e s ?t ?st = Inr (g, st1)" by (auto simp: gate_of_def Let_def)
  obtain out r where "sim_decide (be_render ?e) s H1 ?t ?t [(''technical'', bt_signal ''technical''), (''regime'', bt_signal ''regime'')]
      (fl (cd_close (bars ! i))) (bc_timeframes (be_cfg ?e)) g (be_risk ?e) (dv_recent st1) = Inr (out, r)"
    using example_sim_total by blast
  then obtain st2 where d: "decide_bar ?e s H1 ?t [(''technical'', bt_signal ''technical''), (''regime'', bt_signal ''regime'')]
      (fl (cd_close (bars ! i))) g st1 = Inr (out, st2)" by (simp add: decide_bar_def)
  have w: "bc_warmup_bars (be_cfg ?e) = 0" by (simp add: bt_example_def)
  obtain z where z: "decision_bar ?e s H1 bars i (fst x, ?st) = Inr z"
    by (simp add: decision_bar_def Let_def example_analyze w g d)
  obtain c st3 where c: "z = (c, st3)" by fastforce
  have "idle (fl 100000) (mark_bar s (bars ! i) st3)"
    using idle_mark [OF idle_decision [OF example_no_atr o z [unfolded c]]] .
  then show ?thesis by (simp add: fine_bar_def z c)
qed

lemma example_run_fine:
  assumes "idle (fl 100000) st"
  shows "\<exists>st'. run_fine (bt_example ss) H1 s st = Inr st' \<and> idle (fl 100000) st'"
proof -
  let ?e = "bt_example ss" and ?bars = "load_bars (bt_example ss) s H1"
  let ?c0 = "\<lparr>n_technical = 0, n_regime = 0, n_fundamental = 0, n_sentiment = 0\<rparr>"
  obtain y where y: "each (fine_bar ?e s H1 ?bars) [0..<length ?bars] (?c0, st) = Inr y" "idle (fl 100000) (snd y)"
    using each_total [where P = "\<lambda>x. idle (fl 100000) (snd x)" and f = "fine_bar ?e s H1 ?bars" and s = "(?c0, st)"
        and xs = "[0..<length ?bars]", OF example_fine_bar] assms by auto
  have "idle (fl 100000) (append_coverage ?e s H1 ?bars (fst y) (snd y))"
    using y(2) by (simp add: append_coverage_def idle_def Let_def)
  then show ?thesis using y(1) assms by (cases y) (simp add: run_fine_def Let_def)
qed

lemma example_run:
  "\<exists>st. run_driver (bt_example ss) (init_broker (fl 100000) 0 None) = Inr st"
proof -
  let ?e = "bt_example ss" and ?d = "init_driver (init_broker (fl 100000) 0 None)"
  have i: "idle (fl 100000) ?d" by (simp add: idle_def init_driver_def init_broker_def)
  have bar: "\<exists>y. context_bar ?e s tf bars i x = Inr y \<and> True" for s tf bars i x
  proof -
    obtain out st where "decide_bar ?e s tf (cd_bucket_start (bars ! i)) [(''technical'', bt_signal ''technical''), (''regime'', bt_signal ''regime'')]
      (fl (cd_close (List.last (window bars i)))) \<lparr>exposure_used_pct = 0, correlation_used_pct = 0, daily_loss_used_pct = 0,
        drawdown_used_pct = 0, gs_correlation_triggered = False\<rparr> x = Inr (out, st)"
    proof -
      obtain out r where "sim_decide (be_render ?e) s tf (cd_bucket_start (bars ! i)) (cd_bucket_start (bars ! i))
          [(''technical'', bt_signal ''technical''), (''regime'', bt_signal ''regime'')] (fl (cd_close (List.last (window bars i))))
          (bc_timeframes (be_cfg ?e)) \<lparr>exposure_used_pct = 0, correlation_used_pct = 0, daily_loss_used_pct = 0,
            drawdown_used_pct = 0, gs_correlation_triggered = False\<rparr> (be_risk ?e) (dv_recent x) = Inr (out, r)"
        using example_sim_total by blast
      then show thesis by (intro that) (simp add: decide_bar_def)
    qed
    moreover have "bc_warmup_bars (be_cfg ?e) = 0" by (simp add: bt_example_def)
    ultimately show ?thesis by (simp add: context_bar_def Let_def example_analyze)
  qed
  have tf: "\<exists>y. run_context_tf ?e s tf x = Inr y \<and> True" for s tf x
    unfolding run_context_tf_def Let_def by (rule each_total [where P = "\<lambda>_. True", OF bar TrueI])
  have "\<exists>st1. run_context ?e H1 ?d = Inr st1 \<and> True"
    unfolding run_context_def
  proof (rule each_total [where P = "\<lambda>_. True", OF _ TrueI])
    show "\<exists>y. (case k of (tf, s) \<Rightarrow> run_context_tf ?e s tf) x = Inr y \<and> True" for k x using tf by (cases k) simp
  qed
  then obtain st1 where st1: "run_context ?e H1 ?d = Inr st1" by blast
  then have "idle (fl 100000) st1" using i run_context_frame [OF st1] by (simp add: idle_def same_book_def)
  then obtain st where st: "each (run_fine ?e H1) (bc_symbols (be_cfg ?e)) st1 = Inr st"
    using each_total [where P = "idle (fl 100000)" and f = "run_fine ?e H1", OF example_run_fine] by blast
  have "sort_key tf_rank (bc_timeframes (be_cfg ?e)) = [H1, H4]" by (simp add: bt_example_def)
  then show ?thesis using st1 st by (simp add: run_driver_def)
qed

theorem equity_curve_times_witness:
  "\<exists>st. run_driver (bt_example [''EURUSD'', ''GBPUSD'']) (init_broker (fl 100000) 0 None) = Inr st
    \<and> map fst (dv_equity_points st) = [0, 3600000000, 0, 3600000000] \<and> \<not> sorted (map fst (dv_equity_points st))"
proof -
  let ?e = "bt_example [''EURUSD'', ''GBPUSD'']"
  obtain st where r: "run_driver ?e (init_broker (fl 100000) 0 None) = Inr st" using example_run by blast
  have s: "sort_key tf_rank (bc_timeframes (be_cfg ?e)) = H1 # [H4]" by (simp add: bt_example_def)
  have l: "load_bars ?e x H1 = [bt_candle 0, bt_candle 3600000000]" for x by (simp add: load_bars_def bt_example_def)
  have b: "bc_symbols (be_cfg ?e) = [''EURUSD'', ''GBPUSD'']" by (simp add: bt_example_def)
  from equity_curve_times [OF r s] have "map fst (dv_equity_points st) = [0, 3600000000, 0, 3600000000]"
    by (simp add: l b bt_candle_def)
  with r show ?thesis by (intro exI [of _ st]) simp
qed

theorem backtest_without_atr_witness:
  "\<exists>st. run_driver (bt_example [''EURUSD'']) (init_broker (fl 100000) 0 None) = Inr st \<and> trades (dv_broker st) = []
    \<and> (\<forall>p\<in>set (dv_equity_points st). snd p = fl 100000)"
proof -
  obtain st where r: "run_driver (bt_example [''EURUSD'']) (init_broker (fl 100000) 0 None) = Inr st" using example_run by blast
  from backtest_without_atr [OF example_no_atr r] r show ?thesis by blast
qed

theorem backtest_causal_witness:
  "\<forall>s. each (fine_bar (bt_example [''EURUSD'']\<lparr>be_candles := \<lambda>_ _ _ _. []\<rparr>) ''EURUSD'' H1 [bt_candle 0, bt_candle 7200000000]) [0..<1] s
     = each (fine_bar (bt_example [''EURUSD'']) ''EURUSD'' H1 [bt_candle 0, bt_candle 3600000000]) [0..<1] s"
proof
  fix s
  have p: "\<forall>i<1. prev_daily_of (bt_example [''EURUSD'']\<lparr>be_candles := \<lambda>_ _ _ _. []\<rparr>) ''EURUSD''
      (cd_bucket_start ([bt_candle 0, bt_candle 3600000000] ! i))
      = prev_daily_of (bt_example [''EURUSD'']) ''EURUSD'' (cd_bucket_start ([bt_candle 0, bt_candle 3600000000] ! i))"
    by (simp add: prev_daily_of_def bt_example_def)
  show "each (fine_bar (bt_example [''EURUSD'']\<lparr>be_candles := \<lambda>_ _ _ _. []\<rparr>) ''EURUSD'' H1 [bt_candle 0, bt_candle 7200000000]) [0..<1] s
     = each (fine_bar (bt_example [''EURUSD'']) ''EURUSD'' H1 [bt_candle 0, bt_candle 3600000000]) [0..<1] s"
    by (rule backtest_causal [OF _ _ _ p]) simp_all
qed

end
