(* ===== verification/Auth.thy ===== *)
theory Auth
  imports Signals
begin

text \<open>
  Accounts and tokens (\<^verbatim>\<open>app/services/auth_service.py\<close>, \<^verbatim>\<open>core/security.py\<close>, the routes of
  \<^verbatim>\<open>api/v1/auth.py\<close> and \<^verbatim>\<open>users.py\<close>, \<^verbatim>\<open>api/deps.py\<close>, the account command of \<^verbatim>\<open>cli.py\<close>). Passwords
  are hashed by Argon2 and tokens are signed by PyJWT: both are parameters. The tables are lists of
  rows; a request reads the database and gives the writes its transaction commits, so that two
  requests that read the same database and commit one after the other can be written down.
\<close>

section \<open>Strings, UUIDs and JSON values\<close>

definition normalized :: "string \<Rightarrow> string" where
  "normalized email = lower (strip email)"

text \<open>\<^verbatim>\<open>UUID.hex\<close>, \<^verbatim>\<open>str(UUID)\<close> and \<^verbatim>\<open>UUID(str)\<close>.\<close>

definition hex_char :: "nat \<Rightarrow> char" where
  "hex_char k = ''0123456789abcdef'' ! (k mod 16)"

definition uuid_hex :: "uuid \<Rightarrow> string" where
  "uuid_hex u = map (\<lambda>i. hex_char (u div 16 ^ i)) (rev [0..<32])"

definition uuid_str :: "uuid \<Rightarrow> string" where
  "uuid_str u = (let h = uuid_hex u in
     take 8 h @ ''-'' @ take 4 (drop 8 h) @ ''-'' @ take 4 (drop 12 h) @ ''-'' @ take 4 (drop 16 h) @ ''-'' @ drop 20 h)"

fun delete_word :: "nat \<Rightarrow> string \<Rightarrow> string \<Rightarrow> string" where
  "delete_word 0 w s = s"
| "delete_word (Suc n) w s =
     (if s = [] then [] else if take (length w) s = w then delete_word n w (drop (length w) s)
      else hd s # delete_word n w (tl s))"

definition hex_digit :: "char \<Rightarrow> nat option" where
  "hex_digit c = (let k = of_char c :: nat in
     if 48 \<le> k \<and> k \<le> 57 then Some (k - 48) else if 65 \<le> k \<and> k \<le> 70 then Some (k - 55)
     else if 97 \<le> k \<and> k \<le> 102 then Some (k - 87) else None)"

text \<open>The digits of \<^verbatim>\<open>int(s, 16)\<close>; a single underscore may stand between two digits.\<close>

fun hex_value :: "nat \<Rightarrow> string \<Rightarrow> nat option" where
  "hex_value acc [] = Some acc"
| "hex_value acc (c # cs) =
     (if c = CHR ''_'' then (case cs of [] \<Rightarrow> None
         | d # ds \<Rightarrow> (case hex_digit d of None \<Rightarrow> None | Some k \<Rightarrow> hex_value (16 * acc + k) ds))
      else (case hex_digit c of None \<Rightarrow> None | Some k \<Rightarrow> hex_value (16 * acc + k) cs))"

definition drop_char :: "char \<Rightarrow> string \<Rightarrow> string" where
  "drop_char c s = (if s \<noteq> [] \<and> hd s = c then tl s else s)"

definition int16 :: "string \<Rightarrow> nat option" where
  "int16 s = (let s1 = drop_char (CHR ''+'') (strip s);
                  s2 = (if take 2 s1 = ''0x'' \<or> take 2 s1 = ''0X'' then drop_char (CHR ''_'') (drop 2 s1) else s1)
     in if s2 = [] \<or> hd s2 = CHR ''_'' then None else hex_value 0 s2)"

definition parse_uuid :: "string \<Rightarrow> uuid option" where
  "parse_uuid s =
     (let s1 = delete_word (length s) ''urn:'' s; s2 = delete_word (length s1) ''uuid:'' s1;
          h = filter (\<lambda>c. c \<noteq> CHR ''-'') (strip_by (\<lambda>c. c = CHR ''{'' \<or> c = CHR ''}'') s2)
      in if length h \<noteq> 32 then None else int16 h)"

section \<open>Errors\<close>

text \<open>\<open>DatabaseError\<close> is an exception of the driver (a unique or foreign key violated, a value too long
  for its column): the request ends with status 500 and its transaction is rolled back.\<close>

datatype app_error =
    NotFoundError string
  | AuthenticationError string
  | PermissionDeniedError string
  | ConflictError string
  | DatabaseError

section \<open>Tables\<close>

datatype user_role = VIEWER | TRADER | ADMIN

fun role_value :: "user_role \<Rightarrow> string" where
  "role_value VIEWER = ''viewer''"
| "role_value TRADER = ''trader''"
| "role_value ADMIN = ''admin''"

record user_row =
  u_id :: uuid
  u_email :: string
  u_hashed :: string
  u_role :: user_role
  u_active :: bool
  u_last_login :: "datetime option"

record refresh_row =
  rf_user :: uuid
  rf_jti :: string
  rf_family :: uuid
  rf_expires :: datetime
  rf_revoked :: "datetime option"
  rf_replaced_by :: "string option"
  rf_ip :: "string option"
  rf_agent :: "string option"

definition is_revoked :: "refresh_row \<Rightarrow> bool" where
  "is_revoked r = (rf_revoked r \<noteq> None)"

record audit_row =
  au_actor :: string
  au_action :: string
  au_entity_type :: "string option"
  au_entity_id :: "string option"
  au_before :: "(string \<times> json) list option"
  au_after :: "(string \<times> json) list option"
  au_ip :: "string option"

record auth_db =
  users :: "user_row list"
  tokens :: "refresh_row list"
  audits :: "audit_row list"

text \<open>The statements a transaction executes. \<^verbatim>\<open>UPDATE\<close>s of the ORM name the row by its key and set the
  changed columns only.\<close>

datatype auth_write =
    AddUser user_row
  | SetLogin uuid "string option" datetime
  | SetAccess uuid "user_role option" "bool option"
  | AddToken refresh_row
  | RevokeToken string datetime "string option"
  | RevokeFamily uuid datetime
  | AddAudit audit_row

definition fits :: "nat \<Rightarrow> string option \<Rightarrow> bool" where
  "fits n s = (case s of None \<Rightarrow> True | Some x \<Rightarrow> length x \<le> n)"

definition update_where :: "('a \<Rightarrow> bool) \<Rightarrow> ('a \<Rightarrow> 'a) \<Rightarrow> 'a list \<Rightarrow> 'a list" where
  "update_where P f xs = map (\<lambda>x. if P x then f x else x) xs"

definition user_fits :: "user_row \<Rightarrow> auth_db \<Rightarrow> bool" where
  "user_fits u db = (u_email u \<notin> u_email ` set (users db) \<and> u_id u \<notin> u_id ` set (users db)
     \<and> length (u_email u) \<le> 320 \<and> length (u_hashed u) \<le> 512)"

definition token_fits :: "refresh_row \<Rightarrow> auth_db \<Rightarrow> bool" where
  "token_fits t db = (rf_jti t \<notin> rf_jti ` set (tokens db) \<and> rf_user t \<in> u_id ` set (users db)
     \<and> length (rf_jti t) \<le> 64 \<and> fits 64 (rf_ip t) \<and> fits 512 (rf_agent t))"

definition audit_fits :: "audit_row \<Rightarrow> bool" where
  "audit_fits a = (length (au_actor a) \<le> 128 \<and> length (au_action a) \<le> 128 \<and> fits 128 (au_entity_type a)
     \<and> fits 128 (au_entity_id a) \<and> fits 64 (au_ip a))"

fun apply_write :: "auth_write \<Rightarrow> auth_db \<Rightarrow> auth_db option" where
  "apply_write (AddUser u) db = (if user_fits u db then Some (db\<lparr>users := users db @ [u]\<rparr>) else None)"
| "apply_write (SetLogin i h t) db =
     (if fits 512 h then Some (db\<lparr>users := update_where (\<lambda>u. u_id u = i)
        (\<lambda>u. u\<lparr>u_hashed := case_option (u_hashed u) id h, u_last_login := Some t\<rparr>) (users db)\<rparr>) else None)"
| "apply_write (SetAccess i r a) db =
     Some (db\<lparr>users := update_where (\<lambda>u. u_id u = i)
       (\<lambda>u. u\<lparr>u_role := case_option (u_role u) id r, u_active := case_option (u_active u) id a\<rparr>) (users db)\<rparr>)"
| "apply_write (AddToken t) db = (if token_fits t db then Some (db\<lparr>tokens := tokens db @ [t]\<rparr>) else None)"
| "apply_write (RevokeToken j t s) db =
     (if fits 64 s then Some (db\<lparr>tokens := update_where (\<lambda>r. rf_jti r = j)
        (\<lambda>r. r\<lparr>rf_revoked := Some t, rf_replaced_by := case_option (rf_replaced_by r) Some s\<rparr>) (tokens db)\<rparr>) else None)"
| "apply_write (RevokeFamily f t) db =
     Some (db\<lparr>tokens := update_where (\<lambda>r. rf_family r = f \<and> \<not> is_revoked r) (\<lambda>r. r\<lparr>rf_revoked := Some t\<rparr>) (tokens db)\<rparr>)"
| "apply_write (AddAudit a) db = (if audit_fits a then Some (db\<lparr>audits := audits db @ [a]\<rparr>) else None)"

fun apply_writes :: "auth_write list \<Rightarrow> auth_db \<Rightarrow> auth_db option" where
  "apply_writes [] db = Some db"
| "apply_writes (w # ws) db = (case apply_write w db of None \<Rightarrow> None | Some db' \<Rightarrow> apply_writes ws db')"

text \<open>A request handler reads the database and returns its answer with the writes that are committed,
  those of a failing handler being what it committed before it raised (\<^verbatim>\<open>db/session.py: get_db\<close>).\<close>

type_synonym 'a request = "auth_db \<Rightarrow> (app_error + 'a) \<times> auth_write list"

definition commit_request :: "(app_error + 'a) \<times> auth_write list \<Rightarrow> auth_db \<Rightarrow> (app_error + 'a) \<times> auth_db" where
  "commit_request out db = (case apply_writes (snd out) db of None \<Rightarrow> (Inl DatabaseError, db) | Some db' \<Rightarrow> (fst out, db'))"

definition run_request :: "'a request \<Rightarrow> auth_db \<Rightarrow> (app_error + 'a) \<times> auth_db" where
  "run_request req db = commit_request (req db) db"

section \<open>Security primitives\<close>

record auth_settings =
  as_access_minutes :: int
  as_refresh_days :: int
  as_secret :: string

text \<open>Argon2 (the first argument of \<open>cy_hash\<close> is the random salt) and PyJWT, which is given the secret, the
  leeway in seconds and the time of the call; tokens are opaque values of type \<open>'tok\<close>. \<open>cy_render\<close>
  is \<^verbatim>\<open>str\<close> of floats, lists and dictionaries.\<close>

datatype jwt_error = ExpiredSignature | InvalidSignature

record 'tok crypto =
  cy_hash :: "nat \<Rightarrow> string \<Rightarrow> string"
  cy_verify :: "string \<Rightarrow> string \<Rightarrow> bool"
  cy_needs_rehash :: "string \<Rightarrow> bool"
  cy_encode :: "(string \<times> json) list \<Rightarrow> string \<Rightarrow> 'tok"
  cy_decode :: "'tok \<Rightarrow> string \<Rightarrow> int \<Rightarrow> datetime \<Rightarrow> jwt_error + (string \<times> json) list"
  cy_render :: "json \<Rightarrow> string"

text \<open>What one request finds outside the database: its client, the readings of \<^verbatim>\<open>utcnow\<close> and the
  random values it draws.\<close>

record auth_env =
  ae_settings :: auth_settings
  ae_ip :: "string option"
  ae_agent :: "string option"
  ae_now :: datetime
  ae_now_access :: datetime
  ae_now_refresh :: datetime
  ae_salt :: nat
  ae_user_id :: uuid
  ae_access_jti :: uuid
  ae_jti :: uuid
  ae_family :: uuid

definition JWT_LEEWAY_SECONDS :: int where
  "JWT_LEEWAY_SECONDS = 2"

definition ROLE_RANK :: "(string \<times> int) list" where
  "ROLE_RANK = [(''viewer'', 0), (''trader'', 1), (''admin'', 2)]"

definition role_at_least :: "string \<Rightarrow> string \<Rightarrow> bool" where
  "role_at_least role required =
     (case (map_of ROLE_RANK role, map_of ROLE_RANK required) of (Some a, Some b) \<Rightarrow> b \<le> a | _ \<Rightarrow> False)"

text \<open>\<^verbatim>\<open>int(t.timestamp())\<close> of an instant after 1970.\<close>

definition epoch_seconds :: "datetime \<Rightarrow> int" where
  "epoch_seconds t = t div 1000000"

definition access_payload :: "uuid \<Rightarrow> string \<Rightarrow> uuid \<Rightarrow> datetime \<Rightarrow> datetime \<Rightarrow> (string \<times> json) list" where
  "access_payload i role j now expires = [(''sub'', JStr (uuid_str i)), (''role'', JStr role), (''type'', JStr ''access''),
     (''jti'', JStr (uuid_hex j)), (''iat'', JInt (epoch_seconds now)), (''exp'', JInt (epoch_seconds expires))]"

definition refresh_payload :: "uuid \<Rightarrow> uuid \<Rightarrow> uuid \<Rightarrow> datetime \<Rightarrow> datetime \<Rightarrow> (string \<times> json) list" where
  "refresh_payload i j f now expires = [(''sub'', JStr (uuid_str i)), (''type'', JStr ''refresh''),
     (''jti'', JStr (uuid_str j)), (''fam'', JStr (uuid_str f)), (''iat'', JInt (epoch_seconds now)),
     (''exp'', JInt (epoch_seconds expires))]"

definition create_access_token :: "'tok crypto \<Rightarrow> auth_env \<Rightarrow> uuid \<Rightarrow> string \<Rightarrow> 'tok \<times> datetime" where
  "create_access_token cy env i role =
     (let now = ae_now_access env; expires = now + seconds_td (60 * as_access_minutes (ae_settings env))
      in (cy_encode cy (access_payload i role (ae_access_jti env) now expires) (as_secret (ae_settings env)), expires))"

definition create_refresh_token ::
  "'tok crypto \<Rightarrow> auth_env \<Rightarrow> uuid \<Rightarrow> uuid option \<Rightarrow> 'tok \<times> uuid \<times> uuid \<times> datetime" where
  "create_refresh_token cy env i family_id =
     (let family = (case family_id of None \<Rightarrow> ae_family env | Some f \<Rightarrow> f); jti = ae_jti env;
          now = ae_now_refresh env; expires = now + days_td (as_refresh_days (ae_settings env))
      in (cy_encode cy (refresh_payload i jti family now expires) (as_secret (ae_settings env)), jti, family, expires))"

definition decode_token ::
  "'tok crypto \<Rightarrow> auth_env \<Rightarrow> 'tok \<Rightarrow> string \<Rightarrow> app_error + (string \<times> json) list" where
  "decode_token cy env token expected_type =
     (case cy_decode cy token (as_secret (ae_settings env)) JWT_LEEWAY_SECONDS (ae_now env) of
        Inl ExpiredSignature \<Rightarrow> Inl (AuthenticationError ''Token has expired'')
      | Inl InvalidSignature \<Rightarrow> Inl (AuthenticationError ''Invalid token'')
      | Inr payload \<Rightarrow>
          if json_get payload ''type'' \<noteq> Some (JStr expected_type) then Inl (AuthenticationError ''Invalid token type'')
          else if \<not> (case json_get payload ''sub'' of None \<Rightarrow> False | Some j \<Rightarrow> truthy j)
          then Inl (AuthenticationError ''Invalid token subject'')
          else Inr payload)"

section \<open>Service\<close>

record 'tok token_pair =
  tp_access :: 'tok
  tp_access_expires :: datetime
  tp_refresh :: 'tok
  tp_jti :: uuid
  tp_family :: uuid
  tp_refresh_expires :: datetime

definition audit_entry ::
  "auth_env \<Rightarrow> string \<Rightarrow> string \<Rightarrow> (string \<times> string) option \<Rightarrow> (string \<times> json) list option \<Rightarrow> auth_write" where
  "audit_entry env actor action entity after = AddAudit \<lparr>au_actor = actor, au_action = action,
     au_entity_type = map_option fst entity, au_entity_id = map_option snd entity, au_before = None, au_after = after,
     au_ip = ae_ip env\<rparr>"

definition get_user_by_email :: "auth_db \<Rightarrow> string \<Rightarrow> user_row option" where
  "get_user_by_email db email = find (\<lambda>u. u_email u = normalized email) (users db)"

definition get_user :: "auth_db \<Rightarrow> uuid \<Rightarrow> user_row option" where
  "get_user db i = find (\<lambda>u. u_id u = i) (users db)"

definition get_refresh_row :: "auth_db \<Rightarrow> string \<Rightarrow> refresh_row option" where
  "get_refresh_row db jti = find (\<lambda>r. rf_jti r = jti) (tokens db)"

definition count_users :: "auth_db \<Rightarrow> nat" where
  "count_users db = length (users db)"

definition register_user ::
  "'tok crypto \<Rightarrow> auth_env \<Rightarrow> string \<Rightarrow> string \<Rightarrow> user_role option \<Rightarrow> user_row request" where
  "register_user cy env email password role_override db =
     (if get_user_by_email db (normalized email) \<noteq> None then (Inl (ConflictError ''Email already registered''), [])
      else
        let role = (case role_override of Some r \<Rightarrow> r | None \<Rightarrow> if count_users db = 0 then ADMIN else VIEWER);
            user = \<lparr>u_id = ae_user_id env, u_email = normalized email, u_hashed = cy_hash cy (ae_salt env) password,
              u_role = role, u_active = True, u_last_login = None\<rparr>
        in (Inr user, [AddUser user, audit_entry env (normalized email) ''auth.user_registered''
              (Some (''user'', uuid_str (u_id user))) (Some [(''role'', JStr (role_value role))])]))"

definition authenticate_user :: "'tok crypto \<Rightarrow> auth_env \<Rightarrow> string \<Rightarrow> string \<Rightarrow> user_row request" where
  "authenticate_user cy env email password db =
     (case get_user_by_email db email of
        None \<Rightarrow> (Inl (AuthenticationError ''Incorrect email or password''),
                  [audit_entry env (normalized email) ''auth.login_failed'' None None])
      | Some user \<Rightarrow>
          if \<not> cy_verify cy (u_hashed user) password
          then (Inl (AuthenticationError ''Incorrect email or password''),
                [audit_entry env (normalized email) ''auth.login_failed'' None None])
          else if \<not> u_active user
          then (Inl (AuthenticationError ''Account is disabled''),
                [audit_entry env (u_email user) ''auth.login_failed'' (Some (''user'', uuid_str (u_id user)))
                   (Some [(''reason'', JStr ''inactive'')])])
          else
            let rehash = (if cy_needs_rehash cy (u_hashed user) then Some (cy_hash cy (ae_salt env) password) else None)
            in (Inr (user\<lparr>u_hashed := case_option (u_hashed user) id rehash, u_last_login := Some (ae_now env)\<rparr>),
                [SetLogin (u_id user) rehash (ae_now env),
                 audit_entry env (u_email user) ''auth.login_succeeded'' (Some (''user'', uuid_str (u_id user))) None]))"

text \<open>\<^verbatim>\<open>(user_agent or "")[:512] or None\<close>\<close>

definition clip_agent :: "string option \<Rightarrow> string option" where
  "clip_agent a = (case a of None \<Rightarrow> None | Some s \<Rightarrow> if s = [] then None else Some (take 512 s))"

definition issue_token_pair ::
  "'tok crypto \<Rightarrow> auth_env \<Rightarrow> user_row \<Rightarrow> uuid option \<Rightarrow> 'tok token_pair \<times> auth_write list" where
  "issue_token_pair cy env user family_id =
     (let (access, access_expires) = create_access_token cy env (u_id user) (role_value (u_role user));
          (refresh, jti, family, expires) = create_refresh_token cy env (u_id user) family_id
      in (\<lparr>tp_access = access, tp_access_expires = access_expires, tp_refresh = refresh, tp_jti = jti,
           tp_family = family, tp_refresh_expires = expires\<rparr>,
          [AddToken \<lparr>rf_user = u_id user, rf_jti = uuid_str jti, rf_family = family, rf_expires = expires,
             rf_revoked = None, rf_replaced_by = None, rf_ip = ae_ip env, rf_agent = clip_agent (ae_agent env)\<rparr>]))"

text \<open>\<^verbatim>\<open>str(payload.get("jti", ""))\<close>\<close>

definition payload_jti :: "'tok crypto \<Rightarrow> (string \<times> json) list \<Rightarrow> string" where
  "payload_jti cy payload = (case json_get payload ''jti'' of None \<Rightarrow> [] | Some j \<Rightarrow> py_str (cy_render cy) j)"

definition rotate_refresh :: "'tok crypto \<Rightarrow> auth_env \<Rightarrow> 'tok \<Rightarrow> ('tok token_pair \<times> user_row) request" where
  "rotate_refresh cy env raw db =
     (case decode_token cy env raw ''refresh'' of
        Inl e \<Rightarrow> (Inl e, [])
      | Inr payload \<Rightarrow>
          let jti = payload_jti cy payload in
          case get_refresh_row db jti of
            None \<Rightarrow> (Inl (AuthenticationError ''Unknown refresh token''), [])
          | Some row \<Rightarrow>
              if is_revoked row
              then (Inl (AuthenticationError ''Refresh token reuse detected; session family revoked''),
                    [RevokeFamily (rf_family row) (ae_now env),
                     audit_entry env (uuid_str (rf_user row)) ''auth.token_reuse_detected'' (Some (''refresh_token'', jti))
                       (Some [(''family_id'', JStr (uuid_str (rf_family row))), (''action'', JStr ''family_revoked'')])])
              else
                case get_user db (rf_user row) of
                  None \<Rightarrow> (Inl (AuthenticationError ''Account is disabled''), [])
                | Some user \<Rightarrow>
                    if \<not> u_active user then (Inl (AuthenticationError ''Account is disabled''), [])
                    else
                      let (pair, issued) = issue_token_pair cy env user (Some (rf_family row))
                      in (Inr (pair, user),
                          issued @ [RevokeToken (rf_jti row) (ae_now env) (Some (uuid_str (tp_jti pair))),
                            audit_entry env (u_email user) ''auth.token_refreshed'' (Some (''user'', uuid_str (u_id user))) None]))"

definition revoke_refresh :: "'tok crypto \<Rightarrow> auth_env \<Rightarrow> 'tok \<Rightarrow> string \<Rightarrow> auth_db \<Rightarrow> bool \<times> auth_write list" where
  "revoke_refresh cy env raw actor db =
     (case decode_token cy env raw ''refresh'' of
        Inl _ \<Rightarrow> (False, [])
      | Inr payload \<Rightarrow>
          (case get_refresh_row db (payload_jti cy payload) of
             None \<Rightarrow> (False, [])
           | Some row \<Rightarrow>
               if is_revoked row then (False, [])
               else (True, [RevokeToken (rf_jti row) (ae_now env) None,
                 AddAudit \<lparr>au_actor = actor, au_action = ''auth.logged_out'', au_entity_type = Some ''refresh_token'',
                   au_entity_id = Some (rf_jti row), au_before = None, au_after = None, au_ip = None\<rparr>])))"

section \<open>Routes\<close>

definition get_current_user :: "'tok crypto \<Rightarrow> auth_env \<Rightarrow> 'tok option \<Rightarrow> auth_db \<Rightarrow> app_error + user_row" where
  "get_current_user cy env credentials db =
     (case credentials of
        None \<Rightarrow> Inl (AuthenticationError ''Missing bearer token'')
      | Some token \<Rightarrow>
          (case decode_token cy env token ''access'' of
             Inl e \<Rightarrow> Inl e
           | Inr payload \<Rightarrow>
               (case parse_uuid (case json_get payload ''sub'' of None \<Rightarrow> ''None'' | Some j \<Rightarrow> py_str (cy_render cy) j) of
                  None \<Rightarrow> Inl (AuthenticationError ''Invalid token subject'')
                | Some i \<Rightarrow>
                    (case get_user db i of
                       None \<Rightarrow> Inl (AuthenticationError ''Unknown or disabled account'')
                     | Some user \<Rightarrow> if u_active user then Inr user
                         else Inl (AuthenticationError ''Unknown or disabled account'')))))"

definition require_role ::
  "'tok crypto \<Rightarrow> auth_env \<Rightarrow> string \<Rightarrow> 'tok option \<Rightarrow> auth_db \<Rightarrow> app_error + user_row" where
  "require_role cy env required credentials db =
     (case get_current_user cy env credentials db of
        Inl e \<Rightarrow> Inl e
      | Inr user \<Rightarrow> if role_at_least (role_value (u_role user)) required then Inr user
          else Inl (PermissionDeniedError (''Requires role '' @ [CHR 0x27] @ required @ [CHR 0x27] @ '' or higher'')))"

definition register_route :: "'tok crypto \<Rightarrow> auth_env \<Rightarrow> string \<Rightarrow> string \<Rightarrow> user_row request" where
  "register_route cy env email password = register_user cy env email password None"

definition login_route :: "'tok crypto \<Rightarrow> auth_env \<Rightarrow> string \<Rightarrow> string \<Rightarrow> 'tok token_pair request" where
  "login_route cy env username password db =
     (case authenticate_user cy env username password db of
        (Inl e, ws) \<Rightarrow> (Inl e, ws)
      | (Inr user, ws) \<Rightarrow> (let (pair, issued) = issue_token_pair cy env user None in (Inr pair, ws @ issued)))"

text \<open>The cookie is \<open>None\<close> when it is missing or empty.\<close>

definition refresh_route :: "'tok crypto \<Rightarrow> auth_env \<Rightarrow> 'tok option \<Rightarrow> 'tok token_pair request" where
  "refresh_route cy env cookie db =
     (case cookie of
        None \<Rightarrow> (Inl (AuthenticationError ''Missing refresh token''), [])
      | Some raw \<Rightarrow>
          (case rotate_refresh cy env raw db of (Inl e, ws) \<Rightarrow> (Inl e, ws) | (Inr (pair, _), ws) \<Rightarrow> (Inr pair, ws)))"

definition logout_route :: "'tok crypto \<Rightarrow> auth_env \<Rightarrow> 'tok option \<Rightarrow> 'tok option \<Rightarrow> bool request" where
  "logout_route cy env credentials cookie db =
     (case get_current_user cy env credentials db of
        Inl e \<Rightarrow> (Inl e, [])
      | Inr user \<Rightarrow>
          (case cookie of
             None \<Rightarrow> (Inr False, [])
           | Some raw \<Rightarrow> (let (done, ws) = revoke_refresh cy env raw (u_email user) db in (Inr done, ws))))"

definition access_json :: "user_role \<Rightarrow> bool \<Rightarrow> (string \<times> json) list" where
  "access_json r a = [(''role'', JStr (role_value r)), (''is_active'', JBool a)]"

text \<open>The columns an ORM \<^verbatim>\<open>UPDATE\<close> names: those whose value is not the loaded one.\<close>

definition changed :: "'a \<Rightarrow> 'a option \<Rightarrow> 'a option" where
  "changed old x = (if x = Some old then None else x)"

definition update_user_route ::
  "'tok crypto \<Rightarrow> auth_env \<Rightarrow> 'tok option \<Rightarrow> uuid \<Rightarrow> user_role option \<Rightarrow> bool option \<Rightarrow> user_row request" where
  "update_user_route cy env credentials user_id role active db =
     (case require_role cy env ''admin'' credentials db of
        Inl e \<Rightarrow> (Inl e, [])
      | Inr admin \<Rightarrow>
          if user_id = u_id admin \<and> role \<noteq> None \<and> role \<noteq> Some (u_role admin)
          then (Inl (PermissionDeniedError ''Admins cannot change their own role''), [])
          else
            case get_user db user_id of
              None \<Rightarrow> (Inl (NotFoundError ''User not found''), [])
            | Some user \<Rightarrow>
                let after = user\<lparr>u_role := case_option (u_role user) id role, u_active := case_option (u_active user) id active\<rparr>
                in (Inr after,
                    [SetAccess user_id (changed (u_role user) role) (changed (u_active user) active),
                     AddAudit \<lparr>au_actor = u_email admin, au_action = ''admin.user_updated'', au_entity_type = Some ''user'',
                       au_entity_id = Some (uuid_str (u_id user)), au_before = Some (access_json (u_role user) (u_active user)),
                       au_after = Some (access_json (u_role after) (u_active after)), au_ip = ae_ip env\<rparr>]))"

text \<open>The account command of the command line (\<^verbatim>\<open>cli.py: _create_user\<close>).\<close>

definition create_user_command :: "'tok crypto \<Rightarrow> auth_env \<Rightarrow> string \<Rightarrow> string \<Rightarrow> user_role \<Rightarrow> user_row request" where
  "create_user_command cy env email password role db =
     register_user cy env email password (Some (if 0 < count_users db \<or> role = ADMIN then role else ADMIN)) db"

section \<open>Steps\<close>

datatype 'tok auth_call =
    Register string string
  | Login string string
  | Refresh "'tok option"
  | Logout "'tok option" "'tok option"
  | UpdateUser "'tok option" uuid "user_role option" "bool option"

fun call_writes :: "'tok crypto \<Rightarrow> auth_env \<Rightarrow> 'tok auth_call \<Rightarrow> auth_db \<Rightarrow> (app_error + unit) \<times> auth_write list" where
  "call_writes cy env (Register e p) db = map_prod (map_sum id (\<lambda>_. ())) id (register_route cy env e p db)"
| "call_writes cy env (Login e p) db = map_prod (map_sum id (\<lambda>_. ())) id (login_route cy env e p db)"
| "call_writes cy env (Refresh c) db = map_prod (map_sum id (\<lambda>_. ())) id (refresh_route cy env c db)"
| "call_writes cy env (Logout a c) db = map_prod (map_sum id (\<lambda>_. ())) id (logout_route cy env a c db)"
| "call_writes cy env (UpdateUser a i r x) db = map_prod (map_sum id (\<lambda>_. ())) id (update_user_route cy env a i r x db)"

definition serve :: "'tok crypto \<Rightarrow> auth_env \<Rightarrow> 'tok auth_call \<Rightarrow> auth_db \<Rightarrow> auth_db" where
  "serve cy env c db = snd (run_request (call_writes cy env c) db)"

text \<open>UUIDs drawn by \<^verbatim>\<open>uuid4\<close> are new.\<close>

definition fresh_env :: "auth_env \<Rightarrow> auth_db \<Rightarrow> bool" where
  "fresh_env env db = (ae_user_id env \<notin> u_id ` set (users db) \<and> uuid_str (ae_jti env) \<notin> rf_jti ` set (tokens db)
     \<and> ae_family env \<notin> rf_family ` set (tokens db))"

inductive api_step :: "'tok crypto \<Rightarrow> auth_db \<Rightarrow> auth_db \<Rightarrow> bool" for cy where
  api_call: "fresh_env env db \<Longrightarrow> api_step cy db (serve cy env c db)"

inductive auth_step :: "'tok crypto \<Rightarrow> auth_db \<Rightarrow> auth_db \<Rightarrow> bool" for cy where
  served: "api_step cy db db' \<Longrightarrow> auth_step cy db db'"
| command: "fresh_env env db \<Longrightarrow> auth_step cy db (snd (run_request (create_user_command cy env e p r) db))"

definition empty_auth :: auth_db where
  "empty_auth = \<lparr>users = [], tokens = [], audits = []\<rparr>"

definition auth_reachable :: "'tok crypto \<Rightarrow> auth_db \<Rightarrow> bool" where
  "auth_reachable cy db = (auth_step cy)\<^sup>*\<^sup>* empty_auth db"

section \<open>UUIDs as text\<close>

lemma hex_char_cases: "\<exists>m<16. hex_char k = ''0123456789abcdef'' ! m \<and> k mod 16 = m"
  by (simp add: hex_char_def)

lemma hex_chars: "m < 16 \<Longrightarrow> hex_digit (''0123456789abcdef'' ! m) = Some m
    \<and> ''0123456789abcdef'' ! m \<notin> set ''-_{}+xXurn:'' \<and> \<not> py_space (''0123456789abcdef'' ! m)"
proof -
  assume "m < 16"
  then have "m \<in> {0..<16}" by simp
  then have "m \<in> {0, 1, 2, 3, 4, 5, 6, 7, 8, 9, 10, 11, 12, 13, 14, 15}" by (simp add: atLeastLessThan_nat_numeral) auto
  then show ?thesis by (elim insertE emptyE) (simp_all add: hex_digit_def py_space_def Let_def)
qed

lemma hex_char_facts [simp]:
  "hex_digit (hex_char k) = Some (k mod 16)" "hex_char k \<notin> set ''-_{}+xXurn:''" "\<not> py_space (hex_char k)"
  using hex_chars hex_char_cases [of k] by auto

lemma hex_value_digits: "hex_value acc (map (\<lambda>i. hex_char (u div 16 ^ i)) (rev [0..<n])) = Some (acc * 16 ^ n + u mod 16 ^ n)"
proof (induction n arbitrary: acc)
  case (Suc n)
  have h: "hex_char k \<noteq> CHR ''_''" for k using hex_char_facts(2) [of k] by auto
  have "hex_value acc (map (\<lambda>i. hex_char (u div 16 ^ i)) (rev [0..<Suc n]))
      = hex_value (16 * acc + u div 16 ^ n mod 16) (map (\<lambda>i. hex_char (u div 16 ^ i)) (rev [0..<n]))"
    using h by simp
  also have "\<dots> = Some ((16 * acc + u div 16 ^ n mod 16) * 16 ^ n + u mod 16 ^ n)" by (rule Suc.IH)
  also have "(16 * acc + u div 16 ^ n mod 16) * 16 ^ n + u mod 16 ^ n = acc * 16 ^ Suc n + u mod 16 ^ Suc n"
    using mod_mult2_eq [of u "16 ^ n" 16] by (simp add: algebra_simps)
  finally show ?case .
qed simp

lemma uuid_hex_set: "c \<in> set (uuid_hex u) \<Longrightarrow> \<exists>k. c = hex_char k"
  by (auto simp: uuid_hex_def)

lemma delete_word_absent: "w \<noteq> [] \<Longrightarrow> hd w \<notin> set s \<Longrightarrow> length s \<le> n \<Longrightarrow> delete_word n w s = s"
proof (induction n arbitrary: s)
  case (Suc n)
  show ?case
  proof (cases s)
    case (Cons c cs)
    have "take (length w) s \<noteq> w"
    proof
      assume "take (length w) s = w"
      then have "hd w = hd s" using Suc.prems(1) by (cases w) (auto simp: Cons)
      with Suc.prems(2) show False by (simp add: Cons)
    qed
    with Suc Cons show ?thesis by simp
  qed simp
qed simp

lemma strip_by_absent: "\<forall>c\<in>set s. \<not> P c \<Longrightarrow> strip_by P s = s"
proof -
  assume a: "\<forall>c\<in>set s. \<not> P c"
  have "dropWhile P xs = xs" if "\<forall>c\<in>set xs. \<not> P c" for xs using that by (cases xs) auto
  from this [of s] this [of "rev s"] a show ?thesis by (simp add: strip_by_def)
qed

lemma uuid_str_set: "c \<in> set (uuid_str u) \<Longrightarrow> c = CHR ''-'' \<or> (\<exists>k. c = hex_char k)"
  using uuid_hex_set [of c u] by (auto simp: uuid_str_def Let_def dest: in_set_takeD in_set_dropD)

lemma filter_uuid_str: "filter (\<lambda>c. c \<noteq> CHR ''-'') (uuid_str u) = uuid_hex u"
proof -
  have n: "hex_char k \<noteq> CHR ''-''" for k using hex_char_facts(2) [of k] by auto
  have f: "filter (\<lambda>c. c \<noteq> CHR ''-'') xs = xs" if sub: "set xs \<subseteq> set (uuid_hex u)" for xs
  proof (rule filter_True, rule ballI)
    fix c assume "c \<in> set xs"
    then obtain k where "c = hex_char k" using sub uuid_hex_set [of c u] by blast
    then show "c \<noteq> CHR ''-''" using n by simp
  qed
  have s: "set (take a (drop b (uuid_hex u))) \<subseteq> set (uuid_hex u)" "set (drop b (uuid_hex u)) \<subseteq> set (uuid_hex u)" for a b
    by (meson in_set_dropD in_set_takeD subsetI)+
  have j: "take 4 (drop n h) @ drop (n + 4) h = drop n h" for n and h :: string
    using append_take_drop_id [of 4 "drop n h"] by (simp add: add.commute)
  have "take 8 h @ take 4 (drop 8 h) @ take 4 (drop 12 h) @ take 4 (drop 16 h) @ drop 20 h = h" for h :: string
    using j [of 16 h] j [of 12 h] j [of 8 h] by (simp del: take_append drop_append)
  moreover have "filter (\<lambda>c. c \<noteq> CHR ''-'') (uuid_str u) = take 8 (uuid_hex u) @ take 4 (drop 8 (uuid_hex u))
      @ take 4 (drop 12 (uuid_hex u)) @ take 4 (drop 16 (uuid_hex u)) @ drop 20 (uuid_hex u)"
    unfolding uuid_str_def Let_def filter_append f [OF s(1)] f [OF s(1) [of 8 0, unfolded drop_0]] f [OF s(2)] by simp
  ultimately show ?thesis by simp
qed

lemma parse_uuid_str:
  assumes "u < 2 ^ 128"
  shows "parse_uuid (uuid_str u) = Some u"
proof -
  have c: "c \<noteq> CHR ''u'' \<and> c \<noteq> CHR ''{'' \<and> c \<noteq> CHR ''}''" if "c \<in> set (uuid_str u)" for c
    using uuid_str_set [OF that] hex_char_facts(2) by auto
  then have "CHR ''u'' \<notin> set (uuid_str u)" by auto
  then have d: "delete_word (length (uuid_str u)) ''urn:'' (uuid_str u) = uuid_str u"
    "delete_word (length (uuid_str u)) ''uuid:'' (uuid_str u) = uuid_str u" by (simp_all add: delete_word_absent)
  have s: "strip_by (\<lambda>c. c = CHR ''{'' \<or> c = CHR ''}'') (uuid_str u) = uuid_str u" using c by (intro strip_by_absent) auto
  have l: "length (uuid_hex u) = 32" by (simp add: uuid_hex_def)
  obtain a b r where abr: "uuid_hex u = a # b # r" using l by (cases "uuid_hex u"; cases "tl (uuid_hex u)") auto
  with uuid_hex_set [of a u] uuid_hex_set [of b u] obtain k k' where h: "uuid_hex u = hex_char k # hex_char k' # r" by auto
  have n: "hex_char k \<notin> set ''-_{}+xXurn:''" "hex_char k' \<notin> set ''-_{}+xXurn:''" by (rule hex_char_facts(2))+
  have st: "strip (uuid_hex u) = uuid_hex u" unfolding strip_def using uuid_hex_set hex_char_facts(3) by (intro strip_by_absent) blast
  have "int16 (uuid_hex u) = hex_value 0 (uuid_hex u)"
    unfolding int16_def st using n by (simp add: h drop_char_def Let_def)
  also have "\<dots> = Some (u mod 16 ^ 32)" unfolding uuid_hex_def by (simp only: hex_value_digits) simp
  also have "u mod 16 ^ 32 = u" using assms by simp
  finally show ?thesis by (simp add: parse_uuid_def d s filter_uuid_str l Let_def)
qed

lemma uuid_str_inject: "u < 2 ^ 128 \<Longrightarrow> v < 2 ^ 128 \<Longrightarrow> uuid_str u = uuid_str v \<longleftrightarrow> u = v"
  by (metis option.inject parse_uuid_str)

end
