(* ===== verification/AuthEffects.thy ===== *)
theory AuthEffects
  imports Auth
begin

text \<open>
  The changes a request can make to the token table and to the user table, as two step relations
  (\<open>token_effect\<close>, \<open>user_effect\<close>), and that every request of the service makes one of them.
\<close>

lemmas route_defs = run_request_def commit_request_def register_route_def login_route_def refresh_route_def logout_route_def
  update_user_route_def create_user_command_def

section \<open>Effects on the tables\<close>

definition live :: "refresh_row \<Rightarrow> bool" where
  "live r = (\<not> is_revoked r)"

inductive token_effect :: "uuid set \<Rightarrow> refresh_row list \<Rightarrow> refresh_row list \<Rightarrow> bool" for us where
  same: "token_effect us ts ts"
| issue: "\<lbrakk>live t; rf_replaced_by t = None; rf_jti t \<notin> rf_jti ` set ts; length (rf_jti t) \<le> 64; rf_user t \<in> us;
    rf_family t \<notin> rf_family ` set ts\<rbrakk> \<Longrightarrow> token_effect us ts (ts @ [t])"
| rotate: "\<lbrakk>r \<in> set ts; live r; live t; rf_replaced_by t = None; rf_jti t \<notin> rf_jti ` set ts; length (rf_jti t) \<le> 64;
    rf_user t = rf_user r; rf_family t = rf_family r\<rbrakk> \<Longrightarrow>
    token_effect us ts (update_where (\<lambda>x. rf_jti x = rf_jti r) (\<lambda>x. x\<lparr>rf_revoked := Some now, rf_replaced_by := Some (rf_jti t)\<rparr>) (ts @ [t]))"
| reuse: "\<lbrakk>r \<in> set ts; is_revoked r\<rbrakk> \<Longrightarrow>
    token_effect us ts (update_where (\<lambda>x. rf_family x = rf_family r \<and> \<not> is_revoked x) (\<lambda>x. x\<lparr>rf_revoked := Some now\<rparr>) ts)"
| logout: "\<lbrakk>r \<in> set ts; live r\<rbrakk> \<Longrightarrow>
    token_effect us ts (update_where (\<lambda>x. rf_jti x = rf_jti r) (\<lambda>x. x\<lparr>rf_revoked := Some now, rf_replaced_by := rf_replaced_by x\<rparr>) ts)"

definition active_admin :: "user_row \<Rightarrow> bool" where
  "active_admin u = (u_role u = ADMIN \<and> u_active u)"

text \<open>\<open>c\<close> tells whether the account command of the command line is allowed.\<close>

inductive user_effect :: "bool \<Rightarrow> user_row list \<Rightarrow> user_row list \<Rightarrow> bool" for c where
  same: "user_effect c us us"
| add: "\<lbrakk>u_id u \<notin> u_id ` set us; u_email u \<notin> u_email ` set us; u_email u = normalized e;
    us = [] \<longrightarrow> u_role u = ADMIN; us \<noteq> [] \<longrightarrow> c \<or> u_role u = VIEWER\<rbrakk> \<Longrightarrow> user_effect c us (us @ [u])"
| login: "user_effect c us (update_where (\<lambda>u. u_id u = i) (\<lambda>u. u\<lparr>u_hashed := case_option (u_hashed u) id h, u_last_login := Some t\<rparr>) us)"
| access: "\<lbrakk>a \<in> set us; active_admin a; i = u_id a \<longrightarrow> r = None \<or> r = Some ADMIN\<rbrakk> \<Longrightarrow>
    user_effect c us (update_where (\<lambda>u. u_id u = i) (\<lambda>u. u\<lparr>u_role := case_option (u_role u) id r, u_active := case_option (u_active u) id x\<rparr>) us)"

lemma update_where_simps [simp]:
  "length (update_where P f xs) = length xs" "update_where P f [] = []" "update_where P f xs = [] \<longleftrightarrow> xs = []"
  by (simp_all add: update_where_def)

lemma set_update_where: "set (update_where P f xs) = (\<lambda>x. if P x then f x else x) ` set xs"
  by (simp add: update_where_def)

lemma map_update_where: "(\<And>x. g (f x) = g x) \<Longrightarrow> map g (update_where P f xs) = map g xs"
  by (simp add: update_where_def)

lemma image_update_where: "(\<And>x. g (f x) = g x) \<Longrightarrow> g ` set (update_where P f xs) = g ` set xs"
  by (metis map_update_where set_map)

lemma ids_login [simp]:
  "u_id ` set (update_where P (\<lambda>u. u\<lparr>u_hashed := a u, u_last_login := b u\<rparr>) us) = u_id ` set us"
  by (rule image_update_where) simp

lemma find_tokenD: "get_refresh_row db j = Some r \<Longrightarrow> r \<in> set (tokens db) \<and> rf_jti r = j"
  by (auto simp: get_refresh_row_def dest: find_SomeD)

lemma find_userD: "get_user db i = Some u \<Longrightarrow> u \<in> set (users db) \<and> u_id u = i"
  by (auto simp: get_user_def dest: find_SomeD)

lemma current_userD: "get_current_user cy env c db = Inr u \<Longrightarrow> u \<in> set (users db) \<and> u_active u"
  by (auto simp: get_current_user_def dest!: find_userD split: option.splits sum.splits if_splits)

lemma require_adminD: "require_role cy env ''admin'' c db = Inr u \<Longrightarrow> u \<in> set (users db) \<and> active_admin u"
proof -
  assume a: "require_role cy env ''admin'' c db = Inr u"
  then have g: "get_current_user cy env c db = Inr u" "role_at_least (role_value (u_role u)) ''admin''"
    by (auto simp: require_role_def split: sum.splits if_splits)
  then have "u_role u = ADMIN" by (cases "u_role u") (simp_all add: role_at_least_def ROLE_RANK_def)
  with current_userD [OF g(1)] show ?thesis by (simp add: active_admin_def)
qed

lemma email_free: "get_user_by_email db (normalized e) = None \<Longrightarrow> normalized (normalized e) = normalized e \<Longrightarrow>
    normalized e \<notin> u_email ` set (users db)"
  by (auto simp: get_user_by_email_def find_None_iff)

section \<open>Every request makes one of the effects\<close>

definition effects :: "bool \<Rightarrow> auth_db \<Rightarrow> auth_db \<Rightarrow> bool" where
  "effects c db db' = (token_effect (u_id ` set (users db)) (tokens db) (tokens db') \<and> user_effect c (users db) (users db'))"

lemma effects_refl [simp]: "effects c db db"
  by (simp add: effects_def token_effect.same user_effect.same)

lemma effects_commit:
  assumes "\<And>db'. apply_writes ws db = Some db' \<Longrightarrow> effects c db db'"
  shows "effects c db (snd (commit_request (r, ws) db))"
  using assms by (auto simp: commit_request_def split: option.splits)

lemma register_user_writes:
  assumes "register_user cy env e p o' db = (r, ws)"
  shows "ws = [] \<or> (\<exists>u a. r = Inr u \<and> ws = [AddUser u, AddAudit a] \<and> u_email u = normalized e
    \<and> u_role u = (case o' of Some r \<Rightarrow> r | None \<Rightarrow> if count_users db = 0 then ADMIN else VIEWER))"
  using assms by (auto simp: register_user_def audit_entry_def Let_def split: if_splits)

lemma effects_add_user:
  assumes "u_email u = normalized e" "users db = [] \<longrightarrow> u_role u = ADMIN" "users db \<noteq> [] \<longrightarrow> c \<or> u_role u = VIEWER"
  shows "effects c db (snd (commit_request (r, [AddUser u, AddAudit a]) db))"
proof (rule effects_commit)
  fix db' assume "apply_writes [AddUser u, AddAudit a] db = Some db'"
  then have "user_fits u db" "users db' = users db @ [u]" "tokens db' = tokens db" by (auto split: if_splits)
  moreover have "user_effect c (users db) (users db @ [u])"
    by (rule user_effect.add [OF _ _ assms]) (use \<open>user_fits u db\<close> in \<open>simp_all add: user_fits_def\<close>)
  ultimately show "effects c db db'" by (simp add: effects_def token_effect.same)
qed

lemma effects_audit: "effects c db (snd (commit_request (r, [AddAudit a]) db))"
  by (rule effects_commit) (auto simp: effects_def intro: user_effect.same token_effect.same split: if_splits)

lemma effects_register: "effects c db (snd (commit_request (register_user cy env e p None db) db))"
proof (cases "register_user cy env e p None db")
  case (Pair r ws)
  from register_user_writes [OF Pair] show ?thesis
    by (auto simp: Pair count_users_def commit_request_def [of "(_, [])"] intro!: effects_add_user simp del: apply_writes.simps(2))
qed

lemma effects_command: "effects True db (snd (commit_request (create_user_command cy env e p role db) db))"
proof (cases "create_user_command cy env e p role db")
  case (Pair r ws)
  from register_user_writes [OF Pair [unfolded create_user_command_def]] show ?thesis
    by (auto simp: Pair count_users_def commit_request_def [of "(_, [])"] intro!: effects_add_user simp del: apply_writes.simps(2))
qed

text \<open>Login: the credentials are checked, then the first token of a new family is added.\<close>

lemma authenticate_writes:
  assumes "authenticate_user cy env e p db = (r, ws)"
  shows "(\<exists>x a. r = Inl x \<and> ws = [AddAudit a]) \<or>
    (\<exists>u h a. u \<in> set (users db) \<and> u_email u = normalized e \<and> cy_verify cy (u_hashed u) p \<and> u_active u
       \<and> r = Inr (u\<lparr>u_hashed := case_option (u_hashed u) id h, u_last_login := Some (ae_now env)\<rparr>)
       \<and> ws = [SetLogin (u_id u) h (ae_now env), AddAudit a] \<and> au_actor a = u_email u)"
proof (cases "\<exists>u. get_user_by_email db e = Some u \<and> cy_verify cy (u_hashed u) p \<and> u_active u")
  case True
  then obtain u where u: "get_user_by_email db e = Some u" "cy_verify cy (u_hashed u) p" "u_active u" by blast
  then have m: "u \<in> set (users db)" "u_email u = normalized e" by (auto simp: get_user_by_email_def dest: find_SomeD)
  let ?h = "if cy_needs_rehash cy (u_hashed u) then Some (cy_hash cy (ae_salt env) p) else None"
  from assms u have "r = Inr (u\<lparr>u_hashed := case_option (u_hashed u) id ?h, u_last_login := Some (ae_now env)\<rparr>)"
    "\<exists>a. ws = [SetLogin (u_id u) ?h (ae_now env), AddAudit a] \<and> au_actor a = u_email u"
    by (auto simp: authenticate_user_def audit_entry_def Let_def simp del: if_split_eq1 split del: if_split)
  with u m show ?thesis by blast
next
  case False
  with assms show ?thesis by (auto simp: authenticate_user_def audit_entry_def Let_def split: option.splits if_splits)
qed

lemma issue_token_pair_writes:
  "issue_token_pair cy env u f = (pair, ws) \<Longrightarrow>
    tp_jti pair = ae_jti env \<and> (\<exists>t. ws = [AddToken t] \<and> live t \<and> rf_replaced_by t = None \<and> rf_jti t = uuid_str (ae_jti env) \<and> rf_user t = u_id u
      \<and> rf_family t = (case f of None \<Rightarrow> ae_family env | Some x \<Rightarrow> x))"
  by (auto simp: issue_token_pair_def create_access_token_def create_refresh_token_def live_def is_revoked_def Let_def split: option.splits)

lemma effects_login_route:
  assumes "fresh_env env db"
  shows "effects c db (snd (commit_request (login_route cy env e p db) db))"
proof -
  obtain r ws where a: "authenticate_user cy env e p db = (r, ws)" by fastforce
  show ?thesis
  proof (cases r)
    case (Inl x)
    with authenticate_writes [OF a] obtain b where "ws = [AddAudit b]" by auto
    with a Inl show ?thesis by (simp add: login_route_def effects_audit)
  next
    case (Inr u')
    with authenticate_writes [OF a] obtain u h b where u: "u \<in> set (users db)" "ws = [SetLogin (u_id u) h (ae_now env), AddAudit b]"
      "u' = u\<lparr>u_hashed := case_option (u_hashed u) id h, u_last_login := Some (ae_now env)\<rparr>" by auto
    obtain pair ts where i: "issue_token_pair cy env u' None = (pair, ts)" by fastforce
    from issue_token_pair_writes [OF i] obtain t where t: "ts = [AddToken t]" "live t" "rf_replaced_by t = None"
      "rf_user t = u_id u" "rf_family t = ae_family env" by (auto simp: u(3))
    have "effects c db db'" if "apply_writes [SetLogin (u_id u) h (ae_now env), AddAudit b, AddToken t] db = Some db'" for db'
    proof -
      let ?us = "update_where (\<lambda>x. u_id x = u_id u) (\<lambda>x. x\<lparr>u_hashed := case_option (u_hashed x) id h, u_last_login := Some (ae_now env)\<rparr>) (users db)"
      from that have f: "token_fits t (db\<lparr>users := ?us, audits := audits db @ [b]\<rparr>)" and d: "users db' = ?us" "tokens db' = tokens db @ [t]"
        by (auto split: if_splits)
      from f have "rf_jti t \<notin> rf_jti ` set (tokens db)" "length (rf_jti t) \<le> 64" by (simp_all add: token_fits_def)
      moreover have "rf_family t \<notin> rf_family ` set (tokens db)" using assms by (simp add: t fresh_env_def)
      ultimately show ?thesis unfolding effects_def d
        by (intro conjI token_effect.issue [OF t(2,3)] user_effect.login) (use t(4) u(1) in simp_all)
    qed
    then have "effects c db (snd (commit_request (Inr pair, [SetLogin (u_id u) h (ae_now env), AddAudit b, AddToken t]) db))"
      by (rule effects_commit)
    then show ?thesis using a by (simp add: login_route_def Inr i u(2) t(1))
  qed
qed

text \<open>Rotation, reuse detection and logout.\<close>

lemma rotate_writes:
  assumes "rotate_refresh cy env raw db = (r, ws)"
  shows "(\<exists>x. r = Inl x \<and> ws = [])
    \<or> (\<exists>row a. row \<in> set (tokens db) \<and> is_revoked row \<and> ws = [RevokeFamily (rf_family row) (ae_now env), AddAudit a])
    \<or> (\<exists>row user pair t a. row \<in> set (tokens db) \<and> live row \<and> user \<in> set (users db) \<and> u_id user = rf_user row \<and> u_active user
         \<and> issue_token_pair cy env user (Some (rf_family row)) = (pair, [AddToken t]) \<and> r = Inr (pair, user)
         \<and> ws = [AddToken t, RevokeToken (rf_jti row) (ae_now env) (Some (uuid_str (ae_jti env))), AddAudit a])"
proof (cases "decode_token cy env raw ''refresh''")
  case (Inl x)
  with assms show ?thesis by (auto simp: rotate_refresh_def)
next
  case (Inr payload)
  show ?thesis
  proof (cases "get_refresh_row db (payload_jti cy payload)")
    case None
    with assms Inr show ?thesis by (auto simp: rotate_refresh_def)
  next
    case (Some row)
    then have row: "row \<in> set (tokens db)" by (simp add: find_tokenD)
    show ?thesis
    proof (cases "is_revoked row")
      case True
      with assms Inr Some row show ?thesis by (auto simp: rotate_refresh_def audit_entry_def)
    next
      case False
      show ?thesis
      proof (cases "\<exists>user. get_user db (rf_user row) = Some user \<and> u_active user")
        case True
        then obtain user where user: "get_user db (rf_user row) = Some user" "u_active user" by blast
        obtain pair ts where i: "issue_token_pair cy env user (Some (rf_family row)) = (pair, ts)" by fastforce
        from issue_token_pair_writes [OF i] obtain t where t: "ts = [AddToken t]" "tp_jti pair = ae_jti env" by blast
        from assms Inr Some False user i t have "r = Inr (pair, user)"
          "\<exists>a. ws = [AddToken t, RevokeToken (rf_jti row) (ae_now env) (Some (uuid_str (ae_jti env))), AddAudit a]"
          by (auto simp: rotate_refresh_def audit_entry_def)
        with row False user find_userD [OF user(1)] i t show ?thesis by (auto simp: live_def)
      next
        case no: False
        with assms Inr Some False show ?thesis by (auto simp: rotate_refresh_def split: option.splits if_splits)
      qed
    qed
  qed
qed

lemma effects_refresh_route:
  assumes "fresh_env env db"
  shows "effects c db (snd (commit_request (refresh_route cy env cookie db) db))"
proof (cases cookie)
  case None
  then show ?thesis by (simp add: refresh_route_def commit_request_def)
next
  case (Some raw)
  obtain r ws where w: "rotate_refresh cy env raw db = (r, ws)" by fastforce
  obtain r' where r': "refresh_route cy env cookie db = (r', ws)"
    using w by (cases r) (auto simp: refresh_route_def Some split: prod.splits)
  show ?thesis
    unfolding r'
  proof (rule effects_commit)
    fix db' assume d: "apply_writes ws db = Some db'"
    from rotate_writes [OF w] show "effects c db db'"
    proof (elim disjE exE conjE)
      fix row a assume h: "row \<in> set (tokens db)" "is_revoked row" "ws = [RevokeFamily (rf_family row) (ae_now env), AddAudit a]"
      with d show ?thesis by (auto simp: effects_def intro: token_effect.reuse user_effect.same split: if_splits)
    next
      fix row user pair t a assume h: "row \<in> set (tokens db)" "live row" "u_id user = rf_user row"
        "issue_token_pair cy env user (Some (rf_family row)) = (pair, [AddToken t])"
        "ws = [AddToken t, RevokeToken (rf_jti row) (ae_now env) (Some (uuid_str (ae_jti env))), AddAudit a]"
      from issue_token_pair_writes [OF h(4)] have t: "live t" "rf_replaced_by t = None" "rf_jti t = uuid_str (ae_jti env)"
        "rf_user t = rf_user row" "rf_family t = rf_family row" by (simp_all add: h(3))
      from d h(5) have f: "token_fits t db" and e: "users db' = users db"
        "tokens db' = update_where (\<lambda>x. rf_jti x = rf_jti row) (\<lambda>x. x\<lparr>rf_revoked := Some (ae_now env), rf_replaced_by := Some (rf_jti t)\<rparr>) (tokens db @ [t])"
        by (auto simp: t(3) split: if_splits)
      from f have "rf_jti t \<notin> rf_jti ` set (tokens db)" "length (rf_jti t) \<le> 64" by (simp_all add: token_fits_def)
      then show ?thesis unfolding effects_def e
        by (intro conjI token_effect.rotate [OF h(1,2) t(1,2)] user_effect.same) (simp_all add: t(4,5))
    qed (use d in simp)
  qed
qed

lemma effects_logout_route: "effects c db (snd (commit_request (logout_route cy env cred cookie db) db))"
proof (cases "logout_route cy env cred cookie db")
  case (Pair r ws)
  have "ws = [] \<or> (\<exists>row a. row \<in> set (tokens db) \<and> live row \<and> ws = [RevokeToken (rf_jti row) (ae_now env) None, AddAudit a])"
    using Pair by (auto simp: logout_route_def revoke_refresh_def live_def dest!: find_tokenD split: sum.splits option.splits if_splits prod.splits)
  then show ?thesis unfolding Pair
  proof (elim disjE exE conjE)
    fix row a assume h: "row \<in> set (tokens db)" "live row" "ws = [RevokeToken (rf_jti row) (ae_now env) None, AddAudit a]"
    show "effects c db (snd (commit_request (r, ws) db))"
    proof (rule effects_commit)
      fix db' assume "apply_writes ws db = Some db'"
      with h(3) have e: "users db' = users db"
        "tokens db' = update_where (\<lambda>x. rf_jti x = rf_jti row) (\<lambda>x. x\<lparr>rf_revoked := Some (ae_now env), rf_replaced_by := rf_replaced_by x\<rparr>) (tokens db)"
        by (auto simp: fits_def split: if_splits)
      show "effects c db db'" unfolding effects_def e by (intro conjI token_effect.logout [OF h(1,2)] user_effect.same)
    qed
  qed (simp add: commit_request_def)
qed

lemma changed_cases: "changed old x = None \<or> changed old x = x"
  by (simp add: changed_def)

text \<open>The update route writes only when the credentials authenticate an admin.\<close>

lemma update_route_writes:
  assumes "update_user_route cy env cred i r x db = (o', ws)"
  shows "ws = [] \<or> (\<exists>adm user a. require_role cy env ''admin'' cred db = Inr adm \<and> get_user db i = Some user
      \<and> ws = [SetAccess i (changed (u_role user) r) (changed (u_active user) x), AddAudit a]
      \<and> (i = u_id adm \<longrightarrow> r = None \<or> r = Some (u_role adm)))"
proof (cases "require_role cy env ''admin'' cred db")
  case (Inr adm)
  show ?thesis
  proof (cases "get_user db i")
    case (Some user)
    have "ws = [] \<or> (\<exists>a. ws = [SetAccess i (changed (u_role user) r) (changed (u_active user) x), AddAudit a]
        \<and> (i = u_id adm \<longrightarrow> r = None \<or> r = Some (u_role adm)))"
      using assms by (auto simp: update_user_route_def Inr Some Let_def split: if_splits)
    with Inr Some show ?thesis by blast
  qed (use assms in \<open>auto simp: update_user_route_def Inr split: if_splits\<close>)
qed (use assms in \<open>simp add: update_user_route_def\<close>)

lemma effects_update_user_route: "effects c db (snd (commit_request (update_user_route cy env cred i r x db) db))"
proof (cases "update_user_route cy env cred i r x db")
  case (Pair o' ws)
  from update_route_writes [OF Pair] show ?thesis unfolding Pair
  proof (elim disjE exE conjE)
    fix adm and user :: user_row and a
    let ?r = "changed (u_role user) r" and ?x = "changed (u_active user) x"
    assume h: "require_role cy env ''admin'' cred db = Inr adm" "ws = [SetAccess i ?r ?x, AddAudit a]"
      "i = u_id adm \<longrightarrow> r = None \<or> r = Some (u_role adm)"
    from require_adminD [OF h(1)] have m: "adm \<in> set (users db)" "active_admin adm" by simp_all
    have "i = u_id adm \<longrightarrow> ?r = None \<or> ?r = Some ADMIN" using h(3) m(2) changed_cases [of "u_role user" r] by (auto simp: active_admin_def)
    then have "user_effect c (users db) (update_where (\<lambda>u. u_id u = i) (\<lambda>u. u\<lparr>u_role := case_option (u_role u) id ?r, u_active := case_option (u_active u) id ?x\<rparr>) (users db))"
      by (rule user_effect.access [OF m])
    then show "effects c db (snd (commit_request (o', ws) db))" unfolding h(2)
      by (intro effects_commit) (auto simp: effects_def intro: token_effect.same split: if_splits)
  qed (simp add: commit_request_def)
qed

lemma commit_map_prod: "snd (commit_request (map_prod f id out) db) = snd (commit_request out db)"
  by (cases out) (simp add: commit_request_def split: option.splits)

lemma serve_effects: "fresh_env env db \<Longrightarrow> effects c db (serve cy env call db)"
  by (cases call) (simp_all add: serve_def run_request_def commit_map_prod register_route_def effects_register effects_login_route
    effects_refresh_route effects_logout_route effects_update_user_route)

lemma api_step_effects: "api_step cy db db' \<Longrightarrow> effects False db db'"
  by (erule api_step.cases) (simp add: serve_effects)

lemma user_effect_mono: "user_effect False us us' \<Longrightarrow> user_effect True us us'"
proof (induction rule: user_effect.induct)
  case (add u us e)
  then show ?case by (intro user_effect.add [where e = e]) auto
qed (auto intro: user_effect.intros)

lemma auth_step_effects: "auth_step cy db db' \<Longrightarrow> effects True db db'"
proof (induction rule: auth_step.induct)
  case (served db db')
  then show ?case using api_step_effects user_effect_mono by (auto simp: effects_def)
qed (use effects_command in \<open>simp add: run_request_def\<close>)

end
