(* ===== verification/AuthRuns.thy ===== *)
theory AuthRuns
  imports AuthEffects
begin

text \<open>
  What the account and token service guarantees over all its runs: the invariants are proved over the
  effects of \<open>AuthEffects\<close>, the rest over the requests themselves.
\<close>

section \<open>Invariants\<close>

definition tokens_ok :: "uuid set \<Rightarrow> refresh_row list \<Rightarrow> bool" where
  "tokens_ok us ts = (distinct (map rf_jti ts)
     \<and> (\<forall>t\<in>set ts. length (rf_jti t) \<le> 64 \<and> rf_user t \<in> us)
     \<and> (\<forall>t\<in>set ts. \<forall>t'\<in>set ts. rf_family t = rf_family t' \<longrightarrow> rf_user t = rf_user t' \<and> (live t \<and> live t' \<longrightarrow> t = t'))
     \<and> (\<forall>t\<in>set ts. \<forall>j. rf_replaced_by t = Some j \<longrightarrow>
          is_revoked t \<and> j \<noteq> rf_jti t \<and> (\<exists>t'\<in>set ts. rf_jti t' = j \<and> rf_family t' = rf_family t)))"

definition users_ok :: "user_row list \<Rightarrow> bool" where
  "users_ok us = (distinct (map u_id us) \<and> distinct (map u_email us) \<and> (\<forall>e\<in>u_email ` set us. normalized e = e)
     \<and> (us \<noteq> [] \<longrightarrow> ADMIN \<in> u_role ` set us))"

lemma char_lower_idem [simp]: "char_lower (char_lower c) = char_lower c"
proof (cases "65 \<le> (of_char c :: nat) \<and> (of_char c :: nat) \<le> 90")
  case True
  then have "(of_char (char_lower c) :: nat) = of_char c + 32" by (auto simp: char_lower_def Let_def)
  with True show ?thesis by (subst char_lower_def) (auto simp: Let_def)
qed (auto simp: char_lower_def Let_def)

lemma py_space_lower [simp]: "py_space (char_lower c) = py_space c"
  by (auto simp: char_lower_def py_space_def Let_def)

lemma strip_lower: "strip (lower s) = lower (strip s)"
  by (simp add: strip_def strip_by_def lower_def dropWhile_map comp_def rev_map)

lemma dropWhile_idem: "dropWhile P (dropWhile P xs) = dropWhile P xs"
  by (induction xs) auto

lemma dropWhile_rev_dropWhile: "dropWhile P xs = xs \<Longrightarrow> dropWhile P (rev (dropWhile P (rev xs))) = rev (dropWhile P (rev xs))"
proof (cases "rev (dropWhile P (rev xs))")
  case (Cons y ys)
  assume a: "dropWhile P xs = xs"
  have "xs = rev (dropWhile P (rev xs)) @ rev (takeWhile P (rev xs))"
    by (metis rev_append rev_rev_ident takeWhile_dropWhile_id)
  then have "xs = y # ys @ rev (takeWhile P (rev xs))" by (simp add: Cons)
  with a have "\<not> P y" by (metis dropWhile_eq_Cons_conv list.sel(1))
  with Cons show ?thesis by simp
next
  case Nil
  then have "dropWhile P (rev xs) = []" by simp
  then show ?thesis by (simp only: rev.simps dropWhile.simps)
qed

lemma strip_idem [simp]: "strip (strip s) = strip s"
  by (simp add: strip_def strip_by_def dropWhile_idem dropWhile_rev_dropWhile)

lemma normalized_idem [simp]: "normalized (normalized e) = normalized e"
  unfolding normalized_def strip_lower strip_idem by (simp add: lower_def comp_def)

lemma users_ok_effect: "user_effect c us us' \<Longrightarrow> users_ok us \<Longrightarrow> users_ok us'"
proof (induction rule: user_effect.induct)
  case (add u us e)
  then show ?case by (auto simp: users_ok_def)
next
  case (login us i h t)
  then show ?case by (simp add: users_ok_def map_update_where image_update_where)
next
  case (access a us i r x)
  let ?g = "\<lambda>u. u\<lparr>u_role := case_option (u_role u) id r, u_active := case_option (u_active u) id x\<rparr>"
  let ?f = "\<lambda>u. if u_id u = i then ?g u else u"
  let ?new = "update_where (\<lambda>u. u_id u = i) ?g us"
  have e: "u_email ` set ?new = u_email ` set us" "map u_id ?new = map u_id us" "map u_email ?new = map u_email us"
    by (simp_all add: image_update_where map_update_where)
  have "u_role (?f a) = ADMIN" using access(2,3) by (auto simp: active_admin_def)
  moreover have "u_role (?f a) \<in> u_role ` ?f ` set us" by (intro imageI access(1))
  ultimately have "ADMIN \<in> u_role ` set ?new" by (simp only: set_update_where)
  with access(4) show ?case unfolding users_ok_def e by simp
qed

lemma user_ids_effect: "user_effect c us us' \<Longrightarrow> u_id ` set us \<subseteq> u_id ` set us'"
  by (induction rule: user_effect.induct) (simp_all add: image_update_where subset_insertI)

lemma tokens_okD:
  assumes "tokens_ok us ts"
  shows "t \<in> set ts \<Longrightarrow> rf_user t \<in> us" "t \<in> set ts \<Longrightarrow> length (rf_jti t) \<le> 64"
    "t \<in> set ts \<Longrightarrow> t' \<in> set ts \<Longrightarrow> rf_family t = rf_family t' \<Longrightarrow> rf_user t = rf_user t'"
    "t \<in> set ts \<Longrightarrow> t' \<in> set ts \<Longrightarrow> rf_family t = rf_family t' \<Longrightarrow> live t \<Longrightarrow> live t' \<Longrightarrow> t = t'"
    "t \<in> set ts \<Longrightarrow> rf_replaced_by t = Some j \<Longrightarrow> is_revoked t \<and> j \<noteq> rf_jti t \<and> (\<exists>t'\<in>set ts. rf_jti t' = j \<and> rf_family t' = rf_family t)"
  using assms unfolding tokens_ok_def by blast+

lemma tokens_ok_jti: "tokens_ok us ts \<Longrightarrow> t \<in> set ts \<Longrightarrow> t' \<in> set ts \<Longrightarrow> rf_jti t = rf_jti t' \<Longrightarrow> t = t'"
  unfolding tokens_ok_def distinct_map by (elim conjE) (rule inj_onD [of rf_jti "set ts"])

text \<open>Changing rows in place and adding at most one row.\<close>

lemma tokens_ok_change:
  assumes ok: "tokens_ok us ts"
    and keys: "\<And>x. rf_jti (g x) = rf_jti x \<and> rf_user (g x) = rf_user x \<and> rf_family (g x) = rf_family x"
    and old: "\<And>x. x \<in> set ts \<Longrightarrow> live (g x) \<Longrightarrow> live x"
    and new: "\<And>t. t \<in> set new \<Longrightarrow> live t \<and> rf_replaced_by t = None \<and> rf_jti t \<notin> rf_jti ` set ts \<and> length (rf_jti t) \<le> 64 \<and> rf_user t \<in> us"
    and kin: "\<And>t x. t \<in> set new \<Longrightarrow> x \<in> set ts \<Longrightarrow> rf_family x = rf_family t \<Longrightarrow> rf_user x = rf_user t \<and> \<not> live (g x)"
    and one: "length new \<le> 1"
    and rep: "\<And>x j. x \<in> set ts \<Longrightarrow> rf_replaced_by (g x) = Some j \<Longrightarrow>
      is_revoked (g x) \<and> j \<noteq> rf_jti x \<and> (\<exists>y\<in>set ts \<union> set new. rf_jti y = j \<and> rf_family y = rf_family x)"
  shows "tokens_ok us (map g ts @ new)"
proof -
  note okD = tokens_okD [OF ok]
  have eq: "t = t'" if "t \<in> set new" "t' \<in> set new" for t t'
    using one that by (cases new) auto
  have d: "distinct (map rf_jti (map g ts @ new))"
    using ok new one keys by (cases new) (auto simp: tokens_ok_def comp_def)
  have user: "rf_user a = rf_user b" if ab: "a \<in> set (map g ts @ new)" "b \<in> set (map g ts @ new)" "rf_family a = rf_family b" for a b
  proof -
    consider x y where "a = g x" "b = g y" "x \<in> set ts" "y \<in> set ts" | x where "a = g x" "x \<in> set ts" "b \<in> set new"
      | y where "b = g y" "y \<in> set ts" "a \<in> set new" | "a \<in> set new" "b \<in> set new"
      using ab(1,2) unfolding set_append set_map Un_iff by blast
    then show ?thesis
    proof cases
      case (1 x y) then show ?thesis using okD(3) [of x y] ab(3) keys by simp
    next
      case (2 x) then show ?thesis using kin [of b x] ab(3) keys by simp
    next
      case (3 y) then show ?thesis using kin [of a y] ab(3) keys by simp
    qed (use eq [of a b] in simp)
  qed
  have live: "a = b" if ab: "a \<in> set (map g ts @ new)" "b \<in> set (map g ts @ new)" "rf_family a = rf_family b" "live a" "live b" for a b
  proof -
    consider x y where "a = g x" "b = g y" "x \<in> set ts" "y \<in> set ts" | x where "a = g x" "x \<in> set ts" "b \<in> set new"
      | y where "b = g y" "y \<in> set ts" "a \<in> set new" | "a \<in> set new" "b \<in> set new"
      using ab(1,2) unfolding set_append set_map Un_iff by blast
    then show ?thesis
    proof cases
      case (1 x y)
      have "live x" "live y" using old [OF 1(3)] old [OF 1(4)] ab(4,5) unfolding 1(1,2) by blast+
      then have "x = y" using okD(4) [OF 1(3,4)] ab(3) keys unfolding 1(1,2) by simp
      then show ?thesis by (simp add: 1(1,2))
    next
      case (2 x) then show ?thesis using kin [of b x] ab(3,4) keys by simp
    next
      case (3 y) then show ?thesis using kin [of a y] ab(3,5) keys by simp
    qed (use eq [of a b] in simp)
  qed
  have rep': "is_revoked a \<and> j \<noteq> rf_jti a \<and> (\<exists>t'\<in>set (map g ts @ new). rf_jti t' = j \<and> rf_family t' = rf_family a)"
    if aj: "a \<in> set (map g ts @ new)" "rf_replaced_by a = Some j" for a j
  proof -
    from aj(1) consider "a \<in> g ` set ts" | "a \<in> set new" unfolding set_append set_map Un_iff by blast
    then obtain x where x: "x \<in> set ts" "a = g x" using new [of a] aj(2) by cases auto
    from rep [OF x(1)] aj(2) obtain y where y: "is_revoked a" "j \<noteq> rf_jti x" "y \<in> set ts \<union> set new" "rf_jti y = j" "rf_family y = rf_family x"
      by (auto simp: x(2))
    then have "(if y \<in> set new then y else g y) \<in> set (map g ts @ new)" by auto
    with y keys show ?thesis by (intro conjI bexI [of _ "if y \<in> set new then y else g y"]) (simp_all add: x(2))
  qed
  have "length (rf_jti a) \<le> 64 \<and> rf_user a \<in> us" if a: "a \<in> set (map g ts @ new)" for a
  proof -
    from a consider x where "x \<in> set ts" "a = g x" | "a \<in> set new" unfolding set_append set_map Un_iff by blast
    then show ?thesis using new [of a] by cases (simp_all add: keys okD(1,2))
  qed
  then show ?thesis unfolding tokens_ok_def by (intro conjI ballI allI impI d user live rep') simp_all
qed

lemma tokens_ok_revoke:
  assumes ok: "tokens_ok us ts" and f: "\<And>x. rf_jti (f x) = rf_jti x \<and> rf_user (f x) = rf_user x \<and> rf_family (f x) = rf_family x
    \<and> rf_replaced_by (f x) = rf_replaced_by x \<and> is_revoked (f x)"
  shows "tokens_ok us (update_where P f ts)"
proof -
  let ?g = "\<lambda>x. if P x then f x else x"
  have g: "rf_jti (?g x) = rf_jti x \<and> rf_user (?g x) = rf_user x \<and> rf_family (?g x) = rf_family x" "rf_replaced_by (?g x) = rf_replaced_by x"
    "is_revoked x \<Longrightarrow> is_revoked (?g x)" "live (?g x) \<Longrightarrow> live x" for x
    using f by (simp_all add: live_def split: if_splits)
  have "tokens_ok us (map ?g ts @ [])"
  proof (rule tokens_ok_change [OF ok])
    fix x j assume x: "x \<in> set ts" "rf_replaced_by (?g x) = Some j"
    from tokens_okD(5) [OF ok x(1) x(2) [unfolded g]] g(3) [of x]
    show "is_revoked (?g x) \<and> j \<noteq> rf_jti x \<and> (\<exists>y\<in>set ts \<union> set []. rf_jti y = j \<and> rf_family y = rf_family x)" by simp
  qed (simp_all add: g(1) del: if_split, erule g(4))
  then show ?thesis by (simp add: update_where_def)
qed

lemma tokens_ok_effect: "token_effect us ts ts' \<Longrightarrow> tokens_ok us ts \<Longrightarrow> tokens_ok us ts'"
proof (induction rule: token_effect.induct)
  case (issue t ts)
  have "tokens_ok us (map (\<lambda>x. x) ts @ [t])"
  proof (rule tokens_ok_change [OF issue(7)])
    fix t' x assume "t' \<in> set [t]" "x \<in> set ts" "rf_family x = rf_family t'"
    then have "rf_family t \<in> rf_family ` set ts" by (metis empty_iff empty_set imageI set_ConsD)
    with issue(6) have False ..
    then show "rf_user x = rf_user t' \<and> \<not> live x" ..
  next
    fix x j assume "x \<in> set ts" "rf_replaced_by x = Some j"
    from tokens_okD(5) [OF issue(7) this]
    show "is_revoked x \<and> j \<noteq> rf_jti x \<and> (\<exists>y\<in>set ts \<union> set [t]. rf_jti y = j \<and> rf_family y = rf_family x)" by auto
  qed (use issue(1-5) in simp_all)
  then show ?case by simp
next
  case (rotate r ts t now)
  note okD = tokens_okD [OF rotate(9)]
  let ?f = "\<lambda>x. x\<lparr>rf_revoked := Some now, rf_replaced_by := Some (rf_jti t)\<rparr>"
  let ?g = "\<lambda>x. if rf_jti x = rf_jti r then ?f x else x"
  have "rf_jti t \<noteq> rf_jti r" using rotate(1,5) by auto
  then have e: "update_where (\<lambda>x. rf_jti x = rf_jti r) ?f (ts @ [t]) = map ?g ts @ [t]" by (simp add: update_where_def)
  have r: "x = r" if "x \<in> set ts" "rf_jti x = rf_jti r" for x using tokens_ok_jti [OF rotate(9)] that rotate(1) by blast
  show ?case unfolding e
  proof (rule tokens_ok_change [OF rotate(9)])
    fix t' assume "t' \<in> set [t]"
    then show "live t' \<and> rf_replaced_by t' = None \<and> rf_jti t' \<notin> rf_jti ` set ts \<and> length (rf_jti t') \<le> 64 \<and> rf_user t' \<in> us"
      using rotate(3-7) okD(1) [OF rotate(1)] by simp
  next
    fix t' x assume a: "t' \<in> set [t]" "x \<in> set ts" "rf_family x = rf_family t'"
    from a(1) have t': "t' = t" by simp
    have f: "rf_family x = rf_family r" using a(3) rotate(8) unfolding t' by (rule trans)
    have "rf_user x = rf_user t'" using okD(3) [OF a(2) rotate(1) f] unfolding t' rotate(7) .
    moreover have "\<not> live (?g x)" using okD(4) [OF a(2) rotate(1) f _ rotate(2)] by (cases "x = r") (auto simp: live_def is_revoked_def)
    ultimately show "rf_user x = rf_user t' \<and> \<not> live (?g x)" ..
  next
    fix x j assume a: "x \<in> set ts" "rf_replaced_by (?g x) = Some j"
    show "is_revoked (?g x) \<and> j \<noteq> rf_jti x \<and> (\<exists>y\<in>set ts \<union> set [t]. rf_jti y = j \<and> rf_family y = rf_family x)"
    proof (cases "rf_jti x = rf_jti r")
      case True
      then have "x = r" "j = rf_jti t" using a r [OF a(1)] by simp_all
      with \<open>rf_jti t \<noteq> rf_jti r\<close> rotate(8) show ?thesis by (simp add: is_revoked_def)
    next
      case False
      then have "rf_replaced_by x = Some j" using a(2) by simp
      from okD(5) [OF a(1) this] False show ?thesis by auto
    qed
  qed (simp_all add: live_def is_revoked_def split: if_splits)
next
  case (reuse r ts now)
  show ?case by (rule tokens_ok_revoke [OF reuse(3)]) (simp add: is_revoked_def)
next
  case (logout r ts now)
  show ?case by (rule tokens_ok_revoke [OF logout(3)]) (simp add: is_revoked_def)
qed

lemma tokens_ok_mono: "tokens_ok us ts \<Longrightarrow> us \<subseteq> us' \<Longrightarrow> tokens_ok us' ts"
  unfolding tokens_ok_def by blast

definition auth_ok :: "auth_db \<Rightarrow> bool" where
  "auth_ok db = (users_ok (users db) \<and> tokens_ok (u_id ` set (users db)) (tokens db))"

lemma auth_ok_effects: "effects c db db' \<Longrightarrow> auth_ok db \<Longrightarrow> auth_ok db'"
proof -
  assume "effects c db db'" "auth_ok db"
  then have e: "token_effect (u_id ` set (users db)) (tokens db) (tokens db')" "user_effect c (users db) (users db')"
    and ok: "users_ok (users db)" "tokens_ok (u_id ` set (users db)) (tokens db)" by (simp_all add: effects_def auth_ok_def)
  from tokens_ok_mono [OF tokens_ok_effect [OF e(1) ok(2)] user_ids_effect [OF e(2)]] users_ok_effect [OF e(2) ok(1)]
  show ?thesis by (simp add: auth_ok_def)
qed

lemma auth_ok_reachable: "auth_reachable cy db \<Longrightarrow> auth_ok db"
  unfolding auth_reachable_def
proof (induction rule: rtranclp_induct)
  case base
  show ?case by (simp add: auth_ok_def users_ok_def tokens_ok_def empty_auth_def)
qed (blast intro: auth_ok_effects auth_step_effects)

text \<open>
  The tokens of a family, in the order of their issue: each but the last is revoked and names the next
  one as its successor; the last has none.
\<close>

fun linked :: "refresh_row list \<Rightarrow> bool" where
  "linked [] = True"
| "linked [t] = (rf_replaced_by t = None)"
| "linked (t # t' # ts) = (is_revoked t \<and> rf_replaced_by t = Some (rf_jti t') \<and> linked (t' # ts))"

definition family_of :: "uuid \<Rightarrow> refresh_row list \<Rightarrow> refresh_row list" where
  "family_of f ts = filter (\<lambda>t. rf_family t = f) ts"

definition chains_ok :: "refresh_row list \<Rightarrow> bool" where
  "chains_ok ts = (\<forall>f. linked (family_of f ts))"

lemma linked_map:
  assumes "\<And>x. rf_jti (g x) = rf_jti x \<and> rf_replaced_by (g x) = rf_replaced_by x \<and> (is_revoked x \<longrightarrow> is_revoked (g x))"
  shows "linked ts \<Longrightarrow> linked (map g ts)"
  using assms by (induction ts rule: linked.induct) auto

lemma linked_snoc: "linked (ts @ [r]) \<Longrightarrow> rf_jti r' = rf_jti r \<Longrightarrow> is_revoked r' \<Longrightarrow> rf_replaced_by r' = Some (rf_jti t)
    \<Longrightarrow> rf_replaced_by t = None \<Longrightarrow> linked (ts @ [r', t])"
  by (induction ts rule: linked.induct) auto

lemma linked_live_last: "linked ts \<Longrightarrow> r \<in> set ts \<Longrightarrow> \<not> is_revoked r \<Longrightarrow> \<exists>xs. ts = xs @ [r]"
proof (induction ts rule: linked.induct)
  case (3 t t' ts)
  then have "r \<in> set (t' # ts)" by auto
  with 3 obtain xs where "t' # ts = xs @ [r]" by auto
  then show ?case by (intro exI [of _ "t # xs"]) simp
qed auto

lemma family_of_map: "(\<And>x. rf_family (g x) = rf_family x) \<Longrightarrow> family_of f (map g ts) = map g (family_of f ts)"
  by (simp add: family_of_def filter_map comp_def)

lemma chains_ok_revoke:
  assumes "chains_ok ts" "\<And>x. rf_jti (g x) = rf_jti x \<and> rf_family (g x) = rf_family x \<and> rf_replaced_by (g x) = rf_replaced_by x \<and> is_revoked (g x)"
  shows "chains_ok (update_where P g ts)"
proof -
  let ?g = "\<lambda>x. if P x then g x else x"
  have "linked (map ?g (family_of f ts))" for f
    using assms(1) by (intro linked_map) (simp_all add: assms(2) chains_ok_def)
  then show ?thesis using assms(2) by (simp add: chains_ok_def update_where_def family_of_map)
qed

lemma chains_ok_effect: "token_effect us ts ts' \<Longrightarrow> tokens_ok us ts \<Longrightarrow> chains_ok ts \<Longrightarrow> chains_ok ts'"
proof (induction rule: token_effect.induct)
  case (issue t ts)
  have "family_of (rf_family t) ts = []" using issue(6) unfolding family_of_def filter_empty_conv by (metis imageI)
  then have "linked (family_of f (ts @ [t]))" for f
    using issue(2,8) by (cases "f = rf_family t") (auto simp: chains_ok_def family_of_def)
  then show ?case by (simp add: chains_ok_def)
next
  case (rotate r ts t now)
  let ?g = "\<lambda>x. if rf_jti x = rf_jti r then x\<lparr>rf_revoked := Some now, rf_replaced_by := Some (rf_jti t)\<rparr> else x"
  have n: "rf_jti t \<noteq> rf_jti r" using rotate(1,5) by auto
  then have e: "update_where (\<lambda>x. rf_jti x = rf_jti r) (\<lambda>x. x\<lparr>rf_revoked := Some now, rf_replaced_by := Some (rf_jti t)\<rparr>) (ts @ [t])
      = map ?g ts @ [t]" by (simp add: update_where_def)
  have same: "?g x = x" if "x \<in> set ts" "x \<noteq> r" for x using tokens_ok_jti [OF rotate(9) that(1) rotate(1)] that(2) by auto
  have fam: "family_of f (map ?g ts @ [t]) = map ?g (family_of f ts) @ (if f = rf_family r then [t] else [])" for f
    using family_of_map [of ?g f ts] rotate(8) by (auto simp: family_of_def)
  have "linked (map ?g (family_of f ts) @ (if f = rf_family r then [t] else []))" for f
  proof (cases "f = rf_family r")
    case True
    have "linked (family_of f ts)" "r \<in> set (family_of f ts)" "\<not> is_revoked r"
      using rotate(1,2,10) True by (simp_all add: chains_ok_def family_of_def live_def)
    then obtain xs where xs: "family_of f ts = xs @ [r]" "linked (xs @ [r])" using linked_live_last by metis
    have "distinct (map rf_jti ts)" using rotate(9) by (simp add: tokens_ok_def)
    then have "distinct (family_of f ts)" by (simp add: family_of_def distinct_map)
    then have "r \<notin> set xs" "set xs \<subseteq> set ts" using xs(1) by (simp, metis (no_types) Un_upper1 family_of_def filter_is_subset set_append subset_trans)
    then have "?g x = x" if "x \<in> set xs" for x using that by (intro same) auto
    then have "map ?g xs = xs" by (intro map_idI)
    then have "map ?g (family_of f ts) @ [t] = xs @ [?g r, t]" unfolding xs(1) by simp
    moreover have "linked (xs @ [?g r, t])" using linked_snoc [OF xs(2), of "?g r" t] rotate(4) by (simp add: is_revoked_def)
    ultimately show ?thesis using True by simp
  next
    case False
    have "?g x = x" if "x \<in> set (family_of f ts)" for x
    proof (rule same)
      show "x \<in> set ts" "x \<noteq> r" using that False by (auto simp: family_of_def)
    qed
    then have "map ?g (family_of f ts) = family_of f ts" by (intro map_idI)
    then show ?thesis using False rotate(10) by (simp add: chains_ok_def)
  qed
  then show ?case unfolding e chains_ok_def fam by blast
next
  case (reuse r ts now)
  show ?case by (rule chains_ok_revoke [OF reuse(4)]) (simp add: is_revoked_def)
next
  case (logout r ts now)
  show ?case by (rule chains_ok_revoke [OF logout(4)]) (simp add: is_revoked_def)
qed

lemma chains_ok_reachable: "auth_reachable cy db \<Longrightarrow> chains_ok (tokens db)"
proof -
  assume r: "auth_reachable cy db"
  from r [unfolded auth_reachable_def] have "auth_ok db \<and> chains_ok (tokens db)"
  proof (induction rule: rtranclp_induct)
    case base
    have "auth_ok empty_auth" by (rule auth_ok_reachable [of cy]) (simp add: auth_reachable_def)
    then show ?case by (simp add: chains_ok_def family_of_def empty_auth_def)
  next
    case (step y z)
    then have e: "effects True y z" by (simp add: auth_step_effects)
    then have "auth_ok z" "token_effect (u_id ` set (users y)) (tokens y) (tokens z)"
      using auth_ok_effects [OF e] step(3) by (simp_all add: effects_def)
    then show ?case using chains_ok_effect step(3) by (auto simp: auth_ok_def)
  qed
  then show ?thesis ..
qed

text \<open>
  C17. In every database the service can reach when its requests and account commands run one after the
  other: user ids and e-mails are unique and the e-mails normalized; once there is a user, some account
  has the admin role; token ids are unique and every token belongs to an existing user; the tokens of a
  family belong to one user and form one chain of rotations: in the order of their issue each but the
  last is revoked and its \<^verbatim>\<open>replaced_by_jti\<close> is the id of the next, the last has no successor and is the
  only one that may be valid. (Requests that overlap are not covered: two rotations of one token that
  both read it before either commits fork the family, \<open>concurrent_rotations_fork\<close>.)
\<close>

theorem auth_invariant:
  assumes "auth_reachable cy db"
  shows "distinct (map u_id (users db)) \<and> distinct (map u_email (users db)) \<and> distinct (map rf_jti (tokens db))
    \<and> (\<forall>u\<in>set (users db). normalized (u_email u) = u_email u)
    \<and> (users db \<noteq> [] \<longrightarrow> (\<exists>u\<in>set (users db). u_role u = ADMIN))
    \<and> (\<forall>t\<in>set (tokens db). \<exists>u\<in>set (users db). u_id u = rf_user t)
    \<and> (\<forall>t\<in>set (tokens db). \<forall>t'\<in>set (tokens db). rf_family t = rf_family t' \<longrightarrow>
         rf_user t = rf_user t' \<and> (\<not> is_revoked t \<and> \<not> is_revoked t' \<longrightarrow> t = t'))
    \<and> (\<forall>f. linked (filter (\<lambda>t. rf_family t = f) (tokens db)))"
proof -
  from auth_ok_reachable [OF assms] have u: "users_ok (users db)" and t: "tokens_ok (u_id ` set (users db)) (tokens db)"
    by (simp_all add: auth_ok_def)
  have c: "\<forall>f. linked (filter (\<lambda>t. rf_family t = f) (tokens db))"
    using chains_ok_reachable [OF assms] by (simp add: chains_ok_def family_of_def)
  have "\<exists>u\<in>set (users db). u_id u = rf_user t" if "t \<in> set (tokens db)" for t
    using tokens_okD(1) [OF t that] by force
  moreover have "\<exists>u\<in>set (users db). u_role u = ADMIN" if "users db \<noteq> []"
    using u that by (force simp: users_ok_def)
  moreover have "distinct (map rf_jti (tokens db))" using t by (simp add: tokens_ok_def)
  moreover have "distinct (map u_id (users db))" "distinct (map u_email (users db))" "\<forall>u\<in>set (users db). normalized (u_email u) = u_email u"
    using u by (simp_all add: users_ok_def)
  ultimately show ?thesis using tokens_okD(3,4) [OF t] c unfolding live_def by (intro conjI ballI allI impI) blast+
qed

section \<open>Reuse\<close>

definition family_dead :: "uuid \<Rightarrow> refresh_row list \<Rightarrow> bool" where
  "family_dead f ts = (f \<in> rf_family ` set ts \<and> (\<forall>t\<in>set ts. rf_family t = f \<longrightarrow> is_revoked t))"

lemma family_dead_effect: "token_effect us ts ts' \<Longrightarrow> family_dead f ts \<Longrightarrow> family_dead f ts'"
proof (induction rule: token_effect.induct)
  case (issue t ts)
  then show ?case by (auto simp: family_dead_def)
next
  case (rotate r ts t now)
  then have "rf_family t \<noteq> f" by (auto simp: family_dead_def live_def)
  with rotate show ?case by (simp add: family_dead_def image_update_where) (auto simp: set_update_where is_revoked_def)
next
  case (logout r ts now)
  then show ?case by (simp add: family_dead_def image_update_where) (auto simp: set_update_where is_revoked_def)
next
  case (reuse r ts now)
  then show ?case by (simp add: family_dead_def image_update_where) (auto simp: set_update_where is_revoked_def)
qed

lemma family_dead_steps: "(auth_step cy)\<^sup>*\<^sup>* db db' \<Longrightarrow> family_dead f (tokens db) \<Longrightarrow> family_dead f (tokens db')"
  by (induction rule: rtranclp_induct) (auto dest!: auth_step_effects simp: effects_def intro: family_dead_effect)

lemma refresh_route_InrD:
  assumes "fst (run_request (refresh_route cy env cookie) db) = Inr pair"
  shows "\<exists>row\<in>set (tokens db). \<not> is_revoked row \<and> tp_family pair = rf_family row"
proof -
  obtain r ws where w: "refresh_route cy env cookie db = (r, ws)" by fastforce
  with assms have "r = Inr pair" by (auto simp: run_request_def commit_request_def split: option.splits)
  with w obtain raw user where "rotate_refresh cy env raw db = (Inr (pair, user), ws)"
    by (auto simp: refresh_route_def split: option.splits prod.splits sum.splits)
  then show ?thesis
    by (force simp: rotate_refresh_def issue_token_pair_def create_access_token_def create_refresh_token_def Let_def
        dest!: find_tokenD split: sum.splits option.splits if_splits)
qed

text \<open>
  C18. Presenting a refresh token that was already rotated or revoked is answered with an error and the
  whole family is revoked in the database, although the request fails; from then on, whatever requests
  follow, no token of the family is valid and no refresh ever issues one.
\<close>

theorem reuse_kills_family:
  assumes "auth_reachable cy db" "decode_token cy env raw ''refresh'' = Inr payload"
    "get_refresh_row db (payload_jti cy payload) = Some row" "is_revoked row" "fits 64 (ae_ip env)"
  shows "\<exists>db1. run_request (refresh_route cy env (Some raw)) db
        = (Inl (AuthenticationError ''Refresh token reuse detected; session family revoked''), db1)
    \<and> users db1 = users db \<and> length (audits db1) = length (audits db) + 1
    \<and> (\<forall>db2. (auth_step cy)\<^sup>*\<^sup>* db1 db2 \<longrightarrow>
         (\<forall>t\<in>set (tokens db2). rf_family t = rf_family row \<longrightarrow> is_revoked t)
         \<and> (\<forall>env' cookie pair. fst (run_request (refresh_route cy env' cookie) db2) = Inr pair \<longrightarrow> tp_family pair \<noteq> rf_family row))"
proof -
  have row: "row \<in> set (tokens db)" "rf_jti row = payload_jti cy payload" using find_tokenD [OF assms(3)] by simp_all
  have "length (payload_jti cy payload) \<le> 64"
    using tokens_okD(2) [of "u_id ` set (users db)" "tokens db" row] auth_ok_reachable [OF assms(1)] row by (simp add: auth_ok_def)
  then obtain a where a: "run_request (refresh_route cy env (Some raw)) db
        = (Inl (AuthenticationError ''Refresh token reuse detected; session family revoked''),
           db\<lparr>tokens := update_where (\<lambda>r. rf_family r = rf_family row \<and> \<not> is_revoked r) (\<lambda>r. r\<lparr>rf_revoked := Some (ae_now env)\<rparr>) (tokens db),
              audits := audits db @ [a]\<rparr>)" (is "_ = (_, ?db1)")
    using assms by (simp add: run_request_def commit_request_def refresh_route_def rotate_refresh_def audit_entry_def audit_fits_def
        fits_def uuid_str_def uuid_hex_def Let_def)
  have "family_dead (rf_family row) (tokens ?db1)"
    using row by (simp add: family_dead_def image_update_where) (auto simp: set_update_where is_revoked_def)
  then have d: "family_dead (rf_family row) (tokens db2)" if "(auth_step cy)\<^sup>*\<^sup>* ?db1 db2" for db2
    using family_dead_steps that by blast
  have "tp_family pair \<noteq> rf_family row"
    if "(auth_step cy)\<^sup>*\<^sup>* ?db1 db2" "fst (run_request (refresh_route cy env' cookie) db2) = Inr pair" for db2 env' cookie pair
    using refresh_route_InrD [OF that(2)] d [OF that(1)] by (auto simp: family_dead_def)
  with a d show ?thesis by (intro exI [of _ ?db1]) (simp add: family_dead_def)
qed

section \<open>Rotation\<close>

lemma length_uuid [simp]: "length (uuid_hex u) = 32" "length (uuid_str u) = 36"
  by (simp_all add: uuid_hex_def uuid_str_def Let_def)

lemma fits_clip: "fits 512 (clip_agent a)"
  by (simp add: fits_def clip_agent_def split: option.splits)

text \<open>The token row and the writes of a rotation.\<close>

definition next_row :: "auth_env \<Rightarrow> refresh_row \<Rightarrow> refresh_row" where
  "next_row env row = \<lparr>rf_user = rf_user row, rf_jti = uuid_str (ae_jti env), rf_family = rf_family row,
     rf_expires = ae_now_refresh env + days_td (as_refresh_days (ae_settings env)), rf_revoked = None, rf_replaced_by = None,
     rf_ip = ae_ip env, rf_agent = clip_agent (ae_agent env)\<rparr>"

definition rotated :: "auth_env \<Rightarrow> refresh_row \<Rightarrow> refresh_row list \<Rightarrow> refresh_row list" where
  "rotated env row ts = update_where (\<lambda>r. rf_jti r = rf_jti row)
     (\<lambda>r. r\<lparr>rf_revoked := Some (ae_now env), rf_replaced_by := Some (uuid_str (ae_jti env))\<rparr>) (ts @ [next_row env row])"

lemma refresh_route_active:
  assumes "decode_token cy env raw ''refresh'' = Inr payload" "get_refresh_row db (payload_jti cy payload) = Some row"
    "\<not> is_revoked row" "get_user db (rf_user row) = Some user" "u_active user"
  shows "\<exists>pair a. refresh_route cy env (Some raw) db = (Inr pair,
      [AddToken (next_row env row), RevokeToken (rf_jti row) (ae_now env) (Some (uuid_str (ae_jti env))), AddAudit a])
    \<and> tp_jti pair = ae_jti env \<and> tp_family pair = rf_family row \<and> au_actor a = u_email user
    \<and> (audit_fits a \<longleftrightarrow> length (u_email user) \<le> 128 \<and> fits 64 (ae_ip env))"
  using assms find_userD [OF assms(4)]
  by (simp add: refresh_route_def rotate_refresh_def issue_token_pair_def create_access_token_def create_refresh_token_def Let_def
      next_row_def audit_entry_def audit_fits_def fits_def)

lemma commit_rotation:
  assumes "auth_ok db" "rf_user row \<in> u_id ` set (users db)" "uuid_str (ae_jti env) \<notin> rf_jti ` set (tokens db)" "fits 64 (ae_ip env)"
  shows "commit_request (Inr pair, [AddToken (next_row env row), RevokeToken (rf_jti row) (ae_now env) (Some (uuid_str (ae_jti env))), AddAudit a]) db
    = (if audit_fits a then (Inr pair, db\<lparr>tokens := rotated env row (tokens db), audits := audits db @ [a]\<rparr>) else (Inl DatabaseError, db))"
proof -
  have "token_fits (next_row env row) db" using assms(2-4) by (simp add: token_fits_def next_row_def fits_clip)
  then show ?thesis by (simp add: commit_request_def fits_def rotated_def update_where_def)
qed

lemma find_rotated:
  assumes "distinct (map rf_jti ts)" "row \<in> set ts" "uuid_str (ae_jti env) \<notin> rf_jti ` set ts"
  shows "find (\<lambda>r. rf_jti r = uuid_str (ae_jti env)) (rotated env row ts) = Some (next_row env row)"
    "find (\<lambda>r. rf_jti r = rf_jti row) (rotated env row ts)
      = Some (row\<lparr>rf_revoked := Some (ae_now env), rf_replaced_by := Some (uuid_str (ae_jti env))\<rparr>)"
proof -
  let ?f = "\<lambda>r. if rf_jti r = rf_jti row then r\<lparr>rf_revoked := Some (ae_now env), rf_replaced_by := Some (uuid_str (ae_jti env))\<rparr> else r"
  have n: "rf_jti row \<noteq> uuid_str (ae_jti env)" using assms(2,3) by (metis imageI)
  then have e: "rotated env row ts = map ?f ts @ [next_row env row]" by (simp add: rotated_def update_where_def next_row_def)
  have d: "distinct (map rf_jti (rotated env row ts))" using assms(1,3) by (simp add: e comp_def next_row_def if_distrib [of rf_jti] cong: if_cong)
  have j: "rf_jti (next_row env row) = uuid_str (ae_jti env)" by (simp add: next_row_def)
  have "next_row env row \<in> set (rotated env row ts)" by (simp add: e)
  from find_unique [OF d this] show "find (\<lambda>r. rf_jti r = uuid_str (ae_jti env)) (rotated env row ts) = Some (next_row env row)" by (simp add: j)
  have "?f row \<in> set (rotated env row ts)" using assms(2) by (simp add: e)
  from find_unique [OF d this] show "find (\<lambda>r. rf_jti r = rf_jti row) (rotated env row ts)
      = Some (row\<lparr>rf_revoked := Some (ae_now env), rf_replaced_by := Some (uuid_str (ae_jti env))\<rparr>)" by simp
qed

text \<open>
  Presenting a token that is not revoked, on every branch: the account of its user decides. A disabled
  account is refused and nothing is written; otherwise the presented token is revoked and names its
  successor, and the successor, not revoked, has the same user and family. (The third branch is the
  audit column: it holds 128 characters of the e-mail.)
\<close>

theorem rotation_exact:
  assumes "auth_reachable cy db" "fresh_env env db" "fits 64 (ae_ip env)" "decode_token cy env raw ''refresh'' = Inr payload"
    "get_refresh_row db (payload_jti cy payload) = Some row" "\<not> is_revoked row"
  shows "\<exists>user\<in>set (users db). u_id user = rf_user row \<and>
    (if \<not> u_active user then run_request (refresh_route cy env (Some raw)) db = (Inl (AuthenticationError ''Account is disabled''), db)
     else if 128 < length (u_email user) then run_request (refresh_route cy env (Some raw)) db = (Inl DatabaseError, db)
     else \<exists>pair db1. run_request (refresh_route cy env (Some raw)) db = (Inr pair, db1) \<and> users db1 = users db
       \<and> tp_family pair = rf_family row
       \<and> get_refresh_row db1 (rf_jti row) = Some (row\<lparr>rf_revoked := Some (ae_now env), rf_replaced_by := Some (uuid_str (tp_jti pair))\<rparr>)
       \<and> (\<exists>new. get_refresh_row db1 (uuid_str (tp_jti pair)) = Some new \<and> \<not> is_revoked new
            \<and> rf_user new = rf_user row \<and> rf_family new = rf_family row))"
proof -
  have ok: "auth_ok db" by (rule auth_ok_reachable [OF assms(1)])
  then have t: "tokens_ok (u_id ` set (users db)) (tokens db)" and d: "distinct (map u_id (users db))" by (simp_all add: auth_ok_def users_ok_def)
  have row: "row \<in> set (tokens db)" using find_tokenD [OF assms(5)] by simp
  have ru: "rf_user row \<in> u_id ` set (users db)" by (rule tokens_okD(1) [OF t row])
  then obtain user where u: "user \<in> set (users db)" "u_id user = rf_user row" by auto
  have g: "get_user db (rf_user row) = Some user" unfolding get_user_def using find_unique [OF d u(1)] u(2) by simp
  show ?thesis
  proof (intro bexI [OF _ u(1)] conjI u(2))
    show "if \<not> u_active user then run_request (refresh_route cy env (Some raw)) db = (Inl (AuthenticationError ''Account is disabled''), db)
     else if 128 < length (u_email user) then run_request (refresh_route cy env (Some raw)) db = (Inl DatabaseError, db)
     else \<exists>pair db1. run_request (refresh_route cy env (Some raw)) db = (Inr pair, db1) \<and> users db1 = users db
       \<and> tp_family pair = rf_family row
       \<and> get_refresh_row db1 (rf_jti row) = Some (row\<lparr>rf_revoked := Some (ae_now env), rf_replaced_by := Some (uuid_str (tp_jti pair))\<rparr>)
       \<and> (\<exists>new. get_refresh_row db1 (uuid_str (tp_jti pair)) = Some new \<and> \<not> is_revoked new
            \<and> rf_user new = rf_user row \<and> rf_family new = rf_family row)"
    proof (cases "u_active user")
      case False
      with assms(4-6) g show ?thesis by (simp add: run_request_def commit_request_def refresh_route_def rotate_refresh_def)
    next
      case True
      from refresh_route_active [OF assms(4-6) g True] obtain pair a where
        r: "refresh_route cy env (Some raw) db = (Inr pair, [AddToken (next_row env row), RevokeToken (rf_jti row) (ae_now env) (Some (uuid_str (ae_jti env))), AddAudit a])"
        "tp_jti pair = ae_jti env" "tp_family pair = rf_family row" "audit_fits a \<longleftrightarrow> length (u_email user) \<le> 128"
        using assms(3) by auto
      have fresh: "uuid_str (ae_jti env) \<notin> rf_jti ` set (tokens db)" using assms(2) by (simp add: fresh_env_def)
      have dj: "distinct (map rf_jti (tokens db))" using t by (simp add: tokens_ok_def)
      show ?thesis
        using True find_rotated [OF dj row fresh] unfolding run_request_def r(1) commit_rotation [OF ok ru fresh assms(3)]
        by (simp add: r(2-4) get_refresh_row_def next_row_def is_revoked_def)
    qed
  qed
qed

text \<open>
  Rotation is not exclusive: two requests that read the token before either commits both succeed,
  and the family then has two valid tokens. Neither presented a revoked token, so nothing is detected:
  a thief who races the owner once keeps a session of his own.
\<close>

theorem concurrent_rotations_fork:
  assumes "auth_reachable cy db" "get_refresh_row db (payload_jti cy payload) = Some row" "\<not> is_revoked row"
    "get_user db (rf_user row) = Some user" "u_active user" "length (u_email user) \<le> 128"
    "decode_token cy env1 raw ''refresh'' = Inr payload" "fresh_env env1 db" "fits 64 (ae_ip env1)"
    "decode_token cy env2 raw ''refresh'' = Inr payload" "fresh_env env2 db" "fits 64 (ae_ip env2)"
    "uuid_str (ae_jti env1) \<noteq> uuid_str (ae_jti env2)"
  shows "\<exists>p1 db1 p2 db2.
      commit_request (refresh_route cy env1 (Some raw) db) db = (Inr p1, db1)
    \<and> commit_request (refresh_route cy env2 (Some raw) db) db1 = (Inr p2, db2)
    \<and> (\<exists>t1\<in>set (tokens db2). \<exists>t2\<in>set (tokens db2). rf_jti t1 = uuid_str (tp_jti p1) \<and> rf_jti t2 = uuid_str (tp_jti p2)
         \<and> t1 \<noteq> t2 \<and> \<not> is_revoked t1 \<and> \<not> is_revoked t2 \<and> rf_family t1 = rf_family row \<and> rf_family t2 = rf_family row)"
proof -
  have ok: "auth_ok db" by (rule auth_ok_reachable [OF assms(1)])
  then have t: "tokens_ok (u_id ` set (users db)) (tokens db)" by (simp add: auth_ok_def)
  have row: "row \<in> set (tokens db)" using find_tokenD [OF assms(2)] by simp
  note ru = tokens_okD(1) [OF t row]
  have f: "uuid_str (ae_jti env1) \<notin> rf_jti ` set (tokens db)" "uuid_str (ae_jti env2) \<notin> rf_jti ` set (tokens db)"
    using assms(8,11) by (simp_all add: fresh_env_def)
  have n: "rf_jti row \<noteq> uuid_str (ae_jti env1)" "rf_jti row \<noteq> uuid_str (ae_jti env2)" using f row by (metis imageI)+
  from refresh_route_active [OF assms(7,2-5)] obtain p1 a1 where
    r1: "refresh_route cy env1 (Some raw) db = (Inr p1, [AddToken (next_row env1 row), RevokeToken (rf_jti row) (ae_now env1) (Some (uuid_str (ae_jti env1))), AddAudit a1])"
    "tp_jti p1 = ae_jti env1" "audit_fits a1" using assms(6,9) by auto
  from refresh_route_active [OF assms(10,2-5)] obtain p2 a2 where
    r2: "refresh_route cy env2 (Some raw) db = (Inr p2, [AddToken (next_row env2 row), RevokeToken (rf_jti row) (ae_now env2) (Some (uuid_str (ae_jti env2))), AddAudit a2])"
    "tp_jti p2 = ae_jti env2" "audit_fits a2" using assms(6,12) by auto
  let ?db1 = "db\<lparr>tokens := rotated env1 row (tokens db), audits := audits db @ [a1]\<rparr>"
  let ?db2 = "?db1\<lparr>tokens := rotated env2 row (tokens ?db1), audits := audits ?db1 @ [a2]\<rparr>"
  have c1: "commit_request (refresh_route cy env1 (Some raw) db) db = (Inr p1, ?db1)"
    unfolding r1(1) commit_rotation [OF ok ru f(1) assms(9)] using r1(3) by simp
  have e: "effects True db ?db1"
    using effects_refresh_route [OF assms(8), of True cy "Some raw"] by (simp add: c1)
  have "rf_jti ` set (rotated env1 row (tokens db)) = insert (uuid_str (ae_jti env1)) (rf_jti ` set (tokens db))"
    unfolding rotated_def by (subst image_update_where) (simp_all add: next_row_def)
  then have f2: "uuid_str (ae_jti env2) \<notin> rf_jti ` set (tokens ?db1)" using f(2) assms(13) by simp
  have c2: "commit_request (refresh_route cy env2 (Some raw) db) ?db1 = (Inr p2, ?db2)"
    unfolding r2(1) by (subst commit_rotation) (use auth_ok_effects [OF e ok] ru f2 assms(12) r2(3) in simp_all)
  have m: "next_row env1 row \<in> set (tokens ?db2)" "next_row env2 row \<in> set (tokens ?db2)"
    using n by (simp_all add: rotated_def update_where_def next_row_def)
  show ?thesis
    by (rule exI [of _ p1], rule exI [of _ ?db1], rule exI [of _ p2], rule exI [of _ ?db2], intro conjI c1 c2 bexI [OF _ m(1)] bexI [OF _ m(2)])
      (use assms(13) r1(2) r2(2) in \<open>simp_all add: next_row_def is_revoked_def\<close>)
qed

section \<open>Privileges\<close>

lemma updated_row:
  assumes "distinct (map u_id us)" "u \<in> set us" "u' \<in> set (update_where P f us)" "u_id u' = u_id u" "\<And>x. u_id (f x) = u_id x"
  shows "u' = (if P u then f u else u)"
proof -
  from assms(3) obtain v where v: "v \<in> set us" "u' = (if P v then f v else v)" by (auto simp: set_update_where)
  then have "u_id v = u_id u" using assms(4,5) by (simp split: if_splits)
  then have "v = u" using assms(1,2) v(1) by (metis distinct_map inj_onD)
  with v(2) show ?thesis by simp
qed

lemma user_effect_new:
  "user_effect False us us' \<Longrightarrow> u' \<in> set us' \<Longrightarrow> u_id u' \<notin> u_id ` set us \<Longrightarrow> u_role u' = (if us = [] then ADMIN else VIEWER)"
proof (induction rule: user_effect.induct)
  case (add v us e)
  then have "u' = v" by (metis Un_iff empty_iff imageI list.set(1) set_ConsD set_append)
  with add show ?case by simp
next
  case (same us)
  then show ?case by blast
next
  case (login us i h t)
  have "u_id u' \<in> u_id ` set us" using imageI [OF login(1), of u_id] by (simp add: image_update_where)
  with login(2) show ?case ..
next
  case (access a us i r x)
  have "u_id u' \<in> u_id ` set us" using imageI [OF access(4), of u_id] by (simp add: image_update_where)
  with access(5) show ?case ..
qed

text \<open>What a batch of writes without an access change leaves of roles and flags.\<close>

definition access_of :: "user_row \<Rightarrow> uuid \<times> user_role \<times> bool" where
  "access_of u = (u_id u, u_role u, u_active u)"

lemma writes_access:
  "apply_writes ws db = Some db' \<Longrightarrow> \<forall>i r a. SetAccess i r a \<notin> set ws \<Longrightarrow>
    \<exists>new. map access_of (users db') = map access_of (users db) @ new \<and> ((\<forall>u. AddUser u \<notin> set ws) \<longrightarrow> new = [])"
proof (induction ws arbitrary: db)
  case (Cons w ws)
  obtain db1 where d: "apply_write w db = Some db1" "apply_writes ws db1 = Some db'" using Cons.prems(1) by (auto split: option.splits)
  obtain new where n: "map access_of (users db') = map access_of (users db1) @ new" "(\<forall>u. AddUser u \<notin> set ws) \<longrightarrow> new = []"
    using Cons.IH [OF d(2)] Cons.prems(2) by auto
  have login: "map access_of (update_where P (\<lambda>u. u\<lparr>u_hashed := a u, u_last_login := b u\<rparr>) us) = map access_of us" for P a b us
    by (rule map_update_where) (simp add: access_of_def)
  have "\<exists>m. map access_of (users db1) = map access_of (users db) @ m \<and> ((\<forall>u. w \<noteq> AddUser u) \<longrightarrow> m = [])"
    using d(1) Cons.prems(2) by (cases w) (auto simp: login split: if_splits)
  then obtain m where "map access_of (users db1) = map access_of (users db) @ m" "(\<forall>u. w \<noteq> AddUser u) \<longrightarrow> m = []" by blast
  with n show ?case by (intro exI [of _ "m @ new"]) auto
qed simp

lemma call_writes_access:
  assumes "\<forall>cred i r x. c \<noteq> UpdateUser cred i r x"
  shows "SetAccess i r a \<notin> set (snd (call_writes cy env c db)) \<and> ((\<forall>e p. c \<noteq> Register e p) \<longrightarrow> AddUser u \<notin> set (snd (call_writes cy env c db)))"
proof (cases c)
  case (Register e p)
  obtain res ws where "register_user cy env e p None db = (res, ws)" by fastforce
  from register_user_writes [OF this] this show ?thesis by (auto simp: Register register_route_def)
next
  case (Login e p)
  obtain res ws where w: "authenticate_user cy env e p db = (res, ws)" by fastforce
  have "SetAccess i r a \<notin> set ws \<and> AddUser u \<notin> set ws" using authenticate_writes [OF w] by auto
  then show ?thesis
    using issue_token_pair_writes by (auto simp: Login login_route_def w split: sum.splits prod.splits dest!: issue_token_pair_writes)
next
  case (Refresh cookie)
  have "SetAccess i r a \<notin> set (snd (refresh_route cy env cookie db)) \<and> AddUser u \<notin> set (snd (refresh_route cy env cookie db))"
  proof (cases cookie)
    case (Some raw)
    obtain res ws where w: "rotate_refresh cy env raw db = (res, ws)" by fastforce
    have "SetAccess i r a \<notin> set ws \<and> AddUser u \<notin> set ws" using rotate_writes [OF w] by auto
    then show ?thesis using w by (cases res) (auto simp: refresh_route_def Some split: prod.splits)
  qed (simp add: refresh_route_def)
  then show ?thesis by (simp add: Refresh)
next
  case (Logout cred cookie)
  then show ?thesis
    by (auto simp: logout_route_def revoke_refresh_def split: sum.splits option.splits if_splits prod.splits)
next
  case (UpdateUser cred j q x)
  with assms show ?thesis by blast
qed

lemma map_accessD:
  assumes "map access_of us' = map access_of us @ new" "distinct (map u_id us')" "u \<in> set us" "u' \<in> set us'" "u_id u' = u_id u"
  shows "u_role u' = u_role u \<and> u_active u' = u_active u"
proof -
  have "access_of u \<in> set (map access_of us')" unfolding assms(1) using assms(3) by simp
  then obtain v where v: "v \<in> set us'" "access_of v = access_of u" by auto
  then have "u_id v = u_id u'" using assms(5) by (simp add: access_of_def)
  then have "v = u'" using assms(2,4) v(1) by (metis distinct_map inj_onD)
  with v(2) show ?thesis by (simp add: access_of_def)
qed

lemma current_user_token:
  assumes "get_current_user cy env cred db = Inr u"
  shows "\<exists>token payload. cred = Some token \<and> decode_token cy env token ''access'' = Inr payload
    \<and> parse_uuid (case json_get payload ''sub'' of None \<Rightarrow> ''None'' | Some j \<Rightarrow> py_str (cy_render cy) j) = Some (u_id u)
    \<and> get_user db (u_id u) = Some u \<and> u_active u"
  using assms find_userD by (fastforce simp: get_current_user_def split: option.splits sum.splits if_splits)

text \<open>
  C19. No request gives anyone a privilege except an administrator's. When a request served on a reachable
  database changes the role or the active flag of an account, it is an \<^verbatim>\<open>update_user\<close> call for that
  account, its bearer token decodes as an access token, the token's subject is an existing, active
  account with the admin role, and the new role and flag are those the call asks for; and not even an
  admin changes the admin's own role. An account appears only by a registration, as the admin of an
  empty table or as a viewer.
\<close>

theorem privileges_from_admins:
  assumes "auth_reachable cy db" "fresh_env env db" "serve cy env c db = db'"
  shows "(\<forall>u'\<in>set (users db'). u_id u' \<notin> u_id ` set (users db) \<longrightarrow>
         (\<exists>e p. c = Register e p) \<and> u_role u' = (if users db = [] then ADMIN else VIEWER))
    \<and> (\<forall>u\<in>set (users db). \<forall>u'\<in>set (users db'). u_id u' = u_id u \<and> (u_role u' \<noteq> u_role u \<or> u_active u' \<noteq> u_active u) \<longrightarrow>
         (\<exists>token r x payload adm. c = UpdateUser (Some token) (u_id u) r x
            \<and> decode_token cy env token ''access'' = Inr payload
            \<and> parse_uuid (case json_get payload ''sub'' of None \<Rightarrow> ''None'' | Some j \<Rightarrow> py_str (cy_render cy) j) = Some (u_id adm)
            \<and> get_user db (u_id adm) = Some adm \<and> u_active adm \<and> u_role adm = ADMIN
            \<and> (u_role u' = u_role u \<or> r = Some (u_role u')) \<and> (u_active u' = u_active u \<or> x = Some (u_active u'))
            \<and> (u_id adm = u_id u \<longrightarrow> u_role u' = u_role u)))"
proof -
  have e: "effects c' db db'" for c' using serve_effects [OF assms(2)] assms(3) by blast
  then have ue: "user_effect False (users db) (users db')" by (simp add: effects_def)
  have d: "distinct (map u_id (users db))" "distinct (map u_id (users db'))"
    using auth_ok_reachable [OF assms(1)] auth_ok_effects [OF e auth_ok_reachable [OF assms(1)]] by (simp_all add: auth_ok_def users_ok_def)
  show ?thesis
  proof (cases "\<exists>cred i r x. c = UpdateUser cred i r x")
    case False
    then have nu: "\<forall>cred i r x. c \<noteq> UpdateUser cred i r x" by blast
    note w = call_writes_access [OF nu, of _ _ _ cy env db]
    have a: "\<exists>new. map access_of (users db') = map access_of (users db) @ new \<and> ((\<forall>e p. c \<noteq> Register e p) \<longrightarrow> new = [])"
    proof (cases "apply_writes (snd (call_writes cy env c db)) db")
      case None
      then have "db' = db" using assms(3) by (simp add: serve_def run_request_def commit_request_def)
      then show ?thesis by simp
    next
      case (Some z)
      then have "db' = z" using assms(3) by (simp add: serve_def run_request_def commit_request_def)
      with writes_access [OF Some] w show ?thesis by blast
    qed
    then obtain new where n: "map access_of (users db') = map access_of (users db) @ new" "(\<forall>e p. c \<noteq> Register e p) \<longrightarrow> new = []" by blast
    have same: "u_role u' = u_role u \<and> u_active u' = u_active u" if "u \<in> set (users db)" "u' \<in> set (users db')" "u_id u' = u_id u" for u u'
      by (rule map_accessD [OF n(1) d(2) that])
    have reg: "\<exists>e p. c = Register e p" if "u' \<in> set (users db')" "u_id u' \<notin> u_id ` set (users db)" for u'
    proof (rule ccontr)
      assume "\<not> (\<exists>e p. c = Register e p)"
      then have "map access_of (users db') = map access_of (users db)" using n by simp
      then have "map fst (map access_of (users db')) = map fst (map access_of (users db))" by simp
      then have "map u_id (users db') = map u_id (users db)" by (simp add: comp_def access_of_def)
      then have "u_id ` set (users db') = u_id ` set (users db)" by (metis set_map)
      with that show False by blast
    qed
    show ?thesis
    proof (intro conjI ballI impI)
      fix u' assume u': "u' \<in> set (users db')" "u_id u' \<notin> u_id ` set (users db)"
      show "\<exists>e p. c = Register e p" by (rule reg [OF u'])
      show "u_role u' = (if users db = [] then ADMIN else VIEWER)" by (rule user_effect_new [OF ue u'])
    next
      fix u u' assume u: "u \<in> set (users db)" "u' \<in> set (users db')" "u_id u' = u_id u \<and> (u_role u' \<noteq> u_role u \<or> u_active u' \<noteq> u_active u)"
      have False using same [OF u(1,2)] u(3) by simp
      then show "\<exists>token r x payload adm. c = UpdateUser (Some token) (u_id u) r x
            \<and> decode_token cy env token ''access'' = Inr payload
            \<and> parse_uuid (case json_get payload ''sub'' of None \<Rightarrow> ''None'' | Some j \<Rightarrow> py_str (cy_render cy) j) = Some (u_id adm)
            \<and> get_user db (u_id adm) = Some adm \<and> u_active adm \<and> u_role adm = ADMIN
            \<and> (u_role u' = u_role u \<or> r = Some (u_role u')) \<and> (u_active u' = u_active u \<or> x = Some (u_active u'))
            \<and> (u_id adm = u_id u \<longrightarrow> u_role u' = u_role u)" ..
    qed
  next
    case True
    then obtain cred i r x where c: "c = UpdateUser cred i r x" by blast
    obtain o' ws where p: "update_user_route cy env cred i r x db = (o', ws)" by fastforce
    have db': "db' = snd (commit_request (o', ws) db)"
      by (simp only: assms(3) [symmetric] c serve_def run_request_def call_writes.simps commit_map_prod p)
    from update_route_writes [OF p] show ?thesis
    proof (elim disjE exE conjE)
      assume "ws = []"
      then have e: "db' = db" by (simp add: db' commit_request_def)
      have eq: "u' = u" if "u \<in> set (users db)" "u' \<in> set (users db)" "u_id u' = u_id u" for u u'
        using d(1) that by (metis distinct_map inj_onD)
      show ?thesis unfolding e using eq by (intro conjI ballI impI) (blast+)
    next
      fix adm and user :: user_row and a
      let ?r = "changed (u_role user) r" and ?x = "changed (u_active user) x"
      assume h: "require_role cy env ''admin'' cred db = Inr adm" "get_user db i = Some user" "ws = [SetAccess i ?r ?x, AddAudit a]"
        "i = u_id adm \<longrightarrow> r = None \<or> r = Some (u_role adm)"
      have g: "get_current_user cy env cred db = Inr adm" using h(1) by (auto simp: require_role_def split: sum.splits if_splits)
      have adm: "u_role adm = ADMIN" using require_adminD [OF h(1)] by (simp add: active_admin_def)
      obtain token payload where t: "cred = Some token" "decode_token cy env token ''access'' = Inr payload"
        "parse_uuid (case json_get payload ''sub'' of None \<Rightarrow> ''None'' | Some j \<Rightarrow> py_str (cy_render cy) j) = Some (u_id adm)"
        "get_user db (u_id adm) = Some adm" "u_active adm" using current_user_token [OF g] by blast
      have us: "users db' = users db \<or> users db' = update_where (\<lambda>u. u_id u = i)
          (\<lambda>u. u\<lparr>u_role := case_option (u_role u) id ?r, u_active := case_option (u_active u) id ?x\<rparr>) (users db)"
        by (auto simp: db' h(3) commit_request_def split: if_splits)
      have ids: "u_id ` set (users db') = u_id ` set (users db)"
        using us by (elim disjE) (simp_all add: image_update_where)
      have old: "u' = u \<or> (u_id u = i \<and> u' = u\<lparr>u_role := case_option (u_role u) id ?r, u_active := case_option (u_active u) id ?x\<rparr>)"
        if "u \<in> set (users db)" "u' \<in> set (users db')" "u_id u' = u_id u" for u u'
        using us
      proof (elim disjE)
        assume "users db' = users db"
        then show ?thesis using that d(1) by (metis distinct_map inj_onD)
      next
        assume q: "users db' = update_where (\<lambda>u. u_id u = i)
          (\<lambda>u. u\<lparr>u_role := case_option (u_role u) id ?r, u_active := case_option (u_active u) id ?x\<rparr>) (users db)"
        from updated_row [OF d(1) that(1) that(2) [unfolded q] that(3)] show ?thesis by (auto split: if_splits)
      qed
      have "\<exists>token r x payload adm. c = UpdateUser (Some token) (u_id u) r x
            \<and> decode_token cy env token ''access'' = Inr payload
            \<and> parse_uuid (case json_get payload ''sub'' of None \<Rightarrow> ''None'' | Some j \<Rightarrow> py_str (cy_render cy) j) = Some (u_id adm)
            \<and> get_user db (u_id adm) = Some adm \<and> u_active adm \<and> u_role adm = ADMIN
            \<and> (u_role u' = u_role u \<or> r = Some (u_role u')) \<and> (u_active u' = u_active u \<or> x = Some (u_active u'))
            \<and> (u_id adm = u_id u \<longrightarrow> u_role u' = u_role u)"
        if v: "u \<in> set (users db)" "u' \<in> set (users db')" "u_id u' = u_id u" "u_role u' \<noteq> u_role u \<or> u_active u' \<noteq> u_active u" for u u'
      proof -
        have u': "u_id u = i" "u_role u' = case_option (u_role u) id ?r" "u_active u' = case_option (u_active u) id ?x"
          using old [OF v(1-3)] v(4) by auto
        have role: "u_role u' = u_role u \<or> r = Some (u_role u')" "u_active u' = u_active u \<or> x = Some (u_active u')"
          using u'(2,3) changed_cases [of "u_role user" r] changed_cases [of "u_active user" x] by (auto split: option.splits)
        have "u_role u' = u_role u" if "u_id adm = u_id u"
        proof -
          have "adm \<in> set (users db)" using find_userD [OF t(4)] by simp
          then have "adm = u" using v(1) that d(1) by (metis distinct_map inj_onD)
          then show ?thesis using role(1) h(4) u'(1) by auto
        qed
        then show ?thesis using c t adm u'(1) role by (intro exI [of _ token] exI [of _ r] exI [of _ x] exI [of _ payload] exI [of _ adm]) simp
      qed
      then show ?thesis using ids by (intro conjI ballI impI) (simp_all only: not_False_eq_True image_eqI, blast+)
    qed
  qed
qed

text \<open>The guard of \<^verbatim>\<open>update_user\<close> protects an admin's own role, not the active flag.\<close>

lemma no_admin_effect:
  "user_effect False us us' \<Longrightarrow> us \<noteq> [] \<and> (\<forall>u\<in>set us. \<not> active_admin u) \<Longrightarrow> us' \<noteq> [] \<and> (\<forall>u\<in>set us'. \<not> active_admin u)"
proof (induction rule: user_effect.induct)
  case (login us i h t)
  then show ?case by (simp add: set_update_where) (auto simp: active_admin_def)
qed (auto simp: active_admin_def)

text \<open>
  An admin may deactivate the own account. When it was the only active admin the request succeeds, and
  from then on no sequence of requests ever gives the system an active admin again (only the command
  line can add one).
\<close>

theorem admin_lockout:
  assumes "auth_reachable cy db" "get_current_user cy env cred db = Inr adm" "u_role adm = ADMIN"
    "\<forall>u\<in>set (users db). u_role u = ADMIN \<and> u_active u \<longrightarrow> u = adm" "length (u_email adm) \<le> 128" "fits 64 (ae_ip env)"
  shows "\<exists>after db1. run_request (update_user_route cy env cred (u_id adm) None (Some False)) db = (Inr after, db1)
    \<and> (\<forall>db2. (api_step cy)\<^sup>*\<^sup>* db1 db2 \<longrightarrow> (\<forall>u\<in>set (users db2). \<not> (u_role u = ADMIN \<and> u_active u)))"
proof -
  have d: "distinct (map u_id (users db))" using auth_ok_reachable [OF assms(1)] by (simp add: auth_ok_def users_ok_def)
  from current_userD [OF assms(2)] have m: "adm \<in> set (users db)" "u_active adm" by simp_all
  have g: "get_user db (u_id adm) = Some adm" unfolding get_user_def by (rule find_unique [OF d m(1)])
  have r: "require_role cy env ''admin'' cred db = Inr adm"
    using assms(2,3) by (simp add: require_role_def role_at_least_def ROLE_RANK_def)
  let ?us = "update_where (\<lambda>u. u_id u = u_id adm) (\<lambda>u. u\<lparr>u_role := u_role u, u_active := False\<rparr>) (users db)"
  obtain a where "run_request (update_user_route cy env cred (u_id adm) None (Some False)) db
      = (Inr (adm\<lparr>u_active := False\<rparr>), db\<lparr>users := ?us, audits := audits db @ [a]\<rparr>)" (is "_ = (_, ?db1)")
    using r g assms(5,6) m(2) by (simp add: run_request_def commit_request_def update_user_route_def changed_def audit_fits_def fits_def)
  moreover have "users db2 \<noteq> [] \<and> (\<forall>u\<in>set (users db2). \<not> active_admin u)" if "(api_step cy)\<^sup>*\<^sup>* ?db1 db2" for db2
    using that
  proof (induction rule: rtranclp_induct)
    case base
    have "u = adm" if "u \<in> set (users db)" "u_id u = u_id adm" for u using d m(1) that by (metis distinct_map inj_onD)
    then have "\<not> active_admin u" if "u \<in> set ?us" for u
      using that assms(4) unfolding set_update_where by (auto simp: active_admin_def)
    moreover have "users db \<noteq> []" using m(1) by auto
    ultimately show ?case by simp
  next
    case (step y z)
    from api_step_effects [OF step(2)] have "user_effect False (users y) (users z)" by (simp add: effects_def)
    then show ?case using step(3) by (rule no_admin_effect)
  qed
  ultimately show ?thesis unfolding active_admin_def by blast
qed

text \<open>
  The first account is the admin, but the check and the insertion are not one step: two registrations
  that both see the empty table commit as two admins.
\<close>

theorem concurrent_bootstrap_admins:
  assumes "users db = []" "normalized e1 \<noteq> normalized e2" "ae_user_id env1 \<noteq> ae_user_id env2"
    "length (normalized e1) \<le> 128" "length (normalized e2) \<le> 128" "fits 64 (ae_ip env1)" "fits 64 (ae_ip env2)"
    "length (cy_hash cy (ae_salt env1) pw1) \<le> 512" "length (cy_hash cy (ae_salt env2) pw2) \<le> 512"
  shows "\<exists>u1 u2 db1 db2. commit_request (register_route cy env1 e1 pw1 db) db = (Inr u1, db1)
    \<and> commit_request (register_route cy env2 e2 pw2 db) db1 = (Inr u2, db2)
    \<and> users db2 = [u1, u2] \<and> u_email u1 = normalized e1 \<and> u_email u2 = normalized e2 \<and> u_role u1 = ADMIN \<and> u_role u2 = ADMIN"
  using assms
  by (simp add: register_route_def register_user_def get_user_by_email_def count_users_def commit_request_def audit_entry_def
      audit_fits_def user_fits_def fits_def Let_def)

text \<open>
  The audit column for the actor is shorter than an e-mail may be: with an e-mail of more than 128
  characters every login attempt ends in a database error (status 500 instead of 401) and leaves no
  trace in the audit log, and no account can be registered.
\<close>

theorem long_email_unaudited:
  assumes "128 < length (normalized e)"
  shows "run_request (login_route cy env e p) db = (Inl DatabaseError, db)
    \<and> (get_user_by_email db e = None \<longrightarrow> run_request (register_route cy env e p) db = (Inl DatabaseError, db))"
proof
  obtain r ws where a: "authenticate_user cy env e p db = (r, ws)" by fastforce
  show "run_request (login_route cy env e p) db = (Inl DatabaseError, db)"
    using assms by (auto simp: run_request_def commit_request_def login_route_def authenticate_user_def audit_entry_def audit_fits_def
      issue_token_pair_def create_access_token_def create_refresh_token_def get_user_by_email_def Let_def dest: find_SomeD split: option.splits if_splits)
  show "get_user_by_email db e = None \<longrightarrow> run_request (register_route cy env e p) db = (Inl DatabaseError, db)"
    using assms by (auto simp: run_request_def commit_request_def register_route_def register_user_def get_user_by_email_def audit_entry_def
      audit_fits_def Let_def split: option.splits)
qed

section \<open>A concrete run\<close>

text \<open>Tokens that carry their payload and key, passwords kept as they are.\<close>

definition demo_crypto :: "((string \<times> json) list \<times> string) crypto" where
  "demo_crypto = \<lparr>cy_hash = (\<lambda>_ pw. pw), cy_verify = (=), cy_needs_rehash = (\<lambda>_. False), cy_encode = Pair,
     cy_decode = (\<lambda>(p, k') k l now.
       if k' \<noteq> k then Inl InvalidSignature
       else case (json_get p ''iat'', json_get p ''exp'') of
         (Some (JInt iat), Some (JInt ex)) \<Rightarrow>
           if now + seconds_td l < seconds_td iat then Inl InvalidSignature
           else if seconds_td ex \<le> now - seconds_td l then Inl ExpiredSignature else Inr p
       | _ \<Rightarrow> Inl InvalidSignature),
     cy_render = (\<lambda>_. [])\<rparr>"

definition demo_env :: "nat \<Rightarrow> auth_env" where
  "demo_env n = \<lparr>ae_settings = \<lparr>as_access_minutes = 30, as_refresh_days = 14, as_secret = ''key''\<rparr>, ae_ip = None, ae_agent = None,
     ae_now = 0, ae_now_access = 0, ae_now_refresh = 0, ae_salt = 0, ae_user_id = n, ae_access_jti = n, ae_jti = n, ae_family = n\<rparr>"

definition demo_user :: user_row where
  "demo_user = \<lparr>u_id = 1, u_email = ''a@b'', u_hashed = ''pw'', u_role = ADMIN, u_active = True, u_last_login = Some 0\<rparr>"

definition demo_token :: "nat \<Rightarrow> (string \<times> json) list \<times> string" where
  "demo_token n = (refresh_payload 1 n 2 0 (days_td 14), ''key'')"

definition demo_access :: "(string \<times> json) list \<times> string" where
  "demo_access = (access_payload 1 ''admin'' 2 0 (seconds_td 1800), ''key'')"

definition demo_row :: "nat \<Rightarrow> refresh_row" where
  "demo_row n = \<lparr>rf_user = 1, rf_jti = uuid_str n, rf_family = 2, rf_expires = days_td 14, rf_revoked = None, rf_replaced_by = None,
     rf_ip = None, rf_agent = None\<rparr>"

lemma uuid_str_small [simp]: "n < 100 \<Longrightarrow> m < 100 \<Longrightarrow> uuid_str n = uuid_str m \<longleftrightarrow> n = m"
  by (intro uuid_str_inject) simp_all

lemma uuid_str_truthy [simp]: "uuid_str n \<noteq> []"
  by (metis length_0_conv length_uuid(2) zero_neq_numeral)

lemma normalized_demo: "normalized ''a@b'' = ''a@b''"
  by code_simp

lemma demo_registered:
  "\<exists>as. serve demo_crypto (demo_env 1) (Register ''a@b'' ''pw'') empty_auth = \<lparr>users = [demo_user\<lparr>u_last_login := None\<rparr>], tokens = [], audits = as\<rparr>"
  by (simp add: serve_def run_request_def commit_request_def register_route_def register_user_def get_user_by_email_def normalized_demo
      empty_auth_def count_users_def demo_env_def demo_user_def demo_crypto_def audit_entry_def audit_fits_def user_fits_def fits_def Let_def)

lemma demo_login: "\<exists>as. serve demo_crypto (demo_env 2) (Login ''a@b'' ''pw'') (serve demo_crypto (demo_env 1) (Register ''a@b'' ''pw'') empty_auth)
    = \<lparr>users = [demo_user], tokens = [demo_row 2], audits = as\<rparr>"
proof -
  have l: "\<exists>as. serve demo_crypto (demo_env 2) (Login ''a@b'' ''pw'') \<lparr>users = [demo_user\<lparr>u_last_login := None\<rparr>], tokens = [], audits = bs\<rparr>
      = \<lparr>users = [demo_user], tokens = [demo_row 2], audits = as\<rparr>" for bs
    by (simp add: serve_def run_request_def commit_request_def login_route_def authenticate_user_def get_user_by_email_def normalized_demo
        issue_token_pair_def create_access_token_def create_refresh_token_def demo_env_def demo_user_def demo_crypto_def demo_row_def
        audit_entry_def audit_fits_def token_fits_def fits_def clip_agent_def update_where_def Let_def)
  from demo_registered obtain bs where "serve demo_crypto (demo_env 1) (Register ''a@b'' ''pw'') empty_auth
      = \<lparr>users = [demo_user\<lparr>u_last_login := None\<rparr>], tokens = [], audits = bs\<rparr>" by blast
  with l [of bs] show ?thesis by (simp only:)
qed

lemma demo_reachable: "\<exists>as. auth_reachable demo_crypto \<lparr>users = [demo_user], tokens = [demo_row 2], audits = as\<rparr>"
proof -
  let ?db = "serve demo_crypto (demo_env 1) (Register ''a@b'' ''pw'') empty_auth"
  have "auth_step demo_crypto empty_auth ?db"
    by (intro served api_call) (simp add: fresh_env_def empty_auth_def)
  moreover have "auth_step demo_crypto ?db (serve demo_crypto (demo_env 2) (Login ''a@b'' ''pw'') ?db)"
  proof (intro served api_call)
    show "fresh_env (demo_env 2) ?db"
      by (simp add: serve_def run_request_def commit_request_def register_route_def register_user_def get_user_by_email_def normalized_demo
          empty_auth_def count_users_def demo_env_def demo_crypto_def audit_entry_def audit_fits_def user_fits_def fits_def Let_def fresh_env_def)
  qed
  ultimately have "auth_reachable demo_crypto (serve demo_crypto (demo_env 2) (Login ''a@b'' ''pw'') ?db)"
    unfolding auth_reachable_def by (rule rtranclp.rtrancl_into_rtrancl [OF r_into_rtranclp])
  moreover obtain as where "serve demo_crypto (demo_env 2) (Login ''a@b'' ''pw'') ?db = \<lparr>users = [demo_user], tokens = [demo_row 2], audits = as\<rparr>"
    using demo_login by blast
  ultimately show ?thesis by (intro exI [of _ as]) (simp only:)
qed

theorem auth_invariant_witness:
  "\<exists>as. auth_reachable demo_crypto \<lparr>users = [demo_user], tokens = [demo_row 2], audits = as\<rparr>
    \<and> distinct (map rf_jti (tokens \<lparr>users = [demo_user], tokens = [demo_row 2], audits = as\<rparr>))"
  using demo_reachable auth_invariant by blast

lemma demo_decode:
  "decode_token demo_crypto (demo_env k) (demo_token n) ''refresh'' = Inr (fst (demo_token n))"
  "payload_jti demo_crypto (fst (demo_token n)) = uuid_str n"
  "decode_token demo_crypto (demo_env k) demo_access ''access'' = Inr (fst demo_access)"
  by (simp_all add: decode_token_def demo_crypto_def demo_env_def demo_token_def demo_access_def refresh_payload_def access_payload_def
      json_get_def epoch_seconds_def seconds_td_def days_td_def JWT_LEEWAY_SECONDS_def payload_jti_def py_str_def)

lemma demo_fresh: "n < 100 \<Longrightarrow> 2 < n \<Longrightarrow> fresh_env (demo_env n) \<lparr>users = [demo_user], tokens = [demo_row 2], audits = as\<rparr>"
  by (simp add: fresh_env_def demo_env_def demo_user_def demo_row_def)

lemma demo_facts:
  "get_refresh_row \<lparr>users = [demo_user], tokens = [demo_row 2], audits = as\<rparr> (payload_jti demo_crypto (fst (demo_token 2))) = Some (demo_row 2)"
  "\<not> is_revoked (demo_row 2)" "get_user \<lparr>users = [demo_user], tokens = ts, audits = as\<rparr> (rf_user (demo_row 2)) = Some demo_user"
  "u_active demo_user" "length (u_email demo_user) \<le> 128" "fits 64 (ae_ip (demo_env n))"
  by (simp_all add: get_refresh_row_def demo_decode demo_row_def is_revoked_def get_user_def demo_user_def fits_def demo_env_def)

theorem rotation_exact_witness:
  "\<exists>db pair db1. auth_reachable demo_crypto db \<and> run_request (refresh_route demo_crypto (demo_env 3) (Some (demo_token 2))) db = (Inr pair, db1)
    \<and> tp_family pair = 2"
proof -
  obtain as where r: "auth_reachable demo_crypto \<lparr>users = [demo_user], tokens = [demo_row 2], audits = as\<rparr>" using demo_reachable by blast
  have f: "rf_family (demo_row 2) = 2" by (simp add: demo_row_def)
  have "fresh_env (demo_env 3) \<lparr>users = [demo_user], tokens = [demo_row 2], audits = as\<rparr>" by (rule demo_fresh) simp_all
  from rotation_exact [OF r this demo_facts(6) demo_decode(1) demo_facts(1,2)] demo_facts(4,5)
  have "\<exists>pair db1. run_request (refresh_route demo_crypto (demo_env 3) (Some (demo_token 2)))
      \<lparr>users = [demo_user], tokens = [demo_row 2], audits = as\<rparr> = (Inr pair, db1) \<and> tp_family pair = 2" by (auto simp: f)
  with r show ?thesis by blast
qed

theorem concurrent_rotations_fork_witness:
  "\<exists>db p1 db1 p3 db2. auth_reachable demo_crypto db
    \<and> commit_request (refresh_route demo_crypto (demo_env 3) (Some (demo_token 2)) db) db = (Inr p1, db1)
    \<and> commit_request (refresh_route demo_crypto (demo_env 4) (Some (demo_token 2)) db) db1 = (Inr p3, db2)"
proof -
  obtain as where r: "auth_reachable demo_crypto \<lparr>users = [demo_user], tokens = [demo_row 2], audits = as\<rparr>" using demo_reachable by blast
  have n: "uuid_str (ae_jti (demo_env 3)) \<noteq> uuid_str (ae_jti (demo_env 4))" by (simp add: demo_env_def)
  from concurrent_rotations_fork [OF r demo_facts(1-5) demo_decode(1) demo_fresh demo_facts(6) demo_decode(1) demo_fresh demo_facts(6) n] r
  show ?thesis by auto
qed

theorem reuse_kills_family_witness:
  "\<exists>db db1. auth_reachable demo_crypto db \<and> run_request (refresh_route demo_crypto (demo_env 4) (Some (demo_token 2))) db
    = (Inl (AuthenticationError ''Refresh token reuse detected; session family revoked''), db1)"
proof -
  obtain as where r: "auth_reachable demo_crypto \<lparr>users = [demo_user], tokens = [demo_row 2], audits = as\<rparr>" (is "auth_reachable _ ?db")
    using demo_reachable by blast
  have "auth_step demo_crypto ?db (serve demo_crypto (demo_env 3) (Refresh (Some (demo_token 2))) ?db)" (is "auth_step _ _ ?db'")
    by (intro served api_call demo_fresh) simp_all
  then have r': "auth_reachable demo_crypto ?db'" using r unfolding auth_reachable_def by (rule rtranclp.rtrancl_into_rtrancl [rotated])
  obtain pair a where p: "refresh_route demo_crypto (demo_env 3) (Some (demo_token 2)) ?db = (Inr pair,
      [AddToken (next_row (demo_env 3) (demo_row 2)), RevokeToken (rf_jti (demo_row 2)) (ae_now (demo_env 3)) (Some (uuid_str (ae_jti (demo_env 3)))), AddAudit a])"
    "audit_fits a" using refresh_route_active [OF demo_decode(1) demo_facts(1-4), of 3 as] demo_facts(5,6) by auto
  have "?db' = ?db\<lparr>tokens := rotated (demo_env 3) (demo_row 2) [demo_row 2], audits := as @ [a]\<rparr>"
  proof -
    have u: "rf_user (demo_row 2) \<in> u_id ` set (users ?db)" "uuid_str (ae_jti (demo_env 3)) \<notin> rf_jti ` set (tokens ?db)"
      by (simp_all add: demo_row_def demo_user_def demo_env_def)
    show ?thesis using p(2)
      by (simp add: serve_def run_request_def commit_map_prod p(1) commit_rotation [OF auth_ok_reachable [OF r] u demo_facts(6)])
  qed
  then have g: "get_refresh_row ?db' (payload_jti demo_crypto (fst (demo_token 2)))
      = Some ((demo_row 2)\<lparr>rf_revoked := Some (ae_now (demo_env 3)), rf_replaced_by := Some (uuid_str (ae_jti (demo_env 3)))\<rparr>)"
    by (simp add: get_refresh_row_def demo_decode rotated_def update_where_def next_row_def demo_row_def demo_env_def)
  have rv: "is_revoked ((demo_row 2)\<lparr>rf_revoked := Some (ae_now (demo_env 3)), rf_replaced_by := Some (uuid_str (ae_jti (demo_env 3)))\<rparr>)"
    by (simp add: is_revoked_def)
  have "\<exists>db1. run_request (refresh_route demo_crypto (demo_env 4) (Some (demo_token 2))) ?db'
      = (Inl (AuthenticationError ''Refresh token reuse detected; session family revoked''), db1)"
    using reuse_kills_family [OF r' demo_decode(1) g rv demo_facts(6)] by blast
  with r' show ?thesis by blast
qed

lemma demo_current: "get_current_user demo_crypto (demo_env n) (Some demo_access) \<lparr>users = [demo_user], tokens = ts, audits = as\<rparr> = Inr demo_user"
proof -
  have "json_get (fst demo_access) ''sub'' = Some (JStr (uuid_str 1))" by (simp add: demo_access_def access_payload_def json_get_def)
  moreover have "parse_uuid (uuid_str 1) = Some 1" by (rule parse_uuid_str) simp
  ultimately show ?thesis by (simp add: get_current_user_def demo_decode py_str_def get_user_def demo_user_def)
qed

theorem admin_lockout_witness:
  "\<exists>db after db1. auth_reachable demo_crypto db
    \<and> run_request (update_user_route demo_crypto (demo_env 3) (Some demo_access) 1 None (Some False)) db = (Inr after, db1)
    \<and> (\<forall>u\<in>set (users db1). \<not> (u_role u = ADMIN \<and> u_active u))"
proof -
  obtain as where r: "auth_reachable demo_crypto \<lparr>users = [demo_user], tokens = [demo_row 2], audits = as\<rparr>" using demo_reachable by blast
  have a: "u_role demo_user = ADMIN" "u_id demo_user = 1" by (simp_all add: demo_user_def)
  have "\<forall>u\<in>set (users \<lparr>users = [demo_user], tokens = [demo_row 2], audits = as\<rparr>). u_role u = ADMIN \<and> u_active u \<longrightarrow> u = demo_user" by simp
  from admin_lockout [OF r demo_current a(1) this demo_facts(5,6)] r show ?thesis unfolding a(2) by blast
qed

theorem privileges_from_admins_witness:
  "\<exists>db u u'. auth_reachable demo_crypto db \<and> u \<in> set (users db)
    \<and> u' \<in> set (users (serve demo_crypto (demo_env 3) (UpdateUser (Some demo_access) 1 None (Some False)) db))
    \<and> u_id u' = u_id u \<and> u_active u' \<noteq> u_active u
    \<and> (\<exists>payload. decode_token demo_crypto (demo_env 3) demo_access ''access'' = Inr payload)"
proof -
  obtain as where r: "auth_reachable demo_crypto \<lparr>users = [demo_user], tokens = [demo_row 2], audits = as\<rparr>" (is "auth_reachable _ ?db")
    using demo_reachable by blast
  let ?c = "UpdateUser (Some demo_access) 1 None (Some False)"
  have f: "fresh_env (demo_env 3) ?db" by (rule demo_fresh) simp_all
  have a: "require_role demo_crypto (demo_env 3) ''admin'' (Some demo_access) ?db = Inr demo_user"
    by (simp add: require_role_def demo_current) (simp add: demo_user_def role_at_least_def ROLE_RANK_def)
  have "users (serve demo_crypto (demo_env 3) ?c ?db) = [demo_user\<lparr>u_active := False\<rparr>]"
    using demo_facts(4-6) by (simp add: serve_def run_request_def commit_request_def update_user_route_def a get_user_def changed_def
        audit_fits_def fits_def update_where_def) (simp add: demo_user_def)
  then have m: "demo_user \<in> set (users ?db)" "demo_user\<lparr>u_active := False\<rparr> \<in> set (users (serve demo_crypto (demo_env 3) ?c ?db))"
    "u_id (demo_user\<lparr>u_active := False\<rparr>) = u_id demo_user" "u_active (demo_user\<lparr>u_active := False\<rparr>) \<noteq> u_active demo_user"
    by (simp_all add: demo_user_def)
  from privileges_from_admins [OF r f refl, of ?c] m obtain payload where "decode_token demo_crypto (demo_env 3) demo_access ''access'' = Inr payload"
    by blast
  with r m show ?thesis by (intro exI [of _ ?db] exI [of _ demo_user] exI [of _ "demo_user\<lparr>u_active := False\<rparr>"]) simp
qed

theorem concurrent_bootstrap_admins_witness:
  "\<exists>u1 u2 db1 db2. commit_request (register_route demo_crypto (demo_env 1) ''a'' ''x'' empty_auth) empty_auth = (Inr u1, db1)
    \<and> commit_request (register_route demo_crypto (demo_env 2) ''b'' ''y'' empty_auth) db1 = (Inr u2, db2)
    \<and> u_role u1 = ADMIN \<and> u_role u2 = ADMIN"
proof -
  have n: "normalized ''a'' = ''a''" "normalized ''b'' = ''b''" by code_simp+
  from concurrent_bootstrap_admins [of empty_auth "''a''" "''b''" "demo_env 1" "demo_env 2" demo_crypto "''x''" "''y''"]
  show ?thesis by (force simp: n empty_auth_def demo_env_def demo_crypto_def fits_def)
qed

theorem long_email_unaudited_witness:
  "run_request (login_route demo_crypto (demo_env 1) (replicate 129 CHR ''a'') ''x'') empty_auth = (Inl DatabaseError, empty_auth)"
proof -
  have "normalized (replicate 129 CHR ''a'') = replicate 129 CHR ''a''" by code_simp
  then have "128 < length (normalized (replicate 129 CHR ''a''))" by simp
  from long_email_unaudited [OF this] show ?thesis ..
qed

end
