(* ===== verification/AuthTokens.thy ===== *)
theory AuthTokens
  imports AuthRuns
begin

text \<open>
  What an issued token is good for. PyJWT is a parameter; \<open>jwt_law\<close> is its documented behaviour on the
  two kinds of payload the service signs (which have no \<^verbatim>\<open>nbf\<close> and no \<^verbatim>\<open>aud\<close> claim) and under the configured
  key: the token decodes, under the key that signed it, to its payload, from its issue time until its
  expiry, both with the given leeway.
\<close>

definition issued_payload :: "(string \<times> json) list \<Rightarrow> bool" where
  "issued_payload p = ((\<exists>i r j n x. p = access_payload i r j n x) \<or> (\<exists>i j f n x. p = refresh_payload i j f n x))"

definition jwt_law :: "'tok crypto \<Rightarrow> string \<Rightarrow> bool" where
  "jwt_law cy k = (\<forall>p l now iat ex. issued_payload p
       \<and> json_get p ''iat'' = Some (JInt iat) \<and> json_get p ''exp'' = Some (JInt ex) \<longrightarrow>
     cy_decode cy (cy_encode cy p k) k l now =
       (if now + seconds_td l < seconds_td iat then Inl InvalidSignature
        else if seconds_td ex \<le> now - seconds_td l then Inl ExpiredSignature else Inr p))"

lemma payload_fields:
  "json_get (access_payload i r j n x) ''iat'' = Some (JInt (epoch_seconds n))" "json_get (access_payload i r j n x) ''exp'' = Some (JInt (epoch_seconds x))"
  "json_get (access_payload i r j n x) ''sub'' = Some (JStr (uuid_str i))" "json_get (access_payload i r j n x) ''jti'' = Some (JStr (uuid_hex j))"
  "json_get (access_payload i r j n x) ''type'' = Some (JStr ''access'')"
  "json_get (refresh_payload i j' f n x) ''iat'' = Some (JInt (epoch_seconds n))" "json_get (refresh_payload i j' f n x) ''exp'' = Some (JInt (epoch_seconds x))"
  "json_get (refresh_payload i j' f n x) ''sub'' = Some (JStr (uuid_str i))" "json_get (refresh_payload i j' f n x) ''jti'' = Some (JStr (uuid_str j'))"
  "json_get (refresh_payload i j' f n x) ''type'' = Some (JStr ''refresh'')"
  by (simp_all add: access_payload_def refresh_payload_def json_get_def)

lemma epoch_bounds: "seconds_td (epoch_seconds t) \<le> t" "t < seconds_td (epoch_seconds t) + seconds_td 1"
  by (simp_all add: seconds_td_def epoch_seconds_def)

lemma decode_issued:
  assumes "jwt_law cy (as_secret (ae_settings env))" "issued_payload p" "json_get p ''iat'' = Some (JInt (epoch_seconds n))" "json_get p ''exp'' = Some (JInt (epoch_seconds x))"
    "json_get p ''sub'' = Some (JStr (uuid_str i))" "json_get p ''type'' = Some (JStr typ)"
  shows "decode_token cy env (cy_encode cy p (as_secret (ae_settings env))) want =
    (if ae_now env + seconds_td 2 < seconds_td (epoch_seconds n) then Inl (AuthenticationError ''Invalid token'')
     else if seconds_td (epoch_seconds x) \<le> ae_now env - seconds_td 2 then Inl (AuthenticationError ''Token has expired'')
     else if typ \<noteq> want then Inl (AuthenticationError ''Invalid token type'') else Inr p)"
proof -
  have "cy_decode cy (cy_encode cy p (as_secret (ae_settings env))) (as_secret (ae_settings env)) 2 (ae_now env) =
       (if ae_now env + seconds_td 2 < seconds_td (epoch_seconds n) then Inl InvalidSignature
        else if seconds_td (epoch_seconds x) \<le> ae_now env - seconds_td 2 then Inl ExpiredSignature else Inr p)"
    using assms(1) assms(2-4) unfolding jwt_law_def by blast
  then show ?thesis using assms(5,6) by (simp add: decode_token_def JWT_LEEWAY_SECONDS_def)
qed

lemma login_success:
  assumes "run_request (login_route cy env e p) db = (Inr pair, db1)"
  obtains u h t where "u \<in> set (users db)" "u_email u = normalized e" "u_active u" "length (u_email u) \<le> 128"
    "users db1 = update_where (\<lambda>x. u_id x = u_id u) (\<lambda>x. x\<lparr>u_hashed := case_option (u_hashed x) id h, u_last_login := Some (ae_now env)\<rparr>) (users db)"
    "tokens db1 = tokens db @ [t]" "\<not> is_revoked t" "rf_jti t = uuid_str (ae_jti env)" "rf_family t = ae_family env" "rf_user t = u_id u"
    "tp_access pair = cy_encode cy (access_payload (u_id u) (role_value (u_role u)) (ae_access_jti env) (ae_now_access env) (tp_access_expires pair)) (as_secret (ae_settings env))"
    "tp_access_expires pair = ae_now_access env + seconds_td (60 * as_access_minutes (ae_settings env))"
    "tp_refresh pair = cy_encode cy (refresh_payload (u_id u) (ae_jti env) (ae_family env) (ae_now_refresh env) (tp_refresh_expires pair)) (as_secret (ae_settings env))"
    "tp_family pair = ae_family env"
proof -
  obtain r ws where a: "authenticate_user cy env e p db = (r, ws)" by fastforce
  obtain u' where r: "r = Inr u'" using assms a
    by (cases r) (auto simp: run_request_def commit_request_def login_route_def split: option.splits)
  from authenticate_writes [OF a] obtain u h b where u: "u \<in> set (users db)" "u_email u = normalized e" "u_active u"
    "u' = u\<lparr>u_hashed := case_option (u_hashed u) id h, u_last_login := Some (ae_now env)\<rparr>"
    "ws = [SetLogin (u_id u) h (ae_now env), AddAudit b]" "au_actor b = u_email u"
    by (auto simp: r)
  let ?x = "ae_now_access env + seconds_td (60 * as_access_minutes (ae_settings env))"
  let ?y = "ae_now_refresh env + days_td (as_refresh_days (ae_settings env))"
  let ?t = "\<lparr>rf_user = u_id u, rf_jti = uuid_str (ae_jti env), rf_family = ae_family env, rf_expires = ?y, rf_revoked = None,
      rf_replaced_by = None, rf_ip = ae_ip env, rf_agent = clip_agent (ae_agent env)\<rparr>"
  have i: "issue_token_pair cy env u' None =
      (\<lparr>tp_access = cy_encode cy (access_payload (u_id u) (role_value (u_role u)) (ae_access_jti env) (ae_now_access env) ?x) (as_secret (ae_settings env)),
        tp_access_expires = ?x, tp_refresh = cy_encode cy (refresh_payload (u_id u) (ae_jti env) (ae_family env) (ae_now_refresh env) ?y) (as_secret (ae_settings env)),
        tp_jti = ae_jti env, tp_family = ae_family env, tp_refresh_expires = ?y\<rparr>, [AddToken ?t])"
    by (simp add: issue_token_pair_def create_access_token_def create_refresh_token_def u(4) Let_def)
  from assms have w: "commit_request (login_route cy env e p db) db = (Inr pair, db1)" by (simp add: run_request_def)
  have l: "login_route cy env e p db = (Inr (fst (issue_token_pair cy env u' None)), ws @ [AddToken ?t])"
    by (simp add: login_route_def a r i)
  let ?us = "update_where (\<lambda>x. u_id x = u_id u) (\<lambda>x. x\<lparr>u_hashed := case_option (u_hashed x) id h, u_last_login := Some (ae_now env)\<rparr>) (users db)"
  from w have "apply_writes (ws @ [AddToken ?t]) db = Some db1" and pr: "pair = fst (issue_token_pair cy env u' None)"
    unfolding l by (auto simp: commit_request_def split: option.splits)
  then have c: "audit_fits b" "users db1 = ?us" "tokens db1 = tokens db @ [?t]"
    unfolding u(5) by (auto split: if_splits)
  show ?thesis
    by (rule that [OF u(1-3) _ c(2,3)]) (use c(1) u(6) pr in \<open>simp_all add: i is_revoked_def audit_fits_def\<close>)
qed

text \<open>
  C20. A login's access token identifies its user to every route until it expires and is refused two
  seconds after that; its refresh token is accepted as long, continuing the same family; and neither
  is accepted in the place of the other.
\<close>

theorem issued_tokens_work:
  assumes "jwt_law cy (as_secret (ae_settings env))" "auth_reachable cy db" "fresh_env env db" "run_request (login_route cy env e p) db = (Inr pair, db1)"
    "\<forall>u\<in>set (users db). u_id u < 2 ^ 128" "0 < as_access_minutes (ae_settings env)"
    "as_secret (ae_settings env') = as_secret (ae_settings env)"
  shows "(ae_now_access env \<le> ae_now env' + seconds_td 2 \<and> ae_now env' < tp_access_expires pair \<longrightarrow>
        (\<exists>user. get_current_user cy env' (Some (tp_access pair)) db1 = Inr user \<and> u_email user = normalized e))
    \<and> (tp_access_expires pair + seconds_td 2 \<le> ae_now env' \<longrightarrow>
        get_current_user cy env' (Some (tp_access pair)) db1 = Inl (AuthenticationError ''Token has expired''))
    \<and> (ae_now_refresh env \<le> ae_now env' + seconds_td 2 \<and> ae_now env' < tp_refresh_expires pair \<and> fresh_env env' db1 \<and> fits 64 (ae_ip env') \<longrightarrow>
        (\<exists>next db2. run_request (refresh_route cy env' (Some (tp_refresh pair))) db1 = (Inr next, db2) \<and> tp_family next = tp_family pair))
    \<and> (\<exists>x. get_current_user cy env' (Some (tp_refresh pair)) db1 = Inl x)
    \<and> (\<exists>x. fst (run_request (refresh_route cy env' (Some (tp_access pair))) db1) = Inl x)"
proof -
  from assms(4) obtain u h t where u: "u \<in> set (users db)" "u_email u = normalized e" "u_active u" "length (u_email u) \<le> 128"
    and d1: "users db1 = update_where (\<lambda>x. u_id x = u_id u) (\<lambda>x. x\<lparr>u_hashed := case_option (u_hashed x) id h, u_last_login := Some (ae_now env)\<rparr>) (users db)"
      "tokens db1 = tokens db @ [t]"
    and t: "\<not> is_revoked t" "rf_jti t = uuid_str (ae_jti env)" "rf_family t = ae_family env" "rf_user t = u_id u"
    and pr: "tp_access pair = cy_encode cy (access_payload (u_id u) (role_value (u_role u)) (ae_access_jti env) (ae_now_access env) (tp_access_expires pair)) (as_secret (ae_settings env'))"
      "tp_access_expires pair = ae_now_access env + seconds_td (60 * as_access_minutes (ae_settings env))"
      "tp_refresh pair = cy_encode cy (refresh_payload (u_id u) (ae_jti env) (ae_family env) (ae_now_refresh env) (tp_refresh_expires pair)) (as_secret (ae_settings env'))"
      "tp_family pair = ae_family env"
    by (elim login_success) (simp add: assms(7))
  have "auth_step cy db (serve cy env (Login e p) db)" using assms(3) by (intro served api_call)
  moreover have "serve cy env (Login e p) db = db1"
    using assms(4) by (simp add: serve_def run_request_def commit_map_prod)
  ultimately have r1: "auth_reachable cy db1" using assms(2) by (simp add: auth_reachable_def)
  then have ok: "distinct (map u_id (users db1))" "distinct (map rf_jti (tokens db1))"
    using auth_ok_reachable by (auto simp: auth_ok_def users_ok_def tokens_ok_def)
  let ?u = "u\<lparr>u_hashed := case_option (u_hashed u) id h, u_last_login := Some (ae_now env)\<rparr>"
  have um: "?u \<in> set (users db1)" unfolding d1 set_update_where using u(1) by (intro image_eqI [of _ _ u]) simp_all
  have gu: "get_user db1 (u_id u) = Some ?u" unfolding get_user_def using find_unique [OF ok(1) um] by simp
  have gt: "get_refresh_row db1 (uuid_str (ae_jti env)) = Some t"
    unfolding get_refresh_row_def using find_unique [OF ok(2), of t] t(2) by (simp add: d1(2))
  have law: "jwt_law cy (as_secret (ae_settings env'))" using assms(1,7) by simp
  have iss: "issued_payload (access_payload i r j n x)" "issued_payload (refresh_payload i j' f n x)" for i r j j' f n x
    unfolding issued_payload_def by blast+
  note da = decode_issued [OF law iss(1) payload_fields(1-3,5)]
  note dr = decode_issued [OF law iss(2) payload_fields(6-8,10)]
  have pj: "payload_jti cy (refresh_payload (u_id u) (ae_jti env) f n x) = uuid_str (ae_jti env)" for f n x
    by (simp add: payload_jti_def payload_fields py_str_def)
  have early: "\<not> seconds_td (epoch_seconds x) \<le> ae_now env' - seconds_td 2" if "ae_now env' < x" for x
    using epoch_bounds(2) [of x] that by (simp add: seconds_td_def)
  have issued: "\<not> ae_now env' + seconds_td 2 < seconds_td (epoch_seconds x)" if "x \<le> ae_now env' + seconds_td 2" for x
    using epoch_bounds(1) [of x] that by simp
  have user: "u_id u < 2 ^ 128" using assms(5) u(1) by blast
  have access: "get_current_user cy env' (Some (tp_access pair)) db1 = Inr ?u"
    if "ae_now_access env \<le> ae_now env' + seconds_td 2" "ae_now env' < tp_access_expires pair"
    using early [OF that(2)] issued [OF that(1)]
    by (simp add: get_current_user_def pr(1) da payload_fields py_str_def parse_uuid_str [OF user] gu u(3))
  have late: "get_current_user cy env' (Some (tp_access pair)) db1 = Inl (AuthenticationError ''Token has expired'')"
    if "tp_access_expires pair + seconds_td 2 \<le> ae_now env'"
  proof -
    have "seconds_td (epoch_seconds (tp_access_expires pair)) \<le> ae_now env' - seconds_td 2"
      using epoch_bounds(1) [of "tp_access_expires pair"] that by simp
    moreover have "ae_now_access env \<le> ae_now env' + seconds_td 2"
      using that assms(6) unfolding pr(2) by (simp add: seconds_td_def)
    ultimately show ?thesis using issued by (simp add: get_current_user_def pr(1) da)
  qed
  have refresh: "\<exists>next db2. run_request (refresh_route cy env' (Some (tp_refresh pair))) db1 = (Inr next, db2) \<and> tp_family next = tp_family pair"
    if "ae_now_refresh env \<le> ae_now env' + seconds_td 2" "ae_now env' < tp_refresh_expires pair" "fresh_env env' db1" "fits 64 (ae_ip env')"
  proof -
    have "decode_token cy env' (tp_refresh pair) ''refresh'' = Inr (refresh_payload (u_id u) (ae_jti env) (ae_family env) (ae_now_refresh env) (tp_refresh_expires pair))"
      using early [OF that(2)] issued [OF that(1)] by (simp add: pr(3) dr)
    note rotation_exact [OF r1 that(3,4) this _ t(1), unfolded pj, OF gt]
    then obtain user where m: "user \<in> set (users db1)" "u_id user = u_id u" and o: "if \<not> u_active user then
          run_request (refresh_route cy env' (Some (tp_refresh pair))) db1 = (Inl (AuthenticationError ''Account is disabled''), db1)
        else if 128 < length (u_email user) then run_request (refresh_route cy env' (Some (tp_refresh pair))) db1 = (Inl DatabaseError, db1)
        else \<exists>next db2. run_request (refresh_route cy env' (Some (tp_refresh pair))) db1 = (Inr next, db2) \<and> users db2 = users db1
          \<and> tp_family next = rf_family t
          \<and> get_refresh_row db2 (rf_jti t) = Some (t\<lparr>rf_revoked := Some (ae_now env'), rf_replaced_by := Some (uuid_str (tp_jti next))\<rparr>)
          \<and> (\<exists>new. get_refresh_row db2 (uuid_str (tp_jti next)) = Some new \<and> \<not> is_revoked new
               \<and> rf_user new = rf_user t \<and> rf_family new = rf_family t)"
      unfolding t(4) by blast
    have "user = ?u" using find_unique [OF ok(1) m(1)] gu by (simp add: get_user_def m(2))
    then have "u_active user" "\<not> 128 < length (u_email user)" using u(3,4) by simp_all
    then show ?thesis using o unfolding t(3) pr(4) by (simp only: if_False not_True_eq_False simp_thms) blast
  qed
  have "\<exists>x. get_current_user cy env' (Some (tp_refresh pair)) db1 = Inl x"
    by (simp add: get_current_user_def pr(3) dr)
  moreover have "\<exists>x. fst (run_request (refresh_route cy env' (Some (tp_access pair))) db1) = Inl x"
    by (simp add: run_request_def commit_request_def refresh_route_def rotate_refresh_def pr(1) da)
  ultimately show ?thesis using access late refresh u(2) by auto
qed

text \<open>
  The role hierarchy: \<^verbatim>\<open>require_role\<close> lets a caller pass exactly when the bearer token resolves to an
  active account whose role in the database, whatever the token says, ranks at least as high; so an
  endpoint open to viewers is open to everyone with an account, and the token of a demoted or
  deactivated user stops working at once.
\<close>

theorem role_gate_exact:
  "require_role cy env required cred db = Inr user \<longleftrightarrow>
    get_current_user cy env cred db = Inr user \<and> user \<in> set (users db) \<and> u_active user
    \<and> (required = ''viewer'' \<or> required = ''trader'' \<and> u_role user \<noteq> VIEWER \<or> required = ''admin'' \<and> u_role user = ADMIN)"
proof -
  have "role_at_least (role_value r) required
      \<longleftrightarrow> required = ''viewer'' \<or> required = ''trader'' \<and> r \<noteq> VIEWER \<or> required = ''admin'' \<and> r = ADMIN" for r
    by (cases r) (auto simp: role_at_least_def ROLE_RANK_def)
  then show ?thesis using current_userD [of cy env cred db user] by (auto simp: require_role_def split: sum.splits)
qed

lemma jwt_law_demo: "jwt_law demo_crypto k"
  by (simp add: jwt_law_def demo_crypto_def)

theorem issued_tokens_work_witness:
  "\<exists>db pair db1. run_request (login_route demo_crypto (demo_env 2) ''a@b'' ''pw'') db = (Inr pair, db1)
    \<and> (\<exists>user. get_current_user demo_crypto (demo_env 3) (Some (tp_access pair)) db1 = Inr user \<and> u_email user = ''a@b'')"
proof -
  let ?db = "serve demo_crypto (demo_env 1) (Register ''a@b'' ''pw'') empty_auth"
  obtain as where db: "?db = \<lparr>users = [demo_user\<lparr>u_last_login := None\<rparr>], tokens = [], audits = as\<rparr>" using demo_registered by blast
  have r: "auth_reachable demo_crypto ?db"
    unfolding auth_reachable_def by (intro r_into_rtranclp served api_call) (simp add: fresh_env_def empty_auth_def)
  have f: "fresh_env (demo_env 2) ?db" unfolding db by (simp add: fresh_env_def demo_env_def demo_user_def)
  obtain pair db1 where l: "run_request (login_route demo_crypto (demo_env 2) ''a@b'' ''pw'') ?db = (Inr pair, db1)" "tp_access_expires pair = seconds_td 1800"
    unfolding db
    by (simp add: run_request_def commit_request_def login_route_def authenticate_user_def get_user_by_email_def normalized_demo
        issue_token_pair_def create_access_token_def create_refresh_token_def demo_env_def demo_user_def demo_crypto_def
        audit_entry_def audit_fits_def token_fits_def fits_def clip_agent_def update_where_def Let_def)
  have "\<forall>u\<in>set (users ?db). u_id u < 2 ^ 128" unfolding db by (simp add: demo_user_def)
  from issued_tokens_work [OF jwt_law_demo r f l(1) this, of "demo_env 3"] l show ?thesis
    by (auto simp: demo_env_def seconds_td_def normalized_demo)
qed

end
