(* ===== verification/RateLimit.thy ===== *)
theory RateLimit
  imports AuthEffects
begin

text \<open>
  The guards in front of the authentication routes: the sliding-window limiter
  (\<^verbatim>\<open>core/ratelimit.py\<close>) on its monotonic clock, and the client address it is keyed by
  (\<^verbatim>\<open>api/deps.py: client_ip, enforce_rate_limit\<close>), with the parsing of addresses as the standard
  library's \<^verbatim>\<open>ipaddress\<close> does it.
\<close>

section \<open>Sliding window\<close>

record rate_limit_result =
  rl_allowed :: bool
  rl_retry_after :: int

type_synonym limiter = "string \<Rightarrow> f64 list"

definition prune :: "f64 \<Rightarrow> f64 list \<Rightarrow> f64 list" where
  "prune cutoff ts = dropWhile (\<lambda>t. t \<le> cutoff) ts"

definition f64_ceil :: "f64 \<Rightarrow> int" where
  "f64_ceil x = \<lceil>val x\<rceil>"

definition check :: "limiter \<Rightarrow> string \<Rightarrow> int \<Rightarrow> f64 \<Rightarrow> f64 \<Rightarrow> (py_error + rate_limit_result) \<times> limiter" where
  "check hits key limit window_seconds now =
     (let w = prune (now - window_seconds) (hits key) in
      if limit \<le> int (length w)
      then case w of [] \<Rightarrow> (Inl IndexError, hits(key := w))
        | t # _ \<Rightarrow> (Inr \<lparr>rl_allowed = False, rl_retry_after = max 1 (f64_ceil (t + window_seconds - now))\<rparr>, hits(key := w))
      else (Inr \<lparr>rl_allowed = True, rl_retry_after = 0\<rparr>, hits(key := w @ [now])))"

definition reset :: "limiter \<Rightarrow> string option \<Rightarrow> limiter" where
  "reset hits key = (case key of None \<Rightarrow> (\<lambda>_. []) | Some k \<Rightarrow> hits(k := []))"

section \<open>Addresses\<close>

definition is_digit :: "char \<Rightarrow> bool" where
  "is_digit c = (48 \<le> (of_char c :: nat) \<and> (of_char c :: nat) \<le> 57)"

definition dec_value :: "string \<Rightarrow> nat" where
  "dec_value s = foldl (\<lambda>a c. 10 * a + (of_char c - 48)) 0 s"

definition parse_octet :: "string \<Rightarrow> nat option" where
  "parse_octet s = (if s = [] \<or> \<not> list_all is_digit s \<or> 3 < length s \<or> s \<noteq> ''0'' \<and> hd s = CHR ''0'' \<or> 255 < dec_value s
     then None else Some (dec_value s))"

definition ip4_value :: "string \<Rightarrow> nat option" where
  "ip4_value s = (let os = split_on (CHR ''.'') s in
     if s = [] \<or> length os \<noteq> 4 then None
     else map_option (foldl (\<lambda>a b. 256 * a + b) 0) (those (map parse_octet os)))"

definition parse_hextet :: "string \<Rightarrow> nat option" where
  "parse_hextet s = (if s = [] \<or> \<not> list_all (\<lambda>c. hex_digit c \<noteq> None) s \<or> 4 < length s then None else hex_value 0 s)"

definition hextet_text :: "nat \<Rightarrow> string" where
  "hextet_text n = map (\<lambda>i. hex_char (n div 16 ^ i)) [3, 2, 1, 0]"

definition hextets_value :: "string list \<Rightarrow> nat \<Rightarrow> string list \<Rightarrow> nat option" where
  "hextets_value hi skipped lo = (case (those (map parse_hextet hi), those (map parse_hextet lo)) of
     (Some h, Some l) \<Rightarrow> Some (foldl (\<lambda>a b. 65536 * a + b) 0 (h @ replicate skipped 0 @ l)) | _ \<Rightarrow> None)"

definition ip6_parts_value :: "string list \<Rightarrow> nat option" where
  "ip6_parts_value parts =
     (let n = length parts in
      if 9 < n then None
      else case filter (\<lambda>i. parts ! i = []) [1..<n - 1] of
        [] \<Rightarrow> if n \<noteq> 8 \<or> hd parts = [] \<or> List.last parts = [] then None else hextets_value parts 0 []
      | [skip] \<Rightarrow>
          let hi = (if hd parts = [] then skip - 1 else skip);
              lo = (if List.last parts = [] then n - skip - 1 - 1 else n - skip - 1)
          in if hd parts = [] \<and> hi \<noteq> 0 \<or> List.last parts = [] \<and> lo \<noteq> 0 \<or> 8 < hi + lo + 1 then None
             else hextets_value (take hi parts) (8 - (hi + lo)) (drop (n - lo) parts)
      | _ \<Rightarrow> None)"

definition ip6_value :: "string \<Rightarrow> nat option" where
  "ip6_value s = (let parts = split_on (CHR '':'') s in
     if s = [] \<or> length parts < 3 then None
     else if CHR ''.'' \<in> set (List.last parts)
     then (case ip4_value (List.last parts) of None \<Rightarrow> None
       | Some v \<Rightarrow> ip6_parts_value (butlast parts @ [hextet_text (v div 65536 mod 65536), hextet_text (v mod 65536)]))
     else ip6_parts_value parts)"

datatype ip_addr = IPv4 nat | IPv6 nat

text \<open>\<^verbatim>\<open>ip_address(s)\<close>; the scope id of an IPv6 address is checked and dropped.\<close>

definition as_ip :: "string \<Rightarrow> ip_addr option" where
  "as_ip s =
     (if CHR ''/'' \<in> set s then None
      else case ip4_value s of Some v \<Rightarrow> Some (IPv4 v)
        | None \<Rightarrow> (case split_on (CHR ''%'') s of
              [a] \<Rightarrow> map_option IPv6 (ip6_value a)
            | [a, scope] \<Rightarrow> if scope = [] then None else map_option IPv6 (ip6_value a)
            | _ \<Rightarrow> None))"

text \<open>A network: its address and prefix length.\<close>

type_synonym ip_network = "ip_addr \<times> nat"

fun in_network :: "ip_addr \<Rightarrow> ip_network \<Rightarrow> bool" where
  "in_network (IPv4 a) (IPv4 n, p) = (a div 2 ^ (32 - p) * 2 ^ (32 - p) = n)"
| "in_network (IPv6 a) (IPv6 n, p) = (a div 2 ^ (128 - p) * 2 ^ (128 - p) = n)"
| "in_network _ _ = False"

definition is_trusted_peer :: "ip_network list \<Rightarrow> string option \<Rightarrow> bool" where
  "is_trusted_peer cidrs peer = (case peer of None \<Rightarrow> False
     | Some p \<Rightarrow> (case as_ip p of None \<Rightarrow> False | Some a \<Rightarrow> list_ex (in_network a) cidrs))"

record http_request =
  hr_peer :: "string option"
  hr_real_ip :: "string option"
  hr_forwarded_for :: "string option"

definition forwarded_ip :: "string \<Rightarrow> string option" where
  "forwarded_ip f = find (\<lambda>c. as_ip c \<noteq> None) (rev (filter (\<lambda>p. p \<noteq> []) (map strip (split_on (CHR '','') f))))"

definition client_ip :: "ip_network list \<Rightarrow> http_request \<Rightarrow> string option" where
  "client_ip cidrs req =
     (if \<not> is_trusted_peer cidrs (hr_peer req) then hr_peer req
      else case (case hr_real_ip req of None \<Rightarrow> None | Some r \<Rightarrow> if as_ip r \<noteq> None then Some r else None) of
        Some r \<Rightarrow> Some r
      | None \<Rightarrow>
          (case hr_forwarded_for req of None \<Rightarrow> hr_peer req
           | Some f \<Rightarrow> (case forwarded_ip f of None \<Rightarrow> hr_peer req | Some c \<Rightarrow> Some c)))"

section \<open>The route guard\<close>

record rate_settings =
  rs_login :: int
  rs_register :: int
  rs_refresh :: int
  rs_proxies :: "ip_network list"

definition limit_by_scope :: "rate_settings \<Rightarrow> (string \<times> int) list" where
  "limit_by_scope s = [(''login'', rs_login s), (''register'', rs_register s), (''refresh'', rs_refresh s)]"

datatype guard_error = RateLimitError int | GuardFault py_error

definition enforce_rate_limit ::
  "rate_settings \<Rightarrow> string \<Rightarrow> limiter \<Rightarrow> http_request \<Rightarrow> f64 \<Rightarrow> (guard_error + unit) \<times> limiter" where
  "enforce_rate_limit settings scope hits req now =
     (case map_of (limit_by_scope settings) scope of
        None \<Rightarrow> (Inr (), hits)
      | Some limit \<Rightarrow>
          let ip = (case client_ip (rs_proxies settings) req of None \<Rightarrow> ''unknown'' | Some i \<Rightarrow> if i = [] then ''unknown'' else i)
          in case check hits (scope @ '':'' @ ip) limit (fl 60) now of
               (Inl e, hits') \<Rightarrow> (Inl (GuardFault e), hits')
             | (Inr r, hits') \<Rightarrow> (if rl_allowed r then Inr () else Inl (RateLimitError (rl_retry_after r)), hits'))"

section \<open>Equivalence with counting the whole history\<close>

text \<open>The reference keeps every admitted hit for ever and admits a request while fewer than \<open>limit\<close> of the
  key's hits lie in the window.\<close>

definition recent_hits :: "(string \<times> f64) list \<Rightarrow> string \<Rightarrow> f64 \<Rightarrow> f64 list" where
  "recent_hits history key cutoff = filter (\<lambda>t. cutoff < t) (map snd (filter (\<lambda>h. fst h = key) history))"

record rate_request =
  rq_key :: string
  rq_limit :: int
  rq_now :: f64

fun run_checks :: "f64 \<Rightarrow> rate_request list \<Rightarrow> limiter \<Rightarrow> (py_error + rate_limit_result) list" where
  "run_checks w [] hits = []"
| "run_checks w (q # qs) hits = (case check hits (rq_key q) (rq_limit q) w (rq_now q) of (r, hits') \<Rightarrow> r # run_checks w qs hits')"

fun admitted_by_count :: "f64 \<Rightarrow> rate_request list \<Rightarrow> (string \<times> f64) list \<Rightarrow> bool list" where
  "admitted_by_count w [] history = []"
| "admitted_by_count w (q # qs) history =
     (let ok = int (length (recent_hits history (rq_key q) (rq_now q - w))) < rq_limit q
      in ok # admitted_by_count w qs (if ok then history @ [(rq_key q, rq_now q)] else history))"

definition admits :: "py_error + rate_limit_result \<Rightarrow> bool" where
  "admits r = (case r of Inl _ \<Rightarrow> False | Inr x \<Rightarrow> rl_allowed x)"

lemma prune_sorted: "sorted ts \<Longrightarrow> prune c ts = filter (\<lambda>t. c < t) ts"
proof (induction ts)
  case (Cons t ts)
  show ?case
  proof (cases "t \<le> c")
    case False
    with Cons.prems have "\<forall>x\<in>set (t # ts). c < x" by auto
    with False show ?thesis by (simp add: prune_def)
  qed (use Cons in \<open>simp add: prune_def\<close>)
qed (simp add: prune_def)

text \<open>The limiter's memory agrees with the history on every window from the last clock reading on.\<close>

definition window_ok :: "f64 \<Rightarrow> f64 \<Rightarrow> limiter \<Rightarrow> (string \<times> f64) list \<Rightarrow> bool" where
  "window_ok w now hits history = (\<forall>key. sorted (hits key) \<and> (\<forall>t\<in>set (hits key). t \<le> now)
     \<and> (\<forall>c\<ge>now - w. filter (\<lambda>t. c < t) (hits key) = recent_hits history key c))"

lemma window_ok_later: "window_ok w now hits history \<Longrightarrow> now \<le> now' \<Longrightarrow> window_ok w now' hits history"
  unfolding window_ok_def by (meson f64_diff_mono order_refl order_trans)

lemma recent_snoc: "recent_hits (history @ [(k, t)]) key c = recent_hits history key c @ (if k = key \<and> c < t then [t] else [])"
  by (simp add: recent_hits_def)

lemma filter_filter_less: "c \<le> c' \<Longrightarrow> filter (\<lambda>t. c' < t) (filter (\<lambda>t. c < t) ts) = filter (\<lambda>t. c' < (t :: f64)) ts"
  by (induction ts) auto

lemma check_count:
  assumes "window_ok w now hits history" "0 < limit"
  shows "admits (fst (check hits key limit w now)) = (int (length (recent_hits history key (now - w))) < limit)"
    "fst (check hits key limit w now) \<noteq> Inl IndexError"
    "window_ok w now (snd (check hits key limit w now))
      (if int (length (recent_hits history key (now - w))) < limit then history @ [(key, now)] else history)"
proof -
  let ?c = "now - w"
  have s: "sorted (hits k)" "\<forall>t\<in>set (hits k). t \<le> now" for k using assms(1) by (simp_all add: window_ok_def)
  have p: "prune ?c (hits key) = recent_hits history key ?c"
    using assms(1) by (simp add: prune_sorted [OF s(1)] window_ok_def)
  have keep: "filter (\<lambda>t. c < t) (recent_hits history key ?c) = recent_hits history key c" if "?c \<le> c" for c
    unfolding recent_hits_def by (rule filter_filter_less [OF that])
  have sr: "sorted (recent_hits history key ?c)" "\<forall>t\<in>set (recent_hits history key ?c). t \<le> now"
    using s [of key] unfolding p [symmetric] prune_sorted [OF s(1)] by (auto intro: sorted_filter [where f = id, simplified])
  show "admits (fst (check hits key limit w now)) = (int (length (recent_hits history key ?c)) < limit)"
    by (simp add: check_def p admits_def Let_def split: list.splits)
  show "fst (check hits key limit w now) \<noteq> Inl IndexError"
    using assms(2) by (auto simp: check_def Let_def split: list.splits)
  have "snd (check hits key limit w now) = hits(key := recent_hits history key ?c @
      (if int (length (recent_hits history key ?c)) < limit then [now] else []))"
    by (simp add: check_def p Let_def split: list.splits)
  moreover have "filter (\<lambda>t. c < t) (hits k) = recent_hits history k c" if "?c \<le> c" for k c
    using assms(1) that by (simp add: window_ok_def)
  ultimately show "window_ok w now (snd (check hits key limit w now))
      (if int (length (recent_hits history key ?c)) < limit then history @ [(key, now)] else history)"
    using s sr keep by (auto simp: window_ok_def recent_snoc sorted_append)
qed

text \<open>
  C21. On a clock that does not go back, the limiter decides every request of every client exactly as if it
  kept all admitted requests for ever and counted those of the last \<open>w\<close> seconds: forgetting the old
  ones is safe, requests of different keys do not disturb each other, refused requests do not count,
  and nothing is raised as long as the limits are positive.
\<close>

theorem sliding_window_exact:
  assumes "sorted (map rq_now qs)" "\<forall>q\<in>set qs. 0 < rq_limit q"
  shows "map admits (run_checks w qs (\<lambda>_. [])) = admitted_by_count w qs []
    \<and> (\<forall>r\<in>set (run_checks w qs (\<lambda>_. [])). \<exists>x. r = Inr x)"
proof -
  have "map admits (run_checks w qs hits) = admitted_by_count w qs history \<and> (\<forall>r\<in>set (run_checks w qs hits). \<exists>x. r = Inr x)"
    if "\<forall>q\<in>set qs. window_ok w (rq_now q) hits history" for hits history
    using assms that
  proof (induction qs arbitrary: hits history)
    case (Cons q qs)
    obtain r hits' where c: "check hits (rq_key q) (rq_limit q) w (rq_now q) = (r, hits')" by fastforce
    from Cons.prems have "window_ok w (rq_now q) hits history" "0 < rq_limit q" by simp_all
    note cc = check_count [OF this, of "rq_key q", unfolded c fst_conv snd_conv]
    let ?h = "if int (length (recent_hits history (rq_key q) (rq_now q - w))) < rq_limit q then history @ [(rq_key q, rq_now q)] else history"
    have "\<forall>q'\<in>set qs. window_ok w (rq_now q') hits' ?h"
      using cc(3) Cons.prems(1) by (auto intro: window_ok_later)
    moreover have "\<exists>x. r = Inr x"
      using c cc(2) by (auto simp: check_def Let_def split: if_splits list.splits)
    ultimately show ?case using Cons.IH [of hits' ?h] Cons.prems(1,2) cc(1) by (simp add: c Let_def)
  qed simp
  from this [of "\<lambda>_. []" "[]"] show ?thesis by (simp add: window_ok_def recent_hits_def)
qed

theorem sliding_window_exact_witness:
  "map admits (run_checks (fl 60) [\<lparr>rq_key = ''login:1'', rq_limit = 1, rq_now = fl 1\<rparr>, \<lparr>rq_key = ''login:1'', rq_limit = 1, rq_now = fl 2\<rparr>] (\<lambda>_. []))
    = admitted_by_count (fl 60) [\<lparr>rq_key = ''login:1'', rq_limit = 1, rq_now = fl 1\<rparr>, \<lparr>rq_key = ''login:1'', rq_limit = 1, rq_now = fl 2\<rparr>] []"
proof (rule sliding_window_exact [THEN conjunct1])
  have "fl 1 \<le> fl 2" by (rule fl_mono) simp
  then show "sorted (map rq_now [\<lparr>rq_key = ''login:1'', rq_limit = 1, rq_now = fl 1\<rparr>, \<lparr>rq_key = ''login:1'', rq_limit = 1, rq_now = fl 2\<rparr>])"
    by simp
qed simp

section \<open>Whose address is used\<close>

lemma split_on_snoc: "c \<notin> set b \<Longrightarrow> split_on c (a @ c # b) = split_on c a @ [b]"
proof -
  assume "c \<notin> set b"
  then have b: "split_on c b = [b]" by (induction b) auto
  have n: "split_on c a \<noteq> []" for a by (induction a) (auto split: list.splits)
  show ?thesis using b n by (induction a) (auto split: list.splits)
qed

text \<open>
  The address a request is limited and audited by cannot be forged: unless the socket's peer is a
  configured proxy the headers do not matter at all; from a proxy the result is a valid address from
  a header or the peer, and what a client put into \<^verbatim>\<open>X-Forwarded-For\<close> itself, left of the entry the proxy
  appended, does not matter either.
\<close>

theorem client_address_unforgeable:
  "(\<not> is_trusted_peer cidrs (hr_peer req) \<longrightarrow> client_ip cidrs req = hr_peer req)
    \<and> (client_ip cidrs req = hr_peer req \<or> (\<exists>a. client_ip cidrs req = Some a \<and> as_ip a \<noteq> None))
    \<and> (\<forall>claimed addr. is_trusted_peer cidrs (hr_peer req) \<and> hr_real_ip req = None \<and> as_ip (strip addr) \<noteq> None \<and> CHR '','' \<notin> set addr \<longrightarrow>
         client_ip cidrs (req\<lparr>hr_forwarded_for := Some (claimed @ '','' @ addr)\<rparr>) = Some (strip addr))"
proof (intro conjI allI impI)
  show "client_ip cidrs req = hr_peer req \<or> (\<exists>a. client_ip cidrs req = Some a \<and> as_ip a \<noteq> None)"
    by (auto simp: client_ip_def forwarded_ip_def dest: find_SomeD split: option.splits if_splits)
next
  fix claimed addr
  assume a: "is_trusted_peer cidrs (hr_peer req) \<and> hr_real_ip req = None \<and> as_ip (strip addr) \<noteq> None \<and> CHR '','' \<notin> set addr"
  then have "strip addr \<noteq> []" by (auto simp: as_ip_def ip4_value_def ip6_value_def)
  with a have "forwarded_ip (claimed @ CHR '','' # addr) = Some (strip addr)"
    by (simp add: forwarded_ip_def split_on_snoc)
  with a show "client_ip cidrs (req\<lparr>hr_forwarded_for := Some (claimed @ '','' @ addr)\<rparr>) = Some (strip addr)"
    by (simp add: client_ip_def)
qed (simp add: client_ip_def)

theorem client_address_unforgeable_witness:
  "client_ip [(IPv4 167772160, 8)] \<lparr>hr_peer = Some ''10.0.0.9'', hr_real_ip = None, hr_forwarded_for = Some (''1.2.3.4'' @ '','' @ '' 203.0.113.7'')\<rparr>
     = Some ''203.0.113.7''"
proof -
  have s: "strip '' 203.0.113.7'' = ''203.0.113.7''" by code_simp
  have t: "is_trusted_peer [(IPv4 167772160, 8)] (Some ''10.0.0.9'')"
  proof -
    have "as_ip ''10.0.0.9'' = Some (IPv4 167772169)"
      by (simp add: as_ip_def ip4_value_def parse_octet_def is_digit_def dec_value_def Let_def)
    then show ?thesis by (simp add: is_trusted_peer_def)
  qed
  have v: "as_ip ''203.0.113.7'' = Some (IPv4 3405803783)"
    by (simp add: as_ip_def ip4_value_def parse_octet_def is_digit_def dec_value_def Let_def)
  show ?thesis
    using client_address_unforgeable [of "[(IPv4 167772160, 8)]"
        "\<lparr>hr_peer = Some ''10.0.0.9'', hr_real_ip = None, hr_forwarded_for = None\<rparr>",
        THEN conjunct2, THEN conjunct2, THEN spec, THEN spec, of "'' 203.0.113.7''" "''1.2.3.4''"] t v
    unfolding s by simp
qed

end
