(* ===== verification/WsFeed.thy ===== *)
theory WsFeed
  imports AuthEffects "HOL-Library.Sublist"
begin

text \<open>
  The live feed (\<^verbatim>\<open>ws/tickets.py\<close>, \<^verbatim>\<open>ws/hub.py\<close>, the control frames of \<^verbatim>\<open>api/v1/realtime.py\<close>): one-time
  tickets in Redis, topic subscription, and the non-destructive reading of the event streams. A ticket
  value is kept as the JSON value it encodes; a stream is the list of its entries by increasing id.
\<close>

section \<open>Tickets\<close>

definition TICKET_TTL_SECONDS :: int where
  "TICKET_TTL_SECONDS = 30"

text \<open>Redis strings with the time they expire; \<^verbatim>\<open>SET .. EX\<close> and \<^verbatim>\<open>GETDEL\<close>.\<close>

type_synonym redis_strings = "string \<rightharpoonup> json \<times> datetime"

definition redis_set_ex :: "redis_strings \<Rightarrow> string \<Rightarrow> json \<Rightarrow> int \<Rightarrow> datetime \<Rightarrow> redis_strings" where
  "redis_set_ex r k v ttl now = r(k \<mapsto> (v, now + seconds_td ttl))"

definition redis_getdel :: "redis_strings \<Rightarrow> string \<Rightarrow> datetime \<Rightarrow> json option \<times> redis_strings" where
  "redis_getdel r k now = ((case r k of None \<Rightarrow> None | Some (v, ex) \<Rightarrow> if now < ex then Some v else None), r(k := None))"

definition ticket_key :: "string \<Rightarrow> string" where
  "ticket_key ticket = ''ws:ticket:'' @ ticket"

record ticket_payload =
  tk_ticket :: string
  tk_sub :: string
  tk_role :: string
  tk_ttl :: int
  tk_issued_at :: datetime

definition issue_ticket ::
  "redis_strings \<Rightarrow> uuid \<Rightarrow> string \<Rightarrow> int \<Rightarrow> string \<Rightarrow> (datetime \<Rightarrow> string) \<Rightarrow> datetime \<Rightarrow> ticket_payload \<times> redis_strings" where
  "issue_ticket r user_id role ttl ticket fmt now =
     (\<lparr>tk_ticket = ticket, tk_sub = uuid_str user_id, tk_role = role, tk_ttl = ttl, tk_issued_at = now\<rparr>,
      redis_set_ex r (ticket_key ticket)
        (JDict [(''sub'', JStr (uuid_str user_id)), (''role'', JStr role), (''iat'', JStr (fmt now))]) ttl now)"

text \<open>\<open>AttributeError\<close>: the stored value is not an object, which the handler does not catch.\<close>

datatype ticket_error = TicketRefused string | AttributeError

definition redeem_ticket :: "(json \<Rightarrow> string) \<Rightarrow> redis_strings \<Rightarrow> string \<Rightarrow> datetime \<Rightarrow> (ticket_error + ticket_payload) \<times> redis_strings" where
  "redeem_ticket R r ticket now =
     (if ticket = [] then (Inl (TicketRefused ''Missing WebSocket ticket''), r)
      else case redis_getdel r (ticket_key ticket) now of
        (None, r') \<Rightarrow> (Inl (TicketRefused ''Invalid, expired, or already-used WebSocket ticket''), r')
      | (Some (JDict payload), r') \<Rightarrow>
          let get = (\<lambda>k. case json_get payload k of None \<Rightarrow> [] | Some j \<Rightarrow> py_str R j) in
          if get ''sub'' = [] \<or> get ''role'' \<notin> set (map fst ROLE_RANK) then (Inl (TicketRefused ''Malformed WebSocket ticket''), r')
          else (Inr \<lparr>tk_ticket = ticket, tk_sub = get ''sub'', tk_role = get ''role'', tk_ttl = 0, tk_issued_at = now\<rparr>, r')
      | (Some _, r') \<Rightarrow> (Inl AttributeError, r'))"

section \<open>Topics\<close>

definition role_rank :: "string \<Rightarrow> int" where
  "role_rank role = (case map_of ROLE_RANK role of None \<Rightarrow> - 1 | Some n \<Rightarrow> n)"

definition TOPIC_MIN_ROLE :: "(string \<times> string) list" where
  "TOPIC_MIN_ROLE = [(''alerts'', ''viewer''), (''signals'', ''viewer''), (''decisions'', ''viewer'')]"

definition TOPIC_STREAMS :: "(string \<times> string) list" where
  "TOPIC_STREAMS = [(''alerts'', ''alerts.stream''), (''signals'', ''signals.stream''), (''decisions'', ''decisions.stream'')]"

definition check_topic_access :: "string \<Rightarrow> string \<Rightarrow> bool" where
  "check_topic_access role topic = (case map_of TOPIC_MIN_ROLE topic of None \<Rightarrow> False
     | Some required \<Rightarrow> role_rank required \<le> role_rank role)"

definition origin_allowed :: "string option \<Rightarrow> string list \<Rightarrow> bool" where
  "origin_allowed origin allowed = (case origin of None \<Rightarrow> True | Some u \<Rightarrow> u = [] \<or> u \<in> set allowed)"

text \<open>A control frame: its length in bytes and the value its text parses to (\<open>None\<close>: not JSON).\<close>

record control_frame =
  cf_bytes :: nat
  cf_json :: "json option"

fun str_items :: "json list \<Rightarrow> string list option" where
  "str_items [] = Some []"
| "str_items (JStr s # js) = map_option (Cons s) (str_items js)"
| "str_items (_ # js) = None"

definition parse_subscribe :: "control_frame \<Rightarrow> string + string list" where
  "parse_subscribe f =
     (if cf_bytes f = 0 \<or> 4096 < cf_bytes f then Inl ''control frame too large''
      else case cf_json f of
        None \<Rightarrow> Inl ''malformed JSON''
      | Some (JDict msg) \<Rightarrow>
          if json_get msg ''type'' \<noteq> Some (JStr ''subscribe'') then Inl ''unsupported control type''
          else (case json_get msg ''topics'' of
              Some (JList js) \<Rightarrow> (case str_items js of None \<Rightarrow> Inl ''topics must be a list of strings'' | Some ts \<Rightarrow> Inr ts)
            | _ \<Rightarrow> Inl ''topics must be a list of strings'')
      | Some _ \<Rightarrow> Inl ''control frame must be an object'')"

datatype control_error = ControlError string | TopicsNotPermitted "string list"

definition topic_ok :: "string \<Rightarrow> string \<Rightarrow> bool" where
  "topic_ok role topic = (topic \<in> fst ` set TOPIC_STREAMS \<and> check_topic_access role topic)"

definition handle_control :: "control_frame \<Rightarrow> string \<Rightarrow> string set \<Rightarrow> control_error option \<times> string set" where
  "handle_control f role topics =
     (case parse_subscribe f of
        Inl e \<Rightarrow> (Some (ControlError e), topics)
      | Inr ts \<Rightarrow>
          let requested = map lower ts; refused = filter (\<lambda>t. \<not> topic_ok role t) requested;
              topics' = topics \<union> set (filter (topic_ok role) requested)
          in ((if refused \<noteq> [] then Some (TopicsNotPermitted (sort refused))
               else if requested = [] then Some (ControlError ''subscribe requires at least one topic'') else None), topics'))"

section \<open>Reading the streams\<close>

text \<open>Entry ids are pairs (milliseconds, sequence number); an entry carries the event or, when its data
  is poison, nothing.\<close>

type_synonym stream_id = "nat \<times> nat"
type_synonym 'e stream_log = "(stream_id \<times> 'e option) list"

definition current_stream_id :: "'e stream_log option \<Rightarrow> stream_id" where
  "current_stream_id reply = (case reply of None \<Rightarrow> (0, 0) | Some es \<Rightarrow> if es = [] then (0, 0) else fst (List.last es))"

text \<open>\<^verbatim>\<open>XREAD COUNT 50\<close> of one stream after an id.\<close>

definition xread :: "'e stream_log \<Rightarrow> stream_id \<Rightarrow> 'e stream_log" where
  "xread es since = take 50 (filter (\<lambda>e. since < fst e) es)"

text \<open>\<^verbatim>\<open>read_once\<close>: \<open>None\<close> is a failing Redis call. Streams without new entries are absent from the reply.\<close>

definition read_once ::
  "(string \<Rightarrow> 'e stream_log) option \<Rightarrow> (string \<rightharpoonup> stream_id) \<Rightarrow> string list
   \<Rightarrow> (string \<rightharpoonup> 'e stream_log) \<times> (string \<rightharpoonup> stream_id)" where
  "read_once streams since topics =
     (case streams of
        None \<Rightarrow> (Map.empty, since)
      | Some logs \<Rightarrow>
          foldl (\<lambda>(out, cur) t.
            case map_of TOPIC_STREAMS t of None \<Rightarrow> (out, cur)
            | Some name \<Rightarrow>
                let es = xread (logs name) (case since t of None \<Rightarrow> (0, 0) | Some i \<Rightarrow> i)
                in if es = [] then (out, cur) else (out(t \<mapsto> es), cur(t \<mapsto> fst (List.last es))))
            (Map.empty, since) topics)"

section \<open>A ticket is good for one connection\<close>

datatype ticket_op = Issue uuid string string datetime | Redeem string datetime

text \<open>What the redemptions of a run give; \<open>R\<close> and \<open>fmt\<close> render JSON values and the issue time.\<close>

fun redeemed :: "(json \<Rightarrow> string) \<Rightarrow> (datetime \<Rightarrow> string) \<Rightarrow> ticket_op list \<Rightarrow> redis_strings \<Rightarrow> ticket_payload list" where
  "redeemed R fmt [] r = []"
| "redeemed R fmt (Issue u role ticket now # ops) r =
     redeemed R fmt ops (snd (issue_ticket r u role TICKET_TTL_SECONDS ticket fmt now))"
| "redeemed R fmt (Redeem ticket now # ops) r =
     (case redeem_ticket R r ticket now of
        (Inl _, r') \<Rightarrow> redeemed R fmt ops r' | (Inr p, r') \<Rightarrow> p # redeemed R fmt ops r')"

definition issued_tickets :: "ticket_op list \<Rightarrow> string list" where
  "issued_tickets ops = concat (map (\<lambda>op. case op of Issue u role t now \<Rightarrow> [t] | Redeem t now \<Rightarrow> []) ops)"

lemma issued_simps [simp]:
  "issued_tickets [] = []" "issued_tickets (Issue u role t now # ops) = t # issued_tickets ops"
  "issued_tickets (Redeem t now # ops) = issued_tickets ops"
  by (simp_all add: issued_tickets_def)

definition stored_tickets :: "redis_strings \<Rightarrow> string set" where
  "stored_tickets r = {t. r (ticket_key t) \<noteq> None}"

lemma ticket_key_inject [simp]: "ticket_key a = ticket_key b \<longleftrightarrow> a = b"
  by (simp add: ticket_key_def)

lemma stored_issue: "stored_tickets (snd (issue_ticket r u role ttl t fmt now)) = insert t (stored_tickets r)"
  by (auto simp: stored_tickets_def issue_ticket_def redis_set_ex_def)

lemma redeem_stored: "stored_tickets (snd (redeem_ticket R r t now)) = (if t = [] then stored_tickets r else stored_tickets r - {t})"
  by (auto simp: stored_tickets_def redeem_ticket_def redis_getdel_def Let_def split: option.splits json.splits if_splits)

lemma redeem_InrD: "redeem_ticket R r t now = (Inr p, r') \<Longrightarrow> tk_ticket p = t \<and> t \<in> stored_tickets r \<and> t \<noteq> []"
  by (auto simp: redeem_ticket_def redis_getdel_def stored_tickets_def Let_def split: option.splits json.splits if_splits)

lemma redeemed_distinct:
  assumes "distinct (issued_tickets ops)" "stored_tickets r \<inter> set (issued_tickets ops) = {}"
  shows "distinct (map tk_ticket (redeemed R fmt ops r)) \<and> tk_ticket ` set (redeemed R fmt ops r) \<subseteq> stored_tickets r \<union> set (issued_tickets ops)"
  using assms
proof (induction R fmt ops r rule: redeemed.induct)
  case (2 R fmt u role ticket now ops r)
  then show ?case by (auto simp: stored_issue)
next
  case (3 R fmt ticket now ops r)
  obtain o' r' where o: "redeem_ticket R r ticket now = (o', r')" by fastforce
  have s: "stored_tickets r' = (if ticket = [] then stored_tickets r else stored_tickets r - {ticket})"
    using redeem_stored [of R r ticket now] by (simp add: o)
  show ?case
  proof (cases o')
    case (Inl x)
    then have "stored_tickets r' \<inter> set (issued_tickets ops) = {}" using "3.prems" s by auto
    with 3 Inl o s show ?thesis by (auto split: if_splits)
  next
    case (Inr p)
    from redeem_InrD [OF o [unfolded Inr]] have p: "tk_ticket p = ticket" "ticket \<in> stored_tickets r" "ticket \<noteq> []" by simp_all
    have "stored_tickets r' \<inter> set (issued_tickets ops) = {}" using "3.prems" s by auto
    with "3.IH"(2) [OF o [symmetric] Inr] "3.prems"
    have "distinct (map tk_ticket (redeemed R fmt ops r'))" "tk_ticket ` set (redeemed R fmt ops r') \<subseteq> stored_tickets r' \<union> set (issued_tickets ops)"
      by simp_all
    with "3.prems" p s show ?thesis by (auto simp: o Inr)
  qed
qed simp

text \<open>Everything stored was issued, with the content and the lifetime of its issue.\<close>

definition issued_in :: "(uuid \<times> string \<times> string \<times> datetime) set \<Rightarrow> (datetime \<Rightarrow> string) \<Rightarrow> redis_strings \<Rightarrow> bool" where
  "issued_in I fmt r = (\<forall>k v ex. r k = Some (v, ex) \<longrightarrow> (\<exists>u role t now. (u, role, t, now) \<in> I \<and> k = ticket_key t
     \<and> v = JDict [(''sub'', JStr (uuid_str u)), (''role'', JStr role), (''iat'', JStr (fmt now))] \<and> ex = now + seconds_td TICKET_TTL_SECONDS))"

lemma redeem_issued:
  assumes "issued_in I fmt r" "redeem_ticket R r t now = (Inr p, r')"
  shows "\<exists>u issued. (u, tk_role p, tk_ticket p, issued) \<in> I \<and> tk_sub p = uuid_str u \<and> tk_role p \<in> fst ` set ROLE_RANK
    \<and> tk_issued_at p < issued + seconds_td TICKET_TTL_SECONDS"
proof -
  from assms(2) obtain payload ex where s: "t \<noteq> []" "r (ticket_key t) = Some (JDict payload, ex)" "now < ex"
    by (auto simp: redeem_ticket_def redis_getdel_def Let_def split: option.splits json.splits if_splits)
  with assms(1) obtain u role issued where i: "(u, role, t, issued) \<in> I"
    "payload = [(''sub'', JStr (uuid_str u)), (''role'', JStr role), (''iat'', JStr (fmt issued))]" "ex = issued + seconds_td TICKET_TTL_SECONDS"
  proof -
    have "\<exists>u role t' now'. (u, role, t', now') \<in> I \<and> ticket_key t = ticket_key t'
        \<and> JDict payload = JDict [(''sub'', JStr (uuid_str u)), (''role'', JStr role), (''iat'', JStr (fmt now'))] \<and> ex = now' + seconds_td TICKET_TTL_SECONDS"
      using assms(1) s(2) unfolding issued_in_def by blast
    then show thesis using that unfolding ticket_key_inject json.inject by blast
  qed
  from assms(2) s i(2) have "p = \<lparr>tk_ticket = t, tk_sub = uuid_str u, tk_role = role, tk_ttl = 0, tk_issued_at = now\<rparr>"
    "role \<in> fst ` set ROLE_RANK"
    by (simp_all add: redeem_ticket_def redis_getdel_def json_get_def py_str_def split: if_splits)
  with i(1,3) s(3) show ?thesis by (intro exI [of _ u] exI [of _ issued]) simp
qed

lemma redeemed_issued:
  assumes "issued_in I fmt r" "p \<in> set (redeemed R fmt ops r)"
  shows "\<exists>u issued. ((u, tk_role p, tk_ticket p, issued) \<in> I \<or> Issue u (tk_role p) (tk_ticket p) issued \<in> set ops)
    \<and> tk_sub p = uuid_str u \<and> tk_role p \<in> fst ` set ROLE_RANK \<and> tk_issued_at p < issued + seconds_td TICKET_TTL_SECONDS"
  using assms
proof (induction R fmt ops r arbitrary: I rule: redeemed.induct)
  case (2 R fmt u role ticket now ops r)
  have inv: "issued_in (insert (u, role, ticket, now) I) fmt (snd (issue_ticket r u role TICKET_TTL_SECONDS ticket fmt now))"
    unfolding issued_in_def
  proof (intro allI impI)
    fix k v ex assume a: "snd (issue_ticket r u role TICKET_TTL_SECONDS ticket fmt now) k = Some (v, ex)"
    show "\<exists>u' role' t now'. (u', role', t, now') \<in> insert (u, role, ticket, now) I \<and> k = ticket_key t
      \<and> v = JDict [(''sub'', JStr (uuid_str u')), (''role'', JStr role'), (''iat'', JStr (fmt now'))] \<and> ex = now' + seconds_td TICKET_TTL_SECONDS"
    proof (cases "k = ticket_key ticket")
      case True
      with a show ?thesis by (intro exI [of _ u] exI [of _ role] exI [of _ ticket] exI [of _ now]) (simp add: issue_ticket_def redis_set_ex_def)
    next
      case False
      with a have "r k = Some (v, ex)" by (simp add: issue_ticket_def redis_set_ex_def)
      from "2.prems"(1) [unfolded issued_in_def, rule_format, OF this] show ?thesis
        unfolding insert_iff by (elim exE conjE) (intro exI conjI disjI2; assumption)
    qed
  qed
  have "p \<in> set (redeemed R fmt ops (snd (issue_ticket r u role TICKET_TTL_SECONDS ticket fmt now)))" using "2.prems"(2) by simp
  from "2.IH" [OF inv this] show ?case unfolding list.set insert_iff prod.inject ticket_op.inject by blast
next
  case (3 R fmt ticket now ops r)
  obtain o' r' where o: "redeem_ticket R r ticket now = (o', r')" by fastforce
  have "r' k = Some x \<Longrightarrow> r k = Some x" for k x
    using o by (auto simp: redeem_ticket_def redis_getdel_def Let_def split: option.splits json.splits if_splits)
  then have i: "issued_in I fmt r'" using "3.prems"(1) unfolding issued_in_def by blast
  show ?case
  proof (cases o')
    case (Inl x)
    with "3.IH"(1) [OF o [symmetric] Inl i] "3.prems"(2) o show ?thesis by auto
  next
    case (Inr q)
    show ?thesis
    proof (cases "p = q")
      case True
      from redeem_issued [OF "3.prems"(1) o [unfolded Inr]] show ?thesis unfolding True by blast
    next
      case False
      with "3.prems"(2) have "p \<in> set (redeemed R fmt ops r')" by (simp add: o Inr)
      from "3.IH"(2) [OF o [symmetric] Inr i this] show ?thesis by auto
    qed
  qed
qed simp

text \<open>
  C22. Over any interleaving of issues and redemptions by any number of clients, with distinct random
  tickets: a ticket opens at most one connection, and only one as the user and with the role it was
  issued for, less than 30 seconds after that.
\<close>

theorem ticket_single_use:
  assumes "distinct (issued_tickets ops)"
  shows "distinct (map tk_ticket (redeemed R fmt ops Map.empty))
    \<and> (\<forall>p\<in>set (redeemed R fmt ops Map.empty). \<exists>u issued. Issue u (tk_role p) (tk_ticket p) issued \<in> set ops \<and> tk_sub p = uuid_str u
         \<and> tk_role p \<in> {''viewer'', ''trader'', ''admin''} \<and> tk_issued_at p < issued + seconds_td 30)"
proof -
  have "issued_in {} fmt Map.empty" by (simp add: issued_in_def)
  from redeemed_issued [OF this] redeemed_distinct [OF assms, of Map.empty R fmt] show ?thesis
    by (auto simp: stored_tickets_def ROLE_RANK_def TICKET_TTL_SECONDS_def)
qed

theorem ticket_single_use_witness:
  "distinct (map tk_ticket (redeemed (\<lambda>_. []) (\<lambda>_. []) [Issue 7 ''viewer'' ''t'' 0, Redeem ''t'' 5, Redeem ''t'' 6] Map.empty))
    \<and> map tk_role (redeemed (\<lambda>_. []) (\<lambda>_. []) [Issue 7 ''viewer'' ''t'' 0, Redeem ''t'' 5, Redeem ''t'' 6] Map.empty) = [''viewer'']"
proof
  show "distinct (map tk_ticket (redeemed (\<lambda>_. []) (\<lambda>_. []) [Issue 7 ''viewer'' ''t'' 0, Redeem ''t'' 5, Redeem ''t'' 6] Map.empty))"
    by (rule ticket_single_use [THEN conjunct1]) simp
  have "uuid_str 7 \<noteq> []" by (simp add: uuid_str_def Let_def)
  then show "map tk_role (redeemed (\<lambda>_. []) (\<lambda>_. []) [Issue 7 ''viewer'' ''t'' 0, Redeem ''t'' 5, Redeem ''t'' 6] Map.empty) = [''viewer'']"
    by (simp add: issue_ticket_def redis_set_ex_def redeem_ticket_def redis_getdel_def json_get_def py_str_def ROLE_RANK_def
        TICKET_TTL_SECONDS_def seconds_td_def Let_def)
qed

section \<open>Subscriptions follow the role\<close>

fun subscriptions :: "control_frame list \<Rightarrow> string \<Rightarrow> string set \<Rightarrow> string set" where
  "subscriptions [] role topics = topics"
| "subscriptions (f # fs) role topics = subscriptions fs role (snd (handle_control f role topics))"

lemma topic_ok_iff: "topic_ok role t \<longleftrightarrow> role \<in> fst ` set ROLE_RANK \<and> t \<in> {''alerts'', ''signals'', ''decisions''}"
  by (auto simp: topic_ok_def TOPIC_STREAMS_def check_topic_access_def TOPIC_MIN_ROLE_def role_rank_def ROLE_RANK_def)

text \<open>
  Whatever control frames a connection sends, it is subscribed exactly to the topics its frames named
  that its role may see: \<^verbatim>\<open>alerts\<close>, \<^verbatim>\<open>signals\<close> and \<^verbatim>\<open>decisions\<close>, for the three known roles; an unknown role
  gets nothing and \<^verbatim>\<open>fills\<close> is refused to everyone.
\<close>

theorem subscriptions_exact:
  "subscriptions fs role {} = {t. role \<in> {''viewer'', ''trader'', ''admin''} \<and> t \<in> {''alerts'', ''signals'', ''decisions''}
     \<and> (\<exists>f\<in>set fs. \<exists>ts. parse_subscribe f = Inr ts \<and> t \<in> lower ` set ts)}"
proof -
  have "subscriptions fs role T = T \<union> {t. topic_ok role t \<and> (\<exists>f\<in>set fs. \<exists>ts. parse_subscribe f = Inr ts \<and> t \<in> lower ` set ts)}" for T
  proof (induction fs arbitrary: T)
    case (Cons f fs)
    show ?case
    proof (cases "parse_subscribe f")
      case (Inl e)
      then show ?thesis using Cons by (auto simp: handle_control_def)
    next
      case (Inr ts)
      then have "snd (handle_control f role T) = T \<union> {t. topic_ok role t \<and> t \<in> lower ` set ts}"
        by (auto simp: handle_control_def Let_def)
      moreover have "(\<exists>g\<in>set (f # fs). \<exists>ts'. parse_subscribe g = Inr ts' \<and> t \<in> lower ` set ts')
          \<longleftrightarrow> t \<in> lower ` set ts \<or> (\<exists>g\<in>set fs. \<exists>ts'. parse_subscribe g = Inr ts' \<and> t \<in> lower ` set ts')" for t
        by (simp add: Inr)
      ultimately show ?thesis unfolding subscriptions.simps Cons by (intro set_eqI) (simp only: Un_iff mem_Collect_eq, argo)
    qed
  qed simp
  then show ?thesis by (auto simp: topic_ok_iff ROLE_RANK_def)
qed

section \<open>The feed\<close>

text \<open>
  One connection and the stream of its topic over time, from the subscription on. \<open>Publish i e k\<close> is the
  publisher's \<^verbatim>\<open>XADD\<close> with an approximate \<^verbatim>\<open>MAXLEN\<close>, which drops the \<open>k\<close> oldest entries; \<open>Poll\<close> is one read
  of the connection, \<open>None\<close> a failing one, else with the topics it has subscribed by then and the content
  of the other streams.
\<close>

datatype 'e feed_op = Publish stream_id "'e option" nat | Poll "(string list \<times> (string \<Rightarrow> 'e stream_log)) option"

text \<open>\<^verbatim>\<open>since[topic] = await current_stream_id(...)\<close> when a topic is first subscribed.\<close>

definition subscribe :: "string \<Rightarrow> 'e stream_log option \<Rightarrow> (string \<rightharpoonup> stream_id) \<Rightarrow> (string \<rightharpoonup> stream_id)" where
  "subscribe t reply since = (if since t = None then since(t \<mapsto> current_stream_id reply) else since)"

definition poll_once :: "string \<Rightarrow> 'e stream_log \<Rightarrow> (string list \<times> (string \<Rightarrow> 'e stream_log)) option \<Rightarrow> (string \<rightharpoonup> stream_id)
   \<Rightarrow> (string \<rightharpoonup> 'e stream_log) \<times> (string \<rightharpoonup> stream_id)" where
  "poll_once t st p since = (case p of None \<Rightarrow> read_once None since []
     | Some (topics, others) \<Rightarrow> read_once (Some (\<lambda>n. if map_of TOPIC_STREAMS t = Some n then st else others n)) since topics)"

text \<open>The stream, what the connection got of it, and the cursors.\<close>

fun feed_run :: "string \<Rightarrow> 'e feed_op list \<Rightarrow> 'e stream_log \<Rightarrow> (string \<rightharpoonup> stream_id)
   \<Rightarrow> 'e stream_log \<times> 'e stream_log \<times> (string \<rightharpoonup> stream_id)" where
  "feed_run t [] st since = (st, [], since)"
| "feed_run t (Publish i e k # ops) st since = feed_run t ops (drop k (st @ [(i, e)])) since"
| "feed_run t (Poll p # ops) st since =
     (case poll_once t st p since of (out, since') \<Rightarrow>
        (case feed_run t ops st since' of (st', got, since'') \<Rightarrow>
           (st', (case out t of None \<Rightarrow> [] | Some es \<Rightarrow> es) @ got, since'')))"

text \<open>The entries published after the subscription.\<close>

fun published :: "'e feed_op list \<Rightarrow> 'e stream_log" where
  "published [] = []"
| "published (Publish i e k # ops) = (i, e) # published ops"
| "published (Poll p # ops) = published ops"

text \<open>Every read covers the topic (the topics of a connection are a set and only grow).\<close>

definition polls_topic :: "string \<Rightarrow> 'e feed_op list \<Rightarrow> bool" where
  "polls_topic t ops = (\<forall>topics others. Poll (Some (topics, others)) \<in> set ops \<longrightarrow> distinct topics \<and> t \<in> set topics)"

text \<open>The trimming keeps at least \<open>M\<close> entries, and the connection is never more than \<open>M\<close> entries behind.\<close>

definition pending :: "stream_id option \<Rightarrow> 'e stream_log \<Rightarrow> 'e stream_log" where
  "pending cur st = filter (\<lambda>e. case cur of None \<Rightarrow> False | Some c \<Rightarrow> c < fst e) st"

fun keeps_up :: "nat \<Rightarrow> string \<Rightarrow> 'e feed_op list \<Rightarrow> 'e stream_log \<Rightarrow> (string \<rightharpoonup> stream_id) \<Rightarrow> bool" where
  "keeps_up M t [] st since = True"
| "keeps_up M t (Publish i e k # ops) st since =
     ((k = 0 \<or> M \<le> length (drop k (st @ [(i, e)]))) \<and> length (pending (since t) (st @ [(i, e)])) \<le> M
      \<and> keeps_up M t ops (drop k (st @ [(i, e)])) since)"
| "keeps_up M t (Poll p # ops) st since = keeps_up M t ops st (snd (poll_once t st p since))"

definition next_id :: "stream_id \<Rightarrow> 'e stream_log \<Rightarrow> stream_id" where
  "next_id c es = (if es = [] then c else fst (List.last es))"

lemma read_once_topic:
  assumes "distinct topics" "t \<in> set topics" "map_of TOPIC_STREAMS t = Some name" "since t = Some c"
  shows "case read_once (Some logs) since topics of (out, since') \<Rightarrow>
    (case out t of None \<Rightarrow> [] | Some es \<Rightarrow> es) = xread (logs name) c \<and> since' t = Some (next_id c (xread (logs name) c))"
proof -
  let ?f = "\<lambda>(out, cur) t. case map_of TOPIC_STREAMS t of None \<Rightarrow> (out, cur)
      | Some name \<Rightarrow> let es = xread (logs name) (case since t of None \<Rightarrow> (0, 0) | Some i \<Rightarrow> i)
          in if es = [] then (out, cur) else (out(t \<mapsto> es), cur(t \<mapsto> fst (List.last es)))"
  have skip: "fst (foldl ?f (out, cur) ts) t = out t \<and> snd (foldl ?f (out, cur) ts) t = cur t" if "t \<notin> set ts" for ts out cur
    using that by (induction ts arbitrary: out cur) (auto simp: Let_def split: option.splits)
  have "(case fst (foldl ?f (out, cur) ts) t of None \<Rightarrow> [] | Some es \<Rightarrow> es) = xread (logs name) c
      \<and> snd (foldl ?f (out, cur) ts) t = Some (next_id c (xread (logs name) c))"
    if "distinct ts" "t \<in> set ts" "out t = None" "cur t = Some c" for ts out cur
    using that
  proof (induction ts arbitrary: out cur)
    case (Cons x ts)
    show ?case
    proof (cases "x = t")
      case True
      with Cons.prems(1) have n: "t \<notin> set ts" by simp
      let ?s = "?f (out, cur) x"
      have "foldl ?f (out, cur) (x # ts) = foldl ?f (fst ?s, snd ?s) ts" by simp
      with skip [OF n, of "fst ?s" "snd ?s"] show ?thesis
        using True Cons.prems(3,4) assms(3,4) by (simp add: next_id_def Let_def)
    next
      case False
      let ?s = "?f (out, cur) x"
      have s: "fst ?s t = None" "snd ?s t = Some c" using False Cons.prems(3,4) by (auto simp: Let_def split: option.splits)
      have "foldl ?f (out, cur) (x # ts) = foldl ?f (fst ?s, snd ?s) ts" by simp
      then show ?thesis using Cons.IH [of "fst ?s" "snd ?s"] Cons.prems(1,2) False s by simp
    qed
  qed simp
  from this [of topics Map.empty since] assms show ?thesis by (simp add: read_once_def split_beta)
qed

lemma poll_once_topic:
  assumes "map_of TOPIC_STREAMS t = Some name" "since t = Some c" "distinct topics" "t \<in> set topics"
    "poll_once t st (Some (topics, others)) since = (out, since')"
  shows "(case out t of None \<Rightarrow> [] | Some es \<Rightarrow> es) = xread st c" "since' t = Some (next_id c (xread st c))"
  using read_once_topic [where since = since and logs = "\<lambda>n. if map_of TOPIC_STREAMS t = Some n then st else others n", OF assms(3,4,1,2)] assms(1,5)
  by (simp_all add: poll_once_def)

abbreviation increasing :: "'e stream_log \<Rightarrow> bool" where
  "increasing \<equiv> sorted_wrt (\<lambda>a b. fst a < fst b)"

lemma increasing_filter:
  assumes "increasing L"
  shows "filter (\<lambda>e. (c :: stream_id) < fst e) L = drop (length L - length (filter (\<lambda>e. c < fst e) L)) L"
  using assms
proof (induction L)
  case (Cons x L)
  show ?case
  proof (cases "c < fst x")
    case True
    then have "filter (\<lambda>e. c < fst e) (x # L) = x # L" using Cons.prems by (auto simp: filter_id_conv intro: less_trans)
    then show ?thesis by simp
  next
    case False
    have "length (filter (\<lambda>e. c < fst e) L) \<le> length L" by (rule length_filter_le)
    with False Cons show ?thesis by (simp add: Suc_diff_le)
  qed
qed simp

text \<open>A trim that leaves as many entries as are pending loses none of them.\<close>

lemma pending_trim:
  assumes "increasing L" "k = 0 \<or> M \<le> length (drop k L)" "length (filter (\<lambda>e. (c :: stream_id) < fst e) L) \<le> M"
  shows "filter (\<lambda>e. c < fst e) (drop k L) = filter (\<lambda>e. c < fst e) L"
proof (cases "k = 0")
  case False
  let ?n = "length L - length (filter (\<lambda>e. c < fst e) L)"
  have "\<forall>e\<in>set (take k L). \<not> c < fst e"
  proof (cases "k \<le> ?n")
    case True
    have "filter (\<lambda>e. c < fst e) (take ?n L) @ filter (\<lambda>e. c < fst e) (drop ?n L) = filter (\<lambda>e. c < fst e) L"
      by (simp only: filter_append [symmetric] append_take_drop_id)
    then have "length (filter (\<lambda>e. c < fst e) (take ?n L)) + length (filter (\<lambda>e. c < fst e) (drop ?n L)) = length (filter (\<lambda>e. c < fst e) L)"
      by (simp only: length_append [symmetric])
    moreover have "filter (\<lambda>e. c < fst e) (drop ?n L) = drop ?n L"
      unfolding increasing_filter [OF assms(1), symmetric] by simp
    moreover have "length (drop ?n L) = length (filter (\<lambda>e. c < fst e) L)" using length_filter_le [of "\<lambda>e. c < fst e" L] by simp
    ultimately have "filter (\<lambda>e. c < fst e) (take ?n L) = []" by simp
    then have "\<forall>e\<in>set (take ?n L). \<not> c < fst e" unfolding filter_empty_conv .
    then show ?thesis using set_take_subset_set_take [OF True, of L] by blast
  next
    case trimmed: False
    then have "length (filter (\<lambda>e. c < fst e) L) = 0" using assms(2,3) False length_filter_le [of "\<lambda>e. c < fst e" L] by (simp del: length_0_conv)
    then show ?thesis by (auto simp: filter_empty_conv dest: in_set_takeD)
  qed
  then have "filter (\<lambda>e. c < fst e) (take k L) = []" unfolding filter_empty_conv .
  moreover have "filter (\<lambda>e. c < fst e) L = filter (\<lambda>e. c < fst e) (take k L) @ filter (\<lambda>e. c < fst e) (drop k L)"
    by (simp only: filter_append [symmetric] append_take_drop_id)
  ultimately show ?thesis by simp
qed simp

lemma increasing_drop: "increasing (A @ B) \<Longrightarrow> increasing (drop k A @ B)"
  by (auto simp: sorted_wrt_append dest: in_set_dropD intro: sorted_wrt_drop)

lemma subseq_distinct_map: "subseq xs ys \<Longrightarrow> distinct (map f ys) \<Longrightarrow> distinct (map f xs)"
proof (induction rule: list_emb.induct)
  case (list_emb_Cons2 x y xs ys)
  then show ?case using subseq_order.order_refl list_emb_set [of "(=)" xs ys] by auto
qed auto

lemma increasing_appendD: "increasing (A @ B) \<Longrightarrow> x \<in> set A \<Longrightarrow> y \<in> set B \<Longrightarrow> fst x < fst y"
  by (simp add: sorted_wrt_append)

text \<open>The baseline is at the newest entry.\<close>

lemma baseline_newest: "increasing L \<Longrightarrow> e \<in> set L \<Longrightarrow> fst e \<le> current_stream_id (Some L)"
proof (cases L rule: rev_cases)
  case (snoc ys y)
  assume a: "increasing L" "e \<in> set L"
  then have "e = y \<or> fst e < fst y" using increasing_appendD [of ys "[y]" e y] unfolding snoc by fastforce
  then show ?thesis by (elim disjE) (simp_all add: snoc current_stream_id_def less_imp_le)
qed simp

lemma baseline_behind: "increasing (L @ P) \<Longrightarrow> \<forall>e\<in>set P. (0, 0) < fst e \<Longrightarrow> e \<in> set P \<Longrightarrow> current_stream_id (Some L) < fst e"
proof (cases L rule: rev_cases)
  case (snoc ys y)
  assume "increasing (L @ P)" "e \<in> set P"
  then have "fst y < fst e" using increasing_appendD [of L P y e] by (simp add: snoc)
  then show ?thesis by (simp add: snoc current_stream_id_def)
qed (simp add: current_stream_id_def)

lemma increasing_distinct: "increasing L \<Longrightarrow> distinct (map fst L)"
  by (induction L) auto

text \<open>A read of a batch leaves the rest pending.\<close>

lemma next_batch:
  assumes "increasing L"
  shows "c \<le> next_id c (xread L c)" "filter (\<lambda>e. next_id c (xread L c) < fst e) L = drop 50 (filter (\<lambda>e. c < fst e) L)"
    "next_id c (xread L c) = c \<or> next_id c (xread L c) \<in> fst ` set L"
proof -
  let ?F = "filter (\<lambda>e. c < fst e) L" and ?es = "xread L c"
  have F: "increasing ?F" using assms by (rule sorted_wrt_filter)
  have split: "?F = ?es @ drop 50 ?F" by (simp add: xread_def)
  show "c \<le> next_id c ?es" "next_id c ?es = c \<or> next_id c ?es \<in> fst ` set L"
  proof -
    have "List.last ?es \<in> set ?F" if "?es \<noteq> []" using last_in_set [OF that] by (auto simp: xread_def dest: in_set_takeD)
    then show "c \<le> next_id c ?es" "next_id c ?es = c \<or> next_id c ?es \<in> fst ` set L" by (auto simp: next_id_def)
  qed
  show "filter (\<lambda>e. next_id c ?es < fst e) L = drop 50 ?F"
  proof (cases "?es = []")
    case True
    then have "?F = []" by (simp add: xread_def)
    then show ?thesis using True by (simp add: next_id_def)
  next
    case False
    obtain ys y where es: "?es = ys @ [y]" using False by (metis append_butlast_last_id)
    have n: "next_id c ?es = fst y" by (simp add: next_id_def es)
    have "y \<in> set ?F" using es by (metis in_set_conv_decomp in_set_takeD xread_def)
    then have cy: "c < fst y" by simp
    have "increasing (ys @ [y] @ drop 50 ?F)" using F split es by (metis append.assoc)
    then have "filter (\<lambda>e. fst y < fst e) (ys @ [y]) = []" "filter (\<lambda>e. fst y < fst e) (drop 50 ?F) = drop 50 ?F"
      by (auto simp: sorted_wrt_append filter_empty_conv filter_id_conv)
    then have "filter (\<lambda>e. fst y < fst e) ?F = drop 50 ?F" by (metis append_Nil es filter_append split)
    moreover have "filter (\<lambda>e. fst y < fst e) ?F = filter (\<lambda>e. fst y < fst e) L"
      using cy by (auto intro!: filter_cong intro: less_trans)
    ultimately show ?thesis unfolding n by simp
  qed
qed

lemma feed_run_inv:
  assumes "map_of TOPIC_STREAMS t = Some name" "increasing (st @ published ops)" "since t = Some c"
    "\<forall>e\<in>set (published ops). c < fst e" "polls_topic t ops" "feed_run t ops st since = (st', got, fin)"
  shows "\<exists>cur. fin t = Some cur \<and> subseq got (filter (\<lambda>e. c < fst e) st @ published ops)
    \<and> increasing st'
    \<and> (keeps_up M t ops st since \<longrightarrow> got @ filter (\<lambda>e. cur < fst e) st' = filter (\<lambda>e. c < fst e) st @ published ops)"
  using assms(2-6)
proof (induction ops arbitrary: st since c got)
  case Nil
  then show ?case by simp
next
  case (Cons op ops)
  have pt: "polls_topic t ops" using Cons.prems(4) by (auto simp: polls_topic_def)
  show ?case
  proof (cases op)
    case (Publish i e k)
    let ?L = "st @ [(i, e)]"
    have L: "increasing (?L @ published ops)" using Cons.prems(1) by (simp add: Publish)
    then have inc: "increasing ?L" unfolding sorted_wrt_append [of _ ?L] by (rule conjunct1)
    note inc = inc increasing_drop [OF L, of k]
    have run: "feed_run t ops (drop k ?L) since = (st', got, fin)" using Cons.prems(5) by (simp add: Publish)
    have ahead: "c < i" "\<forall>e\<in>set (published ops). c < fst e" using Cons.prems(3) by (simp_all add: Publish)
    obtain cur where ih: "fin t = Some cur" "subseq got (filter (\<lambda>e. c < fst e) (drop k ?L) @ published ops)" "increasing st'"
      "keeps_up M t ops (drop k ?L) since \<longrightarrow> got @ filter (\<lambda>e. cur < fst e) st' = filter (\<lambda>e. c < fst e) (drop k ?L) @ published ops"
      using Cons.IH [OF inc(2) Cons.prems(2) ahead(2) pt run] by blast
    have all: "filter (\<lambda>e. c < fst e) ?L @ published ops = filter (\<lambda>e. c < fst e) st @ published (op # ops)"
      using ahead(1) by (simp add: Publish)
    have "suffix (drop k ?L) ?L" by (rule suffix_drop)
    then have "subseq (filter (\<lambda>e. c < fst e) (drop k ?L)) (filter (\<lambda>e. c < fst e) ?L)"
      by (intro subseq_filter suffix_imp_subseq)
    then have sub: "subseq got (filter (\<lambda>e. c < fst e) st @ published (op # ops))"
      unfolding all [symmetric] using ih(2) by (meson list_emb_append_mono subseq_order.order_refl subseq_order.trans)
    have "got @ filter (\<lambda>e. cur < fst e) st' = filter (\<lambda>e. c < fst e) st @ published (op # ops)"
      if "keeps_up M t (op # ops) st since"
    proof -
      have "filter (\<lambda>e. c < fst e) (drop k ?L) = filter (\<lambda>e. c < fst e) ?L"
        using that Cons.prems(2) by (intro pending_trim [OF inc(1), of k M]) (simp_all add: Publish pending_def)
      moreover have "keeps_up M t ops (drop k ?L) since" using that by (simp add: Publish)
      ultimately show ?thesis using ih(4) unfolding all [symmetric] by simp
    qed
    with ih(1,3) sub show ?thesis by blast
  next
    case (Poll p)
    obtain out since' where o: "poll_once t st p since = (out, since')" by fastforce
    obtain got1 where r: "feed_run t ops st since' = (st', got1, fin)" "got = (case out t of None \<Rightarrow> [] | Some es \<Rightarrow> es) @ got1"
      using Cons.prems(5) o by (auto simp: Poll split: prod.splits)
    have inc: "increasing (st @ published ops)" "increasing st" using Cons.prems(1) by (auto simp: Poll sorted_wrt_append)
    show ?thesis
    proof (cases p)
      case None
      then have e: "out = Map.empty" "since' = since" using o by (simp_all add: poll_once_def read_once_def)
      have "since t = Some c" "\<forall>e\<in>set (published ops). c < fst e" using Cons.prems(2,3) by (simp_all add: Poll)
      from Cons.IH [OF inc(1) this pt r(1) [unfolded e]] show ?thesis using r(2) o e by (simp add: Poll)
    next
      case (Some x)
      obtain topics others where x: "p = Some (topics, others)" using Some by (cases x) simp
      have tp: "distinct topics" "t \<in> set topics" using Cons.prems(4) by (auto simp: polls_topic_def Poll x)
      let ?es = "xread st c" and ?c = "next_id c (xread st c)"
      note d = poll_once_topic [OF assms(1) Cons.prems(2) tp o [unfolded x]]
      note nb = next_batch [OF inc(2), of c]
      have ahead: "\<forall>e\<in>set (published ops). ?c < fst e"
      proof
        fix e assume e: "e \<in> set (published ops)"
        from nb(3) show "?c < fst e"
        proof
          assume "?c = c"
          then show ?thesis using Cons.prems(3) e by (simp add: Poll)
        next
          assume "?c \<in> fst ` set st"
          then obtain x where x: "?c = fst x" "x \<in> set st" by (rule imageE)
          show ?thesis unfolding x(1) by (rule increasing_appendD [OF inc(1) x(2) e])
        qed
      qed
      obtain cur where ih: "fin t = Some cur" "subseq got1 (filter (\<lambda>e. ?c < fst e) st @ published ops)" "increasing st'"
        "keeps_up M t ops st since' \<longrightarrow> got1 @ filter (\<lambda>e. cur < fst e) st' = filter (\<lambda>e. ?c < fst e) st @ published ops"
        using Cons.IH [OF inc(1) d(2) ahead pt r(1)] by blast
      have all: "?es @ filter (\<lambda>e. ?c < fst e) st @ published ops = filter (\<lambda>e. c < fst e) st @ published (op # ops)"
        unfolding nb(2) by (simp add: Poll xread_def)
      have g: "got = ?es @ got1" using r(2) d(1) by simp
      have "subseq got (filter (\<lambda>e. c < fst e) st @ published (op # ops))"
        unfolding g all [symmetric] using ih(2) by (simp add: list_emb_append_mono)
      moreover have "got @ filter (\<lambda>e. cur < fst e) st' = filter (\<lambda>e. c < fst e) st @ published (op # ops)"
        if "keeps_up M t (op # ops) st since"
        using that ih(4) o unfolding g all [symmetric] by (simp add: Poll)
      ultimately show ?thesis using ih(1,3) by blast
    qed
  qed
qed

lemma feed_run_append:
  "feed_run t (xs @ ys) st since = (case feed_run t xs st since of (log1, got1, since1) \<Rightarrow>
     (case feed_run t ys log1 since1 of (log2, got2, since2) \<Rightarrow> (log2, got1 @ got2, since2)))"
proof (induction xs arbitrary: st since)
  case (Cons op xs)
  then show ?case by (cases op) (simp_all split: prod.splits)
qed (simp split: prod.splits)

text \<open>
  C23. The feed of a topic from the subscription on, over any number of reads, failing ones included, and
  any publications and trims of its stream in between; \<open>log0\<close> is the stream at the subscription, whose
  newest entry the cursor is baselined at. What the connection has got is a part of what was published
  since, in order, no entry twice and none from before the subscription. Nothing is skipped while the
  connection is at most as many entries behind as the trimming keeps: then what it has got followed by
  what is pending in the stream after the cursor is exactly what was published. And each further read
  that succeeds delivers the next 50 pending entries (all of them, if no more are pending), poison
  entries included, which are passed over once.
\<close>

theorem feed_exactly_once:
  assumes "map_of TOPIC_STREAMS t = Some name" "increasing (log0 @ published ops)" "\<forall>e\<in>set (published ops). (0, 0) < fst e"
    "polls_topic t ops" "since t = None" "feed_run t ops log0 (subscribe t (Some log0) since) = (st, got, fin)"
  shows "\<exists>cur. fin t = Some cur \<and> subseq got (published ops) \<and> distinct (map fst got)
    \<and> (keeps_up M t ops log0 (subscribe t (Some log0) since) \<longrightarrow> got @ filter (\<lambda>e. cur < fst e) st = published ops)
    \<and> (\<forall>topics others. distinct topics \<and> t \<in> set topics \<longrightarrow>
         (\<exists>fin'. feed_run t (ops @ [Poll (Some (topics, others))]) log0 (subscribe t (Some log0) since)
            = (st, got @ take 50 (filter (\<lambda>e. cur < fst e) st), fin')))"
proof -
  let ?c = "current_stream_id (Some log0)" and ?since = "subscribe t (Some log0) since"
  have s: "?since t = Some ?c" using assms(5) by (simp add: subscribe_def)
  have ahead: "\<forall>e\<in>set (published ops). ?c < fst e" using baseline_behind [OF assms(2,3)] by blast
  have "increasing log0" using assms(2) unfolding sorted_wrt_append by (rule conjunct1)
  then have "\<forall>e\<in>set log0. \<not> ?c < fst e" using baseline_newest [of log0] by (simp add: not_less)
  then have none: "filter (\<lambda>e. ?c < fst e) log0 = []" unfolding filter_empty_conv .
  obtain cur where i: "fin t = Some cur" "subseq got (published ops)"
    "keeps_up M t ops log0 ?since \<longrightarrow> got @ filter (\<lambda>e. cur < fst e) st = published ops"
    using feed_run_inv [OF assms(1,2) s ahead assms(4,6), of M] unfolding none append_Nil by (elim exE conjE)
  have "increasing (published ops)" using assms(2) by (simp add: sorted_wrt_append)
  then have d: "distinct (map fst got)" using subseq_distinct_map [OF i(2)] increasing_distinct by blast
  have poll: "\<exists>fin'. feed_run t (ops @ [Poll (Some (topics, others))]) log0 ?since
      = (st, got @ take 50 (filter (\<lambda>e. cur < fst e) st), fin')" if "distinct topics \<and> t \<in> set topics" for topics others
  proof -
    obtain out since' where o: "poll_once t st (Some (topics, others)) fin = (out, since')" by fastforce
    from poll_once_topic(1) [OF assms(1) i(1) conjunct1 [OF that] conjunct2 [OF that] o] show ?thesis
      by (simp add: feed_run_append assms(6) o xread_def)
  qed
  show ?thesis
    by (rule exI [of _ cur], intro conjI i d allI impI, rule poll)
qed

text \<open>The witness: an old entry, two published ones (the second poison), a failing and a successful read.\<close>

theorem feed_exactly_once_witness:
  "fst (snd (feed_run ''alerts'' [Publish (2, 0) (Some True) 0, Poll None, Publish (3, 0) None 0, Poll (Some ([''alerts''], \<lambda>_. []))]
      [((1, 0), Some False)] (subscribe ''alerts'' (Some [((1, 0), Some False)]) Map.empty)))
    = [((2, 0), Some True), ((3, 0), None)]"
proof -
  let ?ops = "[Publish (2, 0) (Some True) 0, Poll None, Publish (3, 0) None 0] :: bool feed_op list"
  let ?p = "Poll (Some ([''alerts''], \<lambda>_. [])) :: bool feed_op"
  let ?s = "subscribe ''alerts'' (Some [((1, 0), Some False)]) Map.empty"
  have r: "feed_run ''alerts'' ?ops [((1, 0), Some False)] ?s = ([((1, 0), Some False), ((2, 0), Some True), ((3, 0), None)], [], ?s)"
    by (simp add: poll_once_def read_once_def)
  have n: "map_of TOPIC_STREAMS ''alerts'' = Some ''alerts.stream''" by (simp add: TOPIC_STREAMS_def)
  have p: "published ?ops = [((2, 0), Some True), ((3, 0), None)]" by simp
  have q: "increasing ([((1, 0), Some False)] @ published ?ops)" "\<forall>e\<in>set (published ?ops). (0, 0) < fst e"
    unfolding p by (simp_all add: less_prod_def)
  have pt: "polls_topic ''alerts'' ?ops" by (simp add: polls_topic_def)
  have k: "keeps_up 10 ''alerts'' ?ops [((1, 0), Some False)] ?s"
    by (simp add: pending_def poll_once_def read_once_def split: option.splits)
  have z: "(Map.empty :: string \<rightharpoonup> stream_id) ''alerts'' = None" by simp
  obtain cur where c: "keeps_up 10 ''alerts'' ?ops [((1, 0), Some False)] ?s \<longrightarrow>
      [] @ filter (\<lambda>e. cur < fst e) [((1, 0), Some False), ((2, 0), Some True), ((3, 0), None)] = published ?ops"
    "\<forall>topics others. distinct topics \<and> ''alerts'' \<in> set topics \<longrightarrow>
       (\<exists>fin'. feed_run ''alerts'' (?ops @ [Poll (Some (topics, others))]) [((1, 0), Some False)] ?s =
         ([((1, 0), Some False), ((2, 0), Some True), ((3, 0), None)],
          [] @ take 50 (filter (\<lambda>e. cur < fst e) [((1, 0), Some False), ((2, 0), Some True), ((3, 0), None)]), fin'))"
    using feed_exactly_once [OF n q pt z r, of 10] by (elim exE conjE)
  have b: "filter (\<lambda>e. cur < fst e) [((1, 0), Some False), ((2, 0), Some True), ((3, 0), None)] = [((2, 0), Some True), ((3, 0), None)]"
    using mp [OF c(1) k] unfolding p append_Nil .
  obtain fin' where "feed_run ''alerts'' (?ops @ [?p]) [((1, 0), Some False)] ?s =
         ([((1, 0), Some False), ((2, 0), Some True), ((3, 0), None)], take 50 [((2, 0), Some True), ((3, 0), None)], fin')"
    using c(2) [rule_format, of "[''alerts'']" "\<lambda>_. []"] unfolding b append_Nil by auto
  then show ?thesis by (simp del: feed_run.simps)
qed

end
