(* ===== verification/Alerts.thy ===== *)
theory Alerts
  imports Engine
begin

text \<open>
  Alerts: translation of bus events (\<^verbatim>\<open>alerts/translate.py\<close>), the alert table
  (\<^verbatim>\<open>data/alerts_repository.py\<close>, \<^verbatim>\<open>models/alert_event.py\<close>) and one batch of the alert worker
  (\<^verbatim>\<open>workers/alert_worker.py\<close>). The decoding of an entry and SHA-256 are parameters; metrics and logs
  are left out. The character after a truncation, U+2026, is written \<open>CHR 0x85\<close>.
\<close>

section \<open>Events and alerts\<close>

type_synonym json_dict = "(string \<times> json) list"

record event =
  ev_type :: string
  ev_payload :: json_dict
  ev_producer :: string
  ev_produced_at :: datetime
  ev_schema_version :: int
  ev_correlation_id :: string

record alert_in =
  al_event_id :: string
  al_event_type :: string
  al_source :: string
  al_severity :: string
  al_title :: string
  al_message :: "string option"
  al_symbol :: "string option"
  al_timeframe :: "string option"
  al_producer :: string
  al_correlation_id :: "string option"
  al_occurred_at :: datetime
  al_payload :: json_dict

record alert_row = alert_in +
  al_id :: uuid
  al_acknowledged_at :: "datetime option"
  al_acknowledged_by :: "string option"

definition severity_for :: "string \<Rightarrow> string" where
  "severity_for event_type =
     (let l = lower event_type in
      if contains ''critical'' l then ''critical''
      else if contains ''breach'' l \<or> contains ''staleness'' l \<or> contains ''veto'' l \<or> contains ''blocked'' l
        \<or> contains ''budget'' l \<or> contains ''brake'' l then ''warning''
      else ''info'')"

definition payload_str :: "(json \<Rightarrow> string) \<Rightarrow> json_dict \<Rightarrow> string \<Rightarrow> string" where
  "payload_str R payload key = (case json_get payload key of None \<Rightarrow> [] | Some JNull \<Rightarrow> [] | Some j \<Rightarrow> py_str R j)"

definition truncated :: "string \<Rightarrow> nat \<Rightarrow> string" where
  "truncated s n = (if length s \<le> n then s else take (n - 1) s @ [CHR 0x85])"

text \<open>\<open>sha\<close> is the hexadecimal SHA-256 digest.\<close>

definition digest_event_id :: "(json \<Rightarrow> string) \<Rightarrow> (string \<Rightarrow> string) \<Rightarrow> event \<Rightarrow> string" where
  "digest_event_id R sha ev =
     (let provided = payload_str R (ev_payload ev) ''event_id'' in
      if provided \<noteq> [] then truncated provided 64
      else take 32 (sha (ev_type ev @ ''|'' @ ev_producer ev @ ''|'' @ isoformat (ev_produced_at ev) @ ''|''
             @ payload_str R (ev_payload ev) ''symbol'' @ ''|'' @ payload_str R (ev_payload ev) ''timeframe'')))"

text \<open>\<^verbatim>\<open>payload.get(k)\<close> as the operand of \<^verbatim>\<open>or\<close>: \<open>None\<close> when the value is false.\<close>

definition truthy_get :: "json_dict \<Rightarrow> string \<Rightarrow> json option" where
  "truthy_get payload key = (case json_get payload key of None \<Rightarrow> None | Some j \<Rightarrow> if truthy j then Some j else None)"

definition or_str :: "string \<Rightarrow> string \<Rightarrow> string" where
  "or_str a b = (if a = [] then b else a)"

definition alert_title :: "string \<Rightarrow> string \<Rightarrow> string \<Rightarrow> string \<Rightarrow> string" where
  "alert_title event_type symbol timeframe subject =
     (if event_type = ''alert.staleness'' then ''Stale market data: '' @ symbol @ '' '' @ timeframe
      else if event_type = ''alert.risk_brake'' then ''Risk brake tripped: '' @ subject
      else if event_type = ''alert.llm_budget'' then ''LLM daily budget guard: '' @ subject
      else if event_type = ''alert.orchestrator'' then ''Orchestrator/system alert: '' @ subject
      else if event_type = ''alert.system'' then ''System alert: '' @ subject
      else ''Alert: '' @ subject)"

definition translate :: "(json \<Rightarrow> string) \<Rightarrow> (string \<Rightarrow> string) \<Rightarrow> event \<Rightarrow> string \<Rightarrow> alert_in" where
  "translate R sha ev default_source =
     (let payload = ev_payload ev;
          symbol = (case truthy_get payload ''symbol'' of Some j \<Rightarrow> Some j | None \<Rightarrow> truthy_get payload ''pair'');
          timeframe = truthy_get payload ''timeframe'';
          subject = or_str (payload_str R payload ''subject'')
            (or_str (payload_str R payload ''reason'') (List.last (split_on (CHR ''.'') (ev_type ev))));
          text = (\<lambda>j. case j of None \<Rightarrow> ''n/a'' | Some x \<Rightarrow> py_str R x);
          message = payload_str R payload ''message''
      in \<lparr>al_event_id = digest_event_id R sha ev, al_event_type = ev_type ev,
          al_source = or_str (payload_str R payload ''source'') (or_str (ev_producer ev) default_source),
          al_severity = or_str (payload_str R payload ''severity'') (severity_for (ev_type ev)),
          al_title = truncated (alert_title (ev_type ev) (text symbol) (text timeframe) subject) 255,
          al_message = (if message = [] then None else Some message),
          al_symbol = map_option (\<lambda>j. take 12 (py_str R j)) symbol,
          al_timeframe = map_option (\<lambda>j. take 8 (py_str R j)) timeframe,
          al_producer = ev_producer ev,
          al_correlation_id = (if ev_correlation_id ev = [] then None else Some (ev_correlation_id ev)),
          al_occurred_at = ev_produced_at ev, al_payload = payload\<rparr>)"

section \<open>The table\<close>

definition opt_len :: "nat \<Rightarrow> string option \<Rightarrow> bool" where
  "opt_len n s = (case s of None \<Rightarrow> True | Some x \<Rightarrow> length x \<le> n)"

text \<open>The column lengths and the check constraint of \<^verbatim>\<open>alert_events\<close>; PostgreSQL stores no NUL character,
  neither in a text nor in a JSONB column.\<close>

fun nul_free :: "json \<Rightarrow> bool" where
  "nul_free (JStr s) = (CHR 0x00 \<notin> set s)"
| "nul_free (JList js) = list_all nul_free js"
| "nul_free (JDict d) = list_all (\<lambda>x. CHR 0x00 \<notin> set (fst x) \<and> nul_free (snd x)) d"
| "nul_free _ = True"

definition alert_texts :: "alert_in \<Rightarrow> string list" where
  "alert_texts a = [al_event_id a, al_event_type a, al_source a, al_severity a, al_title a, al_producer a]
     @ List.map_filter id [al_message a, al_symbol a, al_timeframe a, al_correlation_id a]"

definition alert_fits :: "alert_in \<Rightarrow> bool" where
  "alert_fits a = (length (al_event_id a) \<le> 64 \<and> length (al_event_type a) \<le> 64 \<and> length (al_source a) \<le> 32
     \<and> al_severity a \<in> {''info'', ''warning'', ''critical''} \<and> length (al_title a) \<le> 255 \<and> opt_len 12 (al_symbol a)
     \<and> opt_len 8 (al_timeframe a) \<and> length (al_producer a) \<le> 64 \<and> opt_len 64 (al_correlation_id a)
     \<and> nul_free (JList (map JStr (alert_texts a))) \<and> nul_free (JDict (al_payload a)))"

definition alert_row_of :: "uuid \<Rightarrow> alert_in \<Rightarrow> alert_row" where
  "alert_row_of i a = alert_in.extend a \<lparr>al_id = i, al_acknowledged_at = None, al_acknowledged_by = None\<rparr>"

text \<open>A transaction: once a statement has failed PostgreSQL refuses every further one, and its \<^verbatim>\<open>COMMIT\<close>
  rolls back.\<close>

datatype alert_tx = Open "alert_row list" | Aborted

definition save_alert :: "uuid \<Rightarrow> alert_in \<Rightarrow> alert_tx \<Rightarrow> bool option \<times> alert_tx" where
  "save_alert new_id a tx =
     (case tx of Aborted \<Rightarrow> (None, Aborted)
      | Open rows \<Rightarrow>
          if \<not> alert_fits a then (None, Aborted)
          else if al_event_id a \<in> al_event_id ` set rows then (Some False, Open rows)
          else (Some True, Open (rows @ [alert_row_of new_id a])))"

definition commit_alerts :: "alert_row list \<Rightarrow> alert_tx \<Rightarrow> alert_row list" where
  "commit_alerts before tx = (case tx of Open rows \<Rightarrow> rows | Aborted \<Rightarrow> before)"

definition ack_alert :: "string \<Rightarrow> string \<Rightarrow> datetime \<Rightarrow> alert_row list \<Rightarrow> bool \<times> alert_row list" where
  "ack_alert event_id acknowledged_by t rows =
     (let hit = (\<lambda>r. al_event_id r = event_id \<and> al_acknowledged_at r = None)
      in (list_ex hit rows, map (\<lambda>r. if hit r then r\<lparr>al_acknowledged_at := Some t, al_acknowledged_by := Some acknowledged_by\<rparr> else r) rows))"

definition list_alerts ::
  "string option \<Rightarrow> string option \<Rightarrow> bool option \<Rightarrow> nat \<Rightarrow> nat \<Rightarrow> alert_row list \<Rightarrow> alert_row list" where
  "list_alerts source event_type acknowledged limit offset rows =
     (let keep = (\<lambda>r. (case source of None \<Rightarrow> True | Some s \<Rightarrow> s = [] \<or> al_source r = s)
            \<and> (case event_type of None \<Rightarrow> True | Some t \<Rightarrow> t = [] \<or> al_event_type r = t)
            \<and> (case acknowledged of None \<Rightarrow> True | Some b \<Rightarrow> b = (al_acknowledged_at r \<noteq> None)))
      in take limit (drop offset (rev (sort_key (\<lambda>r. (al_occurred_at r, al_id r)) (filter keep rows)))))"

definition count_pending :: "alert_row list \<Rightarrow> nat" where
  "count_pending rows = length (filter (\<lambda>r. al_acknowledged_at r = None) rows)"

definition get_alert :: "string \<Rightarrow> alert_row list \<Rightarrow> alert_row option" where
  "get_alert event_id rows = find (\<lambda>r. al_event_id r = event_id) rows"

section \<open>One batch of the worker\<close>

record alert_batch_result =
  ab_processed :: nat
  ab_replayed :: nat
  ab_errors :: nat
  ab_inserted :: "(string \<times> nat) list"

text \<open>An entry of the reply: its id, its event (\<open>None\<close> for poison) and the row id drawn for it.\<close>

type_synonym alert_entry = "string \<times> event option \<times> uuid"

fun alert_loop ::
  "(json \<Rightarrow> string) \<Rightarrow> (string \<Rightarrow> string) \<Rightarrow> alert_entry list \<Rightarrow> alert_tx \<times> alert_batch_result \<times> string list
   \<Rightarrow> alert_tx \<times> alert_batch_result \<times> string list" where
  "alert_loop R sha [] s = s"
| "alert_loop R sha ((entry, None, i) # es) (tx, res, acks) =
     alert_loop R sha es (tx, res\<lparr>ab_replayed := ab_replayed res + 1\<rparr>, acks @ [entry])"
| "alert_loop R sha ((entry, Some ev, i) # es) (tx, res, acks) =
     (let alert = translate R sha ev (or_str (ev_producer ev) ''monitor'') in
      case save_alert i alert tx of
        (None, tx') \<Rightarrow> alert_loop R sha es (tx', res\<lparr>ab_errors := ab_errors res + 1\<rparr>, acks @ [entry])
      | (Some inserted, tx') \<Rightarrow>
          let src = or_str (al_source alert) ''unknown'';
              n = (case map_of (ab_inserted res) src of None \<Rightarrow> 0 | Some k \<Rightarrow> k);
              res1 = res\<lparr>ab_inserted := dict_set src (n + 1) (ab_inserted res)\<rparr>;
              res2 = (if inserted then res1\<lparr>ab_processed := ab_processed res1 + 1\<rparr> else res1\<lparr>ab_replayed := ab_replayed res1 + 1\<rparr>)
          in alert_loop R sha es (tx', res2, acks @ [entry]))"

text \<open>The result, the entries acknowledged and the table after the commit.\<close>

definition alert_poll_once ::
  "(json \<Rightarrow> string) \<Rightarrow> (string \<Rightarrow> string) \<Rightarrow> alert_entry list \<Rightarrow> alert_row list \<Rightarrow> alert_batch_result \<times> string list \<times> alert_row list" where
  "alert_poll_once R sha es rows =
     (case alert_loop R sha es (Open rows, \<lparr>ab_processed = 0, ab_replayed = 0, ab_errors = 0, ab_inserted = []\<rparr>, []) of
        (tx, res, acks) \<Rightarrow> (res, acks, commit_alerts rows tx))"

section \<open>What a batch does\<close>

definition alert_of :: "(json \<Rightarrow> string) \<Rightarrow> (string \<Rightarrow> string) \<Rightarrow> event \<Rightarrow> alert_in" where
  "alert_of R sha ev = translate R sha ev (or_str (ev_producer ev) ''monitor'')"

definition storable :: "(json \<Rightarrow> string) \<Rightarrow> (string \<Rightarrow> string) \<Rightarrow> alert_entry \<Rightarrow> bool" where
  "storable R sha e = (case fst (snd e) of None \<Rightarrow> True | Some ev \<Rightarrow> alert_fits (alert_of R sha ev))"

text \<open>The specification: the first occurrence of every new event id, in order.\<close>

fun new_alerts :: "(json \<Rightarrow> string) \<Rightarrow> (string \<Rightarrow> string) \<Rightarrow> alert_entry list \<Rightarrow> string set \<Rightarrow> alert_row list" where
  "new_alerts R sha [] seen = []"
| "new_alerts R sha ((entry, None, i) # es) seen = new_alerts R sha es seen"
| "new_alerts R sha ((entry, Some ev, i) # es) seen =
     (let a = alert_of R sha ev in
      if al_event_id a \<in> seen then new_alerts R sha es seen
      else alert_row_of i a # new_alerts R sha es (insert (al_event_id a) seen))"

lemma loop_step:
  "\<exists>tx' res'. alert_loop R sha (e # es) (tx, res, acks) = alert_loop R sha es (tx', res', acks @ [fst e])
    \<and> ab_processed res' + ab_replayed res' + ab_errors res' = ab_processed res + ab_replayed res + ab_errors res + 1
    \<and> (tx = Aborted \<or> \<not> storable R sha e \<longrightarrow> tx' = Aborted)"
proof -
  obtain entry d i where e: "e = (entry, d, i)" by (cases e)
  show ?thesis
  proof (cases d)
    case None
    then show ?thesis by (intro exI [of _ tx] exI [of _ "res\<lparr>ab_replayed := ab_replayed res + 1\<rparr>"]) (simp add: e storable_def)
  next
    case (Some ev)
    obtain o' tx' where s: "save_alert i (translate R sha ev (or_str (ev_producer ev) ''monitor'')) tx = (o', tx')" by fastforce
    have "tx = Aborted \<or> \<not> storable R sha e \<longrightarrow> tx' = Aborted"
      using s by (auto simp: e Some storable_def alert_of_def save_alert_def split: alert_tx.splits if_splits)
    moreover obtain res1 where "alert_loop R sha (e # es) (tx, res, acks) = alert_loop R sha es (tx', res1, acks @ [entry])"
      "ab_processed res1 + ab_replayed res1 + ab_errors res1 = ab_processed res + ab_replayed res + ab_errors res + 1"
      by (cases o') (auto simp: e Some s Let_def)
    ultimately show ?thesis by (auto simp: e)
  qed
qed

lemma acks_loop: "\<exists>tx' res'. alert_loop R sha es (tx, res, acks) = (tx', res', acks @ map fst es)
    \<and> ab_processed res' + ab_replayed res' + ab_errors res' = ab_processed res + ab_replayed res + ab_errors res + length es
    \<and> (tx = Aborted \<or> (\<exists>e\<in>set es. \<not> storable R sha e) \<longrightarrow> tx' = Aborted)"
proof (induction es arbitrary: tx res acks)
  case (Cons e es)
  obtain tx1 res1 where s: "alert_loop R sha (e # es) (tx, res, acks) = alert_loop R sha es (tx1, res1, acks @ [fst e])"
    "ab_processed res1 + ab_replayed res1 + ab_errors res1 = ab_processed res + ab_replayed res + ab_errors res + 1"
    "tx = Aborted \<or> \<not> storable R sha e \<longrightarrow> tx1 = Aborted"
    using loop_step by blast
  from Cons.IH [of tx1 res1 "acks @ [fst e]"] s show ?case by auto
qed simp

lemma event_id_row [simp]: "al_event_id (alert_row_of i a) = al_event_id a"
  by (simp add: alert_row_of_def alert_in.defs)

lemma loop_storable:
  assumes "\<forall>e\<in>set es. storable R sha e"
  shows "\<exists>res' acks'. alert_loop R sha es (Open rows, res, acks) = (Open (rows @ new_alerts R sha es (al_event_id ` set rows)), res', acks')
    \<and> ab_errors res' = ab_errors res \<and> ab_processed res' = ab_processed res + length (new_alerts R sha es (al_event_id ` set rows))"
  using assms
proof (induction es arbitrary: rows res acks)
  case (Cons e es)
  obtain entry d i where e: "e = (entry, d, i)" by (cases e)
  have st: "\<forall>x\<in>set es. storable R sha x" using Cons.prems by simp
  show ?case
  proof (cases d)
    case None
    with Cons.IH [OF st, of rows "res\<lparr>ab_replayed := ab_replayed res + 1\<rparr>" "acks @ [entry]"] show ?thesis by (auto simp: e)
  next
    case (Some ev)
    let ?a = "alert_of R sha ev"
    have f: "alert_fits ?a" using Cons.prems by (simp add: e Some storable_def)
    show ?thesis
    proof (cases "al_event_id ?a \<in> al_event_id ` set rows")
      case True
      then obtain res1 where "alert_loop R sha (e # es) (Open rows, res, acks) = alert_loop R sha es (Open rows, res1, acks @ [entry])"
        "ab_errors res1 = ab_errors res" "ab_processed res1 = ab_processed res"
        using f by (auto simp: e Some save_alert_def alert_of_def Let_def)
      with Cons.IH [OF st, of rows res1 "acks @ [entry]"] True show ?thesis by (auto simp: e Some Let_def)
    next
      case False
      then obtain res1 where "alert_loop R sha (e # es) (Open rows, res, acks)
          = alert_loop R sha es (Open (rows @ [alert_row_of i ?a]), res1, acks @ [entry])"
        "ab_errors res1 = ab_errors res" "ab_processed res1 = ab_processed res + 1"
        using f by (auto simp: e Some save_alert_def alert_of_def Let_def)
      with Cons.IH [OF st, of "rows @ [alert_row_of i ?a]" res1 "acks @ [entry]"] False show ?thesis by (auto simp: e Some Let_def)
    qed
  qed
qed simp

definition ids_of :: "(json \<Rightarrow> string) \<Rightarrow> (string \<Rightarrow> string) \<Rightarrow> alert_entry list \<Rightarrow> string set" where
  "ids_of R sha es = {al_event_id (alert_of R sha ev) | ev. \<exists>entry i. (entry, Some ev, i) \<in> set es}"

lemma ids_of_step [simp]:
  "ids_of R sha [] = {}"
  "ids_of R sha ((entry, None, i) # es) = ids_of R sha es"
  "ids_of R sha ((entry, Some ev, i) # es) = insert (al_event_id (alert_of R sha ev)) (ids_of R sha es)"
proof -
  show "ids_of R sha [] = {}" by (simp add: ids_of_def)
  show "ids_of R sha ((entry, None, i) # es) = ids_of R sha es" by (simp add: ids_of_def)
  show "ids_of R sha ((entry, Some ev, i) # es) = insert (al_event_id (alert_of R sha ev)) (ids_of R sha es)"
    unfolding ids_of_def set_simps(2) by blast
qed

lemma new_alerts_spec:
  "al_event_id ` set (new_alerts R sha es seen) \<union> seen = seen \<union> ids_of R sha es
   \<and> distinct (map al_event_id (new_alerts R sha es seen)) \<and> al_event_id ` set (new_alerts R sha es seen) \<inter> seen = {}"
proof (induction R sha es seen rule: new_alerts.induct)
  case (3 R sha entry ev i es seen)
  show ?case
  proof (cases "al_event_id (alert_of R sha ev) \<in> seen")
    case True
    with 3(1) [OF refl] show ?thesis by (simp add: insert_absorb)
  next
    case False
    let ?x = "al_event_id (alert_of R sha ev)" and ?N = "new_alerts R sha es (insert (al_event_id (alert_of R sha ev)) seen)"
    have n: "new_alerts R sha ((entry, Some ev, i) # es) seen = alert_row_of i (alert_of R sha ev) # ?N"
      using False by (simp add: Let_def)
    from 3(2) [OF refl False] have ih: "al_event_id ` set ?N \<union> insert ?x seen = insert ?x seen \<union> ids_of R sha es"
      "distinct (map al_event_id ?N)" "al_event_id ` set ?N \<inter> insert ?x seen = {}" by blast+
    have "?x \<notin> al_event_id ` set ?N" using ih(3) by blast
    moreover have "insert ?x (al_event_id ` set ?N) \<union> seen = seen \<union> insert ?x (ids_of R sha es)" using ih(1) by blast
    moreover have "insert ?x (al_event_id ` set ?N) \<inter> seen = {}" using ih(3) False by blast
    ultimately show ?thesis using ih(2) unfolding n by simp
  qed
qed simp_all

lemma new_alerts_known: "ids_of R sha es \<subseteq> seen \<Longrightarrow> new_alerts R sha es seen = []"
  by (induction R sha es seen rule: new_alerts.induct) (simp_all add: Let_def)

lemma ids_of_mono:
  assumes "set (map (\<lambda>e. fst (snd e)) again) \<subseteq> set (map (\<lambda>e. fst (snd e)) es)"
  shows "ids_of R sha again \<subseteq> ids_of R sha es" and "\<forall>e\<in>set es. storable R sha e \<Longrightarrow> \<forall>e\<in>set again. storable R sha e"
proof -
  have m: "\<exists>x\<in>set es. fst (snd x) = fst (snd e)" if "e \<in> set again" for e
  proof -
    have "fst (snd e) \<in> set (map (\<lambda>e. fst (snd e)) again)" unfolding set_map using that by (rule imageI)
    with assms have "fst (snd e) \<in> (\<lambda>e. fst (snd e)) ` set es" unfolding set_map by (rule subsetD)
    then obtain x where "x \<in> set es" "fst (snd e) = fst (snd x)" by (rule imageE)
    then show ?thesis by (metis (no_types))
  qed
  show "ids_of R sha again \<subseteq> ids_of R sha es"
  proof
    fix y assume "y \<in> ids_of R sha again"
    then obtain ev entry i where y: "y = al_event_id (alert_of R sha ev)" "(entry, Some ev, i) \<in> set again" unfolding ids_of_def by blast
    from m [OF y(2)] obtain x where x: "x \<in> set es" "fst (snd x) = Some ev" by (simp only: fst_conv snd_conv) blast
    obtain a b c where abc: "x = (a, b, c)" by (cases x)
    with x have "(a, Some ev, c) \<in> set es" by simp
    then show "y \<in> ids_of R sha es" unfolding ids_of_def y(1) by blast
  qed
  show "\<forall>e\<in>set again. storable R sha e" if st: "\<forall>e\<in>set es. storable R sha e"
  proof
    fix e assume "e \<in> set again"
    from m [OF this] obtain x where "x \<in> set es" "fst (snd x) = fst (snd e)" ..
    with st show "storable R sha e" unfolding storable_def by fastforce
  qed
qed

text \<open>
  C24. A batch whose alerts all fit the table stores exactly the first occurrence of every new event id,
  in order and once; every entry is acknowledged and counted; and delivering the batch again, whole or
  in part and in any order, changes nothing.
\<close>

theorem alerts_persist_once:
  assumes "\<forall>e\<in>set es. storable R sha e" "distinct (map al_event_id rows)"
  shows "\<exists>res rows'. alert_poll_once R sha es rows = (res, map fst es, rows')
    \<and> rows' = rows @ new_alerts R sha es (al_event_id ` set rows)
    \<and> distinct (map al_event_id rows')
    \<and> al_event_id ` set rows' = al_event_id ` set rows \<union> ids_of R sha es
    \<and> ab_errors res = 0 \<and> ab_processed res = length rows' - length rows \<and> ab_processed res + ab_replayed res = length es
    \<and> (\<forall>again. set (map (\<lambda>e. fst (snd e)) again) \<subseteq> set (map (\<lambda>e. fst (snd e)) es) \<longrightarrow> snd (snd (alert_poll_once R sha again rows')) = rows')"
proof -
  let ?init = "\<lparr>ab_processed = 0, ab_replayed = 0, ab_errors = 0, ab_inserted = []\<rparr>"
  let ?seen = "al_event_id ` set rows"
  let ?rows' = "rows @ new_alerts R sha es ?seen"
  from loop_storable [OF assms(1), of rows ?init "[]"] obtain res acks where
    l: "alert_loop R sha es (Open rows, ?init, []) = (Open ?rows', res, acks)" "ab_errors res = 0" "ab_processed res = length (new_alerts R sha es ?seen)"
    by auto
  from acks_loop [of R sha es "Open rows" ?init "[]"] l(1) have c: "acks = map fst es" "ab_processed res + ab_replayed res + ab_errors res = length es" by auto
  have spec: "al_event_id ` set (new_alerts R sha es ?seen) \<union> ?seen = ?seen \<union> ids_of R sha es"
    "distinct (map al_event_id (new_alerts R sha es ?seen))" "al_event_id ` set (new_alerts R sha es ?seen) \<inter> ?seen = {}"
    using new_alerts_spec [of R sha es ?seen] by blast+
  have seen': "al_event_id ` set ?rows' = ?seen \<union> ids_of R sha es"
    unfolding spec(1) [symmetric] by (simp only: set_append image_Un Un_commute)
  have again: "snd (snd (alert_poll_once R sha again ?rows')) = ?rows'"
    if sub: "set (map (\<lambda>e. fst (snd e)) again) \<subseteq> set (map (\<lambda>e. fst (snd e)) es)" for again
  proof -
    note st = ids_of_mono(2) [OF sub assms(1)]
    have "new_alerts R sha again (al_event_id ` set ?rows') = []"
      by (rule new_alerts_known) (use ids_of_mono(1) [OF sub] in \<open>unfold seen', blast\<close>)
    with loop_storable [OF st, of ?rows' ?init "[]"] obtain res2 acks2
      where "alert_loop R sha again (Open ?rows', ?init, []) = (Open ?rows', res2, acks2)" by (simp only: append_Nil2) blast
    then show ?thesis by (simp add: alert_poll_once_def commit_alerts_def)
  qed
  have d: "distinct (map al_event_id ?rows')"
    using assms(2) spec(2,3) by (simp only: map_append distinct_append set_map) blast
  have run: "alert_poll_once R sha es rows = (res, map fst es, ?rows')" using c(1) by (simp add: alert_poll_once_def l(1) commit_alerts_def)
  have n: "ab_processed res = length ?rows' - length rows" using l(3) by simp
  have t: "ab_processed res + ab_replayed res = length es" using c(2) l(2) by simp
  show ?thesis by (rule exI [of _ res], rule exI [of _ ?rows']) (intro conjI allI impI refl run d seen' l(2) n t again)
qed

text \<open>
  C25. One alert that does not fit its columns loses the whole batch: its failing insert aborts the
  transaction the batch shares, so the commit stores nothing, neither the alerts before it nor those
  after it, but every entry is acknowledged and never delivered again.
\<close>

theorem alert_batch_lost:
  assumes "(entry, Some ev, i) \<in> set es" "\<not> alert_fits (alert_of R sha ev)"
  shows "\<exists>res. alert_poll_once R sha es rows = (res, map fst es, rows)"
proof -
  have "\<not> storable R sha (entry, Some ev, i)" using assms(2) by (simp add: storable_def)
  with assms(1) have "\<exists>e\<in>set es. \<not> storable R sha e" by blast
  with acks_loop [of R sha es "Open rows" "\<lparr>ab_processed = 0, ab_replayed = 0, ab_errors = 0, ab_inserted = []\<rparr>" "[]"]
  show ?thesis by (auto simp: alert_poll_once_def commit_alerts_def)
qed

section \<open>Concrete batches\<close>

definition demo_event :: "string \<Rightarrow> string \<Rightarrow> event" where
  "demo_event event_id severity = \<lparr>ev_type = ''alert.system'', ev_payload = [(''event_id'', JStr event_id), (''severity'', JStr severity)],
     ev_producer = ''monitor'', ev_produced_at = 0, ev_schema_version = 1, ev_correlation_id = []\<rparr>"

lemma demo_alert:
  "al_severity (alert_of R sha (demo_event e s)) = or_str s ''info''"
  "e \<noteq> [] \<Longrightarrow> length e \<le> 64 \<Longrightarrow> al_event_id (alert_of R sha (demo_event e s)) = e"
  "e \<noteq> [] \<Longrightarrow> length e \<le> 64 \<Longrightarrow> CHR 0x00 \<notin> set e \<union> set s \<Longrightarrow>
     alert_fits (alert_of R sha (demo_event e s)) \<longleftrightarrow> or_str s ''info'' \<in> {''info'', ''warning'', ''critical''}"
proof -
  have v: "severity_for ''alert.system'' = ''info''" by code_simp
  have t: "length (truncated x 255) \<le> 255" for x by (simp add: truncated_def)
  have l: "List.last (split_on (CHR ''.'') ''alert.system'') = ''system''" by simp
  show s: "al_severity (alert_of R sha (demo_event e s)) = or_str s ''info''"
    by (simp add: alert_of_def translate_def demo_event_def payload_str_def json_get_def py_str_def v Let_def)
  show "al_event_id (alert_of R sha (demo_event e s)) = e" if "e \<noteq> []" "length e \<le> 64"
    using that by (simp add: alert_of_def translate_def demo_event_def digest_event_id_def payload_str_def json_get_def py_str_def truncated_def Let_def)
  show "alert_fits (alert_of R sha (demo_event e s)) \<longleftrightarrow> or_str s ''info'' \<in> {''info'', ''warning'', ''critical''}" if "e \<noteq> []" "length e \<le> 64" "CHR 0x00 \<notin> set e \<union> set s"
    using that unfolding alert_fits_def s alert_texts_def
    by (simp add: alert_of_def translate_def demo_event_def digest_event_id_def payload_str_def json_get_def py_str_def truthy_get_def opt_len_def or_str_def t Let_def
          alert_title_def map_filter_def)
      (simp add: truncated_def)
qed

definition demo_repr :: "json \<Rightarrow> string" where
  "demo_repr j = ''json''"

definition demo_sha :: "string \<Rightarrow> string" where
  "demo_sha s = s"

definition demo_batch :: "alert_entry list" where
  "demo_batch = [(''1'', Some (demo_event ''a'' ''info''), 1), (''2'', None, 2), (''3'', Some (demo_event ''a'' ''info''), 3)]"

theorem alerts_persist_once_witness:
  "\<exists>res rows'. alert_poll_once demo_repr demo_sha demo_batch [] = (res, [''1'', ''2'', ''3''], rows') \<and> al_event_id ` set rows' = {''a''}"
proof -
  have st: "\<forall>e\<in>set demo_batch. storable demo_repr demo_sha e" by (simp add: demo_batch_def storable_def demo_alert or_str_def)
  have ids: "al_event_id ` set ([] :: alert_row list) \<union> ids_of demo_repr demo_sha demo_batch = {''a''}" by (simp add: demo_batch_def demo_alert)
  have acks: "map fst demo_batch = [''1'', ''2'', ''3'']" by (simp add: demo_batch_def)
  have "distinct (map al_event_id ([] :: alert_row list))" by simp
  from alerts_persist_once [OF st this, unfolded ids acks] obtain res rows' where
    "alert_poll_once demo_repr demo_sha demo_batch [] = (res, [''1'', ''2'', ''3''], rows')" "al_event_id ` set rows' = {''a''}" by (elim exE conjE)
  then show ?thesis by (intro exI conjI)
qed

theorem alert_batch_lost_witness:
  "\<exists>res. alert_poll_once demo_repr demo_sha [(''1'', Some (demo_event ''a'' ''info''), 1), (''2'', Some (demo_event ''b'' ''high''), 2)] []
     = (res, [''1'', ''2''], [])"
proof -
  have "\<not> alert_fits (alert_of demo_repr demo_sha (demo_event ''b'' ''high''))" by (simp add: demo_alert or_str_def)
  from alert_batch_lost [OF _ this, of "''2''" 2 "[(''1'', Some (demo_event ''a'' ''info''), 1), (''2'', Some (demo_event ''b'' ''high''), 2)]"]
  show ?thesis by simp
qed

end
