(* ===== verification/Indicators.thy ===== *)
theory Indicators
  imports Backtest
begin

text \<open>
  The indicator library (\<^verbatim>\<open>agents/indicators.py\<close>). A pandas series is the list of its values, \<open>None\<close>
  being NaN; the element-wise operations, shifts, rolling extrema and Wilder's smoothing are written
  out, the rolling and exponential means and the rolling deviation of pandas, whose order of
  additions is its own, are fields of a parameter. Dividing by zero gives NaN here: where pandas
  would give an infinity the numerator is not zero, and that is outside the floats of the model.
\<close>

type_synonym series = "f64 option list"

record pandas =
  pa_roll_mean :: "nat \<Rightarrow> series \<Rightarrow> series"
  pa_roll_std :: "nat \<Rightarrow> series \<Rightarrow> series"
  pa_ewm_mean :: "f64 \<Rightarrow> nat \<Rightarrow> series \<Rightarrow> series"
  pa_mean :: "series \<Rightarrow> f64 option"

section \<open>Series operations\<close>

definition lift2 :: "(f64 \<Rightarrow> f64 \<Rightarrow> f64 option) \<Rightarrow> series \<Rightarrow> series \<Rightarrow> series" where
  "lift2 f xs ys = map2 (\<lambda>a b. Option.bind a (\<lambda>x. Option.bind b (f x))) xs ys"

definition s_add :: "series \<Rightarrow> series \<Rightarrow> series" where "s_add = lift2 (\<lambda>x y. Some (x + y))"
definition s_sub :: "series \<Rightarrow> series \<Rightarrow> series" where "s_sub = lift2 (\<lambda>x y. Some (x - y))"
definition s_div :: "series \<Rightarrow> series \<Rightarrow> series" where "s_div = lift2 (\<lambda>x y. if y = 0 then None else Some (x / y))"

definition s_map :: "(f64 \<Rightarrow> f64) \<Rightarrow> series \<Rightarrow> series" where "s_map f xs = map (map_option f) xs"

definition shift1 :: "series \<Rightarrow> series" where
  "shift1 xs = (if xs = [] then [] else None # butlast xs)"

definition s_diff :: "series \<Rightarrow> series" where "s_diff xs = s_sub xs (shift1 xs)"

definition s_clip0 :: "series \<Rightarrow> series" where "s_clip0 xs = s_map (max 0) xs"

text \<open>\<^verbatim>\<open>replace(0.0, nan)\<close>\<close>

definition no_zero :: "series \<Rightarrow> series" where
  "no_zero xs = map (\<lambda>a. if a = Some 0 then None else a) xs"

text \<open>\<^verbatim>\<open>rolling(n, min_periods=n).max()\<close> and \<^verbatim>\<open>.min()\<close>.\<close>

definition rolling :: "(f64 list \<Rightarrow> f64) \<Rightarrow> nat \<Rightarrow> series \<Rightarrow> series" where
  "rolling f n xs = map (\<lambda>i. if i + 1 < n then None
     else map_option f (those (drop (i + 1 - n) (take (i + 1) xs)))) [0..<length xs]"

definition roll_max :: "nat \<Rightarrow> series \<Rightarrow> series" where
  "roll_max = rolling (\<lambda>w. foldl max (hd w) w)"

definition roll_min :: "nat \<Rightarrow> series \<Rightarrow> series" where
  "roll_min = rolling (\<lambda>w. foldl min (hd w) w)"

definition last_valid :: "series \<Rightarrow> f64 option" where
  "last_valid xs = (case filter (\<lambda>a. a \<noteq> None) xs of [] \<Rightarrow> None | ys \<Rightarrow> List.last ys)"

section \<open>Indicators\<close>

definition sma :: "pandas \<Rightarrow> series \<Rightarrow> nat \<Rightarrow> series" where
  "sma P xs n = pa_roll_mean P n xs"

definition ema :: "pandas \<Rightarrow> series \<Rightarrow> nat \<Rightarrow> series" where
  "ema P xs n = pa_ewm_mean P (fl 2 / fl (of_nat (n + 1))) n xs"

fun wilder_loop :: "f64 \<Rightarrow> f64 option \<Rightarrow> series \<Rightarrow> series" where
  "wilder_loop alpha prev [] = [prev]"
| "wilder_loop alpha prev (x # xs) =
     prev # wilder_loop alpha (Option.bind x (\<lambda>v. map_option (\<lambda>p. alpha * v + (1 - alpha) * p) prev)) xs"

definition wilder_smooth :: "pandas \<Rightarrow> series \<Rightarrow> nat \<Rightarrow> series" where
  "wilder_smooth P xs n =
     (if length xs < n then map (\<lambda>_. None) xs
      else replicate (n - 1) None @ wilder_loop (1 / fl (of_nat n)) (pa_mean P (take n xs)) (drop n xs))"

definition rsi_value :: "f64 option \<Rightarrow> f64 option \<Rightarrow> f64 option" where
  "rsi_value ag al =
     (case (ag, al) of (Some g, Some l) \<Rightarrow>
          if l = 0 then (if 0 < g then Some (fl 100) else None) else Some (fl 100 - fl 100 / (1 + g / l))
      | _ \<Rightarrow> None)"

definition rsi :: "pandas \<Rightarrow> series \<Rightarrow> nat \<Rightarrow> series" where
  "rsi P close n =
     (let delta = s_diff close; gain = s_clip0 delta; loss = s_clip0 (s_map uminus delta)
      in map2 rsi_value (wilder_smooth P gain n) (wilder_smooth P loss n))"

definition macd :: "pandas \<Rightarrow> series \<Rightarrow> series \<times> series \<times> series" where
  "macd P close =
     (let line = s_sub (ema P close 12) (ema P close 26); signal = pa_ewm_mean P (fl 2 / fl 10) 0 line
      in (line, signal, s_sub line signal))"

definition bollinger :: "pandas \<Rightarrow> series \<Rightarrow> nat \<Rightarrow> f64 \<Rightarrow> series \<times> series \<times> series" where
  "bollinger P close n k =
     (let mid = sma P close n; std = pa_roll_std P n close
      in (mid, s_add mid (s_map (\<lambda>x. k * x) std), s_sub mid (s_map (\<lambda>x. k * x) std)))"

text \<open>The columns of a frame; frames have no missing values.\<close>

definition col :: "(frame_row \<Rightarrow> f64) \<Rightarrow> frame_row list \<Rightarrow> series" where
  "col f rows = map (\<lambda>r. Some (f r)) rows"

fun true_range_from :: "f64 \<Rightarrow> frame_row list \<Rightarrow> f64 list" where
  "true_range_from prev_close [] = []"
| "true_range_from prev_close (r # rs) =
     max (max \<bar>fw_high r - fw_low r\<bar> \<bar>fw_high r - prev_close\<bar>) \<bar>fw_low r - prev_close\<bar> # true_range_from (fw_close r) rs"

definition true_range :: "frame_row list \<Rightarrow> series" where
  "true_range rows = (case rows of [] \<Rightarrow> []
     | r # rs \<Rightarrow> Some (fw_high r - fw_low r) # map Some (true_range_from (fw_close r) rs))"

definition atr :: "pandas \<Rightarrow> frame_row list \<Rightarrow> nat \<Rightarrow> series" where
  "atr P rows n = wilder_smooth P (true_range rows) n"

definition stochastic :: "pandas \<Rightarrow> frame_row list \<Rightarrow> nat \<Rightarrow> nat \<Rightarrow> nat \<Rightarrow> series \<times> series" where
  "stochastic P rows k_length k_smooth d_smooth =
     (let lowest = roll_min k_length (col fw_low rows); highest = roll_max k_length (col fw_high rows);
          denom = no_zero (s_sub highest lowest);
          raw_k = s_div (s_map (\<lambda>x. fl 100 * x) (s_sub (col fw_close rows) lowest)) denom;
          slow_k = pa_roll_mean P k_smooth raw_k
      in (slow_k, pa_roll_mean P d_smooth slow_k))"

text \<open>\<^verbatim>\<open>np.where((a > b) & (a > 0), a, 0.0)\<close>\<close>

definition directional :: "series \<Rightarrow> series \<Rightarrow> series" where
  "directional as bs = map2 (\<lambda>a b. case (a, b) of (Some x, Some y) \<Rightarrow> Some (if y < x \<and> 0 < x then x else 0) | _ \<Rightarrow> Some 0) as bs"

text \<open>\<^verbatim>\<open>f(s.dropna()).reindex(s.index)\<close>\<close>

fun reindex :: "series \<Rightarrow> series \<Rightarrow> series" where
  "reindex [] vs = []"
| "reindex (None # xs) vs = None # reindex xs vs"
| "reindex (Some x # xs) vs = (case vs of [] \<Rightarrow> None # reindex xs [] | v # vs' \<Rightarrow> v # reindex xs vs')"

definition directional_movement :: "pandas \<Rightarrow> frame_row list \<Rightarrow> nat \<Rightarrow> series \<times> series \<times> series" where
  "directional_movement P rows n =
     (let up = s_diff (col fw_high rows); down = s_map uminus (s_diff (col fw_low rows));
          atr_smooth = atr P rows n;
          plus_di = s_div (s_map (\<lambda>x. fl 100 * x) (wilder_smooth P (directional up down) n)) atr_smooth;
          minus_di = s_div (s_map (\<lambda>x. fl 100 * x) (wilder_smooth P (directional down up) n)) atr_smooth;
          di_sum = no_zero (s_add plus_di minus_di);
          dx = s_div (s_map (\<lambda>x. fl 100 * \<bar>x\<bar>) (s_sub plus_di minus_di)) di_sum
      in (reindex dx (wilder_smooth P (filter (\<lambda>a. a \<noteq> None) dx) n), plus_di, minus_di))"

definition donchian :: "frame_row list \<Rightarrow> nat \<Rightarrow> series \<times> series \<times> series" where
  "donchian rows n =
     (let upper = roll_max n (col fw_high rows); lower = roll_min n (col fw_low rows)
      in (upper, s_map (\<lambda>x. x / fl 2) (s_add upper lower), lower))"

record pivot_levels =
  pv_pivot :: f64
  pv_r1 :: f64
  pv_r2 :: f64
  pv_r3 :: f64
  pv_s1 :: f64
  pv_s2 :: f64
  pv_s3 :: f64

definition floor_pivots :: "f64 \<Rightarrow> f64 \<Rightarrow> f64 \<Rightarrow> pivot_levels" where
  "floor_pivots prev_high prev_low prev_close =
     (let p = (prev_high + prev_low + prev_close) / fl 3; hl = prev_high - prev_low
      in \<lparr>pv_pivot = p, pv_r1 = fl 2 * p - prev_low, pv_r2 = p + hl, pv_r3 = prev_high + fl 2 * (p - prev_low),
          pv_s1 = fl 2 * p - prev_high, pv_s2 = p - hl, pv_s3 = prev_low - fl 2 * (prev_high - p)\<rparr>)"

end
