(* ===== verification/Lexicon.thy ===== *)
theory Lexicon
  imports Engine
begin

text \<open>
  The deterministic fallbacks the news agents rest on: the finance lexicon
  (\<^verbatim>\<open>llm/fallback/finance_lexicon.py\<close>) and the calendar proximity model
  (\<^verbatim>\<open>llm/fallback/calendar_proximity.py\<close>). The text of an impact's reason is left out.
\<close>

section \<open>Finance lexicon\<close>

definition POSITIVE :: "(string \<times> f64) list" where
  "POSITIVE = [(''beat'', fl (7/10)), (''beats'', fl (7/10)), (''surge'', fl (8/10)), (''surges'', fl (8/10)),
     (''rally'', fl (7/10)), (''rallies'', fl (7/10)), (''gain'', fl (6/10)), (''gains'', fl (6/10)), (''rose'', fl (6/10)),
     (''rise'', fl (5/10)), (''strong'', fl (5/10)), (''boost'', fl (6/10)), (''boosted'', fl (6/10)), (''growth'', fl (5/10)),
     (''above forecast'', fl (7/10)), (''above forecasts'', fl (7/10)), (''hawkish'', fl (5/10)), (''tightening'', fl (4/10)),
     (''expansion'', fl (5/10)), (''recovery'', fl (5/10)), (''upside'', fl (5/10))]"

definition NEGATIVE :: "(string \<times> f64) list" where
  "NEGATIVE = [(''miss'', fl (- (7/10))), (''misses'', fl (- (7/10))), (''plunge'', fl (- (8/10))), (''plunges'', fl (- (8/10))),
     (''drop'', fl (- (6/10))), (''falls'', fl (- (6/10))), (''fell'', fl (- (6/10))), (''weak'', fl (- (5/10))),
     (''weakness'', fl (- (55/100))), (''slump'', fl (- (75/100))), (''slumps'', fl (- (75/100))),
     (''below forecast'', fl (- (7/10))), (''below forecasts'', fl (- (7/10))), (''dovish'', fl (- (5/10))),
     (''cut'', fl (- (5/10))), (''cuts'', fl (- (5/10))), (''recession'', fl (- (8/10))), (''contraction'', fl (- (6/10))),
     (''downside'', fl (- (5/10))), (''unemployment'', fl (- (4/10))), (''inflation'', fl (- (3/10)))]"

definition INTENSIFIERS :: "(string \<times> f64) list" where
  "INTENSIFIERS = [(''sharply'', fl (3/10)), (''strongly'', fl (25/100)), (''significantly'', fl (2/10))]"

definition NEGATOR_PHRASES :: "string list" where
  "NEGATOR_PHRASES = [''does not'', ''did not'', ''won'' @ [CHR 0x27] @ ''t'', ''no significant'']"

record headline_score =
  hs_score :: f64
  hs_confidence :: f64
  hs_matched :: "string list"
  hs_label :: string

definition score_label :: "f64 \<Rightarrow> string" where
  "score_label score = (if fl (15/100) < score then ''positive'' else if score < - fl (15/100) then ''negative'' else ''neutral'')"

text \<open>The method \<^verbatim>\<open>normalize\<close>, which nothing calls.\<close>

definition normalize_score :: "headline_score \<Rightarrow> headline_score" where
  "normalize_score h = (let s = max (- (1 :: f64)) (min 1 (hs_score h)) in h\<lparr>hs_score := s, hs_label := score_label s\<rparr>)"

definition add_terms :: "string \<Rightarrow> (string \<times> f64) list \<Rightarrow> f64 \<times> string list \<Rightarrow> f64 \<times> string list" where
  "add_terms text table st = foldl (\<lambda>(score, matched) (phrase, w).
     if contains phrase text then (score + w, matched @ [phrase]) else (score, matched)) st table"

definition intensified :: "string \<Rightarrow> f64 \<Rightarrow> f64" where
  "intensified text score = foldl (\<lambda>s (word, w). if contains word text then s + (if 0 \<le> s then w else - w) else s) score INTENSIFIERS"

definition negated :: "string \<Rightarrow> f64 \<Rightarrow> f64" where
  "negated text score =
     (let s = (if list_ex (\<lambda>neg. contains neg text) NEGATOR_PHRASES then - score else score)
      in if ''not'' \<in> set (words text) \<and> s \<noteq> 0 then - s else s)"

definition finance_lexicon_score :: "string \<Rightarrow> headline_score" where
  "finance_lexicon_score headline =
     (let text = lower headline in
      if text = [] then \<lparr>hs_score = 0, hs_confidence = 0, hs_matched = [], hs_label = ''neutral''\<rparr>
      else
        let (score, matched) = add_terms text NEGATIVE (add_terms text POSITIVE (0, []));
            s = negated text (intensified text score);
            confidence = min 1 (fl (3/10) + fl (5/100) * fl (of_nat (length matched)))
        in \<lparr>hs_score = round_nd s 4, hs_confidence = round_nd confidence 4, hs_matched = sort (remdups matched),
            hs_label = score_label s\<rparr>)"

section \<open>Calendar proximity\<close>

definition td_seconds :: "timedelta \<Rightarrow> f64" where
  "td_seconds td = fl (of_int td / 1000000)"

definition WINDOW_MINUTES :: "(string \<times> int) list" where
  "WINDOW_MINUTES = [(''low'', 0), (''medium'', 45), (''high'', 90)]"

definition window_minutes :: "string \<Rightarrow> int" where
  "window_minutes importance = (case map_of WINDOW_MINUTES importance of None \<Rightarrow> 0 | Some n \<Rightarrow> n)"

record event_impact =
  ei_impact :: f64
  ei_window_minutes :: int
  ei_within_window :: bool

definition event_impact_of :: "datetime \<Rightarrow> datetime \<Rightarrow> string \<Rightarrow> int option \<Rightarrow> event_impact option" where
  "event_impact_of event_ts now importance half_window =
     (let half = (case half_window of Some h \<Rightarrow> h | None \<Rightarrow> window_minutes importance);
          delta = \<bar>td_seconds (now - event_ts)\<bar> / fl 60
      in if half \<le> 0 then None
         else if fl (of_int half) < delta then None
         else Some \<lparr>ei_impact = round_nd (max 0 (1 - delta / fl (of_int half))) 4, ei_window_minutes = half,
           ei_within_window = (delta \<le> fl (of_int half))\<rparr>)"

record proximity =
  px_impact :: f64
  px_nearest :: "datetime option"
  px_importance :: "string option"
  px_window_minutes :: int

definition nearer :: "datetime \<Rightarrow> (f64 \<times> datetime \<times> string) option \<Rightarrow> datetime \<times> string \<Rightarrow> (f64 \<times> datetime \<times> string) option" where
  "nearer now best e =
     (case e of (event_ts, importance) \<Rightarrow>
        case event_impact_of event_ts now importance None of
          None \<Rightarrow> best
        | Some i \<Rightarrow>
            (case best of
               None \<Rightarrow> Some (ei_impact i, event_ts, importance)
             | Some (b, bts, bimp) \<Rightarrow>
                 if b < ei_impact i \<or> ei_impact i = b \<and> \<bar>td_seconds (now - event_ts)\<bar> < \<bar>td_seconds (now - bts)\<bar>
                 then Some (ei_impact i, event_ts, importance) else best))"

definition proximity_bucket :: "(datetime \<times> string) list \<Rightarrow> datetime \<Rightarrow> proximity" where
  "proximity_bucket events now =
     (case foldl (nearer now) None events of
        None \<Rightarrow> \<lparr>px_impact = 0, px_nearest = None, px_importance = None, px_window_minutes = 0\<rparr>
      | Some (b, ts, importance) \<Rightarrow> \<lparr>px_impact = b, px_nearest = Some ts, px_importance = Some importance,
          px_window_minutes = window_minutes importance * 2\<rparr>)"

definition event_window :: "string \<Rightarrow> datetime \<Rightarrow> datetime \<Rightarrow> timedelta option" where
  "event_window importance now event_ts =
     map_option (\<lambda>i. seconds_td (60 * ei_window_minutes i)) (event_impact_of event_ts now importance None)"

section \<open>What the negation does\<close>

text \<open>The score before the negation is looked at.\<close>

definition plain_score :: "string \<Rightarrow> f64" where
  "plain_score text = intensified text (fst (add_terms text NEGATIVE (add_terms text POSITIVE (0, []))))"

lemma score_unfold:
  "text = lower headline \<Longrightarrow> text \<noteq> [] \<Longrightarrow> hs_score (finance_lexicon_score headline) = round_nd (negated text (plain_score text)) 4"
  by (simp add: finance_lexicon_score_def plain_score_def split_beta Let_def)

lemma lower_append [simp]: "lower (a @ b) = lower a @ lower b"
  by (simp add: lower_def)

lemma split_ws_space: "py_space c \<Longrightarrow> split_ws w (a @ c # b) = split_ws w a @ split_ws [] b"
  by (induction a arbitrary: w) simp_all

lemma words_middle:
  assumes "w \<noteq> []" "\<forall>c\<in>set w. \<not> py_space c" "py_space x" "py_space y"
  shows "w \<in> set (words (a @ x # w @ y # b))"
proof -
  have "split_ws v (u @ y # b) = (v @ u) # split_ws [] b" if "\<forall>c\<in>set u. \<not> py_space c" "v @ u \<noteq> []" for u v
    using that assms(4) by (induction u arbitrary: v) auto
  from this [of w "[]"] assms show ?thesis by (simp add: words_def split_ws_space)
qed

lemma contains_middle: "contains w (a @ w @ b)"
  unfolding contains_def list_ex_iff by (rule bexI [of _ "length a"]) auto

text \<open>
  How the lexicon negates, exactly: the sign flips when either a negating phrase or the word
  \<^verbatim>\<open>not\<close> occurs, and stays when both do. The phrases \<^verbatim>\<open>does not\<close> and \<^verbatim>\<open>did not\<close> contain that word,
  so a headline with such a phrase is never negated: the two checks cancel each other.
\<close>

theorem negation_exact:
  "hs_score (finance_lexicon_score h) = round_nd
      (if list_ex (\<lambda>neg. contains neg (lower h)) NEGATOR_PHRASES = (''not'' \<in> set (words (lower h)))
       then plain_score (lower h) else - plain_score (lower h)) 4
   \<and> hs_score (finance_lexicon_score (a @ '' did not '' @ b)) = round_nd (plain_score (lower (a @ '' did not '' @ b))) 4
   \<and> hs_score (finance_lexicon_score (a @ '' does not '' @ b)) = round_nd (plain_score (lower (a @ '' does not '' @ b))) 4"
proof -
  have g: "hs_score (finance_lexicon_score h) = round_nd
      (if list_ex (\<lambda>neg. contains neg (lower h)) NEGATOR_PHRASES = (''not'' \<in> set (words (lower h)))
       then plain_score (lower h) else - plain_score (lower h)) 4" for h
  proof (cases "lower h = []")
    case True
    have "plain_score [] = 0" by code_simp
    with True show ?thesis by (simp add: finance_lexicon_score_def)
  next
    case False
    show ?thesis unfolding score_unfold [OF refl False] negated_def Let_def by auto
  qed
  have c: "lower '' did not '' = '' did not ''" "lower '' does not '' = '' does not ''" by code_simp+
  have l: "lower (a @ '' did not '' @ b) = lower a @ '' did not '' @ lower b" "lower (a @ '' does not '' @ b) = lower a @ '' does not '' @ lower b"
    by (simp_all only: lower_append c)
  have w: "''not'' \<in> set (words (x @ CHR '' '' # ''not'' @ CHR '' '' # y))" for x y
    by (rule words_middle) (simp_all add: py_space_def)
  have d: "''not'' \<in> set (words (lower (a @ '' did not '' @ b)))" "''not'' \<in> set (words (lower (a @ '' does not '' @ b)))"
    using w [of "lower a @ '' did''" "lower b"] w [of "lower a @ '' does''" "lower b"] unfolding l by simp_all
  have p: "list_ex (\<lambda>neg. contains neg (lower (a @ '' did not '' @ b))) NEGATOR_PHRASES"
    "list_ex (\<lambda>neg. contains neg (lower (a @ '' does not '' @ b))) NEGATOR_PHRASES"
    using contains_middle [of "''did not''" "lower a @ '' ''" "'' '' @ lower b"] contains_middle [of "''does not''" "lower a @ '' ''" "'' '' @ lower b"]
    unfolding l by (simp_all add: NEGATOR_PHRASES_def)
  show ?thesis
    using g [of h] g [of "a @ '' did not '' @ b"] g [of "a @ '' does not '' @ b"] unfolding eqTrueI [OF d(1)] eqTrueI [OF d(2)] eqTrueI [OF p(1)] eqTrueI [OF p(2)]
    by (simp only: simp_thms if_True)
qed

section \<open>The nearest event\<close>

lemma event_impact_bounds:
  assumes "event_impact_of ts now importance half = Some i"
  shows "0 \<le> ei_impact i" "ei_impact i \<le> 1" "ei_within_window i"
proof -
  from assms have h: "0 < ei_window_minutes i" and i: "ei_impact i = round_nd (max 0 (1 - \<bar>td_seconds (now - ts)\<bar> / fl 60 / fl (of_int (ei_window_minutes i)))) 4"
    and w: "ei_within_window i"
    by (auto simp: event_impact_of_def Let_def not_less split: if_splits)
  show "ei_within_window i" by (rule w)
  show "0 \<le> ei_impact i" unfolding i by (rule round_nd_nonneg) simp
  have "0 \<le> fl 60" "0 \<le> fl (of_int (ei_window_minutes i))" using fl_mono [of 0 60] fl_mono [of 0 "of_int (ei_window_minutes i)"] h by simp_all
  then have "0 \<le> \<bar>td_seconds (now - ts)\<bar> / fl 60 / fl (of_int (ei_window_minutes i))" by (intro f64_div_nonneg) simp_all
  then have "1 - \<bar>td_seconds (now - ts)\<bar> / fl 60 / fl (of_int (ei_window_minutes i)) \<le> 1" by (rule f64_diff_le)
  then show "ei_impact i \<le> 1" unfolding i by (intro round_nd_le_1) simp
qed

end
