(* ===== verification/NewsAgents.thy ===== *)
theory NewsAgents
  imports Lexicon Fusion
begin

text \<open>
  The agents that read content instead of candles: \<^verbatim>\<open>agents/fundamental.py\<close> and
  \<^verbatim>\<open>agents/sentiment.py\<close>. The items are those the agent worker loads (\<^verbatim>\<open>workers/agent_worker.py\<close>,
  \<^verbatim>\<open>_load_content\<close>). \<open>num\<close> is \<^verbatim>\<open>float\<close> on a text (\<open>None\<close> where it raises) and \<open>exf\<close> is \<^verbatim>\<open>math.exp\<close>.
\<close>

section \<open>Formatting numbers\<close>

text \<open>\<^verbatim>\<open>format(x, ".nf")\<close> and \<^verbatim>\<open>format(x, "+.nf")\<close>: the exact value of the double, rounded to even.\<close>

definition fixed_digits :: "nat \<Rightarrow> f64 \<Rightarrow> string" where
  "fixed_digits n x = (let k = rne \<bar>val x * 10 ^ n\<bar> in
     show_int (k div 10 ^ n) @ (if n = 0 then [] else ''.'' @ pad n (k mod 10 ^ n)))"

definition format_fixed :: "nat \<Rightarrow> f64 \<Rightarrow> string" where
  "format_fixed n x = (if x < 0 then ''-'' else []) @ fixed_digits n x"

definition format_signed :: "nat \<Rightarrow> f64 \<Rightarrow> string" where
  "format_signed n x = (if x < 0 then ''-'' else ''+'') @ fixed_digits n x"

section \<open>Fundamental agent\<close>

text \<open>An event of \<^verbatim>\<open>ctx.meta["events"]\<close>; the time is \<open>None\<close> where the key is missing or its text is not a date.\<close>

record calendar_event =
  ce_timestamp :: "datetime option"
  ce_importance :: string
  ce_currency :: string
  ce_actual :: "string option"
  ce_forecast :: "string option"
  ce_title :: string

definition IMPACT_WINDOW_MIN :: int where
  "IMPACT_WINDOW_MIN = 90"

definition IMPORTANCE_IMPACT :: "(string \<times> f64) list" where
  "IMPORTANCE_IMPACT = [(''low'', fl (2/10)), (''medium'', fl (5/10)), (''high'', fl (8/10))]"

definition currencies_of :: "string \<Rightarrow> string \<times> string" where
  "currencies_of symbol = (upper (take 3 symbol), upper (drop 3 symbol))"

definition replace_char :: "char \<Rightarrow> char \<Rightarrow> string \<Rightarrow> string" where
  "replace_char a b s = map (\<lambda>c. if c = a then b else c) s"

definition parse_number :: "(string \<Rightarrow> f64 option) \<Rightarrow> string option \<Rightarrow> f64 option" where
  "parse_number num raw =
     (case raw of None \<Rightarrow> None
      | Some s \<Rightarrow> (case words (strip (replace_char CHR ''%'' CHR '' '' (replace_char CHR '','' CHR ''.'' s))) of
            [] \<Rightarrow> None | w # _ \<Rightarrow> num w))"

definition surprise_direction :: "f64 option \<Rightarrow> f64 option \<Rightarrow> int" where
  "surprise_direction actual forecast =
     (case (actual, forecast) of (Some a, Some f) \<Rightarrow> if f < a then 1 else if a < f then - 1 else 0 | _ \<Rightarrow> 0)"

definition max_impact :: "calendar_event list \<Rightarrow> datetime \<Rightarrow> f64" where
  "max_impact events now = round_nd (foldl (\<lambda>peak e.
     case ce_timestamp e of None \<Rightarrow> peak
     | Some ts \<Rightarrow> (case event_impact_of ts now (ce_importance e) (Some IMPACT_WINDOW_MIN) of
           None \<Rightarrow> peak | Some i \<Rightarrow> max peak (ei_impact i))) 0 events) 4"

definition importance_weight :: "string \<Rightarrow> f64" where
  "importance_weight importance = (case map_of IMPORTANCE_IMPACT importance of None \<Rightarrow> fl (5/10) | Some w \<Rightarrow> w)"

definition currency_bias :: "(string \<Rightarrow> f64 option) \<Rightarrow> calendar_event list \<Rightarrow> string \<Rightarrow> f64" where
  "currency_bias num events currency =
     (let (total, weight_sum) = foldl (\<lambda>(total, ws) e.
            if upper (ce_currency e) \<noteq> currency then (total, ws)
            else let sign = surprise_direction (parse_number num (ce_actual e)) (parse_number num (ce_forecast e));
                     w = importance_weight (ce_importance e)
                 in if sign = 0 then (total, ws) else (total + fl (of_int sign) * w, ws + w)) (0, 0) events
      in if weight_sum = 0 then 0 else max (- 1) (min 1 (total / weight_sum)))"

definition fundamental_decide :: "f64 \<Rightarrow> f64 \<Rightarrow> nat \<Rightarrow> direction \<times> f64" where
  "fundamental_decide impact differential event_count =
     (if event_count = 0 then (FLAT, 0)
      else if fl (85/100) \<le> impact then (FLAT, fl (1/10))
      else if \<bar>differential\<bar> < fl (25/100) then (FLAT, 0)
      else
        let dir = (if 0 < differential then LONG else SHORT); influence = \<bar>differential\<bar>;
            confidence = fl (2/10) + fl (5/10) * influence + fl (1/10) * min 1 (fl (of_nat event_count / 6));
            damped = (if fl (5/10) \<le> impact then confidence * fl (8/10) else confidence)
        in (dir, round_nd (min 1 damped) 4))"

definition joined :: "string \<Rightarrow> string list \<Rightarrow> string" where
  "joined sep parts = (case parts of [] \<Rightarrow> [] | p # ps \<Rightarrow> p @ concat (map (\<lambda>q. sep @ q) ps))"

definition fundamental_rationale :: "string \<Rightarrow> string \<Rightarrow> f64 \<Rightarrow> f64 \<Rightarrow> f64 \<Rightarrow> f64 \<Rightarrow> string" where
  "fundamental_rationale base quote impact base_bias quote_bias differential =
     (let parts = (if fl (5/10) \<le> impact then [''high-impact event window active (impact='' @ format_fixed 2 impact @ '')''] else [])
          @ (if base_bias \<noteq> 0 \<or> quote_bias \<noteq> 0
             then [''surprise bias '' @ base @ ''='' @ format_signed 2 base_bias @ '' vs '' @ quote @ ''='' @ format_signed 2 quote_bias
                 @ '' (differential='' @ format_signed 2 differential @ '')''] else [])
      in if parts = [] then ''no fundamental events within window; neutral'' else joined ''; '' (take 3 parts))"

definition fundamental_analyze :: "(string \<Rightarrow> f64 option) \<Rightarrow> analysis_context \<Rightarrow> calendar_event list \<Rightarrow> py_error + agent_signal" where
  "fundamental_analyze num ctx events =
     (let (base, quote) = currencies_of (ctx_symbol ctx);
          impact = max_impact events (ctx_now ctx);
          base_bias = currency_bias num events base;
          quote_bias = currency_bias num events quote;
          differential = base_bias - quote_bias;
          (dir, confidence) = fundamental_decide impact differential (length events)
      in build_signal ''fundamental'' ''1'' ctx dir confidence
           (fundamental_rationale base quote impact base_bias quote_bias differential)
           [(''impact'', JFloat impact), (''base_bias'', JFloat (round_nd base_bias 4)),
            (''quote_bias'', JFloat (round_nd quote_bias 4)), (''differential'', JFloat (round_nd differential 4)),
            (''event_count'', JInt (int (length events))), (''currency_base'', JStr base), (''currency_quote'', JStr quote)])"

section \<open>Sentiment agent\<close>

text \<open>An item of \<^verbatim>\<open>ctx.meta["news"]\<close>; the time is \<open>None\<close> where it is missing or its text is not a date.\<close>

record news_meta =
  nm_headline :: string
  nm_published :: "datetime option"
  nm_symbols :: "string list"
  nm_provider :: string

definition DECAY_HALF_LIFE_HOURS :: f64 where
  "DECAY_HALF_LIFE_HOURS = fl 6"

text \<open>\<^verbatim>\<open>math.log(2)\<close>\<close>

definition LOG2 :: f64 where
  "LOG2 = fl (6931471805599453 / 10 ^ 16)"

definition decay_weight :: "(f64 \<Rightarrow> f64) \<Rightarrow> datetime \<Rightarrow> datetime \<Rightarrow> f64 \<Rightarrow> f64" where
  "decay_weight exf published_utc now half_life_hours =
     (let age_hours = max 0 (td_seconds (now - published_utc) / fl 3600)
      in if half_life_hours \<le> 0 then 1 else exf (- LOG2 * age_hours / half_life_hours))"

record scored_item =
  si_score :: f64
  si_weight :: f64
  si_currency :: "string list"
  si_headline :: string

definition score_items :: "(f64 \<Rightarrow> f64) \<Rightarrow> news_meta list \<Rightarrow> datetime \<Rightarrow> scored_item list" where
  "score_items exf news now = map (\<lambda>item.
     \<lparr>si_score = hs_score (finance_lexicon_score (nm_headline item)),
      si_weight = round_nd (case nm_published item of Some p \<Rightarrow> decay_weight exf p now DECAY_HALF_LIFE_HOURS | None \<Rightarrow> 1) 4,
      si_currency = take 1 (nm_symbols item), si_headline = nm_headline item\<rparr>) news"

definition has_currency :: "string list \<Rightarrow> string \<Rightarrow> bool" where
  "has_currency symbols currency =
     list_ex (\<lambda>s. length s = 6 \<and> (currency = take 3 s \<or> currency = drop 3 s)) symbols"

definition currency_aggregate :: "scored_item list \<Rightarrow> string \<Rightarrow> f64" where
  "currency_aggregate scored currency =
     (let (total, weight_sum) = foldl (\<lambda>(total, ws) item.
            if has_currency (si_currency item) currency then (total + si_score item * si_weight item, ws + si_weight item)
            else (total, ws)) (0, 0) scored
      in if weight_sum = 0 then 0 else max (- 1) (min 1 (total / weight_sum)))"

definition sentiment_decide :: "f64 \<Rightarrow> f64 \<Rightarrow> direction \<times> f64" where
  "sentiment_decide differential weighted_count =
     (if \<not> fl (12/100) < differential \<and> \<not> differential < - fl (12/100) then (FLAT, 0)
      else
        let dir = (if fl (12/100) < differential then LONG else SHORT); magnitude = min 1 \<bar>differential\<bar>;
            confidence = min (fl (8/10)) (fl (15/100) + fl (5/10) * magnitude + fl (5/100) * weighted_count)
        in (dir, round_nd (min 1 confidence) 4))"

definition sentiment_rationale :: "f64 \<Rightarrow> f64 \<Rightarrow> f64 \<Rightarrow> nat \<Rightarrow> datetime \<Rightarrow> string" where
  "sentiment_rationale differential base quote n now =
     (if n = 0 then ''no news items within window; neutral sentiment''
      else ''sentiment differential='' @ format_signed 3 differential @ '' (base='' @ format_signed 3 base @ '' vs quote=''
        @ format_signed 3 quote @ '') from '' @ show_int (int n) @ '' scored headline(s) decayed to '' @ isoformat now)"

definition sentiment_analyze :: "(f64 \<Rightarrow> f64) \<Rightarrow> analysis_context \<Rightarrow> news_meta list \<Rightarrow> py_error + agent_signal" where
  "sentiment_analyze exf ctx news =
     (let (base, quote) = currencies_of (ctx_symbol ctx);
          per_item = score_items exf news (ctx_now ctx);
          base_agg = currency_aggregate per_item base;
          quote_agg = currency_aggregate per_item quote;
          differential = base_agg - quote_agg;
          weighted_count = py_sum (map (\<lambda>i. max 0 (si_weight i)) per_item);
          (dir, confidence) = sentiment_decide differential weighted_count
      in build_signal ''sentiment'' ''1'' ctx dir confidence
           (sentiment_rationale differential base_agg quote_agg (length per_item) (ctx_now ctx))
           [(''differential'', JFloat (round_nd differential 4)), (''base_agg'', JFloat (round_nd base_agg 4)),
            (''quote_agg'', JFloat (round_nd quote_agg 4)), (''item_count'', JInt (int (length per_item))),
            (''weighted_count'', JFloat (round_nd weighted_count 4))])"

section \<open>Both agents are antisymmetric in the pair\<close>

definition inverse_pair :: "string \<Rightarrow> string" where
  "inverse_pair symbol = drop 3 symbol @ take 3 symbol"

lemma currencies_inverse: "length symbol = 6 \<Longrightarrow> currencies_of (inverse_pair symbol) = (snd (currencies_of symbol), fst (currencies_of symbol))"
  by (simp add: currencies_of_def inverse_pair_def)

lemma fundamental_decide_mirror:
  "fundamental_decide impact (- d) n = (flip_direction (fst (fundamental_decide impact d n)), snd (fundamental_decide impact d n))"
proof (cases "\<bar>d\<bar> < fl (25/100)")
  case True
  then show ?thesis by (simp add: fundamental_decide_def)
next
  case False
  have "(0 :: f64) < fl (25/100)" by code_simp
  with False have "d \<noteq> 0" by auto
  then have "0 < - d \<longleftrightarrow> \<not> 0 < d" by (auto simp: f64_neg_iff)
  with False show ?thesis by (simp add: fundamental_decide_def Let_def)
qed

lemma sentiment_decide_mirror:
  "sentiment_decide (- d) w = (flip_direction (fst (sentiment_decide d w)), snd (sentiment_decide d w))"
proof -
  have t: "(0 :: f64) < fl (12/100)" by code_simp
  have "fl (12/100) < - d \<longleftrightarrow> d < - fl (12/100)" "- d < - fl (12/100) \<longleftrightarrow> fl (12/100) < d" by (simp_all add: f64_rep) linarith
  moreover have "\<not> (fl (12/100) < d \<and> d < - fl (12/100))" using t by (auto simp: f64_rep)
  ultimately show ?thesis by (auto simp: sentiment_decide_def Let_def)
qed

text \<open>What is the same in two signals: all but the side, the confidence being equal.\<close>

definition mirrored :: "py_error + agent_signal \<Rightarrow> py_error + agent_signal \<Rightarrow> bool" where
  "mirrored r r' = (case (r, r') of (Inr s, Inr s') \<Rightarrow> sg_direction s' = flip_direction (sg_direction s) \<and> sg_confidence s' = sg_confidence s
       \<and> sg_bucket_ts s' = sg_bucket_ts s \<and> sg_valid_until s' = sg_valid_until s
     | (Inl e, Inl e') \<Rightarrow> e = e' | _ \<Rightarrow> False)"

lemma mirrored_build:
  "length sym' = length (ctx_symbol ctx) \<Longrightarrow> mirrored (build_signal a v ctx d c r f) (build_signal a v (ctx\<lparr>ctx_symbol := sym'\<rparr>) (flip_direction d) c r' f')"
  by (simp add: mirrored_def build_signal_def validate_signal_def)

text \<open>
  C29. Neither news agent has a side: for the inverse pair (\<^verbatim>\<open>USDEUR\<close> instead of \<^verbatim>\<open>EURUSD\<close>) and the same items
  the fundamental and the sentiment agent emit the opposite direction with the same confidence, bit
  for bit, and raise exactly when they raise for the pair.
\<close>

theorem news_agents_mirror:
  assumes "length (ctx_symbol ctx) = 6"
  shows "mirrored (fundamental_analyze num ctx events) (fundamental_analyze num (ctx\<lparr>ctx_symbol := inverse_pair (ctx_symbol ctx)\<rparr>) events)
    \<and> mirrored (sentiment_analyze exf ctx news) (sentiment_analyze exf (ctx\<lparr>ctx_symbol := inverse_pair (ctx_symbol ctx)\<rparr>) news)"
proof
  let ?inv = "inverse_pair (ctx_symbol ctx)"
  have l: "length ?inv = length (ctx_symbol ctx)" by (simp add: inverse_pair_def)
  note c = currencies_inverse [OF assms]
  let ?b = "fst (currencies_of (ctx_symbol ctx))" and ?q = "snd (currencies_of (ctx_symbol ctx))"
  have "currency_bias num events ?q - currency_bias num events ?b = - (currency_bias num events ?b - currency_bias num events ?q)"
    by (simp only: f64_minus_diff)
  then show "mirrored (fundamental_analyze num ctx events) (fundamental_analyze num (ctx\<lparr>ctx_symbol := ?inv\<rparr>) events)"
    unfolding fundamental_analyze_def Let_def split_beta
    by (simp add: c fundamental_decide_mirror mirrored_build [OF l])
  let ?agg = "currency_aggregate (score_items exf news (ctx_now ctx))"
  have "?agg ?q - ?agg ?b = - (?agg ?b - ?agg ?q)" by (simp only: f64_minus_diff)
  then show "mirrored (sentiment_analyze exf ctx news) (sentiment_analyze exf (ctx\<lparr>ctx_symbol := ?inv\<rparr>) news)"
    unfolding sentiment_analyze_def Let_def split_beta
    by (simp add: c sentiment_decide_mirror mirrored_build [OF l])
qed

section \<open>News about the pair itself\<close>

lemma aggregate_same:
  assumes "\<forall>i\<in>set items. has_currency (si_currency i) a = has_currency (si_currency i) b"
  shows "currency_aggregate items a = currency_aggregate items b"
proof -
  let ?f = "\<lambda>cur (total, ws) item. if has_currency (si_currency item) cur then (total + si_score item * si_weight item, ws + si_weight item) else (total, ws)"
  have "foldl (?f a) s items = foldl (?f b) s items" for s using assms by (induction items arbitrary: s) auto
  then show ?thesis by (simp add: currency_aggregate_def)
qed

text \<open>
  News about the pair itself never counts: an item listed for \<^verbatim>\<open>EURUSD\<close> touches both currencies with the
  same score, and only the first listed pair is looked at. As long as the first pair of every item is the
  analysed pair or its inverse (or a name that is no pair), the agent says FLAT with confidence 0, however
  strong the headlines are.
\<close>

theorem pair_news_is_neutral:
  assumes "length (ctx_symbol ctx) = 6" "upper (ctx_symbol ctx) = ctx_symbol ctx"
    "\<forall>n\<in>set news. \<forall>s\<in>set (take 1 (nm_symbols n)). s = ctx_symbol ctx \<or> s = inverse_pair (ctx_symbol ctx) \<or> length s \<noteq> 6"
  shows "\<exists>s. sentiment_analyze exf ctx news = Inr s \<and> sg_direction s = FLAT \<and> sg_confidence s = 0"
proof -
  let ?s = "ctx_symbol ctx"
  have up: "upper (take n ?s) = take n ?s" "upper (drop n ?s) = drop n ?s" for n
    using assms(2) unfolding upper_def by (metis take_map, metis drop_map)
  have c: "currencies_of ?s = (take 3 ?s, drop 3 ?s)" by (simp add: currencies_of_def up)
  have t: "has_currency (take 1 (nm_symbols n)) (take 3 ?s) = has_currency (take 1 (nm_symbols n)) (drop 3 ?s)" if "n \<in> set news" for n
  proof -
    have eq: "(length s = 6 \<and> (take 3 ?s = take 3 s \<or> take 3 ?s = drop 3 s)) = (length s = 6 \<and> (drop 3 ?s = take 3 s \<or> drop 3 ?s = drop 3 s))"
      if "s \<in> set (take 1 (nm_symbols n))" for s
    proof -
      have "s = ?s \<or> s = inverse_pair ?s \<or> length s \<noteq> 6" using assms(3) \<open>n \<in> set news\<close> that by blast
      then show ?thesis using assms(1) by (elim disjE) (simp_all add: inverse_pair_def)
    qed
    show ?thesis unfolding has_currency_def list_ex_iff by (rule bex_cong [OF refl eq])
  qed
  have "currency_aggregate (score_items exf news (ctx_now ctx)) (take 3 ?s) = currency_aggregate (score_items exf news (ctx_now ctx)) (drop 3 ?s)"
    by (rule aggregate_same) (use t in \<open>simp add: score_items_def\<close>)
  moreover have "sentiment_decide 0 w = (FLAT, 0)" for w
  proof -
    have "\<not> fl (12/100) < 0" "\<not> 0 < - fl (12/100)" by code_simp+
    then show ?thesis by (simp add: sentiment_decide_def)
  qed
  ultimately show ?thesis unfolding sentiment_analyze_def Let_def c split_beta fst_conv snd_conv
    by (simp add: build_signal_def validate_signal_def assms(1))
qed

section \<open>The event window\<close>

lemma max_impact_importance:
  "max_impact (map (\<lambda>e. e\<lparr>ce_importance := f e\<rparr>) events) now = max_impact events now"
  by (simp add: max_impact_def foldl_map event_impact_of_def cong: option.case_cong)

lemma max_impact_ge:
  assumes "e \<in> set events" "ce_timestamp e = Some ts" "event_impact_of ts now (ce_importance e) (Some IMPACT_WINDOW_MIN) = Some i"
  shows "round_nd (ei_impact i) 4 \<le> max_impact events now"
proof -
  let ?f = "\<lambda>peak e. case ce_timestamp e of None \<Rightarrow> peak
     | Some ts \<Rightarrow> (case event_impact_of ts now (ce_importance e) (Some IMPACT_WINDOW_MIN) of None \<Rightarrow> peak | Some i \<Rightarrow> max peak (ei_impact i))"
  have up: "p \<le> ?f p x" for p x by (simp split: option.split)
  have mono: "p \<le> foldl ?f p xs" for p xs
  proof (induction xs arbitrary: p)
    case (Cons x xs)
    from Cons.IH [of "?f p x"] up [of p x] show ?case by simp
  qed simp
  obtain xs ys where "events = xs @ e # ys" using assms(1) by (meson split_list)
  then have "foldl ?f 0 events = foldl ?f (max (foldl ?f 0 xs) (ei_impact i)) ys" by (simp add: assms(2,3))
  with mono [of "max (foldl ?f 0 xs) (ei_impact i)" ys] have "ei_impact i \<le> foldl ?f 0 events" by simp
  then show ?thesis unfolding max_impact_def by (rule round_nd_mono)
qed

lemma abs_rnd: "\<bar>rnd x\<bar> = rnd \<bar>x\<bar>"
proof (cases "0 \<le> x")
  case False
  then have "0 \<le> rnd (- x)" by (intro rnd_nonneg) simp
  with False show ?thesis by (simp add: rnd_minus)
qed (simp add: rnd_nonneg)

text \<open>
  Every event silences the fundamental agent around its time, whatever its importance: with an event of
  the pair's currencies at most 13 minutes away, before or after, the agent is FLAT with confidence 0.1,
  and the risk state it reports does not depend on the importance of any event. (The model it uses
  documents that an event of low importance has no impact.)
\<close>

theorem any_event_silences:
  assumes "e \<in> set events" "ce_timestamp e = Some ts" "\<bar>ctx_now ctx - ts\<bar> \<le> seconds_td (13 * 60)"
    "6 \<le> length (ctx_symbol ctx)" "length (ctx_symbol ctx) \<le> 12"
  shows "\<exists>s. fundamental_analyze num ctx (map (\<lambda>e. e\<lparr>ce_importance := f e\<rparr>) events) = Inr s \<and> sg_direction s = FLAT \<and> sg_confidence s = fl (1/10)
    \<and> map_of (sg_features s) ''impact'' = Some (JFloat (max_impact events (ctx_now ctx)))"
proof -
  let ?now = "ctx_now ctx" and ?d = "\<bar>td_seconds (ctx_now ctx - ts)\<bar> / fl 60"
  have "\<bar>td_seconds (?now - ts)\<bar> \<le> fl 780"
  proof -
    have "val \<bar>td_seconds (?now - ts)\<bar> = \<bar>rnd (of_int (?now - ts) / 1000000)\<bar>" by (simp add: f64_rep td_seconds_def fl.rep_eq)
    also have "\<dots> = rnd \<bar>of_int (?now - ts) / 1000000\<bar>" by (rule abs_rnd)
    also have "\<dots> \<le> rnd 780" using assms(3) by (intro rnd_mono) (simp add: seconds_td_def abs_le_iff field_simps)
    finally show ?thesis by (simp add: f64_rep fl.rep_eq)
  qed
  then have "?d \<le> fl 780 / fl 60" by (intro f64_div_right_mono) (code_simp)
  also have "fl 780 / fl 60 = fl 13" by code_simp
  finally have d: "?d \<le> fl 13" .
  obtain i where i: "event_impact_of ts ?now (ce_importance e) (Some IMPACT_WINDOW_MIN) = Some i" "ei_impact i = round_nd (max 0 (1 - ?d / fl 90)) 4"
  proof -
    have "fl 13 \<le> fl 90" by code_simp
    with d have "\<not> fl 90 < ?d" by order
    then show thesis using that by (simp add: event_impact_of_def IMPACT_WINDOW_MIN_def Let_def)
  qed
  have "?d / fl 90 \<le> fl 13 / fl 90" by (rule f64_div_right_mono [OF _ d]) code_simp
  then have "1 - fl 13 / fl 90 \<le> 1 - ?d / fl 90" by (rule f64_diff_mono [OF order_refl])
  also have "1 - ?d / fl 90 \<le> max 0 (1 - ?d / fl 90)" by (rule max.cobounded2)
  finally have "1 - fl 13 / fl 90 \<le> max 0 (1 - ?d / fl 90)" .
  then have "round_nd (round_nd (1 - fl 13 / fl 90) 4) 4 \<le> round_nd (ei_impact i) 4" unfolding i(2) by (intro round_nd_mono)
  moreover have "fl (85/100) \<le> round_nd (round_nd (1 - fl 13 / fl 90) 4) 4" by code_simp
  ultimately have m: "fl (85/100) \<le> max_impact events ?now" using max_impact_ge [OF assms(1,2) i(1)] by order
  have n: "events \<noteq> []" using assms(1) by auto
  have dec: "fundamental_decide (max_impact events ?now) x (length events) = (FLAT, fl (1/10))" for x
    using m n by (simp add: fundamental_decide_def)
  have c: "max 0 (min 1 (fl (1/10))) = fl (1/10)" "fl (1/10) \<le> 1" "0 \<le> fl (1/10)" by code_simp+
  have b: "\<exists>s. build_signal ''fundamental'' ''1'' ctx FLAT (fl (1/10)) r fs = Inr s \<and> sg_direction s = FLAT \<and> sg_confidence s = fl (1/10) \<and> sg_features s = fs" for r fs
    using assms(4,5) c by (simp add: build_signal_def validate_signal_def)
  let ?es = "map (\<lambda>e. e\<lparr>ce_importance := f e\<rparr>) events"
  show ?thesis
    unfolding fundamental_analyze_def Let_def split_beta max_impact_importance length_map dec fst_conv snd_conv
    using b by (metis (no_types, lifting) map_of_Cons_code(2))
qed

section \<open>Concrete items\<close>

definition demo_ctx :: analysis_context where
  "demo_ctx = \<lparr>ctx_symbol = ''EURUSD'', ctx_timeframe = H1, ctx_bucket_ts = 0, ctx_now = 0, ctx_run_id = ''''\<rparr>"

definition demo_news :: "string list \<Rightarrow> news_meta" where
  "demo_news symbols = \<lparr>nm_headline = ''Strong growth beats forecasts'', nm_published = Some 0, nm_symbols = symbols, nm_provider = ''finnhub''\<rparr>"

definition demo_calendar :: calendar_event where
  "demo_calendar = \<lparr>ce_timestamp = Some (seconds_td 600), ce_importance = ''low'', ce_currency = ''EUR'', ce_actual = Some ''2.1%'',
     ce_forecast = Some ''1.0%'', ce_title = ''CPI''\<rparr>"

theorem news_agents_mirror_witness:
  "mirrored (fundamental_analyze (\<lambda>_. Some 1) demo_ctx [demo_calendar]) (fundamental_analyze (\<lambda>_. Some 1) (demo_ctx\<lparr>ctx_symbol := ''USDEUR''\<rparr>) [demo_calendar])
    \<and> mirrored (sentiment_analyze (\<lambda>_. 1) demo_ctx [demo_news [''EURGBP'']]) (sentiment_analyze (\<lambda>_. 1) (demo_ctx\<lparr>ctx_symbol := ''USDEUR''\<rparr>) [demo_news [''EURGBP'']])"
proof -
  have "length (ctx_symbol demo_ctx) = 6" "inverse_pair (ctx_symbol demo_ctx) = ''USDEUR''" by (simp_all add: demo_ctx_def inverse_pair_def)
  then show ?thesis using news_agents_mirror [of demo_ctx "\<lambda>_. Some 1" "[demo_calendar]" "\<lambda>_. 1" "[demo_news [''EURGBP'']]"] by simp
qed

theorem pair_news_is_neutral_witness:
  "\<exists>s. sentiment_analyze (\<lambda>_. 1) demo_ctx [demo_news [''EURUSD'', ''EURGBP''], demo_news []] = Inr s \<and> sg_direction s = FLAT \<and> sg_confidence s = 0"
proof -
  have "length (ctx_symbol demo_ctx) = 6" "upper (ctx_symbol demo_ctx) = ctx_symbol demo_ctx"
    by (simp add: demo_ctx_def, simp only: demo_ctx_def analysis_context.simps, code_simp)
  then show ?thesis by (rule pair_news_is_neutral) (simp add: demo_news_def demo_ctx_def)
qed

theorem any_event_silences_witness:
  "\<exists>s. fundamental_analyze (\<lambda>_. Some 1) demo_ctx [demo_calendar\<lparr>ce_importance := ''low''\<rparr>] = Inr s \<and> sg_direction s = FLAT \<and> sg_confidence s = fl (1/10)
    \<and> map_of (sg_features s) ''impact'' = Some (JFloat (max_impact [demo_calendar] (ctx_now demo_ctx)))"
proof -
  have "demo_calendar \<in> set [demo_calendar]" "ce_timestamp demo_calendar = Some (seconds_td 600)"
    "\<bar>ctx_now demo_ctx - seconds_td 600\<bar> \<le> seconds_td (13 * 60)" "6 \<le> length (ctx_symbol demo_ctx)" "length (ctx_symbol demo_ctx) \<le> 12"
    by (simp_all add: demo_calendar_def demo_ctx_def seconds_td_def)
  from any_event_silences [OF this, of "\<lambda>_. Some 1" "\<lambda>_. ''low''"] show ?thesis by simp
qed

end
