(* ===== verification/Technical.thy ===== *)
theory Technical
  imports Indicators NewsAgents
begin

text \<open>
  The agents that read candles: \<^verbatim>\<open>agents/technical.py\<close>, nine votes over the last indicator values, and
  \<^verbatim>\<open>agents/regime.py\<close>, the conditioning labels.
\<close>

section \<open>Votes\<close>

record vote =
  vt_name :: string
  vt_weight :: f64
  vt_vote :: int
  vt_gated :: bool

definition MIN_BARS :: nat where "MIN_BARS = 34"
definition DIRECTION_THRESHOLD :: f64 where "DIRECTION_THRESHOLD = fl (15/100)"
definition ADX_TREND_FLOOR :: f64 where "ADX_TREND_FLOOR = fl 25"
definition GATE_FLOOR :: f64 where "GATE_FLOOR = fl (3/10)"

definition sign_deadzone :: "f64 \<Rightarrow> f64 \<Rightarrow> int" where
  "sign_deadzone v deadzone = (if deadzone < v then 1 else if v < - deadzone then - 1 else 0)"

definition rsi_extreme :: "f64 option \<Rightarrow> int" where
  "rsi_extreme v = (case v of None \<Rightarrow> 0 | Some r \<Rightarrow> if fl 70 \<le> r then - 1 else if r \<le> fl 30 then 1 else 0)"

definition threshold_vote :: "f64 option \<Rightarrow> f64 \<Rightarrow> int" where
  "threshold_vote v level = (case v of None \<Rightarrow> 0 | Some x \<Rightarrow> if x = level then 0 else if level < x then 1 else - 1)"

definition breakout :: "f64 option \<Rightarrow> f64 option \<Rightarrow> f64 option \<Rightarrow> int" where
  "breakout v hi lo = (case (v, hi, lo) of
     (Some x, Some u, Some l) \<Rightarrow> if u \<le> x then 1 else if x \<le> l then - 1 else 0 | _ \<Rightarrow> 0)"

definition stoch_vote :: "f64 option \<Rightarrow> f64 option \<Rightarrow> int" where
  "stoch_vote k d = (case (k, d) of
     (Some x, Some y) \<Rightarrow> if y < x \<and> x < fl 80 then 1 else if x < y \<and> fl 20 < x then - 1 else 0 | _ \<Rightarrow> 0)"

definition pivot_vote :: "f64 option \<Rightarrow> prev_daily option \<Rightarrow> int" where
  "pivot_vote close prev = (case (close, prev) of
     (Some c, Some p) \<Rightarrow> if pv_pivot (floor_pivots (pd_high p) (pd_low p) (pd_close p)) < c then 1 else - 1 | _ \<Rightarrow> 0)"

text \<open>\<^verbatim>\<open>x or 0.0\<close>\<close>

definition or0 :: "f64 option \<Rightarrow> f64" where
  "or0 a = (case a of None \<Rightarrow> 0 | Some x \<Rightarrow> x)"

text \<open>The last values \<^verbatim>\<open>analyze\<close> reads.\<close>

record tech_values =
  tv_close :: "f64 option"
  tv_ema9 :: "f64 option"
  tv_ema21 :: "f64 option"
  tv_sma50 :: "f64 option"
  tv_hist :: "f64 option"
  tv_rsi :: "f64 option"
  tv_bb_u :: "f64 option"
  tv_bb_l :: "f64 option"
  tv_k :: "f64 option"
  tv_d :: "f64 option"
  tv_adx :: "f64 option"
  tv_plus_di :: "f64 option"
  tv_minus_di :: "f64 option"
  tv_atr :: "f64 option"
  tv_don_up :: "f64 option"
  tv_don_low :: "f64 option"

definition tech_values_of :: "pandas \<Rightarrow> frame_row list \<Rightarrow> tech_values" where
  "tech_values_of P rows =
     (let close = col fw_close rows; (_, _, histogram) = macd P close;
          (_, bb_upper, bb_lower) = bollinger P close 20 (fl 2);
          (stoch_k, stoch_d) = stochastic P rows 14 3 3;
          (adx_line, plus_di, minus_di) = directional_movement P rows 14;
          (don_upper, _, don_lower) = donchian rows 20
      in \<lparr>tv_close = last_valid close, tv_ema9 = last_valid (ema P close 9), tv_ema21 = last_valid (ema P close 21),
          tv_sma50 = last_valid (sma P close 50), tv_hist = last_valid histogram, tv_rsi = last_valid (rsi P close 14),
          tv_bb_u = last_valid bb_upper, tv_bb_l = last_valid bb_lower, tv_k = last_valid stoch_k, tv_d = last_valid stoch_d,
          tv_adx = last_valid adx_line, tv_plus_di = last_valid plus_di, tv_minus_di = last_valid minus_di,
          tv_atr = last_valid (atr P rows 14), tv_don_up = last_valid (shift1 don_upper), tv_don_low = last_valid (shift1 don_lower)\<rparr>)"

definition trend_gate :: "f64 option \<Rightarrow> f64" where
  "trend_gate adx = (case adx of None \<Rightarrow> 1 | Some a \<Rightarrow> if a < ADX_TREND_FLOOR then max GATE_FLOOR (a / ADX_TREND_FLOOR) else 1)"

definition votes :: "tech_values \<Rightarrow> prev_daily option \<Rightarrow> vote list" where
  "votes v prev =
     (let deadzone = (case tv_atr v of Some a \<Rightarrow> fl (5/100) * a | None \<Rightarrow> fl (1 / 10 ^ 12)); c = or0 (tv_close v);
          V = (\<lambda>n w x g. \<lparr>vt_name = n, vt_weight = fl w, vt_vote = x, vt_gated = g\<rparr>)
      in [V ''ema_cross'' (18/100) (sign_deadzone (or0 (tv_ema9 v) - or0 (tv_ema21 v)) deadzone) True,
          V ''close_vs_sma50'' (12/100) (sign_deadzone (c - (case tv_sma50 v of Some s \<Rightarrow> s | None \<Rightarrow> c)) deadzone) True,
          V ''macd_histogram'' (15/100) (sign_deadzone (or0 (tv_hist v)) deadzone) True,
          V ''rsi_midline'' (8/100) (threshold_vote (tv_rsi v) (fl 50)) False,
          V ''rsi_extreme'' (12/100) (rsi_extreme (tv_rsi v)) False,
          V ''bollinger_breakout'' (10/100) (breakout (tv_close v) (tv_bb_u v) (tv_bb_l v)) False,
          V ''stochastic'' (10/100) (stoch_vote (tv_k v) (tv_d v)) False,
          V ''donchian_breakout'' (12/100) (breakout (tv_close v) (tv_don_up v) (tv_don_low v)) True,
          V ''pivot_position'' (10/100) (pivot_vote (tv_close v) prev) False])"

definition contribution :: "f64 \<Rightarrow> vote \<Rightarrow> f64" where
  "contribution gate x = vt_weight x * (if vt_gated x then gate else 1) * fl (of_int (vt_vote x))"

definition tech_score :: "f64 \<Rightarrow> vote list \<Rightarrow> f64" where
  "tech_score gate vs = foldl (\<lambda>s x. s + contribution gate x) 0 vs"

definition tech_direction :: "f64 \<Rightarrow> direction" where
  "tech_direction score = (if DIRECTION_THRESHOLD \<le> score then LONG else if score \<le> - DIRECTION_THRESHOLD then SHORT else FLAT)"

definition tech_confidence :: "f64 \<Rightarrow> f64" where
  "tech_confidence score = round_nd (min (fl (99/100)) \<bar>score\<bar>) 4"

definition tech_rationale :: "f64 \<Rightarrow> f64 \<Rightarrow> (string \<times> f64) list \<Rightarrow> f64 option \<Rightarrow> string" where
  "tech_rationale score gate breakdown adx =
     direction_value (tech_direction score) @ '' score='' @ format_signed 2 score @ '' gate='' @ format_fixed 2 gate @ ''; ''
       @ joined '', '' (map (\<lambda>(n, v). n @ format_signed 2 v) (take 3 (sort_key (\<lambda>x. - \<bar>snd x\<bar>) breakdown)))
       @ ''; adx='' @ (case adx of None \<Rightarrow> ''nan'' | Some a \<Rightarrow> format_fixed 1 a)"

definition json_opt :: "f64 option \<Rightarrow> json" where
  "json_opt a = (case a of None \<Rightarrow> JNull | Some x \<Rightarrow> JFloat x)"

definition tech_features :: "f64 \<Rightarrow> f64 \<Rightarrow> (string \<times> f64) list \<Rightarrow> tech_values \<Rightarrow> (string \<times> json) list" where
  "tech_features score gate breakdown v =
     [(''score'', JFloat (round_nd score 4)), (''gate'', JFloat (round_nd gate 4)),
      (''votes'', JDict (map (\<lambda>(n, x). (n, JFloat x)) breakdown)),
      (''indicators'', JDict [(''ema9'', json_opt (tv_ema9 v)), (''ema21'', json_opt (tv_ema21 v)), (''sma50'', json_opt (tv_sma50 v)),
         (''macd_hist'', json_opt (tv_hist v)), (''rsi14'', json_opt (tv_rsi v)), (''bb_upper'', json_opt (tv_bb_u v)),
         (''bb_lower'', json_opt (tv_bb_l v)), (''stoch_k'', json_opt (tv_k v)), (''stoch_d'', json_opt (tv_d v)),
         (''adx14'', json_opt (tv_adx v)), (''plus_di'', json_opt (tv_plus_di v)), (''minus_di'', json_opt (tv_minus_di v)),
         (''atr14'', json_opt (tv_atr v)), (''donchian_prev_upper'', json_opt (tv_don_up v)),
         (''donchian_prev_lower'', json_opt (tv_don_low v)), (''close'', json_opt (tv_close v))])]"

definition technical_analyze :: "pandas \<Rightarrow> bt_context \<Rightarrow> py_error + agent_signal" where
  "technical_analyze P ctx =
     (let rows = ctx_candles ctx; bctx = analysis_context.truncate ctx in
      if length rows < MIN_BARS
      then build_signal ''technical'' ''1'' bctx FLAT 0
        (''insufficient_history ('' @ show_nat (length rows) @ '' < '' @ show_nat MIN_BARS @ '' bars)'') [(''score'', JFloat 0)]
      else
        let v = tech_values_of P rows; gate = trend_gate (tv_adx v); vs = votes v (ctx_prev_daily ctx);
            score = tech_score gate vs; breakdown = map (\<lambda>x. (vt_name x, round_nd (contribution gate x) 4)) vs
        in build_signal ''technical'' ''1'' bctx (tech_direction score) (tech_confidence score)
             (tech_rationale score gate breakdown (tv_adx v)) (tech_features score gate breakdown v))"

section \<open>Regime agent\<close>

definition REGIME_MIN_BARS :: nat where "REGIME_MIN_BARS = 40"
definition SLOPE_LOOKBACK :: nat where "SLOPE_LOOKBACK = 4"
definition PERCENTILE_WINDOW :: nat where "PERCENTILE_WINDOW = 100"

definition classify_regime :: "f64 \<Rightarrow> f64 \<Rightarrow> string" where
  "classify_regime adx slope =
     (if fl 25 \<le> adx then if 0 \<le> slope then ''trending'' else ''weakening_trend''
      else if adx < fl 20 then ''range'' else ''transitional'')"

definition volatility_bucket :: "f64 \<Rightarrow> string" where
  "volatility_bucket percentile = (if percentile < fl (1/3) then ''low'' else if percentile < fl (2/3) then ''normal'' else ''high'')"

definition session_bucket :: "int \<Rightarrow> string" where
  "session_bucket hour = (if 22 \<le> hour \<or> hour \<le> 6 then ''asia'' else if hour \<le> 11 then ''london''
     else if hour \<le> 15 then ''overlap'' else if hour \<le> 20 then ''newyork'' else ''late'')"

definition utc_hour :: "datetime \<Rightarrow> int" where
  "utc_hour t = t div seconds_td 3600 mod 24"

definition unknown_features :: "(string \<times> json) list" where
  "unknown_features = [(''regime'', JStr ''unknown''), (''volatility'', JStr ''unknown''), (''session'', JStr ''unknown'')]"

definition regime_features :: "pandas \<Rightarrow> frame_row list \<Rightarrow> datetime \<Rightarrow> f64 \<Rightarrow> ((string \<times> json) list \<times> string)" where
  "regime_features P rows now f_adx =
     (let (adx_line, plus_di, minus_di) = directional_movement P rows 14; atr14 = atr P rows 14;
          dropped = filter (\<lambda>a. a \<noteq> None) adx_line;
          slope_index = length dropped - 1 - SLOPE_LOOKBACK;
          slope = f_adx - (if slope_index < length dropped then or0 (dropped ! slope_index) else f_adx);
          atr_pct = filter (\<lambda>a. a \<noteq> None) (s_map (\<lambda>x. x * fl 100) (s_div atr14 (col fw_close rows)));
          trailing = map or0 (drop (length atr_pct - PERCENTILE_WINDOW) atr_pct);
          f_atr_pct = List.last trailing;
          percentile = fl (of_nat (length (filter (\<lambda>x. x < f_atr_pct) trailing)) / of_nat (length trailing));
          regime = classify_regime f_adx slope; vol = volatility_bucket percentile; session = session_bucket (utc_hour now)
      in ([(''regime'', JStr regime), (''volatility'', JStr vol), (''session'', JStr session), (''adx'', JFloat (round_nd f_adx 4)),
           (''adx_slope_4bar'', JFloat (round_nd slope 4)), (''plus_di'', JFloat (round_nd (or0 (last_valid plus_di)) 4)),
           (''minus_di'', JFloat (round_nd (or0 (last_valid minus_di)) 4)), (''atr_pct'', JFloat (round_nd f_atr_pct 4)),
           (''atr_percentile'', JFloat (round_nd percentile 4))],
          ''regime='' @ regime @ '' vol='' @ vol @ '' session='' @ session @ '' (adx='' @ format_fixed 1 f_adx @ '', slope='' @ format_signed 1 slope
            @ '', atrpct='' @ format_fixed 2 f_atr_pct @ ''@p'' @ format_fixed 0 percentile @ '')''))"

definition regime_analyze :: "pandas \<Rightarrow> bt_context \<Rightarrow> py_error + agent_signal" where
  "regime_analyze P ctx =
     (let rows = ctx_candles ctx; bctx = analysis_context.truncate ctx in
      if length rows < REGIME_MIN_BARS
      then build_signal ''regime'' ''1'' bctx FLAT 0
        (''insufficient_history ('' @ show_nat (length rows) @ '' < '' @ show_nat REGIME_MIN_BARS @ '' bars)'') unknown_features
      else
        case (last_valid (fst (directional_movement P rows 14)), last_valid (atr P rows 14), last_valid (col fw_close rows)) of
          (Some f_adx, Some _, Some f_close) \<Rightarrow>
            if f_close = 0 then build_signal ''regime'' ''1'' bctx FLAT 0 ''indicator inputs unavailable'' unknown_features
            else (let (features, rationale) = regime_features P rows (ctx_now ctx) f_adx
                  in build_signal ''regime'' ''1'' bctx FLAT 0 rationale features)
        | _ \<Rightarrow> build_signal ''regime'' ''1'' bctx FLAT 0 ''indicator inputs unavailable'' unknown_features)"

section \<open>What the technical agent stores\<close>

lemma build_signal_fields:
  "build_signal a v ctx d c r f = Inr s \<Longrightarrow> sg_agent_id s = a \<and> sg_direction s = d \<and> sg_features s = f \<and> sg_confidence s = max 0 (min 1 c)
    \<and> sg_symbol s = ctx_symbol ctx \<and> sg_timeframe s = ctx_timeframe ctx \<and> sg_bucket_ts s = ctx_bucket_ts ctx"
  by (auto simp: build_signal_def dest!: validate_signal_InrD)

lemma technical_no_atr:
  assumes "technical_analyze P ctx = Inr s"
  shows "sg_agent_id s = ''technical''" "json_get (sg_features s) ''atr14'' = None"
proof -
  have "sg_agent_id s = ''technical'' \<and> json_get (sg_features s) ''atr14'' = None"
    using assms by (auto simp: technical_analyze_def Let_def tech_features_def json_get_def dest!: build_signal_fields split: if_splits)
  then show "sg_agent_id s = ''technical''" "json_get (sg_features s) ''atr14'' = None" by simp_all
qed

lemma regime_flat:
  assumes "regime_analyze P ctx = Inr s"
  shows "sg_agent_id s = ''regime'' \<and> sg_direction s = FLAT \<and> sg_confidence s = 0"
  using assms by (auto simp: regime_analyze_def Let_def split_beta dest!: build_signal_fields split: if_splits option.splits)

text \<open>
  The technical signal, exactly: with fewer than 34 bars it is FLAT with confidence 0; otherwise its
  direction is the side of the score past 0.15 and its confidence the score's magnitude, capped at 0.99
  and rounded to four places, so a directional signal always carries a confidence of at least 0.15 and a
  FLAT one at most 0.15; it never raises for a six-letter pair.
\<close>

theorem technical_exact:
  assumes "length (ctx_symbol ctx) = 6"
  shows "\<exists>s. technical_analyze P ctx = Inr s \<and> sg_bucket_ts s = ctx_bucket_ts ctx
    \<and> (if length (ctx_candles ctx) < 34 then sg_direction s = FLAT \<and> sg_confidence s = 0
       else let v = tech_values_of P (ctx_candles ctx); gate = trend_gate (tv_adx v); score = tech_score gate (votes v (ctx_prev_daily ctx))
         in sg_confidence s = round_nd (min (fl (99/100)) \<bar>score\<bar>) 4
            \<and> (sg_direction s = LONG \<longleftrightarrow> fl (15/100) \<le> score) \<and> (sg_direction s = SHORT \<longleftrightarrow> score \<le> - fl (15/100))
            \<and> (if sg_direction s = FLAT then sg_confidence s \<le> fl (15/100) else fl (15/100) \<le> sg_confidence s) \<and> sg_confidence s \<le> fl (99/100))"
proof (cases "length (ctx_candles ctx) < 34")
  case True
  then show ?thesis using assms by (simp add: technical_analyze_def MIN_BARS_def build_signal_def validate_signal_def analysis_context.defs)
next
  case False
  define v where "v = tech_values_of P (ctx_candles ctx)"
  define gate where "gate = trend_gate (tv_adx v)"
  define score where "score = tech_score gate (votes v (ctx_prev_daily ctx))"
  let ?c = "round_nd (min (fl (99/100)) \<bar>score\<bar>) 4"
  have k: "round_nd (fl (99/100)) 4 = fl (99/100)" "round_nd (fl (15/100)) 4 = fl (15/100)" "fl (15/100) \<le> fl (99/100)" "fl (99/100) \<le> 1" "0 < fl (15/100)"
    by code_simp+
  have "round_nd (min (fl (99/100)) \<bar>score\<bar>) 4 \<le> round_nd (fl (99/100)) 4" by (rule round_nd_mono) simp
  then have top: "?c \<le> fl (99/100)" by (simp only: k(1))
  have "0 \<le> min (fl (99/100)) \<bar>score\<bar>" using k(3,5) by (simp add: order_trans [OF less_imp_le])
  then have bot: "0 \<le> ?c" by (rule round_nd_nonneg)
  have c: "max 0 (min 1 ?c) = ?c" using top bot k(4) by (simp add: min_absorb2 order_trans [OF top])
  have flat: "?c \<le> fl (15/100)" if "\<not> fl (15/100) \<le> score" "\<not> score \<le> - fl (15/100)"
  proof -
    have "\<bar>score\<bar> \<le> fl (15/100)" using that by (auto simp: f64_rep)
    then have "min (fl (99/100)) \<bar>score\<bar> \<le> fl (15/100)" by (simp add: min.coboundedI2)
    then have "?c \<le> round_nd (fl (15/100)) 4" by (rule round_nd_mono)
    then show ?thesis by (simp only: k(2))
  qed
  have side: "fl (15/100) \<le> ?c" if "fl (15/100) \<le> score \<or> score \<le> - fl (15/100)"
  proof -
    have "fl (15/100) \<le> \<bar>score\<bar>" using that k(5) by (auto simp: f64_rep)
    then have "fl (15/100) \<le> min (fl (99/100)) \<bar>score\<bar>" using k(3) by simp
    then have "round_nd (fl (15/100)) 4 \<le> ?c" by (rule round_nd_mono)
    then show ?thesis by (simp only: k(2))
  qed
  have x: "\<not> (fl (15/100) \<le> score \<and> score \<le> - fl (15/100))" using k(5) by (auto simp: f64_rep)
  let ?br = "map (\<lambda>x. (vt_name x, round_nd (contribution gate x) 4)) (votes v (ctx_prev_daily ctx))"
  obtain s where s: "build_signal ''technical'' ''1'' (analysis_context.truncate ctx) (tech_direction score) (tech_confidence score)
      (tech_rationale score gate ?br (tv_adx v)) (tech_features score gate ?br v) = Inr s"
    using assms by (auto simp: build_signal_def validate_signal_def analysis_context.defs)
  note f = build_signal_fields [OF s]
  have t: "technical_analyze P ctx = Inr s"
    unfolding technical_analyze_def Let_def v_def [symmetric] gate_def [symmetric] score_def [symmetric] using False s by (simp add: MIN_BARS_def)
  have "sg_confidence s = ?c" using f c by (simp add: tech_confidence_def)
  moreover have d: "sg_direction s = tech_direction score" using f by blast
  moreover have "sg_bucket_ts s = ctx_bucket_ts ctx" using f by (simp add: analysis_context.defs)
  ultimately show ?thesis using t False flat side top x unfolding Let_def v_def [symmetric] gate_def [symmetric] score_def [symmetric]
    by (intro exI [of _ s]) (auto simp: tech_direction_def DIRECTION_THRESHOLD_def)
qed

section \<open>Concrete frames\<close>

text \<open>Pandas that computes nothing, and a frame of equal bars.\<close>

definition demo_pandas :: pandas where
  "demo_pandas = \<lparr>pa_roll_mean = (\<lambda>n xs. map (\<lambda>_. None) xs), pa_roll_std = (\<lambda>n xs. map (\<lambda>_. None) xs),
     pa_ewm_mean = (\<lambda>a n xs. map (\<lambda>_. None) xs), pa_mean = (\<lambda>xs. None)\<rparr>"

definition demo_frame :: "nat \<Rightarrow> frame_row list" where
  "demo_frame n = map (\<lambda>i. \<lparr>fw_index = int i, fw_open = 1, fw_high = fl 2, fw_low = 1, fw_close = fl 2, fw_volume = 0\<rparr>) [0..<n]"

definition demo_bars :: "nat \<Rightarrow> bt_context" where
  "demo_bars n = \<lparr>ctx_symbol = ''EURUSD'', ctx_timeframe = H1, ctx_bucket_ts = 7, ctx_now = 0, ctx_run_id = '''',
     ctx_candles = demo_frame n, ctx_prev_daily = None, ctx_pip_size = 1\<rparr>"

theorem technical_exact_witness:
  "(\<exists>s. technical_analyze demo_pandas (demo_bars 33) = Inr s \<and> sg_bucket_ts s = 7 \<and> sg_direction s = FLAT)
   \<and> (\<exists>s. technical_analyze demo_pandas (demo_bars 40) = Inr s \<and> sg_bucket_ts s = 7 \<and> sg_confidence s \<le> fl (99/100))"
proof
  have l: "length (ctx_symbol (demo_bars n)) = 6" "length (ctx_candles (demo_bars n)) = n" "ctx_bucket_ts (demo_bars n) = 7" for n
    by (simp_all add: demo_bars_def demo_frame_def)
  from technical_exact [OF l(1), of demo_pandas 33]
  show "\<exists>s. technical_analyze demo_pandas (demo_bars 33) = Inr s \<and> sg_bucket_ts s = 7 \<and> sg_direction s = FLAT" by (auto simp: l)
  from technical_exact [OF l(1), of demo_pandas 40]
  show "\<exists>s. technical_analyze demo_pandas (demo_bars 40) = Inr s \<and> sg_bucket_ts s = 7 \<and> sg_confidence s \<le> fl (99/100)"
    unfolding l Let_def by (simp del: Product_Type.split_paired_Ex) blast
qed

end
