(* ===== verification/FirstWriter.thy ===== *)
theory FirstWriter
  imports Prelude
begin

text \<open>
  The interface of the idempotent inserts (\<^verbatim>\<open>INSERT .. ON CONFLICT DO NOTHING\<close>): a batch of values is
  turned into rows one by one, a row that does not fit its columns fails the batch, a row whose key
  is taken is dropped, any other is appended in the form the columns store.
\<close>

fun firsts :: "('a \<Rightarrow> 'k) \<Rightarrow> 'a list \<Rightarrow> 'k set \<Rightarrow> 'a list" where
  "firsts k [] seen = []"
| "firsts k (x # xs) seen = (if k x \<in> seen then firsts k xs seen else x # firsts k xs (insert (k x) seen))"

lemma firsts_keys: "k ` set (firsts k xs seen) \<union> seen = seen \<union> k ` set xs"
proof (induction xs arbitrary: seen)
  case (Cons x xs)
  show ?case
  proof (cases "k x \<in> seen")
    case True
    with Cons.IH [of seen] show ?thesis by (simp add: insert_absorb)
  next
    case False
    with Cons.IH [of "insert (k x) seen"] show ?thesis by simp
  qed
qed simp

lemma firsts_distinct: "distinct (map k (firsts k xs seen)) \<and> k ` set (firsts k xs seen) \<inter> seen = {}"
proof (induction xs arbitrary: seen)
  case (Cons x xs)
  from Cons.IH [of seen] Cons.IH [of "insert (k x) seen"] show ?case by auto
qed simp

lemma firsts_known: "k ` set xs \<subseteq> seen \<Longrightarrow> firsts k xs seen = []"
  by (induction xs) auto

lemma set_firsts: "set (firsts k xs seen) \<subseteq> set xs"
proof (induction xs arbitrary: seen)
  case (Cons x xs)
  from Cons.IH [of seen] Cons.IH [of "insert (k x) seen"] show ?case by auto
qed simp

locale first_writer =
  fixes row_of :: "'a \<Rightarrow> 'r" and key :: "'r \<Rightarrow> 'k" and fits :: "'r \<Rightarrow> bool" and stored :: "'r \<Rightarrow> 'r"
    and save :: "'a list \<Rightarrow> 'r list \<Rightarrow> (nat \<times> 'r list) option"
  assumes key_stored: "key (stored r) = key r"
    and save_Nil: "save [] rows = Some (0, rows)"
    and save_Cons: "save (x # xs) rows =
      (if \<not> fits (row_of x) then None
       else if key (row_of x) \<in> key ` set rows then save xs rows
       else map_option (\<lambda>(n, rows'). (n + 1, rows')) (save xs (rows @ [stored (row_of x)])))"
begin

lemma save_exact:
  assumes "\<forall>x\<in>set xs. fits (row_of x)"
  shows "save xs rows = Some (length (firsts (\<lambda>x. key (row_of x)) xs (key ` set rows)),
    rows @ map (\<lambda>x. stored (row_of x)) (firsts (\<lambda>x. key (row_of x)) xs (key ` set rows)))"
  using assms
proof (induction xs arbitrary: rows)
  case (Cons x xs)
  have k: "key ` set (rows @ [stored (row_of x)]) = insert (key (row_of x)) (key ` set rows)" by (simp add: key_stored)
  have f: "\<forall>x\<in>set xs. fits (row_of x)" "fits (row_of x)" using Cons.prems by simp_all
  show ?case
  proof (cases "key (row_of x) \<in> key ` set rows")
    case True
    with Cons.IH [OF f(1), of rows] f(2) show ?thesis by (simp add: save_Cons)
  next
    case False
    with Cons.IH [OF f(1), of "rows @ [stored (row_of x)]"] f(2) show ?thesis unfolding k by (simp add: save_Cons)
  qed
qed (simp add: save_Nil)

lemma save_fails: "x \<in> set xs \<Longrightarrow> \<not> fits (row_of x) \<Longrightarrow> save xs rows = None"
proof (induction xs arbitrary: rows)
  case (Cons y ys)
  then show ?case by (cases "x = y") (simp_all add: save_Cons)
qed simp

lemma save_SomeD: "save xs rows = Some (n, rows') \<Longrightarrow> \<forall>x\<in>set xs. fits (row_of x)"
  using save_fails by (metis option.distinct(1))

lemma save_keeps:
  assumes "save xs rows = Some (n, rows')"
  shows "take (length rows) rows' = rows" "key ` set rows' = key ` set rows \<union> (\<lambda>x. key (row_of x)) ` set xs"
    "distinct (map key rows) \<Longrightarrow> distinct (map key rows')" "length rows' = length rows + n"
proof -
  let ?k = "\<lambda>x. key (row_of x)" and ?s = "key ` set rows"
  have r: "n = length (firsts ?k xs ?s)" "rows' = rows @ map (\<lambda>x. stored (row_of x)) (firsts ?k xs ?s)"
    using save_exact [OF save_SomeD [OF assms], of rows] assms by simp_all
  show "take (length rows) rows' = rows" "length rows' = length rows + n" by (simp_all add: r)
  have "map key rows' = map key rows @ map ?k (firsts ?k xs ?s)" by (simp add: r(2) key_stored)
  then have m: "set (map key rows') = ?s \<union> ?k ` set (firsts ?k xs ?s)" by simp
  then show "key ` set rows' = key ` set rows \<union> ?k ` set xs" using firsts_keys [of ?k xs ?s] by (simp add: Un_commute)
  show "distinct (map key rows')" if "distinct (map key rows)"
    using that firsts_distinct [of ?k xs ?s] unfolding \<open>map key rows' = _\<close> by (simp add: Int_commute)
qed

lemma save_again:
  assumes "save xs rows = Some (n, rows')" "set ys \<subseteq> set xs"
  shows "save ys rows' = Some (0, rows')"
proof -
  have f: "\<forall>y\<in>set ys. fits (row_of y)" using save_SomeD [OF assms(1)] assms(2) by blast
  have "(\<lambda>x. key (row_of x)) ` set ys \<subseteq> key ` set rows'" unfolding save_keeps(2) [OF assms(1)] using assms(2) by blast
  from save_exact [OF f, of rows'] firsts_known [OF this] show ?thesis by simp
qed

end

end
