(* ===== verification/Content.thy ===== *)
theory Content
  imports NewsAgents LedgerStore FirstWriter
begin

text \<open>
  News and calendar events: the normalised values (\<^verbatim>\<open>data/content_types.py\<close>), their deduplication keys
  (\<^verbatim>\<open>data/content_hash.py\<close>), the tables and queries (\<^verbatim>\<open>data/content_repository.py\<close>,
  \<^verbatim>\<open>models/news_item.py\<close>, \<^verbatim>\<open>economic_event.py\<close>) and one cycle of the content worker
  (\<^verbatim>\<open>workers/content_runtime.py\<close>). \<open>sha\<close> is the hexadecimal SHA-256 digest; instants are UTC (the host's
  time zone, into which the constructor converts, is UTC). Logs are left out.
\<close>

section \<open>Values\<close>

record norm_event =
  ne_provider :: string
  ne_title :: string
  ne_timestamp :: datetime
  ne_importance :: string
  ne_currency :: string
  ne_symbols :: "string list"
  ne_actual :: "string option"
  ne_forecast :: "string option"
  ne_previous :: "string option"
  ne_surprise :: "f64 option"
  ne_external_id :: "string option"
  ne_raw :: "(string \<times> json) list"

definition IMPORTANCE_LEVELS :: "string list" where
  "IMPORTANCE_LEVELS = [''low'', ''medium'', ''high'']"

text \<open>\<^verbatim>\<open>__post_init__\<close>\<close>

definition make_event :: "norm_event \<Rightarrow> py_error + norm_event" where
  "make_event e = (if ne_importance e \<in> set IMPORTANCE_LEVELS then Inr e else Inl ValueError)"

record norm_news =
  nn_provider :: string
  nn_headline :: string
  nn_published :: datetime
  nn_url :: "string option"
  nn_summary :: "string option"
  nn_symbols :: "string list"
  nn_external_id :: "string option"
  nn_raw :: "(string \<times> json) list"

section \<open>Keys\<close>

definition hash_canonical :: "(string \<Rightarrow> string) \<Rightarrow> string list \<Rightarrow> string" where
  "hash_canonical sha parts = sha (joined ''|'' parts)"

definition or_empty :: "string option \<Rightarrow> string" where
  "or_empty s = (case s of None \<Rightarrow> [] | Some x \<Rightarrow> x)"

definition calendar_dedup_key :: "(string \<Rightarrow> string) \<Rightarrow> norm_event \<Rightarrow> string" where
  "calendar_dedup_key sha e =
     (if or_empty (ne_external_id e) \<noteq> [] then hash_canonical sha [''ext'', lower (ne_provider e), or_empty (ne_external_id e)]
      else hash_canonical sha [''fields'', lower (ne_provider e), lower (strip (ne_title e)), isoformat (ne_timestamp e),
             upper (ne_currency e)])"

definition news_item_hash :: "(string \<Rightarrow> string) \<Rightarrow> norm_news \<Rightarrow> string" where
  "news_item_hash sha n =
     hash_canonical sha [''news'', lower (nn_provider n), or_empty (nn_external_id n), lower (strip (or_empty (nn_url n))),
       lower (strip (nn_headline n)), isoformat (nn_published n)]"

section \<open>Tables\<close>

record news_row =
  nr_item_hash :: string
  nr_provider :: string
  nr_external_id :: "string option"
  nr_url :: "string option"
  nr_headline :: string
  nr_summary :: "string option"
  nr_symbols :: "string list"
  nr_published :: datetime
  nr_raw :: "(string \<times> json) list"

record event_row =
  er_dedup_key :: string
  er_provider :: string
  er_external_id :: "string option"
  er_title :: string
  er_currency :: string
  er_symbols :: "string list"
  er_importance :: string
  er_timestamp :: datetime
  er_actual :: "string option"
  er_forecast :: "string option"
  er_previous :: "string option"
  er_surprise :: "rat option"
  er_raw :: "(string \<times> json) list"

definition news_values :: "(string \<Rightarrow> string) \<Rightarrow> norm_news \<Rightarrow> news_row" where
  "news_values sha n = \<lparr>nr_item_hash = news_item_hash sha n, nr_provider = nn_provider n, nr_external_id = nn_external_id n,
     nr_url = nn_url n, nr_headline = nn_headline n, nr_summary = nn_summary n, nr_symbols = nn_symbols n,
     nr_published = nn_published n, nr_raw = nn_raw n\<rparr>"

definition event_values :: "(string \<Rightarrow> string) \<Rightarrow> norm_event \<Rightarrow> event_row" where
  "event_values sha e = \<lparr>er_dedup_key = calendar_dedup_key sha e, er_provider = ne_provider e, er_external_id = ne_external_id e,
     er_title = ne_title e, er_currency = ne_currency e, er_symbols = ne_symbols e, er_importance = ne_importance e,
     er_timestamp = ne_timestamp e, er_actual = ne_actual e, er_forecast = ne_forecast e, er_previous = ne_previous e,
     er_surprise = map_option to_dec (ne_surprise e), er_raw = ne_raw e\<rparr>"

definition fits_len :: "nat \<Rightarrow> string option \<Rightarrow> bool" where
  "fits_len n s = (case s of None \<Rightarrow> True | Some x \<Rightarrow> length x \<le> n)"

text \<open>The column lengths and checks; a row that does not fit makes its insert fail.\<close>

definition news_fits :: "news_row \<Rightarrow> bool" where
  "news_fits r = (length (nr_item_hash r) \<le> 64 \<and> length (nr_provider r) \<le> 32 \<and> fits_len 128 (nr_external_id r)
     \<and> list_all (\<lambda>s. length s \<le> 12) (nr_symbols r))"

definition event_fits :: "event_row \<Rightarrow> bool" where
  "event_fits r = (length (er_dedup_key r) \<le> 64 \<and> length (er_provider r) \<le> 32 \<and> fits_len 128 (er_external_id r)
     \<and> length (er_currency r) \<le> 8 \<and> list_all (\<lambda>s. length s \<le> 12) (er_symbols r) \<and> er_importance r \<in> set IMPORTANCE_LEVELS
     \<and> (case er_surprise r of None \<Rightarrow> True | Some x \<Rightarrow> \<bar>quantize 4 x\<bar> < 10 ^ 4))"

definition stored_event :: "event_row \<Rightarrow> event_row" where
  "stored_event r = r\<lparr>er_surprise := map_option (quantize 4) (er_surprise r)\<rparr>"

text \<open>\<open>None\<close> is a database error, after which nothing of the transaction is committed.\<close>

fun save_news :: "(string \<Rightarrow> string) \<Rightarrow> norm_news list \<Rightarrow> news_row list \<Rightarrow> (nat \<times> news_row list) option" where
  "save_news sha [] rows = Some (0, rows)"
| "save_news sha (n # ns) rows =
     (let r = news_values sha n in
      if \<not> news_fits r then None
      else if nr_item_hash r \<in> nr_item_hash ` set rows then save_news sha ns rows
      else map_option (\<lambda>(k, rows'). (k + 1, rows')) (save_news sha ns (rows @ [r])))"

fun save_events :: "(string \<Rightarrow> string) \<Rightarrow> norm_event list \<Rightarrow> event_row list \<Rightarrow> (nat \<times> event_row list) option" where
  "save_events sha [] rows = Some (0, rows)"
| "save_events sha (e # es) rows =
     (let r = event_values sha e in
      if \<not> event_fits r then None
      else if er_dedup_key r \<in> er_dedup_key ` set rows then save_events sha es rows
      else map_option (\<lambda>(k, rows'). (k + 1, rows')) (save_events sha es (rows @ [stored_event r])))"

definition load_recent_news :: "string list option \<Rightarrow> nat \<Rightarrow> datetime option \<Rightarrow> news_row list \<Rightarrow> news_row list" where
  "load_recent_news symbols limit since rows =
     take limit (sort_key (\<lambda>r. - nr_published r) (filter (\<lambda>r.
       (case symbols of None \<Rightarrow> True | Some ss \<Rightarrow> ss = [] \<or> (\<exists>s\<in>set ss. s \<in> set (nr_symbols r)))
       \<and> (case since of None \<Rightarrow> True | Some t \<Rightarrow> t \<le> nr_published r)) rows))"

definition load_events :: "string list option \<Rightarrow> nat \<Rightarrow> datetime option \<Rightarrow> datetime option \<Rightarrow> event_row list \<Rightarrow> event_row list" where
  "load_events currencies limit since until rows =
     take limit (sort_key (\<lambda>r. - er_timestamp r) (filter (\<lambda>r.
       (case currencies of None \<Rightarrow> True | Some cs \<Rightarrow> cs = [] \<or> er_currency r \<in> set cs)
       \<and> (case since of None \<Rightarrow> True | Some t \<Rightarrow> t \<le> er_timestamp r)
       \<and> (case until of None \<Rightarrow> True | Some t \<Rightarrow> er_timestamp r < t)) rows))"

section \<open>The content worker\<close>

record content_settings =
  cs_news_lookback_hours :: int
  cs_calendar_lookback_hours :: int

datatype content_error = ContentProviderError | OtherError

type_synonym 'a provider = "datetime \<Rightarrow> datetime \<Rightarrow> content_error + 'a list"

text \<open>\<^verbatim>\<open>_safe_calendar\<close> and \<^verbatim>\<open>_safe_news\<close>; \<open>degraded\<close> is the synthetic provider. Any error but a
  \<^verbatim>\<open>ContentProviderError\<close> leaves the cycle.\<close>

definition fetch_or_degrade :: "'a provider \<Rightarrow> (datetime \<Rightarrow> datetime \<Rightarrow> 'a list) \<Rightarrow> datetime \<Rightarrow> datetime \<Rightarrow> content_error + 'a list" where
  "fetch_or_degrade provider degraded since until =
     (case provider since until of Inr xs \<Rightarrow> Inr xs | Inl ContentProviderError \<Rightarrow> Inr (degraded since until) | Inl e \<Rightarrow> Inl e)"

definition safe_calendar ::
  "(string \<Rightarrow> string) \<Rightarrow> content_settings \<Rightarrow> norm_event provider \<Rightarrow> (datetime \<Rightarrow> datetime \<Rightarrow> norm_event list) \<Rightarrow> datetime
   \<Rightarrow> event_row list \<Rightarrow> content_error + nat \<times> event_row list" where
  "safe_calendar sha cfg calendar degraded now rows =
     (case fetch_or_degrade calendar degraded (now - seconds_td (3600 * cs_calendar_lookback_hours cfg)) now of
        Inl e \<Rightarrow> Inl e
      | Inr events \<Rightarrow> (case save_events sha events rows of None \<Rightarrow> Inl OtherError | Some r \<Rightarrow> Inr r))"

definition safe_news ::
  "(string \<Rightarrow> string) \<Rightarrow> norm_news provider \<Rightarrow> (datetime \<Rightarrow> datetime \<Rightarrow> norm_news list) \<Rightarrow> datetime \<Rightarrow> datetime
   \<Rightarrow> news_row list \<Rightarrow> content_error + nat \<times> news_row list" where
  "safe_news sha news degraded since until rows =
     (case fetch_or_degrade news degraded since until of
        Inl e \<Rightarrow> Inl e
      | Inr items \<Rightarrow> (case save_news sha items rows of None \<Rightarrow> Inl OtherError | Some r \<Rightarrow> Inr r))"

text \<open>One cycle; the calendar is committed before the news are fetched. \<open>Inl\<close> ends the worker.\<close>

definition content_cycle ::
  "(string \<Rightarrow> string) \<Rightarrow> content_settings \<Rightarrow> norm_event provider \<Rightarrow> norm_news provider \<Rightarrow> (datetime \<Rightarrow> datetime \<Rightarrow> norm_event list)
   \<Rightarrow> (datetime \<Rightarrow> datetime \<Rightarrow> norm_news list) \<Rightarrow> datetime \<Rightarrow> event_row list \<times> news_row list
   \<Rightarrow> (content_error + nat \<times> nat) \<times> event_row list \<times> news_row list" where
  "content_cycle sha cfg calendar news degraded_events degraded_news now st =
     (case st of (events, items) \<Rightarrow>
        (case safe_calendar sha cfg calendar degraded_events now events of
           Inl e \<Rightarrow> (Inl e, events, items)
         | Inr (m, events') \<Rightarrow>
             (case safe_news sha news degraded_news (now - seconds_td (3600 * cs_news_lookback_hours cfg)) now items of
                Inl e \<Rightarrow> (Inl e, events', items)
              | Inr (n, items') \<Rightarrow> (Inr (m, n), events', items'))))"

section \<open>Both tables keep the first version of a record\<close>

interpretation news_table: first_writer "news_values sha" nr_item_hash news_fits id "save_news sha" for sha
  by unfold_locales (simp_all add: Let_def)

interpretation event_table: first_writer "event_values sha" er_dedup_key event_fits stored_event "save_events sha" for sha
  by unfold_locales (simp_all add: Let_def stored_event_def)

text \<open>
  C30. Polling is idempotent: a window of records that fit is stored as the first record of every new key, in
  order, and fetching any part of it again, in any order, inserts nothing and changes nothing. Rows are
  never changed or removed, and keys stay unique.
\<close>

theorem content_replay_safe:
  assumes "\<forall>n\<in>set items. news_fits (news_values sha n)" "\<forall>e\<in>set events. event_fits (event_values sha e)"
    "distinct (map nr_item_hash news)" "distinct (map er_dedup_key evs)"
  shows "\<exists>new_news new_evs. save_news sha items news = Some (length new_news, news @ new_news)
    \<and> save_events sha events evs = Some (length new_evs, evs @ new_evs)
    \<and> new_news = map (news_values sha) (firsts (news_item_hash sha) items (nr_item_hash ` set news))
    \<and> new_evs = map (stored_event \<circ> event_values sha) (firsts (calendar_dedup_key sha) events (er_dedup_key ` set evs))
    \<and> distinct (map nr_item_hash (news @ new_news)) \<and> distinct (map er_dedup_key (evs @ new_evs))
    \<and> (\<forall>again. set again \<subseteq> set items \<longrightarrow> save_news sha again (news @ new_news) = Some (0, news @ new_news))
    \<and> (\<forall>again. set again \<subseteq> set events \<longrightarrow> save_events sha again (evs @ new_evs) = Some (0, evs @ new_evs))"
proof -
  have kn: "(\<lambda>x. nr_item_hash (news_values sha x)) = news_item_hash sha" and ke: "(\<lambda>x. er_dedup_key (event_values sha x)) = calendar_dedup_key sha"
    by (simp_all add: fun_eq_iff news_values_def event_values_def)
  let ?n = "map (news_values sha) (firsts (news_item_hash sha) items (nr_item_hash ` set news))"
  let ?e = "map (stored_event \<circ> event_values sha) (firsts (calendar_dedup_key sha) events (er_dedup_key ` set evs))"
  have n: "save_news sha items news = Some (length ?n, news @ ?n)"
    using news_table.save_exact [OF assms(1), of news] unfolding kn by simp
  have e: "save_events sha events evs = Some (length ?e, evs @ ?e)"
    using event_table.save_exact [OF assms(2), of evs] unfolding ke by (simp add: comp_def)
  show ?thesis
    using n e news_table.save_keeps(3) [OF n assms(3)] event_table.save_keeps(3) [OF e assms(4)]
      news_table.save_again [OF n] event_table.save_again [OF e]
    by (intro exI [of _ ?n] exI [of _ ?e] conjI allI impI refl) assumption+
qed

text \<open>The same event with the figure that has been released since.\<close>

definition released :: "norm_event \<Rightarrow> string \<Rightarrow> norm_event" where
  "released e figure = e\<lparr>ne_actual := Some figure\<rparr>"

text \<open>
  An event keeps its first version for ever: once an event is stored, polling it again with the figure
  that has been released since (the key does not depend on it) inserts nothing, so the surprise the
  fundamental agent reads never appears. The worker only fetches events up to the present, so an event
  is not stored before its time and its first version decides.
\<close>

theorem released_figure_lost:
  assumes "save_events sha [e] rows = Some (n, rows')"
  shows "save_events sha [released e figure] rows' = Some (0, rows')
    \<and> (ne_actual e = None \<and> n = 1 \<longrightarrow> (\<exists>r. r \<in> set rows' \<and> er_dedup_key r = calendar_dedup_key sha (released e figure) \<and> er_actual r = None))"
proof
  have fit: "event_fits (event_values sha e)" using event_table.save_SomeD [OF assms] by simp
  have k: "er_dedup_key (event_values sha (released e figure)) = er_dedup_key (event_values sha e)"
    by (simp add: event_values_def released_def calendar_dedup_key_def)
  have "event_values sha (released e figure) = (event_values sha e)\<lparr>er_actual := Some figure\<rparr>"
    by (simp add: event_values_def released_def calendar_dedup_key_def)
  then have fit': "event_fits (event_values sha (released e figure))" using fit by (simp add: event_fits_def)
  have in': "er_dedup_key (event_values sha e) \<in> er_dedup_key ` set rows'" using event_table.save_keeps(2) [OF assms] by simp
  show "save_events sha [released e figure] rows' = Some (0, rows')" using fit' in' unfolding k [symmetric] by (simp add: Let_def)
  show "ne_actual e = None \<and> n = 1 \<longrightarrow> (\<exists>r. r \<in> set rows' \<and> er_dedup_key r = calendar_dedup_key sha (released e figure) \<and> er_actual r = None)"
  proof
    assume h: "ne_actual e = None \<and> n = 1"
    with assms have "rows' = rows @ [stored_event (event_values sha e)]" by (auto simp: Let_def split: if_splits)
    with h show "\<exists>r. r \<in> set rows' \<and> er_dedup_key r = calendar_dedup_key sha (released e figure) \<and> er_actual r = None"
      by (intro exI [of _ "stored_event (event_values sha e)"]) (simp add: stored_event_def event_values_def released_def calendar_dedup_key_def)
  qed
qed

text \<open>
  The keys are not injective, whatever the hash: the parts are joined by a character they may contain,
  so two different stories of one provider, with different identifiers and addresses, share a key and the
  second is dropped.
\<close>

theorem news_keys_collide:
  assumes "nn_external_id a = Some (i @ ''|'' @ u)" "nn_url a = Some w" "i \<noteq> []"
    "b = a\<lparr>nn_external_id := Some i, nn_url := Some (u @ ''|'' @ w)\<rparr>"
    "lower (strip w) = w" "lower (strip (u @ ''|'' @ w)) = u @ ''|'' @ w"
  shows "news_item_hash sha a = news_item_hash sha b \<and> a \<noteq> b"
proof
  show "news_item_hash sha a = news_item_hash sha b"
    using assms(5,6) by (simp add: news_item_hash_def hash_canonical_def joined_def or_empty_def assms(1-4))
  show "a \<noteq> b"
  proof
    assume "a = b"
    then have "nn_external_id a = nn_external_id b" by simp
    then show False by (simp add: assms(1,4))
  qed
qed

section \<open>Concrete records\<close>

definition demo_item :: "string \<Rightarrow> string \<Rightarrow> norm_news" where
  "demo_item i u = \<lparr>nn_provider = ''finnhub'', nn_headline = ''Fed holds'', nn_published = 0, nn_url = Some u, nn_summary = None,
     nn_symbols = [''EURUSD''], nn_external_id = Some i, nn_raw = []\<rparr>"

definition demo_norm_event :: norm_event where
  "demo_norm_event = \<lparr>ne_provider = ''finnhub'', ne_title = ''CPI'', ne_timestamp = 0, ne_importance = ''high'', ne_currency = ''EUR'',
     ne_symbols = [], ne_actual = None, ne_forecast = Some ''2.0%'', ne_previous = None, ne_surprise = None, ne_external_id = Some ''7'', ne_raw = []\<rparr>"

definition demo_digest :: "string \<Rightarrow> string" where
  "demo_digest s = take 64 s"

lemma demo_fits: "news_fits (news_values demo_digest (demo_item i u)) \<longleftrightarrow> length i \<le> 128" "event_fits (event_values demo_digest demo_norm_event)"
  by (simp_all add: news_fits_def news_values_def demo_item_def news_item_hash_def hash_canonical_def demo_digest_def fits_len_def
      event_fits_def event_values_def demo_norm_event_def calendar_dedup_key_def or_empty_def IMPORTANCE_LEVELS_def)

theorem content_replay_safe_witness:
  "\<exists>rows. save_news demo_digest [demo_item ''1'' ''a'', demo_item ''1'' ''a''] [] = Some (length rows, rows)
     \<and> save_news demo_digest [demo_item ''1'' ''a''] rows = Some (0, rows)"
proof -
  have n: "\<forall>n\<in>set [demo_item ''1'' ''a'', demo_item ''1'' ''a'']. news_fits (news_values demo_digest n)" by (simp add: demo_fits)
  have e: "\<forall>e\<in>set [demo_norm_event]. event_fits (event_values demo_digest e)" by (simp add: demo_fits)
  have d: "distinct (map nr_item_hash ([] :: news_row list))" "distinct (map er_dedup_key ([] :: event_row list))" by simp_all
  from content_replay_safe [OF n e d] show ?thesis
  proof (elim exE conjE)
    fix rows :: "news_row list"
    assume first: "save_news demo_digest [demo_item ''1'' ''a'', demo_item ''1'' ''a''] [] = Some (length rows, [] @ rows)"
      and again: "\<forall>again. set again \<subseteq> set [demo_item ''1'' ''a'', demo_item ''1'' ''a''] \<longrightarrow> save_news demo_digest again ([] @ rows) = Some (0, [] @ rows)"
    have "set [demo_item ''1'' ''a''] \<subseteq> set [demo_item ''1'' ''a'', demo_item ''1'' ''a'']" by simp
    then have "save_news demo_digest [demo_item ''1'' ''a''] ([] @ rows) = Some (0, [] @ rows)" by (rule again [rule_format])
    with first show ?thesis unfolding append_Nil by (intro exI [of _ rows] conjI)
  qed
qed

theorem released_figure_lost_witness:
  "\<exists>rows. save_events demo_digest [demo_norm_event] [] = Some (1, rows)
     \<and> save_events demo_digest [released demo_norm_event ''2.4%''] rows = Some (0, rows)"
proof -
  have "save_events demo_digest [demo_norm_event] [] = Some (1, [stored_event (event_values demo_digest demo_norm_event)])"
    using demo_fits(2) by (simp add: Let_def)
  with released_figure_lost [OF this, of "''2.4%''"] show ?thesis by blast
qed

theorem news_keys_collide_witness:
  "news_item_hash demo_digest (demo_item ''1|2'' ''x'') = news_item_hash demo_digest (demo_item ''1'' ''2|x'') \<and> demo_item ''1|2'' ''x'' \<noteq> demo_item ''1'' ''2|x''"
proof -
  have "lower (strip ''x'') = ''x''" "lower (strip (''2'' @ ''|'' @ ''x'')) = ''2'' @ ''|'' @ ''x''" by code_simp+
  from news_keys_collide [OF _ _ _ _ this, of "demo_item ''1|2'' ''x''" "''1''" "demo_item ''1'' ''2|x''" demo_digest]
  show ?thesis by (simp add: demo_item_def)
qed

end
