(* ===== verification/AgentWorker.thy ===== *)
theory AgentWorker
  imports Technical Content Alerts
begin

text \<open>
  The agent worker (\<^verbatim>\<open>workers/agent_worker.py\<close>): one batch of closed-bar entries, the context of a bar
  read from the candle, news and event tables, the shipped registry of agents run over it, the stored
  signals and the published events. Parameters: \<open>decode\<close> is \<^verbatim>\<open>Event.from_json\<close> on the text of an entry
  (\<open>None\<close> where it raises), \<open>parse_ts\<close> is \<^verbatim>\<open>datetime.fromisoformat\<close> (\<open>None\<close> where it raises or the text has
  no zone), \<open>R\<close> the text of a JSON value. Metrics, logs and latencies are left out.
\<close>

section \<open>The context of a bar\<close>

definition LOOKBACK_BARS :: nat where "LOOKBACK_BARS = 150"

record live_context = bt_context +
  ctx_news :: "news_meta list"
  ctx_events :: "calendar_event list"

text \<open>\<^verbatim>\<open>_load_series\<close>: the session is closed without a commit, so a new instrument is not kept.\<close>

definition load_series :: "uuid \<Rightarrow> string \<Rightarrow> timeframe \<Rightarrow> nat \<Rightarrow> market \<Rightarrow> candle_row list \<times> instrument" where
  "load_series new_id symbol tf lookback m =
     (let (ins, m1) = get_or_create_instrument new_id symbol m
      in (load_candles (i_id ins) tf None None lookback m1, ins))"

definition row_frame :: "candle_row list \<Rightarrow> frame_row list" where
  "row_frame rows = map (\<lambda>r. \<lparr>fw_index = k_ts r, fw_open = fl (k_open r), fw_high = fl (k_high r), fw_low = fl (k_low r),
     fw_close = fl (k_close r), fw_volume = k_volume r\<rparr>) rows"

definition prev_daily_row :: "uuid \<Rightarrow> market \<Rightarrow> prev_daily option" where
  "prev_daily_row iid m =
     (case sort_key (\<lambda>r. - k_ts r) (MarketData.series iid D1 m) of [] \<Rightarrow> None
      | r # _ \<Rightarrow> Some \<lparr>pd_high = fl (k_high r), pd_low = fl (k_low r), pd_close = fl (k_close r)\<rparr>)"

definition symbols_touch :: "string list \<Rightarrow> string \<Rightarrow> bool" where
  "symbols_touch symbols pair = list_ex (\<lambda>s. length s = 6 \<and> (take 3 s = take 3 pair \<or> drop 3 s = drop 3 pair)) symbols"

text \<open>\<^verbatim>\<open>_load_content\<close>: its two selects are \<open>load_recent_news\<close> without symbols and \<open>load_events\<close>.\<close>

definition load_content ::
  "string \<Rightarrow> datetime \<Rightarrow> news_row list \<Rightarrow> event_row list \<Rightarrow> news_meta list \<times> calendar_event list" where
  "load_content symbol bucket_ts news events =
     (let window = seconds_td (12 * 3600); since = bucket_ts - window; until = bucket_ts + window;
          lookback = seconds_td (2 * 86400);
          news_rows = load_recent_news None 50 (Some (since - lookback)) news;
          event_rows = load_events (Some [take 3 symbol, drop 3 symbol]) 50 (Some since) (Some until) events
      in (map (\<lambda>r. \<lparr>nm_headline = nr_headline r, nm_published = Some (nr_published r), nm_symbols = nr_symbols r, nm_provider = nr_provider r\<rparr>)
            (filter (\<lambda>r. nr_symbols r = [] \<or> symbols_touch (nr_symbols r) symbol) news_rows),
          map (\<lambda>r. \<lparr>ce_timestamp = Some (er_timestamp r), ce_importance = er_importance r, ce_currency = er_currency r,
              ce_actual = er_actual r, ce_forecast = er_forecast r, ce_title = er_title r\<rparr>) event_rows))"

section \<open>The registry\<close>

type_synonym live_agent = "live_context \<Rightarrow> py_error + agent_signal"

text \<open>\<^verbatim>\<open>default_registry().all()\<close>; \<open>num\<close> is \<^verbatim>\<open>float\<close> on a text, \<open>exf\<close> is \<^verbatim>\<open>math.exp\<close>.\<close>

definition shipped_agents :: "pandas \<Rightarrow> (string \<Rightarrow> f64 option) \<Rightarrow> (f64 \<Rightarrow> f64) \<Rightarrow> live_agent list" where
  "shipped_agents P num exf =
     [\<lambda>ctx. technical_analyze P (bt_context.truncate ctx),
      \<lambda>ctx. regime_analyze P (bt_context.truncate ctx),
      \<lambda>ctx. fundamental_analyze num (analysis_context.truncate ctx) (ctx_events ctx),
      \<lambda>ctx. sentiment_analyze exf (analysis_context.truncate ctx) (ctx_news ctx)]"

text \<open>The loop over the agents; \<open>clock k\<close> is the \<open>k\<close>-th reading of the clock.\<close>

fun analyze_all :: "(nat \<Rightarrow> datetime) \<Rightarrow> nat \<Rightarrow> live_context \<Rightarrow> live_agent list \<Rightarrow> py_error + agent_signal list" where
  "analyze_all clock k ctx [] = Inr []"
| "analyze_all clock k ctx (a # as) =
     (case a (ctx\<lparr>ctx_now := clock k\<rparr>) of
        Inl e \<Rightarrow> Inl e
      | Inr s \<Rightarrow> (case analyze_all clock (Suc k) ctx as of Inl e \<Rightarrow> Inl e | Inr ss \<Rightarrow> Inr (s # ss)))"

section \<open>One bar\<close>

text \<open>What a bar reads: ids, the clock, the tables at the time, and whether publishing an event succeeds.\<close>

record agent_env =
  ag_run_id :: string
  ag_new_id :: uuid
  ag_clock :: "nat \<Rightarrow> datetime"
  ag_market :: market
  ag_news :: "news_row list"
  ag_events :: "event_row list"
  ag_publish :: "event \<Rightarrow> bool"

definition signal_event :: "string \<Rightarrow> datetime \<Rightarrow> agent_signal \<Rightarrow> event" where
  "signal_event run_id now s =
     \<lparr>ev_type = ''signal.emitted'',
      ev_payload = [(''agent_id'', JStr (sg_agent_id s)), (''version'', JStr (sg_version s)), (''symbol'', JStr (sg_symbol s)),
        (''timeframe'', JStr (tf_name (sg_timeframe s))), (''direction'', JStr (direction_value (sg_direction s))),
        (''confidence'', JFloat (sg_confidence s)), (''bucket_ts'', JStr (isoformat (sg_bucket_ts s))),
        (''valid_until'', JStr (isoformat (sg_valid_until s))), (''rationale'', JStr (sg_rationale s))],
      ev_producer = ''agents'', ev_produced_at = now, ev_schema_version = 1, ev_correlation_id = run_id\<rparr>"

text \<open>The publishing loop: the events published, and whether every one was.\<close>

fun publish_signals :: "agent_env \<Rightarrow> nat \<Rightarrow> agent_signal list \<Rightarrow> event list \<times> bool" where
  "publish_signals env k [] = ([], True)"
| "publish_signals env k (s # ss) =
     (let ev = signal_event (ag_run_id env) (ag_clock env k) s in
      if \<not> ag_publish env ev then ([], False)
      else let (evs, ok) = publish_signals env (Suc k) ss in (ev # evs, ok))"

definition field :: "(string \<times> string) list \<Rightarrow> string \<Rightarrow> string" where
  "field payload key = (case map_of payload key of None \<Rightarrow> [] | Some v \<Rightarrow> v)"

definition bar_context :: "agent_env \<Rightarrow> nat \<Rightarrow> string \<Rightarrow> timeframe \<Rightarrow> datetime \<Rightarrow> live_context" where
  "bar_context env lookback symbol tf bucket_ts =
     (let (candles, ins) = load_series (ag_new_id env) symbol tf lookback (ag_market env);
          (news, events) = load_content symbol bucket_ts (ag_news env) (ag_events env)
      in \<lparr>ctx_symbol = symbol, ctx_timeframe = tf, ctx_bucket_ts = bucket_ts, ctx_now = ag_clock env 0, ctx_run_id = ag_run_id env,
          ctx_candles = row_frame candles, ctx_prev_daily = prev_daily_row (i_id ins) (ag_market env), ctx_pip_size = fl (i_pip_size ins),
          ctx_news = news, ctx_events = events\<rparr>)"

text \<open>
  \<^verbatim>\<open>process_bar\<close>: the rows written, \<open>None\<close> when it raised, with the table and the events published. A
  text that is no timeframe raises in the first agent, which asks for its length (the registry is not empty). The signals are
  committed before the first event is published.
\<close>

definition process_bar ::
  "live_agent list \<Rightarrow> (string \<Rightarrow> datetime option) \<Rightarrow> nat \<Rightarrow> agent_env \<Rightarrow> (string \<times> string) list \<Rightarrow> signal_row list
   \<Rightarrow> nat option \<times> signal_row list \<times> event list" where
  "process_bar agents parse_ts lookback env payload rows =
     (case (parse_ts (field payload ''ts''), parse_timeframe (field payload ''timeframe'')) of
        (Some bucket_ts, Some tf) \<Rightarrow>
          (case analyze_all (ag_clock env) 0 (bar_context env lookback (upper (field payload ''symbol'')) tf bucket_ts) agents of
             Inl e \<Rightarrow> (None, rows, [])
           | Inr sigs \<Rightarrow>
               let (written, rows') = save_signals sigs rows; (evs, ok) = publish_signals env (length agents) sigs
               in (if ok then Some written else None, rows', evs))
      | _ \<Rightarrow> (None, rows, []))"

section \<open>A batch\<close>

text \<open>\<^verbatim>\<open>_unwrap\<close> on the text of the field \<^verbatim>\<open>data\<close>.\<close>

definition unwrap_bar :: "(json \<Rightarrow> string) \<Rightarrow> (string \<Rightarrow> event option) \<Rightarrow> string \<Rightarrow> (string \<times> string) list option" where
  "unwrap_bar R decode raw =
     (if raw = [] then None
      else case decode raw of None \<Rightarrow> None
        | Some ev \<Rightarrow> if ev_type ev \<noteq> ''bar.closed'' \<or> ev_payload ev = [] then None
            else Some (map (\<lambda>(k, v). (k, py_str R v)) (ev_payload ev)))"

text \<open>\<^verbatim>\<open>str(payload.get("ts"))\<close> and the key of a bar.\<close>

definition ts_text :: "(string \<times> string) list \<Rightarrow> string" where
  "ts_text payload = (case map_of payload ''ts'' of None \<Rightarrow> ''None'' | Some t \<Rightarrow> t)"

definition bar_key :: "(string \<times> string) list \<Rightarrow> string \<times> string" where
  "bar_key payload = (field payload ''symbol'', field payload ''timeframe'')"

text \<open>An entry of the reply, stream after stream: stream, id, unwrapped payload.\<close>

type_synonym bar_entry = "string \<times> string \<times> (string \<times> string) list option"
type_synonym selected = "((string \<times> string) \<times> string \<times> string \<times> (string \<times> string) list) list"

fun select_entry :: "(string \<times> string) list \<times> selected \<Rightarrow> bar_entry \<Rightarrow> (string \<times> string) list \<times> selected" where
  "select_entry (acks, sel) (stream, entry, None) = (acks @ [(stream, entry)], sel)"
| "select_entry (acks, sel) (stream, entry, Some payload) =
     (let key = bar_key payload in
      case map_of sel key of
        None \<Rightarrow> (acks, dict_set key (entry, stream, payload) sel)
      | Some (entry0, _, payload0) \<Rightarrow>
          if ts_text payload0 \<le> ts_text payload
          then (acks @ [(stream, entry0)], dict_set key (entry, stream, payload) sel)
          else (acks @ [(stream, entry)], sel))"

definition select_bars :: "bar_entry list \<Rightarrow> (string \<times> string) list \<times> selected" where
  "select_bars entries = foldl select_entry ([], []) entries"

record agent_batch =
  gb_processed :: nat
  gb_skipped_stale :: nat
  gb_signals_written :: nat
  gb_errors :: nat

text \<open>The loop over the selected bars; \<open>envs n\<close> is what the \<open>n\<close>-th one reads.\<close>

fun process_selected ::
  "live_agent list \<Rightarrow> (string \<Rightarrow> datetime option) \<Rightarrow> nat \<Rightarrow> (nat \<Rightarrow> agent_env) \<Rightarrow> nat \<Rightarrow> selected
   \<Rightarrow> agent_batch \<times> (string \<times> string) list \<times> signal_row list \<times> event list
   \<Rightarrow> agent_batch \<times> (string \<times> string) list \<times> signal_row list \<times> event list" where
  "process_selected agents parse_ts lookback envs n [] st = st"
| "process_selected agents parse_ts lookback envs n ((key, entry, stream, payload) # sel) (b, acks, rows, evs) =
     (let (written, rows', new) = process_bar agents parse_ts lookback (envs n) payload rows;
          b' = (case written of None \<Rightarrow> b\<lparr>gb_errors := gb_errors b + 1\<rparr>
            | Some k \<Rightarrow> b\<lparr>gb_signals_written := gb_signals_written b + k, gb_processed := gb_processed b + 1\<rparr>)
      in process_selected agents parse_ts lookback envs (Suc n) sel (b', acks @ [(stream, entry)], rows', evs @ new))"

text \<open>\<^verbatim>\<open>poll_once\<close>: the result, the acknowledged entries, the signal table and the published events.
  Every skipped entry is acknowledged and counted.\<close>

definition agent_poll_once ::
  "live_agent list \<Rightarrow> (string \<Rightarrow> datetime option) \<Rightarrow> nat \<Rightarrow> (nat \<Rightarrow> agent_env) \<Rightarrow> bar_entry list \<Rightarrow> signal_row list
   \<Rightarrow> agent_batch \<times> (string \<times> string) list \<times> signal_row list \<times> event list" where
  "agent_poll_once agents parse_ts lookback envs entries rows =
     (let (acks, sel) = select_bars entries
      in process_selected agents parse_ts lookback envs 0 sel
           (\<lparr>gb_processed = 0, gb_skipped_stale = length acks, gb_signals_written = 0, gb_errors = 0\<rparr>, acks, rows, []))"

section \<open>A batch analyses each pair once, at its newest bar\<close>

text \<open>The entries a selection stands for.\<close>

definition chosen :: "selected \<Rightarrow> (string \<times> string) list" where
  "chosen sel = map (\<lambda>(key, entry, stream, payload). (stream, entry)) sel"

definition one_stream :: "bar_entry list \<Rightarrow> bool" where
  "one_stream entries = (\<forall>s e p s' e' p'. (s, e, Some p) \<in> set entries \<and> (s', e', Some p') \<in> set entries \<and> bar_key p = bar_key p' \<longrightarrow> s = s')"

definition newest :: "bar_entry list \<Rightarrow> string \<times> string \<times> (string \<times> string) list \<Rightarrow> bool" where
  "newest entries x = (case x of (entry, stream, payload) \<Rightarrow> (stream, entry, Some payload) \<in> set entries
     \<and> (\<forall>s e p. (s, e, Some p) \<in> set entries \<and> bar_key p = bar_key payload \<longrightarrow> ts_text p \<le> ts_text payload))"

definition selection_ok :: "bar_entry list \<Rightarrow> (string \<times> string) list \<times> selected \<Rightarrow> bool" where
  "selection_ok entries st = (case st of (acks, sel) \<Rightarrow>
     distinct (map fst sel)
     \<and> (\<forall>k x. map_of sel k = Some x \<longrightarrow> k = bar_key (snd (snd x)) \<and> newest entries x)
     \<and> (\<forall>s e p. (s, e, Some p) \<in> set entries \<longrightarrow> map_of sel (bar_key p) \<noteq> None)
     \<and> mset (map snd acks) + mset (map snd (chosen sel)) = mset (map (\<lambda>(s, e, p). e) entries)
     \<and> (one_stream entries \<longrightarrow> mset acks + mset (chosen sel) = mset (map (\<lambda>(s, e, p). (s, e)) entries)))"

lemma dict_set_split:
  assumes "distinct (map fst d)" "map_of d k = Some v"
  shows "\<exists>xs ys. d = xs @ (k, v) # ys \<and> dict_set k v' d = xs @ (k, v') # ys \<and> k \<notin> fst ` set xs \<and> k \<notin> fst ` set ys"
  using assms
proof (induction d)
  case (Cons a d)
  obtain k0 v0 where a: "a = (k0, v0)" by (cases a)
  show ?case
  proof (cases "k0 = k")
    case True
    with Cons.prems show ?thesis by (intro exI [of _ "[]"] exI [of _ d]) (simp add: a)
  next
    case False
    with Cons.prems have "distinct (map fst d)" "map_of d k = Some v" by (simp_all add: a)
    from Cons.IH [OF this] obtain xs ys where x: "d = xs @ (k, v) # ys" "dict_set k v' d = xs @ (k, v') # ys" "k \<notin> fst ` set xs" "k \<notin> fst ` set ys"
      by (elim exE conjE)
    then show ?thesis using False by (intro exI [of _ "a # xs"] exI [of _ ys]) (simp add: a)
  qed
qed simp

lemma dict_set_new: "map_of d k = None \<Longrightarrow> dict_set k v d = d @ [(k, v)]"
  by (induction d) (auto split: if_splits)

lemma one_stream_prefix: "one_stream (xs @ ys) \<Longrightarrow> one_stream xs"
  unfolding one_stream_def set_append by blast

lemma newest_snoc_other:
  "newest xs x \<Longrightarrow> (\<forall>p. snd (snd y) = Some p \<longrightarrow> bar_key p \<noteq> bar_key (snd (snd x)) \<or> ts_text p \<le> ts_text (snd (snd x))) \<Longrightarrow> newest (xs @ [y]) x"
  by (cases x; cases y) (auto simp: newest_def)

lemma newest_snoc_new:
  "\<forall>s e p. (s, e, Some p) \<in> set xs \<and> bar_key p = bar_key payload \<longrightarrow> ts_text p \<le> ts_text payload
   \<Longrightarrow> newest (xs @ [(stream, entry, Some payload)]) (entry, stream, payload)"
  by (auto simp: newest_def)

lemma selection_okD:
  assumes "selection_ok xs (acks, sel)"
  shows "distinct (map fst sel)" "map_of sel k = Some y \<Longrightarrow> k = bar_key (snd (snd y))" "map_of sel k = Some y \<Longrightarrow> newest xs y"
    "(s, e, Some p) \<in> set xs \<Longrightarrow> map_of sel (bar_key p) \<noteq> None"
    "mset (map snd acks) + mset (map snd (chosen sel)) = mset (map (\<lambda>(s, e, p). e) xs)"
    "one_stream xs \<Longrightarrow> mset acks + mset (chosen sel) = mset (map (\<lambda>(s, e, p). (s, e)) xs)"
proof -
  note c = assms [unfolded selection_ok_def prod.case]
  show "distinct (map fst sel)" by (rule conjunct1 [OF c])
  show "map_of sel k = Some y \<Longrightarrow> k = bar_key (snd (snd y))" "map_of sel k = Some y \<Longrightarrow> newest xs y"
    using conjunct1 [OF conjunct2 [OF c], rule_format, of k y] by blast+
  show "(s, e, Some p) \<in> set xs \<Longrightarrow> map_of sel (bar_key p) \<noteq> None"
    by (rule conjunct1 [OF conjunct2 [OF conjunct2 [OF c]], rule_format])
  show "mset (map snd acks) + mset (map snd (chosen sel)) = mset (map (\<lambda>(s, e, p). e) xs)"
    by (rule conjunct1 [OF conjunct2 [OF conjunct2 [OF conjunct2 [OF c]]]])
  show "one_stream xs \<Longrightarrow> mset acks + mset (chosen sel) = mset (map (\<lambda>(s, e, p). (s, e)) xs)"
    by (rule conjunct2 [OF conjunct2 [OF conjunct2 [OF conjunct2 [OF c]]], rule_format])
qed

lemma selection_okI:
  assumes "distinct (map fst sel)" "\<And>k y. map_of sel k = Some y \<Longrightarrow> k = bar_key (snd (snd y)) \<and> newest xs y"
    "\<And>s e p. (s, e, Some p) \<in> set xs \<Longrightarrow> map_of sel (bar_key p) \<noteq> None"
    "mset (map snd acks) + mset (map snd (chosen sel)) = mset (map (\<lambda>(s, e, p). e) xs)"
    "one_stream xs \<Longrightarrow> mset acks + mset (chosen sel) = mset (map (\<lambda>(s, e, p). (s, e)) xs)"
  shows "selection_ok xs (acks, sel)"
  using assms unfolding selection_ok_def prod.case by simp

lemma selection_step:
  assumes "selection_ok xs (acks, sel)"
  shows "selection_ok (xs @ [x]) (select_entry (acks, sel) x)"
proof -
  obtain stream entry p where x: "x = (stream, entry, p)" by (cases x)
  note ok = selection_okD [OF assms]
  note pre = one_stream_prefix [of xs "[x]"]
  have skip: "selection_ok (xs @ [x]) (acks @ [(stream, entry)], sel)"
    if "\<And>k y. map_of sel k = Some y \<Longrightarrow> newest (xs @ [x]) y" "\<And>q. p = Some q \<Longrightarrow> map_of sel (bar_key q) \<noteq> None"
  proof (rule selection_okI [OF ok(1)])
    show "k = bar_key (snd (snd y)) \<and> newest (xs @ [x]) y" if "map_of sel k = Some y" for k y
      using ok(2) [OF that] \<open>\<And>k y. map_of sel k = Some y \<Longrightarrow> newest (xs @ [x]) y\<close> [OF that] by simp
    show "map_of sel (bar_key q) \<noteq> None" if "(s, e, Some q) \<in> set (xs @ [x])" for s e q
      using that ok(4) [of s e q] \<open>\<And>q. p = Some q \<Longrightarrow> map_of sel (bar_key q) \<noteq> None\<close> [of q] by (auto simp: x)
    show "mset (map snd (acks @ [(stream, entry)])) + mset (map snd (chosen sel)) = mset (map (\<lambda>(s, e, p). e) (xs @ [x]))"
      using ok(5) by (simp add: x)
    show "mset (acks @ [(stream, entry)]) + mset (chosen sel) = mset (map (\<lambda>(s, e, p). (s, e)) (xs @ [x]))" if "one_stream (xs @ [x])"
      using ok(6) [OF pre [OF that]] by (simp add: x)
  qed
  show ?thesis
  proof (cases p)
    case None
    have "newest (xs @ [x]) y" if "map_of sel k = Some y" for k y
      by (rule newest_snoc_other [OF ok(3) [OF that]]) (simp add: x None)
    then show ?thesis using skip by (simp add: x None)
  next
    case (Some payload)
    let ?k = "bar_key payload"
    have sel': "selection_ok (xs @ [x]) (acks', dict_set ?k (entry, stream, payload) sel)"
      if t: "\<And>s e q. (s, e, Some q) \<in> set xs \<Longrightarrow> bar_key q = ?k \<Longrightarrow> ts_text q \<le> ts_text payload"
        and m: "mset (map snd acks') + mset (map snd (chosen (dict_set ?k (entry, stream, payload) sel))) = mset (map (\<lambda>(s, e, p). e) (xs @ [x]))"
        and q: "one_stream (xs @ [x]) \<Longrightarrow> mset acks' + mset (chosen (dict_set ?k (entry, stream, payload) sel)) = mset (map (\<lambda>(s, e, p). (s, e)) (xs @ [x]))"
      for acks'
    proof (rule selection_okI [OF distinct_dict_set [OF ok(1)] _ _ m q])
      show "k = bar_key (snd (snd y)) \<and> newest (xs @ [x]) y" if "map_of (dict_set ?k (entry, stream, payload) sel) k = Some y" for k y
      proof (cases "k = ?k")
        case True
        have "newest (xs @ [x]) (entry, stream, payload)" unfolding x Some by (rule newest_snoc_new) (use t in blast)
        with that True have "y = (entry, stream, payload)" by simp
        with \<open>newest (xs @ [x]) (entry, stream, payload)\<close> True show ?thesis by simp
      next
        case False
        then have y: "map_of sel k = Some y" using that by simp
        have "newest (xs @ [x]) y" by (rule newest_snoc_other [OF ok(3) [OF y]]) (use ok(2) [OF y] False in \<open>simp add: x Some\<close>)
        then show ?thesis using ok(2) [OF y] by simp
      qed
      show "map_of (dict_set ?k (entry, stream, payload) sel) (bar_key q) \<noteq> None" if "(s, e, Some q) \<in> set (xs @ [x])" for s e q
        using that ok(4) [of s e q] by (auto simp: x Some)
    qed
    show ?thesis
    proof (cases "map_of sel ?k")
      case None
      have "bar_key q \<noteq> ?k" if "(s, e, Some q) \<in> set xs" for s e q using ok(4) [OF that] None by auto
      then have "selection_ok (xs @ [x]) (acks, dict_set ?k (entry, stream, payload) sel)"
        using ok(5,6) pre by (intro sel') (auto simp: dict_set_new [OF None] chosen_def x)
      then show ?thesis by (simp add: x Some None Let_def)
    next
      case old: (Some y)
      obtain entry0 stream0 payload0 where y: "y = (entry0, stream0, payload0)" by (cases y)
      have n: "newest xs (entry0, stream0, payload0)" "bar_key payload0 = ?k" using ok(2,3) [OF old] by (simp_all add: y)
      show ?thesis
      proof (cases "ts_text payload0 \<le> ts_text payload")
        case True
        obtain us vs where s: "sel = us @ (?k, y) # vs" "dict_set ?k (entry, stream, payload) sel = us @ (?k, entry, stream, payload) # vs"
          using dict_set_split [OF ok(1) old] by blast
        have "selection_ok (xs @ [x]) (acks @ [(stream, entry0)], dict_set ?k (entry, stream, payload) sel)"
        proof (rule sel')
          show "ts_text q \<le> ts_text payload" if "(s, e, Some q) \<in> set xs" "bar_key q = ?k" for s e q
            using n that True by (auto simp: newest_def intro: order_trans)
          show "mset (map snd (acks @ [(stream, entry0)])) + mset (map snd (chosen (dict_set ?k (entry, stream, payload) sel))) = mset (map (\<lambda>(s, e, p). e) (xs @ [x]))"
            using ok(5) [unfolded s(1)] unfolding s(2) by (simp add: y chosen_def x)
          assume one: "one_stream (xs @ [x])"
          have "(stream0, entry0, Some payload0) \<in> set (xs @ [x])" "(stream, entry, Some payload) \<in> set (xs @ [x])"
            using n(1) by (simp_all add: newest_def x Some)
          with one n(2) have "stream0 = stream" unfolding one_stream_def by blast
          then show "mset (acks @ [(stream, entry0)]) + mset (chosen (dict_set ?k (entry, stream, payload) sel)) = mset (map (\<lambda>(s, e, p). (s, e)) (xs @ [x]))"
            using ok(6) [OF pre [OF one], unfolded s(1)] unfolding s(2) by (simp add: y chosen_def x)
        qed
        then show ?thesis using True by (simp add: x Some old y Let_def)
      next
        case False
        have "newest (xs @ [x]) z" if z: "map_of sel k = Some z" for k z
        proof (rule newest_snoc_other [OF ok(3) [OF z]], intro allI impI)
          fix q assume "snd (snd x) = Some q"
          then have "q = payload" by (simp add: x Some)
          then show "bar_key q \<noteq> bar_key (snd (snd z)) \<or> ts_text q \<le> ts_text (snd (snd z))"
            using False old z ok(2) [OF z] by (auto simp: y)
        qed
        then show ?thesis using skip False by (simp add: x Some old y Let_def)
      qed
    qed
  qed
qed

lemma select_bars_ok: "selection_ok entries (select_bars entries)"
proof (induction entries rule: rev_induct)
  case Nil
  show ?case by (simp add: select_bars_def selection_ok_def chosen_def)
next
  case (snoc x xs)
  obtain acks sel where s: "select_bars xs = (acks, sel)" by fastforce
  with snoc selection_step [of xs acks sel x] show ?case by (simp add: select_bars_def)
qed

lemma process_bar_rows:
  assumes "process_bar agents parse_ts lookback env payload rows = (w, rows', evs)"
  shows "take (length rows) rows' = rows" "signals_ok rows \<Longrightarrow> signals_ok rows'"
    "rows' = rows \<and> evs = [] \<and> w = None \<or> (\<exists>ts tf sigs n. parse_ts (field payload ''ts'') = Some ts \<and> parse_timeframe (field payload ''timeframe'') = Some tf
      \<and> analyze_all (ag_clock env) 0 (bar_context env lookback (upper (field payload ''symbol'')) tf ts) agents = Inr sigs
      \<and> save_signals sigs rows = (n, rows'))"
proof -
  have c: "rows' = rows \<and> evs = [] \<and> w = None \<or> (\<exists>ts tf sigs n. parse_ts (field payload ''ts'') = Some ts \<and> parse_timeframe (field payload ''timeframe'') = Some tf
      \<and> analyze_all (ag_clock env) 0 (bar_context env lookback (upper (field payload ''symbol'')) tf ts) agents = Inr sigs
      \<and> save_signals sigs rows = (n, rows'))"
    using assms unfolding process_bar_def by (simp split: option.splits sum.splits prod.splits)
  then show "rows' = rows \<and> evs = [] \<and> w = None \<or> (\<exists>ts tf sigs n. parse_ts (field payload ''ts'') = Some ts \<and> parse_timeframe (field payload ''timeframe'') = Some tf
      \<and> analyze_all (ag_clock env) 0 (bar_context env lookback (upper (field payload ''symbol'')) tf ts) agents = Inr sigs
      \<and> save_signals sigs rows = (n, rows'))" .
  from c show "take (length rows) rows' = rows" "signals_ok rows \<Longrightarrow> signals_ok rows'"
    using save_signals_keys by (auto simp: take_all_iff)
qed

lemma process_selected_exact:
  assumes "process_selected agents parse_ts lookback envs n sel (b, acks, rows, evs) = (b', acks', rows', evs')"
  shows "acks' = acks @ chosen sel \<and> gb_processed b' + gb_errors b' = gb_processed b + gb_errors b + length sel
    \<and> gb_skipped_stale b' = gb_skipped_stale b \<and> take (length rows) rows' = rows \<and> (signals_ok rows \<longrightarrow> signals_ok rows')"
  using assms
proof (induction sel arbitrary: n b acks rows evs)
  case Nil
  then show ?case by (simp add: chosen_def)
next
  case (Cons x sel)
  obtain key entry stream payload where x: "x = (key, entry, stream, payload)" by (cases x)
  obtain w rows1 new where p: "process_bar agents parse_ts lookback (envs n) payload rows = (w, rows1, new)" by (metis prod_cases3)
  define b1 where "b1 = (case w of None \<Rightarrow> b\<lparr>gb_errors := gb_errors b + 1\<rparr>
            | Some k \<Rightarrow> b\<lparr>gb_signals_written := gb_signals_written b + k, gb_processed := gb_processed b + 1\<rparr>)"
  have r: "process_selected agents parse_ts lookback envs (Suc n) sel (b1, acks @ [(stream, entry)], rows1, evs @ new) = (b', acks', rows', evs')"
    using Cons.prems by (simp add: x p b1_def)
  note ih = Cons.IH [OF r]
  have t: "take (length rows) rows1 = rows" "signals_ok rows \<longrightarrow> signals_ok rows1" using process_bar_rows(1,2) [OF p] by simp_all
  have "length rows \<le> length rows1" using t(1) by (metis length_take min.cobounded1)
  then have "take (length rows) rows' = take (length rows) (take (length rows1) rows')" by simp
  also have "\<dots> = rows" using ih t(1) by simp
  finally have "take (length rows) rows' = rows" .
  moreover have "gb_processed b1 + gb_errors b1 = gb_processed b + gb_errors b + 1" "gb_skipped_stale b1 = gb_skipped_stale b"
    by (simp_all add: b1_def split: option.split)
  ultimately show ?case using ih t(2) by (simp add: x chosen_def)
qed

text \<open>
  What the analysis of one bar leaves: the agents run over the context of the symbol, timeframe and time
  the payload names, and their signals are stored and published; a payload without a time or timeframe,
  or an agent that raises, leaves everything as it was.
\<close>

definition bar_outcome ::
  "live_agent list \<Rightarrow> (string \<Rightarrow> datetime option) \<Rightarrow> nat \<Rightarrow> agent_env \<Rightarrow> (string \<times> string) list \<Rightarrow> signal_row list
   \<Rightarrow> signal_row list \<Rightarrow> event list \<Rightarrow> bool" where
  "bar_outcome agents parse_ts lookback env p rows rows' evs =
     (case (parse_ts (field p ''ts''), parse_timeframe (field p ''timeframe'')) of
        (Some ts, Some tf) \<Rightarrow>
          (case analyze_all (ag_clock env) 0 (bar_context env lookback (upper (field p ''symbol'')) tf ts) agents of
             Inr sigs \<Rightarrow> rows' = snd (save_signals sigs rows) \<and> evs = fst (publish_signals env (length agents) sigs)
           | Inl e \<Rightarrow> rows' = rows \<and> evs = [])
      | _ \<Rightarrow> rows' = rows \<and> evs = [])"

lemma process_bar_outcome:
  "process_bar agents parse_ts lookback env p rows = (w, rows', evs) \<Longrightarrow> bar_outcome agents parse_ts lookback env p rows rows' evs"
  unfolding process_bar_def bar_outcome_def by (auto split: option.splits sum.splits prod.splits)

lemma process_selected_outcomes:
  assumes "process_selected agents parse_ts lookback envs n sel (b, acks, rows, evs) = (b', acks', rows', evs')"
  shows "\<exists>tabs evss. length tabs = Suc (length sel) \<and> length evss = length sel \<and> hd tabs = rows \<and> List.last tabs = rows'
    \<and> evs' = evs @ concat evss
    \<and> (\<forall>i<length sel. bar_outcome agents parse_ts lookback (envs (n + i)) (snd (snd (snd (sel ! i)))) (tabs ! i) (tabs ! Suc i) (evss ! i))"
  using assms
proof (induction sel arbitrary: n b acks rows evs)
  case Nil
  then show ?case by (intro exI [of _ "[rows]"] exI [of _ "[]"]) simp
next
  case (Cons x sel)
  obtain key entry stream payload where x: "x = (key, entry, stream, payload)" by (cases x)
  obtain w rows1 new where p: "process_bar agents parse_ts lookback (envs n) payload rows = (w, rows1, new)" by (metis prod_cases3)
  define b1 where "b1 = (case w of None \<Rightarrow> b\<lparr>gb_errors := gb_errors b + 1\<rparr>
            | Some k \<Rightarrow> b\<lparr>gb_signals_written := gb_signals_written b + k, gb_processed := gb_processed b + 1\<rparr>)"
  have r: "process_selected agents parse_ts lookback envs (Suc n) sel (b1, acks @ [(stream, entry)], rows1, evs @ new) = (b', acks', rows', evs')"
    using Cons.prems by (simp add: x p b1_def)
  obtain tabs evss where t: "length tabs = Suc (length sel)" "length evss = length sel" "hd tabs = rows1" "List.last tabs = rows'"
    "evs' = (evs @ new) @ concat evss"
    "\<forall>i<length sel. bar_outcome agents parse_ts lookback (envs (Suc n + i)) (snd (snd (snd (sel ! i)))) (tabs ! i) (tabs ! Suc i) (evss ! i)"
    using Cons.IH [OF r] by (elim exE conjE)
  have t0: "tabs \<noteq> []" using t(1) by auto
  then have "tabs ! 0 = rows1" using t(3) by (simp add: hd_conv_nth)
  note t0 = t0 this
  have o: "bar_outcome agents parse_ts lookback (envs (n + i)) (snd (snd (snd ((x # sel) ! i)))) ((rows # tabs) ! i) ((rows # tabs) ! Suc i) ((new # evss) ! i)"
    if "i < length (x # sel)" for i
    using that t(6) t0 process_bar_outcome [OF p] by (cases i) (simp_all add: x)
  show ?case using t(1,2,4,5) t0 o by (intro exI [of _ "rows # tabs"] exI [of _ "new # evss"]) simp
qed


section \<open>The bars the agents see\<close>

lemma take_sort_key_later:
  fixes f :: "'a \<Rightarrow> 'b :: linorder"
  assumes "n \<le> length xs" "\<forall>x\<in>set xs. \<forall>y\<in>set ys. f x < f y"
  shows "take n (sort_key f (xs @ ys)) = take n (sort_key f xs)"
proof -
  have "sort_key f (xs @ ys) = sort_key f xs @ sort_key f ys"
  proof (rule properties_for_sort_key)
    show "mset (sort_key f xs @ sort_key f ys) = mset (xs @ ys)" by simp
    show "sorted (map f (sort_key f xs @ sort_key f ys))"
      using assms(2) by (auto simp: sorted_append intro: less_imp_le)
    fix k assume "k \<in> set (sort_key f xs @ sort_key f ys)"
    show "filter (\<lambda>x. f k = f x) (sort_key f xs @ sort_key f ys) = filter (\<lambda>x. f k = f x) (xs @ ys)"
      using sort_key_stable [of f "f k" xs] sort_key_stable [of f "f k" ys] by (simp add: eq_commute [of "f k"])
  qed
  then show ?thesis using assms(1) by simp
qed


section \<open>Concrete batches\<close>

definition demo_market :: "nat \<Rightarrow> market" where
  "demo_market n = \<lparr>instruments = [\<lparr>i_id = 1, i_symbol = ''EURUSD'', i_base = ''EUR'', i_quote = ''USD'', i_pip_size = 1 / 10000,
       i_price_decimals = 5, i_active = True\<rparr>],
     candle_rows = map (\<lambda>i. \<lparr>k_instrument_id = 1, k_timeframe = H1, k_ts = int i * seconds_td 3600, k_open = 1, k_high = 2, k_low = 1,
       k_close = 2, k_volume = 0, k_source = ''demo'', k_complete = True, k_tf_minutes = 60\<rparr>) [0..<n]\<rparr>"

definition demo_agent_env :: "nat \<Rightarrow> agent_env" where
  "demo_agent_env n = \<lparr>ag_run_id = ''run'', ag_new_id = 2, ag_clock = (\<lambda>_. 0), ag_market = demo_market n, ag_news = [], ag_events = [],
     ag_publish = (\<lambda>_. True)\<rparr>"

definition demo_bar :: "string \<Rightarrow> (string \<times> string) list" where
  "demo_bar t = [(''symbol'', ''EURUSD''), (''timeframe'', ''H1''), (''ts'', t)]"



end
