(* ===== verification/SystemRuns.thy ===== *)
theory SystemRuns
  imports AgentWorker OrchestratorRuns BacktestRuns
begin

text \<open>
  Agents, decision engine and orchestrator together: the signals the agent worker stores are the ones the
  engine reads, its decisions the ones the orchestrator turns into orders. Any other process may change
  the market, the risk settings and the risk state, but only the agent worker writes signals.
\<close>

section \<open>What the shipped agents store\<close>

text \<open>No stored technical signal has \<^verbatim>\<open>atr14\<close> where the engine looks for it.\<close>

definition no_top_atr :: "signal_row list \<Rightarrow> bool" where
  "no_top_atr rows = (\<forall>r\<in>set rows. g_agent_id r = ''technical'' \<longrightarrow> json_get (g_features r) ''atr14'' = None)"

lemma fundamental_id: "fundamental_analyze num ctx events = Inr s \<Longrightarrow> sg_agent_id s = ''fundamental''"
  by (auto simp: fundamental_analyze_def Let_def split_beta dest!: build_signal_fields)

lemma sentiment_id: "sentiment_analyze exf ctx news = Inr s \<Longrightarrow> sg_agent_id s = ''sentiment''"
  by (auto simp: sentiment_analyze_def Let_def split_beta dest!: build_signal_fields)

lemma shipped_signal:
  assumes "a \<in> set (shipped_agents P num exf)" "a ctx = Inr s" "sg_agent_id s = ''technical''"
  shows "json_get (sg_features s) ''atr14'' = None"
proof -
  from assms(1) consider "a = (\<lambda>ctx. technical_analyze P (bt_context.truncate ctx))" | "a = (\<lambda>ctx. regime_analyze P (bt_context.truncate ctx))"
    | "a = (\<lambda>ctx. fundamental_analyze num (analysis_context.truncate ctx) (ctx_events ctx))"
    | "a = (\<lambda>ctx. sentiment_analyze exf (analysis_context.truncate ctx) (ctx_news ctx))"
    unfolding shipped_agents_def by auto
  then show ?thesis
  proof cases
    case 1
    then show ?thesis using assms(2) technical_no_atr(2) by blast
  next
    case 2
    then show ?thesis using regime_flat [of P "bt_context.truncate ctx" s] assms(2,3) by simp
  next
    case 3
    then show ?thesis using fundamental_id [of num "analysis_context.truncate ctx" "ctx_events ctx" s] assms(2,3) by simp
  next
    case 4
    then show ?thesis using sentiment_id [of exf "analysis_context.truncate ctx" "ctx_news ctx" s] assms(2,3) by simp
  qed
qed

lemma analyze_all_signals:
  assumes "analyze_all clock k ctx as = Inr sigs" "set as \<subseteq> set (shipped_agents P num exf)"
  shows "\<forall>s\<in>set sigs. sg_agent_id s = ''technical'' \<longrightarrow> json_get (sg_features s) ''atr14'' = None"
  using assms
proof (induction as arbitrary: k sigs)
  case (Cons a as)
  obtain s ss where s: "a (ctx\<lparr>ctx_now := clock k\<rparr>) = Inr s" "analyze_all clock (Suc k) ctx as = Inr ss" "sigs = s # ss"
    using Cons.prems(1) by (auto split: sum.splits)
  have "sg_agent_id s = ''technical'' \<longrightarrow> json_get (sg_features s) ''atr14'' = None"
    using shipped_signal [of a P num exf, OF _ s(1)] Cons.prems(2) by simp
  with Cons.IH [OF s(2)] Cons.prems(2) show ?case by (simp add: s(3))
qed simp

lemma save_signals_rows:
  "save_signals ss rows = (n, rows') \<Longrightarrow> set rows' \<subseteq> set rows \<union> to_row_values ` set ss"
proof (induction ss arbitrary: rows n)
  case (Cons s ss)
  obtain ins rows1 m where i: "insert_signal (to_row_values s) rows = (ins, rows1)" "save_signals ss rows1 = (m, rows')"
    using Cons.prems by (auto simp: Let_def split: prod.splits)
  have "set rows1 \<subseteq> insert (to_row_values s) (set rows)" using i(1) by (auto simp: insert_signal_def split: if_splits)
  with Cons.IH [OF i(2)] show ?case by auto
qed simp

lemma process_bar_atr:
  assumes "no_top_atr rows" "process_bar (shipped_agents P num exf) parse_ts lookback env payload rows = (w, rows', evs)"
  shows "no_top_atr rows'"
proof (cases "rows' = rows")
  case False
  then obtain ts tf sigs n where
    a: "analyze_all (ag_clock env) 0 (bar_context env lookback (upper (field payload ''symbol'')) tf ts) (shipped_agents P num exf) = Inr sigs"
    and s: "save_signals sigs rows = (n, rows')"
    using process_bar_rows(3) [OF assms(2)] by blast
  have k: "\<forall>s\<in>set sigs. g_agent_id (to_row_values s) = ''technical'' \<longrightarrow> json_get (g_features (to_row_values s)) ''atr14'' = None"
    using analyze_all_signals [OF a order_refl] by (simp add: to_row_values_def)
  show ?thesis unfolding no_top_atr_def
  proof
    fix r assume "r \<in> set rows'"
    with save_signals_rows [OF s] consider "r \<in> set rows" | x where "x \<in> set sigs" "r = to_row_values x" by blast
    then show "g_agent_id r = ''technical'' \<longrightarrow> json_get (g_features r) ''atr14'' = None"
      using assms(1) k unfolding no_top_atr_def by cases simp_all
  qed
qed (use assms(1) in simp)

section \<open>The system\<close>

inductive system_step ::
  "pandas \<Rightarrow> (string \<Rightarrow> f64 option) \<Rightarrow> (f64 \<Rightarrow> f64) \<Rightarrow> (string \<Rightarrow> datetime option) \<Rightarrow> hash \<Rightarrow> orch_settings \<Rightarrow> world \<Rightarrow> world \<Rightarrow> bool"
  for P num exf parse_ts H cfg where
  bar: "process_bar (shipped_agents P num exf) parse_ts LOOKBACK_BARS env payload (db_signals (w_db w)) = (n, sg, evs)
    \<Longrightarrow> system_step P num exf parse_ts H cfg w (w\<lparr>w_db := (w_db w)\<lparr>db_signals := sg\<rparr>\<rparr>)"
| pair: "process_pair cfg env symbol timeframe w = Inr (res, w')
    \<Longrightarrow> en_ids env 1 \<notin> dr_id ` set (db_decisions (w_db w)) \<Longrightarrow> oe_order_id env \<notin> o_id ` set (orders (w_ledger w))
    \<Longrightarrow> system_step P num exf parse_ts H cfg w w'"
| cycle: "process_lifecycle H cfg env w = (r, w') \<Longrightarrow> cycle_fresh env w \<Longrightarrow> system_step P num exf parse_ts H cfg w w'"
| feed: "system_step P num exf parse_ts H cfg w (w\<lparr>w_db := (w_db w)\<lparr>db_market := m, db_risk_setting := s, db_risk_state := rs\<rparr>\<rparr>)"

inductive system_reachable ::
  "pandas \<Rightarrow> (string \<Rightarrow> f64 option) \<Rightarrow> (f64 \<Rightarrow> f64) \<Rightarrow> (string \<Rightarrow> datetime option) \<Rightarrow> hash \<Rightarrow> orch_settings \<Rightarrow> world \<Rightarrow> bool"
  for P num exf parse_ts H cfg where
  start: "db_decisions db = [] \<Longrightarrow> db_evaluations db = [] \<Longrightarrow> db_signals db = []
    \<Longrightarrow> system_reachable P num exf parse_ts H cfg \<lparr>w_db = db, w_ledger = empty_store\<rparr>"
| step: "system_reachable P num exf parse_ts H cfg w \<Longrightarrow> system_step P num exf parse_ts H cfg w w'
    \<Longrightarrow> system_reachable P num exf parse_ts H cfg w'"

lemma system_step_orch: "system_step P num exf parse_ts H cfg w w' \<Longrightarrow> orch_step H cfg w w'"
proof (induction rule: system_step.induct)
  case (bar env payload w n sg evs)
  have "w\<lparr>w_db := (w_db w)\<lparr>db_signals := sg\<rparr>\<rparr> = w\<lparr>w_db := (w_db w)\<lparr>db_signals := sg, db_market := db_market (w_db w),
      db_risk_setting := db_risk_setting (w_db w), db_risk_state := db_risk_state (w_db w)\<rparr>\<rparr>" by simp
  then show ?case by (metis orch_step.feed)
next
  case (pair env symbol timeframe w res w')
  then show ?case by (rule orch_step.pair)
next
  case (cycle env w r w')
  then show ?case by (rule orch_step.cycle)
next
  case (feed w rs s m)
  have "w\<lparr>w_db := (w_db w)\<lparr>db_market := m, db_risk_setting := s, db_risk_state := rs\<rparr>\<rparr>
    = w\<lparr>w_db := (w_db w)\<lparr>db_signals := db_signals (w_db w), db_market := m, db_risk_setting := s, db_risk_state := rs\<rparr>\<rparr>" by simp
  then show ?case by (metis orch_step.feed)
qed

lemma system_reachable_orch: "system_reachable P num exf parse_ts H cfg w \<Longrightarrow> orch_reachable H cfg w"
proof (induction rule: system_reachable.induct)
  case (start db)
  then show ?case by (intro orch_reachable.start)
next
  case (step w w')
  then show ?case by (intro orch_reachable.step [OF step.IH] system_step_orch)
qed

definition no_paper :: "world \<Rightarrow> bool" where
  "no_paper w = (no_top_atr (db_signals (w_db w)) \<and> (\<forall>d\<in>set (db_decisions (w_db w)). dr_status d \<noteq> PAPER))"

lemma no_paper_pair:
  assumes "no_paper w" "process_pair cfg env symbol timeframe w = Inr (res, w')"
  shows "no_paper w'"
proof (cases "w' = w")
  case False
  then obtain tf r risk gate live where d: "decide (engine_env.truncate env) (upper symbol) tf (os_timeframes cfg) (os_orch cfg) risk gate live (w_db w) = Inr (r, w_db w')"
    using process_pair_Some [OF assms(2)] by blast
  have "rz_status r \<noteq> Some PAPER" by (rule decide_no_atr [OF _ d]) (use assms(1) in \<open>simp add: no_paper_def no_top_atr_def\<close>)
  then have "\<forall>x\<in>set (db_decisions (w_db w')). dr_status x \<noteq> PAPER"
    using decide_rows(3,5) [OF d] assms(1) by (cases "rz_created r") (auto simp: no_paper_def)
  with decide_rows(1) [OF d] assms(1) show ?thesis by (simp add: no_paper_def)
qed (use assms in simp)

lemma no_paper_reachable: "system_reachable P num exf parse_ts H cfg w \<Longrightarrow> no_paper w"
proof (induction rule: system_reachable.induct)
  case (start db)
  then show ?case by (simp add: no_paper_def no_top_atr_def)
next
  case (step w w')
  have ok: "world_ok w" by (rule world_ok_reachable [OF system_reachable_orch [OF step.hyps(1)]])
  from step.hyps(2) step.IH ok show ?case
  proof (induction rule: system_step.induct)
    case (bar env payload w n sg evs)
    then show ?case using process_bar_atr [OF _ bar(1)] by (simp add: no_paper_def)
  next
    case (pair env symbol timeframe w res w')
    then show ?case using no_paper_pair by blast
  next
    case (cycle env w r w')
    obtain A where "keeps_world A w w'" using keeps_process_lifecycle(1) [OF world_okD(1) [OF cycle(4)] cycle(2,1)] by (elim exE)
    then obtain m where "w_db w' = (w_db w)\<lparr>db_market := m\<rparr>" unfolding keeps_world_def by blast
    then show ?case using cycle(3) by (simp add: no_paper_def)
  next
    case (feed w m s rs)
    then show ?case by (simp add: no_paper_def)
  qed
qed

text \<open>
  C26. The shipped system never trades. From an empty database, whatever bars, news and events arrive, in
  whatever order agents, engine and orchestrator run, whatever the market does and whichever risk settings
  are made: with the registered agents no decision is ever PAPER and no paper order ever exists. The
  technical agent files its \<^verbatim>\<open>atr14\<close> one level deeper than the engine reads it.
\<close>

theorem system_never_trades:
  assumes "system_reachable P num exf parse_ts H cfg w"
  shows "orders (w_ledger w) = [] \<and> (\<forall>d\<in>set (db_decisions (w_db w)). dr_status d \<noteq> PAPER)"
proof -
  have n: "\<forall>d\<in>set (db_decisions (w_db w)). dr_status d \<noteq> PAPER" using no_paper_reachable [OF assms] by (simp add: no_paper_def)
  have "ord \<notin> set (orders (w_ledger w))" for ord
  proof
    assume "ord \<in> set (orders (w_ledger w))"
    from world_okD(5) [OF world_ok_reachable [OF system_reachable_orch [OF assms]] this] n show False
      by (auto simp: sponsors_def)
  qed
  then have "orders (w_ledger w) = []" by (cases "orders (w_ledger w)") auto
  with n show ?thesis by blast
qed

section \<open>The shipped agents never raise\<close>

lemma built: 
  assumes "length (ctx_symbol ctx) = 6" "1 \<le> length a" "length a \<le> 32"
  shows "\<exists>s. build_signal a ''1'' ctx d c r f = Inr s \<and> sg_agent_id s = a"
  using assms by (auto simp: build_signal_def validate_signal_def)

lemma regime_total: "length (ctx_symbol ctx) = 6 \<Longrightarrow> \<exists>s. regime_analyze P ctx = Inr s \<and> sg_agent_id s = ''regime''"
  using built [of "analysis_context.truncate ctx" "''regime''"]
  by (simp add: regime_analyze_def Let_def analysis_context.defs split_beta split: option.split)

lemma technical_total: "length (ctx_symbol ctx) = 6 \<Longrightarrow> \<exists>s. technical_analyze P ctx = Inr s \<and> sg_agent_id s = ''technical''"
  using built [of "analysis_context.truncate ctx" "''technical''"]
  by (simp add: technical_analyze_def Let_def analysis_context.defs)

lemma fundamental_total: "length (ctx_symbol ctx) = 6 \<Longrightarrow> \<exists>s. fundamental_analyze num ctx events = Inr s \<and> sg_agent_id s = ''fundamental''"
  using built [of ctx "''fundamental''"] by (simp add: fundamental_analyze_def Let_def split_beta)

lemma sentiment_total: "length (ctx_symbol ctx) = 6 \<Longrightarrow> \<exists>s. sentiment_analyze exf ctx news = Inr s \<and> sg_agent_id s = ''sentiment''"
  using built [of ctx "''sentiment''"] by (simp add: sentiment_analyze_def Let_def split_beta)

lemma shipped_total:
  fixes ctx :: live_context
  assumes "length (ctx_symbol ctx) = 6"
  shows "\<exists>s1 s2 s3 s4. analyze_all clock k ctx (shipped_agents P num exf) = Inr [s1, s2, s3, s4] \<and> sg_agent_id s1 = ''technical''
    \<and> sg_agent_id s2 = ''regime'' \<and> sg_agent_id s3 = ''fundamental'' \<and> sg_agent_id s4 = ''sentiment''"
proof -
  define c where "c n = ctx\<lparr>ctx_now := clock n\<rparr>" for n
  have l: "length (ctx_symbol (bt_context.truncate (c n))) = 6" "length (ctx_symbol (analysis_context.truncate (c n))) = 6" for n
    using assms by (simp_all add: c_def bt_context.defs analysis_context.defs)
  obtain s1 where 1: "technical_analyze P (bt_context.truncate (c k)) = Inr s1" "sg_agent_id s1 = ''technical''"
    using technical_total [OF l(1)] by blast
  obtain s2 where 2: "regime_analyze P (bt_context.truncate (c (Suc k))) = Inr s2" "sg_agent_id s2 = ''regime''"
    using regime_total [OF l(1)] by blast
  obtain s3 where 3: "fundamental_analyze num (analysis_context.truncate (c (Suc (Suc k)))) (ctx_events (c (Suc (Suc k)))) = Inr s3" "sg_agent_id s3 = ''fundamental''"
    using fundamental_total [OF l(2)] by blast
  obtain s4 where 4: "sentiment_analyze exf (analysis_context.truncate (c (Suc (Suc (Suc k))))) (ctx_news (c (Suc (Suc (Suc k))))) = Inr s4" "sg_agent_id s4 = ''sentiment''"
    using sentiment_total [OF l(2)] by blast
  show ?thesis using 1 2 3 4 by (simp add: shipped_agents_def c_def)
qed

lemma process_bar_table:
  "parse_ts (field payload ''ts'') = Some ts \<Longrightarrow> parse_timeframe (field payload ''timeframe'') = Some tf
   \<Longrightarrow> analyze_all (ag_clock env) 0 (bar_context env lookback (upper (field payload ''symbol'')) tf ts) agents = Inr sigs
   \<Longrightarrow> fst (snd (process_bar agents parse_ts lookback env payload rows)) = snd (save_signals sigs rows)"
  by (simp add: process_bar_def split_beta Let_def)

theorem system_never_trades_witness:
  "\<forall>H cfg. \<exists>db. system_reachable demo_pandas (\<lambda>_. None) (\<lambda>_. 1) (\<lambda>_. Some 0) H cfg \<lparr>w_db = db, w_ledger = empty_store\<rparr>
    \<and> length (db_signals db) = 4 \<and> orders (w_ledger \<lparr>w_db = db, w_ledger = empty_store\<rparr>) = []"
proof (intro allI)
  fix H cfg
  let ?as = "shipped_agents demo_pandas (\<lambda>_. None) (\<lambda>_. 1)" and ?e = "demo_agent_env 3"
  let ?db = "(example_db [])\<lparr>db_signals := [], db_decisions := [], db_evaluations := []\<rparr>"
  have u: "upper (field (demo_bar ''2025'') ''symbol'') = ''EURUSD''" "parse_timeframe (field (demo_bar ''2025'') ''timeframe'') = Some H1" by code_simp+
  have "length (ctx_symbol (bar_context ?e LOOKBACK_BARS ''EURUSD'' H1 0)) = 6" by (simp add: bar_context_def split_beta Let_def)
  from shipped_total [OF this, of "ag_clock ?e" 0 demo_pandas "\<lambda>_. None" "\<lambda>_. 1"] obtain s1 s2 s3 s4 where
    a: "analyze_all (ag_clock ?e) 0 (bar_context ?e LOOKBACK_BARS ''EURUSD'' H1 0) ?as = Inr [s1, s2, s3, s4]"
    and i: "sg_agent_id s1 = ''technical''" "sg_agent_id s2 = ''regime''" "sg_agent_id s3 = ''fundamental''" "sg_agent_id s4 = ''sentiment''" by blast
  obtain n sg evs where p: "process_bar ?as (\<lambda>_. Some 0) LOOKBACK_BARS ?e (demo_bar ''2025'') [] = (n, sg, evs)" by (metis prod_cases3)
  have "sg = snd (save_signals [s1, s2, s3, s4] [])"
    using process_bar_table [where parse_ts = "\<lambda>_. Some 0" and payload = "demo_bar ''2025''" and ts = 0 and env = ?e and agents = ?as
        and rows = "[]" and lookback = LOOKBACK_BARS, OF refl u(2), unfolded u(1), OF a] p by simp
  then have len: "length sg = 4" by (auto simp: insert_signal_def signal_key_def to_row_values_def i)
  have r: "system_reachable demo_pandas (\<lambda>_. None) (\<lambda>_. 1) (\<lambda>_. Some 0) H cfg \<lparr>w_db = ?db, w_ledger = empty_store\<rparr>"
    by (rule system_reachable.start) simp_all
  have q: "process_bar ?as (\<lambda>_. Some 0) LOOKBACK_BARS ?e (demo_bar ''2025'') (db_signals (w_db \<lparr>w_db = ?db, w_ledger = empty_store\<rparr>)) = (n, sg, evs)"
    using p by simp
  from system_reachable.step [OF r system_step.bar [OF q]]
  have w: "system_reachable demo_pandas (\<lambda>_. None) (\<lambda>_. 1) (\<lambda>_. Some 0) H cfg \<lparr>w_db = ?db\<lparr>db_signals := sg\<rparr>, w_ledger = empty_store\<rparr>" by simp
  from system_never_trades [OF w] have "orders (w_ledger \<lparr>w_db = ?db\<lparr>db_signals := sg\<rparr>, w_ledger = empty_store\<rparr>) = []" by (rule conjunct1)
  with w len show "\<exists>db. system_reachable demo_pandas (\<lambda>_. None) (\<lambda>_. 1) (\<lambda>_. Some 0) H cfg \<lparr>w_db = db, w_ledger = empty_store\<rparr>
    \<and> length (db_signals db) = 4 \<and> orders (w_ledger \<lparr>w_db = db, w_ledger = empty_store\<rparr>) = []" by (intro exI [of _ "?db\<lparr>db_signals := sg\<rparr>"]) simp
qed

section \<open>The backtest of the shipped agent\<close>

text \<open>The same holds of a backtest over the technical agent: no intent, no trade, a constant equity curve.\<close>

lemma shipped_backtest_never_trades:
  assumes "be_agents env ''technical'' = technical_analyze P" "run_driver env (init_broker e seed0 costs) = Inr st"
  shows "dv_paper_intents st = 0 \<and> trades (dv_broker st) = [] \<and> (\<forall>p\<in>set (dv_equity_points st). snd p = e)"
proof -
  have "no_atr env" unfolding no_atr_def assms(1) using technical_no_atr(2) by blast
  from backtest_without_atr [OF this assms(2)] show ?thesis by (elim conjE) (intro conjI)
qed

end
