(* ===== verification/Synthetic.thy ===== *)
theory Synthetic
  imports Content MarketData
begin

text \<open>
  The deterministic providers (\<^verbatim>\<open>data/providers/synthetic.py\<close>, \<^verbatim>\<open>synthetic_content.py\<close>), the default
  source of candles, news and calendar events and the only source of a backtest. The BLAKE2b digest
  and the functions of \<^verbatim>\<open>math\<close> are parameters; epoch and instants are UTC.
\<close>

record math_lib =
  ml_exp :: "f64 \<Rightarrow> f64"
  ml_log :: "f64 \<Rightarrow> f64"
  ml_cos :: "f64 \<Rightarrow> f64"
  ml_sqrt :: "f64 \<Rightarrow> f64"

text \<open>\<^verbatim>\<open>math.pi\<close>, \<^verbatim>\<open>math.floor\<close>, \<^verbatim>\<open>int\<close> of a non-negative float, and the timedelta of a float multiple of
  a unit of \<open>u\<close> microseconds: the whole part exactly, the fraction times the unit rounded to even.\<close>

definition PI :: f64 where "PI = fl (3141592653589793 / 10 ^ 15)"

definition f64_floor :: "f64 \<Rightarrow> int" where "f64_floor x = \<lfloor>val x\<rfloor>"

definition td_float :: "int \<Rightarrow> f64 \<Rightarrow> timedelta" where
  "td_float u x = (let i = f64_floor x in rne (of_int (i * u) + val (fl (of_int u) * (x - fl (of_int i)))))"

section \<open>Candles\<close>

definition EPOCH_2024 :: datetime where "EPOCH_2024 = seconds_td 1704067200"

definition PAIR_SPECS :: "(string \<times> f64 \<times> nat) list" where
  "PAIR_SPECS = [(''EURUSD'', fl (1085/1000), 5), (''GBPUSD'', fl (127/100), 5), (''USDJPY'', fl (15525/100), 3),
     (''AUDUSD'', fl (655/1000), 5), (''USDCAD'', fl (137/100), 5), (''USDCHF'', fl (88/100), 5), (''NZDUSD'', fl (59/100), 5)]"

text \<open>Base price and decimals of a pair (\<^verbatim>\<open>PAIR_SPECS.get(pair, ..)\<close>, \<^verbatim>\<open>_PIP_DECIMALS\<close>).\<close>

definition pair_spec :: "string \<Rightarrow> f64 \<times> nat" where
  "pair_spec pair = (case map_of PAIR_SPECS pair of Some x \<Rightarrow> x | None \<Rightarrow> (fl (1085/1000), 5))"

definition OCTAVES :: "(int \<times> f64) list" where
  "OCTAVES = [(288, 1), (48, fl (55/100)), (8, fl (3/10)), (2, fl (15/100))]"

definition smooth :: "math_lib \<Rightarrow> f64 \<Rightarrow> f64" where
  "smooth M t = (1 - ml_cos M (PI * t)) / fl 2"

definition noise :: "math_lib \<Rightarrow> hash \<Rightarrow> string \<Rightarrow> int \<Rightarrow> f64 \<Rightarrow> f64" where
  "noise M H pair period x =
     (let i = f64_floor x; frac = x - fl (of_int i);
          key = (\<lambda>k. ''forex-ai|'' @ pair @ ''|'' @ show_int period @ ''|'' @ show_int k);
          a = digest H (key i); b = digest H (key (i + 1))
      in (a + (b - a) * smooth M frac) * fl 2 - 1)"

fun tf_scale :: "timeframe \<Rightarrow> f64" where
  "tf_scale M5 = fl (35/100)" | "tf_scale M15 = fl (5/10)" | "tf_scale H1 = fl (75/100)" | "tf_scale H4 = 1" | "tf_scale D1 = fl (135/100)"

definition price_at :: "math_lib \<Rightarrow> hash \<Rightarrow> string \<Rightarrow> timeframe \<Rightarrow> datetime \<Rightarrow> f64" where
  "price_at M H pair tf ts =
     (let minutes_since = td_seconds (ts - EPOCH_2024) / fl 60; amplitude_base = fl (28/10000) * tf_scale tf
      in ml_exp M (foldl (\<lambda>log_price (period, share).
           log_price + amplitude_base * share / max 1 (ml_sqrt M (fl (of_int period / 8)))
             * noise M H pair period (minutes_since / fl (of_int period))) (ml_log M (fst (pair_spec pair))) OCTAVES))"

text \<open>\<^verbatim>\<open>Decimal.quantize\<close>, half to even.\<close>

definition dec_quantize :: "nat \<Rightarrow> rat \<Rightarrow> rat" where
  "dec_quantize n x = of_int (rne (x * 10 ^ n)) / 10 ^ n"

definition quantize_price :: "string \<Rightarrow> f64 \<Rightarrow> rat" where
  "quantize_price pair value = (let n = snd (pair_spec pair) in dec_quantize n (to_dec (round_nd value n)))"

definition samples :: "math_lib \<Rightarrow> hash \<Rightarrow> string \<Rightarrow> timeframe \<Rightarrow> datetime \<Rightarrow> f64 list" where
  "samples M H symbol tf bucket =
     map (\<lambda>f. price_at M H symbol tf (bucket + td_float 1000000 (fl (of_int (tf_seconds tf)) * f))) [0, fl (1/3), fl (2/3), 1]"

text \<open>The candle before it is validated. A bucket starts at a whole second.\<close>

definition synthetic_candle :: "math_lib \<Rightarrow> hash \<Rightarrow> string \<Rightarrow> timeframe \<Rightarrow> datetime \<Rightarrow> candle" where
  "synthetic_candle M H symbol tf bucket =
     (let ps = samples M H symbol tf bucket; open_p = hd ps; close_p = List.last ps;
          body_high = foldl max (hd ps) (tl ps); body_low = foldl min (hd ps) (tl ps);
          wick = \<bar>open_p - close_p\<bar> + (body_high - body_low)
            + price_at M H symbol tf (bucket + tf_step tf div 2) * fl (8 / 100000);
          volume_noise = digest H (''forex-ai|vol|'' @ symbol @ ''|'' @ tf_name tf @ ''|'' @ show_int (bucket div 1000000))
      in \<lparr>cd_symbol = symbol, cd_timeframe = tf, cd_bucket_start = align_to_bucket bucket tf,
          cd_open = quantize_price symbol open_p, cd_high = quantize_price symbol (body_high + wick * fl (25/100)),
          cd_low = quantize_price symbol (body_low - wick * fl (25/100)), cd_close = quantize_price symbol close_p,
          cd_volume = f64_floor (fl 800 + volume_noise * fl 4200), cd_complete = True\<rparr>)"

definition generate_candle :: "math_lib \<Rightarrow> hash \<Rightarrow> string \<Rightarrow> timeframe \<Rightarrow> datetime \<Rightarrow> py_error + candle" where
  "generate_candle M H symbol tf bucket =
     (let c = synthetic_candle M H symbol tf bucket in case validate_candle c of Inl e \<Rightarrow> Inl e | Inr _ \<Rightarrow> Inr c)"

definition synthetic_candles :: "math_lib \<Rightarrow> hash \<Rightarrow> string \<Rightarrow> timeframe \<Rightarrow> datetime \<Rightarrow> datetime \<Rightarrow> (py_error + candle) list" where
  "synthetic_candles M H symbol tf start end_ts =
     (let closed_end = min end_ts (previous_closed_bucket end_ts tf + tf_step tf)
      in map (generate_candle M H symbol tf) (filter (\<lambda>b. b + tf_step tf \<le> end_ts) (iterate_buckets start closed_end tf)))"

section \<open>Content\<close>

definition content_uniform :: "hash \<Rightarrow> string \<Rightarrow> f64" where
  "content_uniform H part = digest H (''forex-ai-synthetic-content|'' @ part)"

definition USD_PAIRS :: "string list" where
  "USD_PAIRS = [''EURUSD'', ''GBPUSD'', ''USDJPY'', ''AUDUSD'', ''USDCAD'', ''USDCHF'', ''NZDUSD'']"

definition CURRENCY_PAIRS :: "(string \<times> string list) list" where
  "CURRENCY_PAIRS = [(''EUR'', [''EURUSD'']), (''GBP'', [''GBPUSD'']), (''USD'', USD_PAIRS), (''JPY'', [''USDJPY'']),
     (''AUD'', [''AUDUSD'']), (''CAD'', [''USDCAD'']), (''CHF'', [''USDCHF'']), (''NZD'', [''NZDUSD''])]"

definition CALENDAR_TEMPLATES :: "(string \<times> string) list" where
  "CALENDAR_TEMPLATES = [(''CPI YoY'', ''high''), (''Core CPI MoM'', ''medium''), (''GDP QoQ'', ''high''),
     (''Interest Rate Decision'', ''high''), (''Unemployment Rate'', ''high''), (''Non-Farm Employment Change'', ''high''),
     (''PMI Composite'', ''medium''), (''Retail Sales MoM'', ''medium''), (''Trade Balance'', ''low''), (''CB Policy Meeting Minutes'', ''medium'')]"

definition slot_key :: "string \<Rightarrow> nat \<Rightarrow> int \<Rightarrow> string" where
  "slot_key currency idx slot = currency @ ''|'' @ show_nat idx @ ''|'' @ show_int slot"

definition pct :: "hash \<Rightarrow> string \<Rightarrow> string \<Rightarrow> nat \<Rightarrow> int \<Rightarrow> f64 \<Rightarrow> f64 \<Rightarrow> string" where
  "pct H kind currency idx slot scale offset =
     (let value = content_uniform H (kind @ ''|'' @ slot_key currency idx slot) * scale - offset
      in format_fixed 2 (round_nd value 2) @ ''%'')"

definition SLOT :: timedelta where "SLOT = seconds_td (6 * 3600)"

definition slot_event :: "hash \<Rightarrow> int \<Rightarrow> (string \<times> string list) \<Rightarrow> nat \<times> string \<times> string \<Rightarrow> norm_event option" where
  "slot_event H slot cp t =
     (let (currency, pairs) = cp; (idx, slug, importance) = t; r = content_uniform H (slot_key currency idx slot) in
      if fl (35/100) < r then None
      else Some \<lparr>ne_provider = ''synthetic'', ne_title = currency @ '' '' @ slug,
        ne_timestamp = EPOCH_2024 + slot * SLOT
          + td_float (seconds_td 3600) (content_uniform H (''t|'' @ slot_key currency idx slot) * fl 6),
        ne_importance = importance, ne_currency = currency, ne_symbols = pairs,
        ne_actual = (if r < fl (3/10) then None else Some (pct H ''a'' currency idx slot (fl 8) (fl 4))),
        ne_forecast = Some (pct H ''f'' currency idx slot (fl 6) (fl 3)),
        ne_previous = Some (pct H ''p'' currency idx slot (fl 6) (fl 3)), ne_surprise = None,
        ne_external_id = Some (''synthetic-'' @ show_int slot @ ''-'' @ currency @ ''-'' @ show_nat idx),
        ne_raw = [(''kind'', JStr ''synthetic''), (''slot_id'', JInt slot)]\<rparr>)"

definition slot_events :: "hash \<Rightarrow> int \<Rightarrow> norm_event list" where
  "slot_events H slot = concat (map (\<lambda>cp. List.map_filter (slot_event H slot cp) (zip [0..<length CALENDAR_TEMPLATES] CALENDAR_TEMPLATES)) CURRENCY_PAIRS)"

definition synthetic_calendar_events :: "hash \<Rightarrow> datetime \<Rightarrow> datetime \<Rightarrow> norm_event list" where
  "synthetic_calendar_events H since until =
     (if until \<le> since then []
      else let first_slot = (since - EPOCH_2024) div SLOT
        in concat (map (slot_events H) (takeWhile (\<lambda>slot. EPOCH_2024 + slot * SLOT < until) [first_slot..first_slot + 11])))"

definition story :: "int \<Rightarrow> nat \<Rightarrow> norm_news" where
  "story day_ord i =
     (let currency = [''EUR'', ''GBP'', ''USD''] ! i;
          slug = [''Central bank signals cautious tone'', ''Sector data beats forecasts'', ''Inflation prints mixed''] ! i
      in \<lparr>nn_provider = ''synthetic'', nn_headline = slug @ '': '' @ currency,
          nn_published = EPOCH_2024 + days_td day_ord + seconds_td (3600 * (8 + int i * 4)),
          nn_url = Some (''https://demo.example/news/'' @ show_int day_ord @ ''/'' @ show_nat i),
          nn_summary = Some (''Deterministic demo summary for '' @ currency @ '' (internal fixture, not real news).''),
          nn_symbols = (case map_of CURRENCY_PAIRS currency of Some ps \<Rightarrow> ps | None \<Rightarrow> []),
          nn_external_id = Some (''synthetic-news-'' @ show_int day_ord @ ''-'' @ show_nat i),
          nn_raw = [(''kind'', JStr ''synthetic''), (''day_ord'', JInt day_ord)]\<rparr>)"

text \<open>Three stories a day; the days are those from that of \<open>since\<close> whose start is at most \<^verbatim>\<open>end_day\<close>.\<close>

definition synthetic_news_items :: "datetime \<Rightarrow> datetime \<Rightarrow> norm_news list" where
  "synthetic_news_items since until =
     (if until \<le> since then []
      else
        let first_day = (since - EPOCH_2024) div days_td 1; end_day = until - seconds_td 60;
            last_day = (end_day - EPOCH_2024) div days_td 1
        in filter (\<lambda>n. since \<le> nn_published n \<and> nn_published n < until)
             (concat (map (\<lambda>d. map (story d) [0, 1, 2]) [first_day..last_day])))"

section \<open>Candles are well formed\<close>

lemma to_dec_mono: "x \<le> y \<Longrightarrow> to_dec x \<le> to_dec y"
proof -
  assume le: "x \<le> y"
  show ?thesis
  proof (rule ccontr)
    assume "\<not> ?thesis"
    then have "fl (to_dec y) \<le> fl (to_dec x)" by (intro fl_mono) simp
    then have "x = y" using le by simp
    with \<open>\<not> ?thesis\<close> show False by simp
  qed
qed

lemma quantize_price_mono: "x \<le> y \<Longrightarrow> quantize_price pair x \<le> quantize_price pair y"
  unfolding quantize_price_def dec_quantize_def Let_def
  by (intro divide_right_mono) (simp_all add: rne_mono to_dec_mono round_nd_mono)

lemma foldl_max_start: "a \<le> foldl max a (xs :: f64 list)"
  by (induction xs arbitrary: a) (simp, metis foldl_Cons max.boundedE)

lemma foldl_max_ge: "x \<in> set (a # xs) \<Longrightarrow> x \<le> foldl max a (xs :: f64 list)"
proof (induction xs arbitrary: a)
  case (Cons y ys)
  have "max a y \<le> foldl max (max a y) ys" by (rule foldl_max_start)
  with Cons show ?case by (cases "x \<in> set ys") auto
qed simp

lemma foldl_min_start: "foldl min a (xs :: f64 list) \<le> a"
  by (induction xs arbitrary: a) (simp, metis foldl_Cons min.boundedE)

lemma foldl_min_le: "x \<in> set (a # xs) \<Longrightarrow> foldl min a (xs :: f64 list) \<le> x"
proof (induction xs arbitrary: a)
  case (Cons y ys)
  have "foldl min (min a y) ys \<le> min a y" by (rule foldl_min_start)
  with Cons show ?case by (cases "x \<in> set ys") auto
qed simp

lemma volume_bounds: "800 \<le> f64_floor (fl 800 + digest H k * fl 4200)" "f64_floor (fl 800 + digest H k * fl 4200) \<le> 5000"
proof -
  have v: "val (fl 800) = 800" "val (fl 5000) = 5000" using fl_int [of 800] fl_int [of 5000] by simp_all
  have n: "0 \<le> fl 4200" by (rule fl_nonneg) simp
  have "fl 800 \<le> fl 800 + digest H k * fl 4200" by (intro f64_add_increasing f64_mult_nonneg digest_nonneg n)
  then have "val (fl 800) \<le> val (fl 800 + digest H k * fl 4200)" by (simp add: less_eq_f64.rep_eq)
  then show "800 \<le> f64_floor (fl 800 + digest H k * fl 4200)" unfolding f64_floor_def v(1) by linarith
  have "digest H k * fl 4200 \<le> fl 4200" using f64_mult_le [OF n digest_le_1 [of H k]] by (simp add: f64_mult_commute)
  then have "fl 800 + digest H k * fl 4200 \<le> fl 800 + fl 4200" by (intro f64_add_mono) simp
  also have "fl 800 + fl 4200 = fl 5000" by code_simp
  finally have "val (fl 800 + digest H k * fl 4200) \<le> val (fl 5000)" by (simp add: less_eq_f64.rep_eq)
  then show "f64_floor (fl 800 + digest H k * fl 4200) \<le> 5000" unfolding f64_floor_def v(2) by linarith
qed

lemma synthetic_candle_ok:
  fixes M :: math_lib and H :: hash and symbol :: string and tf :: timeframe and bucket :: datetime
  assumes "\<forall>x. 0 \<le> ml_exp M x"
  defines "c \<equiv> synthetic_candle M H symbol tf bucket"
  shows "cd_low c \<le> cd_open c \<and> cd_open c \<le> cd_high c \<and> cd_low c \<le> cd_close c \<and> cd_close c \<le> cd_high c"
proof -
  let ?ps = "samples M H symbol tf bucket"
  let ?hi = "foldl max (hd ?ps) (tl ?ps)" and ?lo = "foldl min (hd ?ps) (tl ?ps)"
  let ?w = "\<bar>hd ?ps - List.last ?ps\<bar> + (?hi - ?lo) + price_at M H symbol tf (bucket + tf_step tf div 2) * fl (8 / 100000)"
  have ps: "?ps = hd ?ps # tl ?ps" "hd ?ps \<in> set (hd ?ps # tl ?ps)" "List.last ?ps \<in> set (hd ?ps # tl ?ps)"
    by (simp_all add: samples_def)
  have hi: "hd ?ps \<le> ?hi" "List.last ?ps \<le> ?hi" using foldl_max_ge ps(2,3) by blast+
  have lo: "?lo \<le> hd ?ps" "?lo \<le> List.last ?ps" using foldl_min_le ps(2,3) by blast+
  have p: "0 \<le> price_at M H symbol tf t" for t using assms(1) by (simp add: price_at_def Let_def)
  have d: "0 \<le> ?hi - ?lo" by (rule f64_diff_nonneg [OF order_trans [OF lo(1) hi(1)]])
  have "0 \<le> ?w" by (intro f64_add_nonneg f64_mult_nonneg p d f64_abs_nonneg fl_nonneg) simp
  then have x: "0 \<le> ?w * fl (25 / 100)" by (intro f64_mult_nonneg fl_nonneg) simp_all
  have up: "?hi \<le> ?hi + ?w * fl (25 / 100)" by (rule f64_add_increasing [OF x])
  have dn: "?lo - ?w * fl (25 / 100) \<le> ?lo" by (rule f64_diff_le [OF x])
  have f: "cd_open c = quantize_price symbol (hd ?ps)" "cd_close c = quantize_price symbol (List.last ?ps)"
    "cd_high c = quantize_price symbol (?hi + ?w * fl (25 / 100))" "cd_low c = quantize_price symbol (?lo - ?w * fl (25 / 100))"
    by (simp_all only: c_def synthetic_candle_def Let_def candle.select_convs)
  show ?thesis unfolding f
    using order_trans [OF hi(1) up] order_trans [OF hi(2) up] order_trans [OF dn lo(1)] order_trans [OF dn lo(2)]
    by (intro conjI quantize_price_mono)
qed

text \<open>
  C33. The synthetic provider never fails: whatever the digest, and for any exponential function that is
  not negative, every generated candle passes the validation of its constructor, its low and high
  enclose open and close after rounding to the decimals of the pair, its volume lies in [800, 5000] and it
  starts at the beginning of its bucket.
\<close>

theorem synthetic_candle_valid:
  assumes "\<forall>x. 0 \<le> ml_exp M x"
  shows "generate_candle M H symbol tf bucket = Inr (synthetic_candle M H symbol tf bucket)
    \<and> (let c = synthetic_candle M H symbol tf bucket in
        cd_low c \<le> min (cd_open c) (cd_close c) \<and> max (cd_open c) (cd_close c) \<le> cd_high c
        \<and> 800 \<le> cd_volume c \<and> cd_volume c \<le> 5000 \<and> cd_complete c \<and> cd_bucket_start c = align_to_bucket bucket tf)"
proof -
  let ?c = "synthetic_candle M H symbol tf bucket"
  note ok = synthetic_candle_ok [OF assms, of H symbol tf bucket]
  have g: "generate_candle M H symbol tf bucket = Inr ?c" unfolding generate_candle_def Let_def validate_candle_def using ok by simp
  have v: "800 \<le> cd_volume ?c" "cd_volume ?c \<le> 5000" "cd_complete ?c" "cd_bucket_start ?c = align_to_bucket bucket tf"
    by (simp_all only: synthetic_candle_def Let_def candle.select_convs volume_bounds)
  show ?thesis using g ok v by (simp add: Let_def)
qed

section \<open>The window of the calendar\<close>

lemma td_float_bounds:
  assumes "0 \<le> x" "x \<le> fl (of_int n)" "0 < u" "u \<le> 2 ^ 53" "0 \<le> n" "n \<le> 2 ^ 53"
  shows "0 \<le> td_float u x \<and> td_float u x \<le> n * u"
proof -
  let ?i = "f64_floor x"
  have n: "val (fl (of_int n)) = of_int n" using assms(5,6) by (intro fl_int) simp
  have u: "val (fl (of_int u)) = of_int u" using assms(3,4) by (intro fl_int) simp
  have x: "0 \<le> val x" "val x \<le> of_int n" using assms(1,2) by (simp_all add: less_eq_f64.rep_eq zero_f64.rep_eq n)
  have i: "0 \<le> ?i" "?i \<le> n" "of_int ?i \<le> val x" "val x < of_int ?i + 1" using x unfolding f64_floor_def by linarith+
  have fi: "val (fl (of_int ?i)) = of_int ?i" using i(1,2) assms(6) by (intro fl_int) simp
  have frac: "val (x - fl (of_int ?i)) = rnd (val x - of_int ?i)" by (simp add: minus_f64.rep_eq fi)
  have f0: "0 \<le> val (x - fl (of_int ?i))" unfolding frac using i(3) by (intro rnd_nonneg) simp
  have "rnd (val x - of_int ?i) \<le> rnd 1" using i(4) by (intro rnd_mono) simp
  then have f1: "val (x - fl (of_int ?i)) \<le> 1" unfolding frac by simp
  let ?p = "val (fl (of_int u) * (x - fl (of_int ?i)))"
  have p: "?p = rnd (of_int u * val (x - fl (of_int ?i)))" by (simp add: times_f64.rep_eq u)
  have u0: "(0 :: rat) \<le> of_int u" using assms(3) by simp
  have p0: "0 \<le> ?p" unfolding p using u0 f0 by (intro rnd_nonneg) simp
  have "of_int u * val (x - fl (of_int ?i)) \<le> of_int u * 1" using u0 f1 by (rule mult_left_mono [rotated])
  then have "?p \<le> rnd (of_int u)" unfolding p by (intro rnd_mono) simp
  then have p1: "?p \<le> of_int u" using u by (simp add: fl.rep_eq)
  have low: "0 \<le> td_float u x"
  proof -
    have "(of_int 0 :: rat) \<le> of_int (?i * u) + ?p" using i(1) assms(3) p0 by simp
    then show ?thesis unfolding td_float_def Let_def by (rule rne_ge_int)
  qed
  have "td_float u x \<le> n * u"
  proof (cases "?i = n")
    case True
    then have "val x = of_int ?i" using i(3) x(2) by simp
    then have "?p = 0" unfolding p frac by simp
    then show ?thesis unfolding td_float_def Let_def True using rne_of_int [of "n * u"] by simp
  next
    case False
    then have "(?i + 1) * u \<le> n * u" using i(2) assms(3) by (intro mult_right_mono) linarith+
    moreover have "of_int (?i * u) + ?p \<le> of_int ((?i + 1) * u)" using p1 by (simp add: algebra_simps)
    then have "td_float u x \<le> (?i + 1) * u" unfolding td_float_def Let_def by (rule rne_le_int)
    ultimately show ?thesis by linarith
  qed
  with low show ?thesis by blast
qed

lemma slot_event_time:
  assumes "slot_event H slot cp t = Some e"
  shows "EPOCH_2024 + slot * SLOT \<le> ne_timestamp e" "ne_timestamp e \<le> EPOCH_2024 + (slot + 1) * SLOT"
proof -
  obtain currency pairs idx slug importance where ct: "cp = (currency, pairs)" "t = (idx, slug, importance)" by (cases cp; cases t) auto
  let ?h = "content_uniform H (''t|'' @ slot_key currency idx slot)"
  have e: "ne_timestamp e = EPOCH_2024 + slot * SLOT + td_float (seconds_td 3600) (?h * fl 6)"
    using assms by (auto simp: slot_event_def ct Let_def split: if_splits)
  have six: "0 \<le> fl 6" by (rule fl_nonneg) simp
  have h: "0 \<le> ?h" "?h \<le> 1" by (simp_all add: content_uniform_def digest_nonneg digest_le_1)
  have "0 \<le> ?h * fl 6" by (rule f64_mult_nonneg [OF h(1) six])
  moreover have "?h * fl 6 \<le> fl (of_int 6)" using f64_mult_le [OF six h(2)] by (simp add: f64_mult_commute)
  ultimately have "0 \<le> td_float (seconds_td 3600) (?h * fl 6) \<and> td_float (seconds_td 3600) (?h * fl 6) \<le> 6 * seconds_td 3600"
    by (intro td_float_bounds) (simp_all add: seconds_td_def)
  moreover have "6 * seconds_td 3600 = SLOT" by (simp add: SLOT_def seconds_td_def)
  ultimately show "EPOCH_2024 + slot * SLOT \<le> ne_timestamp e" "ne_timestamp e \<le> EPOCH_2024 + (slot + 1) * SLOT"
    unfolding e by (simp_all add: algebra_simps)
qed

text \<open>
  What the calendar fixture covers: an event lies in a six-hour slot that begins no earlier than the one
  containing \<open>since\<close> and before \<open>until\<close>, so it may lie up to six hours outside the window on either
  side, although the function promises \<^verbatim>\<open>since <= ts < until\<close>; and no event lies more than 72 hours after
  \<open>since\<close>, so with a look-back of more than three days the events of the present are never produced.
\<close>

theorem synthetic_calendar_window:
  assumes "e \<in> set (synthetic_calendar_events H since until)"
  shows "since - SLOT < ne_timestamp e \<and> ne_timestamp e < until + SLOT \<and> ne_timestamp e \<le> since + seconds_td (72 * 3600)
    \<and> ne_importance e \<in> set IMPORTANCE_LEVELS"
proof -
  let ?f = "(since - EPOCH_2024) div SLOT"
  from assms obtain slot where s: "slot \<in> set (takeWhile (\<lambda>slot. EPOCH_2024 + slot * SLOT < until) [?f..?f + 11])" "e \<in> set (slot_events H slot)"
    by (auto simp: synthetic_calendar_events_def Let_def split: if_splits)
  have r: "?f \<le> slot" "slot \<le> ?f + 11" "EPOCH_2024 + slot * SLOT < until"
    using set_takeWhileD [OF s(1)] by simp_all
  obtain cp t where t: "slot_event H slot cp t = Some e" "t \<in> set (zip [0..<length CALENDAR_TEMPLATES] CALENDAR_TEMPLATES)"
    using s(2) by (auto simp: slot_events_def List.map_filter_def)
  note b = slot_event_time [OF t(1)]
  have pos: "0 < SLOT" by (simp add: SLOT_def seconds_td_def)
  have fl: "?f * SLOT \<le> since - EPOCH_2024" "since - EPOCH_2024 < (?f + 1) * SLOT"
    using div_mult_mod_eq [of "since - EPOCH_2024" SLOT] pos_mod_sign [OF pos, of "since - EPOCH_2024"] pos_mod_bound [OF pos, of "since - EPOCH_2024"]
    unfolding distrib_right by linarith+
  have m: "?f * SLOT \<le> slot * SLOT" using r(1) pos by (intro mult_right_mono) simp_all
  have k: "(slot + 1) * SLOT \<le> (?f + 12) * SLOT" using r(2) pos by (intro mult_right_mono) simp_all
  have h: "12 * SLOT = seconds_td (72 * 3600)" by (simp add: SLOT_def seconds_td_def)
  have "since - SLOT < ne_timestamp e" "ne_timestamp e < until + SLOT" "ne_timestamp e \<le> since + seconds_td (72 * 3600)"
    using b fl r(3) m k h unfolding distrib_right by linarith+
  moreover have "ne_importance e \<in> set IMPORTANCE_LEVELS"
  proof -
    obtain idx slug imp where z: "t = (idx, slug, imp)" by (cases t) auto
    have "ne_importance e = imp" using t(1) by (cases cp) (auto simp: slot_event_def z Let_def split: if_splits)
    moreover have "(slug, imp) \<in> set CALENDAR_TEMPLATES" using t(2) unfolding z by (rule set_zip_rightD)
    ultimately show ?thesis by (auto simp: CALENDAR_TEMPLATES_def IMPORTANCE_LEVELS_def)
  qed
  ultimately show ?thesis by blast
qed

definition demo_math :: math_lib where
  "demo_math = \<lparr>ml_exp = (\<lambda>x. \<bar>x\<bar>), ml_log = (\<lambda>x. x), ml_cos = (\<lambda>x. 0), ml_sqrt = (\<lambda>x. x)\<rparr>"

theorem synthetic_candle_valid_witness:
  "generate_candle demo_math (\<lambda>_. 7) ''EURUSD'' H1 EPOCH_2024 = Inr (synthetic_candle demo_math (\<lambda>_. 7) ''EURUSD'' H1 EPOCH_2024)"
proof -
  have "\<forall>x. 0 \<le> ml_exp demo_math x" by (simp add: demo_math_def)
  from synthetic_candle_valid [OF this, of "\<lambda>_. 7" "''EURUSD''" H1 EPOCH_2024] show ?thesis by simp
qed

text \<open>With a digest of zero the first event of a slot lies at its start, before the window asked for.\<close>

theorem synthetic_calendar_window_witness:
  "\<exists>e. e \<in> set (synthetic_calendar_events (\<lambda>_. 0) (EPOCH_2024 + seconds_td 3600) (EPOCH_2024 + seconds_td 7200))
    \<and> ne_timestamp e = EPOCH_2024 \<and> EPOCH_2024 < EPOCH_2024 + seconds_td 3600 \<and> EPOCH_2024 + seconds_td 3600 - SLOT < ne_timestamp e"
proof -
  let ?H = "\<lambda>_. 0 :: 64 word" and ?t = "(0, ''CPI YoY'', ''high'')" and ?cp = "(''EUR'', [''EURUSD''])"
  have d: "content_uniform ?H k = 0" for k by (simp add: content_uniform_def digest_def)
  have n: "\<not> fl (35/100) < 0" by code_simp
  have z: "td_float (seconds_td 3600) 0 = 0" by code_simp
  obtain e where e: "slot_event ?H 0 ?cp ?t = Some e" using n by (simp add: slot_event_def d)
  have ts: "ne_timestamp e = EPOCH_2024" using e n by (auto simp: slot_event_def d z)
  have m: "e \<in> set (slot_events ?H 0)"
    unfolding slot_events_def set_concat set_map by (rule UN_I [OF imageI [of ?cp]]) (auto simp: CURRENCY_PAIRS_def List.map_filter_def CALENDAR_TEMPLATES_def e upt_rec)
  have w: "0 \<in> set (takeWhile (\<lambda>slot. EPOCH_2024 + slot * SLOT < EPOCH_2024 + seconds_td 7200) [0..11])"
    by (simp add: SLOT_def seconds_td_def upto_rec1)
  have first: "(EPOCH_2024 + seconds_td 3600 - EPOCH_2024) div SLOT = 0" "\<not> EPOCH_2024 + seconds_td 7200 \<le> EPOCH_2024 + seconds_td 3600"
    by (simp_all add: SLOT_def seconds_td_def)
  have "synthetic_calendar_events ?H (EPOCH_2024 + seconds_td 3600) (EPOCH_2024 + seconds_td 7200)
    = concat (map (slot_events ?H) (takeWhile (\<lambda>slot. EPOCH_2024 + slot * SLOT < EPOCH_2024 + seconds_td 7200) [0..11]))"
    using first(2) by (simp only: synthetic_calendar_events_def Let_def first(1) if_False add_0)
  then have "e \<in> set (synthetic_calendar_events ?H (EPOCH_2024 + seconds_td 3600) (EPOCH_2024 + seconds_td 7200))"
    using w m by (simp only: set_concat set_map) blast
  with synthetic_calendar_window [OF this] ts show ?thesis by (intro exI [of _ e]) (simp add: seconds_td_def)
qed

end
