(* ===== verification/BacktestStore.thy ===== *)
theory BacktestStore
  imports BacktestRuns Synthetic
begin

text \<open>
  Stored backtests: the tables (\<^verbatim>\<open>models/backtest.py\<close>), their repository (\<^verbatim>\<open>backtest/repository.py\<close>) and
  the service that loads the recorded signals, runs the driver on synthetic candles and stores the
  outcome (\<^verbatim>\<open>backtest/service.py\<close>), with the risk-adjusted ratios of \<^verbatim>\<open>backtest/report.py\<close>. The correctly
  rounded root of \<^verbatim>\<open>statistics\<close> and the float power are parameters.
\<close>

section \<open>Risk-adjusted returns\<close>

record stat_lib =
  sl_root :: "rat \<Rightarrow> f64"
  sl_pow_half :: "f64 \<Rightarrow> f64"

definition annualization_factor :: "timeframe \<Rightarrow> f64" where
  "annualization_factor tf = fl (36525 / 100) * fl 24 * fl 3600 / fl (of_int (tf_seconds tf))"

fun equity_returns :: "f64 list \<Rightarrow> py_error + f64 list" where
  "equity_returns (p # q # ps) =
     (if p = 0 then Inl ZeroDivisionError
      else case equity_returns (q # ps) of Inl e \<Rightarrow> Inl e | Inr rs \<Rightarrow> Inr ((q - p) / p # rs))"
| "equity_returns ps = Inr []"

text \<open>\<^verbatim>\<open>statistics.mean\<close> and \<^verbatim>\<open>pstdev\<close> compute exactly and round once.\<close>

definition exact_mean :: "f64 list \<Rightarrow> rat" where
  "exact_mean xs = sum_list (map val xs) / of_nat (length xs)"

definition pstdev :: "stat_lib \<Rightarrow> f64 list \<Rightarrow> f64" where
  "pstdev S xs = sl_root S (sum_list (map (\<lambda>x. (val x - exact_mean xs)\<^sup>2) xs) / of_nat (length xs))"

definition risk_adjusted :: "stat_lib \<Rightarrow> (datetime \<times> f64) list \<Rightarrow> timeframe \<Rightarrow> py_error + f64 \<times> f64" where
  "risk_adjusted S points tf =
     (if length points < 2 then Inr (0, 0)
      else case equity_returns (map snd points) of Inl e \<Rightarrow> Inl e
        | Inr rs \<Rightarrow>
            let ann = sl_pow_half S (annualization_factor tf); mean_r = fl (exact_mean rs); std = pstdev S rs;
                losses = filter (\<lambda>r. r < 0) rs; downside = (if losses = [] then 0 else pstdev S losses)
            in Inr (if 0 < std then mean_r / std * ann else 0, if 0 < downside then mean_r / downside * ann else 0))"

section \<open>Rows\<close>

datatype bt_status = RUNNING | COMPLETED | FAILED

record bt_run =
  rn_id :: uuid
  rn_config :: "(string \<times> json) list"
  rn_data_range :: "(string \<times> json) list"
  rn_seed :: int
  rn_code_versions :: "(string \<times> json) list"
  rn_status :: bt_status
  rn_error :: "string option"
  rn_metrics :: "(string \<times> json) list"
  rn_started_at :: datetime
  rn_finished_at :: "datetime option"

record bt_trade_row =
  bx_run_id :: uuid
  bx_symbol :: string
  bx_timeframe :: timeframe
  bx_side :: direction
  bx_units :: rat
  bx_entry_ts :: datetime
  bx_entry_price :: rat
  bx_exit_ts :: datetime
  bx_exit_price :: rat
  bx_gross_pnl :: rat
  bx_costs :: rat
  bx_net_pnl :: rat
  bx_exit_reason :: string

record bt_equity_row =
  bq_run_id :: uuid
  bq_ts :: datetime
  bq_equity :: rat
  bq_drawdown_pct :: rat

record bt_db =
  bt_runs :: "bt_run list"
  bt_trades :: "bt_trade_row list"
  bt_equity :: "bt_equity_row list"

definition config_json :: "backtest_config \<Rightarrow> (string \<times> json) list" where
  "config_json cfg =
     [(''start'', JStr (isoformat (bc_start cfg))), (''end'', JStr (isoformat (bc_end cfg))),
      (''symbols'', JList (map JStr (bc_symbols cfg))), (''timeframes'', JList (map (JStr \<circ> tf_name) (bc_timeframes cfg))),
      (''seed'', JInt (bc_seed cfg)), (''start_equity'', JFloat (bc_start_equity cfg)), (''warmup_bars'', JInt (bc_warmup_bars cfg)),
      (''spread'', JFloat (bc_spread cfg)), (''slippage_pct'', JFloat (bc_slippage_pct cfg)),
      (''require_full_coverage'', JBool (bc_require_full_coverage cfg))]"

definition coverage_json :: "coverage_report \<Rightarrow> json" where
  "coverage_json c = JDict [(''symbol'', JStr (cr_symbol c)), (''timeframe'', JStr (tf_name (cr_timeframe c))),
     (''expected_bars'', JInt (cr_expected_bars c)), (''technical'', JInt (cr_technical c)), (''regime'', JInt (cr_regime c)),
     (''fundamental'', JInt (cr_fundamental c)), (''sentiment'', JInt (cr_sentiment c)), (''degraded'', JBool (cr_degraded c))]"

definition metrics_json :: "run_metrics \<Rightarrow> f64 \<times> f64 \<Rightarrow> (string \<times> json) list" where
  "metrics_json m ratios =
     [(''net_pnl'', JFloat (rm_net_pnl m)), (''gross_pnl'', JFloat (rm_gross_pnl m)), (''total_costs'', JFloat (rm_total_costs m)),
      (''num_trades'', JInt (int (rm_num_trades m))), (''win_rate'', JFloat (rm_win_rate m)), (''profit_factor'', JFloat (rm_profit_factor m)),
      (''sharpe'', JFloat (fst ratios)), (''sortino'', JFloat (snd ratios)), (''max_drawdown_pct'', JFloat (rm_max_drawdown_pct m)),
      (''exposure_avg_pct'', JFloat (rm_exposure_avg_pct m)), (''bars'', JInt (int (rm_bars m))),
      (''degraded_runs'', JInt (int (rm_degraded_runs m))), (''coverage'', JList (map coverage_json (rm_coverage m)))]"

section \<open>Repository\<close>

definition CODE_VERSIONS :: "(string \<times> json) list" where
  "CODE_VERSIONS = [(''technical'', JStr ''1''), (''regime'', JStr ''1''), (''fundamental'', JStr ''1''), (''sentiment'', JStr ''1''),
     (''engine'', JStr ''Phase5''), (''backtest'', JStr ''Phase6'')]"

text \<open>The seed column is an INTEGER of 32 bits; the insert of another seed fails.\<close>

definition seed_fits :: "int \<Rightarrow> bool" where
  "seed_fits n = (- (2 ^ 31) \<le> n \<and> n < 2 ^ 31)"

definition insert_run :: "uuid \<Rightarrow> datetime \<Rightarrow> backtest_config \<Rightarrow> bt_db \<Rightarrow> bt_db" where
  "insert_run new_id now cfg db = db\<lparr>bt_runs := bt_runs db @ [\<lparr>rn_id = new_id, rn_config = config_json cfg,
     rn_data_range = [(''start'', JStr (isoformat (bc_start cfg))), (''end'', JStr (isoformat (bc_end cfg)))], rn_seed = bc_seed cfg,
     rn_code_versions = CODE_VERSIONS, rn_status = RUNNING, rn_error = None, rn_metrics = [], rn_started_at = now, rn_finished_at = None\<rparr>]\<rparr>"

definition create_run :: "uuid \<Rightarrow> datetime \<Rightarrow> backtest_config \<Rightarrow> bt_db \<Rightarrow> bt_db option" where
  "create_run new_id now cfg db = (if seed_fits (bc_seed cfg) then Some (insert_run new_id now cfg db) else None)"

definition update_run :: "uuid \<Rightarrow> (bt_run \<Rightarrow> bt_run) \<Rightarrow> bt_db \<Rightarrow> bt_db" where
  "update_run i f db = db\<lparr>bt_runs := map (\<lambda>r. if rn_id r = i then f r else r) (bt_runs db)\<rparr>"

definition mark_completed :: "uuid \<Rightarrow> (string \<times> json) list \<Rightarrow> datetime \<Rightarrow> bt_db \<Rightarrow> bt_db" where
  "mark_completed i metrics now = update_run i (\<lambda>r. r\<lparr>rn_status := COMPLETED, rn_metrics := metrics, rn_finished_at := Some now\<rparr>)"

definition mark_failed :: "uuid \<Rightarrow> string \<Rightarrow> datetime \<Rightarrow> bt_db \<Rightarrow> bt_db" where
  "mark_failed i error now = update_run i (\<lambda>r. r\<lparr>rn_status := FAILED, rn_error := Some error, rn_finished_at := Some now\<rparr>)"

definition trade_row_of :: "uuid \<Rightarrow> trade \<Rightarrow> bt_trade_row" where
  "trade_row_of i t = \<lparr>bx_run_id = i, bx_symbol = t_symbol t, bx_timeframe = t_timeframe t, bx_side = t_side t,
     bx_units = quantize 6 (to_dec (t_units t)), bx_entry_ts = t_entry_ts t, bx_entry_price = quantize 8 (to_dec (t_entry_price t)),
     bx_exit_ts = t_exit_ts t, bx_exit_price = quantize 8 (to_dec (t_exit_price t)), bx_gross_pnl = quantize 6 (to_dec (t_gross_pnl t)),
     bx_costs = quantize 6 (to_dec (t_costs t)), bx_net_pnl = quantize 6 (to_dec (t_net_pnl t)), bx_exit_reason = t_exit_reason t\<rparr>"

definition equity_row_of :: "uuid \<Rightarrow> datetime \<times> f64 \<Rightarrow> bt_equity_row" where
  "equity_row_of i p = \<lparr>bq_run_id = i, bq_ts = fst p, bq_equity = quantize 6 (to_dec (snd p)), bq_drawdown_pct = 0\<rparr>"

text \<open>The limits of the columns and the unique key of the curve; an insert outside them fails.\<close>

definition trade_row_fits :: "bt_trade_row \<Rightarrow> bool" where
  "trade_row_fits r = (length (bx_symbol r) \<le> 12 \<and> length (bx_exit_reason r) \<le> 16 \<and> \<bar>bx_units r\<bar> < 10 ^ 14 \<and> \<bar>bx_entry_price r\<bar> < 10 ^ 10
     \<and> \<bar>bx_exit_price r\<bar> < 10 ^ 10 \<and> \<bar>bx_gross_pnl r\<bar> < 10 ^ 14 \<and> \<bar>bx_costs r\<bar> < 10 ^ 14 \<and> \<bar>bx_net_pnl r\<bar> < 10 ^ 14)"

definition equity_key :: "bt_equity_row \<Rightarrow> uuid \<times> datetime" where
  "equity_key r = (bq_run_id r, bq_ts r)"

definition save_trades :: "uuid \<Rightarrow> trade list \<Rightarrow> bt_db \<Rightarrow> bt_db option" where
  "save_trades i ts db =
     (let rows = map (trade_row_of i) ts
      in if list_all trade_row_fits rows then Some (db\<lparr>bt_trades := bt_trades db @ rows\<rparr>) else None)"

definition save_equity_curve :: "uuid \<Rightarrow> (datetime \<times> f64) list \<Rightarrow> bt_db \<Rightarrow> bt_db option" where
  "save_equity_curve i points db =
     (let rows = map (equity_row_of i) points
      in if list_all (\<lambda>r. \<bar>bq_equity r\<bar> < 10 ^ 14) rows \<and> distinct (map equity_key (bt_equity db @ rows))
         then Some (db\<lparr>bt_equity := bt_equity db @ rows\<rparr>) else None)"

definition list_runs :: "nat \<Rightarrow> bt_db \<Rightarrow> bt_run list" where
  "list_runs limit db = take limit (sort_key (\<lambda>r. - rn_started_at r) (bt_runs db))"

definition get_run :: "uuid \<Rightarrow> bt_db \<Rightarrow> bt_run option" where
  "get_run i db = find (\<lambda>r. rn_id r = i) (bt_runs db)"

definition get_trades :: "uuid \<Rightarrow> bt_db \<Rightarrow> bt_trade_row list" where
  "get_trades i db = filter (\<lambda>r. bx_run_id r = i) (bt_trades db)"

definition get_equity :: "uuid \<Rightarrow> bt_db \<Rightarrow> bt_equity_row list" where
  "get_equity i db = sort_key bq_ts (filter (\<lambda>r. bq_run_id r = i) (bt_equity db))"

section \<open>The service\<close>

definition synthetic_candle_provider :: "math_lib \<Rightarrow> hash \<Rightarrow> string \<Rightarrow> timeframe \<Rightarrow> datetime \<Rightarrow> datetime \<Rightarrow> candle list" where
  "synthetic_candle_provider M H symbol tf start end_ts =
     map (synthetic_candle M H symbol tf) (iterate_buckets (align_to_bucket start tf) end_ts tf)"

fun replay_rows :: "backtest_config \<Rightarrow> signal_row list \<Rightarrow> py_error + agent_signal list" where
  "replay_rows cfg [] = Inr []"
| "replay_rows cfg (r # rs) =
     (case row_to_signal r of Inl e \<Rightarrow> Inl e
      | Inr s \<Rightarrow> (case replay_rows cfg rs of Inl e \<Rightarrow> Inl e
          | Inr ss \<Rightarrow> Inr (if sg_agent_id s \<in> set REPLAY_AGENTS \<and> bc_start cfg \<le> sg_bucket_ts s \<and> sg_bucket_ts s < bc_end cfg
              then s # ss else ss)))"

definition load_replayed_signals :: "backtest_config \<Rightarrow> signal_row list \<Rightarrow> py_error + (replay_key \<rightharpoonup> agent_signal)" where
  "load_replayed_signals cfg rows =
     (case replay_rows cfg (concat (map (\<lambda>(s, tf). load_signal_history s tf 100000 None rows) (List.product (bc_symbols cfg) (bc_timeframes cfg)))) of
        Inl e \<Rightarrow> Inl e | Inr ss \<Rightarrow> Inr (add_replayed ss Map.empty))"

text \<open>What ends a run: an exception of the replay, or a statement the database refuses.\<close>

datatype bt_failure = Raised py_error | DatabaseError

record bt_service =
  bv_stat :: stat_lib
  bv_risk :: risk_params
  bv_agents :: agents
  bv_candles :: "string \<Rightarrow> timeframe \<Rightarrow> datetime \<Rightarrow> datetime \<Rightarrow> candle list"
  bv_render :: "json \<Rightarrow> string"
  bv_hash :: hash
  bv_error_text :: "bt_failure \<Rightarrow> string"

definition service_env :: "bt_service \<Rightarrow> backtest_config \<Rightarrow> (replay_key \<rightharpoonup> agent_signal) \<Rightarrow> bt_env" where
  "service_env V cfg replay = \<lparr>be_cfg = cfg, be_risk = bv_risk V, be_candles = bv_candles V, be_agents = bv_agents V,
     be_replay = replay, be_render = bv_render V, be_hash = bv_hash V\<rparr>"

definition service_broker :: "backtest_config \<Rightarrow> paper_broker" where
  "service_broker cfg = init_broker (bc_start_equity cfg) (bc_seed cfg)
     (Some (default_costs\<lparr>spread := bc_spread cfg, slippage_pct := bc_slippage_pct cfg\<rparr>))"

text \<open>The body of the \<^verbatim>\<open>try\<close>: the database after the commit, or what ended it.\<close>

definition execute_run :: "bt_service \<Rightarrow> backtest_config \<Rightarrow> signal_row list \<Rightarrow> uuid \<Rightarrow> datetime \<Rightarrow> bt_db \<Rightarrow> bt_failure + bt_db" where
  "execute_run V cfg signals i now db =
     (case load_replayed_signals cfg signals of Inl e \<Rightarrow> Inl (Raised e)
      | Inr replay \<Rightarrow>
        (case run_driver (service_env V cfg replay) (service_broker cfg) of Inl e \<Rightarrow> Inl (Raised e)
         | Inr st \<Rightarrow>
           (case risk_adjusted (bv_stat V) (dv_equity_points st) (hd (bc_timeframes cfg)) of Inl e \<Rightarrow> Inl (Raised e)
            | Inr ratios \<Rightarrow>
              (case save_trades i (trades (dv_broker st)) db of None \<Rightarrow> Inl DatabaseError
               | Some db1 \<Rightarrow>
                 (case save_equity_curve i (dv_equity_points st) db1 of None \<Rightarrow> Inl DatabaseError
                  | Some db2 \<Rightarrow> Inr (mark_completed i (metrics_json (driver_metrics cfg st) ratios) now db2))))))"

definition run_backtest ::
  "bt_service \<Rightarrow> backtest_config \<Rightarrow> signal_row list \<Rightarrow> uuid \<Rightarrow> datetime \<Rightarrow> datetime \<Rightarrow> bt_db \<Rightarrow> (bt_failure + uuid) \<times> bt_db" where
  "run_backtest V cfg signals i started finished db =
     (case create_run i started cfg db of None \<Rightarrow> (Inl DatabaseError, db)
      | Some db1 \<Rightarrow>
        (case execute_run V cfg signals i finished db1 of
           Inr db' \<Rightarrow> (Inr i, db')
         | Inl e \<Rightarrow> (Inl e, mark_failed i (bv_error_text V e) finished db1)))"

section \<open>One run\<close>

text \<open>The keys of the three tables: run ids and curve points are unique, and every row belongs to a run.\<close>

definition bt_db_ok :: "bt_db \<Rightarrow> bool" where
  "bt_db_ok db = (distinct (map rn_id (bt_runs db)) \<and> distinct (map equity_key (bt_equity db))
     \<and> (\<forall>r\<in>set (bt_trades db). bx_run_id r \<in> rn_id ` set (bt_runs db)) \<and> (\<forall>r\<in>set (bt_equity db). bq_run_id r \<in> rn_id ` set (bt_runs db)))"

lemma insert_run_simps [simp]:
  "bt_trades (insert_run i now cfg db) = bt_trades db" "bt_equity (insert_run i now cfg db) = bt_equity db"
  by (simp_all add: insert_run_def)

lemma update_run_simps [simp]:
  "bt_trades (update_run i f db) = bt_trades db" "bt_equity (update_run i f db) = bt_equity db"
  by (simp_all add: update_run_def)

lemma map_update_fresh: "i \<notin> rn_id ` set rs \<Longrightarrow> map (\<lambda>r. if rn_id r = i then f r else r) rs = rs"
  by (induction rs) auto

text \<open>The run an update of the row just created leaves behind.\<close>

lemma update_created:
  assumes "i \<notin> rn_id ` set (bt_runs db)"
  shows "bt_runs (update_run i f (insert_run i started cfg db))
      = bt_runs db @ [f \<lparr>rn_id = i, rn_config = config_json cfg,
         rn_data_range = [(''start'', JStr (isoformat (bc_start cfg))), (''end'', JStr (isoformat (bc_end cfg)))], rn_seed = bc_seed cfg,
         rn_code_versions = CODE_VERSIONS, rn_status = RUNNING, rn_error = None, rn_metrics = [], rn_started_at = started, rn_finished_at = None\<rparr>]"
  using map_update_fresh [OF assms] by (simp add: update_run_def insert_run_def)

lemma find_none: "i \<notin> rn_id ` set rs \<Longrightarrow> find (\<lambda>r. rn_id r = i) rs = None"
  by (auto simp: find_None_iff)

lemma find_snoc: "find P (xs @ [x]) = (case find P xs of Some y \<Rightarrow> Some y | None \<Rightarrow> if P x then Some x else None)"
  by (induction xs) simp_all

lemma get_run_snoc:
  assumes "bt_runs db' = bt_runs db @ [r]" "i \<notin> rn_id ` set (bt_runs db)" "rn_id r = i"
  shows "get_run i db' = Some r" "j \<noteq> i \<Longrightarrow> get_run j db' = get_run j db"
  using find_none [OF assms(2)] assms(1,3) by (auto simp: get_run_def find_snoc split: option.splits)

lemma row_ids [simp]: "bx_run_id (trade_row_of i t) = i" "bq_run_id (equity_row_of i p) = i" "bq_ts (equity_row_of i p) = fst p"
  by (simp_all add: trade_row_of_def equity_row_of_def)

lemma get_rows_snoc:
  assumes "i \<notin> rn_id ` set (bt_runs db)" "bt_db_ok db"
    "bt_trades db' = bt_trades db @ map (trade_row_of i) ts" "bt_equity db' = bt_equity db @ map (equity_row_of i) ps"
  shows "get_trades i db' = map (trade_row_of i) ts" "get_equity i db' = sort_key bq_ts (map (equity_row_of i) ps)"
    "j \<noteq> i \<Longrightarrow> get_trades j db' = get_trades j db \<and> get_equity j db' = get_equity j db"
proof -
  have "\<forall>r\<in>set (bt_trades db). bx_run_id r \<noteq> i" "\<forall>r\<in>set (bt_equity db). bq_run_id r \<noteq> i"
    using assms(1,2) unfolding bt_db_ok_def by metis+
  then have "filter (\<lambda>r. bx_run_id r = i) (bt_trades db) = []" "filter (\<lambda>r. bq_run_id r = i) (bt_equity db) = []"
    by (simp_all add: filter_empty_conv)
  then show "get_trades i db' = map (trade_row_of i) ts" "get_equity i db' = sort_key bq_ts (map (equity_row_of i) ps)"
    by (simp_all add: get_trades_def get_equity_def assms(3,4) comp_def)
  show "get_trades j db' = get_trades j db \<and> get_equity j db' = get_equity j db" if "j \<noteq> i"
    using that by (auto simp: get_trades_def get_equity_def assms(3,4) filter_empty_conv comp_def)
qed

lemma execute_runD:
  assumes "execute_run V cfg signals i now db = Inr db'"
  obtains replay st ratios where "load_replayed_signals cfg signals = Inr replay"
    "run_driver (service_env V cfg replay) (service_broker cfg) = Inr st"
    "risk_adjusted (bv_stat V) (dv_equity_points st) (hd (bc_timeframes cfg)) = Inr ratios"
    "distinct (map equity_key (bt_equity db @ map (equity_row_of i) (dv_equity_points st)))"
    "db' = mark_completed i (metrics_json (driver_metrics cfg st) ratios) now
       (db\<lparr>bt_trades := bt_trades db @ map (trade_row_of i) (trades (dv_broker st)),
           bt_equity := bt_equity db @ map (equity_row_of i) (dv_equity_points st)\<rparr>)"
  using assms unfolding execute_run_def save_trades_def save_equity_curve_def Let_def
  by (auto split: sum.splits option.splits if_splits)

text \<open>The outcome of a run with a new id, without the reader functions.\<close>

lemma run_backtest_cases:
  assumes "i \<notin> rn_id ` set (bt_runs db)" "seed_fits (bc_seed cfg)"
  obtains (failed) e r where "run_backtest V cfg signals i started finished db = (Inl e, db\<lparr>bt_runs := bt_runs db @ [r]\<rparr>)"
      "rn_id r = i" "rn_status r = FAILED" "rn_error r = Some (bv_error_text V e)" "rn_finished_at r = Some finished" "rn_metrics r = []"
      "execute_run V cfg signals i finished (insert_run i started cfg db) = Inl e"
  | (completed) replay st ratios r where "load_replayed_signals cfg signals = Inr replay"
      "run_driver (service_env V cfg replay) (service_broker cfg) = Inr st"
      "risk_adjusted (bv_stat V) (dv_equity_points st) (hd (bc_timeframes cfg)) = Inr ratios"
      "distinct (map equity_key (bt_equity db @ map (equity_row_of i) (dv_equity_points st)))"
      "run_backtest V cfg signals i started finished db = (Inr i,
         \<lparr>bt_runs = bt_runs db @ [r], bt_trades = bt_trades db @ map (trade_row_of i) (trades (dv_broker st)),
          bt_equity = bt_equity db @ map (equity_row_of i) (dv_equity_points st)\<rparr>)"
      "rn_id r = i" "rn_status r = COMPLETED" "rn_error r = None" "rn_finished_at r = Some finished"
      "rn_metrics r = metrics_json (driver_metrics cfg st) ratios" "rn_config r = config_json cfg"
proof (cases "execute_run V cfg signals i finished (insert_run i started cfg db)")
  case (Inl e)
  let ?f = "\<lambda>r. r\<lparr>rn_status := FAILED, rn_error := Some (bv_error_text V e), rn_finished_at := Some finished\<rparr>"
  have eq: "mark_failed i (bv_error_text V e) finished (insert_run i started cfg db)
      = db\<lparr>bt_runs := bt_runs (update_run i ?f (insert_run i started cfg db))\<rparr>"
    by (simp add: mark_failed_def update_run_def insert_run_def)
  show thesis
    by (rule failed [OF _ _ _ _ _ _ Inl, unfolded run_backtest_def create_run_def if_P [OF assms(2)] option.case Inl sum.case eq update_created [OF assms(1)]]) (rule refl, simp_all)
next
  case (Inr db')
  show thesis
  proof (rule execute_runD [OF Inr])
    fix replay st ratios
    let ?m = "metrics_json (driver_metrics cfg st) ratios"
    let ?f = "\<lambda>r. r\<lparr>rn_status := COMPLETED, rn_metrics := ?m, rn_finished_at := Some finished\<rparr>"
    assume a: "load_replayed_signals cfg signals = Inr replay"
      "run_driver (service_env V cfg replay) (service_broker cfg) = Inr st"
      "risk_adjusted (bv_stat V) (dv_equity_points st) (hd (bc_timeframes cfg)) = Inr ratios"
      "distinct (map equity_key (bt_equity (insert_run i started cfg db) @ map (equity_row_of i) (dv_equity_points st)))"
      "db' = mark_completed i ?m finished ((insert_run i started cfg db)
        \<lparr>bt_trades := bt_trades (insert_run i started cfg db) @ map (trade_row_of i) (trades (dv_broker st)),
         bt_equity := bt_equity (insert_run i started cfg db) @ map (equity_row_of i) (dv_equity_points st)\<rparr>)"
    have eq: "db' = \<lparr>bt_runs = bt_runs (update_run i ?f (insert_run i started cfg db)),
        bt_trades = bt_trades db @ map (trade_row_of i) (trades (dv_broker st)),
        bt_equity = bt_equity db @ map (equity_row_of i) (dv_equity_points st)\<rparr>"
      unfolding a(5) by (simp add: mark_completed_def update_run_def)
    have run: "run_backtest V cfg signals i started finished db = (Inr i, db')" by (simp add: run_backtest_def create_run_def assms(2) Inr)
    show thesis
      by (rule completed [OF a(1-3) a(4) [unfolded insert_run_simps], unfolded run eq update_created [OF assms(1)]]) (rule refl, simp_all)
  qed
qed

section \<open>Several symbols\<close>

lemma repeated_not_distinct:
  assumes "distinct B" "a \<in> set B" "b \<in> set B" "a \<noteq> b"
  shows "\<not> distinct (remdups_adj (B @ B @ rest))"
proof -
  from assms obtain x y B' where B: "B = x # y # B'" by (cases B rule: remdups_adj.cases) auto
  have "List.last B \<in> set (y # B')" by (simp add: B)
  then have ne: "x \<noteq> List.last B" using assms(1) by (auto simp: B)
  then have "dropWhile (\<lambda>z. z = List.last B) (B @ rest) = B @ rest" by (simp add: B)
  then have "remdups_adj (B @ B @ rest) = remdups_adj B @ remdups_adj (B @ rest)"
    using remdups_adj_append'' [of B "B @ rest"] by (simp add: B)
  moreover have "x \<in> set (remdups_adj B) \<inter> set (remdups_adj (B @ rest))" by (simp add: B)
  ultimately show ?thesis by (metis distinct_append empty_iff)
qed

lemma equity_keys_distinct: "distinct (map equity_key (db @ map (equity_row_of i) ps)) \<Longrightarrow> distinct (map fst ps)"
  by (simp add: comp_def equity_key_def distinct_map inj_on_def)

lemma synthetic_load_bars:
  assumes "be_candles env = synthetic_candle_provider M H"
  shows "map cd_bucket_start (load_bars env s tf) = map (\<lambda>t. align_to_bucket t tf)
     (iterate_buckets (align_to_bucket (align_to_bucket (bc_start (be_cfg env)) tf) tf) (bc_end (be_cfg env)) tf)"
  by (simp add: load_bars_def assms synthetic_candle_provider_def synthetic_candle_def Let_def)

text \<open>Each bar of the range occurs once in the bars of a symbol, the same for every symbol.\<close>

lemma synthetic_bars:
  assumes "be_candles env = synthetic_candle_provider M H" "align_to_bucket (bc_start (be_cfg env)) tf + tf_step tf < bc_end (be_cfg env)"
  obtains B where "\<And>s. map cd_bucket_start (load_bars env s tf) = B" "distinct B"
    "align_to_bucket (bc_start (be_cfg env)) tf \<in> set B" "align_to_bucket (bc_start (be_cfg env)) tf + tf_step tf \<in> set B"
proof -
  let ?a = "align_to_bucket (bc_start (be_cfg env)) tf" and ?e = "bc_end (be_cfg env)"
  let ?B = "iterate_buckets ?a ?e tf"
  have pos: "0 < tf_step tf" by (rule tf_step_pos)
  then have f: "sorted ?B \<and> distinct ?B \<and> (\<forall>t. t \<in> set ?B \<longleftrightarrow> t mod tf_step tf = 0 \<and> align_to_bucket ?a tf \<le> t \<and> t < ?e)"
    by (intro iterate_buckets_facts) (use assms(2) in linarith)
  have al: "align_to_bucket t tf = t" if "t mod tf_step tf = 0" for t using that by (simp add: align_to_bucket_def)
  have aa: "align_to_bucket ?a tf = ?a" by (rule al, rule align_mod)
  have lt: "?a < ?e" using pos assms(2) by linarith
  have m: "map (\<lambda>t. align_to_bucket t tf) ?B = ?B" using f al by (intro map_idI) blast
  show thesis
  proof (rule that [of ?B])
    show "map cd_bucket_start (load_bars env s tf) = ?B" for s unfolding synthetic_load_bars [OF assms(1)] aa m ..
    show "distinct ?B" using f by blast
    show "?a \<in> set ?B" "?a + tf_step tf \<in> set ?B" using f aa lt assms(2) align_mod [of "bc_start (be_cfg env)" tf] by simp_all
  qed
qed

text \<open>
  C32. A backtest of two or more symbols always fails. The equity curve appends the bars of every symbol
  in turn, so with two bars in the range the times of the second symbol repeat those of the first, and
  the curve is stored under the unique key \<^verbatim>\<open>(run_id, ts)\<close>: whatever the risk parameters, agents, recorded
  signals and costs, the run ends FAILED, with an error, no metrics, no trade and no curve (or, where the
  seed does not fit its column, is not even created).
\<close>

theorem multi_symbol_runs_fail:
  assumes "bv_candles V = synthetic_candle_provider M H" "2 \<le> length (bc_symbols cfg)"
    "sort_key tf_rank (bc_timeframes cfg) = fine # tfs" "align_to_bucket (bc_start cfg) fine + tf_step fine < bc_end cfg"
    "i \<notin> rn_id ` set (bt_runs db)"
  shows "case run_backtest V cfg signals i started finished db of
      (Inr j, db') \<Rightarrow> False
    | (Inl e, db') \<Rightarrow> if seed_fits (bc_seed cfg)
        then map_option rn_status (get_run i db') = Some FAILED \<and> map_option rn_metrics (get_run i db') = Some []
          \<and> map_option rn_error (get_run i db') = Some (Some (bv_error_text V e)) \<and> bt_trades db' = bt_trades db \<and> bt_equity db' = bt_equity db
        else e = DatabaseError \<and> db' = db"
proof (cases "seed_fits (bc_seed cfg)")
  case False
  then show ?thesis by (simp add: run_backtest_def create_run_def)
next
  case True
  from assms(5) True show ?thesis
  proof (cases rule: run_backtest_cases [of i db cfg V signals started finished])
    case (failed e r)
    have "get_run i (db\<lparr>bt_runs := bt_runs db @ [r]\<rparr>) = Some r" by (rule get_run_snoc(1) [OF _ assms(5) failed(2)]) simp
    then show ?thesis using failed(1-6) True by simp
  next
    case (completed replay st ratios r)
    let ?env = "service_env V cfg replay"
    have cfg: "be_cfg ?env = cfg" "be_candles ?env = synthetic_candle_provider M H" by (simp_all add: service_env_def assms(1))
    obtain B where B: "\<And>s. map cd_bucket_start (load_bars ?env s fine) = B" "distinct B"
      "align_to_bucket (bc_start cfg) fine \<in> set B" "align_to_bucket (bc_start cfg) fine + tf_step fine \<in> set B"
      using synthetic_bars [OF cfg(2), of fine] assms(4) by (auto simp: cfg(1))
    obtain s1 s2 ss where ss: "bc_symbols cfg = s1 # s2 # ss" using assms(2) by (cases "bc_symbols cfg" rule: remdups_adj.cases) auto
    have "stamps st = remdups_adj (B @ B @ concat (map (\<lambda>s. B) ss))"
      using conjunct1 [OF equity_curve_times [OF completed(2)]] assms(3) by (simp add: cfg(1) B(1) ss)
    then have "\<not> distinct (stamps st)" using repeated_not_distinct [OF B(2-4)] tf_step_pos [of fine] by simp
    then show ?thesis using equity_keys_distinct [OF completed(4)] by blast
  qed
qed

lemma insort_rows: "insort_key bq_ts (equity_row_of i p) (map (equity_row_of i) ps) = map (equity_row_of i) (insort_key fst p ps)"
  by (induction ps) simp_all

lemma sort_key_rows: "sort_key bq_ts (map (equity_row_of i) ps) = map (equity_row_of i) (sort_key fst ps)"
  by (induction ps) (simp_all add: insort_rows)

text \<open>
  C31. A backtest with a new run id, exactly. A seed that does not fit its column is a database error and stores
  nothing. Otherwise it always ends with a run row that is COMPLETED or FAILED, never
  RUNNING, and finished; the rows of all other runs are as before and the keys of the tables still hold.
  If it returns its id, the replay and the driver succeeded and the stored trades, curve, configuration
  and metrics are theirs, the curve in order of time; if it raises, the row carries the error text and the run has
  no trade and no curve point, also where the driver itself had succeeded.
\<close>

theorem run_backtest_exact:
  assumes "i \<notin> rn_id ` set (bt_runs db)" "bt_db_ok db"
  shows "case run_backtest V cfg signals i started finished db of (result, db') \<Rightarrow>
      if \<not> seed_fits (bc_seed cfg) then result = Inl DatabaseError \<and> db' = db else
      bt_db_ok db'
      \<and> (\<forall>j. j \<noteq> i \<longrightarrow> get_run j db' = get_run j db \<and> get_trades j db' = get_trades j db \<and> get_equity j db' = get_equity j db)
      \<and> (\<exists>r. get_run i db' = Some r \<and> rn_finished_at r = Some finished
          \<and> (case result of
              Inl e \<Rightarrow> rn_status r = FAILED \<and> rn_error r = Some (bv_error_text V e) \<and> get_trades i db' = [] \<and> get_equity i db' = []
            | Inr j \<Rightarrow> j = i \<and> rn_status r = COMPLETED \<and> rn_error r = None \<and> rn_config r = config_json cfg
                \<and> (\<exists>replay st ratios. load_replayed_signals cfg signals = Inr replay
                    \<and> run_driver (service_env V cfg replay) (service_broker cfg) = Inr st
                    \<and> risk_adjusted (bv_stat V) (dv_equity_points st) (hd (bc_timeframes cfg)) = Inr ratios
                    \<and> rn_metrics r = metrics_json (driver_metrics cfg st) ratios
                    \<and> get_trades i db' = map (trade_row_of i) (trades (dv_broker st))
                    \<and> get_equity i db' = map (equity_row_of i) (sort_key fst (dv_equity_points st)))))"
proof (cases "seed_fits (bc_seed cfg)")
  case False
  then show ?thesis by (simp add: run_backtest_def create_run_def)
next
  case True
  from assms(1) True show ?thesis
  proof (cases rule: run_backtest_cases [of i db cfg V signals started finished])
    case (failed e r)
    let ?db = "db\<lparr>bt_runs := bt_runs db @ [r]\<rparr>"
    have runs: "bt_runs ?db = bt_runs db @ [r]" by simp
    have rows: "bt_trades ?db = bt_trades db @ map (trade_row_of i) []" "bt_equity ?db = bt_equity db @ map (equity_row_of i) []" by simp_all
    have ok: "bt_db_ok ?db" using assms failed(2) by (auto simp: bt_db_ok_def)
    show ?thesis
      using ok get_run_snoc [OF runs assms(1) failed(2)] get_rows_snoc [OF assms rows] failed(3-5) True by (simp add: failed(1))
  next
    case (completed replay st ratios r)
    let ?ts = "map (trade_row_of i) (trades (dv_broker st))" and ?ps = "map (equity_row_of i) (dv_equity_points st)"
    let ?db = "\<lparr>bt_runs = bt_runs db @ [r], bt_trades = bt_trades db @ ?ts, bt_equity = bt_equity db @ ?ps\<rparr>"
    have runs: "bt_runs ?db = bt_runs db @ [r]" by simp
    have rows: "bt_trades ?db = bt_trades db @ ?ts" "bt_equity ?db = bt_equity db @ ?ps" by simp_all
    have ok: "bt_db_ok ?db" using assms completed(4,6) by (auto simp: bt_db_ok_def)
    note gr = get_run_snoc [OF runs assms(1) completed(6)] and rw = get_rows_snoc [OF assms rows, unfolded sort_key_rows]
    have run: "\<exists>replay st ratios. load_replayed_signals cfg signals = Inr replay
        \<and> run_driver (service_env V cfg replay) (service_broker cfg) = Inr st
        \<and> risk_adjusted (bv_stat V) (dv_equity_points st) (hd (bc_timeframes cfg)) = Inr ratios
        \<and> rn_metrics r = metrics_json (driver_metrics cfg st) ratios \<and> get_trades i ?db = map (trade_row_of i) (trades (dv_broker st))
        \<and> get_equity i ?db = map (equity_row_of i) (sort_key fst (dv_equity_points st))"
      by (intro exI conjI) (rule completed(1) completed(2) completed(3) completed(10) rw(1) rw(2))+
    show ?thesis
      unfolding completed(5) prod.case sum.case if_not_P [OF iffD2 [OF not_not True]]
      using ok gr rw(3) completed(7-9,11) run by blast
  qed
qed

section \<open>Examples\<close>

definition demo_service :: bt_service where
  "demo_service = \<lparr>bv_stat = \<lparr>sl_root = fl, sl_pow_half = (\<lambda>x. x)\<rparr>, bv_risk = default_risk_params, bv_agents = (\<lambda>a ctx. Inl ValueError),
     bv_candles = synthetic_candle_provider demo_math (\<lambda>_. 7), bv_render = (\<lambda>_. []), bv_hash = (\<lambda>_. 7),
     bv_error_text = (\<lambda>e. case e of DatabaseError \<Rightarrow> ''duplicate key'' | Raised _ \<Rightarrow> ''error'')\<rparr>"

definition demo_backtest :: backtest_config where
  "demo_backtest = \<lparr>bc_start = 0, bc_end = seconds_td 86400, bc_symbols = [''EURUSD'', ''USDJPY''], bc_timeframes = [H4, H1], bc_seed = 42,
     bc_start_equity = fl 10000, bc_warmup_bars = 80, bc_spread = 0, bc_slippage_pct = 0, bc_require_full_coverage = True\<rparr>"

definition empty_bt_db :: bt_db where
  "empty_bt_db = \<lparr>bt_runs = [], bt_trades = [], bt_equity = []\<rparr>"

theorem multi_symbol_runs_fail_witness:
  "map_option rn_status (get_run 1 (snd (run_backtest demo_service demo_backtest [] 1 5 9 empty_bt_db))) = Some FAILED"
proof -
  have h: "bv_candles demo_service = synthetic_candle_provider demo_math (\<lambda>_. 7)" "2 \<le> length (bc_symbols demo_backtest)"
    "sort_key tf_rank (bc_timeframes demo_backtest) = H1 # [H4]"
    "align_to_bucket (bc_start demo_backtest) H1 + tf_step H1 < bc_end demo_backtest" "1 \<notin> rn_id ` set (bt_runs empty_bt_db)"
    by (simp_all add: demo_service_def demo_backtest_def empty_bt_db_def align_to_bucket_def tf_step_def seconds_td_def)
  have "seed_fits (bc_seed demo_backtest)" by (simp add: demo_backtest_def seed_fits_def)
  then show ?thesis using multi_symbol_runs_fail [OF h, where signals = "[]" and started = 5 and finished = 9] by (auto split: prod.splits sum.splits)
qed

text \<open>A range without bars gives a completed run without trades.\<close>

theorem run_backtest_exact_witness:
  "map_option rn_status (get_run 1 (snd (run_backtest demo_service (demo_backtest\<lparr>bc_end := 0\<rparr>) [] 1 5 9 empty_bt_db))) = Some COMPLETED"
proof -
  let ?cfg = "demo_backtest\<lparr>bc_end := 0\<rparr>"
  have al: "align_to_bucket 0 tf = 0" for tf by (simp add: align_to_bucket_def)
  have bars: "load_bars (service_env demo_service ?cfg Map.empty) s tf = []" for s tf
    by (simp add: load_bars_def service_env_def demo_service_def demo_backtest_def synthetic_candle_provider_def al iterate_buckets_def bucket_loop.simps)
  have replay: "load_replayed_signals ?cfg [] = Inr Map.empty"
    by (simp add: load_replayed_signals_def demo_backtest_def load_signal_history_def selected_signals_def add_replayed_def)
  let ?b = "service_broker ?cfg"
  have tf: "sort_key tf_rank (bc_timeframes (be_cfg (service_env demo_service ?cfg Map.empty))) = [H1, H4]"
    by (simp add: service_env_def demo_backtest_def)
  have ctx: "run_context_tf (service_env demo_service ?cfg Map.empty) s tf st = Inr st" for s tf st
    by (simp add: run_context_tf_def bars)
  have "each (\<lambda>(tf, s) st. run_context_tf (service_env demo_service ?cfg Map.empty) s tf st) xs st = Inr st" for xs st
    by (induction xs) (auto simp: ctx)
  moreover have "each (run_fine (service_env demo_service ?cfg Map.empty) H1) xs st = Inr st" for xs st
    by (induction xs) (simp_all add: run_fine_def bars)
  ultimately have driver: "run_driver (service_env demo_service ?cfg Map.empty) ?b = Inr (init_driver ?b)"
    by (simp add: run_driver_def tf run_context_def)
  have "execute_run demo_service ?cfg [] 1 9 (insert_run 1 5 ?cfg empty_bt_db) \<noteq> Inl e" for e
    unfolding execute_run_def replay sum.case driver
    by (simp add: risk_adjusted_def init_driver_def service_broker_def init_broker_def save_trades_def save_equity_curve_def
        insert_run_def empty_bt_db_def)
  moreover have seed: "seed_fits (bc_seed ?cfg)" by (simp add: demo_backtest_def seed_fits_def)
  ultimately have "\<exists>db'. run_backtest demo_service ?cfg [] 1 5 9 empty_bt_db = (Inr 1, db')"
    by (cases "execute_run demo_service ?cfg [] 1 9 (insert_run 1 5 ?cfg empty_bt_db)") (auto simp: run_backtest_def create_run_def)
  moreover have "1 \<notin> rn_id ` set (bt_runs empty_bt_db)" "bt_db_ok empty_bt_db" by (simp_all add: empty_bt_db_def bt_db_ok_def)
  note run_backtest_exact [OF this, where V = demo_service and cfg = ?cfg and signals = "[]" and started = 5 and finished = 9]
  ultimately show ?thesis using seed by (auto split: prod.splits)
qed

end
