(* ===== verification/Portfolio.thy ===== *)
theory Portfolio
  imports Ledger Auth
begin

text \<open>
  The read side of the paper ledger: the queries (\<^verbatim>\<open>data/portfolio_reader.py\<close>), the response schemas
  (\<^verbatim>\<open>schemas/portfolio.py\<close>) and the routes (\<^verbatim>\<open>api/v1/portfolio.py\<close>), and that what they show is the book of
  the broker. A request reads the tables in a session of its own.
\<close>

section \<open>Views\<close>

record portfolio_position =
  pp_id :: uuid
  pp_order_id :: uuid
  pp_decision_id :: "uuid option"
  pp_symbol :: string
  pp_timeframe :: timeframe
  pp_side :: direction
  pp_units :: f64
  pp_entry_price :: f64
  pp_entry_ts :: datetime
  pp_stop_loss :: "f64 option"
  pp_take_profit :: "f64 option"
  pp_status :: position_status
  pp_exit_price :: "f64 option"
  pp_exit_ts :: "datetime option"
  pp_exit_reason :: "string option"
  pp_gross_pnl :: "f64 option"
  pp_net_pnl :: "f64 option"

record portfolio_order =
  po_id :: uuid
  po_decision_id :: "uuid option"
  po_symbol :: string
  po_timeframe :: timeframe
  po_side :: direction
  po_order_type :: order_type
  po_status :: order_status
  po_units :: f64
  po_requested_price :: "f64 option"
  po_filled_price :: "f64 option"
  po_costs :: f64
  po_stop_loss :: "f64 option"
  po_take_profit :: "f64 option"
  po_filled_at :: "datetime option"
  po_created_at :: "datetime option"

record portfolio_equity_point =
  pe_ts :: datetime
  pe_cash :: f64
  pe_equity :: f64
  pe_open_pnl :: f64
  pe_realized_pnl :: f64
  pe_peak_equity :: f64
  pe_drawdown_pct :: f64
  pe_margin_used :: f64

record portfolio_summary =
  ps_as_of :: "datetime option"
  ps_cash :: f64
  ps_equity :: f64
  ps_open_pnl :: f64
  ps_realized_pnl :: f64
  ps_peak_equity :: f64
  ps_drawdown_pct :: f64
  ps_margin_used :: f64
  ps_open_positions :: nat
  ps_open_orders :: nat

fun position_status_value :: "position_status \<Rightarrow> string" where
  "position_status_value OPEN = ''OPEN''" | "position_status_value CLOSED = ''CLOSED''"

fun order_status_value :: "order_status \<Rightarrow> string" where
  "order_status_value PENDING = ''PENDING''" | "order_status_value FILLED = ''FILLED''"
| "order_status_value CANCELLED = ''CANCELLED''" | "order_status_value REJECTED = ''REJECTED''"

definition POSITION_STATUSES :: "string list" where
  "POSITION_STATUSES = map position_status_value [OPEN, CLOSED]"

definition ORDER_STATUSES :: "string list" where
  "ORDER_STATUSES = map order_status_value [PENDING, FILLED, CANCELLED, REJECTED]"

definition checked_status :: "string option \<Rightarrow> string list \<Rightarrow> py_error + string option" where
  "checked_status status allowed =
     (case status of None \<Rightarrow> Inr None | Some s \<Rightarrow> if s \<in> set allowed then Inr (Some s) else Inl ValueError)"

definition view_position :: "position_row \<Rightarrow> uuid option \<Rightarrow> portfolio_position" where
  "view_position r did =
     \<lparr>pp_id = r_id r, pp_order_id = r_order_id r, pp_decision_id = did, pp_symbol = r_symbol r, pp_timeframe = r_timeframe r,
      pp_side = r_side r, pp_units = fl (r_units r), pp_entry_price = fl (r_entry_price r), pp_entry_ts = r_entry_ts r,
      pp_stop_loss = map_option fl (r_stop_loss r), pp_take_profit = map_option fl (r_take_profit r), pp_status = r_status r,
      pp_exit_price = map_option fl (r_exit_price r), pp_exit_ts = r_exit_ts r, pp_exit_reason = r_exit_reason r,
      pp_gross_pnl = map_option fl (r_gross_pnl r), pp_net_pnl = map_option fl (r_net_pnl r)\<rparr>"

definition view_order :: "order_row \<Rightarrow> portfolio_order" where
  "view_order r =
     \<lparr>po_id = o_id r, po_decision_id = o_decision_id r, po_symbol = o_symbol r, po_timeframe = o_timeframe r, po_side = o_side r,
      po_order_type = o_order_type r, po_status = o_status r, po_units = fl (o_units r),
      po_requested_price = map_option fl (o_requested_price r), po_filled_price = map_option fl (o_filled_price r),
      po_costs = fl (o_costs r), po_stop_loss = map_option fl (o_stop_loss r), po_take_profit = map_option fl (o_take_profit r),
      po_filled_at = o_filled_at r, po_created_at = o_created_at r\<rparr>"

definition equity_point :: "snapshot_row \<Rightarrow> portfolio_equity_point" where
  "equity_point s =
     \<lparr>pe_ts = s_ts s, pe_cash = fl (s_cash s), pe_equity = fl (s_equity s), pe_open_pnl = fl (s_open_pnl s),
      pe_realized_pnl = fl (s_realized_pnl s), pe_peak_equity = fl (s_peak_equity s), pe_drawdown_pct = fl (s_drawdown_pct s),
      pe_margin_used = fl (s_margin_used s)\<rparr>"

definition empty_summary :: portfolio_summary where
  "empty_summary = \<lparr>ps_as_of = None, ps_cash = 0, ps_equity = 0, ps_open_pnl = 0, ps_realized_pnl = 0, ps_peak_equity = 0,
     ps_drawdown_pct = 0, ps_margin_used = 0, ps_open_positions = 0, ps_open_orders = 0\<rparr>"

section \<open>Queries\<close>

text \<open>The inner join with the orders, newest entry first.\<close>

definition position_join :: "store \<Rightarrow> (position_row \<times> uuid option) list" where
  "position_join st = concat (map (\<lambda>r. map (\<lambda>ord. (r, o_decision_id ord)) (filter (\<lambda>ord. o_id ord = r_order_id r) (orders st)))
     (position_rows st))"

definition list_positions :: "string option \<Rightarrow> nat \<Rightarrow> store \<Rightarrow> py_error + portfolio_position list" where
  "list_positions status limit st =
     (case checked_status status POSITION_STATUSES of Inl e \<Rightarrow> Inl e
      | Inr status \<Rightarrow> Inr (map (\<lambda>(r, did). view_position r did) (take limit (sort_key (\<lambda>p. - r_entry_ts (fst p))
          (filter (\<lambda>p. case status of None \<Rightarrow> True | Some s \<Rightarrow> position_status_value (r_status (fst p)) = s) (position_join st))))))"

definition order_created :: "order_row \<Rightarrow> datetime" where
  "order_created r = (case o_created_at r of Some t \<Rightarrow> t | None \<Rightarrow> 0)"

definition list_orders :: "string option \<Rightarrow> nat \<Rightarrow> store \<Rightarrow> py_error + portfolio_order list" where
  "list_orders status limit st =
     (case checked_status status ORDER_STATUSES of Inl e \<Rightarrow> Inl e
      | Inr status \<Rightarrow> Inr (map view_order (take limit (sort_key (\<lambda>r. - order_created r)
          (filter (\<lambda>r. case status of None \<Rightarrow> True | Some s \<Rightarrow> order_status_value (o_status r) = s) (orders st))))))"

definition load_equity_history :: "nat \<Rightarrow> store \<Rightarrow> portfolio_equity_point list" where
  "load_equity_history limit st = map equity_point (rev (take limit (sort_key (\<lambda>s. - s_ts s) (snapshots st))))"

definition load_portfolio_summary :: "store \<Rightarrow> portfolio_summary" where
  "load_portfolio_summary st =
     (case sort_key (\<lambda>s. - s_ts s) (snapshots st) of
        [] \<Rightarrow> empty_summary
      | s # _ \<Rightarrow> \<lparr>ps_as_of = Some (s_ts s), ps_cash = fl (s_cash s), ps_equity = fl (s_equity s), ps_open_pnl = fl (s_open_pnl s),
          ps_realized_pnl = fl (s_realized_pnl s), ps_peak_equity = fl (s_peak_equity s), ps_drawdown_pct = fl (s_drawdown_pct s),
          ps_margin_used = fl (s_margin_used s), ps_open_positions = length (filter (\<lambda>r. r_status r = OPEN) (position_rows st)),
          ps_open_orders = length (filter (\<lambda>r. o_status r = PENDING) (orders st))\<rparr>)"

section \<open>Routes\<close>

text \<open>
  The user is resolved before the query parameters are validated; the response models repeat the fields
  of the views, so a view is its own response.
\<close>

datatype api_error = AppError app_error | InvalidInputError | RequestValidationError | Unhandled py_error

definition MAX_LIMIT :: nat where "MAX_LIMIT = 1000"

definition viewer_route :: "'tok crypto \<Rightarrow> auth_env \<Rightarrow> 'tok option \<Rightarrow> auth_db \<Rightarrow> bool \<Rightarrow> py_error + 'a \<Rightarrow> api_error + 'a" where
  "viewer_route cy env credentials db valid body =
     (case get_current_user cy env credentials db of
        Inl e \<Rightarrow> Inl (AppError e)
      | Inr user \<Rightarrow> if \<not> valid then Inl RequestValidationError
          else (case body of Inl e \<Rightarrow> Inl (Unhandled e) | Inr x \<Rightarrow> Inr x))"

definition portfolio_summary_route :: "'tok crypto \<Rightarrow> auth_env \<Rightarrow> 'tok option \<Rightarrow> auth_db \<Rightarrow> store \<Rightarrow> api_error + portfolio_summary" where
  "portfolio_summary_route cy env credentials db st = viewer_route cy env credentials db True (Inr (load_portfolio_summary st))"

definition portfolio_positions :: "'tok crypto \<Rightarrow> auth_env \<Rightarrow> 'tok option \<Rightarrow> auth_db \<Rightarrow> string option \<Rightarrow> nat \<Rightarrow> store
    \<Rightarrow> api_error + portfolio_position list" where
  "portfolio_positions cy env credentials db status limit st =
     viewer_route cy env credentials db
       ((status = None \<or> status \<in> Some ` {''OPEN'', ''CLOSED''}) \<and> 1 \<le> limit \<and> limit \<le> MAX_LIMIT) (list_positions status limit st)"

definition portfolio_orders :: "'tok crypto \<Rightarrow> auth_env \<Rightarrow> 'tok option \<Rightarrow> auth_db \<Rightarrow> string option \<Rightarrow> nat \<Rightarrow> store
    \<Rightarrow> api_error + portfolio_order list" where
  "portfolio_orders cy env credentials db status limit st =
     viewer_route cy env credentials db
       ((status = None \<or> status \<in> Some ` {''PENDING'', ''FILLED'', ''CANCELLED'', ''REJECTED''}) \<and> 1 \<le> limit \<and> limit \<le> MAX_LIMIT)
       (list_orders status limit st)"

definition portfolio_equity :: "'tok crypto \<Rightarrow> auth_env \<Rightarrow> 'tok option \<Rightarrow> auth_db \<Rightarrow> nat \<Rightarrow> store
    \<Rightarrow> api_error + portfolio_equity_point list" where
  "portfolio_equity cy env credentials db limit st =
     viewer_route cy env credentials db (1 \<le> limit \<and> limit \<le> MAX_LIMIT) (Inr (load_equity_history limit st))"

section \<open>The newest snapshot\<close>

abbreviation later_snapshot :: "snapshot_row \<Rightarrow> snapshot_row \<Rightarrow> snapshot_row" where
  "later_snapshot best x \<equiv> (if s_ts best < s_ts x then x else best)"

lemma foldl_later_first: "\<exists>rest. filter (\<lambda>x. s_ts x = s_ts (foldl later_snapshot a ss)) (a # ss) = foldl later_snapshot a ss # rest"
proof (induction ss arbitrary: a)
  case (Cons x ss)
  let ?b = "foldl later_snapshot (later_snapshot a x) ss"
  have ge: "s_ts (later_snapshot a x) \<le> s_ts ?b" using foldl_latest_ge [of "later_snapshot a x" ss] by blast
  obtain rest where rest: "filter (\<lambda>y. s_ts y = s_ts ?b) (later_snapshot a x # ss) = ?b # rest" using Cons.IH [of "later_snapshot a x"] by blast
  show ?case
  proof (cases "s_ts a < s_ts x")
    case True
    then have "s_ts a \<noteq> s_ts ?b" using ge by simp
    then show ?thesis using rest True by simp
  next
    case False
    then have a: "later_snapshot a x = a" by simp
    show ?thesis
    proof (cases "s_ts a = s_ts ?b")
      case True
      then have "?b = a" using rest unfolding a by simp
      then show ?thesis unfolding foldl_Cons by simp
    next
      case neq: False
      then have "s_ts x \<noteq> s_ts ?b" using ge False unfolding a by linarith
      then show ?thesis using rest neq unfolding a foldl_Cons by simp
    qed
  qed
qed simp

lemma sort_key_nonempty: "xs \<noteq> [] \<Longrightarrow> sort_key f xs \<noteq> []"
  by (metis length_0_conv length_sort)

lemma newest_is_latest: "latest_snapshot st = (case sort_key (\<lambda>s. - s_ts s) (snapshots st) of [] \<Rightarrow> None | s # _ \<Rightarrow> Some s)"
proof (cases "snapshots st")
  case (Cons a ss)
  let ?b = "foldl later_snapshot a ss"
  have "sort_key (\<lambda>s. - s_ts s) (snapshots st) \<noteq> []" by (rule sort_key_nonempty) (simp add: Cons)
  then obtain s xs where s: "sort_key (\<lambda>s. - s_ts s) (snapshots st) = s # xs" by (auto simp: neq_Nil_conv)
  have set: "set (s # xs) = set (a # ss)" unfolding s [symmetric] Cons [symmetric] by (rule set_sort)
  have "sorted (map (\<lambda>s. - s_ts s) (s # xs))" unfolding s [symmetric] by (rule sorted_sort_key)
  then have top: "\<forall>x\<in>set (a # ss). s_ts x \<le> s_ts s" unfolding set [symmetric] by auto
  obtain rest where rest: "filter (\<lambda>x. s_ts x = s_ts ?b) (a # ss) = ?b # rest" using foldl_later_first [of a ss] by blast
  then have "?b \<in> set (filter (\<lambda>x. s_ts x = s_ts ?b) (a # ss))" by (simp only: list.set_intros)
  then have "?b \<in> set (a # ss)" by (simp only: set_filter mem_Collect_eq)
  moreover have "\<forall>x\<in>set (a # ss). s_ts x \<le> s_ts ?b" using foldl_latest_ge [of a ss] by auto
  moreover have "s \<in> set (a # ss)" unfolding set [symmetric] by simp
  ultimately have ts: "s_ts s = s_ts ?b" using top by (intro antisym) blast+
  have "filter (\<lambda>x. - s_ts x = - s_ts s) (s # xs) = filter (\<lambda>x. - s_ts x = - s_ts s) (a # ss)"
    unfolding s [symmetric] Cons [symmetric] by (rule sort_key_stable)
  then have "filter (\<lambda>x. s_ts x = s_ts s) (s # xs) = ?b # rest" unfolding neg_equal_iff_equal rest [folded ts] .
  then have "s = ?b" by simp
  then show ?thesis using Cons s by (simp add: latest_snapshot_def)
qed (simp add: latest_snapshot_def)

section \<open>The views show the book\<close>

type_synonym holding = "string \<times> timeframe \<times> direction \<times> f64 \<times> f64 \<times> datetime \<times> f64 option \<times> f64 option"

definition shown_holding :: "portfolio_position \<Rightarrow> holding" where
  "shown_holding p = (pp_symbol p, pp_timeframe p, pp_side p, pp_units p, pp_entry_price p, pp_entry_ts p, pp_stop_loss p, pp_take_profit p)"

definition book_holding :: "position \<Rightarrow> holding" where
  "book_holding p = (p_symbol p, p_timeframe p, p_side p, p_units p, p_entry_price p, p_entry_ts p, p_stop_loss p, p_take_profit p)"

text \<open>Every position row has its order, as the foreign key demands.\<close>

definition positions_linked :: "store \<Rightarrow> bool" where
  "positions_linked st = (\<forall>r\<in>set (position_rows st). r_order_id r \<in> o_id ` set (orders st))"

lemma filter_unique_key: "distinct (map f xs) \<Longrightarrow> x \<in> set xs \<Longrightarrow> filter (\<lambda>y. f y = f x) xs = [x]"
proof (induction xs)
  case (Cons a xs)
  have "f y \<noteq> f a" if "y \<in> set xs" for y using that Cons.prems(1) by (metis distinct.simps(2) image_eqI list.simps(9) list.set_map)
  with Cons show ?case by (cases "x = a") (auto simp: filter_empty_conv)
qed simp

lemma position_join_rows:
  assumes "distinct (map o_id (orders st))" "positions_linked st"
  shows "map fst (position_join st) = position_rows st"
    "\<forall>(r, did)\<in>set (position_join st). \<exists>ord\<in>set (orders st). o_id ord = r_order_id r \<and> o_decision_id ord = did"
proof -
  let ?f = "\<lambda>r. map (\<lambda>ord. (r, o_decision_id ord)) (filter (\<lambda>ord. o_id ord = r_order_id r) (orders st))"
  have one: "map fst (?f r) = [r]" if "r_order_id r \<in> o_id ` set (orders st)" for r
  proof -
    from that obtain ord where "ord \<in> set (orders st)" "r_order_id r = o_id ord" by blast
    then show ?thesis using filter_unique_key [OF assms(1)] by simp
  qed
  have "map fst (concat (map ?f rs)) = rs" if "\<forall>r\<in>set rs. r_order_id r \<in> o_id ` set (orders st)" for rs
    using that
  proof (induction rs)
    case (Cons r rs)
    then show ?case using one [of r] by (simp del: map_map)
  qed simp
  then show "map fst (position_join st) = position_rows st"
    using assms(2) unfolding positions_linked_def position_join_def by blast
  show "\<forall>(r, did)\<in>set (position_join st). \<exists>ord\<in>set (orders st). o_id ord = r_order_id r \<and> o_decision_id ord = did"
    by (auto simp: position_join_def)
qed

lemma list_positions_rows:
  assumes "distinct (map o_id (orders st))" "positions_linked st" "length (position_rows st) \<le> limit"
  shows "\<exists>ps. list_positions (Some (position_status_value s)) limit st = Inr ps
    \<and> mset (map shown_holding ps) = mset (map (book_holding \<circ> position_of_row) (filter (\<lambda>r. r_status r = s) (position_rows st)))
    \<and> (\<forall>p\<in>set ps. \<exists>ord\<in>set (orders st). o_id ord = pp_order_id p \<and> o_decision_id ord = pp_decision_id p)"
proof -
  note j = position_join_rows [OF assms(1,2)]
  let ?sel = "filter (\<lambda>p. position_status_value (r_status (fst p)) = position_status_value s) (position_join st)"
  let ?srt = "sort_key (\<lambda>p. - r_entry_ts (fst p)) ?sel"
  let ?ps = "map (\<lambda>(r, did). view_position r did) ?srt"
  have inj: "position_status_value a = position_status_value b \<longleftrightarrow> a = b" for a b by (cases a; cases b) simp_all
  have "length (position_join st) = length (position_rows st)" using j(1) by (metis length_map)
  then have "length ?srt \<le> limit" using assms(3) by (metis length_filter_le length_sort order_trans)
  then have r: "list_positions (Some (position_status_value s)) limit st = Inr ?ps"
    by (simp add: list_positions_def checked_status_def POSITION_STATUSES_def, cases s) simp_all
  have "map fst ?sel = filter (\<lambda>r. r_status r = s) (map fst (position_join st))" by (simp add: inj filter_map comp_def)
  then have fst: "map fst ?sel = filter (\<lambda>r. r_status r = s) (position_rows st)" unfolding j(1) .
  have view: "shown_holding (case p of (r, did) \<Rightarrow> view_position r did) = (book_holding \<circ> position_of_row) (fst p)" for p
    by (cases p) (simp add: shown_holding_def book_holding_def view_position_def position_of_row_def)
  have "map shown_holding ?ps = map (book_holding \<circ> position_of_row) (map fst ?srt)" using view by simp
  then have "mset (map shown_holding ?ps) = mset (map (book_holding \<circ> position_of_row) (map fst ?srt))" by (rule arg_cong)
  also have "\<dots> = image_mset (book_holding \<circ> position_of_row) (image_mset fst (mset ?sel))" by (simp only: mset_map mset_sort)
  also have "\<dots> = image_mset (book_holding \<circ> position_of_row) (mset (map fst ?sel))" by (simp only: mset_map)
  finally have m: "mset (map shown_holding ?ps) = mset (map (book_holding \<circ> position_of_row) (filter (\<lambda>r. r_status r = s) (position_rows st)))"
    unfolding fst by (simp only: mset_map)
  have "\<forall>p\<in>set ?ps. \<exists>ord\<in>set (orders st). o_id ord = pp_order_id p \<and> o_decision_id ord = pp_decision_id p"
    using j(2) by (fastforce simp: view_position_def)
  with r m show ?thesis by blast
qed

lemma list_orders_rows:
  assumes "length (orders st) \<le> limit"
  shows "\<exists>os. list_orders (Some (order_status_value s)) limit st = Inr os
    \<and> mset (map po_id os) = mset (map o_id (filter (\<lambda>r. o_status r = s) (orders st)))"
proof -
  have inj: "order_status_value a = order_status_value b \<longleftrightarrow> a = b" for a b by (cases a; cases b) simp_all
  let ?srt = "sort_key (\<lambda>r. - order_created r) (filter (\<lambda>r. o_status r = s) (orders st))"
  have "length ?srt \<le> limit" using assms by (metis length_filter_le length_sort order_trans)
  then have "list_orders (Some (order_status_value s)) limit st = Inr (map view_order ?srt)"
    by (simp add: list_orders_def checked_status_def ORDER_STATUSES_def inj, cases s) simp_all
  moreover have "map po_id (map view_order ?srt) = map o_id ?srt" by (simp add: view_order_def)
  then have "mset (map po_id (map view_order ?srt)) = mset (map o_id (filter (\<lambda>r. o_status r = s) (orders st)))"
    by (simp only: mset_map mset_sort)
  with calculation show ?thesis by blast
qed

text \<open>
  C34. The portfolio pages show the book. For every database that keeps the ledger's keys, and the broker a worker
  restores from it: the open positions listed are exactly the broker's positions, each with the
  decision of its order; the pending orders listed are its queue; the summary gives the broker's cash,
  equity, peak and drawdown and counts its positions and its queue. Before the first snapshot the
  summary is all zeros instead, also while orders are queued or positions open.
\<close>

theorem portfolio_shows_book:
  assumes "store_ok st" "positions_linked st" "length (position_rows st) \<le> limit" "length (orders st) \<le> limit"
    "lb = restore_state (init_ledger st e sd c)"
  shows "(\<exists>ps. list_positions (Some ''OPEN'') limit st = Inr ps
        \<and> mset (map shown_holding ps) = mset (map book_holding (positions (lb_paper lb)))
        \<and> (\<forall>p\<in>set ps. \<exists>ord\<in>set (orders st). o_id ord = pp_order_id p \<and> o_decision_id ord = pp_decision_id p))
    \<and> (\<exists>os. list_orders (Some ''PENDING'') limit st = Inr os \<and> mset (map po_id os) = mset (map o_id (lb_pending lb)))
    \<and> (snapshots st \<noteq> [] \<longrightarrow>
        ps_cash (load_portfolio_summary st) = cash (lb_paper lb) \<and> ps_equity (load_portfolio_summary st) = equity (lb_paper lb)
        \<and> ps_peak_equity (load_portfolio_summary st) = peak_equity (lb_paper lb)
        \<and> ps_drawdown_pct (load_portfolio_summary st) = max_drawdown_pct (lb_paper lb)
        \<and> ps_open_positions (load_portfolio_summary st) = length (positions (lb_paper lb))
        \<and> ps_open_orders (load_portfolio_summary st) = length (lb_pending lb))
    \<and> (snapshots st = [] \<longrightarrow> load_portfolio_summary st = empty_summary)"
proof (intro conjI impI)
  have d: "distinct (map o_id (orders st))" using assms(1) by (simp add: store_ok_def)
  have lb: "positions (lb_paper lb) = map position_of_row (list_open_positions st)"
    "lb_pending lb = sort_key restore_key (list_pending_orders st)"
    by (simp_all add: assms(5) restore_state_def init_ledger_def Let_def)
  have pend: "mset (map o_id (lb_pending lb)) = mset (map o_id (filter (\<lambda>r. o_status r = PENDING) (orders st)))"
    unfolding lb(2) list_pending_orders_def by (simp only: mset_map mset_sort)
  show "\<exists>ps. list_positions (Some ''OPEN'') limit st = Inr ps
      \<and> mset (map shown_holding ps) = mset (map book_holding (positions (lb_paper lb)))
      \<and> (\<forall>p\<in>set ps. \<exists>ord\<in>set (orders st). o_id ord = pp_order_id p \<and> o_decision_id ord = pp_decision_id p)"
    using list_positions_rows [OF d assms(2,3), of OPEN]
    unfolding lb(1) list_open_positions_def position_status_value.simps map_map comp_assoc .
  show "\<exists>os. list_orders (Some ''PENDING'') limit st = Inr os \<and> mset (map po_id os) = mset (map o_id (lb_pending lb))"
    using list_orders_rows [OF assms(4), of PENDING] unfolding pend order_status_value.simps .
  show "load_portfolio_summary st = empty_summary" if "snapshots st = []" using that by (simp add: load_portfolio_summary_def)
  assume "snapshots st \<noteq> []"
  then obtain s ss where s: "sort_key (\<lambda>s. - s_ts s) (snapshots st) = s # ss"
    using sort_key_nonempty [of "snapshots st" "\<lambda>s. - s_ts s"] by (auto simp: neq_Nil_conv)
  then have "latest_snapshot st = Some s" by (simp add: newest_is_latest)
  then have acc: "cash (lb_paper lb) = fl (s_cash s)" "equity (lb_paper lb) = fl (s_equity s)"
    "peak_equity (lb_paper lb) = fl (s_peak_equity s)" "max_drawdown_pct (lb_paper lb) = fl (s_drawdown_pct s)"
    by (simp_all add: assms(5) restore_state_def restore_account_def init_ledger_def Let_def)
  show "ps_cash (load_portfolio_summary st) = cash (lb_paper lb)" "ps_equity (load_portfolio_summary st) = equity (lb_paper lb)"
    "ps_peak_equity (load_portfolio_summary st) = peak_equity (lb_paper lb)"
    "ps_drawdown_pct (load_portfolio_summary st) = max_drawdown_pct (lb_paper lb)"
    by (simp_all add: load_portfolio_summary_def s acc)
  show "ps_open_positions (load_portfolio_summary st) = length (positions (lb_paper lb))"
    by (simp add: load_portfolio_summary_def s lb(1) list_open_positions_def)
  show "ps_open_orders (load_portfolio_summary st) = length (lb_pending lb)"
    by (simp add: load_portfolio_summary_def s lb(2) list_pending_orders_def)
qed

text \<open>A queued order before the first snapshot: the order list shows it, the summary counts none.\<close>

definition queued_store :: store where
  "queued_store = lb_store (snd (submit_paper_order 1 0 ''EURUSD'' H1 LONG 1 1 (Some 7) None None
     (restore_state (init_ledger empty_store (fl 1000) 0 None))))"

theorem portfolio_shows_book_witness:
  "\<exists>os. list_orders (Some ''PENDING'') 5 queued_store = Inr os \<and> map po_id os = [1]
    \<and> ps_open_orders (load_portfolio_summary queued_store) = 0"
proof -
  have pos: "\<not> (1 :: f64) \<le> 0" by (simp add: less_eq_f64.rep_eq zero_f64.rep_eq one_f64.rep_eq)
  have st: "orders queued_store = [\<lparr>o_id = 1, o_created_at = Some 0, o_decision_id = Some 7, o_symbol = ''EURUSD'', o_timeframe = H1, o_side = LONG,
      o_order_type = NEXT_OPEN, o_status = PENDING, o_units = to_dec 1, o_requested_price = Some (to_dec 1), o_filled_price = None, o_costs = 0,
      o_stop_loss = None, o_take_profit = None, o_seed = 0, o_filled_at = None\<rparr>]"
    "position_rows queued_store = []" "snapshots queued_store = []"
    by (simp_all add: queued_store_def submit_paper_order_def restore_state_def init_ledger_def restore_account_def empty_store_def
        list_open_positions_def list_closed_positions_def list_pending_orders_def latest_snapshot_def open_for_def Let_def
        upper_def char_upper_def pos)
  have ok: "store_ok queued_store" "positions_linked queued_store" "length (position_rows queued_store) \<le> 5" "length (orders queued_store) \<le> 5"
    by (simp_all add: store_ok_def positions_linked_def st list_open_positions_def map_filter_def upper_def char_upper_def)
  let ?lb = "restore_state (init_ledger queued_store (fl 1000) 0 None)"
  have pend: "map o_id (lb_pending ?lb) = [1]" by (simp add: restore_state_def init_ledger_def Let_def list_pending_orders_def st)
  obtain os where os: "list_orders (Some ''PENDING'') 5 queued_store = Inr os" "mset (map po_id os) = mset (map o_id (lb_pending ?lb))"
    using portfolio_shows_book [OF ok refl, of "fl 1000" 0 None] by blast
  have "map po_id os = [1]" using os(2) unfolding pend by (simp del: mset_map)
  moreover have "load_portfolio_summary queued_store = empty_summary"
    using portfolio_shows_book [OF ok refl, of "fl 1000" 0 None] st(3) by blast
  ultimately show ?thesis using os(1) by (simp add: empty_summary_def)
qed

end
