(* ===== verification/Admin.thy ===== *)
theory Admin
  imports Config Portfolio AuthRuns Engine
begin

text \<open>
  Runtime administration: the settings table (\<^verbatim>\<open>models/system_setting.py\<close>), the market universe
  (\<^verbatim>\<open>data/market_config.py\<close>), the routes of \<^verbatim>\<open>api/v1/admin.py\<close> and \<^verbatim>\<open>risk.py\<close>. The queue of backfill jobs and the
  stream of triggers live in Redis: what a request pushes there stays when its transaction fails.
\<close>

section \<open>Stored settings\<close>

record setting_row =
  sv_value :: json
  sv_description :: "string option"
  sv_updated_by :: "string option"

type_synonym settings_table = "string \<rightharpoonup> setting_row"

definition SYMBOLS_KEY :: string where "SYMBOLS_KEY = ''market.symbols''"
definition TIMEFRAMES_KEY :: string where "TIMEFRAMES_KEY = ''market.timeframes''"
definition RISK_SETTING_KEY :: string where "RISK_SETTING_KEY = ''risk.params''"

text \<open>A row is inserted or its value and author replaced; the author has 64 characters.\<close>

definition put_setting :: "string \<Rightarrow> json \<Rightarrow> string option \<Rightarrow> string \<Rightarrow> settings_table \<Rightarrow> settings_table option" where
  "put_setting key value description actor t =
     (if 64 < length actor then None
      else Some (t(key \<mapsto> (case t key of None \<Rightarrow> \<lparr>sv_value = value, sv_description = description, sv_updated_by = Some actor\<rparr>
         | Some r \<Rightarrow> r\<lparr>sv_value := value, sv_updated_by := Some actor\<rparr>))))"

definition read_setting :: "settings_table \<Rightarrow> string \<Rightarrow> json list option" where
  "read_setting t key =
     (case t key of None \<Rightarrow> None
      | Some row \<Rightarrow> (case sv_value row of JDict d \<Rightarrow> (case json_get d ''value'' of Some (JList xs) \<Rightarrow> Some xs | _ \<Rightarrow> None) | _ \<Rightarrow> None))"

definition get_market_config :: "settings \<Rightarrow> settings_table \<Rightarrow> json list \<times> json list" where
  "get_market_config s t =
     (case read_setting t SYMBOLS_KEY of Some xs \<Rightarrow> xs | None \<Rightarrow> map JStr (market_symbols s),
      case read_setting t TIMEFRAMES_KEY of Some xs \<Rightarrow> xs | None \<Rightarrow> map JStr (market_timeframes s))"

definition chosen :: "(string list \<Rightarrow> py_error + string list) \<Rightarrow> string list option \<Rightarrow> json list \<Rightarrow> py_error + json list" where
  "chosen check new current = (case new of None \<Rightarrow> Inr current
     | Some xs \<Rightarrow> (case check xs of Inl e \<Rightarrow> Inl e | Inr ys \<Rightarrow> Inr (map JStr ys)))"

text \<open>The new universe and the written table, \<open>None\<close> where the database refuses it.\<close>

definition set_market_config ::
  "settings \<Rightarrow> string \<Rightarrow> string list option \<Rightarrow> string list option \<Rightarrow> settings_table
   \<Rightarrow> py_error + (json list \<times> json list) \<times> settings_table option" where
  "set_market_config s actor symbols timeframes t =
     (let (current_symbols, current_timeframes) = get_market_config s t in
      case chosen normalize_symbols symbols current_symbols of Inl e \<Rightarrow> Inl e
      | Inr new_symbols \<Rightarrow>
        (case chosen normalize_timeframes timeframes current_timeframes of Inl e \<Rightarrow> Inl e
         | Inr new_timeframes \<Rightarrow> Inr ((new_symbols, new_timeframes),
             Option.bind (put_setting SYMBOLS_KEY (JDict [(''value'', JList new_symbols)]) None actor t)
               (put_setting TIMEFRAMES_KEY (JDict [(''value'', JList new_timeframes)]) None actor))))"

section \<open>The world of an admin request\<close>

record backfill_job =
  bj_symbols :: "json list"
  bj_timeframes :: "json list"
  bj_start :: string
  bj_end :: string

record admin_world =
  aw_auth :: auth_db
  aw_settings :: settings_table
  aw_backfills :: "backfill_job list"
  aw_triggers :: "(string \<times> json) list list"

definition admin_audit :: "auth_env \<Rightarrow> user_row \<Rightarrow> string \<Rightarrow> string \<Rightarrow> string \<Rightarrow> (string \<times> json) list \<Rightarrow> auth_write" where
  "admin_audit env admin action entity_type entity_id after =
     AddAudit \<lparr>au_actor = u_email admin, au_action = action, au_entity_type = Some entity_type, au_entity_id = Some entity_id,
       au_before = None, au_after = Some after, au_ip = ae_ip env\<rparr>"

text \<open>The commit at the end of a request: the settings and the audit row, both or none.\<close>

definition commit_admin :: "'a \<Rightarrow> settings_table option \<Rightarrow> auth_write \<Rightarrow> admin_world \<Rightarrow> (api_error + 'a) \<times> admin_world" where
  "commit_admin answer t audit w =
     (case t of None \<Rightarrow> (Inl (AppError DatabaseError), w)
      | Some t' \<Rightarrow> (case apply_write audit (aw_auth w) of None \<Rightarrow> (Inl (AppError DatabaseError), w)
          | Some a \<Rightarrow> (Inr answer, w\<lparr>aw_auth := a, aw_settings := t'\<rparr>)))"

definition admin_route ::
  "'tok crypto \<Rightarrow> auth_env \<Rightarrow> 'tok option \<Rightarrow> bool \<Rightarrow> (user_row \<Rightarrow> (api_error + 'a) \<times> admin_world) \<Rightarrow> admin_world \<Rightarrow> (api_error + 'a) \<times> admin_world" where
  "admin_route cy env credentials valid body w =
     (case require_role cy env ''admin'' credentials (aw_auth w) of
        Inl e \<Rightarrow> (Inl (AppError e), w)
      | Inr admin \<Rightarrow> if \<not> valid then (Inl RequestValidationError, w) else body admin)"

section \<open>Market universe routes\<close>

record market_config_out =
  mo_provider :: string
  mo_symbols :: "json list"
  mo_timeframes :: "json list"
  mo_supported :: "string list"

definition market_out :: "settings \<Rightarrow> json list \<times> json list \<Rightarrow> market_config_out" where
  "market_out s cfg = \<lparr>mo_provider = market_data_provider s, mo_symbols = fst cfg, mo_timeframes = snd cfg,
     mo_supported = map tf_name tf_values\<rparr>"

definition read_market_config ::
  "'tok crypto \<Rightarrow> auth_env \<Rightarrow> settings \<Rightarrow> 'tok option \<Rightarrow> admin_world \<Rightarrow> (api_error + market_config_out) \<times> admin_world" where
  "read_market_config cy env s credentials w =
     admin_route cy env credentials True (\<lambda>admin. (Inr (market_out s (get_market_config s (aw_settings w))), w)) w"

definition short_list :: "nat \<Rightarrow> 'a list option \<Rightarrow> bool" where
  "short_list n xs = (case xs of None \<Rightarrow> True | Some ys \<Rightarrow> length ys \<le> n)"

definition update_market_config ::
  "'tok crypto \<Rightarrow> auth_env \<Rightarrow> settings \<Rightarrow> 'tok option \<Rightarrow> string list option \<Rightarrow> string list option \<Rightarrow> admin_world
   \<Rightarrow> (api_error + market_config_out) \<times> admin_world" where
  "update_market_config cy env s credentials symbols timeframes w =
     admin_route cy env credentials (short_list 64 symbols \<and> short_list 8 timeframes) (\<lambda>admin.
       case set_market_config s (u_email admin) symbols timeframes (aw_settings w) of
         Inl e \<Rightarrow> (Inl InvalidInputError, w)
       | Inr (cfg, t) \<Rightarrow> commit_admin (market_out s cfg) t
           (admin_audit env admin ''admin.market_config_updated'' ''system_setting'' (SYMBOLS_KEY @ ''+'' @ TIMEFRAMES_KEY)
             [(''symbols'', JList (fst cfg)), (''timeframes'', JList (snd cfg))]) w) w"

section \<open>Jobs and triggers\<close>

definition MAX_BACKFILL_DAYS :: int where "MAX_BACKFILL_DAYS = 90"

definition str_list :: "'tok crypto \<Rightarrow> json list \<Rightarrow> string" where
  "str_list cy xs = py_str (cy_render cy) (JList xs)"

definition job_of :: "settings \<Rightarrow> settings_table \<Rightarrow> string list option \<Rightarrow> string list option \<Rightarrow> datetime \<Rightarrow> datetime \<Rightarrow> backfill_job" where
  "job_of s t symbols timeframes start end_ts =
     (let (effective_symbols, effective_timeframes) = get_market_config s t;
          pick = (\<lambda>new current. case new of None \<Rightarrow> current | Some [] \<Rightarrow> current | Some xs \<Rightarrow> map JStr xs)
      in \<lparr>bj_symbols = pick symbols effective_symbols, bj_timeframes = pick timeframes effective_timeframes,
          bj_start = isoformat start, bj_end = isoformat end_ts\<rparr>)"

definition job_audit :: "'tok crypto \<Rightarrow> auth_env \<Rightarrow> user_row \<Rightarrow> backfill_job \<Rightarrow> auth_write" where
  "job_audit cy env admin job =
     admin_audit env admin ''admin.backfill_triggered'' ''backfill_job'' (str_list cy (bj_symbols job) @ ''|'' @ str_list cy (bj_timeframes job))
       [(''start'', JStr (bj_start job)), (''end'', JStr (bj_end job))]"

text \<open>\<^verbatim>\<open>LPUSH\<close>: the newest job is the head of the queue.\<close>

definition trigger_backfill ::
  "'tok crypto \<Rightarrow> auth_env \<Rightarrow> settings \<Rightarrow> 'tok option \<Rightarrow> string list option \<Rightarrow> string list option \<Rightarrow> datetime \<Rightarrow> datetime \<Rightarrow> admin_world
   \<Rightarrow> (api_error + nat) \<times> admin_world" where
  "trigger_backfill cy env s credentials symbols timeframes start end_ts w =
     admin_route cy env credentials (short_list 64 symbols \<and> short_list 8 timeframes) (\<lambda>admin.
       if end_ts \<le> start then (Inl InvalidInputError, w)
       else if MAX_BACKFILL_DAYS < (end_ts - start) div days_td 1 then (Inl InvalidInputError, w)
       else let job = job_of s (aw_settings w) symbols timeframes start end_ts;
                w1 = w\<lparr>aw_backfills := job # aw_backfills w\<rparr>
            in commit_admin 1 (Some (aw_settings w1)) (job_audit cy env admin job) w1) w"

definition replay_decision ::
  "'tok crypto \<Rightarrow> auth_env \<Rightarrow> datetime \<Rightarrow> 'tok option \<Rightarrow> string \<Rightarrow> string \<Rightarrow> admin_world \<Rightarrow> (api_error + string \<times> string) \<times> admin_world" where
  "replay_decision cy env now credentials symbol0 timeframe0 w =
     admin_route cy env credentials (6 \<le> length symbol0 \<and> length symbol0 \<le> 12 \<and> tf_is_valid timeframe0) (\<lambda>admin.
       let symbol = upper (strip symbol0); timeframe = upper (strip timeframe0);
           event = [(''event_type'', JStr ''signal.emitted''), (''payload'', JDict [(''agent_id'', JStr ''replay''), (''symbol'', JStr symbol),
             (''timeframe'', JStr timeframe)]), (''producer'', JStr ''admin''), (''produced_at'', JStr (isoformat now))];
           w1 = w\<lparr>aw_triggers := aw_triggers w @ [event]\<rparr>
       in commit_admin (symbol, timeframe) (Some (aw_settings w1))
            (admin_audit env admin ''admin.decision_replay_triggered'' ''decision'' (symbol @ ''|'' @ timeframe)
              [(''symbol'', JStr symbol), (''timeframe'', JStr timeframe)]) w1) w"

text \<open>The worker side pops at most \<open>limit\<close> jobs, the oldest first.\<close>

fun drain_backfill_queue :: "nat \<Rightarrow> backfill_job list \<Rightarrow> backfill_job list \<times> backfill_job list" where
  "drain_backfill_queue 0 q = ([], q)"
| "drain_backfill_queue (Suc n) q =
     (if q = [] then ([], []) else let (jobs, q') = drain_backfill_queue n (butlast q) in (List.last q # jobs, q'))"

section \<open>Risk routes\<close>

definition risk_state_route ::
  "'tok crypto \<Rightarrow> auth_env \<Rightarrow> datetime \<Rightarrow> risk_state_row list \<Rightarrow> 'tok option \<Rightarrow> admin_world
   \<Rightarrow> (api_error + risk_state_row option \<times> risk_state_row option) \<times> admin_world" where
  "risk_state_route cy env now rows credentials w =
     admin_route cy env credentials True (\<lambda>admin. (Inr (load_risk_state ''daily'' (daily_key now) rows, load_risk_state ''account'' ''global'' rows), w)) w"

definition get_risk_params ::
  "float_str \<Rightarrow> 'tok crypto \<Rightarrow> auth_env \<Rightarrow> settings \<Rightarrow> 'tok option \<Rightarrow> admin_world \<Rightarrow> (api_error + risk_params) \<times> admin_world" where
  "get_risk_params F cy env s credentials w =
     admin_route cy env credentials True
       (\<lambda>admin. (Inr (load_risk_params F (risk_from_settings s) (map_option sv_value (aw_settings w RISK_SETTING_KEY))), w)) w"

definition params_json :: "risk_params \<Rightarrow> json" where
  "params_json r = (case stored_params r of JDict d \<Rightarrow>
     JDict (d @ [(''risk_enabled'', JBool (risk_enabled r)), (''paper_equity'', JFloat (paper_equity r))]) | j \<Rightarrow> j)"

definition update_risk_params ::
  "float_str \<Rightarrow> 'tok crypto \<Rightarrow> auth_env \<Rightarrow> settings \<Rightarrow> 'tok option \<Rightarrow> (string \<times> f64) list \<Rightarrow> admin_world
   \<Rightarrow> (api_error + risk_params) \<times> admin_world" where
  "update_risk_params F cy env s credentials body w =
     admin_route cy env credentials True (\<lambda>admin.
       let updates = map (\<lambda>(k, x). (k, JFloat x)) body;
           (r, row) = set_risk_params F (risk_from_settings s) updates (map_option sv_value (aw_settings w RISK_SETTING_KEY))
       in commit_admin r
            (Option.bind row (\<lambda>v. put_setting RISK_SETTING_KEY v (Some ''Runtime risk parameter overrides'') (u_email admin) (aw_settings w)))
            (admin_audit env admin ''admin.risk_params_updated'' ''system_setting'' ''risk.params''
              [(''updates'', JDict updates), (''resolved'', params_json r)]) w) w"

section \<open>Normalisation\<close>

lemma normalize_loopD:
  assumes "normalize_loop ok acc xs = Inr ys" "distinct acc"
  shows "distinct ys \<and> set ys = set acc \<union> (\<lambda>x. upper (strip x)) ` set xs \<and> (\<forall>x\<in>set xs. ok (upper (strip x)))"
  using assms
proof (induction xs arbitrary: acc)
  case (Cons x xs)
  let ?n = "upper (strip x)" and ?acc = "if upper (strip x) \<in> set acc then acc else acc @ [upper (strip x)]"
  have r: "ok ?n" "normalize_loop ok ?acc xs = Inr ys" using Cons.prems(1) by (auto simp: Let_def split: if_splits)
  have d: "distinct ?acc" "set ?acc = insert ?n (set acc)" using Cons.prems(2) by auto
  show ?case using Cons.IH [OF r(2) d(1)] r(1) unfolding d(2) by auto
qed simp

lemma normalize_symbolsD:
  assumes "normalize_symbols xs = Inr ys"
  shows "ys \<noteq> [] \<and> distinct ys \<and> set ys = (\<lambda>x. upper (strip x)) ` set xs \<and> (\<forall>y\<in>set ys. is_pair y \<and> upper y = y)"
proof -
  have r: "normalize_loop is_pair [] xs = Inr ys" "ys \<noteq> []" using assms by (auto simp: normalize_symbols_def split: sum.splits if_splits)
  show ?thesis using normalize_loopD [OF r(1)] r(2) by auto
qed

lemma normalize_timeframesD:
  assumes "normalize_timeframes xs = Inr ys"
  shows "ys \<noteq> [] \<and> distinct ys \<and> set ys = (\<lambda>x. upper (strip x)) ` set xs \<and> sorted (map name_rank ys) \<and> (\<forall>y\<in>set ys. \<exists>t. y = tf_name t)"
proof -
  obtain zs where r: "normalize_loop tf_is_valid [] xs = Inr zs" "zs \<noteq> []" "ys = sort_key name_rank zs"
    using assms by (auto simp: normalize_timeframes_def split: sum.splits if_splits)
  have v: "\<exists>t. y = tf_name t" if "tf_is_valid y" for y
    using that parse_timeframe_Some by (auto simp: tf_is_valid_def)
  have "ys \<noteq> []" unfolding r(3) by (rule sort_key_nonempty [OF r(2)])
  then show ?thesis using normalize_loopD [OF r(1)] v by (auto simp: r(3))
qed

section \<open>The universe after an update\<close>

lemma read_put_same:
  "put_setting key (JDict [(''value'', JList xs)]) d actor t = Some t' \<Longrightarrow> read_setting t' key = Some xs"
  by (auto simp: put_setting_def read_setting_def json_get_def split: if_splits option.splits)

lemma read_put_other: "put_setting key v d actor t = Some t' \<Longrightarrow> key' \<noteq> key \<Longrightarrow> read_setting t' key' = read_setting t key'"
  by (auto simp: put_setting_def read_setting_def split: if_splits)

lemma setting_keys: "SYMBOLS_KEY \<noteq> TIMEFRAMES_KEY" "SYMBOLS_KEY \<noteq> RISK_SETTING_KEY" "TIMEFRAMES_KEY \<noteq> RISK_SETTING_KEY"
  by (simp_all add: SYMBOLS_KEY_def TIMEFRAMES_KEY_def RISK_SETTING_KEY_def)

lemma chosen_cases:
  assumes "chosen f new current = Inr xs"
  obtains "new = None" "xs = current" | ns ys where "new = Some ns" "f ns = Inr ys" "xs = map JStr ys"
  using assms by (auto simp: chosen_def split: option.splits sum.splits)

lemma set_market_configD:
  assumes "set_market_config s actor symbols timeframes t = Inr (cfg, Some t')"
  shows "read_setting t' SYMBOLS_KEY = Some (fst cfg) \<and> read_setting t' TIMEFRAMES_KEY = Some (snd cfg)
    \<and> chosen normalize_symbols symbols (fst (get_market_config s t)) = Inr (fst cfg)
    \<and> chosen normalize_timeframes timeframes (snd (get_market_config s t)) = Inr (snd cfg)"
proof -
  obtain t1 where r: "chosen normalize_symbols symbols (fst (get_market_config s t)) = Inr (fst cfg)"
    "chosen normalize_timeframes timeframes (snd (get_market_config s t)) = Inr (snd cfg)"
    "put_setting SYMBOLS_KEY (JDict [(''value'', JList (fst cfg))]) None actor t = Some t1"
    "put_setting TIMEFRAMES_KEY (JDict [(''value'', JList (snd cfg))]) None actor t1 = Some t'"
    using assms unfolding set_market_config_def Let_def by (auto simp: bind_eq_Some_conv split: prod.splits sum.splits)
  show ?thesis
    using r(1,2) read_put_same [OF r(3)] read_put_same [OF r(4)] read_put_other [OF r(4) setting_keys(1)] by simp
qed

lemma commit_adminD:
  "commit_admin x t a w = (Inr y, w') \<Longrightarrow> y = x \<and> t = Some (aw_settings w') \<and> apply_write a (aw_auth w) = Some (aw_auth w')
     \<and> aw_backfills w' = aw_backfills w \<and> aw_triggers w' = aw_triggers w"
  "commit_admin x t a w = (Inl e, w') \<Longrightarrow> w' = w"
  by (auto simp: commit_admin_def split: option.splits)

lemma apply_audit:
  assumes "apply_write (admin_audit env admin action et ei after) db = Some db'"
  shows "\<exists>a. audits db' = audits db @ [a]"
proof -
  obtain a where a: "admin_audit env admin action et ei after = AddAudit a" by (simp add: admin_audit_def)
  have "db' = db\<lparr>audits := audits db @ [a]\<rparr>" using assms unfolding a apply_write.simps by (simp split: if_splits)
  then show ?thesis by simp
qed

lemma admin_routeD:
  assumes "admin_route cy env credentials valid body w = (r, w')"
  shows "(w' = w \<and> (\<exists>e. r = Inl e)) \<or> (\<exists>admin. require_role cy env ''admin'' credentials (aw_auth w) = Inr admin \<and> valid \<and> body admin = (r, w'))"
  using assms by (auto simp: admin_route_def split: sum.splits if_splits)

lemma update_market_configD:
  assumes "update_market_config cy env s credentials symbols timeframes w = (Inr out, w')"
  obtains admin cfg where "require_role cy env ''admin'' credentials (aw_auth w) = Inr admin"
    "set_market_config s (u_email admin) symbols timeframes (aw_settings w) = Inr (cfg, Some (aw_settings w'))" "out = market_out s cfg"
    "apply_write (admin_audit env admin ''admin.market_config_updated'' ''system_setting'' (SYMBOLS_KEY @ ''+'' @ TIMEFRAMES_KEY)
       [(''symbols'', JList (fst cfg)), (''timeframes'', JList (snd cfg))]) (aw_auth w) = Some (aw_auth w')"
    "aw_backfills w' = aw_backfills w" "aw_triggers w' = aw_triggers w"
proof -
  from admin_routeD [OF assms [unfolded update_market_config_def]] obtain admin where
    a: "require_role cy env ''admin'' credentials (aw_auth w) = Inr admin"
      "(case set_market_config s (u_email admin) symbols timeframes (aw_settings w) of
         Inl e \<Rightarrow> (Inl InvalidInputError, w)
       | Inr (cfg, t) \<Rightarrow> commit_admin (market_out s cfg) t
           (admin_audit env admin ''admin.market_config_updated'' ''system_setting'' (SYMBOLS_KEY @ ''+'' @ TIMEFRAMES_KEY)
             [(''symbols'', JList (fst cfg)), (''timeframes'', JList (snd cfg))]) w) = (Inr out, w')" by auto
  obtain cfg t where c: "set_market_config s (u_email admin) symbols timeframes (aw_settings w) = Inr (cfg, t)"
    using a(2) by (auto split: sum.splits prod.splits)
  note d = commit_adminD(1) [OF a(2) [unfolded c sum.case prod.case]]
  then have t: "t = Some (aw_settings w')" by blast
  show thesis by (rule that [OF a(1) c [unfolded t]]) (use d in blast)+
qed

lemma update_market_config_failed:
  assumes "update_market_config cy env s credentials symbols timeframes w = (Inl e, w')"
  shows "w' = w"
proof -
  let ?set = "\<lambda>admin. set_market_config s (u_email admin) symbols timeframes (aw_settings w)"
  let ?audit = "\<lambda>admin cfg. admin_audit env admin ''admin.market_config_updated'' ''system_setting'' (SYMBOLS_KEY @ ''+'' @ TIMEFRAMES_KEY)
     [(''symbols'', JList (fst cfg)), (''timeframes'', JList (snd cfg))]"
  let ?body = "\<lambda>admin. case ?set admin of Inl e \<Rightarrow> (Inl InvalidInputError, w)
     | Inr (cfg, t) \<Rightarrow> commit_admin (market_out s cfg) t (?audit admin cfg) w"
  have b: "v = w" if "?body admin = (Inl e, v)" for admin v
  proof (cases "?set admin")
    case (Inr ct)
    obtain cfg t where ct: "ct = (cfg, t)" by fastforce
    show ?thesis using that unfolding Inr sum.case ct prod.case by (rule commit_adminD(2))
  qed (use that in simp)
  show ?thesis using admin_routeD [OF assms [unfolded update_market_config_def]] b by blast
qed

lemma update_market_config_ok:
  assumes "update_market_config cy env s credentials symbols timeframes w = (Inr out, w')"
  shows "(\<forall>s'. get_market_config s' (aw_settings w') = (mo_symbols out, mo_timeframes out))
       \<and> (case symbols of None \<Rightarrow> mo_symbols out = fst (get_market_config s (aw_settings w))
          | Some xs \<Rightarrow> \<exists>ys. mo_symbols out = map JStr ys \<and> ys \<noteq> [] \<and> distinct ys \<and> set ys = (\<lambda>x. upper (strip x)) ` set xs
              \<and> (\<forall>y\<in>set ys. is_pair y))
       \<and> (case timeframes of None \<Rightarrow> mo_timeframes out = snd (get_market_config s (aw_settings w))
          | Some xs \<Rightarrow> \<exists>ys. mo_timeframes out = map JStr ys \<and> ys \<noteq> [] \<and> distinct ys \<and> set ys = (\<lambda>x. upper (strip x)) ` set xs
              \<and> sorted (map name_rank ys))
       \<and> (\<exists>a. audits (aw_auth w') = audits (aw_auth w) @ [a]) \<and> aw_backfills w' = aw_backfills w \<and> aw_triggers w' = aw_triggers w"
  using assms
proof (rule update_market_configD)
  fix admin :: user_row and cfg
  assume c: "set_market_config s (u_email admin) symbols timeframes (aw_settings w) = Inr (cfg, Some (aw_settings w'))" "out = market_out s cfg"
    "apply_write (admin_audit env admin ''admin.market_config_updated'' ''system_setting'' (SYMBOLS_KEY @ ''+'' @ TIMEFRAMES_KEY)
       [(''symbols'', JList (fst cfg)), (''timeframes'', JList (snd cfg))]) (aw_auth w) = Some (aw_auth w')"
    "aw_backfills w' = aw_backfills w" "aw_triggers w' = aw_triggers w"
  note d = set_market_configD [OF c(1)]
  have out: "mo_symbols out = fst cfg" "mo_timeframes out = snd cfg" by (simp_all add: c(2) market_out_def)
  have get: "\<forall>s'. get_market_config s' (aw_settings w') = (mo_symbols out, mo_timeframes out)"
    using conjunct1 [OF d] conjunct1 [OF conjunct2 [OF d]] by (simp only: get_market_config_def out option.case simp_thms)
  have syms: "case symbols of None \<Rightarrow> mo_symbols out = fst (get_market_config s (aw_settings w))
      | Some xs \<Rightarrow> \<exists>ys. mo_symbols out = map JStr ys \<and> ys \<noteq> [] \<and> distinct ys \<and> set ys = (\<lambda>x. upper (strip x)) ` set xs
          \<and> (\<forall>y\<in>set ys. is_pair y)"
    using conjunct1 [OF conjunct2 [OF conjunct2 [OF d]]]
  proof (cases rule: chosen_cases)
    case (2 ns ys)
    show ?thesis unfolding out 2(1,3) option.case by (intro exI [of _ ys] conjI refl) (use normalize_symbolsD [OF 2(2)] in blast)+
  next
    case 1
    show ?thesis unfolding 1(1) option.case out by (rule 1(2))
  qed
  have tfs: "case timeframes of None \<Rightarrow> mo_timeframes out = snd (get_market_config s (aw_settings w))
      | Some xs \<Rightarrow> \<exists>ys. mo_timeframes out = map JStr ys \<and> ys \<noteq> [] \<and> distinct ys \<and> set ys = (\<lambda>x. upper (strip x)) ` set xs
          \<and> sorted (map name_rank ys)"
    using conjunct2 [OF conjunct2 [OF conjunct2 [OF d]]]
  proof (cases rule: chosen_cases)
    case (2 ns ys)
    show ?thesis unfolding out 2(1,3) option.case by (intro exI [of _ ys] conjI refl) (use normalize_timeframesD [OF 2(2)] in blast)+
  next
    case 1
    show ?thesis unfolding 1(1) option.case out by (rule 1(2))
  qed
  show ?thesis by (intro conjI get syms tfs apply_audit [OF c(3)] c(4,5))
qed

text \<open>
  Updating the market universe. If the request succeeds, the universe is exactly what was asked for,
  normalised (trimmed, upper case, each entry once, the timeframes by rank), an omitted field being what was
  effective before; it is stored with one audit row, and from then on it is effective under every
  environment: also an omitted field no longer follows the defaults. If the request fails nothing changed.
\<close>

theorem market_config_roundtrip:
  "case update_market_config cy env s credentials symbols timeframes w of
     (Inl e, w') \<Rightarrow> w' = w
   | (Inr out, w') \<Rightarrow>
       (\<forall>s'. get_market_config s' (aw_settings w') = (mo_symbols out, mo_timeframes out))
       \<and> (case symbols of None \<Rightarrow> mo_symbols out = fst (get_market_config s (aw_settings w))
          | Some xs \<Rightarrow> \<exists>ys. mo_symbols out = map JStr ys \<and> ys \<noteq> [] \<and> distinct ys \<and> set ys = (\<lambda>x. upper (strip x)) ` set xs
              \<and> (\<forall>y\<in>set ys. is_pair y))
       \<and> (case timeframes of None \<Rightarrow> mo_timeframes out = snd (get_market_config s (aw_settings w))
          | Some xs \<Rightarrow> \<exists>ys. mo_timeframes out = map JStr ys \<and> ys \<noteq> [] \<and> distinct ys \<and> set ys = (\<lambda>x. upper (strip x)) ` set xs
              \<and> sorted (map name_rank ys))
       \<and> (\<exists>a. audits (aw_auth w') = audits (aw_auth w) @ [a]) \<and> aw_backfills w' = aw_backfills w \<and> aw_triggers w' = aw_triggers w"
proof -
  obtain r w' where run: "update_market_config cy env s credentials symbols timeframes w = (r, w')" by fastforce
  show ?thesis
  proof (cases r)
    case (Inl e)
    have "w' = w" by (rule update_market_config_failed [OF run [unfolded Inl]])
    then show ?thesis unfolding run Inl by simp
  next
    case (Inr out)
    note ok = update_market_config_ok [OF run [unfolded Inr]]
    show ?thesis unfolding run Inr prod.case sum.case by (rule ok)
  qed
qed

section \<open>The universe is always valid\<close>

definition valid_symbols :: "json list \<Rightarrow> bool" where
  "valid_symbols xs = (xs \<noteq> [] \<and> (\<forall>x\<in>set xs. \<exists>p. x = JStr p \<and> is_pair p \<and> upper p = p))"

definition valid_timeframes :: "json list \<Rightarrow> bool" where
  "valid_timeframes xs = (xs \<noteq> [] \<and> (\<forall>x\<in>set xs. \<exists>t. x = JStr (tf_name t)))"

text \<open>The requests that change the settings or the queues, in any order and by anyone; the accounts may
  change in between, and the ingest worker drains its queue.\<close>

inductive admin_step :: "float_str \<Rightarrow> 'tok crypto \<Rightarrow> settings \<Rightarrow> admin_world \<Rightarrow> admin_world \<Rightarrow> bool" for F cy s where
  market: "admin_step F cy s w (snd (update_market_config cy env s credentials symbols timeframes w))"
| risk: "admin_step F cy s w (snd (update_risk_params F cy env s credentials body w))"
| backfill: "admin_step F cy s w (snd (trigger_backfill cy env s credentials symbols timeframes start end_ts w))"
| replay: "admin_step F cy s w (snd (replay_decision cy env now credentials symbol timeframe w))"
| drain: "admin_step F cy s w (w\<lparr>aw_backfills := snd (drain_backfill_queue n (aw_backfills w))\<rparr>)"
| accounts: "admin_step F cy s w (w\<lparr>aw_auth := db\<rparr>)"

definition universe_ok :: "settings_table \<Rightarrow> bool" where
  "universe_ok t = ((\<forall>xs. read_setting t SYMBOLS_KEY = Some xs \<longrightarrow> valid_symbols xs)
     \<and> (\<forall>xs. read_setting t TIMEFRAMES_KEY = Some xs \<longrightarrow> valid_timeframes xs))"

lemma market_env_valid:
  assumes "make_settings raw = Inr s"
  shows "valid_symbols (map JStr (market_symbols s)) \<and> valid_timeframes (map JStr (market_timeframes s))"
proof -
  have f: "market_symbols s \<noteq> []" "\<forall>x\<in>set (market_symbols s). is_pair x \<and> upper x = x"
    "\<exists>tfs. tfs \<noteq> [] \<and> sorted_wrt (<) tfs \<and> market_timeframes s = map tf_name tfs"
    using settings_facts [OF assms] by blast+
  then show ?thesis by (auto simp: valid_symbols_def valid_timeframes_def)
qed

lemma effective_valid:
  assumes "make_settings raw = Inr s" "universe_ok t"
  shows "valid_symbols (fst (get_market_config s t)) \<and> valid_timeframes (snd (get_market_config s t))"
  using market_env_valid [OF assms(1)] assms(2) by (auto simp: get_market_config_def universe_ok_def split: option.splits)

lemma chosen_symbols_valid:
  assumes "chosen normalize_symbols new current = Inr xs" "valid_symbols current"
  shows "valid_symbols xs"
  using assms(1)
proof (cases rule: chosen_cases)
  case (2 ns ys)
  have n: "ys \<noteq> []" "\<forall>y\<in>set ys. is_pair y \<and> upper y = y" using normalize_symbolsD [OF 2(2)] by blast+
  show ?thesis unfolding valid_symbols_def 2(3) list.set_map list.map_disc_iff using n by blast
qed (use assms(2) in simp)

lemma chosen_timeframes_valid:
  assumes "chosen normalize_timeframes new current = Inr xs" "valid_timeframes current"
  shows "valid_timeframes xs"
  using assms(1)
proof (cases rule: chosen_cases)
  case (2 ns ys)
  have n: "ys \<noteq> []" "\<forall>y\<in>set ys. \<exists>t. y = tf_name t" using normalize_timeframesD [OF 2(2)] by blast+
  show ?thesis unfolding valid_timeframes_def 2(3) list.set_map list.map_disc_iff using n by blast
qed (use assms(2) in simp)

lemma stored_universe:
  assumes "update_market_config cy env s credentials symbols timeframes w = (Inr out, w')"
  shows "\<exists>cfg. read_setting (aw_settings w') SYMBOLS_KEY = Some (fst cfg) \<and> read_setting (aw_settings w') TIMEFRAMES_KEY = Some (snd cfg)
    \<and> chosen normalize_symbols symbols (fst (get_market_config s (aw_settings w))) = Inr (fst cfg)
    \<and> chosen normalize_timeframes timeframes (snd (get_market_config s (aw_settings w))) = Inr (snd cfg)"
  using assms
proof (rule update_market_configD)
  fix admin :: user_row and cfg
  assume "set_market_config s (u_email admin) symbols timeframes (aw_settings w) = Inr (cfg, Some (aw_settings w'))"
  then show ?thesis by (intro exI) (rule set_market_configD)
qed

lemma universe_ok_market:
  assumes "make_settings raw = Inr s" "universe_ok (aw_settings w)"
    "update_market_config cy env s credentials symbols timeframes w = (r, w')"
  shows "universe_ok (aw_settings w')"
proof (cases r)
  case (Inl e)
  have "w' = w" by (rule update_market_config_failed [OF assms(3) [unfolded Inl]])
  then show ?thesis using assms(2) by (simp only:)
next
  case (Inr out)
  obtain cfg where d: "read_setting (aw_settings w') SYMBOLS_KEY = Some (fst cfg)" "read_setting (aw_settings w') TIMEFRAMES_KEY = Some (snd cfg)"
    "chosen normalize_symbols symbols (fst (get_market_config s (aw_settings w))) = Inr (fst cfg)"
    "chosen normalize_timeframes timeframes (snd (get_market_config s (aw_settings w))) = Inr (snd cfg)"
    using stored_universe [OF assms(3) [unfolded Inr]] by (elim exE conjE)
  note e = effective_valid [OF assms(1,2)]
  have "valid_symbols (fst cfg)" "valid_timeframes (snd cfg)"
    by (rule chosen_symbols_valid [OF d(3) conjunct1 [OF e]]) (rule chosen_timeframes_valid [OF d(4) conjunct2 [OF e]])
  then show ?thesis by (simp add: universe_ok_def d(1,2))
qed

lemma commit_admin_same_settings: "t = Some (aw_settings w) \<Longrightarrow> aw_settings (snd (commit_admin x t a w)) = aw_settings w"
  by (simp add: commit_admin_def split: option.splits)

lemma universe_ok_risk:
  assumes "universe_ok (aw_settings w)"
  shows "universe_ok (aw_settings (snd (update_risk_params F cy env s credentials body w)))"
proof -
  have put: "universe_ok t'" if "put_setting RISK_SETTING_KEY v d actor (aw_settings w) = Some t'" for v d actor t'
    using assms read_put_other [OF that] setting_keys by (simp add: universe_ok_def)
  have c: "universe_ok (aw_settings (snd (commit_admin x (Option.bind row (\<lambda>v. put_setting RISK_SETTING_KEY v d actor (aw_settings w))) a w)))"
    for x :: risk_params and row d actor a
    using assms put by (auto simp: commit_admin_def split: option.splits Option.bind_splits)
  show ?thesis unfolding update_risk_params_def admin_route_def Let_def using assms c by (auto split: sum.splits prod.splits)
qed

text \<open>
  C36. The market universe is always valid. From a database without overrides and settings that were accepted at
  start-up, after any sequence of administrative requests the effective universe that the workers read every
  cycle has at least one symbol and one timeframe, every symbol is an upper-case six-letter pair and
  every timeframe is a supported one.
\<close>

theorem market_universe_valid:
  assumes "make_settings raw = Inr s" "aw_settings w0 = Map.empty" "(admin_step F cy s)\<^sup>*\<^sup>* w0 w"
  shows "valid_symbols (fst (get_market_config s (aw_settings w))) \<and> valid_timeframes (snd (get_market_config s (aw_settings w)))"
proof -
  have start: "universe_ok (aw_settings w0)" by (simp add: assms(2) universe_ok_def read_setting_def)
  have step: "universe_ok (aw_settings y)" if "admin_step F cy s x y" "universe_ok (aw_settings x)" for x y
    using that
  proof (induction rule: admin_step.induct)
    case (market w env credentials symbols timeframes)
    obtain r w' where run: "update_market_config cy env s credentials symbols timeframes w = (r, w')" by (rule prod.exhaust)
    show ?case unfolding run snd_conv by (rule universe_ok_market [OF assms(1) market run])
  next
    case (risk w env credentials body)
    then show ?case by (rule universe_ok_risk)
  next
    case (backfill w env credentials symbols timeframes start end_ts)
    have "aw_settings (snd (trigger_backfill cy env s credentials symbols timeframes start end_ts w)) = aw_settings w"
      unfolding trigger_backfill_def admin_route_def Let_def
      by (simp add: commit_admin_same_settings split: sum.splits)
    then show ?case using backfill by simp
  next
    case (replay w env now credentials symbol timeframe)
    have "aw_settings (snd (replay_decision cy env now credentials symbol timeframe w)) = aw_settings w"
      unfolding replay_decision_def admin_route_def Let_def
      by (simp add: commit_admin_same_settings split: sum.splits)
    then show ?case using replay by simp
  qed simp_all
  have "universe_ok (aw_settings w)" using assms(3) start by (induction rule: rtranclp_induct) (auto intro: step)
  then show ?thesis by (rule effective_valid [OF assms(1)])
qed

section \<open>Jobs without an audit row\<close>

lemma drain_all: "length q \<le> n \<Longrightarrow> drain_backfill_queue n q = (rev q, [])"
proof (induction n arbitrary: q)
  case (Suc n)
  show ?case
  proof (cases q rule: rev_cases)
    case (snoc q' x)
    then show ?thesis using Suc.IH [of q'] Suc.prems by simp
  qed simp
qed simp

text \<open>
  C37. A backfill is queued before it is audited. An acceptable request of an admin always puts its job into the
  queue, where the worker finds it behind the older ones; but the audit row names the symbols and timeframes in
  128 characters. Where they, the author or the address do not fit, the request answers with a
  server error and no audit row exists, yet the job is queued and runs.
\<close>

theorem backfill_before_audit:
  assumes "require_role cy env ''admin'' credentials (aw_auth w) = Inr admin" "short_list 64 symbols" "short_list 8 timeframes"
    "start < end_ts" "(end_ts - start) div days_td 1 \<le> MAX_BACKFILL_DAYS" "job = job_of s (aw_settings w) symbols timeframes start end_ts"
  shows "case trigger_backfill cy env s credentials symbols timeframes start end_ts w of (answer, w') \<Rightarrow>
      fst (drain_backfill_queue (length (aw_backfills w')) (aw_backfills w')) = rev (aw_backfills w) @ [job]
      \<and> (if length (str_list cy (bj_symbols job)) + 1 + length (str_list cy (bj_timeframes job)) \<le> 128
             \<and> length (u_email admin) \<le> 128 \<and> fits 64 (ae_ip env)
         then answer = Inr 1 \<and> (\<exists>a. audits (aw_auth w') = audits (aw_auth w) @ [a])
         else answer = Inl (AppError DatabaseError) \<and> aw_auth w' = aw_auth w)"
proof -
  let ?w1 = "w\<lparr>aw_backfills := job # aw_backfills w\<rparr>"
  have run: "trigger_backfill cy env s credentials symbols timeframes start end_ts w
      = commit_admin 1 (Some (aw_settings ?w1)) (job_audit cy env admin job) ?w1"
    using assms by (simp add: trigger_backfill_def admin_route_def Let_def)
  have q: "aw_backfills (snd (commit_admin x t a ?w1)) = job # aw_backfills w" for x :: nat and t a
    by (simp add: commit_admin_def split: option.splits)
  have drain: "fst (drain_backfill_queue (length (job # aw_backfills w)) (job # aw_backfills w)) = rev (aw_backfills w) @ [job]"
    by (simp only: drain_all order_refl fst_conv rev.simps)
  let ?ok = "length (str_list cy (bj_symbols job)) + 1 + length (str_list cy (bj_timeframes job)) \<le> 128
     \<and> length (u_email admin) \<le> 128 \<and> fits 64 (ae_ip env)"
  obtain a where a: "job_audit cy env admin job = AddAudit a" "audit_fits a \<longleftrightarrow> ?ok"
    by (simp add: job_audit_def admin_audit_def audit_fits_def fits_def conj_ac)
  show ?thesis
  proof (cases ?ok)
    case True
    then have "commit_admin (1 :: nat) (Some (aw_settings ?w1)) (job_audit cy env admin job) ?w1
      = (Inr 1, ?w1\<lparr>aw_auth := (aw_auth w)\<lparr>audits := audits (aw_auth w) @ [a]\<rparr>\<rparr>)"
      using a(2) by (simp add: commit_admin_def a(1))
    then show ?thesis unfolding run using True drain by simp
  next
    case False
    then have "commit_admin (1 :: nat) (Some (aw_settings ?w1)) (job_audit cy env admin job) ?w1 = (Inl (AppError DatabaseError), ?w1)"
      using a(2) by (simp only: commit_admin_def a(1) apply_write.simps option.case if_False)
    then show ?thesis unfolding run using False drain by (simp del: One_nat_def)
  qed
qed

text \<open>
  The author of a setting has 64 characters, an e-mail address up to 320: an admin with a longer address can
  neither change the market universe nor the risk parameters, whatever is asked.
\<close>

theorem long_email_powerless:
  assumes "require_role cy env ''admin'' credentials (aw_auth w) = Inr admin" "64 < length (u_email admin)"
  shows "(\<exists>e. update_market_config cy env s credentials symbols timeframes w = (Inl e, w))
    \<and> update_risk_params F cy env s credentials body w = (Inl (AppError DatabaseError), w)"
proof
  have put: "put_setting key v d (u_email admin) t = None" for key v d t using assms(2) by (simp add: put_setting_def)
  show "update_risk_params F cy env s credentials body w = (Inl (AppError DatabaseError), w)"
    by (simp add: update_risk_params_def admin_route_def assms(1) set_risk_params_def Let_def put commit_admin_def)
  obtain r w' where run: "update_market_config cy env s credentials symbols timeframes w = (r, w')" by (rule prod.exhaust)
  have "r \<noteq> Inr out" for out
  proof
    assume r: "r = Inr out"
    show False
    proof (rule update_market_configD [OF run [unfolded r]])
      fix admin' :: user_row and cfg
      assume a: "require_role cy env ''admin'' credentials (aw_auth w) = Inr admin'"
        "set_market_config s (u_email admin') symbols timeframes (aw_settings w) = Inr (cfg, Some (aw_settings w'))"
      then have "admin' = admin" using assms(1) by simp
      with a(2) show False by (simp add: set_market_config_def put Let_def split: sum.splits prod.splits)
    qed
  qed
  then obtain e where r: "r = Inl e" by (cases r) auto
  have "w' = w" by (rule update_market_config_failed [OF run [unfolded r]])
  then show "\<exists>e. update_market_config cy env s credentials symbols timeframes w = (Inl e, w)" using run r by blast
qed

section \<open>Examples\<close>

definition wordy_crypto :: "((string \<times> json) list \<times> string) crypto" where
  "wordy_crypto = demo_crypto\<lparr>cy_render := (\<lambda>j. case j of JList xs \<Rightarrow> replicate (10 * length xs) CHR ''x'' | _ \<Rightarrow> [])\<rparr>"

definition demo_world :: admin_world where
  "demo_world = \<lparr>aw_auth = \<lparr>users = [demo_user], tokens = [], audits = []\<rparr>, aw_settings = Map.empty, aw_backfills = [], aw_triggers = []\<rparr>"

lemma wordy_admin: "require_role wordy_crypto (demo_env 3) ''admin'' (Some demo_access) (aw_auth demo_world) = Inr demo_user"
proof -
  have "decode_token wordy_crypto (demo_env 3) demo_access ''access'' = decode_token demo_crypto (demo_env 3) demo_access ''access''"
    by (simp add: decode_token_def wordy_crypto_def)
  moreover have "json_get (fst demo_access) ''sub'' = Some (JStr (uuid_str 1))" by (simp add: demo_access_def access_payload_def json_get_def)
  moreover have "parse_uuid (uuid_str 1) = Some 1" by (rule parse_uuid_str) simp
  ultimately have "get_current_user wordy_crypto (demo_env 3) (Some demo_access) (aw_auth demo_world) = Inr demo_user"
    by (simp add: get_current_user_def demo_decode py_str_def get_user_def demo_user_def demo_world_def)
  then show ?thesis by (simp add: require_role_def demo_user_def role_at_least_def ROLE_RANK_def)
qed

text \<open>Twenty symbols: the request fails, no audit row is written, the job is queued.\<close>

theorem backfill_before_audit_witness:
  "case trigger_backfill wordy_crypto (demo_env 3) default_settings (Some demo_access) (Some (replicate 20 ''EURUSD'')) None 0 (days_td 7) demo_world of
     (answer, w') \<Rightarrow> answer = Inl (AppError DatabaseError) \<and> audits (aw_auth w') = [] \<and> fst (drain_backfill_queue (length (aw_backfills w')) (aw_backfills w')) \<noteq> []"
proof -
  let ?syms = "replicate 20 ''EURUSD''"
  let ?job = "job_of default_settings (aw_settings demo_world) (Some ?syms) None 0 (days_td 7)"
  have h: "short_list 64 (Some ?syms)" "short_list 8 (None :: string list option)" "(0 :: datetime) < days_td 7"
    "(days_td 7 - 0) div days_td 1 \<le> MAX_BACKFILL_DAYS"
    by (simp_all add: short_list_def days_td_def MAX_BACKFILL_DAYS_def seconds_td_def)
  have "bj_symbols ?job = map JStr ?syms" by (simp add: job_of_def Let_def numeral_eq_Suc split: prod.splits)
  then have "length (str_list wordy_crypto (bj_symbols ?job)) = 200" by (simp add: str_list_def py_str_def wordy_crypto_def)
  moreover have "aw_backfills demo_world = []" "audits (aw_auth demo_world) = []" by (simp_all add: demo_world_def)
  ultimately show ?thesis
    using backfill_before_audit [OF wordy_admin h refl, of default_settings] by (auto split: prod.splits)
qed

theorem market_universe_valid_witness:
  "\<exists>s. make_settings default_settings = Inr s \<and> valid_symbols (fst (get_market_config s (aw_settings demo_world)))"
proof -
  have "make_settings default_settings \<noteq> Inl e" for e by code_simp
  then obtain s where s: "make_settings default_settings = Inr s" by (cases "make_settings default_settings") auto
  have "aw_settings demo_world = Map.empty" by (simp add: demo_world_def)
  from market_universe_valid [OF s this, of "\<lambda>_. None" demo_crypto demo_world] s show ?thesis by blast
qed

text \<open>Two spellings of one pair give one symbol.\<close>

theorem market_config_roundtrip_witness:
  "case update_market_config wordy_crypto (demo_env 3) default_settings (Some demo_access) (Some [''usdjpy '', ''USDJPY'']) None demo_world of
     (Inl e, w') \<Rightarrow> False
   | (Inr out, w') \<Rightarrow> get_market_config default_settings (aw_settings w') = ([JStr ''USDJPY''], mo_timeframes out)"
proof -
  let ?syms = "[''usdjpy '', ''USDJPY'']"
  have n: "normalize_symbols ?syms = Inr [''USDJPY'']" by code_simp
  have im: "(\<lambda>x. upper (strip x)) ` set ?syms = {''USDJPY''}" by code_simp
  have u: "u_email demo_user = ''a@b''" by (simp add: demo_user_def)
  have w: "aw_settings demo_world = Map.empty" "ae_ip (demo_env 3) = None" by (simp_all add: demo_world_def demo_env_def)
  obtain syms0 tfs0 where g: "get_market_config default_settings (aw_settings demo_world) = (syms0, tfs0)" by (rule prod.exhaust)
  obtain out w' where run: "update_market_config wordy_crypto (demo_env 3) default_settings (Some demo_access) (Some ?syms) None demo_world = (Inr out, w')"
    by (simp add: update_market_config_def admin_route_def wordy_admin short_list_def set_market_config_def g chosen_def n put_setting_def
        commit_admin_def admin_audit_def audit_fits_def fits_def u w g [unfolded w] SYMBOLS_KEY_def TIMEFRAMES_KEY_def)
  note f = market_config_roundtrip [where cy = wordy_crypto and env = "demo_env 3" and s = default_settings and credentials = "Some demo_access"
      and symbols = "Some ?syms" and timeframes = None and w = demo_world, unfolded run prod.case sum.case option.case]
  have get: "get_market_config default_settings (aw_settings w') = (mo_symbols out, mo_timeframes out)" using conjunct1 [OF f] by (rule spec)
  obtain ys where ys: "mo_symbols out = map JStr ys" "distinct ys" "set ys = {''USDJPY''}"
    using conjunct1 [OF conjunct2 [OF f]] unfolding im by (elim exE conjE)
  have "ys = [''USDJPY'']" using ys(2,3) by (cases ys rule: remdups_adj.cases) auto
  then show ?thesis unfolding run prod.case sum.case get ys(1) by simp
qed

end
