(* ===== verification/Health.thy ===== *)
theory Health
  imports Config Engine Lexicon
begin

text \<open>
  Liveness of the workers (\<^verbatim>\<open>monitor/heartbeat.py\<close>, \<^verbatim>\<open>monitor/worker_metrics.py\<close>) and the probes of the
  API (\<^verbatim>\<open>api/v1/system.py\<close>). A heartbeat
  is a Redis hash with a time to live: the key is gone once the server's clock is past its expiry. The
  parsing of integers and of ISO dates is a parameter.
\<close>

section \<open>Heartbeats\<close>

definition WORKER_ROLES :: "string list" where
  "WORKER_ROLES = [''ingest'', ''agents'', ''content'', ''orchestrator'', ''alerts'']"

definition worker_heartbeat_key :: "string \<Rightarrow> string" where
  "worker_heartbeat_key role = ''worker:heartbeat:'' @ role"

record redis_hash =
  rh_fields :: "(string \<times> string) list"
  rh_expires :: "datetime option"

type_synonym redis_keys = "string \<rightharpoonup> redis_hash"

text \<open>\<^verbatim>\<open>HGETALL\<close> at the server's time: an expired or missing key is the empty hash.\<close>

definition hgetall :: "datetime \<Rightarrow> string \<Rightarrow> redis_keys \<Rightarrow> (string \<times> string) list" where
  "hgetall now key db = (case db key of None \<Rightarrow> []
     | Some h \<Rightarrow> (case rh_expires h of Some e \<Rightarrow> if e < now then [] else rh_fields h | None \<Rightarrow> rh_fields h))"

record worker_heartbeat =
  wh_role :: string
  wh_ttl :: int
  wh_started_at :: datetime
  wh_pid :: int

definition init_heartbeat :: "string \<Rightarrow> int \<Rightarrow> datetime \<Rightarrow> int \<Rightarrow> worker_heartbeat" where
  "init_heartbeat role ttl started pid = \<lparr>wh_role = role, wh_ttl = max 1 ttl, wh_started_at = started, wh_pid = pid\<rparr>"

text \<open>\<^verbatim>\<open>HSET\<close> with the worker's clock reading, then \<^verbatim>\<open>EXPIRE\<close>, which the server executes at \<open>server\<close>.\<close>

definition touch :: "datetime \<Rightarrow> datetime \<Rightarrow> worker_heartbeat \<Rightarrow> redis_keys \<Rightarrow> redis_keys" where
  "touch timestamp server w db =
     db(worker_heartbeat_key (wh_role w) \<mapsto>
       \<lparr>rh_fields = [(''last_seen'', isoformat timestamp), (''started_at'', isoformat (wh_started_at w)),
          (''pid'', show_int (wh_pid w)), (''ttl_seconds'', show_int (wh_ttl w))],
        rh_expires = Some (server + seconds_td (wh_ttl w))\<rparr>)"

definition clear_heartbeat :: "worker_heartbeat \<Rightarrow> redis_keys \<Rightarrow> redis_keys" where
  "clear_heartbeat w db = db(worker_heartbeat_key (wh_role w) := None)"

record worker_health =
  hw_role :: string
  hw_status :: string
  hw_last_seen :: "datetime option"
  hw_started_at :: "datetime option"
  hw_age_seconds :: "f64 option"
  hw_ttl_seconds :: int

definition heartbeat_status :: "f64 option \<Rightarrow> int \<Rightarrow> string" where
  "heartbeat_status age ttl = (case age of None \<Rightarrow> ''down'' | Some a \<Rightarrow> if of_int ttl < val a then ''stale'' else ''up'')"

definition parse_ts :: "(string \<Rightarrow> datetime option) \<Rightarrow> string option \<Rightarrow> datetime option" where
  "parse_ts parse_iso raw = (case raw of None \<Rightarrow> None | Some s \<Rightarrow> if s = [] then None else parse_iso s)"

definition read_role ::
  "(string \<Rightarrow> datetime option) \<Rightarrow> (string \<Rightarrow> int option) \<Rightarrow> datetime \<Rightarrow> int \<Rightarrow> redis_keys \<Rightarrow> string \<Rightarrow> worker_health" where
  "read_role parse_iso int_of now fallback db role =
     (let raw = hgetall now (worker_heartbeat_key role) db; last_seen = parse_ts parse_iso (map_of raw ''last_seen'');
          declared = (case map_of raw ''ttl_seconds'' of None \<Rightarrow> fallback | Some s \<Rightarrow> (case int_of s of None \<Rightarrow> fallback | Some n \<Rightarrow> n));
          ttl = max 1 declared; age = map_option (\<lambda>t. td_seconds (now - t)) last_seen
      in \<lparr>hw_role = role, hw_status = heartbeat_status age ttl, hw_last_seen = last_seen,
          hw_started_at = parse_ts parse_iso (map_of raw ''started_at''), hw_age_seconds = age, hw_ttl_seconds = ttl\<rparr>)"

definition read_worker_health ::
  "(string \<Rightarrow> datetime option) \<Rightarrow> (string \<Rightarrow> int option) \<Rightarrow> datetime \<Rightarrow> int \<Rightarrow> string list \<Rightarrow> redis_keys \<Rightarrow> worker_health list" where
  "read_worker_health parse_iso int_of now fallback roles db = map (read_role parse_iso int_of now fallback db) roles"

definition heartbeat_ttl_for_loop :: "int \<Rightarrow> int \<Rightarrow> int" where
  "heartbeat_ttl_for_loop loop_period min_ttl = max min_ttl (max 1 loop_period * 3)"

section \<open>Probes\<close>

record component_status =
  co_ok :: bool
  co_latency_ms :: "f64 option"
  co_detail :: "string option"

text \<open>The answer of a probe: its latency, and the text of the exception if it raised.\<close>

type_synonym probe = "f64 \<times> string option"

definition check_probe :: "probe \<Rightarrow> component_status" where
  "check_probe p = (case p of
     (latency, None) \<Rightarrow> \<lparr>co_ok = True, co_latency_ms = Some latency, co_detail = None\<rparr>
   | (latency, Some err) \<Rightarrow> \<lparr>co_ok = False, co_latency_ms = Some latency, co_detail = Some err\<rparr>)"

text \<open>The revisions in the script directory and in the database, either of which may fail to be read;
  \<open>mismatch\<close> formats them.\<close>

definition migrations_component ::
  "(string option \<Rightarrow> string list \<Rightarrow> string) \<Rightarrow> string + string list \<Rightarrow> string + string option \<Rightarrow> component_status" where
  "migrations_component mismatch heads current =
     (case heads of Inl err \<Rightarrow> \<lparr>co_ok = False, co_latency_ms = None, co_detail = Some (''alembic config unavailable: '' @ err)\<rparr>
      | Inr hs \<Rightarrow> (case current of Inl err \<Rightarrow> \<lparr>co_ok = False, co_latency_ms = None, co_detail = Some (''alembic_version unreadable: '' @ err)\<rparr>
          | Inr c \<Rightarrow> let good = (case c of None \<Rightarrow> False | Some v \<Rightarrow> v \<in> set hs)
              in \<lparr>co_ok = good, co_latency_ms = None, co_detail = (if good then None else Some (mismatch c hs))\<rparr>))"

record probes =
  pr_database :: probe
  pr_redis :: probe
  pr_heads :: "string + string list"
  pr_current :: "string + string option"
  pr_mismatch :: "string option \<Rightarrow> string list \<Rightarrow> string"

definition collect_status :: "probes \<Rightarrow> settings \<Rightarrow> (string \<times> component_status) list" where
  "collect_status p s =
     [(''database'', check_probe (pr_database p)), (''redis'', check_probe (pr_redis p)),
      (''migrations'', migrations_component (pr_mismatch p) (pr_heads p) (pr_current p)),
      (''safe_mode'', \<lparr>co_ok = trading_mode s = ''safe'', co_latency_ms = None, co_detail = Some (trading_mode s)\<rparr>)]"

definition health_live :: "settings \<Rightarrow> (string \<times> string) list" where
  "health_live s = [(''status'', ''ok''), (''mode'', trading_mode s)]"

text \<open>Readiness: the names of the failed components (status 503) or the answer.\<close>

definition health_ready :: "probes \<Rightarrow> settings \<Rightarrow> string list + (string \<times> string) list" where
  "health_ready p s =
     (let failed = map fst (filter (\<lambda>c. \<not> co_ok (snd c)) (collect_status p s))
      in if failed \<noteq> [] then Inl failed else Inr [(''status'', ''ok''), (''mode'', trading_mode s)])"

definition APP_NAME :: string where
  "APP_NAME = ''forex-ai-api''"

definition APP_VERSION :: string where
  "APP_VERSION = ''0.1.0''"

definition root_route :: "settings \<Rightarrow> (string \<times> string) list" where
  "root_route s = [(''name'', APP_NAME), (''version'', APP_VERSION), (''mode'', trading_mode s), (''docs'', ''/docs'')]"

record system_status =
  sy_name :: string
  sy_version :: string
  sy_app_env :: string
  sy_trading_mode :: string
  sy_safe_mode :: bool
  sy_time :: datetime
  sy_components :: "(string \<times> component_status) list"
  sy_workers :: "(string \<times> worker_health) list"

definition collect_workers :: "(string \<Rightarrow> datetime option) \<Rightarrow> (string \<Rightarrow> int option) \<Rightarrow> datetime \<Rightarrow> int \<Rightarrow> redis_keys \<Rightarrow> (string \<times> worker_health) list" where
  "collect_workers parse_iso int_of now ttl db = foldl (\<lambda>d h. dict_set (hw_role h) h d) [] (read_worker_health parse_iso int_of now ttl WORKER_ROLES db)"

definition system_status_route ::
  "(string \<Rightarrow> datetime option) \<Rightarrow> (string \<Rightarrow> int option) \<Rightarrow> datetime \<Rightarrow> probes \<Rightarrow> settings \<Rightarrow> redis_keys \<Rightarrow> system_status" where
  "system_status_route parse_iso int_of now p s db =
     (let components = collect_status p s
      in \<lparr>sy_name = APP_NAME, sy_version = APP_VERSION, sy_app_env = app_env s, sy_trading_mode = trading_mode s,
          sy_safe_mode = (case map_of components ''safe_mode'' of None \<Rightarrow> False | Some c \<Rightarrow> co_ok c), sy_time = now,
          sy_components = components, sy_workers = collect_workers parse_iso int_of now (heartbeat_ttl_seconds s) db\<rparr>)"

section \<open>Gauges\<close>

record gauges =
  ga_worker_up :: "string \<rightharpoonup> int"
  ga_heartbeat_age :: "string \<rightharpoonup> f64"
  ga_breach_count :: int
  ga_max_age :: f64

definition worker_gauge :: "worker_health \<Rightarrow> gauges \<Rightarrow> gauges" where
  "worker_gauge h g =
     (let g1 = g\<lparr>ga_worker_up := (ga_worker_up g)(hw_role h \<mapsto> (if hw_status h = ''up'' then 1 else 0))\<rparr>
      in case hw_age_seconds h of None \<Rightarrow> g1 | Some a \<Rightarrow> g1\<lparr>ga_heartbeat_age := (ga_heartbeat_age g1)(hw_role h \<mapsto> a)\<rparr>)"

text \<open>
  A scrape. \<open>db\<close> and \<open>latest\<close> are the hashes and the stored staleness findings, \<open>None\<close> where Redis fails;
  \<open>findings\<close> decodes the text into the two numbers.
\<close>

definition refresh_runtime_gauges ::
  "(string \<Rightarrow> datetime option) \<Rightarrow> (string \<Rightarrow> int option) \<Rightarrow> (string \<Rightarrow> (int \<times> f64) option) \<Rightarrow> datetime \<Rightarrow> int \<Rightarrow> redis_keys option
   \<Rightarrow> string option option \<Rightarrow> gauges \<Rightarrow> gauges" where
  "refresh_runtime_gauges parse_iso int_of findings now ttl db latest g =
     (let g1 = (case db of None \<Rightarrow> g | Some keys \<Rightarrow> fold worker_gauge (read_worker_health parse_iso int_of now ttl WORKER_ROLES keys) g)
      in case latest of None \<Rightarrow> g1 | Some None \<Rightarrow> g1
         | Some (Some raw) \<Rightarrow> (if raw = [] then g1 else case findings raw of
             None \<Rightarrow> g1\<lparr>ga_breach_count := 0, ga_max_age := 0\<rparr>
           | Some (breached, age) \<Rightarrow> g1\<lparr>ga_breach_count := breached, ga_max_age := age\<rparr>))"

definition DEFAULT_WORKER_METRICS_PORTS :: "(string \<times> int) list" where
  "DEFAULT_WORKER_METRICS_PORTS = [(''ingest'', 9101), (''agents'', 9102), (''orchestrator'', 9103), (''alerts'', 9104), (''content'', 9105)]"

text \<open>The stripped value of the environment variable, empty when it is not set; \<open>None\<close> is the \<^verbatim>\<open>KeyError\<close> of an unknown worker.\<close>

definition port_for_worker :: "(string \<Rightarrow> int option) \<Rightarrow> string \<Rightarrow> string \<Rightarrow> int option" where
  "port_for_worker int_of raw worker =
     (let parsed = (if raw = [] then 0 else case int_of raw of None \<Rightarrow> 0 | Some n \<Rightarrow> n)
      in if 0 < parsed \<and> parsed < 65536 then Some parsed else map_of DEFAULT_WORKER_METRICS_PORTS worker)"

record worker_metrics =
  wm_up :: int
  wm_heartbeat_ts :: f64
  wm_cycles :: int
  wm_errors :: int

definition init_metrics :: worker_metrics where
  "init_metrics = \<lparr>wm_up = 0, wm_heartbeat_ts = 0, wm_cycles = 0, wm_errors = 0\<rparr>"

definition mark_heartbeat :: "f64 \<Rightarrow> worker_metrics \<Rightarrow> worker_metrics" where
  "mark_heartbeat now m = m\<lparr>wm_up := 1, wm_heartbeat_ts := now\<rparr>"

definition cycle_metrics :: "int \<Rightarrow> worker_metrics \<Rightarrow> worker_metrics" where
  "cycle_metrics errors m = (let m1 = m\<lparr>wm_cycles := wm_cycles m + 1\<rparr> in if 0 < errors then m1\<lparr>wm_errors := wm_errors m1 + errors\<rparr> else m1)"

definition error_metrics :: "worker_metrics \<Rightarrow> worker_metrics" where
  "error_metrics m = m\<lparr>wm_errors := wm_errors m + 1\<rparr>"

section \<open>When a worker is reported down\<close>

lemma td_seconds_le: "0 \<le> n \<Longrightarrow> n \<le> 2 ^ 53 \<Longrightarrow> d \<le> seconds_td n \<Longrightarrow> val (td_seconds d) \<le> of_int n"
proof -
  assume n: "0 \<le> n" "n \<le> 2 ^ 53" and d: "d \<le> seconds_td n"
  have "of_int d / 1000000 \<le> (of_int n :: rat)" using d by (simp add: seconds_td_def divide_le_eq flip: of_int_le_iff [where 'a = rat])
  then have "fl (of_int d / 1000000) \<le> fl (of_int n)" by (rule fl_mono)
  moreover have "val (fl (of_int n)) = of_int n" using n by (intro fl_int) simp
  ultimately show ?thesis by (simp add: td_seconds_def less_eq_f64.rep_eq)
qed

text \<open>
  What the API says of a worker after its last heartbeat, made at \<open>t\<close> and expiring on the server's clock from
  \<open>e \<ge> t\<close> on: until the time to live has passed since \<open>t\<close> it is up; once it has passed since \<open>e\<close> the key is gone
  and the worker is down. The state stale, meant for a worker that hangs, exists only between
  these two instants, which lie apart by the delay of one command; with no delay a hung worker
  is never reported stale. Other workers are not affected.
\<close>

theorem hung_worker_is_down:
  assumes "parse_iso (isoformat t) = Some t" "isoformat t \<noteq> []" "int_of (show_int (wh_ttl w)) = Some (wh_ttl w)" "1 \<le> wh_ttl w" "wh_ttl w \<le> 2 ^ 53"
    "h = (\<lambda>now. read_role parse_iso int_of now fallback (touch t e w db) (wh_role w))"
  shows "(e + seconds_td (wh_ttl w) < now \<longrightarrow> hw_status (h now) = ''down'')
    \<and> (now \<le> e + seconds_td (wh_ttl w) \<and> now \<le> t + seconds_td (wh_ttl w) \<longrightarrow> hw_status (h now) = ''up'')
    \<and> (hw_status (h now) = ''stale'' \<longrightarrow> t + seconds_td (wh_ttl w) < now \<and> now \<le> e + seconds_td (wh_ttl w))
    \<and> (e = t \<longrightarrow> hw_status (h now) \<noteq> ''stale'')
    \<and> (role \<noteq> wh_role w \<longrightarrow> read_role parse_iso int_of now fallback (touch t e w db) role = read_role parse_iso int_of now fallback db role)"
proof -
  have gone: "hw_status (h now) = ''down''" if "e + seconds_td (wh_ttl w) < now"
    using that by (simp add: assms(6) read_role_def touch_def hgetall_def parse_ts_def heartbeat_status_def Let_def)
  have alive: "hw_status (h now) = heartbeat_status (Some (td_seconds (now - t))) (wh_ttl w)" if "\<not> e + seconds_td (wh_ttl w) < now"
    using that assms(1-4) by (simp add: assms(6) read_role_def touch_def hgetall_def parse_ts_def Let_def)
  have up: "hw_status (h now) = ''up''" if "now \<le> e + seconds_td (wh_ttl w)" "now \<le> t + seconds_td (wh_ttl w)"
  proof -
    have "val (td_seconds (now - t)) \<le> of_int (wh_ttl w)" using assms(4,5) that(2) by (intro td_seconds_le) simp_all
    then show ?thesis using alive that(1) by (simp add: heartbeat_status_def not_less [symmetric])
  qed
  have stale: "t + seconds_td (wh_ttl w) < now \<and> now \<le> e + seconds_td (wh_ttl w)" if "hw_status (h now) = ''stale''"
    using that gone up by fastforce
  have other: "read_role parse_iso int_of now fallback (touch t e w db) role = read_role parse_iso int_of now fallback db role" if "role \<noteq> wh_role w"
    using that by (simp add: read_role_def touch_def hgetall_def worker_heartbeat_key_def)
  show ?thesis using gone up stale other by force
qed

theorem hung_worker_is_down_witness:
  "hw_status (read_role (\<lambda>s. Some 0) (\<lambda>s. Some 60) (seconds_td 61) 60 (touch 0 0 (init_heartbeat ''agents'' 60 0 1) Map.empty) ''agents'') = ''down''"
proof -
  let ?w = "init_heartbeat ''agents'' 60 0 1"
  have w: "wh_ttl ?w = 60" "wh_role ?w = ''agents''" by (simp_all add: init_heartbeat_def)
  have "isoformat 0 \<noteq> []" by (simp add: isoformat_def Let_def)
  then show ?thesis
    using hung_worker_is_down [OF _ _ _ _ _ refl, where parse_iso = "\<lambda>s. Some 0" and int_of = "\<lambda>s. Some 60" and t = 0 and e = 0 and w = ?w and now = "seconds_td 61"
        and fallback = 60 and db = Map.empty]
    by (simp add: w seconds_td_def)
qed

section \<open>Readiness\<close>

text \<open>
  Readiness, exactly: with settings that were accepted at start-up the service is ready iff database and Redis
  answer and the applied migration is a head; otherwise the answer names the failing ones among these
  three in their order. SAFE MODE is asserted but never the reason.
\<close>

theorem health_ready_exact:
  assumes "make_settings raw = Inr s"
  shows "health_ready p s =
    (let db = snd (pr_database p) = None; redis = snd (pr_redis p) = None;
         migrated = (case (pr_heads p, pr_current p) of (Inr hs, Inr (Some v)) \<Rightarrow> v \<in> set hs | _ \<Rightarrow> False)
     in if db \<and> redis \<and> migrated then Inr [(''status'', ''ok''), (''mode'', ''safe'')]
        else Inl ((if db then [] else [''database'']) @ (if redis then [] else [''redis'']) @ (if migrated then [] else [''migrations''])))"
proof -
  have safe: "trading_mode s = ''safe''" using settings_facts [OF assms] by blast
  have c: "co_ok (check_probe q) = (snd q = None)" for q by (cases q) (simp add: check_probe_def split: option.splits)
  have m: "co_ok (migrations_component f hs c) = (case (hs, c) of (Inr hs, Inr (Some v)) \<Rightarrow> v \<in> set hs | _ \<Rightarrow> False)" for f hs c
    by (simp add: migrations_component_def Let_def split: sum.splits option.splits)
  show ?thesis by (simp add: health_ready_def collect_status_def safe c m Let_def)
qed

theorem health_ready_exact_witness:
  "\<exists>s. make_settings default_settings = Inr s
    \<and> health_ready \<lparr>pr_database = (1, None), pr_redis = (1, Some ''timeout''), pr_heads = Inr [''0012''], pr_current = Inr (Some ''0012''),
        pr_mismatch = (\<lambda>_ _. [])\<rparr> s = Inl [''redis'']"
proof -
  have "make_settings default_settings \<noteq> Inl e" for e by code_simp
  then obtain s where s: "make_settings default_settings = Inr s" by (cases "make_settings default_settings") auto
  show ?thesis using health_ready_exact [OF s] s by (intro exI [of _ s]) (simp add: Let_def)
qed

end
