(* ===== verification/IngestWorker.thy ===== *)
theory IngestWorker
  imports Ingest Alerts Admin
begin

text \<open>
  The ingest worker (\<^verbatim>\<open>workers/ingest_worker.py\<close>) around the ingestion of a series: the price cache and the
  events of \<^verbatim>\<open>data/ingest.py\<close> and \<^verbatim>\<open>bus/publisher.py\<close>, the universe an administrator configures, the staleness
  alerts and the queued backfill jobs. Each command to Redis may fail on its own: \<open>up n\<close> tells whether the
  \<open>n\<close>-th one succeeds. Heartbeats are in theory \<open>Health\<close>. Trimming of the streams, encoding of JSON and parsing of dates are not modelled: the
  streams are everything appended, \<open>dumps\<close> and \<open>parse_iso\<close> are parameters.
\<close>

section \<open>The bus\<close>

definition latest_price_key :: "string \<Rightarrow> string" where
  "latest_price_key symbol = ''prices.latest:'' @ symbol"

definition bars_closed_topic :: "string \<Rightarrow> string" where
  "bars_closed_topic timeframe = ''bars.closed.'' @ timeframe"

record bus =
  bu_values :: "string \<rightharpoonup> string"
  bu_ticks :: "event list"
  bu_bars :: "(string \<times> event) list"
  bu_alerts :: "event list"
  bu_calls :: nat

definition command :: "(nat \<Rightarrow> bool) \<Rightarrow> (bus \<Rightarrow> bus) \<Rightarrow> bus \<Rightarrow> bool \<times> bus" where
  "command up f b = (let b1 = b\<lparr>bu_calls := bu_calls b + 1\<rparr> in if up (bu_calls b) then (True, f b1) else (False, b1))"

definition set_latest_price :: "string \<Rightarrow> string \<Rightarrow> bus \<Rightarrow> bus" where
  "set_latest_price symbol text b = b\<lparr>bu_values := (bu_values b)(latest_price_key symbol \<mapsto> text)\<rparr>"

definition publish_price :: "event \<Rightarrow> bus \<Rightarrow> bus" where
  "publish_price ev b = b\<lparr>bu_ticks := bu_ticks b @ [ev]\<rparr>"

definition publish_bar_closed :: "event \<Rightarrow> string \<Rightarrow> bus \<Rightarrow> bus" where
  "publish_bar_closed ev timeframe b = b\<lparr>bu_bars := bu_bars b @ [(bars_closed_topic timeframe, ev)]\<rparr>"

definition publish_alert :: "event \<Rightarrow> bus \<Rightarrow> bus" where
  "publish_alert ev b = b\<lparr>bu_alerts := bu_alerts b @ [ev]\<rparr>"

definition bus_event :: "string \<Rightarrow> json_dict \<Rightarrow> string \<Rightarrow> datetime \<Rightarrow> event" where
  "bus_event t payload producer now = \<lparr>ev_type = t, ev_payload = payload, ev_producer = producer, ev_produced_at = now,
     ev_schema_version = 1, ev_correlation_id = []\<rparr>"

section \<open>Quotes and bar events\<close>

definition quote :: "string \<Rightarrow> string \<Rightarrow> candle \<Rightarrow> json_dict" where
  "quote source symbol latest = [(''symbol'', JStr symbol), (''price'', JFloat (fl (cd_close latest))),
     (''bucket_start'', JStr (isoformat (cd_bucket_start latest))), (''synthetic'', JBool (source = ''synthetic''))]"

text \<open>A failure of the first command skips the second.\<close>

definition cache_quote :: "(nat \<Rightarrow> bool) \<Rightarrow> (json \<Rightarrow> string) \<Rightarrow> string \<Rightarrow> datetime \<Rightarrow> instrument \<Rightarrow> candle \<Rightarrow> bus \<Rightarrow> bus" where
  "cache_quote up dumps source now ins latest b =
     (let q = quote source (i_symbol ins) latest; (sent, b1) = command up (set_latest_price (i_symbol ins) (dumps (JDict q))) b
      in if sent then snd (command up (publish_price (bus_event ''price.tick'' q ''ingest'' now)) b1) else b1)"

definition bar_event :: "string \<Rightarrow> datetime \<Rightarrow> instrument \<Rightarrow> timeframe \<Rightarrow> candle \<Rightarrow> event" where
  "bar_event source now ins tf c = bus_event ''bar.closed''
     [(''symbol'', JStr (i_symbol ins)), (''timeframe'', JStr (tf_name tf)), (''ts'', JStr (isoformat (cd_bucket_start c))),
      (''open'', JFloat (fl (cd_open c))), (''high'', JFloat (fl (cd_high c))), (''low'', JFloat (fl (cd_low c))),
      (''close'', JFloat (fl (cd_close c))), (''volume'', JInt (cd_volume c)), (''source'', JStr source)] ''ingest'' now"

fun publish_bars :: "(nat \<Rightarrow> bool) \<Rightarrow> (candle \<Rightarrow> event) \<Rightarrow> string \<Rightarrow> candle list \<Rightarrow> bus \<Rightarrow> bus" where
  "publish_bars up ev timeframe [] b = b"
| "publish_bars up ev timeframe (c # cs) b =
     (let (sent, b1) = command up (publish_bar_closed (ev c) timeframe) b in if sent then publish_bars up ev timeframe cs b1 else b1)"

definition publish_new_bars ::
  "(nat \<Rightarrow> bool) \<Rightarrow> ingest_settings \<Rightarrow> string \<Rightarrow> datetime \<Rightarrow> instrument \<Rightarrow> timeframe \<Rightarrow> candle list \<Rightarrow> bus \<Rightarrow> bus" where
  "publish_new_bars up s source now ins tf cs b =
     publish_bars up (bar_event source now ins tf) (tf_name tf) (take (nat (max_bars_per_cycle s)) cs) b"

text \<open>\<^verbatim>\<open>max(candles, key=...)\<close>: the first of the newest.\<close>

fun newest_candle :: "candle list \<Rightarrow> candle" where
  "newest_candle (c # cs) = foldl (\<lambda>m x. if cd_bucket_start m < cd_bucket_start x then x else m) c cs"
| "newest_candle [] = undefined"

section \<open>A series with its publications\<close>

text \<open>The candles a series stores, none where it is skipped or fails.\<close>

definition fetched_candles ::
  "ingest_settings \<Rightarrow> datetime \<Rightarrow> (string \<Rightarrow> timeframe \<Rightarrow> datetime \<Rightarrow> datetime \<Rightarrow> fetch_outcome)
   \<Rightarrow> datetime option \<Rightarrow> datetime option \<Rightarrow> instrument \<Rightarrow> timeframe \<Rightarrow> ingest_state \<Rightarrow> candle list" where
  "fetched_candles s now provider fs fe ins tf st =
     (let (start, end_ts) = fetch_window s (last_closed_ts (i_id ins) tf (is_market st)) tf now fs fe
      in if \<not> fst (before_call now (is_breaker st)) \<or> end_ts \<le> start then []
         else case provider (i_symbol ins) tf start end_ts of Fetched cs \<Rightarrow> filter cd_complete cs | _ \<Rightarrow> [])"

record ingest_env =
  ie_settings :: ingest_settings
  ie_now :: datetime
  ie_source :: string
  ie_provider :: "string \<Rightarrow> timeframe \<Rightarrow> datetime \<Rightarrow> datetime \<Rightarrow> fetch_outcome"
  ie_up :: "nat \<Rightarrow> bool"
  ie_dumps :: "json \<Rightarrow> string"

definition live_series ::
  "ingest_env \<Rightarrow> datetime option \<Rightarrow> datetime option \<Rightarrow> instrument \<Rightarrow> timeframe \<Rightarrow> ingest_state \<times> bus
   \<Rightarrow> series_result \<times> ingest_state \<times> bus" where
  "live_series v fs fe ins tf w =
     (let (st, b) = w; cs = fetched_candles (ie_settings v) (ie_now v) (ie_provider v) fs fe ins tf st;
          (r, st') = ingest_series (ie_settings v) (ie_now v) (ie_source v) (ie_provider v) fs fe ins tf st;
          b' = (if cs = [] then b else publish_new_bars (ie_up v) (ie_settings v) (ie_source v) (ie_now v) ins tf cs
                  (cache_quote (ie_up v) (ie_dumps v) (ie_source v) (ie_now v) ins (newest_candle cs) b))
      in (r, st', b'))"

text \<open>
  The name of a timeframe comes from the configuration or a job; one that is not supported raises in the
  middle of the series, which keeps what \<^verbatim>\<open>before_call\<close> did. Its result has no timeframe and is \<open>None\<close>.
\<close>

definition named_series ::
  "ingest_env \<Rightarrow> datetime option \<Rightarrow> datetime option \<Rightarrow> instrument \<Rightarrow> string \<Rightarrow> ingest_state \<times> bus
   \<Rightarrow> series_result option \<times> ingest_state \<times> bus" where
  "named_series v fs fe ins name w =
     (case parse_timeframe name of
        Some tf \<Rightarrow> (let (r, w') = live_series v fs fe ins tf w in (Some r, w'))
      | None \<Rightarrow> (let (st, b) = w; (allowed, br) = before_call (ie_now v) (is_breaker st) in (None, st\<lparr>is_breaker := br\<rparr>, b)))"

fun live_all ::
  "ingest_env \<Rightarrow> datetime option \<Rightarrow> datetime option \<Rightarrow> (instrument \<times> string) list \<Rightarrow> ingest_state \<times> bus
   \<Rightarrow> series_result option list \<times> ingest_state \<times> bus" where
  "live_all v fs fe [] w = ([], w)"
| "live_all v fs fe ((ins, name) # xs) w =
     (let (r, w1) = named_series v fs fe ins name w; (rs, w2) = live_all v fs fe xs w1 in (r # rs, w2))"

definition live_cycle :: "ingest_env \<Rightarrow> instrument list \<Rightarrow> string list \<Rightarrow> ingest_state \<times> bus \<Rightarrow> series_result option list \<times> ingest_state \<times> bus" where
  "live_cycle v is names w = live_all v None None (List.product is names) w"

definition live_backfill ::
  "ingest_env \<Rightarrow> instrument list \<Rightarrow> string list \<Rightarrow> datetime \<Rightarrow> datetime \<Rightarrow> ingest_state \<times> bus
   \<Rightarrow> py_error + series_result option list \<times> ingest_state \<times> bus" where
  "live_backfill v is names start end_ts w =
     (if end_ts \<le> start then Inl ValueError else Inr (live_all v (Some start) (Some end_ts) (List.product is names) w))"

section \<open>The worker\<close>

record ingest_worker =
  iw_ingest :: ingest_state
  iw_bus :: bus
  iw_known :: "(string \<times> instrument) list"
  iw_iteration :: int

definition json_strings :: "json list \<Rightarrow> string list option" where
  "json_strings xs = (if list_all (\<lambda>j. case j of JStr s \<Rightarrow> True | _ \<Rightarrow> False) xs then Some (map (\<lambda>j. case j of JStr s \<Rightarrow> s | _ \<Rightarrow> []) xs) else None)"

definition tf_text :: "json \<Rightarrow> string" where
  "tf_text j = (case j of JStr s \<Rightarrow> s | _ \<Rightarrow> [])"

text \<open>The symbols that have no instrument yet are stored; \<open>fresh\<close> is the primary key a new row gets.\<close>

definition seed_unknown :: "(string \<Rightarrow> uuid) \<Rightarrow> string list \<Rightarrow> ingest_worker \<Rightarrow> ingest_worker" where
  "seed_unknown fresh symbols w =
     (let unknown = filter (\<lambda>s. map_of (iw_known w) s = None) symbols;
          (newly, m) = ensure_instruments (map (\<lambda>s. (fresh s, s)) unknown) (is_market (iw_ingest w))
      in w\<lparr>iw_known := foldl (\<lambda>d (s, ins). dict_set s ins d) (iw_known w) newly, iw_ingest := (iw_ingest w)\<lparr>is_market := m\<rparr>\<rparr>)"

text \<open>The start of the process: the breaker of the stored health row, the instruments of the settings.\<close>

definition start_ingest :: "(string \<Rightarrow> uuid) \<Rightarrow> settings \<Rightarrow> ingest_state \<Rightarrow> bus \<Rightarrow> ingest_worker" where
  "start_ingest fresh s st b = seed_unknown fresh (market_symbols s)
     \<lparr>iw_ingest = st\<lparr>is_breaker := load_breaker_snapshot (is_health st) (is_breaker st)\<rparr>, iw_bus = b, iw_known = [], iw_iteration = 0\<rparr>"

definition known_instruments :: "(string \<times> instrument) list \<Rightarrow> string list \<Rightarrow> instrument list" where
  "known_instruments known symbols = List.map_filter (map_of known) symbols"

definition put_worker :: "ingest_worker \<Rightarrow> ingest_state \<times> bus \<Rightarrow> ingest_worker" where
  "put_worker w x = w\<lparr>iw_ingest := fst x, iw_bus := snd x\<rparr>"

text \<open>One job; whatever raises ends the job and keeps what was done before.\<close>

definition run_job ::
  "(string \<Rightarrow> datetime option) \<Rightarrow> (string \<Rightarrow> uuid) \<Rightarrow> ingest_env \<Rightarrow> backfill_job \<Rightarrow> ingest_worker \<Rightarrow> ingest_worker" where
  "run_job parse_iso fresh v job w =
     (case json_strings (bj_symbols job) of None \<Rightarrow> w
      | Some raw \<Rightarrow>
          let symbols = map upper raw; w1 = seed_unknown fresh symbols w in
          (case (parse_iso (bj_start job), parse_iso (bj_end job)) of
             (Some start, Some end_ts) \<Rightarrow>
               (case live_backfill v (known_instruments (iw_known w1) symbols) (map tf_text (bj_timeframes job)) start end_ts (iw_ingest w1, iw_bus w1) of
                  Inl e \<Rightarrow> w1
                | Inr (rs, x) \<Rightarrow> put_worker w1 x)
           | _ \<Rightarrow> w1))"

definition drain_backfills ::
  "(string \<Rightarrow> datetime option) \<Rightarrow> (string \<Rightarrow> uuid) \<Rightarrow> ingest_env \<Rightarrow> backfill_job list \<Rightarrow> ingest_worker \<Rightarrow> ingest_worker \<times> backfill_job list" where
  "drain_backfills parse_iso fresh v q w =
     (let (jobs, q') = drain_backfill_queue 5 q in (foldl (\<lambda>w job. run_job parse_iso fresh v job w) w jobs, q'))"

definition staleness_event :: "datetime \<Rightarrow> staleness_finding \<Rightarrow> event" where
  "staleness_event now f = bus_event ''alert.staleness''
     [(''symbol'', JStr (sf_symbol f)), (''timeframe'', JStr (tf_name (sf_timeframe f))),
      (''age_seconds'', case sf_age_seconds f of None \<Rightarrow> JNull | Some a \<Rightarrow> JInt a), (''threshold_seconds'', JInt (sf_threshold_seconds f)),
      (''market_open'', JBool (sf_market_open f))] ''monitor'' now"

definition emit_alerts :: "(nat \<Rightarrow> bool) \<Rightarrow> datetime \<Rightarrow> staleness_finding list \<Rightarrow> bus \<Rightarrow> bus" where
  "emit_alerts up now fs b = foldl (\<lambda>b f. snd (command up (publish_alert (staleness_event now f)) b)) b (filter breached fs)"

definition STALENESS_LATEST_KEY :: string where "STALENESS_LATEST_KEY = ''monitor:staleness:latest''"

definition staleness_payload :: "staleness_finding list \<Rightarrow> json_dict" where
  "staleness_payload fs =
     [(''breached'', JInt (int (length (filter breached fs)))), (''checked'', JInt (int (length fs))),
      (''max_age_seconds'', JInt (case List.map_filter sf_age_seconds fs of [] \<Rightarrow> 0 | a # as \<Rightarrow> foldl max a as)),
      (''timeframes'', JList (map JStr (sort (remdups (map (tf_name \<circ> sf_timeframe) fs)))))]"

definition publish_staleness_latest :: "(nat \<Rightarrow> bool) \<Rightarrow> (json \<Rightarrow> string) \<Rightarrow> staleness_finding list \<Rightarrow> bus \<Rightarrow> bus" where
  "publish_staleness_latest up dumps fs b =
     snd (command up (\<lambda>b. b\<lparr>bu_values := (bu_values b)(STALENESS_LATEST_KEY \<mapsto> dumps (JDict (staleness_payload fs)))\<rparr>) b)"

definition staleness_every :: "settings \<Rightarrow> int" where
  "staleness_every s = max 1 (staleness_poll_seconds s div ingest_interval_seconds s)"

text \<open>
  One turn of the loop, with one clock reading: \<open>None\<close> where the stored universe crashes the worker (a symbol
  that is not a string). An unsupported timeframe ends the staleness check with an exception, too.
\<close>

definition ingest_iteration ::
  "(string \<Rightarrow> datetime option) \<Rightarrow> (string \<Rightarrow> uuid) \<Rightarrow> settings \<Rightarrow> settings_table \<Rightarrow> ingest_env \<Rightarrow> backfill_job list \<Rightarrow> ingest_worker
   \<Rightarrow> (series_result option list \<times> ingest_worker \<times> backfill_job list) option" where
  "ingest_iteration parse_iso fresh s t v q w =
     (let (xs, tfs) = get_market_config s t; names = map tf_text tfs in
      case json_strings xs of None \<Rightarrow> None
      | Some symbols \<Rightarrow>
          let w1 = seed_unknown fresh symbols w; is = known_instruments (iw_known w1) symbols;
              (rs, x) = live_cycle v is names (iw_ingest w1, iw_bus w1); w2 = put_worker w1 x;
              g = iw_ingest w2;
              w3 = w2\<lparr>iw_ingest := g\<lparr>is_health := Some (persist_breaker_snapshot (ie_now v) (is_breaker g) (is_health g))\<rparr>,
                      iw_iteration := iw_iteration w2 + 1\<rparr>
          in if iw_iteration w3 mod staleness_every s \<noteq> 0 then
               let (w4, q') = drain_backfills parse_iso fresh v q w3 in Some (rs, w4, q')
             else (case those (map parse_timeframe (if is = [] then [] else names)) of
                 None \<Rightarrow> None
               | Some parsed \<Rightarrow>
                   let fs = check_staleness is parsed (ie_now v) (is_market (iw_ingest w3));
                       b = publish_staleness_latest (ie_up v) (ie_dumps v) fs (emit_alerts (ie_up v) (ie_now v) fs (iw_bus w3));
                       (w4, q') = drain_backfills parse_iso fresh v q (w3\<lparr>iw_bus := b\<rparr>)
                   in Some (rs, w4, q')))"

section \<open>What one series publishes\<close>

lemma command_up: "command (\<lambda>_. True) f b = (True, f (b\<lparr>bu_calls := bu_calls b + 1\<rparr>))"
  by (simp add: command_def Let_def)

lemma cache_quote_up:
  "bu_values (cache_quote (\<lambda>_. True) dumps source now ins c b) = (bu_values b)(latest_price_key (i_symbol ins) \<mapsto> dumps (JDict (quote source (i_symbol ins) c)))"
  "bu_bars (cache_quote (\<lambda>_. True) dumps source now ins c b) = bu_bars b"
  by (simp_all add: cache_quote_def command_up set_latest_price_def publish_price_def Let_def)

lemma publish_bars_up:
  "bu_bars (publish_bars (\<lambda>_. True) ev name cs b) = bu_bars b @ map (\<lambda>c. (bars_closed_topic name, ev c)) cs
   \<and> bu_values (publish_bars (\<lambda>_. True) ev name cs b) = bu_values b"
  by (induction cs arbitrary: b) (simp_all add: command_up publish_bar_closed_def)

lemma newest_candle_in: "cs \<noteq> [] \<Longrightarrow> newest_candle cs \<in> set cs"
proof (cases cs)
  case (Cons c cs')
  have "foldl (\<lambda>m x. if cd_bucket_start m < cd_bucket_start x then x else m) c xs \<in> insert c (set xs)" for c xs
  proof (induction xs arbitrary: c)
    case (Cons x xs)
    show ?case using Cons.IH [of "if cd_bucket_start c < cd_bucket_start x then x else c"] by (cases "cd_bucket_start c < cd_bucket_start x") auto
  qed simp
  then show ?thesis by (simp add: Cons)
qed simp

lemma newest_candle_max: "c \<in> set cs \<Longrightarrow> cd_bucket_start c \<le> cd_bucket_start (newest_candle cs)"
proof (cases cs)
  case (Cons d ds)
  have "\<forall>x\<in>insert d (set xs). cd_bucket_start x \<le> cd_bucket_start (foldl (\<lambda>m x. if cd_bucket_start m < cd_bucket_start x then x else m) d xs)" for d xs
  proof (induction xs arbitrary: d)
    case (Cons x xs)
    show ?case using Cons.IH [of "if cd_bucket_start d < cd_bucket_start x then x else d"] by (cases "cd_bucket_start d < cd_bucket_start x") auto
  qed simp
  then have "x \<in> insert d (set ds) \<Longrightarrow> cd_bucket_start x \<le> cd_bucket_start (newest_candle cs)" for x
    unfolding Cons newest_candle.simps by (rule bspec)
  then show "c \<in> set cs \<Longrightarrow> ?thesis" by (simp add: Cons)
qed simp

lemma live_series_up:
  assumes "ie_up v = (\<lambda>_. True)" "fetched_candles (ie_settings v) (ie_now v) (ie_provider v) fs fe ins tf st = cs" "cs \<noteq> []"
    "live_series v fs fe ins tf (st, b) = (r, st', b')"
  shows "bu_values b' = (bu_values b)(latest_price_key (i_symbol ins) \<mapsto> ie_dumps v (JDict (quote (ie_source v) (i_symbol ins) (newest_candle cs))))"
    "bu_bars b' = bu_bars b @ map (\<lambda>c. (bars_closed_topic (tf_name tf), bar_event (ie_source v) (ie_now v) ins tf c))
       (take (nat (max_bars_per_cycle (ie_settings v))) cs)"
    "ingest_series (ie_settings v) (ie_now v) (ie_source v) (ie_provider v) fs fe ins tf st = (r, st')"
  using assms by (auto simp: live_series_def publish_new_bars_def publish_bars_up cache_quote_up Let_def split: prod.splits)

lemma forced_series:
  assumes "br_state (is_breaker st) = BCLOSED" "start < end_ts" "ie_provider v (i_symbol ins) tf start end_ts = Fetched cs"
    "ingest_series (ie_settings v) (ie_now v) source (ie_provider v) (Some start) (Some end_ts) ins tf st = (r, st')"
  shows "fetched_candles (ie_settings v) (ie_now v) (ie_provider v) (Some start) (Some end_ts) ins tf st = filter cd_complete cs"
    "br_state (is_breaker st') = BCLOSED"
    "is_market st' = snd (upsert_candles (i_id ins) (filter cd_complete cs) source tf (is_market st))"
  using assms by (auto simp: fetched_candles_def ingest_series_def fetch_window_def before_call_def record_success_def Let_def split: prod.splits)

lemma upsert_keeps_rows: "row_key ` set (candle_rows m) \<subseteq> row_key ` set (candle_rows (snd (upsert_candles iid cs source tf m)))"
proof -
  have one: "row_key ` set (candle_rows m) \<subseteq> row_key ` set (candle_rows (upsert_one iid tf source ts c m))" for ts c m
  proof (cases "\<exists>k\<in>set (candle_rows m). same_key iid tf ts k")
    case True
    let ?f = "\<lambda>k. if same_key iid tf ts k then k\<lparr>k_open := cd_open c, k_high := cd_high c, k_low := cd_low c, k_close := cd_close c,
        k_volume := cd_volume c, k_source := source, k_complete := k_complete k \<or> cd_complete c\<rparr> else k"
    have key: "row_key (?f k) = row_key k" for k by (simp add: row_key_def)
    have "row_key ` set (map ?f (candle_rows m)) = row_key ` set (candle_rows m)" unfolding set_map image_image key ..
    then show ?thesis using True by (simp add: upsert_one_def)
  next
    case False
    then show ?thesis by (auto simp: upsert_one_def)
  qed
  have "row_key ` set (candle_rows m) \<subseteq> row_key ` set (candle_rows (foldl (\<lambda>m (bucket, c). upsert_one iid tf source bucket c m) m xs))" for xs m
  proof (induction xs arbitrary: m)
    case (Cons x xs)
    then show ?case using one by (cases x) (force simp del: o_apply)
  qed simp
  then show ?thesis by (simp add: upsert_candles_def Let_def)
qed

lemma price_key_inject: "latest_price_key a = latest_price_key b \<longleftrightarrow> a = b"
  by (simp add: latest_price_key_def)

section \<open>A backfill and the price cache\<close>

definition backfill_answered :: "ingest_env \<Rightarrow> datetime \<Rightarrow> datetime \<Rightarrow> instrument \<Rightarrow> string \<Rightarrow> bool" where
  "backfill_answered v start end_ts ins name = (\<exists>tf cs. name = tf_name tf \<and> ie_provider v (i_symbol ins) tf start end_ts = Fetched cs
     \<and> filter cd_complete cs \<noteq> [] \<and> (\<forall>c\<in>set cs. start \<le> cd_bucket_start c \<and> cd_bucket_start c < end_ts))"

text \<open>
  The cache shows the newest complete bar the provider returned for the symbol and the named timeframe: its
  close as the price, its bucket start, which lies within the range of the job.
\<close>

definition shows_past :: "ingest_env \<Rightarrow> datetime \<Rightarrow> datetime \<Rightarrow> bus \<Rightarrow> string \<Rightarrow> string \<Rightarrow> bool" where
  "shows_past v start end_ts b symbol name = (\<exists>tf cs c q. name = tf_name tf \<and> ie_provider v symbol tf start end_ts = Fetched cs
     \<and> c \<in> set cs \<and> cd_complete c \<and> (\<forall>x\<in>set cs. cd_complete x \<longrightarrow> cd_bucket_start x \<le> cd_bucket_start c)
     \<and> start \<le> cd_bucket_start c \<and> cd_bucket_start c < end_ts
     \<and> bu_values b (latest_price_key symbol) = Some (ie_dumps v (JDict q))
     \<and> map_of q ''symbol'' = Some (JStr symbol) \<and> map_of q ''price'' = Some (JFloat (fl (cd_close c)))
     \<and> map_of q ''bucket_start'' = Some (JStr (isoformat (cd_bucket_start c))))"

lemma shows_past_eq: "bu_values b' (latest_price_key symbol) = bu_values b (latest_price_key symbol)
    \<Longrightarrow> shows_past v start end_ts b' symbol name = shows_past v start end_ts b symbol name"
  by (simp add: shows_past_def)

lemma live_series_forced:
  assumes "ie_up v = (\<lambda>_. True)" "start < end_ts" "backfill_answered v start end_ts ins name"
    "br_state (is_breaker st) = BCLOSED" "named_series v (Some start) (Some end_ts) ins name (st, b) = (r, st', b')"
  shows "row_key ` set (candle_rows (is_market st)) \<subseteq> row_key ` set (candle_rows (is_market st'))"
    "br_state (is_breaker st') = BCLOSED" "shows_past v start end_ts b' (i_symbol ins) name"
    "symbol \<noteq> i_symbol ins \<Longrightarrow> bu_values b' (latest_price_key symbol) = bu_values b (latest_price_key symbol)"
proof -
  obtain tf cs where p: "name = tf_name tf" "ie_provider v (i_symbol ins) tf start end_ts = Fetched cs" "filter cd_complete cs \<noteq> []"
    "\<forall>c\<in>set cs. start \<le> cd_bucket_start c \<and> cd_bucket_start c < end_ts"
    using assms(3) unfolding backfill_answered_def by blast
  obtain r' where l: "live_series v (Some start) (Some end_ts) ins tf (st, b) = (r', st', b')"
    using assms(5) by (auto simp: named_series_def p(1) parse_tf_name split: prod.splits)
  let ?in = "ingest_series (ie_settings v) (ie_now v) (ie_source v) (ie_provider v) (Some start) (Some end_ts) ins tf st"
  obtain r2 st2 where i: "?in = (r2, st2)" by (cases ?in)
  note f = forced_series [OF assms(4) assms(2) p(2) i]
  note u = live_series_up [OF assms(1) f(1) p(3) l]
  have st: "st2 = st'" using u(3) i by simp
  let ?c = "newest_candle (filter cd_complete cs)"
  have c: "?c \<in> set cs" "cd_complete ?c" using newest_candle_in [OF p(3)] by simp_all
  have m: "\<forall>x\<in>set cs. cd_complete x \<longrightarrow> cd_bucket_start x \<le> cd_bucket_start ?c" using newest_candle_max by simp
  have n: "start \<le> cd_bucket_start ?c \<and> cd_bucket_start ?c < end_ts" using p(4) c(1) by blast
  show "shows_past v start end_ts b' (i_symbol ins) name" unfolding shows_past_def u(1)
    by (intro exI [of _ tf] exI [of _ cs] exI [of _ ?c] exI [of _ "quote (ie_source v) (i_symbol ins) ?c"])
      (simp add: p(1,2) c m n quote_def)
  show "symbol \<noteq> i_symbol ins \<Longrightarrow> bu_values b' (latest_price_key symbol) = bu_values b (latest_price_key symbol)"
    unfolding u(1) by (simp add: price_key_inject)
  show "row_key ` set (candle_rows (is_market st)) \<subseteq> row_key ` set (candle_rows (is_market st'))"
    unfolding f(3) [unfolded st] by (rule upsert_keeps_rows)
  show "br_state (is_breaker st') = BCLOSED" using f(2) unfolding st .
qed

lemma live_all_forced:
  assumes "ie_up v = (\<lambda>_. True)" "start < end_ts" "\<forall>(ins, name)\<in>set xs. backfill_answered v start end_ts ins name"
    "br_state (is_breaker st) = BCLOSED" "live_all v (Some start) (Some end_ts) xs (st, b) = (rs, st', b')"
  shows "row_key ` set (candle_rows (is_market st)) \<subseteq> row_key ` set (candle_rows (is_market st'))
    \<and> (case filter (\<lambda>x. i_symbol (fst x) = symbol) xs of
         [] \<Rightarrow> bu_values b' (latest_price_key symbol) = bu_values b (latest_price_key symbol)
       | y # ys \<Rightarrow> shows_past v start end_ts b' symbol (snd (last (y # ys))))"
  using assms(3-5)
proof (induction xs arbitrary: st b rs)
  case (Cons x xs)
  obtain ins name where x: "x = (ins, name)" by (cases x)
  obtain r st1 b1 where l: "named_series v (Some start) (Some end_ts) ins name (st, b) = (r, st1, b1)" by (metis prod_cases3)
  obtain rs' where rest: "live_all v (Some start) (Some end_ts) xs (st1, b1) = (rs', st', b')"
    using Cons.prems(3) by (auto simp: x l split: prod.splits)
  have a: "backfill_answered v start end_ts ins name" "\<forall>(ins, name)\<in>set xs. backfill_answered v start end_ts ins name"
    using Cons.prems(1) by (simp_all add: x)
  note s = live_series_forced [OF assms(1,2) a(1) Cons.prems(2) l]
  note ih = Cons.IH [OF a(2) s(2) rest]
  have "case filter (\<lambda>x. i_symbol (fst x) = symbol) (x # xs) of
         [] \<Rightarrow> bu_values b' (latest_price_key symbol) = bu_values b (latest_price_key symbol)
       | y # ys \<Rightarrow> shows_past v start end_ts b' symbol (snd (last (y # ys)))"
    using conjunct2 [OF ih] s(3) s(4) [of symbol] shows_past_eq [of b' symbol b1]
    by (cases "i_symbol ins = symbol"; cases "filter (\<lambda>x. i_symbol (fst x) = symbol) xs") (auto simp: x)
  then show ?case using subset_trans [OF s(1) conjunct1 [OF ih]] by (intro conjI)
qed simp

lemma last_product: "xs \<noteq> [] \<Longrightarrow> ys \<noteq> [] \<Longrightarrow> last (List.product xs ys) = (last xs, last ys)"
proof (induction xs)
  case (Cons x xs)
  show ?case
  proof (cases xs)
    case Nil
    then show ?thesis using Cons.prems(2) by (simp add: last_map)
  next
    case (Cons z zs)
    then have "List.product xs ys \<noteq> []" using Cons.prems(2) by (cases ys) simp_all
    then show ?thesis using Cons.IH Cons.prems(2) Cons by simp
  qed
qed simp

lemma filter_product: "filter (\<lambda>x. P (fst x)) (List.product xs ys) = List.product (filter P xs) ys"
proof (induction xs)
  case (Cons x xs)
  have "filter (\<lambda>z. P (fst z)) (map (Pair x) ys) = (if P x then map (Pair x) ys else [])" by (simp add: filter_map o_def)
  then show ?case using Cons.IH by simp
qed simp

text \<open>
  C39. A backfill of the past turns the price cache back. Whatever newer bars are stored and whatever price is
  cached, after a job over \<open>[start, end)\<close> that the provider answers, the cached price of every symbol of the job
  is the close of the newest complete bar the provider returned within the range for the last timeframe of the
  job, though no stored bar is lost; it stays until the next series of the symbol brings a new bar.
\<close>

theorem backfill_overwrites_price:
  assumes "ie_up v = (\<lambda>_. True)" "br_state (is_breaker st) = BCLOSED" "names \<noteq> []"
    "\<forall>ins\<in>set is. \<forall>name\<in>set names. backfill_answered v start end_ts ins name"
    "live_backfill v is names start end_ts (st, b) = Inr (rs, st', b')"
  shows "row_key ` set (candle_rows (is_market st)) \<subseteq> row_key ` set (candle_rows (is_market st'))
    \<and> (\<forall>ins\<in>set is. \<exists>tf cs c q. tf_name tf = last names \<and> ie_provider v (i_symbol ins) tf start end_ts = Fetched cs
         \<and> c \<in> set cs \<and> cd_complete c \<and> (\<forall>x\<in>set cs. cd_complete x \<longrightarrow> cd_bucket_start x \<le> cd_bucket_start c)
         \<and> start \<le> cd_bucket_start c \<and> cd_bucket_start c < end_ts
         \<and> bu_values b' (latest_price_key (i_symbol ins)) = Some (ie_dumps v (JDict q))
         \<and> map_of q ''symbol'' = Some (JStr (i_symbol ins)) \<and> map_of q ''price'' = Some (JFloat (fl (cd_close c)))
         \<and> map_of q ''bucket_start'' = Some (JStr (isoformat (cd_bucket_start c))))"
proof -
  have r: "start < end_ts" "live_all v (Some start) (Some end_ts) (List.product is names) (st, b) = (rs, st', b')"
    using assms(5) by (simp_all add: live_backfill_def split: if_splits)
  have a: "\<forall>(ins, name)\<in>set (List.product is names). backfill_answered v start end_ts ins name" using assms(4) by auto
  note f = live_all_forced [OF assms(1) r(1) a assms(2) r(2)]
  have "shows_past v start end_ts b' (i_symbol ins) (last names)" if "ins \<in> set is" for ins
  proof -
    let ?ys = "filter (\<lambda>x. i_symbol (fst x) = i_symbol ins) (List.product is names)"
    let ?is = "filter (\<lambda>i. i_symbol i = i_symbol ins) is"
    have ys: "?ys = List.product ?is names" by (rule filter_product [of "\<lambda>i. i_symbol i = i_symbol ins"])
    have "ins \<in> set ?is" using that by simp
    then have "?is \<noteq> []" by (metis empty_iff list.set(1))
    then have "?ys \<noteq> []" "snd (last ?ys) = last names" using assms(3) last_product [of ?is names] unfolding ys by (cases ?is; cases names; simp)+
    then show ?thesis using conjunct2 [OF f, of "i_symbol ins"] by (cases ?ys) simp_all
  qed
  then have "\<forall>ins\<in>set is. shows_past v start end_ts b' (i_symbol ins) (last names)" by blast
  with conjunct1 [OF f] show ?thesis unfolding shows_past_def eq_commute [of "last names"] by (rule conjI)
qed

section \<open>A cycle announces every new bar\<close>

lemma last_closed_max: "x \<in> set (map k_ts (series iid tf m)) \<Longrightarrow> \<exists>t. last_closed_ts iid tf m = Some t \<and> x \<le> t"
proof -
  assume x: "x \<in> set (map k_ts (series iid tf m))"
  let ?s = "sort (map k_ts (series iid tf m))"
  have "?s \<noteq> []" using x by (metis empty_iff list.set(1) set_sort)
  then obtain t ts where t: "rev ?s = t # ts" by (metis neq_Nil_conv rev_is_Nil_conv)
  have "?s = rev ts @ [t]" using t by (metis rev.simps(2) rev_swap)
  then have "\<forall>y\<in>set ?s. y \<le> t" using sorted_sort [of "map k_ts (series iid tf m)"] by (simp add: sorted_append)
  then have "x \<le> t" using x by (metis set_sort)
  then show ?thesis using t by (simp add: last_closed_ts_def)
qed

lemma multiples_in_window:
  assumes "distinct ts" "0 < step" "0 \<le> n" "e - s \<le> step * n" "\<forall>t\<in>set ts. t mod step = 0 \<and> s \<le> t \<and> t < (e :: int)"
  shows "length ts \<le> nat n"
proof -
  let ?a = "- ((- s) div step)"
  have "t div step \<in> {?a ..< ?a + n}" if "t \<in> set ts" for t
  proof -
    have t: "t = step * (t div step)" "s \<le> t" "t < e" using assms(5) that by auto
    have "(- s) div step \<ge> (- t) div step" using t(2) assms(2) by (intro zdiv_mono1) simp_all
    moreover have "(- t) div step = - (t div step)" using t(1) assms(2) by (metis nonzero_mult_div_cancel_left mult_minus_right less_irrefl)
    ultimately have lo: "?a \<le> t div step" by linarith
    have "step * ?a = s + (- s) mod step" using mult_div_mod_eq [of step "- s"] by linarith
    then have "s \<le> step * ?a" using pos_mod_sign [OF assms(2), of "- s"] by linarith
    have "step * (t div step) < s + step * n" using t assms(4) by linarith
    also have "\<dots> \<le> step * (?a + n)" using \<open>s \<le> step * ?a\<close> by (simp only: distrib_left add_right_mono)
    finally have "t div step < ?a + n" using assms(2) by (simp add: mult_less_cancel_left)
    with lo show ?thesis by simp
  qed
  then have "(\<lambda>t. t div step) ` set ts \<subseteq> {?a ..< ?a + n}" by blast
  then have "card ((\<lambda>t. t div step) ` set ts) \<le> nat n" using card_mono [of "{?a ..< ?a + n}"] by force
  moreover have "inj_on (\<lambda>t. t div step) (set ts)" using assms(5) by (intro inj_onI) (metis mult_div_mod_eq)
  ultimately show ?thesis using assms(1) by (simp add: card_image distinct_card)
qed

lemma window_bounds:
  assumes "fetch_window s last_ts tf now None None = (start, end_ts)" "0 \<le> max_bars_per_cycle s"
  shows "end_ts - start \<le> tf_step tf * max_bars_per_cycle s" "last_ts = Some t \<Longrightarrow> t < start"
proof -
  let ?n = "tf_step tf * max_bars_per_cycle s"
  have "0 \<le> ?n" using tf_step_pos [of tf] assms(2) by simp
  then show "end_ts - start \<le> ?n" using assms(1) by (auto simp: fetch_window_def Let_def split: if_splits)
  assume "last_ts = Some t"
  then have "start = t + tf_step tf \<or> start = end_ts - ?n \<and> ?n < end_ts - (t + tf_step tf)"
    using assms(1) by (auto simp: fetch_window_def Let_def split: if_splits)
  then show "t < start" using tf_step_pos [of tf] by linarith
qed

text \<open>
  C38. A scheduled cycle announces exactly its new bars. Where the provider answers the window asked for with
  distinct, aligned bars, every one of them is new in the table, none replaces a stored bar, and each is
  published once, in order, on the stream of its timeframe: the bound on a burst never cuts a cycle.
  Any series, a backfill too, publishes the first bars up to that bound and drops the others.
\<close>

theorem cycle_announces_new_bars:
  assumes "ie_up v = (\<lambda>_. True)" "market_ok (is_market st)" "0 \<le> max_bars_per_cycle (ie_settings v)"
    "cs = fetched_candles (ie_settings v) (ie_now v) (ie_provider v) fs fe ins tf st" "cs \<noteq> []"
    "fetch_window (ie_settings v) (last_closed_ts (i_id ins) tf (is_market st)) tf (ie_now v) None None = (start, end_ts)"
    "live_series v fs fe ins tf (st, b) = (r, st', b')"
    "evs = (\<lambda>cs. map (\<lambda>c. (bars_closed_topic (tf_name tf), bar_event (ie_source v) (ie_now v) ins tf c)) cs)"
  shows "bu_bars b' = bu_bars b @ evs (take (nat (max_bars_per_cycle (ie_settings v))) cs)
    \<and> (fs = None \<and> fe = None \<and> distinct (map cd_bucket_start cs)
       \<and> (\<forall>c\<in>set cs. align_to_bucket (cd_bucket_start c) tf = cd_bucket_start c \<and> start \<le> cd_bucket_start c \<and> cd_bucket_start c < end_ts)
     \<longrightarrow> bu_bars b' = bu_bars b @ evs cs \<and> sr_inserted r = length cs \<and> sr_updated r = 0
       \<and> set (map k_ts (series (i_id ins) tf (is_market st'))) = set (map k_ts (series (i_id ins) tf (is_market st))) \<union> set (map cd_bucket_start cs))"
proof -
  note u = live_series_up [OF assms(1) assms(4) [symmetric] assms(5,7)]
  have first: "bu_bars b' = bu_bars b @ evs (take (nat (max_bars_per_cycle (ie_settings v))) cs)" using u(2) assms(8) by simp
  have "fs = None \<and> fe = None \<and> distinct (map cd_bucket_start cs)
       \<and> (\<forall>c\<in>set cs. align_to_bucket (cd_bucket_start c) tf = cd_bucket_start c \<and> start \<le> cd_bucket_start c \<and> cd_bucket_start c < end_ts)
     \<longrightarrow> bu_bars b' = bu_bars b @ evs cs \<and> sr_inserted r = length cs \<and> sr_updated r = 0
       \<and> set (map k_ts (series (i_id ins) tf (is_market st'))) = set (map k_ts (series (i_id ins) tf (is_market st))) \<union> set (map cd_bucket_start cs)"
  proof (intro impI, elim conjE)
    assume n: "fs = None" "fe = None" "distinct (map cd_bucket_start cs)"
      and c: "\<forall>c\<in>set cs. align_to_bucket (cd_bucket_start c) tf = cd_bucket_start c \<and> start \<le> cd_bucket_start c \<and> cd_bucket_start c < end_ts"
    note w = window_bounds [OF assms(6,3)]
    have "\<forall>t\<in>set (map cd_bucket_start cs). t mod tf_step tf = 0 \<and> start \<le> t \<and> t < end_ts"
      using c by (auto simp: align_to_bucket_def)
    then have "length cs \<le> nat (max_bars_per_cycle (ie_settings v))"
      using multiples_in_window [OF n(3) tf_step_pos assms(3) w(1)] by simp
    then have all: "bu_bars b' = bu_bars b @ evs cs" using first by simp
    have keys: "(\<lambda>c. align_to_bucket (cd_bucket_start c) tf) ` set cs = set (map cd_bucket_start cs)" using c by force
    have fresh: "x \<notin> set (map k_ts (series (i_id ins) tf (is_market st)))" if "x \<in> set (map cd_bucket_start cs)" for x
    proof
      assume "x \<in> set (map k_ts (series (i_id ins) tf (is_market st)))"
      then obtain t where "last_closed_ts (i_id ins) tf (is_market st) = Some t" "x \<le> t" using last_closed_max by blast
      then show False using w(2) c that by fastforce
    qed
    obtain i u' m' where up: "upsert_candles (i_id ins) cs (ie_source v) tf (is_market st) = ((i, u'), m')" by (metis prod.collapse)
    have res: "sr_inserted r = i \<and> sr_updated r = u' \<and> is_market st' = m'"
      using u(3) assms(4,5) up unfolding n(1,2) fetched_candles_def ingest_series_def Let_def assms(6)
      by (auto split: if_splits fetch_outcome.splits prod.splits)
    note e = upsert_candles_exact [OF assms(2) up, unfolded keys]
    have diff: "set (map cd_bucket_start cs) - set (map k_ts (series (i_id ins) tf (is_market st))) = set (map cd_bucket_start cs)" using fresh by blast
    have "card (set (map cd_bucket_start cs)) = length cs" using distinct_card [OF n(3)] by simp
    with e res all show "bu_bars b' = bu_bars b @ evs cs \<and> sr_inserted r = length cs \<and> sr_updated r = 0
       \<and> set (map k_ts (series (i_id ins) tf (is_market st'))) = set (map k_ts (series (i_id ins) tf (is_market st))) \<union> set (map cd_bucket_start cs)"
      unfolding diff by simp
  qed
  with first show ?thesis by (rule conjI)
qed

section \<open>Witnesses\<close>

definition demo_bar :: "datetime \<Rightarrow> candle" where
  "demo_bar t = \<lparr>cd_symbol = ''EURUSD'', cd_timeframe = H1, cd_bucket_start = t, cd_open = 1, cd_high = 1, cd_low = 1, cd_close = 1,
     cd_volume = 5, cd_complete = True\<rparr>"

definition demo_instrument :: instrument where
  "demo_instrument = \<lparr>i_id = 1, i_symbol = ''EURUSD'', i_base = ''EUR'', i_quote = ''USD'', i_pip_size = 1, i_price_decimals = 5, i_active = True\<rparr>"

definition demo_state :: ingest_state where
  "demo_state = \<lparr>is_breaker = new_breaker 5 60, is_market = \<lparr>instruments = [demo_instrument], candle_rows = []\<rparr>, is_health = None\<rparr>"

definition demo_ingest :: ingest_env where
  "demo_ingest = \<lparr>ie_settings = \<lparr>initial_history_days = 2, max_bars_per_cycle = 500\<rparr>, ie_now = 10 * tf_step H1, ie_source = ''x'',
     ie_provider = (\<lambda>_ _ start _. Fetched [demo_bar start]), ie_up = (\<lambda>_. True), 
     ie_dumps = (\<lambda>j. case j of JDict q \<Rightarrow> (case map_of q ''bucket_start'' of Some (JStr t) \<Rightarrow> t | _ \<Rightarrow> []) | _ \<Rightarrow> [])\<rparr>"

definition priced_bus :: bus where
  "priced_bus = \<lparr>bu_values = [latest_price_key ''EURUSD'' \<mapsto> ''newer''], bu_ticks = [], bu_bars = [], bu_alerts = [], bu_calls = 0\<rparr>"

text \<open>A newer price is cached; the backfill of one early hour replaces it. The encoder shows the bar's start.\<close>

theorem backfill_overwrites_price_witness:
  "case live_backfill demo_ingest [demo_instrument] [''H1''] 0 (tf_step H1) (demo_state, priced_bus) of
     Inl e \<Rightarrow> False | Inr (rs, st', b') \<Rightarrow> bu_values b' (latest_price_key ''EURUSD'') = Some (isoformat 0)"
proof -
  have "\<not> tf_step H1 \<le> 0" by (simp add: not_le)
  then obtain rs st' b' where r: "live_backfill demo_ingest [demo_instrument] [''H1''] 0 (tf_step H1) (demo_state, priced_bus) = Inr (rs, st', b')"
    unfolding live_backfill_def by (metis prod_cases3)
  have "backfill_answered demo_ingest 0 (tf_step H1) demo_instrument ''H1''"
    unfolding backfill_answered_def by (intro exI [of _ H1] exI [of _ "[demo_bar 0]"]) (simp add: demo_ingest_def demo_bar_def)
  then have a: "\<forall>ins\<in>set [demo_instrument]. \<forall>name\<in>set [''H1'']. backfill_answered demo_ingest 0 (tf_step H1) ins name" by simp
  have p: "ie_up demo_ingest = (\<lambda>_. True)" "br_state (is_breaker demo_state) = BCLOSED" "[''H1''] \<noteq> []"
    by (simp_all add: demo_ingest_def demo_state_def new_breaker_def)
  from conjunct2 [OF backfill_overwrites_price [OF p a r]] obtain tf cs c q where
    "Fetched [demo_bar 0] = Fetched cs" "c \<in> set cs" "bu_values b' (latest_price_key ''EURUSD'') = Some (ie_dumps demo_ingest (JDict q))"
    "map_of q ''bucket_start'' = Some (JStr (isoformat (cd_bucket_start c)))"
    by (auto simp: demo_ingest_def demo_instrument_def)
  then have "bu_values b' (latest_price_key ''EURUSD'') = Some (isoformat 0)"
    by (auto simp: demo_ingest_def demo_bar_def)
  then show ?thesis unfolding r by simp
qed

theorem cycle_announces_new_bars_witness:
  "case live_series demo_ingest None None demo_instrument H1 (demo_state, priced_bus) of
     (r, st', b') \<Rightarrow> sr_inserted r = 1 \<and> length (bu_bars b') = 1"
proof -
  obtain r st' b' where l: "live_series demo_ingest None None demo_instrument H1 (demo_state, priced_bus) = (r, st', b')" by (metis prod_cases3)
  let ?e = "10 * tf_step H1" and ?s = "10 * tf_step H1 - days_td 2"
  have w: "fetch_window (ie_settings demo_ingest) (last_closed_ts (i_id demo_instrument) H1 (is_market demo_state)) H1 (ie_now demo_ingest) None None = (?s, ?e)"
    by code_simp
  have p: "ie_up demo_ingest = (\<lambda>_. True)" "market_ok (is_market demo_state)" "0 \<le> max_bars_per_cycle (ie_settings demo_ingest)"
    by (simp_all add: demo_ingest_def demo_state_def market_ok_def)
  have t: "?s < ?e" "align_to_bucket ?s H1 = ?s" by code_simp+
  have cs: "fetched_candles (ie_settings demo_ingest) (ie_now demo_ingest) (ie_provider demo_ingest) None None demo_instrument H1 demo_state = [demo_bar ?s]"
    using t(1) unfolding fetched_candles_def w Let_def
    by (simp add: demo_ingest_def demo_state_def before_call_def new_breaker_def demo_bar_def)
  have b: "cd_bucket_start (demo_bar ?s) = ?s" by (simp add: demo_bar_def)
  show ?thesis
    using conjunct2 [OF cycle_announces_new_bars [OF p cs [symmetric] _ w l refl]] t unfolding l by (simp add: b priced_bus_def)
qed

end
