(* ===== verification/ReadApi.thy ===== *)
theory ReadApi
  imports IngestWorker Content BacktestStore
begin

text \<open>
  The read routes of the API (\<^verbatim>\<open>api/v1/market.py\<close>, \<^verbatim>\<open>signals.py\<close>, \<^verbatim>\<open>decisions.py\<close>, \<^verbatim>\<open>backtests.py\<close>, \<^verbatim>\<open>alerts.py\<close>,
  \<^verbatim>\<open>content.py\<close>), the responses they build and the problem an error becomes (\<^verbatim>\<open>core/errors.py\<close>). A reader is
  authenticated before the parameters are validated. Keys and creation times of rows that the
  tables of the model do not have are not part of the responses.
\<close>

section \<open>Errors\<close>

datatype read_error = ApiError api_error | ServiceUnavailableError string

definition viewer_call :: "'tok crypto \<Rightarrow> auth_env \<Rightarrow> 'tok option \<Rightarrow> auth_db \<Rightarrow> bool \<Rightarrow> read_error + 'a \<Rightarrow> read_error + 'a" where
  "viewer_call cy env credentials db valid body =
     (case get_current_user cy env credentials db of
        Inl e \<Rightarrow> Inl (ApiError (AppError e))
      | Inr user \<Rightarrow> if \<not> valid then Inl (ApiError RequestValidationError) else body)"

definition not_found :: "string \<Rightarrow> read_error" where
  "not_found detail = ApiError (AppError (NotFoundError detail))"

text \<open>Status, code and title of the answer; an exception no handler knows is an internal error.\<close>

record problem =
  pb_status :: nat
  pb_code :: string
  pb_title :: string

definition problem_of :: "read_error \<Rightarrow> problem" where
  "problem_of e = (let internal = \<lparr>pb_status = 500, pb_code = ''internal_error'', pb_title = ''Internal server error''\<rparr> in
     case e of
       ServiceUnavailableError d \<Rightarrow> \<lparr>pb_status = 503, pb_code = ''service_unavailable'', pb_title = ''Service unavailable''\<rparr>
     | ApiError a \<Rightarrow> (case a of
         InvalidInputError \<Rightarrow> \<lparr>pb_status = 400, pb_code = ''invalid_input'', pb_title = ''Invalid input''\<rparr>
       | RequestValidationError \<Rightarrow> \<lparr>pb_status = 422, pb_code = ''validation_error'', pb_title = ''Request validation failed''\<rparr>
       | Unhandled p \<Rightarrow> internal
       | AppError x \<Rightarrow> (case x of
           NotFoundError d \<Rightarrow> \<lparr>pb_status = 404, pb_code = ''not_found'', pb_title = ''Resource not found''\<rparr>
         | AuthenticationError d \<Rightarrow> \<lparr>pb_status = 401, pb_code = ''unauthorized'', pb_title = ''Authentication required''\<rparr>
         | PermissionDeniedError d \<Rightarrow> \<lparr>pb_status = 403, pb_code = ''forbidden'', pb_title = ''Permission denied''\<rparr>
         | ConflictError d \<Rightarrow> \<lparr>pb_status = 409, pb_code = ''conflict'', pb_title = ''Conflicting resource''\<rparr>
         | app_error.DatabaseError \<Rightarrow> internal)))"

definition symbol_query :: "string \<Rightarrow> bool" where
  "symbol_query s = (6 \<le> length s \<and> length s \<le> 12)"

definition limit_query :: "nat \<Rightarrow> nat \<Rightarrow> bool" where
  "limit_query most limit = (1 \<le> limit \<and> limit \<le> most)"

section \<open>Market\<close>

record candle_out =
  cn_symbol :: string
  cn_timeframe :: timeframe
  cn_ts :: datetime
  cn_open :: rat
  cn_high :: rat
  cn_low :: rat
  cn_close :: rat
  cn_volume :: int

definition candle_view :: "string \<Rightarrow> candle_row \<Rightarrow> candle_out" where
  "candle_view symbol k = \<lparr>cn_symbol = symbol, cn_timeframe = k_timeframe k, cn_ts = k_ts k, cn_open = k_open k, cn_high = k_high k,
     cn_low = k_low k, cn_close = k_close k, cn_volume = k_volume k\<rparr>"

definition resolve_instrument :: "string \<Rightarrow> market \<Rightarrow> read_error + instrument" where
  "resolve_instrument symbol m = (case find_instrument symbol m of None \<Rightarrow> Inl (not_found (''Instrument '' @ [CHR 0x27] @ symbol @ [CHR 0x27] @ '' not found'')) | Some i \<Rightarrow> Inr i)"

definition list_candles ::
  "'tok crypto \<Rightarrow> auth_env \<Rightarrow> 'tok option \<Rightarrow> auth_db \<Rightarrow> string \<Rightarrow> string \<Rightarrow> datetime option \<Rightarrow> datetime option \<Rightarrow> nat \<Rightarrow> market
   \<Rightarrow> read_error + candle_out list" where
  "list_candles cy env credentials db symbol timeframe start end_ts limit m =
     viewer_call cy env credentials db (symbol_query symbol \<and> tf_is_valid timeframe \<and> limit_query 1000 limit)
       (if (case (start, end_ts) of (Some s, Some e) \<Rightarrow> e \<le> s | _ \<Rightarrow> False) then Inl (ApiError InvalidInputError)
        else case resolve_instrument (upper symbol) m of Inl e \<Rightarrow> Inl e
          | Inr i \<Rightarrow> (case parse_timeframe (upper timeframe) of None \<Rightarrow> Inr []
              | Some tf \<Rightarrow> Inr (map (candle_view (upper symbol)) (load_candles (i_id i) tf start end_ts limit m))))"

record latest_price =
  lp_symbol :: string
  lp_price :: rat
  lp_bucket_start :: "datetime option"
  lp_synthetic :: bool

text \<open>\<open>loads\<close> is the JSON decoder, \<open>decimal\<close> is \<^verbatim>\<open>Decimal\<close> on the text of a value that is no float.\<close>

definition parse_price ::
  "(string \<Rightarrow> json option) \<Rightarrow> (string \<Rightarrow> datetime option) \<Rightarrow> (json \<Rightarrow> rat option) \<Rightarrow> string \<Rightarrow> string \<Rightarrow> latest_price option" where
  "parse_price loads parse_iso decimal symbol raw =
     (case loads raw of Some (JDict data) \<Rightarrow>
        (case json_get data ''price'' of None \<Rightarrow> None | Some JNull \<Rightarrow> None
         | Some price \<Rightarrow> (case (case price of JFloat x \<Rightarrow> Some (to_dec x) | j \<Rightarrow> decimal j) of None \<Rightarrow> None
             | Some p \<Rightarrow> Some \<lparr>lp_symbol = symbol, lp_price = p,
                 lp_bucket_start = (case json_get data ''bucket_start'' of Some (JStr s) \<Rightarrow> parse_iso s | _ \<Rightarrow> None),
                 lp_synthetic = (case json_get data ''synthetic'' of None \<Rightarrow> False | Some j \<Rightarrow> truthy j)\<rparr>))
      | _ \<Rightarrow> None)"

text \<open>\<open>cache\<close> is what Redis holds, \<open>None\<close> when it fails.\<close>

definition latest_prices ::
  "(string \<Rightarrow> json option) \<Rightarrow> (string \<Rightarrow> datetime option) \<Rightarrow> (json \<Rightarrow> rat option) \<Rightarrow> 'tok crypto \<Rightarrow> auth_env \<Rightarrow> 'tok option \<Rightarrow> auth_db
   \<Rightarrow> settings \<Rightarrow> string option \<Rightarrow> (string \<rightharpoonup> string) option \<Rightarrow> read_error + latest_price list" where
  "latest_prices loads parse_iso decimal cy env credentials db s symbol cache =
     viewer_call cy env credentials db (case symbol of None \<Rightarrow> True | Some x \<Rightarrow> symbol_query x)
       (let symbols = (case symbol of None \<Rightarrow> market_symbols s | Some x \<Rightarrow> [upper x]) in
        case cache of None \<Rightarrow> if symbols = [] then Inr [] else Inl (ServiceUnavailableError ''Price cache unavailable'')
        | Some values \<Rightarrow> Inr (List.map_filter (\<lambda>sym. Option.bind (values (latest_price_key sym)) (parse_price loads parse_iso decimal sym)) symbols))"

section \<open>Signals and decisions\<close>

definition signals_out :: "signal_row list \<Rightarrow> read_error + agent_signal list" where
  "signals_out rows = (case rows_to_signals rows of Inl e \<Rightarrow> Inl (ApiError (Unhandled e)) | Inr sigs \<Rightarrow> Inr sigs)"

definition latest_signals ::
  "'tok crypto \<Rightarrow> auth_env \<Rightarrow> 'tok option \<Rightarrow> auth_db \<Rightarrow> datetime \<Rightarrow> string \<Rightarrow> string \<Rightarrow> bool \<Rightarrow> signal_row list \<Rightarrow> read_error + agent_signal list" where
  "latest_signals cy env credentials db now symbol timeframe fresh_only rows =
     viewer_call cy env credentials db (symbol_query symbol \<and> tf_is_valid timeframe)
       (case parse_timeframe (upper timeframe) of None \<Rightarrow> Inr []
        | Some tf \<Rightarrow> signals_out (load_latest_per_agent symbol tf None (if fresh_only then Some now else None) rows))"

definition signal_history ::
  "'tok crypto \<Rightarrow> auth_env \<Rightarrow> 'tok option \<Rightarrow> auth_db \<Rightarrow> string \<Rightarrow> string \<Rightarrow> string option \<Rightarrow> nat \<Rightarrow> string \<Rightarrow> signal_row list
   \<Rightarrow> read_error + agent_signal list" where
  "signal_history cy env credentials db symbol timeframe agent limit order rows =
     viewer_call cy env credentials db (symbol_query symbol \<and> tf_is_valid timeframe \<and> limit_query 200 limit \<and> order \<in> {''asc'', ''desc''})
       (case parse_timeframe (upper timeframe) of None \<Rightarrow> Inr []
        | Some tf \<Rightarrow> (case signals_out (load_signal_history symbol tf limit agent rows) of Inl e \<Rightarrow> Inl e
            | Inr outs \<Rightarrow> Inr (if order = ''asc'' then rev outs else outs)))"

record decision_out =
  dv_id :: uuid
  dv_run_id :: string
  dv_symbol :: string
  dv_timeframe :: timeframe
  dv_bucket_ts :: datetime
  dv_fused_direction :: direction
  dv_confidence :: f64
  dv_agreement :: f64
  dv_status :: decision_status
  dv_veto_code :: "string option"
  dv_veto_reason :: "veto_text option"
  dv_inputs_hash :: string
  dv_weights :: weights
  dv_code_versions :: "(string \<times> string) list"
  dv_rationale :: "rationale_text option"
  dv_decision_at :: datetime
  dv_valid_until :: "datetime option"

definition decision_view :: "decision_row \<Rightarrow> decision_out" where
  "decision_view r = \<lparr>dv_id = dr_id r, dv_run_id = dr_run_id r, dv_symbol = dr_symbol r, dv_timeframe = dr_timeframe r,
     dv_bucket_ts = dr_bucket_ts r, dv_fused_direction = dr_fused_direction r, dv_confidence = fl (dr_confidence r),
     dv_agreement = fl (dr_agreement r), dv_status = dr_status r, dv_veto_code = dr_veto_code r, dv_veto_reason = dr_veto_reason r,
     dv_inputs_hash = dr_inputs_hash r, dv_weights = dr_weights r, dv_code_versions = dr_code_versions r,
     dv_rationale = dr_rationale r, dv_decision_at = dr_decision_at r, dv_valid_until = dr_valid_until r\<rparr>"

record risk_out =
  ro_id :: uuid
  ro_symbol :: string
  ro_timeframe :: timeframe
  ro_bucket_ts :: datetime
  ro_position_size_units :: "f64 option"
  ro_price :: "f64 option"
  ro_atr :: "f64 option"
  ro_stop_loss :: "f64 option"
  ro_take_profit :: "f64 option"
  ro_rr_ratio :: "f64 option"
  ro_risk_pct_account :: "f64 option"
  ro_exposure_ok :: bool
  ro_correlation_ok :: bool
  ro_daily_loss_ok :: bool
  ro_drawdown_ok :: bool
  ro_passed_all :: bool
  ro_reasons :: "gate_reason list"
  ro_evaluated_at :: datetime

definition risk_view :: "risk_evaluation_row \<Rightarrow> risk_out" where
  "risk_view r = \<lparr>ro_id = re_id r, ro_symbol = re_symbol r, ro_timeframe = re_timeframe r, ro_bucket_ts = re_bucket_ts r,
     ro_position_size_units = map_option fl (re_position_size_units r), ro_price = map_option fl (re_price r),
     ro_atr = map_option fl (re_atr r), ro_stop_loss = map_option fl (re_stop_loss r), ro_take_profit = map_option fl (re_take_profit r),
     ro_rr_ratio = map_option fl (re_rr_ratio r), ro_risk_pct_account = map_option fl (re_risk_pct_account r),
     ro_exposure_ok = re_exposure_ok r, ro_correlation_ok = re_correlation_ok r, ro_daily_loss_ok = re_daily_loss_ok r,
     ro_drawdown_ok = re_drawdown_ok r, ro_passed_all = re_passed r, ro_reasons = re_reasons r, ro_evaluated_at = re_evaluated_at r\<rparr>"

definition latest_decision ::
  "'tok crypto \<Rightarrow> auth_env \<Rightarrow> 'tok option \<Rightarrow> auth_db \<Rightarrow> datetime \<Rightarrow> string \<Rightarrow> string \<Rightarrow> bool \<Rightarrow> decision_row list \<Rightarrow> read_error + decision_out option" where
  "latest_decision cy env credentials db now symbol timeframe fresh_only rows =
     viewer_call cy env credentials db (symbol_query symbol \<and> tf_is_valid timeframe)
       (Inr (case parse_timeframe (upper timeframe) of None \<Rightarrow> None
        | Some tf \<Rightarrow> map_option decision_view (load_latest_decision symbol tf (if fresh_only then Some now else None) rows)))"

definition decision_history ::
  "'tok crypto \<Rightarrow> auth_env \<Rightarrow> 'tok option \<Rightarrow> auth_db \<Rightarrow> string \<Rightarrow> string \<Rightarrow> nat \<Rightarrow> string \<Rightarrow> decision_row list \<Rightarrow> read_error + decision_out list" where
  "decision_history cy env credentials db symbol timeframe limit order rows =
     viewer_call cy env credentials db (symbol_query symbol \<and> tf_is_valid timeframe \<and> limit_query 200 limit \<and> order \<in> {''asc'', ''desc''})
       (Inr (case parse_timeframe (upper timeframe) of None \<Rightarrow> []
        | Some tf \<Rightarrow> map decision_view (load_decisions symbol tf limit order rows)))"

definition risk_evaluations ::
  "'tok crypto \<Rightarrow> auth_env \<Rightarrow> 'tok option \<Rightarrow> auth_db \<Rightarrow> string \<Rightarrow> string \<Rightarrow> nat \<Rightarrow> risk_evaluation_row list \<Rightarrow> read_error + risk_out list" where
  "risk_evaluations cy env credentials db symbol timeframe limit rows =
     viewer_call cy env credentials db (symbol_query symbol \<and> tf_is_valid timeframe \<and> limit_query 200 limit)
       (Inr (case parse_timeframe (upper timeframe) of None \<Rightarrow> []
        | Some tf \<Rightarrow> map risk_view (load_risk_evaluations symbol tf limit rows)))"

section \<open>Backtests\<close>

record run_out =
  rv_id :: uuid
  rv_status :: bt_status
  rv_metrics :: "(string \<times> json) list"
  rv_error :: "string option"
  rv_seed :: int
  rv_started_at :: datetime
  rv_finished_at :: "datetime option"

definition run_view :: "bt_run \<Rightarrow> run_out" where
  "run_view r = \<lparr>rv_id = rn_id r, rv_status = rn_status r, rv_metrics = rn_metrics r, rv_error = rn_error r, rv_seed = rn_seed r,
     rv_started_at = rn_started_at r, rv_finished_at = rn_finished_at r\<rparr>"

record trade_out =
  tv_symbol :: string
  tv_timeframe :: timeframe
  tv_side :: direction
  tv_units :: f64
  tv_entry_ts :: datetime
  tv_entry_price :: f64
  tv_exit_ts :: datetime
  tv_exit_price :: f64
  tv_gross_pnl :: f64
  tv_costs :: f64
  tv_net_pnl :: f64
  tv_exit_reason :: string

definition trade_view :: "bt_trade_row \<Rightarrow> trade_out" where
  "trade_view r = \<lparr>tv_symbol = bx_symbol r, tv_timeframe = bx_timeframe r, tv_side = bx_side r, tv_units = fl (bx_units r),
     tv_entry_ts = bx_entry_ts r, tv_entry_price = fl (bx_entry_price r), tv_exit_ts = bx_exit_ts r, tv_exit_price = fl (bx_exit_price r),
     tv_gross_pnl = fl (bx_gross_pnl r), tv_costs = fl (bx_costs r), tv_net_pnl = fl (bx_net_pnl r), tv_exit_reason = bx_exit_reason r\<rparr>"

definition list_backtests :: "'tok crypto \<Rightarrow> auth_env \<Rightarrow> 'tok option \<Rightarrow> auth_db \<Rightarrow> nat \<Rightarrow> bt_db \<Rightarrow> read_error + run_out list" where
  "list_backtests cy env credentials db limit bt =
     viewer_call cy env credentials db (limit_query 100 limit) (Inr (map run_view (list_runs limit bt)))"

definition get_backtest :: "'tok crypto \<Rightarrow> auth_env \<Rightarrow> 'tok option \<Rightarrow> auth_db \<Rightarrow> uuid \<Rightarrow> bt_db \<Rightarrow> read_error + run_out" where
  "get_backtest cy env credentials db run_id bt =
     viewer_call cy env credentials db True
       (case get_run run_id bt of None \<Rightarrow> Inl (not_found (''backtest run '' @ uuid_str run_id @ '' not found'')) | Some r \<Rightarrow> Inr (run_view r))"

definition backtest_trades :: "'tok crypto \<Rightarrow> auth_env \<Rightarrow> 'tok option \<Rightarrow> auth_db \<Rightarrow> uuid \<Rightarrow> bt_db \<Rightarrow> read_error + trade_out list" where
  "backtest_trades cy env credentials db run_id bt = viewer_call cy env credentials db True (Inr (map trade_view (get_trades run_id bt)))"

definition backtest_equity :: "'tok crypto \<Rightarrow> auth_env \<Rightarrow> 'tok option \<Rightarrow> auth_db \<Rightarrow> uuid \<Rightarrow> bt_db \<Rightarrow> read_error + (datetime \<times> f64 \<times> f64) list" where
  "backtest_equity cy env credentials db run_id bt = viewer_call cy env credentials db True
     (Inr (map (\<lambda>r. (bq_ts r, fl (bq_equity r), fl (bq_drawdown_pct r))) (get_equity run_id bt)))"

section \<open>Alerts and content\<close>

record alert_list =
  av_items :: "alert_row list"
  av_total :: nat
  av_limit :: int
  av_offset :: int

definition read_alerts ::
  "'tok crypto \<Rightarrow> auth_env \<Rightarrow> 'tok option \<Rightarrow> auth_db \<Rightarrow> string option \<Rightarrow> string option \<Rightarrow> bool option \<Rightarrow> int \<Rightarrow> int \<Rightarrow> alert_row list
   \<Rightarrow> read_error + alert_list" where
  "read_alerts cy env credentials db source event_type acknowledged limit offset rows =
     viewer_call cy env credentials db True
       (if limit < 1 \<or> 500 < limit \<or> offset < 0 then Inl (ApiError InvalidInputError)
        else let items = list_alerts source event_type acknowledged (nat limit) (nat offset) rows
          in Inr \<lparr>av_items = items, av_total = length items, av_limit = limit, av_offset = offset\<rparr>)"

text \<open>
  The update of the alert and the audit row commit together or not at all: a name longer than its column
  is refused by the update when it hits a row, and by the audit row in any case.
\<close>

definition acknowledge_alert ::
  "'tok crypto \<Rightarrow> auth_env \<Rightarrow> 'tok option \<Rightarrow> datetime \<Rightarrow> string \<Rightarrow> auth_db \<times> alert_row list \<Rightarrow> (api_error + alert_row) \<times> auth_db \<times> alert_row list" where
  "acknowledge_alert cy env credentials now event_id w =
     (let (db, rows) = w in
      case require_role cy env ''admin'' credentials db of
        Inl e \<Rightarrow> (Inl (AppError e), w)
      | Inr admin \<Rightarrow>
          let (hit, rows') = ack_alert event_id (u_email admin) now rows in
          if hit \<and> 128 < length (u_email admin) then (Inl (AppError app_error.DatabaseError), w)
          else (case get_alert event_id rows' of
              None \<Rightarrow> (Inl (AppError (NotFoundError (''alert '' @ [CHR 0x27] @ event_id @ [CHR 0x27] @ '' not found''))), w)
            | Some r \<Rightarrow> (case apply_write (admin_audit env admin ''admin.alert_acknowledged'' ''alert_event'' event_id
                  [(''acknowledged_at'', case al_acknowledged_at r of None \<Rightarrow> JNull | Some t \<Rightarrow> JStr (isoformat t))]) db of
                None \<Rightarrow> (Inl (AppError app_error.DatabaseError), w)
              | Some db' \<Rightarrow> (Inr r, db', rows'))))"

definition list_news :: "'tok crypto \<Rightarrow> auth_env \<Rightarrow> 'tok option \<Rightarrow> auth_db \<Rightarrow> string option \<Rightarrow> datetime option \<Rightarrow> nat \<Rightarrow> news_row list \<Rightarrow> read_error + news_row list" where
  "list_news cy env credentials db symbol since limit rows =
     viewer_call cy env credentials db ((case symbol of None \<Rightarrow> True | Some s \<Rightarrow> symbol_query s) \<and> limit_query 200 limit)
       (Inr (load_recent_news (map_option (\<lambda>s. [s]) symbol) limit since rows))"

definition list_events ::
  "'tok crypto \<Rightarrow> auth_env \<Rightarrow> 'tok option \<Rightarrow> auth_db \<Rightarrow> string option \<Rightarrow> datetime option \<Rightarrow> datetime option \<Rightarrow> nat \<Rightarrow> event_row list
   \<Rightarrow> read_error + event_row list" where
  "list_events cy env credentials db currency since until limit rows =
     viewer_call cy env credentials db ((case currency of None \<Rightarrow> True | Some c \<Rightarrow> length c = 3) \<and> limit_query 200 limit)
       (Inr (load_events (map_option (\<lambda>c. [c]) currency) limit since until rows))"

section \<open>From the provider to the price page\<close>

lemma parse_quote:
  assumes "loads (dumps (JDict (quote source symbol c))) = Some (JDict (quote source symbol c))"
    "parse_iso (isoformat (cd_bucket_start c)) = Some (cd_bucket_start c)"
  shows "parse_price loads parse_iso decimal symbol (dumps (JDict (quote source symbol c)))
    = Some \<lparr>lp_symbol = symbol, lp_price = to_dec (fl (cd_close c)), lp_bucket_start = Some (cd_bucket_start c), lp_synthetic = (source = ''synthetic'')\<rparr>"
  using assms by (simp add: parse_price_def quote_def json_get_def)

lemma parse_price_symbol: "parse_price loads parse_iso decimal symbol raw = Some p \<Longrightarrow> lp_symbol p = symbol"
  by (auto simp: parse_price_def split: option.splits json.splits)

lemma map_filter_mem: "set (List.map_filter f xs) = {y. \<exists>x\<in>set xs. f x = Some y}"
  by (induction xs) (auto simp: List.map_filter_simps split: option.splits)

text \<open>
  C40. The price of a new bar reaches the reader. After a series that stores bars, with Redis reachable, a reader who
  asks for its symbol gets exactly one price: the close of the newest of these bars, the decimal that
  the rounded binary number prints as, with the bar's start. The page of all prices lists it only where the
  symbol is in the environment's settings: a symbol an administrator configured at run time is ingested
  and cached but never listed.
\<close>

theorem quote_reaches_reader:
  assumes "get_current_user cy env credentials db = Inr user" "ie_up v = (\<lambda>_. True)"
    "fetched_candles (ie_settings v) (ie_now v) (ie_provider v) fs fe ins tf st = cs" "cs \<noteq> []"
    "live_series v fs fe ins tf (st, b) = (r, st', b')"
    "symbol_query (i_symbol ins)" "upper (i_symbol ins) = i_symbol ins"
    "j = JDict (quote (ie_source v) (i_symbol ins) (newest_candle cs))" "loads (ie_dumps v j) = Some j"
    "parse_iso (isoformat (cd_bucket_start (newest_candle cs))) = Some (cd_bucket_start (newest_candle cs))"
    "shown = \<lparr>lp_symbol = i_symbol ins, lp_price = to_dec (fl (cd_close (newest_candle cs))),
       lp_bucket_start = Some (cd_bucket_start (newest_candle cs)), lp_synthetic = (ie_source v = ''synthetic'')\<rparr>"
  shows "latest_prices loads parse_iso decimal cy env credentials db s (Some (i_symbol ins)) (Some (bu_values b')) = Inr [shown]
    \<and> (\<exists>page. latest_prices loads parse_iso decimal cy env credentials db s None (Some (bu_values b')) = Inr page
        \<and> (i_symbol ins \<in> set (market_symbols s) \<longrightarrow> shown \<in> set page)
        \<and> (i_symbol ins \<notin> set (market_symbols s) \<longrightarrow> i_symbol ins \<notin> lp_symbol ` set page))"
proof (intro conjI)
  let ?f = "\<lambda>sym. Option.bind (bu_values b' (latest_price_key sym)) (parse_price loads parse_iso decimal sym)"
  have "bu_values b' (latest_price_key (i_symbol ins)) = Some (ie_dumps v (JDict (quote (ie_source v) (i_symbol ins) (newest_candle cs))))"
    using live_series_up(1) [OF assms(2-5)] by simp
  then have f: "?f (i_symbol ins) = Some shown" using parse_quote [where loads = loads and dumps = "ie_dumps v" and parse_iso = parse_iso and source = "ie_source v" and symbol = "i_symbol ins"
        and c = "newest_candle cs" and decimal = decimal, OF assms(9) [unfolded assms(8)] assms(10)] assms(11) by simp
  show "latest_prices loads parse_iso decimal cy env credentials db s (Some (i_symbol ins)) (Some (bu_values b')) = Inr [shown]"
    using assms(1,6,7) f by (simp add: latest_prices_def viewer_call_def List.map_filter_simps)
  have "latest_prices loads parse_iso decimal cy env credentials db s None (Some (bu_values b')) = Inr (List.map_filter ?f (market_symbols s))"
    using assms(1) by (simp add: latest_prices_def viewer_call_def)
  moreover have "shown \<in> set (List.map_filter ?f (market_symbols s))" if "i_symbol ins \<in> set (market_symbols s)"
    using that f unfolding map_filter_mem by blast
  moreover
  have "lp_symbol p \<in> set (market_symbols s)" if p: "p \<in> set (List.map_filter ?f (market_symbols s))" for p
  proof -
    obtain x where x: "x \<in> set (market_symbols s)" "?f x = Some p" using p unfolding map_filter_mem by blast
    then obtain raw where "parse_price loads parse_iso decimal x raw = Some p" by (auto simp: bind_eq_Some_conv)
    then show ?thesis using parse_price_symbol x(1) by metis
  qed
  then have "i_symbol ins \<notin> lp_symbol ` set (List.map_filter ?f (market_symbols s))" if "i_symbol ins \<notin> set (market_symbols s)"
    using that by force
  ultimately show "\<exists>page. latest_prices loads parse_iso decimal cy env credentials db s None (Some (bu_values b')) = Inr page
        \<and> (i_symbol ins \<in> set (market_symbols s) \<longrightarrow> shown \<in> set page)
        \<and> (i_symbol ins \<notin> set (market_symbols s) \<longrightarrow> i_symbol ins \<notin> lp_symbol ` set page)"
    by (intro exI [of _ "List.map_filter ?f (market_symbols s)"] conjI impI)
qed

section \<open>Acknowledging twice\<close>

lemma ack_alert_done:
  assumes "\<forall>r\<in>set rows. al_event_id r = event_id \<longrightarrow> al_acknowledged_at r \<noteq> None"
  shows "ack_alert event_id who now rows = (False, rows)"
proof -
  have "map (\<lambda>r. if al_event_id r = event_id \<and> al_acknowledged_at r = None then r\<lparr>al_acknowledged_at := Some now, al_acknowledged_by := Some who\<rparr> else r) rows = rows"
    using assms by (intro map_idI) auto
  then show ?thesis using assms by (auto simp: ack_alert_def Let_def list_ex_iff)
qed

text \<open>
  The first acknowledgement wins, every one is audited. Once an alert is acknowledged a later request of any
  admin answers the alert as it is and changes no alert, but adds an audit row that names the later
  admin beside the time of the first acknowledgement.
\<close>

theorem second_acknowledgement:
  assumes "require_role cy env ''admin'' credentials db = Inr admin" "get_alert event_id rows = Some r"
    "\<forall>x\<in>set rows. al_event_id x = event_id \<longrightarrow> al_acknowledged_at x = Some t"
    "au = \<lparr>au_actor = u_email admin, au_action = ''admin.alert_acknowledged'', au_entity_type = Some ''alert_event'',
       au_entity_id = Some event_id, au_before = None, au_after = Some [(''acknowledged_at'', JStr (isoformat t))], au_ip = ae_ip env\<rparr>"
  shows "acknowledge_alert cy env credentials now event_id (db, rows)
    = (if audit_fits au then (Inr r, db\<lparr>audits := audits db @ [au]\<rparr>, rows) else (Inl (AppError app_error.DatabaseError), db, rows))"
proof -
  have "ack_alert event_id (u_email admin) now rows = (False, rows)" using assms(3) by (intro ack_alert_done) auto
  moreover have "al_acknowledged_at r = Some t"
    using find_SomeD [OF assms(2) [unfolded get_alert_def]] assms(3) by blast
  ultimately show ?thesis
    using assms(1,2) by (simp add: acknowledge_alert_def admin_audit_def assms(4) split: prod.splits)
qed

section \<open>Witnesses\<close>

lemma demo_reader: "get_current_user wordy_crypto (demo_env 3) (Some demo_access) (aw_auth demo_world) = Inr demo_user"
  using wordy_admin by (auto simp: require_role_def split: sum.splits if_splits)

text \<open>The bar of the demonstration cycle is shown; the page of an environment with other symbols is empty of it.\<close>

theorem quote_reaches_reader_witness:
  "case live_series demo_ingest None None demo_instrument H1 (demo_state, priced_bus) of (r, st', b') \<Rightarrow>
     \<exists>p. latest_prices (\<lambda>_. Some (JDict (quote ''x'' ''EURUSD'' (demo_bar (10 * tf_step H1 - days_td 2))))) (\<lambda>_. Some (10 * tf_step H1 - days_td 2)) (\<lambda>_. None)
       wordy_crypto (demo_env 3) (Some demo_access) (aw_auth demo_world) default_settings (Some ''EURUSD'') (Some (bu_values b')) = Inr [p]"
proof -
  let ?s = "10 * tf_step H1 - days_td 2"
  obtain r st' b' where l: "live_series demo_ingest None None demo_instrument H1 (demo_state, priced_bus) = (r, st', b')" by (metis prod_cases3)
  have w: "fetch_window (ie_settings demo_ingest) (last_closed_ts (i_id demo_instrument) H1 (is_market demo_state)) H1 (ie_now demo_ingest) None None
      = (?s, 10 * tf_step H1)" by code_simp
  have t: "?s < 10 * tf_step H1" by code_simp
  have cs: "fetched_candles (ie_settings demo_ingest) (ie_now demo_ingest) (ie_provider demo_ingest) None None demo_instrument H1 demo_state = [demo_bar ?s]"
    using t unfolding fetched_candles_def w Let_def
    by (simp add: demo_ingest_def demo_state_def before_call_def new_breaker_def demo_bar_def)
  have i: "i_symbol demo_instrument = ''EURUSD''" "ie_source demo_ingest = ''x''" "ie_up demo_ingest = (\<lambda>_. True)"
    by (simp_all add: demo_instrument_def demo_ingest_def)
  have q: "symbol_query (i_symbol demo_instrument)" "upper (i_symbol demo_instrument) = i_symbol demo_instrument"
    unfolding i by code_simp+
  have n: "newest_candle [demo_bar ?s] = demo_bar ?s" "cd_bucket_start (demo_bar ?s) = ?s" by (simp_all add: demo_bar_def)
  show ?thesis unfolding l
    using quote_reaches_reader [OF demo_reader i(3) cs _ l q refl _ _ refl, where s = default_settings and decimal = "\<lambda>_. None"
        and loads = "\<lambda>_. Some (JDict (quote ''x'' ''EURUSD'' (demo_bar ?s)))" and parse_iso = "\<lambda>_. Some ?s"]
    unfolding i n by auto
qed

definition acked_alert :: alert_row where
  "acked_alert = (alert_row_of 1 \<lparr>al_event_id = ''e'', al_event_type = ''alert.system'', al_source = ''s'', al_severity = ''info'', al_title = ''t'',
     al_message = None, al_symbol = None, al_timeframe = None, al_producer = ''p'', al_correlation_id = None, al_occurred_at = 0, al_payload = []\<rparr>)
     \<lparr>al_acknowledged_at := Some 5, al_acknowledged_by := Some ''first''\<rparr>"

theorem second_acknowledgement_witness:
  "case acknowledge_alert wordy_crypto (demo_env 3) (Some demo_access) 9 ''e'' (aw_auth demo_world, [acked_alert]) of
     (answer, db, rows) \<Rightarrow> answer = Inr acked_alert \<and> rows = [acked_alert] \<and> length (audits db) = 1"
proof -
  have a: "get_alert ''e'' [acked_alert] = Some acked_alert"
    "\<forall>x\<in>set [acked_alert]. al_event_id x = ''e'' \<longrightarrow> al_acknowledged_at x = Some 5"
    by (simp_all add: get_alert_def acked_alert_def alert_row_of_def alert_in.defs)
  show ?thesis
    unfolding second_acknowledgement [OF wordy_admin a refl, of 9]
    by (simp add: audit_fits_def fits_def demo_user_def demo_env_def demo_world_def)
qed

end
